(* ===== verification/Doc_Prelude.thy ===== *)
theory Doc_Prelude
  imports Main
begin

text \<open>
  Shared material of the development: the transaction monad in which the database services are
  written (a read or write of the tables either raises, and then the surrounding
  \<open>engine.begin()\<close> block rolls back, or returns a value and the new tables), a small Hoare
  logic for it, and facts on lists and options the components share.
\<close>

named_theorems tx_simps \<open>characteristic equations of successful database steps\<close>
named_theorems tx_rules \<open>Hoare rules of the transaction monad\<close>

section \<open>Results\<close>

type_synonym ('e, 'a) result = "'e + 'a"

definition bind_result :: "('e, 'a) result \<Rightarrow> ('a \<Rightarrow> ('e, 'b) result) \<Rightarrow> ('e, 'b) result" where
  "bind_result r f = (case r of Inl e \<Rightarrow> Inl e | Inr x \<Rightarrow> f x)"

lemma bind_result_simps [simp]:
  "bind_result (Inl e) f = Inl e"
  "bind_result (Inr x) f = f x"
  by (simp_all add: bind_result_def)

lemma bind_result_eq_Inr [simp]:
  "bind_result r f = Inr y \<longleftrightarrow> (\<exists>x. r = Inr x \<and> f x = Inr y)"
  by (cases r) auto

lemma bind_result_eq_Inl:
  "bind_result r f = Inl e \<longleftrightarrow> r = Inl e \<or> (\<exists>x. r = Inr x \<and> f x = Inl e)"
  by (cases r) auto

text \<open>A \<open>for\<close> loop or a comprehension whose body may raise.\<close>

fun map_result :: "('a \<Rightarrow> ('e, 'b) result) \<Rightarrow> 'a list \<Rightarrow> ('e, 'b list) result" where
  "map_result f [] = Inr []"
| "map_result f (x # xs) =
     bind_result (f x) (\<lambda>y. bind_result (map_result f xs) (\<lambda>ys. Inr (y # ys)))"

lemma map_result_length: "map_result f xs = Inr ys \<Longrightarrow> length ys = length xs"
  by (induction xs arbitrary: ys) auto

lemma map_result_Inr_iff:
  "map_result f xs = Inr ys \<longleftrightarrow> list_all2 (\<lambda>x y. f x = Inr y) xs ys"
  by (induction xs arbitrary: ys) (auto simp: list_all2_Cons1)

lemma map_result_total:
  "\<forall>x\<in>set xs. f x = Inr (g x) \<Longrightarrow> map_result f xs = Inr (map g xs)"
  by (induction xs) auto

lemma map_result_Inl_iff:
  "(\<exists>e. map_result f xs = Inl e) \<longleftrightarrow> (\<exists>x\<in>set xs. \<exists>e. f x = Inl e)"
proof (induction xs)
  case Nil
  show ?case by simp
next
  case (Cons x xs)
  show ?case
  proof (cases "f x")
    case (Inl e)
    then show ?thesis by simp
  next
    case (Inr y)
    then show ?thesis using Cons by (cases "map_result f xs") auto
  qed
qed

section \<open>Transactions\<close>

type_synonym ('s, 'e, 'a) tx = "'s \<Rightarrow> ('e, 'a \<times> 's) result"

definition tx_return :: "'a \<Rightarrow> ('s, 'e, 'a) tx" where
  "tx_return x = (\<lambda>s. Inr (x, s))"

definition tx_raise :: "'e \<Rightarrow> ('s, 'e, 'a) tx" where
  "tx_raise e = (\<lambda>s. Inl e)"

definition tx_bind :: "('s, 'e, 'a) tx \<Rightarrow> ('a \<Rightarrow> ('s, 'e, 'b) tx) \<Rightarrow> ('s, 'e, 'b) tx" where
  "tx_bind m f = (\<lambda>s. case m s of Inl e \<Rightarrow> Inl e | Inr (x, s') \<Rightarrow> f x s')"

definition tx_read :: "('s \<Rightarrow> 'a) \<Rightarrow> ('s, 'e, 'a) tx" where
  "tx_read g = (\<lambda>s. Inr (g s, s))"

definition tx_write :: "('s \<Rightarrow> 's) \<Rightarrow> ('s, 'e, unit) tx" where
  "tx_write f = (\<lambda>s. Inr ((), f s))"

definition tx_lift :: "('e, 'a) result \<Rightarrow> ('s, 'e, 'a) tx" where
  "tx_lift r = (\<lambda>s. case r of Inl e \<Rightarrow> Inl e | Inr x \<Rightarrow> Inr (x, s))"

definition tx_guard :: "bool \<Rightarrow> 'e \<Rightarrow> ('s, 'e, unit) tx" where
  "tx_guard b e = (if b then tx_return () else tx_raise e)"

fun tx_map :: "('a \<Rightarrow> ('s, 'e, 'b) tx) \<Rightarrow> 'a list \<Rightarrow> ('s, 'e, 'b list) tx" where
  "tx_map f [] = tx_return []"
| "tx_map f (x # xs) =
     tx_bind (f x) (\<lambda>y. tx_bind (tx_map f xs) (\<lambda>ys. tx_return (y # ys)))"

text \<open>
  \<open>with engine.begin() as connection\<close>: an exception rolls the tables back, otherwise the new
  tables are committed.
\<close>

definition transaction :: "('s, 'e, 'a) tx \<Rightarrow> 's \<Rightarrow> ('e, 'a) result \<times> 's" where
  "transaction m s = (case m s of Inl e \<Rightarrow> (Inl e, s) | Inr (x, s') \<Rightarrow> (Inr x, s'))"

lemma tx_return_iff [simp]: "tx_return x s = Inr (y, s') \<longleftrightarrow> y = x \<and> s' = s"
  by (auto simp: tx_return_def)

lemma tx_return_ne_Inl [simp]: "tx_return x s \<noteq> Inl e"
  by (simp add: tx_return_def)

lemma tx_raise_simps [simp]: "tx_raise e s = Inl e" "tx_raise e s \<noteq> Inr r"
  by (simp_all add: tx_raise_def)

lemma tx_bind_iff [simp]:
  "tx_bind m f s = Inr (y, s'') \<longleftrightarrow> (\<exists>x s'. m s = Inr (x, s') \<and> f x s' = Inr (y, s''))"
  by (auto simp: tx_bind_def split: sum.splits)

lemma tx_bind_Inl_iff:
  "tx_bind m f s = Inl e \<longleftrightarrow> m s = Inl e \<or> (\<exists>x s'. m s = Inr (x, s') \<and> f x s' = Inl e)"
  by (auto simp: tx_bind_def split: sum.splits)

lemma tx_bind_step: "m s = Inr (x, s') \<Longrightarrow> tx_bind m f s = f x s'"
  by (simp add: tx_bind_def)

lemma tx_bind_fail: "m s = Inl e \<Longrightarrow> tx_bind m f s = Inl e"
  by (simp add: tx_bind_def)

lemma tx_read_iff [simp]: "tx_read g s = Inr (x, s') \<longleftrightarrow> x = g s \<and> s' = s"
  by (auto simp: tx_read_def)

lemma tx_read_ne_Inl [simp]: "tx_read g s \<noteq> Inl e"
  by (simp add: tx_read_def)

lemma tx_write_iff [simp]: "tx_write f s = Inr (x, s') \<longleftrightarrow> s' = f s"
  by (auto simp: tx_write_def)

lemma tx_write_ne_Inl [simp]: "tx_write f s \<noteq> Inl e"
  by (simp add: tx_write_def)

lemma tx_lift_iff [simp]: "tx_lift r s = Inr (x, s') \<longleftrightarrow> r = Inr x \<and> s' = s"
  by (auto simp: tx_lift_def split: sum.splits)

lemma tx_lift_Inl_iff [simp]: "tx_lift r s = Inl e \<longleftrightarrow> r = Inl e"
  by (auto simp: tx_lift_def split: sum.splits)

lemma tx_guard_iff [simp]: "tx_guard b e s = Inr (x, s') \<longleftrightarrow> b \<and> s' = s"
  by (auto simp: tx_guard_def)

lemma tx_guard_Inl_iff [simp]: "tx_guard b e s = Inl e' \<longleftrightarrow> \<not> b \<and> e' = e"
  by (auto simp: tx_guard_def)

lemma tx_option_raise_iff [simp]:
  "(case opt of None \<Rightarrow> tx_raise e | Some x \<Rightarrow> f x) s = Inr r \<longleftrightarrow> (\<exists>x. opt = Some x \<and> f x s = Inr r)"
  by (cases opt) auto

lemma tx_if_raise_iff [simp]:
  "(if b then tx_raise e else m) s = Inr r \<longleftrightarrow> \<not> b \<and> m s = Inr r"
  by simp

lemmas tx_defs = tx_return_def tx_raise_def tx_bind_def tx_read_def tx_write_def tx_lift_def
  tx_guard_def

lemma transaction_commit: "m s = Inr (x, s') \<Longrightarrow> transaction m s = (Inr x, s')"
  by (simp add: transaction_def)

lemma transaction_rollback: "m s = Inl e \<Longrightarrow> transaction m s = (Inl e, s)"
  by (simp add: transaction_def)

lemma transaction_cases:
  obtains (rollback) e where "m s = Inl e" "transaction m s = (Inl e, s)"
  | (commit) x s' where "m s = Inr (x, s')" "transaction m s = (Inr x, s')"
  by (cases "m s") (auto simp: transaction_def)

text \<open>The tables after a transaction.\<close>

definition committed :: "('s, 'e, 'a) tx \<Rightarrow> 's \<Rightarrow> 's" where
  "committed m s = snd (transaction m s)"

lemma committed_run: "fst (transaction m s) = Inr x \<Longrightarrow> m s = Inr (x, committed m s)"
  by (cases "m s") (auto simp: committed_def transaction_def)

section \<open>A Hoare logic for transactions\<close>

text \<open>
  \<open>tx_valid P m Q\<close>: from a state with \<open>P\<close>, whenever \<open>m\<close> returns, \<open>Q\<close> holds of the value and
  the new state. A raised error commits nothing, so nothing is asked of it.
\<close>

definition tx_valid :: "('s \<Rightarrow> bool) \<Rightarrow> ('s, 'e, 'a) tx \<Rightarrow> ('a \<Rightarrow> 's \<Rightarrow> bool) \<Rightarrow> bool" where
  "tx_valid P m Q \<longleftrightarrow> (\<forall>s x s'. P s \<longrightarrow> m s = Inr (x, s') \<longrightarrow> Q x s')"

lemma tx_validI: "(\<And>s x s'. P s \<Longrightarrow> m s = Inr (x, s') \<Longrightarrow> Q x s') \<Longrightarrow> tx_valid P m Q"
  by (simp add: tx_valid_def)

lemma tx_validD: "tx_valid P m Q \<Longrightarrow> P s \<Longrightarrow> m s = Inr (x, s') \<Longrightarrow> Q x s'"
  by (simp add: tx_valid_def)

lemma tx_valid_return [tx_rules]: "tx_valid (Q x) (tx_return x) Q"
  by (auto simp: tx_valid_def)

lemma tx_valid_raise [tx_rules]: "tx_valid P (tx_raise e) Q"
  by (auto simp: tx_valid_def)

lemma tx_valid_bind:
  "tx_valid P m R \<Longrightarrow> (\<And>x. tx_valid (R x) (f x) Q) \<Longrightarrow> tx_valid P (tx_bind m f) Q"
  by (fastforce simp: tx_valid_def)

lemma tx_valid_weaken:
  "tx_valid P m Q \<Longrightarrow> (\<And>s. P' s \<Longrightarrow> P s) \<Longrightarrow> (\<And>x s. Q x s \<Longrightarrow> Q' x s) \<Longrightarrow> tx_valid P' m Q'"
  by (rule tx_validI) (blast dest: tx_validD)

text \<open>Keeping an invariant, the triple most lemmas of the services are about.\<close>

definition tx_keeps :: "('s \<Rightarrow> bool) \<Rightarrow> ('s, 'e, 'a) tx \<Rightarrow> bool" where
  "tx_keeps I m \<longleftrightarrow> tx_valid I m (\<lambda>_. I)"

lemma tx_keepsI: "(\<And>s x s'. I s \<Longrightarrow> m s = Inr (x, s') \<Longrightarrow> I s') \<Longrightarrow> tx_keeps I m"
  by (simp add: tx_keeps_def tx_valid_def)

lemma tx_keepsD: "tx_keeps I m \<Longrightarrow> m s = Inr (x, s') \<Longrightarrow> I s \<Longrightarrow> I s'"
  by (auto simp: tx_keeps_def tx_valid_def)

lemma tx_keeps_return [tx_rules]: "tx_keeps I (tx_return x)"
  by (auto intro: tx_keepsI)

lemma tx_keeps_raise [tx_rules]: "tx_keeps I (tx_raise e)"
  by (auto intro: tx_keepsI)

lemma tx_keeps_read [tx_rules]: "tx_keeps I (tx_read g)"
  by (auto intro: tx_keepsI)

lemma tx_keeps_lift [tx_rules]: "tx_keeps I (tx_lift r)"
  by (auto intro: tx_keepsI)

lemma tx_keeps_guard [tx_rules]: "tx_keeps I (tx_guard b e)"
  by (auto intro: tx_keepsI)

lemma tx_keeps_write: "(\<And>s. I s \<Longrightarrow> I (f s)) \<Longrightarrow> tx_keeps I (tx_write f)"
  by (auto intro: tx_keepsI)

lemma tx_keeps_bind [tx_rules]:
  "tx_keeps I m \<Longrightarrow> (\<And>x. tx_keeps I (f x)) \<Longrightarrow> tx_keeps I (tx_bind m f)"
  by (rule tx_keepsI) (auto dest: tx_keepsD)

lemma tx_keeps_map [tx_rules]: "(\<And>x. tx_keeps I (f x)) \<Longrightarrow> tx_keeps I (tx_map f xs)"
  by (induction xs) (auto intro!: tx_keeps_bind tx_keeps_return)

lemma tx_keeps_if [tx_rules]: "tx_keeps I m \<Longrightarrow> tx_keeps I n \<Longrightarrow> tx_keeps I (if b then m else n)"
  by simp

lemma tx_keeps_option [tx_rules]:
  "tx_keeps I m \<Longrightarrow> (\<And>x. tx_keeps I (f x)) \<Longrightarrow>
   tx_keeps I (case opt of None \<Rightarrow> m | Some x \<Rightarrow> f x)"
  by (cases opt) auto

lemma transaction_keeps: "tx_keeps I m \<Longrightarrow> I s \<Longrightarrow> I (snd (transaction m s))"
  by (rule transaction_cases [of m s]) (auto dest: tx_keepsD)

text \<open>
  A loop whose body establishes \<open>Q\<close> of each of its results, which the later iterations keep.
\<close>

lemma tx_map_each:
  assumes "I s" "tx_map f xs s = Inr (ys, s')"
    and "\<And>x s y s'. I s \<Longrightarrow> f x s = Inr (y, s') \<Longrightarrow> I s' \<and> Q y s'"
    and "\<And>x s y s' z. I s \<Longrightarrow> Q z s \<Longrightarrow> f x s = Inr (y, s') \<Longrightarrow> Q z s'"
  shows "I s' \<and> (\<forall>y\<in>set ys. Q y s')"
proof -
  have keep: "I s' \<and> Q z s'" if "tx_map f xs s = Inr (ys, s')" "I s" "Q z s" for xs ys s z
    using that by (induction xs arbitrary: ys s) (auto, (meson assms(3,4))+)
  show ?thesis
    using assms(1,2)
  proof (induction xs arbitrary: ys s)
    case Nil
    then show ?case by simp
  next
    case (Cons x xs)
    then obtain y s1 zs where y: "f x s = Inr (y, s1)" and zs: "tx_map f xs s1 = Inr (zs, s')"
      and ys: "ys = y # zs"
      by auto
    have s1: "I s1" "Q y s1" using assms(3) [OF Cons.prems(1) y] by auto
    show ?case using Cons.IH [OF s1(1) zs] keep [OF zs s1] by (simp add: ys)
  qed
qed

section \<open>Python containers\<close>

text \<open>
  \<open>dict.fromkeys(xs)\<close>: the distinct elements in the order of their first occurrence.
\<close>

fun dedup_onto :: "'a list \<Rightarrow> 'a list \<Rightarrow> 'a list" where
  "dedup_onto seen [] = []"
| "dedup_onto seen (x # xs) =
     (if List.member seen x then dedup_onto seen xs else x # dedup_onto (x # seen) xs)"

definition dict_fromkeys :: "'a list \<Rightarrow> 'a list" where
  "dict_fromkeys xs = dedup_onto [] xs"

lemma set_dedup_onto: "set (dedup_onto seen xs) = set xs - set seen"
  by (induction xs arbitrary: seen) auto

lemma distinct_dedup_onto: "distinct (dedup_onto seen xs)"
  by (induction xs arbitrary: seen) (auto simp: set_dedup_onto)

lemma set_dict_fromkeys [simp]: "set (dict_fromkeys xs) = set xs"
  by (simp add: dict_fromkeys_def set_dedup_onto)

lemma distinct_dict_fromkeys [simp]: "distinct (dict_fromkeys xs)"
  by (simp add: dict_fromkeys_def distinct_dedup_onto)

text \<open>A dictionary that remembers the insertion order, as Python's does.\<close>

fun dict_set :: "('k \<times> 'v) list \<Rightarrow> 'k \<Rightarrow> 'v \<Rightarrow> ('k \<times> 'v) list" where
  "dict_set [] k v = [(k, v)]"
| "dict_set ((k', v') # d) k v = (if k' = k then (k, v) # d else (k', v') # dict_set d k v)"

lemma map_of_dict_set [simp]: "map_of (dict_set d k v) = (map_of d)(k \<mapsto> v)"
  by (induction d) (auto simp: fun_eq_iff)

lemma keys_dict_set: "map fst (dict_set d k v) = (if k \<in> fst ` set d then map fst d else map fst d @ [k])"
proof (induction d)
  case (Cons p d)
  obtain k' v' where p: "p = (k', v')" by (cases p)
  show ?case using Cons by (cases "k' = k") (simp_all add: p)
qed simp

lemma dict_set_keys_set [simp]: "fst ` set (dict_set d k v) = insert k (fst ` set d)"
proof (induction d)
  case (Cons p d)
  obtain k' v' where p: "p = (k', v')" by (cases p)
  show ?case using Cons by (cases "k' = k") (simp_all add: p insert_commute)
qed simp

lemma distinct_dict_set: "distinct (map fst d) \<Longrightarrow> distinct (map fst (dict_set d k v))"
  by (simp add: keys_dict_set)

fun dict_update :: "('k \<times> 'v) list \<Rightarrow> ('k \<times> 'v) list \<Rightarrow> ('k \<times> 'v) list" where
  "dict_update d [] = d"
| "dict_update d ((k, v) # e) = dict_update (dict_set d k v) e"

lemma map_of_dict_update:
  "distinct (map fst e) \<Longrightarrow> map_of (dict_update d e) = map_of d ++ map_of e"
  by (induction d e rule: dict_update.induct)
    (auto simp: fun_eq_iff map_add_def map_of_eq_None_iff rev_image_eqI split: option.splits)

lemma distinct_dict_update: "distinct (map fst d) \<Longrightarrow> distinct (map fst (dict_update d e))"
  by (induction d e rule: dict_update.induct) (auto intro: distinct_dict_set)

section \<open>SQL aggregates\<close>

text \<open>\<open>SELECT COALESCE(MAX(c), 0) + 1\<close> over a column of integers.\<close>

definition next_number :: "int list \<Rightarrow> int" where
  "next_number ns = (if ns = [] then 0 else Max (set ns)) + 1"

lemma next_number_fresh: "next_number ns \<notin> set ns"
proof
  assume mem: "next_number ns \<in> set ns"
  then have "ns \<noteq> []" by auto
  moreover from mem have "next_number ns \<le> Max (set ns)" by simp
  ultimately show False by (simp add: next_number_def)
qed

lemma next_number_greater: "n \<in> set ns \<Longrightarrow> n < next_number ns"
proof -
  assume mem: "n \<in> set ns"
  then have "n \<le> Max (set ns)" by simp
  with mem show ?thesis by (auto simp: next_number_def)
qed

lemma next_number_pos: "\<forall>n\<in>set ns. 0 < n \<Longrightarrow> 0 < next_number ns"
proof (cases ns)
  case Nil
  then show ?thesis by (simp add: next_number_def)
next
  case (Cons a as)
  assume "\<forall>n\<in>set ns. 0 < n"
  with Cons have "0 < a" by simp
  moreover have "a < next_number ns" using Cons by (intro next_number_greater) simp
  ultimately show ?thesis by simp
qed

lemma next_number_Nil [simp]: "next_number [] = 1"
  by (simp add: next_number_def)

section \<open>Lists of rows\<close>

lemma distinct_map_snoc [simp]:
  "distinct (map f (xs @ [x])) \<longleftrightarrow> distinct (map f xs) \<and> f x \<notin> f ` set xs"
  by auto

lemma distinct_map_eqD: "distinct (map f xs) \<Longrightarrow> x \<in> set xs \<Longrightarrow> y \<in> set xs \<Longrightarrow> f x = f y \<Longrightarrow> x = y"
  by (auto simp: distinct_map inj_on_def)

lemma find_Some_in: "List.find P xs = Some x \<Longrightarrow> x \<in> set xs \<and> P x"
  by (auto simp: find_Some_iff)

lemma find_unique_key:
  assumes "distinct (map f xs)" "x \<in> set xs"
  shows "List.find (\<lambda>y. f y = f x) xs = Some x"
proof (cases "List.find (\<lambda>y. f y = f x) xs")
  case None
  with assms show ?thesis by (auto simp: find_None_iff)
next
  case (Some y)
  then have "y \<in> set xs" "f y = f x" by (auto dest: find_Some_in)
  with assms Some show ?thesis by (auto dest: distinct_map_eqD)
qed

lemma map_if_id: "\<forall>x\<in>set xs. \<not> P x \<Longrightarrow> map (\<lambda>x. if P x then f x else x) xs = xs"
  by (induction xs) auto

end
