(* ===== verification/Py_Uuid.thy ===== *)
theory Py_Uuid
  imports Doc_Prelude "HOL-Library.Word"
begin

text \<open>
  Python's \<open>uuid.UUID\<close> as the code uses it: the 128-bit value, \<open>str(u)\<close>, the parser
  \<open>UUID(text)\<close>, the version field, and the shared validation helper of
  \<open>commands/validation.py\<close>. Identifiers are 128-bit words, so \<open>str\<close> is total and injective.
\<close>

type_synonym uuid = "128 word"

section \<open>Printing\<close>

definition hex_digit :: "nat \<Rightarrow> char" where
  "hex_digit d = ''0123456789abcdef'' ! d"

text \<open>The \<open>k\<close> low hexadecimal digits, most significant first.\<close>

fun hex_digits :: "nat \<Rightarrow> nat \<Rightarrow> string" where
  "hex_digits 0 n = []"
| "hex_digits (Suc k) n = hex_digits k (n div 16) @ [hex_digit (n mod 16)]"

text \<open>\<open>str(u)\<close>: 8-4-4-4-12 digits.\<close>

definition uuid_str :: "uuid \<Rightarrow> string" where
  "uuid_str u = (let h = hex_digits 32 (unat u) in
     take 8 h @ ''-'' @ take 4 (drop 8 h) @ ''-'' @ take 4 (drop 12 h) @ ''-'' @
     take 4 (drop 16 h) @ ''-'' @ drop 20 h)"

section \<open>Parsing\<close>

definition hex_value :: "char \<Rightarrow> nat option" where
  "hex_value c = (let n = (of_char c :: nat) in
     if 48 \<le> n \<and> n \<le> 57 then Some (n - 48)
     else if 97 \<le> n \<and> n \<le> 102 then Some (n - 87)
     else if 65 \<le> n \<and> n \<le> 70 then Some (n - 55)
     else None)"

text \<open>
  \<open>int(s, 16)\<close>: surrounding white space, a sign, a \<open>0x\<close> prefix (which a single underscore may
  follow), then digits in which single underscores may stand between two digits.
\<close>

definition py_space :: "char \<Rightarrow> bool" where
  "py_space c = (let n = (of_char c :: nat) in
     (9 \<le> n \<and> n \<le> 13) \<or> (28 \<le> n \<and> n \<le> 32) \<or> n = 133 \<or> n = 160)"

definition py_strip :: "string \<Rightarrow> string" where
  "py_strip s = rev (dropWhile py_space (rev (dropWhile py_space s)))"

fun hex_number :: "bool \<Rightarrow> nat \<Rightarrow> string \<Rightarrow> nat option" where
  "hex_number after_digit acc [] = (if after_digit then Some acc else None)"
| "hex_number after_digit acc (c # cs) =
     (if c = CHR ''_'' then (if after_digit then hex_number False acc cs else None)
      else (case hex_value c of None \<Rightarrow> None | Some d \<Rightarrow> hex_number True (16 * acc + d) cs))"

definition hex_body :: "string \<Rightarrow> nat option" where
  "hex_body s =
     (if take 2 s = ''0x'' \<or> take 2 s = ''0X''
      then (let r = drop 2 s in hex_number False 0 (if take 1 r = ''_'' then drop 1 r else r))
      else hex_number False 0 s)"

definition py_int16 :: "string \<Rightarrow> int option" where
  "py_int16 s = (case py_strip s of
       [] \<Rightarrow> None
     | c # cs \<Rightarrow>
         (if c = CHR ''-'' then map_option (\<lambda>n. - int n) (hex_body cs)
          else if c = CHR ''+'' then map_option int (hex_body cs)
          else map_option int (hex_body (c # cs))))"

text \<open>\<open>s.replace(pat, '')\<close> for a non-empty pattern: leftmost, non-overlapping.\<close>

fun remove_all :: "nat \<Rightarrow> string \<Rightarrow> string \<Rightarrow> string" where
  "remove_all skip pat [] = []"
| "remove_all (Suc skip) pat (c # cs) = remove_all skip pat cs"
| "remove_all 0 pat (c # cs) =
     (if take (length pat) (c # cs) = pat then remove_all (length pat - 1) pat cs
      else c # remove_all 0 pat cs)"

definition strip_braces :: "string \<Rightarrow> string" where
  "strip_braces s = (let b = (\<lambda>c. c = CHR ''{'' \<or> c = CHR ''}'') in
     rev (dropWhile b (rev (dropWhile b s))))"

text \<open>\<open>UUID(text)\<close>; \<open>None\<close> is the \<open>ValueError\<close>.\<close>

definition uuid_of_string :: "string \<Rightarrow> uuid option" where
  "uuid_of_string s =
     (let h = remove_all 0 ''-'' (strip_braces (remove_all 0 ''uuid:'' (remove_all 0 ''urn:'' s))) in
      if length h \<noteq> 32 then None
      else (case py_int16 h of
          None \<Rightarrow> None
        | Some i \<Rightarrow> if 0 \<le> i \<and> i < 2 ^ 128 then Some (word_of_int i) else None))"

text \<open>\<open>UUID.version\<close>: the version nibble, present only in the RFC 4122 variant.\<close>

definition uuid_version :: "uuid \<Rightarrow> nat option" where
  "uuid_version u = (let n = unat u in
     if (n div 2 ^ 62) mod 4 = 2 then Some ((n div 2 ^ 76) mod 16) else None)"

section \<open>The printed form determines the value\<close>

lemma length_hex_digits [simp]: "length (hex_digits k n) = k"
  by (induction k n rule: hex_digits.induct) auto

lemma less_16_cases:
  "(d::nat) < 16 \<Longrightarrow> d \<in> {0,1,2,3,4,5,6,7,8,9,10,11,12,13,14,15}"
  unfolding insert_iff empty_iff by presburger

lemma hex_value_digit: "d < 16 \<Longrightarrow> hex_value (hex_digit d) = Some d"
  by (drule less_16_cases, elim insertE) (simp_all add: hex_value_def hex_digit_def)

lemma hex_digit_plain: "d < 16 \<Longrightarrow> hex_digit d \<notin> set ''-_{}:u '' \<and> \<not> py_space (hex_digit d)"
  by (drule less_16_cases) (auto simp: hex_digit_def py_space_def Let_def)

lemma hex_digits_set: "set (hex_digits k n) \<subseteq> hex_digit ` {..<16}"
  by (induction k n rule: hex_digits.induct) auto

lemma hex_number_append:
  "(\<forall>c\<in>set xs. c \<noteq> CHR ''_'' \<and> hex_value c \<noteq> None) \<Longrightarrow> xs \<noteq> [] \<Longrightarrow>
   hex_number b acc (xs @ ys) =
     hex_number True (foldl (\<lambda>a c. 16 * a + the (hex_value c)) acc xs) ys"
proof (induction xs arbitrary: b acc)
  case (Cons x xs)
  then show ?case by (cases "xs = []") auto
qed simp

lemma hex_digits_plain: "c \<in> set (hex_digits k n) \<Longrightarrow> c \<noteq> CHR ''_'' \<and> hex_value c \<noteq> None"
  using hex_digits_set [of k n] by (fastforce simp: hex_value_digit dest: hex_digit_plain)

lemma foldl_hex_digits:
  "foldl (\<lambda>a c. 16 * a + the (hex_value c)) acc (hex_digits k n) = 16 ^ k * acc + n mod 16 ^ k"
proof (induction k n arbitrary: acc rule: hex_digits.induct)
  case (1 n)
  show ?case by simp
next
  case (2 k n)
  have "n mod 16 ^ Suc k = 16 * (n div 16 mod 16 ^ k) + n mod 16"
    by (simp add: mod_mult2_eq)
  with 2 show ?case by (simp add: hex_value_digit algebra_simps)
qed

lemma hex_number_digits: "0 < k \<Longrightarrow> hex_number b 0 (hex_digits k n) = Some (n mod 16 ^ k)"
  using hex_number_append [of "hex_digits k n" b 0 "[]"] length_hex_digits [of k n]
  by (metis append_Nil2 foldl_hex_digits hex_digits_plain hex_number.simps(1) list.size(3)
      mult_0_right add_0 neq0_conv)

lemma remove_all_absent:
  assumes "x \<in> set pat" "x \<notin> set s"
  shows "remove_all 0 pat s = s"
  using assms(2)
proof (induction s)
  case (Cons c cs)
  have "take (length pat) (c # cs) \<noteq> pat"
    using assms(1) Cons.prems by (metis in_set_takeD)
  with Cons show ?case by simp
qed simp

lemma remove_all_dash: "remove_all 0 ''-'' s = filter (\<lambda>c. c \<noteq> CHR ''-'') s"
  by (induction s) auto

lemma dropWhile_none: "\<forall>c\<in>set s. \<not> P c \<Longrightarrow> dropWhile P s = s"
  by (cases s) auto

lemma hex_digits_char:
  assumes "c \<in> set (hex_digits k n)"
  shows "c \<notin> set ''-_{}:u ''" "\<not> py_space c" "hex_value c \<noteq> None"
proof -
  obtain d where d: "d < 16" "c = hex_digit d"
    using assms hex_digits_set [of k n] by auto
  show "c \<notin> set ''-_{}:u ''" "\<not> py_space c"
    using hex_digit_plain [OF d(1)] d(2) by simp_all
  show "hex_value c \<noteq> None"
    using hex_value_digit [OF d(1)] d(2) by simp
qed

lemma uuid_str_char:
  assumes "c \<in> set (uuid_str u)"
  shows "c \<notin> set ''_{}:u ''"
proof -
  from assms have "c \<in> set (hex_digits 32 (unat u)) \<or> c = CHR ''-''"
    by (auto simp: uuid_str_def Let_def dest: in_set_takeD in_set_dropD)
  then show ?thesis by (auto dest: hex_digits_char(1))
qed

lemma uuid_str_digits: "filter (\<lambda>c. c \<noteq> CHR ''-'') (uuid_str u) = hex_digits 32 (unat u)"
proof -
  let ?h = "hex_digits 32 (unat u)"
  have keep: "filter (\<lambda>c. c \<noteq> CHR ''-'') xs = xs" if "set xs \<subseteq> set ?h" for xs
  proof (rule filter_True, rule ballI)
    fix c assume "c \<in> set xs"
    with that have "c \<in> set ?h" by auto
    then show "c \<noteq> CHR ''-''" using hex_digits_char(1) by auto
  qed
  have "filter (\<lambda>c. c \<noteq> CHR ''-'') (uuid_str u) =
      take 8 ?h @ take 4 (drop 8 ?h) @ take 4 (drop 12 ?h) @ take 4 (drop 16 ?h) @ drop 20 ?h"
    by (simp add: uuid_str_def Let_def keep set_take_subset set_drop_subset
        order_trans [OF set_take_subset set_drop_subset])
  also have "\<dots> = ?h"
    by (rule nth_equalityI) (auto simp: nth_append)
  finally show ?thesis .
qed

lemma py_int16_hex_digits: "0 < k \<Longrightarrow> py_int16 (hex_digits k n) = Some (int (n mod 16 ^ k))"
proof -
  assume k: "0 < k"
  let ?h = "hex_digits k n"
  have strip: "py_strip ?h = ?h"
    using hex_digits_char(2) by (simp add: py_strip_def dropWhile_none)
  obtain c cs where h: "?h = c # cs" using k by (cases ?h) (auto dest: arg_cong [where f = length])
  have "hex_value CHR ''-'' = None" "hex_value CHR ''+'' = None" "hex_value c \<noteq> None"
    using hex_digits_char(3) [of c k n] h by (simp_all add: hex_value_def)
  then have c: "c \<noteq> CHR ''-''" "c \<noteq> CHR ''+''" by auto
  have "hex_value CHR ''x'' = None" "hex_value CHR ''X'' = None"
    by (simp_all add: hex_value_def)
  then have "CHR ''x'' \<notin> set ?h" "CHR ''X'' \<notin> set ?h"
    using hex_digits_char(3) by metis+
  then have "take 2 ?h \<noteq> ''0x''" "take 2 ?h \<noteq> ''0X''"
    by (metis in_set_takeD list.set_intros(1,2))+
  then have "hex_body ?h = Some (n mod 16 ^ k)"
    using k by (simp add: hex_body_def hex_number_digits)
  with strip h c show ?thesis by (simp add: py_int16_def)
qed

text \<open>Printing and parsing are inverse, so printed identifiers can be compared as strings.\<close>

lemma uuid_of_string_str [simp]: "uuid_of_string (uuid_str u) = Some u"
proof -
  let ?h = "hex_digits 32 (unat u)"
  have urn: "remove_all 0 ''urn:'' (uuid_str u) = uuid_str u"
    by (rule remove_all_absent [of "CHR '':''"]) (use uuid_str_char in auto)
  have uuid: "remove_all 0 ''uuid:'' (uuid_str u) = uuid_str u"
    by (rule remove_all_absent [of "CHR '':''"]) (use uuid_str_char in auto)
  have "\<forall>c\<in>set (uuid_str u). \<not> (c = CHR ''{'' \<or> c = CHR ''}'')"
    using uuid_str_char by auto
  then have braces: "strip_braces (uuid_str u) = uuid_str u"
    by (simp add: strip_braces_def Let_def dropWhile_none)
  have bound: "unat u < 16 ^ 32"
    using unsigned_less [of u, where ?'a = nat] by simp
  then have "py_int16 ?h = Some (int (unat u))"
    using py_int16_hex_digits [of 32 "unat u"] by simp
  moreover have "int (unat u) < 2 ^ 128"
    using uint_lt2p [of u] by simp
  ultimately have "py_int16 ?h = Some (uint u)" "uint u < 2 ^ 128" by simp_all
  then show ?thesis
    by (simp add: uuid_of_string_def urn uuid braces remove_all_dash uuid_str_digits Let_def)
qed

lemma uuid_str_inj [simp]: "uuid_str u = uuid_str v \<longleftrightarrow> u = v"
  by (metis option.inject uuid_of_string_str)

section \<open>Validation helpers\<close>

text \<open>
  \<open>commands/validation.py\<close>. A public value is a string, an identifier, or \<open>None\<close>; anything else
  is covered by its \<open>str()\<close>. The error is the adapter's \<open>ValidationError\<close> naming the field.
\<close>

datatype public_id = Id_none | Id_uuid uuid | Id_text string

definition parse_uuid4 :: "public_id \<Rightarrow> string \<Rightarrow> (string, uuid) result" where
  "parse_uuid4 value field =
     (case (case value of
              Id_uuid u \<Rightarrow> Some u
            | Id_text t \<Rightarrow> uuid_of_string (py_strip t)
            | Id_none \<Rightarrow> uuid_of_string ''None'') of
        None \<Rightarrow> Inl field
      | Some identifier \<Rightarrow>
          if uuid_version identifier \<noteq> Some 4 then Inl field else Inr identifier)"

definition parse_optional_uuid4 :: "public_id \<Rightarrow> string \<Rightarrow> (string, uuid option) result" where
  "parse_optional_uuid4 value field =
     (case value of
        Id_none \<Rightarrow> Inr None
      | _ \<Rightarrow> bind_result (parse_uuid4 value field) (\<lambda>u. Inr (Some u)))"

lemma parse_uuid4_version: "parse_uuid4 v f = Inr u \<Longrightarrow> uuid_version u = Some 4"
  by (auto simp: parse_uuid4_def split: option.splits if_splits)

lemma parse_uuid4_error: "parse_uuid4 v f = Inl e \<Longrightarrow> e = f"
  by (auto simp: parse_uuid4_def split: option.splits if_splits)

lemma py_strip_uuid_str [simp]: "py_strip (uuid_str u) = uuid_str u"
proof -
  have "\<forall>c\<in>set (uuid_str u). \<not> py_space c"
  proof
    fix c assume "c \<in> set (uuid_str u)"
    then have "c \<in> set (hex_digits 32 (unat u)) \<or> c = CHR ''-''"
      by (auto simp: uuid_str_def Let_def dest: in_set_takeD in_set_dropD)
    then show "\<not> py_space c"
      using hex_digits_char(2) by (auto simp: py_space_def Let_def)
  qed
  then show ?thesis by (simp add: py_strip_def dropWhile_none)
qed

end
