(* ===== verification/Effective_Interval.thy ===== *)
theory Effective_Interval
  imports Doc_Prelude
begin

text \<open>
  Half-open effective intervals of \<open>runtime/temporal_assertions.py\<close>: \<open>_Interval\<close>, the comparisons
  in which a missing bound on the right means "open-ended", and the reading of instants from
  command arguments. Aware datetimes are instants (microseconds since the epoch, UTC): Python
  compares aware datetimes by instant, whatever offset they carry.
\<close>

type_synonym instant = int

datatype py_datetime = Naive int | Aware instant

text \<open>\<open>parsed if parsed.tzinfo is not None else parsed.replace(tzinfo=UTC)\<close>\<close>

fun as_utc :: "py_datetime \<Rightarrow> instant" where
  "as_utc (Naive t) = t"
| "as_utc (Aware t) = t"

datatype instant_arg = Arg_none | Arg_datetime py_datetime | Arg_text string | Arg_other

datatype interval_error = Invalid_effective_interval

record interval =
  start :: instant
  until :: "instant option"

section \<open>Comparisons\<close>

fun before :: "instant option \<Rightarrow> instant option \<Rightarrow> bool" where
  "before left None = True"
| "before None (Some right) = False"
| "before (Some left) (Some right) = (left < right)"

fun earliest :: "instant option \<Rightarrow> instant option \<Rightarrow> instant option" where
  "earliest None right = right"
| "earliest (Some left) None = Some left"
| "earliest (Some left) (Some right) = Some (min left right)"

definition overlaps :: "interval \<Rightarrow> interval \<Rightarrow> bool" where
  "overlaps i j \<longleftrightarrow> before (Some (start i)) (until j) \<and> before (Some (start j)) (until i)"

definition clipped_to :: "interval \<Rightarrow> interval \<Rightarrow> interval option" where
  "clipped_to i j =
     (let s = max (start i) (start j); u = earliest (until i) (until j)
      in if \<not> before (Some s) u then None else Some \<lparr>start = s, until = u\<rparr>)"

definition contains_interval :: "interval \<Rightarrow> interval \<Rightarrow> bool" where
  "contains_interval container inner =
     (if start container > start inner then False
      else case until container of
          None \<Rightarrow> True
        | Some c \<Rightarrow> (case until inner of None \<Rightarrow> False | Some u \<Rightarrow> u \<le> c))"

definition contains_instant :: "interval \<Rightarrow> instant \<Rightarrow> bool" where
  "contains_instant container t \<longleftrightarrow> start container \<le> t \<and> before (Some t) (until container)"

section \<open>Reading arguments\<close>

text \<open>
  \<open>_optional_instant\<close>, \<open>_instant\<close> and \<open>_interval\<close>; \<open>fromiso\<close> is \<open>datetime.fromisoformat\<close>, \<open>None\<close>
  where it raises \<open>ValueError\<close>.
\<close>

fun optional_instant ::
  "(string \<Rightarrow> py_datetime option) \<Rightarrow> instant_arg \<Rightarrow> (interval_error, instant option) result" where
  "optional_instant fromiso Arg_none = Inr None"
| "optional_instant fromiso (Arg_datetime d) = Inr (Some (as_utc d))"
| "optional_instant fromiso (Arg_text t) =
     (case fromiso t of None \<Rightarrow> Inl Invalid_effective_interval | Some d \<Rightarrow> Inr (Some (as_utc d)))"
| "optional_instant fromiso Arg_other = Inl Invalid_effective_interval"

definition instant_of ::
  "(string \<Rightarrow> py_datetime option) \<Rightarrow> instant_arg \<Rightarrow> (interval_error, instant) result" where
  "instant_of fromiso v = bind_result (optional_instant fromiso v)
     (\<lambda>p. case p of None \<Rightarrow> Inl Invalid_effective_interval | Some t \<Rightarrow> Inr t)"

definition make_interval ::
  "(string \<Rightarrow> py_datetime option) \<Rightarrow> instant_arg \<Rightarrow> instant_arg \<Rightarrow> (interval_error, interval) result" where
  "make_interval fromiso effective_from effective_until =
     bind_result (instant_of fromiso effective_from) (\<lambda>s.
     bind_result (optional_instant fromiso effective_until) (\<lambda>u.
       case u of
         Some e \<Rightarrow> if e \<le> s then Inl Invalid_effective_interval else Inr \<lparr>start = s, until = u\<rparr>
       | None \<Rightarrow> Inr \<lparr>start = s, until = None\<rparr>))"

section \<open>What the operations mean for sets of instants\<close>

definition half_open :: "interval \<Rightarrow> bool" where
  "half_open i \<longleftrightarrow> before (Some (start i)) (until i)"

definition instants :: "interval \<Rightarrow> instant set" where
  "instants i = {t. contains_instant i t}"

lemma before_None [simp]: "before l None"
  by (cases l) auto

lemma before_Some_iff [simp]: "before (Some l) u \<longleftrightarrow> (\<forall>r. u = Some r \<longrightarrow> l < r)"
  by (cases u) auto

lemma mem_instants: "t \<in> instants i \<longleftrightarrow> start i \<le> t \<and> before (Some t) (until i)"
  by (simp add: instants_def contains_instant_def)

lemma half_open_start: "half_open i \<Longrightarrow> start i \<in> instants i"
  by (simp add: half_open_def mem_instants)

lemma half_open_nonempty: "half_open i \<longleftrightarrow> instants i \<noteq> {}"
  by (cases "until i") (auto simp: half_open_def instants_def contains_instant_def intro: order_trans)

lemma overlaps_iff_instants:
  assumes "half_open i" "half_open j"
  shows "overlaps i j \<longleftrightarrow> instants i \<inter> instants j \<noteq> {}"
proof
  assume ov: "overlaps i j"
  have "max (start i) (start j) \<in> instants i \<inter> instants j"
    using ov assms by (auto simp: overlaps_def half_open_def mem_instants)
  then show "instants i \<inter> instants j \<noteq> {}" by blast
next
  assume "instants i \<inter> instants j \<noteq> {}"
  then show "overlaps i j" by (fastforce simp: overlaps_def mem_instants)
qed

lemma overlaps_sym: "overlaps i j \<longleftrightarrow> overlaps j i"
  by (auto simp: overlaps_def)

lemma clipped_to_instants:
  "clipped_to i j = Some k \<Longrightarrow> instants k = instants i \<inter> instants j \<and> half_open k"
  by (cases "until i"; cases "until j")
    (auto simp: clipped_to_def Let_def half_open_def mem_instants split: if_splits)

lemma clipped_to_None:
  "clipped_to i j = None \<Longrightarrow> instants i \<inter> instants j = {}"
  by (cases "until i"; cases "until j")
    (auto simp: clipped_to_def Let_def mem_instants split: if_splits)

lemma clipped_to_bounds:
  "clipped_to i j = Some k \<Longrightarrow> start k = max (start i) (start j) \<and> until k = earliest (until i) (until j)"
  by (auto simp: clipped_to_def Let_def split: if_splits)

lemma contains_interval_instants:
  "half_open j \<Longrightarrow> contains_interval i j \<longleftrightarrow> instants j \<subseteq> instants i"
proof
  assume "contains_interval i j"
  then show "instants j \<subseteq> instants i"
    by (cases "until i"; cases "until j")
      (auto simp: contains_interval_def mem_instants split: if_splits)
next
  assume ho: "half_open j" and sub: "instants j \<subseteq> instants i"
  have "start j \<in> instants i"
    using half_open_start [OF ho] sub by blast
  then have st: "start i \<le> start j" by (simp add: mem_instants)
  have "until j \<noteq> None \<and> the (until j) \<le> c" if c: "until i = Some c" for c
  proof (rule ccontr)
    assume neg: "\<not> (until j \<noteq> None \<and> the (until j) \<le> c)"
    have "max c (start j) \<in> instants j"
      using neg ho by (cases "until j") (auto simp: mem_instants half_open_def)
    moreover have "max c (start j) \<notin> instants i"
      using c by (simp add: mem_instants)
    ultimately show False using sub by blast
  qed
  with st show "contains_interval i j"
    by (cases "until i") (auto simp: contains_interval_def split: option.split)
qed

lemma make_interval_half_open: "make_interval fromiso f u = Inr i \<Longrightarrow> half_open i"
  by (cases "instant_of fromiso f"; cases "optional_instant fromiso u")
    (auto simp: make_interval_def half_open_def split: option.splits if_splits)

section \<open>Splitting an interval around a correction\<close>

text \<open>
  The segments of \<open>_split\<close>: the part of \<open>original\<close> to the left of the corrected overlap and the
  part to the right, where they are not empty.
\<close>

definition left_segment :: "interval \<Rightarrow> interval \<Rightarrow> interval option" where
  "left_segment original corrected =
     (if start original < start corrected
      then Some \<lparr>start = start original, until = Some (start corrected)\<rparr> else None)"

definition right_segment :: "interval \<Rightarrow> interval \<Rightarrow> interval option" where
  "right_segment original corrected =
     (case until corrected of
        Some u \<Rightarrow> if before (Some u) (until original)
                  then Some \<lparr>start = u, until = until original\<rparr> else None
      | None \<Rightarrow> None)"

definition option_instants :: "interval option \<Rightarrow> instant set" where
  "option_instants oi = (case oi of None \<Rightarrow> {} | Some i \<Rightarrow> instants i)"

lemma option_instants_simps [simp]:
  "option_instants None = {}" "option_instants (Some i) = instants i"
  by (simp_all add: option_instants_def)

lemma left_segment_half_open: "left_segment i k = Some l \<Longrightarrow> half_open l"
  by (auto simp: left_segment_def half_open_def split: if_splits)

lemma right_segment_half_open: "right_segment i k = Some r \<Longrightarrow> half_open r"
  by (auto simp: right_segment_def half_open_def split: if_splits option.splits)

lemma left_segment_instants:
  assumes "clipped_to w i = Some k"
  shows "option_instants (left_segment i k) = {t \<in> instants i. t < start k}"
proof -
  have "start k \<in> instants i"
    using clipped_to_instants [OF assms] half_open_start [of k] by blast
  then show ?thesis
    by (auto simp: left_segment_def mem_instants)
qed

lemma right_segment_instants:
  assumes "clipped_to w i = Some k"
  shows "option_instants (right_segment i k) = {t \<in> instants i. \<not> before (Some t) (until k)}"
  using assms clipped_to_instants [OF assms]
  by (auto simp: right_segment_def mem_instants half_open_def clipped_to_bounds
      split: if_splits option.splits)

lemma segments_partition:
  assumes "clipped_to w i = Some k"
  shows "option_instants (left_segment i k) \<union> instants k \<union> option_instants (right_segment i k) = instants i"
    and "option_instants (left_segment i k) \<inter> instants k = {}"
    and "option_instants (right_segment i k) \<inter> instants k = {}"
    and "option_instants (left_segment i k) \<inter> option_instants (right_segment i k) = {}"
proof -
  note kb = clipped_to_bounds [OF assms] and ki = clipped_to_instants [OF assms]
  note seg = left_segment_instants [OF assms] right_segment_instants [OF assms]
  have "t \<in> instants k \<longleftrightarrow> t \<in> instants i \<and> start k \<le> t \<and> before (Some t) (until k)" for t
    using kb ki by (cases "until w"; cases "until i") (auto simp: mem_instants)
  then have k: "instants k = {t \<in> instants i. start k \<le> t \<and> before (Some t) (until k)}" by blast
  show "option_instants (left_segment i k) \<union> instants k \<union> option_instants (right_segment i k) = instants i"
    unfolding seg k by auto
  show "option_instants (left_segment i k) \<inter> instants k = {}"
    and "option_instants (right_segment i k) \<inter> instants k = {}"
    unfolding seg k by auto
  show "option_instants (left_segment i k) \<inter> option_instants (right_segment i k) = {}"
    using ki unfolding seg by (auto simp: half_open_def)
qed

end
