(* ===== verification/Temporal_Assertions.thy ===== *)
theory Temporal_Assertions
  imports Py_Uuid Effective_Interval "HOL-Library.Product_Lexorder"
begin

text \<open>
  The append-only write service over temporal assertions
  (\<open>runtime/temporal_assertions.py\<close>). The tables the service reads and writes are the fields of
  the record \<open>tdb\<close>: \<open>temporal_assertions\<close> as the list of its rows in insertion order,
  \<open>entity_uuid_registry\<close>, the parent columns of the typed tables and the payload tables of the
  families. \<open>now()\<close> is the field \<open>db_clock\<close>, fixed during a transaction; \<open>uuid4()\<close> draws the next
  element of a supply. The constraints the schema declares on \<open>temporal_assertions\<close>
  (\<open>db/schema.py\<close>) are checks of the insertion that raise \<open>Integrity_error\<close>.
\<close>

section \<open>Data\<close>

datatype assertion_kind = Payload | Interval_boundary | Supersession | Deletion | Restoration

fun kind_name :: "assertion_kind \<Rightarrow> string" where
  "kind_name Payload = ''payload''"
| "kind_name Interval_boundary = ''interval_boundary''"
| "kind_name Supersession = ''supersession''"
| "kind_name Deletion = ''deletion''"
| "kind_name Restoration = ''restoration''"

text \<open>\<open>db.schema.ASSERTION_KINDS\<close>, in its order.\<close>

definition assertion_kinds :: "assertion_kind list" where
  "assertion_kinds = [Payload, Interval_boundary, Supersession, Deletion, Restoration]"

datatype uuid_arg = Uuid uuid | Text string

datatype temporal_error =
    Object_not_registered uuid
  | Assertion_not_found uuid
  | Assertion_already_superseded uuid uuid
  | Invalid_interval
  | Ambiguous_interval
  | Disjoint_window uuid
  | Not_a_deletion uuid assertion_kind
  | Value_error
  | Database_unconfigured
  | Integrity_error
  | Callback_error

record acceptance =
  accepted_by :: "string option"
  accepted_via :: "string option"
  operation_id :: "uuid option"
  acceptance_comment :: "string option"

record assertion =
  assertion_id :: uuid
  object_id :: uuid
  payload_family :: string
  kind :: assertion_kind
  revision_no :: int
  supersedes :: "uuid option"
  effective_from :: instant
  effective_until :: "instant option"
  recorded_at :: instant
  accepted_with :: acceptance

record 'p tdb =
  db_configured :: bool
  db_rows :: "assertion list"
  db_registry :: "(uuid \<times> string) list"
  db_parents :: "string \<Rightarrow> string \<Rightarrow> (uuid \<times> uuid) list"
  db_project_meta :: "(uuid \<times> string) list"
  db_payloads :: 'p
  db_clock :: instant
  db_uuids :: "nat \<Rightarrow> uuid"
  db_drawn :: nat

type_synonym ('p, 'a) temporal_tx = "('p tdb, temporal_error, 'a) tx"

text \<open>
  The callbacks of a payload family, which run in the same transaction; \<open>None\<close> is an exception.
\<close>

type_synonym 'p payload_copier = "uuid \<Rightarrow> uuid \<Rightarrow> 'p \<Rightarrow> 'p option"
type_synonym 'p payload_writer = "uuid \<Rightarrow> 'p \<Rightarrow> 'p option"

definition interval_of :: "assertion \<Rightarrow> interval" where
  "interval_of a = \<lparr>start = effective_from a, until = effective_until a\<rparr>"

section \<open>Arguments\<close>

definition uuid_of_arg :: "uuid_arg \<Rightarrow> (temporal_error, uuid) result" where
  "uuid_of_arg v = (case v of
       Uuid u \<Rightarrow> Inr u
     | Text t \<Rightarrow> (case uuid_of_string t of None \<Rightarrow> Inl Value_error | Some u \<Rightarrow> Inr u))"

definition optional_text :: "string option \<Rightarrow> nat option \<Rightarrow> (temporal_error, string option) result" where
  "optional_text value max_length = (case value of
       None \<Rightarrow> Inr None
     | Some t \<Rightarrow> (case max_length of
           Some m \<Rightarrow> if m < length t then Inl Value_error else Inr (Some t)
         | None \<Rightarrow> Inr (Some t)))"

record acceptance_args =
  arg_by :: "string option"
  arg_via :: "string option"
  arg_operation :: "uuid_arg option"
  arg_comment :: "string option"

definition build_acceptance :: "acceptance_args \<Rightarrow> (temporal_error, acceptance) result" where
  "build_acceptance g =
     bind_result (optional_text (arg_by g) (Some 255)) (\<lambda>who.
     bind_result (optional_text (arg_via g) (Some 64)) (\<lambda>via.
     bind_result (case arg_operation g of None \<Rightarrow> Inr None
                  | Some v \<Rightarrow> bind_result (uuid_of_arg v) (\<lambda>u. Inr (Some u))) (\<lambda>opid.
     bind_result (optional_text (arg_comment g) None) (\<lambda>cm.
       Inr \<lparr>accepted_by = who, accepted_via = via, operation_id = opid, acceptance_comment = cm\<rparr>))))"

definition lift_interval :: "(interval_error, 'a) result \<Rightarrow> (temporal_error, 'a) result" where
  "lift_interval r = (case r of Inl _ \<Rightarrow> Inl Invalid_interval | Inr x \<Rightarrow> Inr x)"

lemma lift_interval_iff [simp]: "lift_interval r = Inr x \<longleftrightarrow> r = Inr x"
  by (auto simp: lift_interval_def split: sum.splits)

definition checked_kind :: "string \<Rightarrow> (temporal_error, assertion_kind) result" where
  "checked_kind name =
     (case List.find (\<lambda>k. kind_name k = name) assertion_kinds of
        None \<Rightarrow> Inl Value_error | Some k \<Rightarrow> Inr k)"

lemma checked_kind_name [simp]: "checked_kind (kind_name k) = Inr k"
  by (cases k) (simp_all add: checked_kind_def assertion_kinds_def)

text \<open>\<open>REGISTRY_KIND_LOCATORS\<close> and its inverse, with unknown locators kept as they are.\<close>

definition registry_kind_locators :: "(string \<times> string) list" where
  "registry_kind_locators =
     [(''document'', ''documents''), (''chapter'', ''chapters''), (''paragraph'', ''paragraphs''),
      (''semantic_chunk'', ''semantic_chunks''), (''file'', ''files''),
      (''content_attachment'', ''content_attachments''), (''project'', ''projects''),
      (''chunk_type'', ''chunk_types''), (''chunk_role'', ''chunk_roles''),
      (''chunk_status'', ''chunk_statuses''), (''block_type'', ''block_types''),
      (''language'', ''languages''), (''category'', ''categories'')]"

definition registry_kind :: "string \<Rightarrow> string" where
  "registry_kind locator =
     (case map_of (map prod.swap registry_kind_locators) locator of
        None \<Rightarrow> locator | Some k \<Rightarrow> k)"

definition family_of :: "string option \<Rightarrow> string \<Rightarrow> (temporal_error, string) result" where
  "family_of family_arg locator = (case family_arg of
       None \<Rightarrow> Inr (registry_kind locator)
     | Some f \<Rightarrow> (let family = py_strip f in
         if family = [] \<or> 64 < length family then Inl Value_error else Inr family))"

section \<open>Reads\<close>

definition superseded_by :: "assertion list \<Rightarrow> uuid \<Rightarrow> assertion option" where
  "superseded_by rows i = List.find (\<lambda>s. supersedes s = Some i) rows"

abbreviation accepted_in :: "assertion list \<Rightarrow> assertion \<Rightarrow> bool" where
  "accepted_in rows a \<equiv> superseded_by rows (assertion_id a) = None"

definition history :: "uuid_arg \<Rightarrow> ('p, assertion list) temporal_tx" where
  "history obj =
     tx_bind (tx_lift (uuid_of_arg obj)) (\<lambda>target.
     tx_bind (\<lambda>s. tx_guard (db_configured s) Database_unconfigured s) (\<lambda>_.
     tx_read (\<lambda>s. sort_key revision_no (filter (\<lambda>a. object_id a = target) (db_rows s)))))"

definition accepted_rows :: "assertion list \<Rightarrow> uuid \<Rightarrow> assertion list" where
  "accepted_rows rows obj =
     sort_key (\<lambda>a. (effective_from a, revision_no a))
       (filter (\<lambda>a. object_id a = obj \<and> accepted_in rows a) rows)"

definition accepted :: "uuid_arg \<Rightarrow> ('p, assertion list) temporal_tx" where
  "accepted obj =
     tx_bind (tx_lift (uuid_of_arg obj)) (\<lambda>target.
     tx_bind (\<lambda>s. tx_guard (db_configured s) Database_unconfigured s) (\<lambda>_.
     tx_read (\<lambda>s. accepted_rows (db_rows s) target)))"

definition accepted_payload_rows :: "assertion list \<Rightarrow> uuid \<Rightarrow> string \<Rightarrow> assertion list" where
  "accepted_payload_rows rows obj family =
     filter (\<lambda>a. payload_family a = family \<and> kind a \<noteq> Deletion) (accepted_rows rows obj)"

definition locked_object :: "uuid \<Rightarrow> ('p, uuid \<times> string) temporal_tx" where
  "locked_object obj = (\<lambda>s. case map_of (db_registry s) obj of
       None \<Rightarrow> Inl (Object_not_registered obj)
     | Some locator \<Rightarrow> Inr ((obj, locator), s))"

definition acceptable_prior :: "uuid \<Rightarrow> ('p, assertion) temporal_tx" where
  "acceptable_prior i = (\<lambda>s.
     case List.find (\<lambda>a. assertion_id a = i) (db_rows s) of
       None \<Rightarrow> Inl (Assertion_not_found i)
     | Some row \<Rightarrow> (case superseded_by (db_rows s) i of
           Some successor \<Rightarrow> Inl (Assertion_already_superseded i (assertion_id successor))
         | None \<Rightarrow> Inr (row, s)))"

text \<open>
  \<open>_accepted_in_family\<close>, \<open>_accepted_in_family_for_window\<close> and
  \<open>_accepted_in_family_for_instant\<close>: the segment a deletion is about.
\<close>

definition accepted_in_family ::
  "assertion list \<Rightarrow> uuid \<Rightarrow> string \<Rightarrow> (temporal_error, assertion option) result" where
  "accepted_in_family rows obj family =
     (case accepted_payload_rows rows obj family of
        [] \<Rightarrow> Inr None | [a] \<Rightarrow> Inr (Some a) | _ \<Rightarrow> Inl Ambiguous_interval)"

definition accepted_in_family_for_window ::
  "assertion list \<Rightarrow> uuid \<Rightarrow> string \<Rightarrow> interval \<Rightarrow> (temporal_error, assertion option) result" where
  "accepted_in_family_for_window rows obj family window =
     (let candidates = accepted_payload_rows rows obj family in
      if candidates = [] then Inr None
      else (case filter (\<lambda>a. overlaps (interval_of a) window) candidates of
          [prior] \<Rightarrow> if contains_interval (interval_of prior) window then Inr (Some prior)
                     else Inl (Disjoint_window (assertion_id prior))
        | _ \<Rightarrow> Inl Ambiguous_interval))"

definition accepted_in_family_for_instant ::
  "assertion list \<Rightarrow> uuid \<Rightarrow> string \<Rightarrow> instant \<Rightarrow> (temporal_error, assertion option) result" where
  "accepted_in_family_for_instant rows obj family t =
     (let candidates = accepted_payload_rows rows obj family in
      if candidates = [] then Inr None
      else (case filter (\<lambda>a. contains_instant (interval_of a) t) candidates of
          [prior] \<Rightarrow> Inr (Some prior)
        | _ \<Rightarrow> Inl Ambiguous_interval))"

section \<open>Appending\<close>

text \<open>
  \<open>_guard_unambiguous\<close>: the \<open>WHERE\<close> clause of its query, then the query.
\<close>

definition clashes ::
  "assertion list \<Rightarrow> uuid \<Rightarrow> string \<Rightarrow> interval \<Rightarrow> uuid list \<Rightarrow> assertion \<Rightarrow> bool" where
  "clashes rows obj family iv ignore a \<longleftrightarrow>
     object_id a = obj \<and> payload_family a = family \<and> assertion_id a \<notin> set ignore \<and>
     accepted_in rows a \<and>
     (case effective_until a of None \<Rightarrow> True | Some u \<Rightarrow> start iv < u) \<and>
     (case until iv of None \<Rightarrow> True | Some u \<Rightarrow> effective_from a < u)"

definition guard_unambiguous ::
  "uuid \<Rightarrow> string \<Rightarrow> interval \<Rightarrow> uuid list \<Rightarrow> ('p, unit) temporal_tx" where
  "guard_unambiguous obj family iv ignore = (\<lambda>s.
     case List.find (clashes (db_rows s) obj family iv ignore) (db_rows s) of
       None \<Rightarrow> Inr ((), s)
     | Some _ \<Rightarrow> Inl Ambiguous_interval)"

definition draw_uuid :: "('p, uuid) temporal_tx" where
  "draw_uuid = (\<lambda>s. Inr (db_uuids s (db_drawn s), s\<lparr>db_drawn := Suc (db_drawn s)\<rparr>))"

definition row_constraints :: "'p tdb \<Rightarrow> assertion \<Rightarrow> bool" where
  "row_constraints s a \<longleftrightarrow>
     assertion_id a \<notin> assertion_id ` set (db_rows s) \<and>
     (object_id a, revision_no a) \<notin> (\<lambda>b. (object_id b, revision_no b)) ` set (db_rows s) \<and>
     0 < revision_no a \<and> half_open (interval_of a) \<and> payload_family a \<noteq> [] \<and>
     supersedes a \<noteq> Some (assertion_id a) \<and>
     map_of (db_registry s) (object_id a) \<noteq> None \<and>
     (case supersedes a of None \<Rightarrow> True | Some i \<Rightarrow> i \<in> assertion_id ` set (db_rows s))"

definition insert_row :: "assertion \<Rightarrow> ('p, assertion) temporal_tx" where
  "insert_row a = (\<lambda>s.
     if row_constraints s a then Inr (a, s\<lparr>db_rows := db_rows s @ [a]\<rparr>) else Inl Integrity_error)"

definition append_assertion ::
  "uuid \<Rightarrow> string \<Rightarrow> assertion_kind \<Rightarrow> interval \<Rightarrow> uuid option \<Rightarrow> acceptance \<Rightarrow> uuid list
    \<Rightarrow> ('p, assertion) temporal_tx" where
  "append_assertion obj family k iv prec acc ignore =
     tx_bind (guard_unambiguous obj family iv ignore) (\<lambda>_.
     tx_bind draw_uuid (\<lambda>i.
     tx_bind (tx_read (\<lambda>s. (next_number (map revision_no
         (filter (\<lambda>a. object_id a = obj) (db_rows s))), db_clock s))) (\<lambda>(rev, t).
     insert_row \<lparr>assertion_id = i, object_id = obj, payload_family = family, kind = k,
       revision_no = rev, supersedes = prec, effective_from = start iv, effective_until = until iv,
       recorded_at = t, accepted_with = acc\<rparr>)))"

definition copy_payload :: "'p payload_copier option \<Rightarrow> uuid \<Rightarrow> uuid \<Rightarrow> ('p, unit) temporal_tx" where
  "copy_payload copier source target = (case copier of
       None \<Rightarrow> tx_return ()
     | Some f \<Rightarrow> (\<lambda>s. case f source target (db_payloads s) of
           None \<Rightarrow> Inl Callback_error | Some p \<Rightarrow> Inr ((), s\<lparr>db_payloads := p\<rparr>)))"

definition write_payload :: "'p payload_writer option \<Rightarrow> uuid \<Rightarrow> ('p, unit) temporal_tx" where
  "write_payload writer target = (case writer of
       None \<Rightarrow> tx_return ()
     | Some f \<Rightarrow> (\<lambda>s. case f target (db_payloads s) of
           None \<Rightarrow> Inl Callback_error | Some p \<Rightarrow> Inr ((), s\<lparr>db_payloads := p\<rparr>)))"

section \<open>Splitting\<close>

record segments =
  seg_left :: "assertion option"
  seg_corrected :: assertion
  seg_right :: "assertion option"

text \<open>One original-copy segment of \<open>_split\<close>: append it with the prior's kind and copy the payload.\<close>

definition append_copy ::
  "assertion \<Rightarrow> interval option \<Rightarrow> acceptance \<Rightarrow> 'p payload_copier option
    \<Rightarrow> ('p, assertion option) temporal_tx" where
  "append_copy prior iv acc copier = (case iv of
       None \<Rightarrow> tx_return None
     | Some i \<Rightarrow>
         tx_bind (append_assertion (object_id prior) (payload_family prior) (kind prior) i
           (Some (assertion_id prior)) acc [assertion_id prior]) (\<lambda>row.
         tx_bind (copy_payload copier (assertion_id prior) (assertion_id row)) (\<lambda>_.
         tx_return (Some row))))"

definition split ::
  "assertion \<Rightarrow> interval \<Rightarrow> assertion_kind \<Rightarrow> acceptance \<Rightarrow> 'p payload_copier option
    \<Rightarrow> 'p payload_writer option \<Rightarrow> ('p, segments) temporal_tx" where
  "split prior window corrected_kind acc copier writer =
     (let original = interval_of prior in
      case clipped_to window original of
        None \<Rightarrow> tx_raise (Disjoint_window (assertion_id prior))
      | Some corrected \<Rightarrow>
          tx_bind (append_copy prior (left_segment original corrected) acc copier) (\<lambda>l.
          tx_bind (append_assertion (object_id prior) (payload_family prior) corrected_kind corrected
            (Some (assertion_id prior)) acc [assertion_id prior]) (\<lambda>c.
          tx_bind (if corrected_kind \<noteq> Deletion then write_payload writer (assertion_id c)
                   else tx_return ()) (\<lambda>_.
          tx_bind (append_copy prior (right_segment original corrected) acc copier) (\<lambda>r.
          tx_return \<lparr>seg_left = l, seg_corrected = c, seg_right = r\<rparr>)))))"

section \<open>Write operations\<close>

text \<open>\<open>self._transaction()\<close>: \<open>_engine\<close> refuses an unconfigured service.\<close>

definition with_database :: "('p, 'a) temporal_tx \<Rightarrow> ('p, 'a) temporal_tx" where
  "with_database m = (\<lambda>s. if db_configured s then m s else Inl Database_unconfigured)"

definition create_assertion ::
  "(string \<Rightarrow> py_datetime option) \<Rightarrow> uuid_arg \<Rightarrow> instant_arg \<Rightarrow> instant_arg \<Rightarrow> string option \<Rightarrow> string
    \<Rightarrow> acceptance_args \<Rightarrow> ('p, assertion) temporal_tx" where
  "create_assertion fromiso obj eff_from eff_until family kind_arg g =
     tx_bind (tx_lift (uuid_of_arg obj)) (\<lambda>target.
     tx_bind (tx_lift (lift_interval (make_interval fromiso eff_from eff_until))) (\<lambda>iv.
     tx_bind (tx_lift (checked_kind kind_arg)) (\<lambda>k.
     tx_bind (tx_lift (build_acceptance g)) (\<lambda>acc.
     with_database (
       tx_bind (locked_object target) (\<lambda>(_, locator).
       tx_bind (tx_lift (family_of family locator)) (\<lambda>fam.
       append_assertion target fam k iv None acc [])))))))"

text \<open>The instant argument that stands for a stored bound.\<close>

definition stored_bound :: "instant option \<Rightarrow> instant_arg" where
  "stored_bound b = (case b of None \<Rightarrow> Arg_none | Some t \<Rightarrow> Arg_datetime (Aware t))"

text \<open>\<open>effective_until\<close> is \<open>None\<close> when the argument was left \<open>UNSET\<close>.\<close>

definition supersede_assertion ::
  "(string \<Rightarrow> py_datetime option) \<Rightarrow> uuid_arg \<Rightarrow> instant_arg \<Rightarrow> instant_arg option \<Rightarrow> string
    \<Rightarrow> 'p payload_copier option \<Rightarrow> acceptance_args \<Rightarrow> ('p, assertion) temporal_tx" where
  "supersede_assertion fromiso aid eff_from eff_until kind_arg copier g =
     tx_bind (tx_lift (uuid_of_arg aid)) (\<lambda>prior_id.
     tx_bind (tx_lift (checked_kind kind_arg)) (\<lambda>k.
     tx_bind (tx_lift (build_acceptance g)) (\<lambda>acc.
     with_database (
       tx_bind (acceptable_prior prior_id) (\<lambda>prior.
       tx_bind (locked_object (object_id prior)) (\<lambda>_.
       tx_bind (tx_lift (lift_interval (make_interval fromiso
           (if eff_from \<noteq> Arg_none then eff_from else Arg_datetime (Aware (effective_from prior)))
           (case eff_until of None \<Rightarrow> stored_bound (effective_until prior) | Some u \<Rightarrow> u)))) (\<lambda>iv.
       tx_bind (append_assertion (object_id prior) (payload_family prior) k iv
           (Some prior_id) acc [prior_id]) (\<lambda>row.
       tx_bind (copy_payload copier prior_id (assertion_id row)) (\<lambda>_.
       tx_return row)))))))))"

definition close_interval ::
  "(string \<Rightarrow> py_datetime option) \<Rightarrow> uuid_arg \<Rightarrow> instant_arg \<Rightarrow> 'p payload_copier option
    \<Rightarrow> acceptance_args \<Rightarrow> ('p, assertion) temporal_tx" where
  "close_interval fromiso aid eff_until copier g =
     supersede_assertion fromiso aid Arg_none (Some eff_until) ''interval_boundary'' copier g"

definition replace_interval ::
  "(string \<Rightarrow> py_datetime option) \<Rightarrow> uuid_arg \<Rightarrow> instant_arg \<Rightarrow> instant_arg
    \<Rightarrow> 'p payload_copier option \<Rightarrow> 'p payload_writer option \<Rightarrow> acceptance_args
    \<Rightarrow> ('p, segments) temporal_tx" where
  "replace_interval fromiso aid eff_from eff_until copier writer g =
     tx_bind (tx_lift (uuid_of_arg aid)) (\<lambda>prior_id.
     tx_bind (tx_lift (lift_interval (make_interval fromiso eff_from eff_until))) (\<lambda>window.
     tx_bind (tx_lift (build_acceptance g)) (\<lambda>acc.
     with_database (
       tx_bind (acceptable_prior prior_id) (\<lambda>prior.
       tx_bind (locked_object (object_id prior)) (\<lambda>_.
       split prior window Supersession acc copier writer))))))"

definition restore ::
  "uuid_arg \<Rightarrow> 'p payload_copier option \<Rightarrow> acceptance_args \<Rightarrow> ('p, assertion) temporal_tx" where
  "restore did copier g =
     tx_bind (tx_lift (uuid_of_arg did)) (\<lambda>deletion_id.
     tx_bind (tx_lift (build_acceptance g)) (\<lambda>acc.
     with_database (
       tx_bind (acceptable_prior deletion_id) (\<lambda>deletion.
       tx_bind (tx_guard (kind deletion = Deletion) (Not_a_deletion deletion_id (kind deletion))) (\<lambda>_.
       tx_bind (locked_object (object_id deletion)) (\<lambda>_.
       tx_bind (append_assertion (object_id deletion) (payload_family deletion) Restoration
           (interval_of deletion) (Some deletion_id) acc [deletion_id]) (\<lambda>row.
       tx_bind (copy_payload copier
           (case supersedes deletion of None \<Rightarrow> deletion_id | Some i \<Rightarrow> i) (assertion_id row)) (\<lambda>_.
       tx_return row))))))))"

section \<open>Deletion\<close>

record delete_result =
  del_object :: uuid
  del_superseded :: "uuid option"
  del_deletion :: assertion
  del_left :: "assertion option"
  del_right :: "assertion option"

text \<open>The prior segment and, when both bounds were given, the window.\<close>

definition deletion_target ::
  "(string \<Rightarrow> py_datetime option) \<Rightarrow> assertion list \<Rightarrow> uuid \<Rightarrow> string \<Rightarrow> instant_arg
    \<Rightarrow> instant_arg option \<Rightarrow> (temporal_error, assertion option) result" where
  "deletion_target fromiso rows obj fam eff_from eff_until =
     (case eff_until of
        Some u \<Rightarrow>
          if eff_from \<noteq> Arg_none
          then bind_result (lift_interval (make_interval fromiso eff_from u)) (\<lambda>window.
                 accepted_in_family_for_window rows obj fam window)
          else accepted_in_family rows obj fam
      | None \<Rightarrow>
          if eff_from \<noteq> Arg_none
          then bind_result (lift_interval (instant_of fromiso eff_from)) (\<lambda>t.
                 accepted_in_family_for_instant rows obj fam t)
          else accepted_in_family rows obj fam)"

definition delete_one ::
  "(string \<Rightarrow> py_datetime option) \<Rightarrow> uuid \<times> string \<Rightarrow> instant_arg \<Rightarrow> instant_arg option
    \<Rightarrow> string option \<Rightarrow> 'p payload_copier option \<Rightarrow> acceptance \<Rightarrow> ('p, delete_result) temporal_tx" where
  "delete_one fromiso entry eff_from eff_until family copier acc =
     (case entry of (obj, locator) \<Rightarrow>
     tx_bind (tx_lift (family_of family locator)) (\<lambda>fam.
     tx_bind (tx_read (\<lambda>s. (db_rows s, db_clock s))) (\<lambda>(rows, now).
     tx_bind (tx_lift (deletion_target fromiso rows obj fam eff_from eff_until)) (\<lambda>found.
     case found of
       None \<Rightarrow>
         tx_bind (tx_lift (lift_interval (make_interval fromiso
             (if eff_from \<noteq> Arg_none then eff_from else Arg_datetime (Aware now))
             (case eff_until of None \<Rightarrow> Arg_none | Some u \<Rightarrow> u)))) (\<lambda>iv.
         tx_bind (append_assertion obj fam Deletion iv None acc []) (\<lambda>row.
         tx_return \<lparr>del_object = obj, del_superseded = None, del_deletion = row,
           del_left = None, del_right = None\<rparr>))
     | Some prior \<Rightarrow>
         tx_bind (tx_lift (lift_interval (make_interval fromiso
             (if eff_from \<noteq> Arg_none then eff_from else Arg_datetime (Aware (effective_from prior)))
             (case eff_until of None \<Rightarrow> stored_bound (effective_until prior) | Some u \<Rightarrow> u)))) (\<lambda>window.
         tx_bind (split prior window Deletion acc copier None) (\<lambda>segs.
         tx_return \<lparr>del_object = obj, del_superseded = Some (assertion_id prior),
           del_deletion = seg_corrected segs, del_left = seg_left segs, del_right = seg_right segs\<rparr>))))))"

section \<open>The registered descendants of the deletion roots\<close>

text \<open>\<open>DESCENDANT_EDGES\<close>: the child tables of a kind and their foreign-key columns.\<close>

definition descendant_edges :: "string \<Rightarrow> (string \<times> string) list" where
  "descendant_edges k =
     (if k = ''project'' then [(''projects'', ''owner_id''), (''files'', ''owner_id''), (''documents'', ''owner_id'')]
      else if k = ''file'' then [(''files'', ''owner_id''), (''documents'', ''owner_id'')]
      else if k = ''document'' then [(''chapters'', ''document_id''), (''paragraphs'', ''document_id''),
                                  (''semantic_chunks'', ''document_id'')]
      else if k = ''chapter'' then [(''paragraphs'', ''chapter_id''), (''semantic_chunks'', ''chapter_id'')]
      else if k = ''paragraph'' then [(''semantic_chunks'', ''paragraph_id'')]
      else [])"

text \<open>
  \<open>_children\<close>: \<open>db_parents table column\<close> lists the rows of the table as pairs of their
  identifier and the value of the column; \<open>db_project_meta\<close> the documents with their
  \<open>block_meta ->> 'project_id'\<close>.
\<close>

definition children :: "'p tdb \<Rightarrow> uuid \<times> string \<Rightarrow> (uuid \<times> string) list" where
  "children db node = (case node of (parent, k) \<Rightarrow>
     filter (\<lambda>(child, _). child \<noteq> parent)
       (concat (map (\<lambda>(table, column).
            map (\<lambda>(i, _). (i, registry_kind table))
              (filter (\<lambda>(_, v). v = parent) (db_parents db table column)))
          (descendant_edges k)) @
        (if k = ''project''
         then map (\<lambda>(i, _). (i, ''document''))
                (filter (\<lambda>(_, v). v = uuid_str parent) (db_project_meta db))
         else [])))"

text \<open>
  One pass of the loop over the frontier: a child that was seen is skipped, any other is recorded
  with its kind and joins the next frontier.
\<close>

fun visit_children ::
  "(uuid \<times> string) list \<Rightarrow> (uuid \<times> string) list \<Rightarrow> (uuid \<times> string) list
    \<Rightarrow> (uuid \<times> string) list \<times> (uuid \<times> string) list" where
  "visit_children seen next [] = (seen, next)"
| "visit_children seen next ((c, k) # cs) =
     (if c \<in> fst ` set seen then visit_children seen next cs
      else visit_children (seen @ [(c, k)]) (next @ [(c, k)]) cs)"

text \<open>Every identifier the loop can meet: the rows of the child tables.\<close>

definition child_ids :: "'p tdb \<Rightarrow> uuid set" where
  "child_ids db =
     (\<Union>k\<in>{''project'', ''file'', ''document'', ''chapter'', ''paragraph''}.
        \<Union>(t, c)\<in>set (descendant_edges k). fst ` set (db_parents db t c)) \<union> fst ` set (db_project_meta db)"

lemma finite_child_ids: "finite (child_ids db)"
  by (auto simp: child_ids_def)

lemma descendant_edges_kinds:
  "e \<in> set (descendant_edges k) \<Longrightarrow>
   k \<in> {''project'', ''file'', ''document'', ''chapter'', ''paragraph''}"
  unfolding descendant_edges_def by (simp split: if_splits)

lemma children_ids: "fst ` set (children db n) \<subseteq> child_ids db"
proof
  fix x assume x: "x \<in> fst ` set (children db n)"
  obtain p k where n: "n = (p, k)" by (cases n)
  define fks where "fks = concat (map (\<lambda>(table, column). map (\<lambda>(i, _). (i, registry_kind table))
      (filter (\<lambda>(_, v). v = p) (db_parents db table column))) (descendant_edges k))"
  define metas where "metas = map (\<lambda>(i, _). (i, ''document''))
      (filter (\<lambda>(_, v). v = uuid_str p) (db_project_meta db))"
  have "children db n = filter (\<lambda>(child, _). child \<noteq> p) (fks @ (if k = ''project'' then metas else []))"
    unfolding n children_def prod.case fks_def metas_def ..
  then have "set (children db n) \<subseteq> set fks \<union> set metas" by (simp split: if_split) blast
  with x have "x \<in> fst ` set fks \<or> x \<in> fst ` set metas" by blast
  then show "x \<in> child_ids db"
  proof
    assume "x \<in> fst ` set fks"
    then obtain t c v where e: "(t, c) \<in> set (descendant_edges k)"
      and v: "(x, v) \<in> set (db_parents db t c)"
      by (auto simp: fks_def)
    have "x \<in> fst ` set (db_parents db t c)" by (rule image_eqI [OF _ v]) simp
    then have "x \<in> (\<Union>(t, c)\<in>set (descendant_edges k). fst ` set (db_parents db t c))"
      by (intro UN_I [OF e]) simp
    then show ?thesis
      unfolding child_ids_def by (intro UnI1 UN_I [OF descendant_edges_kinds [OF e]])
  next
    assume "x \<in> fst ` set metas"
    then obtain v where v: "(x, v) \<in> set (db_project_meta db)" by (auto simp: metas_def)
    show ?thesis unfolding child_ids_def by (intro UnI2 image_eqI [OF _ v]) simp
  qed
qed

lemma visit_children_new:
  "visit_children seen next cs = (seen', next') \<Longrightarrow>
   \<exists>new. seen' = seen @ new \<and> next' = next @ new \<and> set new \<subseteq> set cs \<and>
     fst ` set new = fst ` set cs - fst ` set seen \<and> distinct (map fst new)"
proof (induction seen "next" cs rule: visit_children.induct)
  case (1 seen "next")
  then show ?case by simp
next
  case (2 seen "next" c k cs)
  show ?case
  proof (cases "c \<in> fst ` set seen")
    case True
    with "2.prems" have "visit_children seen next cs = (seen', next')" by simp
    from "2.IH"(1) [OF True this] obtain new where new: "seen' = seen @ new" "next' = next @ new"
      "set new \<subseteq> set cs" "fst ` set new = fst ` set cs - fst ` set seen" "distinct (map fst new)"
      by blast
    moreover have "fst ` set ((c, k) # cs) - fst ` set seen = fst ` set cs - fst ` set seen"
      using True by auto
    ultimately show ?thesis by (intro exI [of _ new]) auto
  next
    case False
    with "2.prems" have "visit_children (seen @ [(c, k)]) (next @ [(c, k)]) cs = (seen', next')" by simp
    from "2.IH"(2) [OF False this] obtain new where new: "seen' = (seen @ [(c, k)]) @ new"
      "next' = (next @ [(c, k)]) @ new" "set new \<subseteq> set cs"
      "fst ` set new = fst ` set cs - fst ` set (seen @ [(c, k)])" "distinct (map fst new)"
      by blast
    have "fst ` set ((c, k) # new) = fst ` set ((c, k) # cs) - fst ` set seen"
      using new(4) False by (simp only: list.set image_insert set_append image_Un) auto
    moreover have "c \<notin> fst ` set new" using new(4) by auto
    ultimately show ?thesis
      using new(1,2,3,5) by (intro exI [of _ "(c, k) # new"]) auto
  qed
qed

text \<open>
  The loop over the levels. The inner two loops visit the children of every node of the frontier
  in order, which is one pass over the concatenation of their lists of children.
\<close>

function descend :: "'p tdb \<Rightarrow> (uuid \<times> string) list \<Rightarrow> (uuid \<times> string) list \<Rightarrow> (uuid \<times> string) list" where
  "descend db seen frontier =
     (if frontier = [] then seen
      else (case visit_children seen [] (concat (map (children db) frontier)) of
          (seen', next') \<Rightarrow> descend db seen' next'))"
  by pat_completeness auto

lemma visit_children_progress:
  assumes "visit_children seen [] (concat (map (children db) frontier)) = (seen', next')"
    and "next' \<noteq> []"
  shows "card (child_ids db - fst ` set seen') < card (child_ids db - fst ` set seen)"
proof (rule psubset_card_mono)
  obtain new where new: "seen' = seen @ new" "next' = new"
    "fst ` set new = fst ` set (concat (map (children db) frontier)) - fst ` set seen"
    using visit_children_new [OF assms(1)] by auto
  from assms(2) new(2) obtain x where x: "x \<in> fst ` set new" by (cases new) auto
  then obtain n where "x \<in> fst ` set (children db n)" "x \<notin> fst ` set seen"
    unfolding new(3) by force
  then have "x \<in> child_ids db - fst ` set seen" using children_ids by blast
  with x new(1) show "child_ids db - fst ` set seen' \<subset> child_ids db - fst ` set seen"
    by (auto simp: image_Un)
qed (simp add: finite_child_ids)

termination descend
proof (relation "measures [\<lambda>(db, seen, frontier). card (child_ids db - fst ` set seen),
    \<lambda>(db, seen, frontier). length frontier]", goal_cases)
  case 1
  show ?case by simp
next
  case (2 db seen frontier seen' next')
  then have v: "visit_children seen [] (concat (map (children db) frontier)) = (seen', next')" by simp
  show ?case
  proof (cases "next' = []")
    case True
    with visit_children_new [OF v] have "seen' = seen" by simp
    with True 2(1) show ?thesis by simp
  next
    case False
    with visit_children_progress [OF v] show ?thesis by simp
  qed
qed

declare descend.simps [simp del]

definition descendants :: "'p tdb \<Rightarrow> (uuid \<times> string) list \<Rightarrow> uuid list" where
  "descendants db registries =
     (let seen = fold (\<lambda>(i, locator) d. dict_set d i (registry_kind locator)) registries [];
          found = drop (length seen) (descend db seen seen)
      in filter (\<lambda>i. map_of (db_registry db) i \<noteq> None) (map fst found))"

section \<open>Batch deletion\<close>

text \<open>
  \<open>soft_delete\<close>: the dictionary of locked roots, then the locked descendants that are not among
  them, then one deletion per target in the order of the printed identifiers, all in one
  transaction. Printed identifiers have equal length, so their order is that of the words.
\<close>

definition lock_all :: "uuid list \<Rightarrow> (uuid \<times> string) list \<Rightarrow> ('p, (uuid \<times> string) list) temporal_tx" where
  "lock_all ids registries =
     tx_bind (tx_map locked_object ids) (\<lambda>locked.
     tx_return (fold (\<lambda>(i, locator) d. dict_set d i locator) locked registries))"

definition soft_delete ::
  "(string \<Rightarrow> py_datetime option) \<Rightarrow> uuid_arg list \<Rightarrow> bool \<Rightarrow> instant_arg \<Rightarrow> instant_arg option
    \<Rightarrow> string option \<Rightarrow> 'p payload_copier option \<Rightarrow> acceptance_args
    \<Rightarrow> ('p, delete_result list) temporal_tx" where
  "soft_delete fromiso object_ids include_descendants eff_from eff_until family copier g =
     tx_bind (tx_lift (map_result uuid_of_arg object_ids)) (\<lambda>roots.
     tx_bind (tx_lift (build_acceptance g)) (\<lambda>acc.
     if roots = [] then tx_return []
     else with_database (
       tx_bind (lock_all roots []) (\<lambda>registries.
       tx_bind (if include_descendants
                then tx_bind (tx_read (\<lambda>db. filter (\<lambda>d. d \<notin> fst ` set registries)
                        (descendants db registries))) (\<lambda>extra. lock_all extra registries)
                else tx_return registries) (\<lambda>targets.
       tx_map (\<lambda>i. delete_one fromiso (i, the (map_of targets i)) eff_from eff_until family copier acc)
         (sort (map fst targets)))))))"

end
