(* ===== verification/Temporal_Invariant.thy ===== *)
theory Temporal_Invariant
  imports Temporal_Assertions
begin

text \<open>
  The invariant of the assertion history and its preservation by every write operation of
  \<open>Temporal_Assertions\<close>: identities and revision numbers are unique, intervals are not empty, a
  successor speaks about the object and family of the assertion it supersedes, transaction times
  do not lie in the future, and at every known time the accepted assertions of one object and
  family cover disjoint intervals.
\<close>

named_theorems temporal_keeps \<open>operations that keep the history invariant\<close>

section \<open>Accepted at a known time\<close>

definition accepted_at :: "instant \<Rightarrow> assertion list \<Rightarrow> assertion \<Rightarrow> bool" where
  "accepted_at known rows a \<longleftrightarrow>
     recorded_at a \<le> known \<and>
     (\<forall>b\<in>set rows. recorded_at b \<le> known \<longrightarrow> supersedes b \<noteq> Some (assertion_id a))"

definition unambiguous_at :: "instant \<Rightarrow> assertion list \<Rightarrow> bool" where
  "unambiguous_at known rows \<longleftrightarrow>
     (\<forall>a\<in>set rows. \<forall>b\<in>set rows. accepted_at known rows a \<longrightarrow> accepted_at known rows b \<longrightarrow>
        object_id a = object_id b \<longrightarrow> payload_family a = payload_family b \<longrightarrow>
        overlaps (interval_of a) (interval_of b) \<longrightarrow> a = b)"

definition history_inv :: "assertion list \<Rightarrow> bool" where
  "history_inv rows \<longleftrightarrow>
     distinct (map assertion_id rows) \<and>
     distinct (map (\<lambda>a. (object_id a, revision_no a)) rows) \<and>
     (\<forall>a\<in>set rows. 0 < revision_no a \<and> half_open (interval_of a) \<and> payload_family a \<noteq> []) \<and>
     (\<forall>a\<in>set rows. \<forall>i. supersedes a = Some i \<longrightarrow>
        (\<exists>b\<in>set rows. assertion_id b = i \<and> b \<noteq> a \<and> object_id b = object_id a \<and>
           payload_family b = payload_family a \<and> recorded_at b \<le> recorded_at a)) \<and>
     (\<forall>known. unambiguous_at known rows)"

definition temporal_inv :: "'p tdb \<Rightarrow> bool" where
  "temporal_inv s \<longleftrightarrow>
     history_inv (db_rows s) \<and>
     (\<forall>a\<in>set (db_rows s). recorded_at a \<le> db_clock s \<and> map_of (db_registry s) (object_id a) \<noteq> None)"

lemma history_inv_successor:
  "history_inv rows \<Longrightarrow> b \<in> set rows \<Longrightarrow> supersedes b = Some i \<Longrightarrow>
   \<exists>c\<in>set rows. assertion_id c = i \<and> c \<noteq> b \<and> object_id c = object_id b \<and>
     payload_family c = payload_family b \<and> recorded_at c \<le> recorded_at b"
  unfolding history_inv_def by (elim conjE) (drule bspec, assumption, blast)

lemma superseded_by_None: "superseded_by rows i = None \<longleftrightarrow> (\<forall>s\<in>set rows. supersedes s \<noteq> Some i)"
  by (auto simp: superseded_by_def find_None_iff)

lemma accepted_at_now:
  assumes "\<forall>b\<in>set rows. recorded_at b \<le> now" "a \<in> set rows" "now \<le> known"
  shows "accepted_at known rows a \<longleftrightarrow> accepted_in rows a"
  using assms by (fastforce simp: accepted_at_def superseded_by_None)

lemma accepted_at_extend:
  assumes "\<forall>b\<in>set new. known < recorded_at b"
  shows "accepted_at known (rows @ new) a \<longleftrightarrow> accepted_at known rows a"
  using assms by (fastforce simp: accepted_at_def)

lemma accepted_at_prefix: "accepted_at known (rows @ new) a \<Longrightarrow> accepted_at known rows a"
  by (auto simp: accepted_at_def)

section \<open>Appending one row\<close>

lemma guard_unambiguous_iff:
  "guard_unambiguous obj family iv ignore s = Inr (x, s') \<longleftrightarrow>
   s' = s \<and> (\<forall>a\<in>set (db_rows s). \<not> clashes (db_rows s) obj family iv ignore a)"
  by (auto simp: guard_unambiguous_def find_None_iff find_Some_iff split: option.splits)

lemma guard_unambiguous_error:
  "guard_unambiguous obj family iv ignore s = Inl e \<Longrightarrow> e = Ambiguous_interval"
  by (auto simp: guard_unambiguous_def split: option.splits)

lemma clashes_iff_overlaps:
  "clashes rows obj family iv ignore a \<longleftrightarrow>
     object_id a = obj \<and> payload_family a = family \<and> assertion_id a \<notin> set ignore \<and>
     accepted_in rows a \<and> overlaps (interval_of a) iv"
  by (auto simp: clashes_def overlaps_def interval_of_def split: option.splits)

definition new_row ::
  "'p tdb \<Rightarrow> uuid \<Rightarrow> string \<Rightarrow> assertion_kind \<Rightarrow> interval \<Rightarrow> uuid option \<Rightarrow> acceptance \<Rightarrow> assertion" where
  "new_row s obj family k iv prec acc =
     \<lparr>assertion_id = db_uuids s (db_drawn s), object_id = obj, payload_family = family, kind = k,
      revision_no = next_number (map revision_no (filter (\<lambda>a. object_id a = obj) (db_rows s))),
      supersedes = prec, effective_from = start iv, effective_until = until iv,
      recorded_at = db_clock s, accepted_with = acc\<rparr>"

lemma row_constraints_drawn [simp]: "row_constraints (s\<lparr>db_drawn := n\<rparr>) a = row_constraints s a"
  unfolding row_constraints_def by (simp split: option.split)

lemma append_assertion_iff:
  "append_assertion obj family k iv prec acc ignore s = Inr (row, s') \<longleftrightarrow>
     (\<forall>a\<in>set (db_rows s). \<not> clashes (db_rows s) obj family iv ignore a) \<and>
     row = new_row s obj family k iv prec acc \<and> row_constraints s row \<and>
     s' = s\<lparr>db_drawn := Suc (db_drawn s), db_rows := db_rows s @ [row]\<rparr>"
  by (auto simp: append_assertion_def guard_unambiguous_iff draw_uuid_def insert_row_def new_row_def)

lemma new_row_simps [simp]:
  "object_id (new_row s obj family k iv prec acc) = obj"
  "payload_family (new_row s obj family k iv prec acc) = family"
  "kind (new_row s obj family k iv prec acc) = k"
  "supersedes (new_row s obj family k iv prec acc) = prec"
  "recorded_at (new_row s obj family k iv prec acc) = db_clock s"
  "effective_from (new_row s obj family k iv prec acc) = start iv"
  "effective_until (new_row s obj family k iv prec acc) = until iv"
  "interval_of (new_row s obj family k iv prec acc) = iv"
  by (simp_all add: new_row_def interval_of_def)

lemma append_unambiguous:
  assumes inv: "\<forall>known. unambiguous_at known rows"
    and past: "\<forall>b\<in>set rows. recorded_at b \<le> recorded_at row"
    and free: "\<forall>a\<in>set rows. \<not> clashes rows (object_id row) (payload_family row) (interval_of row) ignore a"
    and ign: "set ignore \<subseteq> set_option (supersedes row)"
  shows "unambiguous_at known (rows @ [row])"
proof (cases "known < recorded_at row")
  case True
  then have ext: "accepted_at known (rows @ [row]) a \<longleftrightarrow> accepted_at known rows a" for a
    by (intro accepted_at_extend) simp
  have "\<not> accepted_at known rows row" using True by (simp add: accepted_at_def)
  with inv ext show ?thesis unfolding unambiguous_at_def by simp
next
  case False
  have no: "\<not> overlaps (interval_of a) (interval_of row)"
    if a: "a \<in> set rows" "accepted_at known (rows @ [row]) a"
      "object_id a = object_id row" "payload_family a = payload_family row" for a
  proof -
    have "supersedes row \<noteq> Some (assertion_id a)" and "accepted_in rows a"
      using a False past by (auto simp: accepted_at_def superseded_by_None)
    then have "assertion_id a \<notin> set ignore" using ign by auto
    with \<open>accepted_in rows a\<close> a free show ?thesis by (auto simp: clashes_iff_overlaps)
  qed
  show ?thesis
    unfolding unambiguous_at_def
  proof (intro ballI impI)
    fix a b
    assume ab: "a \<in> set (rows @ [row])" "b \<in> set (rows @ [row])"
      "accepted_at known (rows @ [row]) a" "accepted_at known (rows @ [row]) b"
      "object_id a = object_id b" "payload_family a = payload_family b"
      "overlaps (interval_of a) (interval_of b)"
    consider "a \<in> set rows" "b \<in> set rows" | "a \<in> set rows" "b = row" | "a = row" "b \<in> set rows"
      | "a = row" "b = row"
      using ab(1,2) by auto
    then show "a = b"
    proof cases
      case 1
      with ab inv show ?thesis unfolding unambiguous_at_def by (blast dest: accepted_at_prefix)
    next
      case 2
      with ab no show ?thesis by auto
    next
      case 3
      with ab no show ?thesis by (auto simp: overlaps_sym)
    qed simp
  qed
qed

text \<open>
  The step lemma of the invariant: an append with no predecessor, or one whose predecessor is a row
  of the same object and family and the only assertion the guard ignores.
\<close>

lemma append_keeps_inv:
  assumes inv: "temporal_inv s"
    and app: "append_assertion obj family k iv prec acc ignore s = Inr (row, s')"
    and ign: "set ignore \<subseteq> set_option prec"
    and pre: "\<And>i. prec = Some i \<Longrightarrow> \<exists>b\<in>set (db_rows s). assertion_id b = i \<and> object_id b = obj \<and> payload_family b = family"
  shows "temporal_inv s'"
proof -
  from app have free: "\<forall>a\<in>set (db_rows s). \<not> clashes (db_rows s) obj family iv ignore a"
    and row: "row = new_row s obj family k iv prec acc"
    and cons: "row_constraints s row"
    and s': "s' = s\<lparr>db_drawn := Suc (db_drawn s), db_rows := db_rows s @ [row]\<rparr>"
    by (auto simp: append_assertion_iff)
  from inv have h: "history_inv (db_rows s)"
    and past: "\<forall>a\<in>set (db_rows s). recorded_at a \<le> db_clock s"
    and reg: "\<forall>a\<in>set (db_rows s). map_of (db_registry s) (object_id a) \<noteq> None"
    by (auto simp: temporal_inv_def)
  have "unambiguous_at known (db_rows s @ [row])" for known
    by (rule append_unambiguous [of _ _ ignore]) (use h past free ign row in \<open>auto simp: history_inv_def\<close>)
  moreover have "\<exists>b\<in>set (db_rows s @ [row]). assertion_id b = i \<and> b \<noteq> row \<and> object_id b = object_id row \<and>
      payload_family b = payload_family row \<and> recorded_at b \<le> recorded_at row"
    if "supersedes row = Some i" for i
  proof -
    from that row have "prec = Some i" by simp
    then obtain b where b: "b \<in> set (db_rows s)" "assertion_id b = i" "object_id b = obj" "payload_family b = family"
      using pre by blast
    moreover have "b \<noteq> row" using b(1) cons by (auto simp: row_constraints_def)
    ultimately show ?thesis using row past by (intro bexI [of _ b]) auto
  qed
  ultimately have "history_inv (db_rows s @ [row])"
    using h cons unfolding history_inv_def row_constraints_def
    by (auto 0 4 simp: Un_iff)
  with past reg cons row s' show ?thesis
    by (auto simp: temporal_inv_def row_constraints_def)
qed

section \<open>Every operation keeps the invariant\<close>

definition with_row :: "assertion \<Rightarrow> 'p tdb \<Rightarrow> bool" where
  "with_row prior s \<longleftrightarrow> temporal_inv s \<and> prior \<in> set (db_rows s)"

lemma temporal_inv_payloads [simp]: "temporal_inv (s\<lparr>db_payloads := p\<rparr>) = temporal_inv s"
  by (simp add: temporal_inv_def)

lemma with_row_payloads [simp]: "with_row prior (s\<lparr>db_payloads := p\<rparr>) = with_row prior s"
  by (simp add: with_row_def)

lemma copy_payload_iff:
  "copy_payload copier i j s = Inr (x, s') \<Longrightarrow> \<exists>p. s' = s\<lparr>db_payloads := p\<rparr>"
  by (cases copier) (auto simp: copy_payload_def split: option.splits intro: exI [of _ "db_payloads s"])

lemma write_payload_iff:
  "write_payload writer i s = Inr (x, s') \<Longrightarrow> \<exists>p. s' = s\<lparr>db_payloads := p\<rparr>"
  by (cases writer) (auto simp: write_payload_def split: option.splits intro: exI [of _ "db_payloads s"])

lemma copy_payload_keeps [temporal_keeps]:
  "tx_keeps temporal_inv (copy_payload copier i j)" "tx_keeps (with_row prior) (copy_payload copier i j)"
  by (auto intro!: tx_keepsI dest: copy_payload_iff)

lemma write_payload_keeps [temporal_keeps]:
  "tx_keeps temporal_inv (write_payload writer i)" "tx_keeps (with_row prior) (write_payload writer i)"
  by (auto intro!: tx_keepsI dest: write_payload_iff)

lemma append_first_keeps [temporal_keeps]:
  "tx_keeps temporal_inv (append_assertion obj family k iv None acc [])"
  by (rule tx_keepsI, erule append_keeps_inv, assumption) auto

lemma append_next_keeps [temporal_keeps]:
  "tx_keeps (with_row prior) (append_assertion (object_id prior) (payload_family prior) k iv
     (Some (assertion_id prior)) acc [assertion_id prior])"
proof (rule tx_keepsI)
  fix s :: "'p tdb" and row s'
  assume s: "with_row prior s"
    and app: "append_assertion (object_id prior) (payload_family prior) k iv
      (Some (assertion_id prior)) acc [assertion_id prior] s = Inr (row, s')"
  have "temporal_inv s'"
    by (rule append_keeps_inv [OF _ app]) (use s in \<open>auto simp: with_row_def\<close>)
  with s app show "with_row prior s'" by (simp add: with_row_def append_assertion_iff)
qed

lemma append_copy_keeps [temporal_keeps]: "tx_keeps (with_row prior) (append_copy prior iv acc copier)"
  by (cases iv) (auto simp: append_copy_def intro!: tx_rules temporal_keeps)

lemma split_keeps [temporal_keeps]: "tx_keeps (with_row prior) (split prior window k acc copier writer)"
  by (auto simp: split_def Let_def intro!: tx_rules temporal_keeps split: option.split)

lemma with_database_iff: "with_database m s = Inr r \<longleftrightarrow> db_configured s \<and> m s = Inr r"
  by (simp add: with_database_def)

lemma with_database_keeps [temporal_keeps]: "tx_keeps I m \<Longrightarrow> tx_keeps I (with_database m)"
  by (auto simp: with_database_def intro!: tx_keepsI dest: tx_keepsD split: if_splits)

lemma locked_object_iff [simp]:
  "locked_object obj s = Inr (x, s') \<longleftrightarrow> s' = s \<and> (\<exists>t. map_of (db_registry s) obj = Some t \<and> x = (obj, t))"
  by (auto simp: locked_object_def split: option.splits)

lemma locked_object_keeps [temporal_keeps]: "tx_keeps I (locked_object obj)"
  by (rule tx_keepsI) auto

lemma acceptable_prior_iff:
  "acceptable_prior i s = Inr (row, s') \<longleftrightarrow>
     s' = s \<and> List.find (\<lambda>a. assertion_id a = i) (db_rows s) = Some row \<and>
     superseded_by (db_rows s) i = None"
  by (auto simp: acceptable_prior_def split: option.splits)

lemma acceptable_priorD:
  assumes "acceptable_prior i s = Inr (row, s')"
  shows "s' = s" "row \<in> set (db_rows s)" "assertion_id row = i" "accepted_in (db_rows s) row"
  using assms by (auto simp: acceptable_prior_iff dest: find_Some_in)

text \<open>Reading the prior hands its row to the rest of the transaction.\<close>

lemma acceptable_prior_bind_keeps:
  assumes "\<And>prior. assertion_id prior = i \<Longrightarrow> tx_keeps (with_row prior) (f prior)"
  shows "tx_keeps temporal_inv (tx_bind (acceptable_prior i) f)"
proof (rule tx_keepsI)
  fix s x s'
  assume inv: "temporal_inv s" and "tx_bind (acceptable_prior i) f s = Inr (x, s')"
  then obtain prior where p: "acceptable_prior i s = Inr (prior, s)" and f: "f prior s = Inr (x, s')"
    by (auto dest: acceptable_priorD)
  have "with_row prior s" using inv acceptable_priorD [OF p] by (simp add: with_row_def)
  with tx_keepsD [OF assms [OF acceptable_priorD(3) [OF p]] f] have "with_row prior s'" by blast
  then show "temporal_inv s'" by (simp add: with_row_def)
qed

lemma create_assertion_keeps [temporal_keeps]:
  "tx_keeps temporal_inv (create_assertion fromiso obj ef eu family k g)"
  unfolding create_assertion_def by (intro tx_rules temporal_keeps) (auto intro: tx_rules temporal_keeps)

lemma supersede_assertion_keeps [temporal_keeps]:
  "tx_keeps temporal_inv (supersede_assertion fromiso aid ef eu k copier g)"
  unfolding supersede_assertion_def
  by (intro tx_keeps_bind tx_keeps_lift with_database_keeps acceptable_prior_bind_keeps)
    (auto intro!: tx_rules temporal_keeps)

lemma close_interval_keeps [temporal_keeps]:
  "tx_keeps temporal_inv (close_interval fromiso aid eu copier g)"
  unfolding close_interval_def by (rule supersede_assertion_keeps)

lemma replace_interval_keeps [temporal_keeps]:
  "tx_keeps temporal_inv (replace_interval fromiso aid ef eu copier writer g)"
  unfolding replace_interval_def
  by (intro tx_keeps_bind tx_keeps_lift with_database_keeps acceptable_prior_bind_keeps)
    (auto intro!: tx_rules temporal_keeps)

lemma restore_keeps [temporal_keeps]: "tx_keeps temporal_inv (restore did copier g)"
  unfolding restore_def
  by (intro tx_keeps_bind tx_keeps_lift with_database_keeps acceptable_prior_bind_keeps)
    (auto intro!: tx_rules temporal_keeps)

lemma accepted_payload_rows_mem:
  "a \<in> set (accepted_payload_rows rows obj fam) \<longleftrightarrow>
     a \<in> set rows \<and> object_id a = obj \<and> payload_family a = fam \<and> kind a \<noteq> Deletion \<and> accepted_in rows a"
  by (auto simp: accepted_payload_rows_def accepted_rows_def)

lemma deletion_target_Some:
  assumes "deletion_target fromiso rows obj fam ef eu = Inr (Some prior)"
  shows "prior \<in> set (accepted_payload_rows rows obj fam)"
proof -
  have one: "p \<in> set xs" if "filter P xs = [p]" for P and p :: assertion and xs
    using that by (metis filter_is_subset list.set_intros(1) subsetD)
  show ?thesis
    using assms
    by (auto simp: deletion_target_def accepted_in_family_def accepted_in_family_for_window_def
        accepted_in_family_for_instant_def Let_def dest: one split: option.splits if_splits list.splits)
qed

lemma delete_one_keeps [temporal_keeps]:
  "tx_keeps temporal_inv (delete_one fromiso entry ef eu family copier acc)"
proof (rule tx_keepsI)
  fix s :: "'a tdb" and x s'
  obtain obj locator where e: "entry = (obj, locator)" by (cases entry)
  assume inv: "temporal_inv s" and del: "delete_one fromiso entry ef eu family copier acc s = Inr (x, s')"
  then obtain fam found where fam: "family_of family locator = Inr fam"
    and found: "deletion_target fromiso (db_rows s) obj fam ef eu = Inr found"
    by (auto simp: delete_one_def e)
  show "temporal_inv s'"
  proof (cases found)
    case None
    with inv del fam found show ?thesis
      by (auto simp: delete_one_def e dest: tx_keepsD [OF append_first_keeps])
  next
    case (Some prior)
    then have "with_row prior s"
      using deletion_target_Some found inv by (auto simp: with_row_def accepted_payload_rows_mem)
    with Some inv del fam found have "with_row prior s'"
      by (auto simp: delete_one_def e dest: tx_keepsD [OF split_keeps])
    then show ?thesis by (simp add: with_row_def)
  qed
qed

lemma lock_all_keeps [temporal_keeps]: "tx_keeps I (lock_all ids registries)"
  unfolding lock_all_def by (intro tx_rules temporal_keeps)

lemma soft_delete_keeps [temporal_keeps]:
  "tx_keeps temporal_inv (soft_delete fromiso ids desc ef eu family copier g)"
  unfolding soft_delete_def by (intro tx_rules temporal_keeps)

end
