(* ===== verification/Temporal_Service.thy ===== *)
theory Temporal_Service
  imports Temporal_Invariant
begin

text \<open>
  The assertion service as a state machine: its committed or rolled back calls, the passing of
  time, and the changes other services make to the registry and the typed tables. Histories only
  grow: the rows a call adds carry the transaction time of that call, and no accepted row changes.
\<close>

section \<open>Append-only\<close>

definition appends :: "'p tdb \<Rightarrow> 'p tdb \<Rightarrow> bool" where
  "appends s s' \<longleftrightarrow>
     (\<exists>new. db_rows s' = db_rows s @ new \<and> (\<forall>r\<in>set new. recorded_at r = db_clock s)) \<and>
     db_clock s' = db_clock s \<and> db_registry s' = db_registry s \<and> db_parents s' = db_parents s \<and>
     db_project_meta s' = db_project_meta s \<and> db_configured s' = db_configured s \<and>
     db_uuids s' = db_uuids s"

named_theorems appends_keeps \<open>operations that only append\<close>

lemma appends_refl [simp]: "appends s s"
  by (simp add: appends_def)

lemma append_assertion_appends [appends_keeps]:
  "tx_keeps (appends s) (append_assertion obj family k iv prec acc ignore)"
proof (rule tx_keepsI)
  fix t row t'
  assume t: "appends s t" and app: "append_assertion obj family k iv prec acc ignore t = Inr (row, t')"
  from t obtain new where new: "db_rows t = db_rows s @ new" "\<forall>r\<in>set new. recorded_at r = db_clock s"
    "db_clock t = db_clock s"
    by (auto simp: appends_def)
  from app have t': "db_rows t' = db_rows t @ [row]" "recorded_at row = db_clock t"
    by (auto simp: append_assertion_iff)
  have "\<exists>new. db_rows t' = db_rows s @ new \<and> (\<forall>r\<in>set new. recorded_at r = db_clock s)"
    using new t' by (intro exI [of _ "new @ [row]"]) auto
  with t app show "appends s t'" by (simp add: appends_def append_assertion_iff)
qed

lemma callbacks_append [appends_keeps]:
  "tx_keeps (appends s) (copy_payload copier i j)" "tx_keeps (appends s) (write_payload writer i)"
  by (auto intro!: tx_keepsI dest!: copy_payload_iff write_payload_iff simp: appends_def)

lemma with_database_appends [appends_keeps]:
  "tx_keeps (appends s) m \<Longrightarrow> tx_keeps (appends s) (with_database m)"
  by (rule with_database_keeps)

lemma acceptable_prior_appends [appends_keeps]: "tx_keeps (appends s) (acceptable_prior i)"
  by (rule tx_keepsI) (auto dest: acceptable_priorD)

lemma append_copy_appends [appends_keeps]: "tx_keeps (appends s) (append_copy prior iv acc copier)"
  by (cases iv) (auto simp: append_copy_def intro!: tx_rules appends_keeps)

lemma split_appends [appends_keeps]:
  "tx_keeps (appends s) (split prior window k acc copier writer)"
  by (auto simp: split_def Let_def intro!: tx_rules appends_keeps split: option.split)

lemma prod_case_appends [appends_keeps]:
  "(\<And>a b. tx_keeps (appends s) (f a b)) \<Longrightarrow> tx_keeps (appends s) (case p of (a, b) \<Rightarrow> f a b)"
  by (cases p) simp

lemma create_assertion_appends [appends_keeps]:
  "tx_keeps (appends s) (create_assertion fromiso obj ef eu family k g)"
  unfolding create_assertion_def
  by (intro tx_rules appends_keeps locked_object_keeps)

lemma supersede_assertion_appends [appends_keeps]:
  "tx_keeps (appends s) (supersede_assertion fromiso aid ef eu k copier g)"
  unfolding supersede_assertion_def by (intro tx_rules appends_keeps locked_object_keeps)

lemma close_interval_appends [appends_keeps]:
  "tx_keeps (appends s) (close_interval fromiso aid eu copier g)"
  unfolding close_interval_def by (rule supersede_assertion_appends)

lemma replace_interval_appends [appends_keeps]:
  "tx_keeps (appends s) (replace_interval fromiso aid ef eu copier writer g)"
  unfolding replace_interval_def by (intro tx_rules appends_keeps locked_object_keeps)

lemma restore_appends [appends_keeps]: "tx_keeps (appends s) (restore did copier g)"
  unfolding restore_def by (intro tx_rules appends_keeps locked_object_keeps)

lemma delete_one_appends [appends_keeps]:
  "tx_keeps (appends s) (delete_one fromiso entry ef eu family copier acc)"
  unfolding delete_one_def by (intro tx_rules appends_keeps)

lemma soft_delete_appends [appends_keeps]:
  "tx_keeps (appends s) (soft_delete fromiso ids desc ef eu family copier g)"
  unfolding soft_delete_def by (intro tx_rules appends_keeps lock_all_keeps)

section \<open>The state machine\<close>

inductive service_step :: "(string \<Rightarrow> py_datetime option) \<Rightarrow> 'p tdb \<Rightarrow> 'p tdb \<Rightarrow> bool"
  for fromiso where
  create: "service_step fromiso s (snd (transaction (create_assertion fromiso obj ef eu family k g) s))"
| supersede: "service_step fromiso s
    (snd (transaction (supersede_assertion fromiso aid ef eun k copier g) s))"
| close: "service_step fromiso s (snd (transaction (close_interval fromiso aid eu copier g) s))"
| replace: "service_step fromiso s
    (snd (transaction (replace_interval fromiso aid ef eu copier writer g) s))"
| delete: "service_step fromiso s
    (snd (transaction (soft_delete fromiso ids desc ef eun fam copier g) s))"
| restore: "service_step fromiso s (snd (transaction (restore did copier g) s))"
| tick: "db_clock s \<le> t \<Longrightarrow> service_step fromiso s (s\<lparr>db_clock := t\<rparr>)"
| register: "map_of (db_registry s) i = None \<Longrightarrow>
    service_step fromiso s (s\<lparr>db_registry := db_registry s @ [(i, locator)]\<rparr>)"
| tables: "service_step fromiso s (s\<lparr>db_parents := ps, db_project_meta := ms\<rparr>)"

inductive_cases service_stepE: "service_step fromiso s s'"

inductive service_run :: "(string \<Rightarrow> py_datetime option) \<Rightarrow> 'p tdb \<Rightarrow> 'p tdb \<Rightarrow> bool"
  for fromiso where
  run_refl: "service_run fromiso s s"
| run_step: "service_run fromiso s t \<Longrightarrow> service_step fromiso t u \<Longrightarrow> service_run fromiso s u"

lemma service_run_trans:
  "service_run fromiso t u \<Longrightarrow> service_run fromiso s t \<Longrightarrow> service_run fromiso s u"
  by (induction rule: service_run.induct) (auto intro: service_run.intros)

text \<open>A database in which nothing has been asserted yet.\<close>

definition fresh_database :: "'p tdb \<Rightarrow> bool" where
  "fresh_database s \<longleftrightarrow> db_rows s = []"

lemma fresh_database_inv: "fresh_database s \<Longrightarrow> temporal_inv s"
  by (simp add: fresh_database_def temporal_inv_def history_inv_def unambiguous_at_def)

lemma service_step_inv: "service_step fromiso s s' \<Longrightarrow> temporal_inv s \<Longrightarrow> temporal_inv s'"
proof (induction rule: service_step.induct)
  case (tick s t)
  then show ?case by (fastforce simp: temporal_inv_def)
next
  case (register s i locator)
  then show ?case by (fastforce simp: temporal_inv_def map_of_append)
next
  case (tables s ps ms)
  then show ?case by (simp add: temporal_inv_def)
qed (auto intro: transaction_keeps temporal_keeps)

lemma service_run_inv: "service_run fromiso s s' \<Longrightarrow> temporal_inv s \<Longrightarrow> temporal_inv s'"
  by (induction rule: service_run.induct) (auto intro: service_step_inv)

lemma transaction_appends: "tx_keeps (appends s) m \<Longrightarrow> appends s (snd (transaction m s))"
  by (erule transaction_keeps) simp

definition history_grows :: "'p tdb \<Rightarrow> 'p tdb \<Rightarrow> bool" where
  "history_grows s s' \<longleftrightarrow>
     (\<exists>new. db_rows s' = db_rows s @ new \<and> (\<forall>r\<in>set new. db_clock s \<le> recorded_at r)) \<and>
     db_clock s \<le> db_clock s'"

lemma appends_grows: "appends s s' \<Longrightarrow> history_grows s s'"
  by (fastforce simp: appends_def history_grows_def)

lemma history_grows_refl: "history_grows s s"
  by (simp add: history_grows_def)

lemma history_grows_trans:
  assumes "history_grows s t" "history_grows t u"
  shows "history_grows s u"
proof -
  obtain n1 where n1: "db_rows t = db_rows s @ n1" "\<forall>r\<in>set n1. db_clock s \<le> recorded_at r"
    using assms(1) by (auto simp: history_grows_def)
  obtain n2 where n2: "db_rows u = db_rows t @ n2" "\<forall>r\<in>set n2. db_clock t \<le> recorded_at r"
    using assms(2) by (auto simp: history_grows_def)
  have "db_clock s \<le> db_clock t" "db_clock t \<le> db_clock u"
    using assms by (auto simp: history_grows_def)
  with n1 n2 show ?thesis
    unfolding history_grows_def by (intro conjI exI [of _ "n1 @ n2"]) auto
qed

lemma service_step_grows: "service_step fromiso s s' \<Longrightarrow> history_grows s s'"
proof (induction rule: service_step.induct)
  case (tick s t)
  then show ?case by (simp add: history_grows_def)
next
  case (register s i locator)
  then show ?case by (simp add: history_grows_def)
next
  case (tables s ps ms)
  then show ?case by (simp add: history_grows_def)
qed (intro appends_grows transaction_appends appends_keeps)+

lemma service_run_grows: "service_run fromiso s s' \<Longrightarrow> history_grows s s'"
  by (induction rule: service_run.induct)
    (auto intro: history_grows_refl history_grows_trans service_step_grows)

end
