(* ===== verification/Py_Values.thy ===== *)
theory Py_Values
  imports Py_Uuid
begin

text \<open>
  The Python values the services exchange with JSON columns and command arguments: JSON documents,
  their truth value and their printed form, \<open>dict.get\<close>, and the whitespace functions of strings.
  Strings are lists of characters with code points below 256; JSON numbers are integers.
\<close>

datatype json =
    J_null | J_bool bool | J_int int | J_str string | J_list "json list"
  | J_object "(string \<times> json) list"

type_synonym json_dict = "(string \<times> json) list"

text \<open>\<open>bool(value)\<close>\<close>

fun json_true :: "json \<Rightarrow> bool" where
  "json_true J_null = False"
| "json_true (J_bool b) = b"
| "json_true (J_int n) = (n \<noteq> 0)"
| "json_true (J_str s) = (s \<noteq> [])"
| "json_true (J_list xs) = (xs \<noteq> [])"
| "json_true (J_object d) = (d \<noteq> [])"

text \<open>\<open>str(n)\<close> of an integer.\<close>

function nat_digits :: "nat \<Rightarrow> string" where
  "nat_digits n = (if n < 10 then [char_of (48 + n)] else nat_digits (n div 10) @ [char_of (48 + n mod 10)])"
  by auto
termination by (relation "measure id") auto

declare nat_digits.simps [simp del]

definition int_str :: "int \<Rightarrow> string" where
  "int_str n = (if n < 0 then ''-'' @ nat_digits (nat (- n)) else nat_digits (nat n))"

text \<open>
  \<open>repr(s)\<close> of a string: single quotes unless the string holds a single and no double quote;
  backslashes, the quote and the characters that do not print are escaped.
\<close>

definition repr_char :: "char \<Rightarrow> char \<Rightarrow> string" where
  "repr_char q c = (let n = (of_char c :: nat) in
     if c = q \<or> n = 92 then [char_of (92::nat), c]
     else if n = 9 then [char_of (92::nat), CHR ''t'']
     else if n = 10 then [char_of (92::nat), CHR ''n'']
     else if n = 13 then [char_of (92::nat), CHR ''r'']
     else if n < 32 \<or> (127 \<le> n \<and> n \<le> 160) \<or> n = 173
       then [char_of (92::nat), CHR ''x'', hex_digit (n div 16), hex_digit (n mod 16)]
     else [c])"

definition repr_str :: "string \<Rightarrow> string" where
  "repr_str s = (let q = (if char_of (39::nat) \<in> set s \<and> char_of (34::nat) \<notin> set s
                          then char_of (34::nat) else char_of (39::nat))
     in q # concat (map (repr_char q) s) @ [q])"

fun joined :: "string \<Rightarrow> string list \<Rightarrow> string" where
  "joined sep [] = []"
| "joined sep [s] = s"
| "joined sep (s # t # ts) = s @ sep @ joined sep (t # ts)"

fun json_repr :: "json \<Rightarrow> string" where
  "json_repr J_null = ''None''"
| "json_repr (J_bool b) = (if b then ''True'' else ''False'')"
| "json_repr (J_int n) = int_str n"
| "json_repr (J_str s) = repr_str s"
| "json_repr (J_list xs) = ''['' @ joined '', '' (map json_repr xs) @ '']''"
| "json_repr (J_object d) =
     ''{'' @ joined '', '' (map (\<lambda>(k, v). repr_str k @ '': '' @ json_repr v) d) @ ''}''"

definition json_str :: "json \<Rightarrow> string" where
  "json_str v = (case v of J_str s \<Rightarrow> s | _ \<Rightarrow> json_repr v)"

text \<open>\<open>d.get(key)\<close>, \<open>d.pop(key, None)\<close> and \<open>a or b\<close>.\<close>

definition json_get :: "json_dict \<Rightarrow> string \<Rightarrow> json" where
  "json_get d k = (case map_of d k of None \<Rightarrow> J_null | Some v \<Rightarrow> v)"

definition dict_pop :: "('k \<times> 'v) list \<Rightarrow> 'k \<Rightarrow> ('k \<times> 'v) list" where
  "dict_pop d k = filter (\<lambda>(k', _). k' \<noteq> k) d"

definition json_or :: "json \<Rightarrow> json \<Rightarrow> json" where
  "json_or a b = (if json_true a then a else b)"

lemma map_of_dict_pop: "map_of (dict_pop d k) = (map_of d)(k := None)"
  by (induction d) (auto simp: dict_pop_def fun_eq_iff)

section \<open>Whitespace\<close>

text \<open>\<open>s.split()\<close>: the maximal runs of characters that are no white space.\<close>

fun split_words :: "string \<Rightarrow> string \<Rightarrow> string list" where
  "split_words word [] = (if word = [] then [] else [word])"
| "split_words word (c # cs) =
     (if py_space c then (if word = [] then split_words [] cs else word # split_words [] cs)
      else split_words (word @ [c]) cs)"

definition py_split :: "string \<Rightarrow> string list" where
  "py_split s = split_words [] s"

text \<open>\<open>s.lower()\<close> and \<open>s.lstrip("#")\<close>\<close>

definition py_lower :: "string \<Rightarrow> string" where
  "py_lower s = map (\<lambda>c. let n = (of_char c :: nat) in
     if (65 \<le> n \<and> n \<le> 90) \<or> (192 \<le> n \<and> n \<le> 222 \<and> n \<noteq> 215) then char_of (n + 32) else c) s"

definition lstrip_chars :: "char \<Rightarrow> string \<Rightarrow> string" where
  "lstrip_chars c s = dropWhile (\<lambda>d. d = c) s"

text \<open>\<open>s.splitlines()\<close>: a carriage return takes a following line feed with it.\<close>

definition line_break :: "char \<Rightarrow> bool" where
  "line_break c \<longleftrightarrow> (let n = (of_char c :: nat) in (10 \<le> n \<and> n \<le> 13) \<or> (28 \<le> n \<and> n \<le> 30) \<or> n = 133)"

fun lines_from :: "string \<Rightarrow> string \<Rightarrow> string list" where
  "lines_from line [] = (if line = [] then [] else [line])"
| "lines_from line (c # cs) =
     (if line_break c
      then line # (case cs of
          d # ds \<Rightarrow> if of_char c = (13 :: nat) \<and> of_char d = (10 :: nat) then lines_from [] ds else lines_from [] cs
        | [] \<Rightarrow> [])
      else lines_from (line @ [c]) cs)"

definition splitlines :: "string \<Rightarrow> string list" where
  "splitlines s = lines_from [] s"

text \<open>\<open>s.split(c)\<close>\<close>

fun split_at :: "char \<Rightarrow> string \<Rightarrow> string list" where
  "split_at c [] = [[]]"
| "split_at c (d # s) = (if d = c then [] # split_at c s
     else (case split_at c s of w # ws \<Rightarrow> (d # w) # ws | [] \<Rightarrow> [[d]]))"

text \<open>\<open>runtime/previews.py\<close>: \<open>limit\<close> is what \<open>preview_chars()\<close> read or the caller's limit.\<close>

definition chunk_preview :: "int \<Rightarrow> string \<Rightarrow> string" where
  "chunk_preview limit value =
     (let effective = max 0 limit in
      if effective = 0 then [] else take (nat effective) (joined '' '' (py_split value)))"

lemma chunk_preview_length: "length (chunk_preview limit value) \<le> nat (max 0 limit)"
  by (simp add: chunk_preview_def Let_def)

lemma split_words_clean:
  "\<forall>c\<in>set word. \<not> py_space c \<Longrightarrow> w \<in> set (split_words word s) \<Longrightarrow> w \<noteq> [] \<and> (\<forall>c\<in>set w. \<not> py_space c)"
proof (induction s arbitrary: word)
  case Nil
  then show ?case by (simp split: if_splits)
next
  case (Cons c cs)
  show ?case
  proof (cases "py_space c")
    case True
    then have "split_words word (c # cs) = (if word = [] then [] else [word]) @ split_words [] cs" by simp
    with Cons.prems(2) have "word \<noteq> [] \<and> w = word \<or> w \<in> set (split_words [] cs)"
      by (simp only: set_append Un_iff split: if_splits) auto
    then show ?thesis using Cons.prems(1) Cons.IH [of "[]"] by auto
  next
    case False
    with Cons.prems have "w \<in> set (split_words (word @ [c]) cs)" by simp
    then show ?thesis using Cons.prems(1) False by (intro Cons.IH [of "word @ [c]"]) auto
  qed
qed

end
