(* ===== verification/Bitemporal_Resolution.thy ===== *)
theory Bitemporal_Resolution
  imports Effective_Interval Py_Values
begin

text \<open>
  Request-start bitemporal resolution of \<open>commands/retrieval_commands.py\<close>: the pair of times a
  request reads at, the visibility of one assertion, the selection of the single visible assertion
  of an object and the grouping over many objects. A row is a mapping or an object whose fields
  may be missing: identifiers and kinds are the strings \<open>str()\<close> gives, \<open>None\<close> where the field is
  absent.
\<close>

datatype stored_time = Time_none | Time_datetime py_datetime | Time_text string | Time_other

record raw_assertion =
  raw_id :: "string option"
  raw_object :: "string option"
  raw_kind :: "string option"
  raw_supersedes :: "string option"
  raw_from :: stored_time
  raw_until :: stored_time
  raw_recorded :: stored_time

record time_pair =
  act_date :: instant
  known_at :: instant

datatype resolution_error = Ambiguous_assertion nat "string option"

text \<open>\<open>str(value)\<close> of a field that may be missing.\<close>

definition field_str :: "string option \<Rightarrow> string" where
  "field_str v = (case v of None \<Rightarrow> ''None'' | Some t \<Rightarrow> t)"

text \<open>\<open>text.replace("Z", "+00:00")\<close>\<close>

definition zulu_offset :: "string \<Rightarrow> string" where
  "zulu_offset t = concat (map (\<lambda>c. if c = CHR ''Z'' then ''+00:00'' else [c]) t)"

fun as_instant :: "(string \<Rightarrow> py_datetime option) \<Rightarrow> stored_time \<Rightarrow> instant option" where
  "as_instant fromiso (Time_datetime d) = Some (as_utc d)"
| "as_instant fromiso (Time_text t) =
     (case fromiso (zulu_offset t) of None \<Rightarrow> None | Some d \<Rightarrow> Some (as_utc d))"
| "as_instant fromiso Time_none = None"
| "as_instant fromiso Time_other = None"

section \<open>The request's pair of times\<close>

datatype temporal_input =
    In_none | In_bool bool | In_datetime py_datetime | In_text string | In_other


text \<open>\<open>coerce_instant\<close>; the error is the \<open>ValidationError\<close> on the field.\<close>

definition coerce_instant ::
  "(string \<Rightarrow> py_datetime option) \<Rightarrow> temporal_input \<Rightarrow> string \<Rightarrow> (string, instant option) result" where
  "coerce_instant fromiso value field =
     (case value of
        In_none \<Rightarrow> Inr None
      | In_bool _ \<Rightarrow> Inl field
      | In_datetime d \<Rightarrow> Inr (Some (as_utc d))
      | In_text raw \<Rightarrow>
          (let text = py_strip raw in
           if text = [] \<or> py_lower text \<in> {''null'', ''none''} then Inr None
           else (case fromiso (zulu_offset text) of
               None \<Rightarrow> Inl field | Some d \<Rightarrow> Inr (Some (as_utc d))))
      | In_other \<Rightarrow> Inl field)"

text \<open>\<open>resolve_time_pair\<close>; \<open>clock\<close> is the reading of \<open>datetime.now(UTC)\<close>.\<close>

definition resolve_time_pair ::
  "instant \<Rightarrow> instant option \<Rightarrow> instant option \<Rightarrow> py_datetime option \<Rightarrow> time_pair" where
  "resolve_time_pair clock act known now =
     (let request_start = (case now of None \<Rightarrow> clock | Some d \<Rightarrow> as_utc d) in
      \<lparr>act_date = (case act of None \<Rightarrow> request_start | Some t \<Rightarrow> t),
       known_at = (case known of None \<Rightarrow> request_start | Some t \<Rightarrow> t)\<rparr>)"

section \<open>Visibility\<close>

definition is_assertion_like :: "raw_assertion \<Rightarrow> bool" where
  "is_assertion_like r \<longleftrightarrow> raw_from r \<noteq> Time_none \<and> raw_recorded r \<noteq> Time_none"

definition is_visible ::
  "(string \<Rightarrow> py_datetime option) \<Rightarrow> raw_assertion \<Rightarrow> time_pair \<Rightarrow> bool" where
  "is_visible fromiso r pair =
     (case (as_instant fromiso (raw_recorded r), as_instant fromiso (raw_from r)) of
        (Some recorded, Some from) \<Rightarrow>
          if recorded > known_at pair then False
          else if from > act_date pair then False
          else (case as_instant fromiso (raw_until r) of
              None \<Rightarrow> True | Some u \<Rightarrow> act_date pair < u)
      | _ \<Rightarrow> False)"

definition superseded_ids ::
  "(string \<Rightarrow> py_datetime option) \<Rightarrow> raw_assertion list \<Rightarrow> time_pair \<Rightarrow> string list" where
  "superseded_ids fromiso rows pair =
     List.map_filter (\<lambda>r. case (raw_supersedes r, as_instant fromiso (raw_recorded r)) of
         (Some target, Some recorded) \<Rightarrow> if recorded \<le> known_at pair then Some target else None
       | _ \<Rightarrow> None) rows"

definition visible_rows ::
  "(string \<Rightarrow> py_datetime option) \<Rightarrow> raw_assertion list \<Rightarrow> time_pair \<Rightarrow> raw_assertion list" where
  "visible_rows fromiso rows pair =
     filter (\<lambda>r. is_visible fromiso r pair \<and>
       field_str (raw_id r) \<notin> set (superseded_ids fromiso rows pair)) rows"

definition select_visible_assertion ::
  "(string \<Rightarrow> py_datetime option) \<Rightarrow> raw_assertion list \<Rightarrow> time_pair
    \<Rightarrow> (resolution_error, raw_assertion option) result" where
  "select_visible_assertion fromiso rows pair =
     (let visible = visible_rows fromiso rows pair in
      case visible of
        [] \<Rightarrow> Inr None
      | [winner] \<Rightarrow> if field_str (raw_kind winner) = ''deletion'' then Inr None else Inr (Some winner)
      | first # _ \<Rightarrow> Inl (Ambiguous_assertion (length visible) (raw_object first)))"

text \<open>
  \<open>resolve_visible_versions\<close>: group by object in the order of first occurrence, then resolve each
  group; the first ambiguous group raises.
\<close>

fun group_rows ::
  "(string \<times> raw_assertion list) list \<Rightarrow> raw_assertion list \<Rightarrow> (string \<times> raw_assertion list) list" where
  "group_rows groups [] = groups"
| "group_rows groups (r # rs) =
     (let key = field_str (raw_object r) in
      group_rows (dict_set groups key ((case map_of groups key of None \<Rightarrow> [] | Some g \<Rightarrow> g) @ [r])) rs)"

definition resolve_visible_versions ::
  "(string \<Rightarrow> py_datetime option) \<Rightarrow> raw_assertion list \<Rightarrow> time_pair
    \<Rightarrow> (resolution_error, (string \<times> raw_assertion) list) result" where
  "resolve_visible_versions fromiso rows pair =
     bind_result (map_result (\<lambda>(key, g). bind_result (select_visible_assertion fromiso g pair)
         (\<lambda>w. Inr (key, w))) (group_rows [] rows))
       (\<lambda>resolved. Inr (List.map_filter (\<lambda>(key, w). map_option (Pair key) w) resolved))"

section \<open>Facts on grouping\<close>

lemma group_rows_map_of:
  "map_of (group_rows groups rs) key =
     (case filter (\<lambda>r. field_str (raw_object r) = key) rs of
        [] \<Rightarrow> map_of groups key
      | g \<Rightarrow> Some ((case map_of groups key of None \<Rightarrow> [] | Some h \<Rightarrow> h) @ g))"
proof (induction groups rs rule: group_rows.induct)
  case (1 groups)
  then show ?case by simp
next
  case (2 groups r rs)
  show ?case
    unfolding group_rows.simps Let_def "2.IH" [OF refl]
    by (cases "field_str (raw_object r) = key";
        cases "filter (\<lambda>r. field_str (raw_object r) = key) rs") auto
qed

lemma group_rows_distinct: "distinct (map fst groups) \<Longrightarrow> distinct (map fst (group_rows groups rs))"
  by (induction groups rs rule: group_rows.induct) (auto simp: Let_def intro: distinct_dict_set)

lemma group_rows_lookup:
  "map_of (group_rows [] rs) key = Some g \<longleftrightarrow>
     g = filter (\<lambda>r. field_str (raw_object r) = key) rs \<and> g \<noteq> []"
  by (auto simp: group_rows_map_of split: list.splits)

lemma select_visible_cases:
  "select_visible_assertion fromiso rows pair = Inr (Some w) \<longleftrightarrow>
     visible_rows fromiso rows pair = [w] \<and> field_str (raw_kind w) \<noteq> ''deletion''"
  by (auto simp: select_visible_assertion_def Let_def split: list.splits)

lemma select_visible_error:
  "(\<exists>e. select_visible_assertion fromiso rows pair = Inl e) \<longleftrightarrow>
     2 \<le> length (visible_rows fromiso rows pair)"
  by (auto simp: select_visible_assertion_def Let_def split: list.splits)

end
