(* ===== verification/Temporal_As_Of.thy ===== *)
theory Temporal_As_Of
  imports Temporal_Service Bitemporal_Resolution
begin

text \<open>
  Reading the assertion history as of an effective and a known time. The interface between the
  write service and the resolution of a request is the locale \<open>assertion_history\<close>: a store whose
  histories are unambiguous at every known time and only grow with later transaction times. Its
  lemmas say what a request sees, and the interpretation on the service's steps carries them over.
\<close>

section \<open>Stored rows as the resolution reads them\<close>

definition raw_of :: "assertion \<Rightarrow> raw_assertion" where
  "raw_of a =
     \<lparr>raw_id = Some (uuid_str (assertion_id a)), raw_object = Some (uuid_str (object_id a)),
      raw_kind = Some (kind_name (kind a)),
      raw_supersedes = map_option uuid_str (supersedes a),
      raw_from = Time_datetime (Aware (effective_from a)),
      raw_until = (case effective_until a of None \<Rightarrow> Time_none | Some t \<Rightarrow> Time_datetime (Aware t)),
      raw_recorded = Time_datetime (Aware (recorded_at a))\<rparr>"

definition object_rows :: "assertion list \<Rightarrow> uuid \<Rightarrow> assertion list" where
  "object_rows rows obj = filter (\<lambda>a. object_id a = obj) rows"

definition as_of ::
  "(string \<Rightarrow> py_datetime option) \<Rightarrow> assertion list \<Rightarrow> uuid \<Rightarrow> time_pair
    \<Rightarrow> (resolution_error, raw_assertion option) result" where
  "as_of fromiso rows obj pair =
     select_visible_assertion fromiso (map raw_of (object_rows rows obj)) pair"

text \<open>The rows in force at both times.\<close>

definition in_force :: "assertion list \<Rightarrow> time_pair \<Rightarrow> assertion \<Rightarrow> bool" where
  "in_force rows pair a \<longleftrightarrow>
     accepted_at (known_at pair) rows a \<and> act_date pair \<in> instants (interval_of a)"

lemma kind_name_deletion [simp]: "kind_name k = ''deletion'' \<longleftrightarrow> k = Deletion"
  by (cases k) auto

lemma raw_of_kind [simp]: "field_str (raw_kind (raw_of a)) = kind_name (kind a)"
  by (simp add: raw_of_def field_str_def)

lemma raw_of_simps [simp]:
  "raw_id (raw_of a) = Some (uuid_str (assertion_id a))"
  "raw_supersedes (raw_of a) = map_option uuid_str (supersedes a)"
  "raw_recorded (raw_of a) = Time_datetime (Aware (recorded_at a))"
  "raw_from (raw_of a) = Time_datetime (Aware (effective_from a))"
  by (simp_all add: raw_of_def)

lemma is_visible_raw_of:
  "is_visible fromiso (raw_of a) pair \<longleftrightarrow>
     recorded_at a \<le> known_at pair \<and> act_date pair \<in> instants (interval_of a)"
  by (auto simp: is_visible_def raw_of_def mem_instants interval_of_def split: option.splits)

lemma set_map_filter: "y \<in> set (List.map_filter f xs) \<longleftrightarrow> (\<exists>x\<in>set xs. f x = Some y)"
  by (induction xs) (auto simp: List.map_filter_simps split: option.splits)

lemma superseded_ids_raw_of:
  "uuid_str i \<in> set (superseded_ids fromiso (map raw_of rows) pair) \<longleftrightarrow>
     (\<exists>b\<in>set rows. recorded_at b \<le> known_at pair \<and> supersedes b = Some i)"
  unfolding superseded_ids_def set_map_filter set_map bex_simps
  by (auto split: option.splits)

lemma visible_rows_raw_of:
  "visible_rows fromiso (map raw_of rows) pair = map raw_of (filter (in_force rows pair) rows)"
proof -
  have "(is_visible fromiso (raw_of a) pair \<and>
      field_str (raw_id (raw_of a)) \<notin> set (superseded_ids fromiso (map raw_of rows) pair)) \<longleftrightarrow>
      in_force rows pair a" for a
    by (auto simp: field_str_def is_visible_raw_of superseded_ids_raw_of in_force_def accepted_at_def)
  then show ?thesis by (simp add: visible_rows_def filter_map comp_def)
qed

section \<open>Resolution from the rows in force\<close>

lemma as_of_None: "filter (in_force (object_rows rows obj) pair) (object_rows rows obj) = [] \<Longrightarrow>
    as_of fromiso rows obj pair = Inr None"
  by (simp add: as_of_def select_visible_assertion_def visible_rows_raw_of)

lemma as_of_one: "filter (in_force (object_rows rows obj) pair) (object_rows rows obj) = [a] \<Longrightarrow>
    as_of fromiso rows obj pair = Inr (if kind a = Deletion then None else Some (raw_of a))"
  by (simp add: as_of_def select_visible_assertion_def visible_rows_raw_of)

lemma filter_unique:
  assumes "distinct xs" "\<And>x y. x \<in> set xs \<Longrightarrow> y \<in> set xs \<Longrightarrow> P x \<Longrightarrow> P y \<Longrightarrow> x = y"
  shows "filter P xs = [] \<or> (\<exists>a. filter P xs = [a])"
proof (cases "filter P xs")
  case (Cons a as)
  have "as = []"
  proof (rule ccontr)
    assume "as \<noteq> []"
    then obtain b bs where "as = b # bs" by (cases as) auto
    with Cons have ab: "filter P xs = a # b # bs" by simp
    then have "a \<in> set (filter P xs)" "b \<in> set (filter P xs)" by auto
    with assms(2) have "a = b" by auto
    moreover have "distinct (filter P xs)" using assms(1) by simp
    ultimately show False using ab by simp
  qed
  with Cons show ?thesis by simp
qed simp

text \<open>All rows of an object belong to one payload family, as the registry's default makes them.\<close>

definition one_family :: "assertion list \<Rightarrow> uuid \<Rightarrow> bool" where
  "one_family rows obj \<longleftrightarrow>
     (\<forall>a\<in>set rows. \<forall>b\<in>set rows. object_id a = obj \<longrightarrow> object_id b = obj \<longrightarrow>
        payload_family a = payload_family b)"

text \<open>
  The interface: what the resolution of a request relies on of the service that writes the history.
\<close>

locale assertion_history =
  fixes rows :: "'db \<Rightarrow> assertion list"
    and clock :: "'db \<Rightarrow> instant"
    and inv :: "'db \<Rightarrow> bool"
    and step :: "'db \<Rightarrow> 'db \<Rightarrow> bool"
  assumes ids: "inv s \<Longrightarrow> distinct (map assertion_id (rows s))"
    and unambiguous: "inv s \<Longrightarrow> unambiguous_at known (rows s)"
    and successors: "inv s \<Longrightarrow> b \<in> set (rows s) \<Longrightarrow> supersedes b = Some (assertion_id a) \<Longrightarrow>
      a \<in> set (rows s) \<Longrightarrow> object_id b = object_id a"
    and half_open: "inv s \<Longrightarrow> a \<in> set (rows s) \<Longrightarrow> half_open (interval_of a)"
    and keeps: "inv s \<Longrightarrow> step s s' \<Longrightarrow> inv s'"
    and grows: "step s s' \<Longrightarrow> \<exists>new. rows s' = rows s @ new \<and> (\<forall>r\<in>set new. clock s \<le> recorded_at r)"
begin

lemma accepted_object_rows:
  assumes "inv s" "a \<in> set (rows s)" "object_id a = obj"
  shows "accepted_at known (object_rows (rows s) obj) a \<longleftrightarrow> accepted_at known (rows s) a"
  using assms successors [OF assms(1)] by (fastforce simp: accepted_at_def object_rows_def)

lemma in_force_unique:
  assumes "inv s" "a \<in> set (rows s)" "b \<in> set (rows s)"
    and "in_force (rows s) pair a" "in_force (rows s) pair b"
    and "object_id a = object_id b" "payload_family a = payload_family b"
  shows "a = b"
proof -
  have "act_date pair \<in> instants (interval_of a) \<inter> instants (interval_of b)"
    using assms(4,5) by (simp add: in_force_def)
  then have "overlaps (interval_of a) (interval_of b)"
    using half_open [OF assms(1)] assms(2,3) by (auto simp: overlaps_iff_instants)
  with unambiguous [OF assms(1), of "known_at pair"] assms show ?thesis
    by (simp add: unambiguous_at_def in_force_def)
qed

lemma in_force_object_rows:
  assumes "inv s" "a \<in> set (object_rows (rows s) obj)"
  shows "in_force (object_rows (rows s) obj) pair a \<longleftrightarrow> in_force (rows s) pair a"
  using assms accepted_object_rows [OF assms(1)] by (auto simp: in_force_def object_rows_def)

lemma in_force_at_most_one:
  assumes "inv s" "one_family (rows s) obj"
  shows "filter (in_force (object_rows (rows s) obj) pair) (object_rows (rows s) obj) = [] \<or>
    (\<exists>a. filter (in_force (object_rows (rows s) obj) pair) (object_rows (rows s) obj) = [a])"
proof (rule filter_unique)
  show "distinct (object_rows (rows s) obj)"
    using ids [OF assms(1)] by (auto simp: object_rows_def distinct_map)
  fix x y
  assume x: "x \<in> set (object_rows (rows s) obj)" and y: "y \<in> set (object_rows (rows s) obj)"
    and "in_force (object_rows (rows s) obj) pair x" "in_force (object_rows (rows s) obj) pair y"
  then have "in_force (rows s) pair x" "in_force (rows s) pair y"
    using in_force_object_rows [OF assms(1)] by blast+
  with x y assms show "x = y"
    by (intro in_force_unique [OF assms(1), of x y pair]) (auto simp: object_rows_def one_family_def)
qed

lemma resolution_total:
  assumes "inv s" "one_family (rows s) obj"
  shows "\<exists>w. as_of fromiso (rows s) obj pair = Inr w"
  using in_force_at_most_one [OF assms, of pair] as_of_None as_of_one by blast

lemma resolution_of_row:
  assumes "inv s" "one_family (rows s) obj" "a \<in> set (rows s)" "object_id a = obj" "in_force (rows s) pair a"
  shows "as_of fromiso (rows s) obj pair = Inr (if kind a = Deletion then None else Some (raw_of a))"
proof -
  have "a \<in> set (filter (in_force (object_rows (rows s) obj) pair) (object_rows (rows s) obj))"
  proof -
    have mem: "a \<in> set (object_rows (rows s) obj)" using assms(3,4) by (simp add: object_rows_def)
    with in_force_object_rows [OF assms(1) mem] assms(5) show ?thesis by simp
  qed
  then have "filter (in_force (object_rows (rows s) obj) pair) (object_rows (rows s) obj) = [a]"
    using in_force_at_most_one [OF assms(1,2), of pair] by (elim disjE exE) simp_all
  then show ?thesis by (rule as_of_one)
qed

lemma resolution_finds:
  assumes "inv s" "one_family (rows s) obj"
  shows "as_of fromiso (rows s) obj pair =
    Inr (case List.find (\<lambda>a. object_id a = obj \<and> in_force (rows s) pair a) (rows s) of
           None \<Rightarrow> None | Some a \<Rightarrow> if kind a = Deletion then None else Some (raw_of a))"
proof (cases "List.find (\<lambda>a. object_id a = obj \<and> in_force (rows s) pair a) (rows s)")
  case None
  have "\<not> in_force (object_rows (rows s) obj) pair a" if "a \<in> set (object_rows (rows s) obj)" for a
  proof -
    have "a \<in> set (rows s)" "object_id a = obj" using that by (auto simp: object_rows_def)
    with None have "\<not> in_force (rows s) pair a" by (auto simp: find_None_iff)
    with in_force_object_rows [OF assms(1) that] show ?thesis by simp
  qed
  then have "filter (in_force (object_rows (rows s) obj) pair) (object_rows (rows s) obj) = []"
    by (simp add: filter_empty_conv)
  from as_of_None [OF this] None show ?thesis by simp
next
  case (Some a)
  then have "a \<in> set (rows s)" "object_id a = obj" "in_force (rows s) pair a"
    using find_Some_in by fast+
  from resolution_of_row [OF assms this] Some show ?thesis by simp
qed

lemma past_is_stable:
  assumes "step s s'" "known_at pair < clock s"
  shows "as_of fromiso (rows s') obj pair = as_of fromiso (rows s) obj pair"
proof -
  obtain new where new: "rows s' = rows s @ new" "\<forall>r\<in>set new. clock s \<le> recorded_at r"
    using grows [OF assms(1)] by blast
  then have late: "\<forall>r\<in>set (object_rows new obj). known_at pair < recorded_at r"
    using assms(2) by (auto simp: object_rows_def)
  have split: "object_rows (rows s') obj = object_rows (rows s) obj @ object_rows new obj"
    by (simp add: new object_rows_def)
  have same: "in_force (object_rows (rows s) obj @ object_rows new obj) pair a \<longleftrightarrow>
      in_force (object_rows (rows s) obj) pair a" for a
    unfolding in_force_def accepted_at_extend [OF late] ..
  have none: "filter (in_force (object_rows (rows s) obj) pair) (object_rows new obj) = []"
    using late by (fastforce simp: filter_empty_conv in_force_def accepted_at_def)
  have "filter (in_force (object_rows (rows s') obj) pair) (object_rows (rows s') obj) =
      filter (in_force (object_rows (rows s) obj) pair) (object_rows (rows s) obj)"
    unfolding split same filter_append none by simp
  then show ?thesis
    by (simp add: as_of_def select_visible_assertion_def visible_rows_raw_of)
qed

end

section \<open>The service provides the interface\<close>

interpretation service: assertion_history db_rows db_clock temporal_inv "service_run fromiso"
proof
  fix s :: "'p tdb" and known a b
  assume inv: "temporal_inv s"
  then show "distinct (map assertion_id (db_rows s))" "unambiguous_at known (db_rows s)"
    by (auto simp: temporal_inv_def history_inv_def)
  show "half_open (interval_of a)" if "a \<in> set (db_rows s)"
    using that inv by (auto simp: temporal_inv_def history_inv_def)
  show "object_id b = object_id a"
    if "b \<in> set (db_rows s)" "supersedes b = Some (assertion_id a)" "a \<in> set (db_rows s)"
  proof -
    have "history_inv (db_rows s)" using inv by (simp add: temporal_inv_def)
    from history_inv_successor [OF this that(1,2)] obtain c where "c \<in> set (db_rows s)"
      "assertion_id c = assertion_id a" "object_id c = object_id b"
      by blast
    moreover from this inv that have "c = a"
      by (auto simp: temporal_inv_def history_inv_def dest: distinct_map_eqD)
    ultimately show ?thesis by simp
  qed
next
  fix s s' :: "'p tdb"
  show "temporal_inv s'" if "temporal_inv s" "service_run fromiso s s'"
    using that by (rule service_run_inv [rotated])
  show "\<exists>new. db_rows s' = db_rows s @ new \<and> (\<forall>r\<in>set new. db_clock s \<le> recorded_at r)"
    if "service_run fromiso s s'"
    using service_run_grows [OF that] by (simp add: history_grows_def)
qed

end
