(* ===== verification/Temporal_Effects.thy ===== *)
theory Temporal_Effects
  imports Temporal_As_Of
begin

text \<open>
  What the write operations of the assertion service do to the history: the segments a correction
  leaves, the rows a deletion appends, and that a correction which meets an accepted assertion goes
  through. The lemmas state the effect of one append or split; the theorems on the operations
  combine them.
\<close>

section \<open>The rows of a split\<close>

definition option_list :: "'a option \<Rightarrow> 'a list" where
  "option_list r = (case r of None \<Rightarrow> [] | Some a \<Rightarrow> [a])"

lemma option_list_simps [simp]: "option_list None = []" "option_list (Some a) = [a]"
  by (simp_all add: option_list_def)

lemma set_option_list [simp]: "set (option_list r) = set_option r"
  by (cases r) simp_all

definition successor_of :: "assertion \<Rightarrow> instant \<Rightarrow> assertion \<Rightarrow> bool" where
  "successor_of prior t a \<longleftrightarrow>
     object_id a = object_id prior \<and> payload_family a = payload_family prior \<and>
     supersedes a = Some (assertion_id prior) \<and> recorded_at a = t"

definition segment_rows :: "segments \<Rightarrow> assertion list" where
  "segment_rows segs = option_list (seg_left segs) @ seg_corrected segs # option_list (seg_right segs)"

lemma append_successor:
  assumes "append_assertion (object_id prior) (payload_family prior) k iv
    (Some (assertion_id prior)) acc ign s = Inr (row, s')"
  shows "db_rows s' = db_rows s @ [row]" "db_clock s' = db_clock s" "db_registry s' = db_registry s"
    "interval_of row = iv" "kind row = k" "successor_of prior (db_clock s) row"
  using assms by (auto simp: append_assertion_iff successor_of_def)

lemma payload_callbacks_rows:
  "copy_payload copier i j s = Inr (x, s') \<Longrightarrow> db_rows s' = db_rows s \<and> db_clock s' = db_clock s"
  "write_payload writer i s = Inr (x, s') \<Longrightarrow> db_rows s' = db_rows s \<and> db_clock s' = db_clock s"
  by (auto dest!: copy_payload_iff write_payload_iff)

lemma append_copy_effect:
  assumes "append_copy prior iv acc copier s = Inr (r, s')"
  shows "db_rows s' = db_rows s @ option_list r" "db_clock s' = db_clock s"
    "map_option interval_of r = iv"
    "\<forall>a\<in>set_option r. kind a = kind prior \<and> successor_of prior (db_clock s) a"
proof -
  have "db_rows s' = db_rows s @ option_list r \<and> db_clock s' = db_clock s \<and>
    map_option interval_of r = iv \<and>
    (\<forall>a\<in>set_option r. kind a = kind prior \<and> successor_of prior (db_clock s) a)"
  proof (cases iv)
    case None
    with assms show ?thesis by (simp add: append_copy_def)
  next
    case (Some i)
    with assms obtain row s1 x where
      a: "append_assertion (object_id prior) (payload_family prior) (kind prior) i
        (Some (assertion_id prior)) acc [assertion_id prior] s = Inr (row, s1)"
      and c: "copy_payload copier (assertion_id prior) (assertion_id row) s1 = Inr (x, s')"
      and r: "r = Some row"
      by (auto simp: append_copy_def)
    show ?thesis
      using append_successor [OF a] payload_callbacks_rows(1) [OF c] Some by (simp add: r)
  qed
  then show "db_rows s' = db_rows s @ option_list r" "db_clock s' = db_clock s"
    "map_option interval_of r = iv"
    "\<forall>a\<in>set_option r. kind a = kind prior \<and> successor_of prior (db_clock s) a"
    by blast+
qed

lemma split_effect:
  assumes "split prior window k acc copier writer s = Inr (segs, s')"
  shows "db_rows s' = db_rows s @ segment_rows segs" "db_clock s' = db_clock s"
    "clipped_to window (interval_of prior) = Some (interval_of (seg_corrected segs))"
    "map_option interval_of (seg_left segs) =
       left_segment (interval_of prior) (interval_of (seg_corrected segs))"
    "map_option interval_of (seg_right segs) =
       right_segment (interval_of prior) (interval_of (seg_corrected segs))"
    "kind (seg_corrected segs) = k"
    "\<forall>a\<in>set (segment_rows segs). successor_of prior (db_clock s) a"
    "\<forall>a\<in>set_option (seg_left segs) \<union> set_option (seg_right segs). kind a = kind prior"
proof -
  from assms obtain c l s1 a s2 u s3 r where
    clip: "clipped_to window (interval_of prior) = Some c"
    and l: "append_copy prior (left_segment (interval_of prior) c) acc copier s = Inr (l, s1)"
    and a: "append_assertion (object_id prior) (payload_family prior) k c
      (Some (assertion_id prior)) acc [assertion_id prior] s1 = Inr (a, s2)"
    and w: "(if k \<noteq> Deletion then write_payload writer (assertion_id a) else tx_return ()) s2 = Inr (u, s3)"
    and r: "append_copy prior (right_segment (interval_of prior) c) acc copier s3 = Inr (r, s')"
    and segs: "segs = \<lparr>seg_left = l, seg_corrected = a, seg_right = r\<rparr>"
    by (auto simp: split_def Let_def split: option.splits)
  have s3: "db_rows s3 = db_rows s2" "db_clock s3 = db_clock s2"
    using w by (auto split: if_splits dest: payload_callbacks_rows)
  note L = append_copy_effect [OF l] and A = append_successor [OF a] and R = append_copy_effect [OF r]
  show "db_rows s' = db_rows s @ segment_rows segs" "db_clock s' = db_clock s"
    using L A R s3 by (simp_all add: segs segment_rows_def)
  show "clipped_to window (interval_of prior) = Some (interval_of (seg_corrected segs))"
    "map_option interval_of (seg_left segs) =
       left_segment (interval_of prior) (interval_of (seg_corrected segs))"
    "map_option interval_of (seg_right segs) =
       right_segment (interval_of prior) (interval_of (seg_corrected segs))"
    "kind (seg_corrected segs) = k"
    using clip L A R by (simp_all add: segs)
  show "\<forall>a\<in>set (segment_rows segs). successor_of prior (db_clock s) a"
    "\<forall>a\<in>set_option (seg_left segs) \<union> set_option (seg_right segs). kind a = kind prior"
    using L A R s3 by (auto simp: segs segment_rows_def)
qed

section \<open>A correction that meets the assertion succeeds\<close>

text \<open>The next \<open>n\<close> identifiers to be drawn are fresh and differ from each other.\<close>

definition fresh_supply :: "nat \<Rightarrow> 'p tdb \<Rightarrow> bool" where
  "fresh_supply n s \<longleftrightarrow>
     distinct (map (db_uuids s) [db_drawn s..<db_drawn s + n]) \<and>
     (\<forall>m\<in>{db_drawn s..<db_drawn s + n}. db_uuids s m \<notin> assertion_id ` set (db_rows s))"

lemma fresh_supply_mono: "fresh_supply n s \<Longrightarrow> m \<le> n \<Longrightarrow> fresh_supply m s"
  by (auto simp: fresh_supply_def distinct_map intro: inj_on_subset)

lemma fresh_supply_first: "fresh_supply (Suc n) s \<Longrightarrow> db_uuids s (db_drawn s) \<notin> assertion_id ` set (db_rows s)"
  by (simp add: fresh_supply_def)

lemma fresh_supply_next:
  assumes fresh: "fresh_supply (Suc n) s" and row: "assertion_id row = db_uuids s (db_drawn s)"
  shows "fresh_supply n (s\<lparr>db_drawn := Suc (db_drawn s), db_rows := db_rows s @ [row]\<rparr>)"
proof -
  have "distinct (db_uuids s (db_drawn s) # map (db_uuids s) [Suc (db_drawn s)..<Suc (db_drawn s) + n])"
    using fresh by (simp add: fresh_supply_def upt_conv_Cons del: upt_Suc)
  then have d: "distinct (map (db_uuids s) [Suc (db_drawn s)..<Suc (db_drawn s) + n])"
    and new: "db_uuids s (db_drawn s) \<notin> db_uuids s ` {Suc (db_drawn s)..<Suc (db_drawn s) + n}"
    by auto
  have "db_uuids s m \<notin> assertion_id ` set (db_rows s @ [row])"
    if m: "m \<in> {Suc (db_drawn s)..<Suc (db_drawn s) + n}" for m
  proof -
    have "db_uuids s m \<notin> assertion_id ` set (db_rows s)" using fresh m by (simp add: fresh_supply_def)
    moreover have "db_uuids s m \<noteq> assertion_id row" using new m unfolding row by (metis imageI)
    ultimately show ?thesis by simp
  qed
  with d show ?thesis by (simp add: fresh_supply_def)
qed

text \<open>No other accepted assertion of the object and family covers an instant of \<open>J\<close>.\<close>

definition room :: "assertion \<Rightarrow> instant set \<Rightarrow> 'p tdb \<Rightarrow> bool" where
  "room prior J s \<longleftrightarrow>
     (\<forall>a\<in>set (db_rows s). object_id a = object_id prior \<longrightarrow> payload_family a = payload_family prior \<longrightarrow>
        a \<noteq> prior \<longrightarrow> accepted_in (db_rows s) a \<longrightarrow> instants (interval_of a) \<inter> J = {})"

definition splittable :: "assertion \<Rightarrow> nat \<Rightarrow> instant set \<Rightarrow> 'p tdb \<Rightarrow> bool" where
  "splittable prior n J s \<longleftrightarrow> with_row prior s \<and> fresh_supply n s \<and> room prior J s"

lemma splittable_mono: "splittable prior n J s \<Longrightarrow> m \<le> n \<Longrightarrow> splittable prior m J s"
  by (auto simp: splittable_def intro: fresh_supply_mono)

lemma temporal_invD:
  assumes "temporal_inv s"
  shows "distinct (map assertion_id (db_rows s))"
    "a \<in> set (db_rows s) \<Longrightarrow> half_open (interval_of a)"
    "a \<in> set (db_rows s) \<Longrightarrow> payload_family a \<noteq> []"
    "a \<in> set (db_rows s) \<Longrightarrow> recorded_at a \<le> db_clock s"
    "a \<in> set (db_rows s) \<Longrightarrow> map_of (db_registry s) (object_id a) \<noteq> None"
    "unambiguous_at known (db_rows s)"
    "\<forall>a\<in>set (db_rows s). 0 < revision_no a"
  using assms by (auto simp: temporal_inv_def history_inv_def)

lemma room_original:
  assumes inv: "temporal_inv s" and p: "prior \<in> set (db_rows s)" "accepted_in (db_rows s) prior"
  shows "room prior (instants (interval_of prior)) s"
  unfolding room_def
proof (intro ballI impI)
  fix a
  assume a: "a \<in> set (db_rows s)" "object_id a = object_id prior"
    "payload_family a = payload_family prior" "a \<noteq> prior" "accepted_in (db_rows s) a"
  have "accepted_at (db_clock s) (db_rows s) b" if "b \<in> set (db_rows s)" "accepted_in (db_rows s) b" for b
    using that accepted_at_now [of "db_rows s" "db_clock s" b "db_clock s"] temporal_invD(4) [OF inv] by blast
  with a p temporal_invD(6) [OF inv, of "db_clock s"]
  have "\<not> overlaps (interval_of a) (interval_of prior)" by (auto simp: unambiguous_at_def)
  then show "instants (interval_of a) \<inter> instants (interval_of prior) = {}"
    using temporal_invD(2) [OF inv] a(1) p(1) by (simp add: overlaps_iff_instants)
qed

lemma row_constraints_new_row:
  assumes inv: "with_row prior s" and fresh: "fresh_supply (Suc n) s" and iv: "half_open iv"
  shows "row_constraints s (new_row s (object_id prior) (payload_family prior) k iv
    (Some (assertion_id prior)) acc)" (is "row_constraints s ?row")
proof -
  note inv' = inv [unfolded with_row_def, THEN conjunct1] and mem = inv [unfolded with_row_def, THEN conjunct2]
  have new: "assertion_id ?row \<notin> assertion_id ` set (db_rows s)"
    using fresh_supply_first [OF fresh] by (simp add: new_row_def)
  moreover have "(object_id ?row, revision_no ?row) \<notin> (\<lambda>b. (object_id b, revision_no b)) ` set (db_rows s)"
  proof
    assume "(object_id ?row, revision_no ?row) \<in> (\<lambda>b. (object_id b, revision_no b)) ` set (db_rows s)"
    then obtain b where "b \<in> set (db_rows s)" "object_id b = object_id prior"
      "revision_no b = next_number (map revision_no (filter (\<lambda>a. object_id a = object_id prior) (db_rows s)))"
      by (auto simp: new_row_def)
    then have "next_number (map revision_no (filter (\<lambda>a. object_id a = object_id prior) (db_rows s)))
        \<in> set (map revision_no (filter (\<lambda>a. object_id a = object_id prior) (db_rows s)))"
      by (auto simp: image_iff intro!: bexI [of _ b])
    then show False using next_number_fresh by blast
  qed
  moreover have "0 < revision_no ?row"
    using temporal_invD(7) [OF inv'] by (auto simp: new_row_def intro!: next_number_pos)
  moreover have "supersedes ?row \<noteq> Some (assertion_id ?row)" using new mem by auto
  ultimately show ?thesis
    using mem iv temporal_invD(3,5) [OF inv' mem] by (simp add: row_constraints_def)
qed

lemma append_in_room:
  assumes s: "splittable prior (Suc n) J s" and iv: "half_open iv" "instants iv \<subseteq> J"
  shows "\<exists>row s'. append_assertion (object_id prior) (payload_family prior) k iv
      (Some (assertion_id prior)) acc [assertion_id prior] s = Inr (row, s') \<and>
    splittable prior n (J - instants iv) s'"
proof -
  let ?row = "new_row s (object_id prior) (payload_family prior) k iv (Some (assertion_id prior)) acc"
  let ?s' = "s\<lparr>db_drawn := Suc (db_drawn s), db_rows := db_rows s @ [?row]\<rparr>"
  have held: "with_row prior s" and fresh: "fresh_supply (Suc n) s" and room: "room prior J s"
    using s by (auto simp: splittable_def)
  then have inv: "temporal_inv s" and p: "prior \<in> set (db_rows s)" by (auto simp: with_row_def)
  have "\<not> clashes (db_rows s) (object_id prior) (payload_family prior) iv [assertion_id prior] a"
    if a: "a \<in> set (db_rows s)" for a
  proof
    assume c: "clashes (db_rows s) (object_id prior) (payload_family prior) iv [assertion_id prior] a"
    then have "a \<noteq> prior" by (auto simp: clashes_iff_overlaps)
    with c a room have "instants (interval_of a) \<inter> J = {}" by (simp add: room_def clashes_iff_overlaps)
    moreover have "instants (interval_of a) \<inter> instants iv \<noteq> {}"
      using c iv(1) temporal_invD(2) [OF inv a] by (simp add: clashes_iff_overlaps overlaps_iff_instants)
    ultimately show False using iv(2) by blast
  qed
  then have app: "append_assertion (object_id prior) (payload_family prior) k iv
      (Some (assertion_id prior)) acc [assertion_id prior] s = Inr (?row, ?s')"
    using row_constraints_new_row [OF held fresh iv(1)] by (simp add: append_assertion_iff)
  have "with_row prior ?s'" using tx_keepsD [OF append_next_keeps app held] .
  moreover have "fresh_supply n ?s'"
    using fresh by (rule fresh_supply_next) (simp add: new_row_def)
  moreover have "room prior (J - instants iv) ?s'"
    unfolding room_def
  proof (intro ballI impI)
    fix a
    assume a: "a \<in> set (db_rows ?s')" "object_id a = object_id prior"
      "payload_family a = payload_family prior" "a \<noteq> prior" "accepted_in (db_rows ?s') a"
    show "instants (interval_of a) \<inter> (J - instants iv) = {}"
    proof (cases "a = ?row")
      case True
      then have "interval_of a = iv" by simp
      then show ?thesis by blast
    next
      case False
      with a have "a \<in> set (db_rows s)" "accepted_in (db_rows s) a" by (auto simp: superseded_by_None)
      with a room have "instants (interval_of a) \<inter> J = {}" by (simp add: room_def)
      then show ?thesis by blast
    qed
  qed
  ultimately show ?thesis using app by (auto simp: splittable_def)
qed

text \<open>Callbacks that do not raise.\<close>

definition total_copier :: "'p payload_copier option \<Rightarrow> bool" where
  "total_copier copier \<longleftrightarrow> (\<forall>f. copier = Some f \<longrightarrow> (\<forall>i j p. f i j p \<noteq> None))"

definition total_writer :: "'p payload_writer option \<Rightarrow> bool" where
  "total_writer writer \<longleftrightarrow> (\<forall>f. writer = Some f \<longrightarrow> (\<forall>i p. f i p \<noteq> None))"

lemma splittable_payloads [simp]: "splittable prior n J (s\<lparr>db_payloads := p\<rparr>) = splittable prior n J s"
  by (simp add: splittable_def fresh_supply_def room_def)

lemma copy_payload_total:
  assumes "total_copier copier" "splittable prior n J s"
  shows "\<exists>s'. copy_payload copier i j s = Inr ((), s') \<and> splittable prior n J s'"
proof (cases copier)
  case (Some f)
  with assms(1) have "f i j (db_payloads s) \<noteq> None" by (simp add: total_copier_def)
  then obtain p where "f i j (db_payloads s) = Some p" by blast
  with Some assms show ?thesis by (simp add: copy_payload_def)
qed (use assms in \<open>simp add: copy_payload_def\<close>)

lemma write_payload_total:
  assumes "total_writer writer" "splittable prior n J s"
  shows "\<exists>s'. write_payload writer i s = Inr ((), s') \<and> splittable prior n J s'"
proof (cases writer)
  case (Some f)
  with assms(1) have "f i (db_payloads s) \<noteq> None" by (simp add: total_writer_def)
  then obtain p where "f i (db_payloads s) = Some p" by blast
  with Some assms show ?thesis by (simp add: write_payload_def)
qed (use assms in \<open>simp add: write_payload_def\<close>)

lemma append_copy_total:
  assumes s: "splittable prior (Suc n) J s" and iv: "\<And>i. iv = Some i \<Longrightarrow> half_open i \<and> instants i \<subseteq> J"
    and c: "total_copier copier"
  shows "\<exists>r s'. append_copy prior iv acc copier s = Inr (r, s') \<and>
    splittable prior n (J - option_instants iv) s'"
proof (cases iv)
  case None
  with splittable_mono [OF s, of n] show ?thesis by (simp add: append_copy_def)
next
  case (Some i)
  with iv have "half_open i" "instants i \<subseteq> J" by auto
  from append_in_room [OF s this, of "kind prior" acc] obtain row s1 where
    a: "append_assertion (object_id prior) (payload_family prior) (kind prior) i
      (Some (assertion_id prior)) acc [assertion_id prior] s = Inr (row, s1)"
    and s1: "splittable prior n (J - instants i) s1"
    by blast
  from copy_payload_total [OF c s1] obtain s2 where
    "copy_payload copier (assertion_id prior) (assertion_id row) s1 = Inr ((), s2)"
    "splittable prior n (J - instants i) s2"
    by auto
  with a Some show ?thesis by (auto simp: append_copy_def tx_bind_step)
qed

lemma split_total:
  assumes inv: "temporal_inv s" and p: "prior \<in> set (db_rows s)" "accepted_in (db_rows s) prior"
    and fresh: "fresh_supply 3 s" and window: "half_open window" "overlaps window (interval_of prior)"
    and cb: "total_copier copier" "total_writer writer"
  shows "\<exists>segs s'. split prior window k acc copier writer s = Inr (segs, s')"
proof -
  let ?o = "interval_of prior"
  have "instants window \<inter> instants ?o \<noteq> {}"
    using window temporal_invD(2) [OF inv p(1)] by (simp add: overlaps_iff_instants)
  then obtain c where c: "clipped_to window ?o = Some c"
    using clipped_to_None by (cases "clipped_to window ?o") auto
  note part = segments_partition [OF c]
  let ?L = "left_segment ?o c" and ?R = "right_segment ?o c"
  have s: "splittable prior (Suc 2) (instants ?o) s"
    using inv p fresh room_original [OF inv p] by (simp add: splittable_def with_row_def numeral_3_eq_3 numeral_2_eq_2)
  have "half_open l \<and> instants l \<subseteq> instants ?o" if "?L = Some l" for l
    using that left_segment_half_open part(1) by auto
  from append_copy_total [OF s this cb(1)] obtain l s1 where
    l: "append_copy prior ?L acc copier s = Inr (l, s1)"
    and s1: "splittable prior (Suc 1) (instants ?o - option_instants ?L) s1"
    unfolding numeral_2_eq_2 One_nat_def by blast
  have "half_open c" "instants c \<subseteq> instants ?o - option_instants ?L"
    using clipped_to_instants [OF c] part by auto
  from append_in_room [OF s1 this, of k acc] obtain a s2 where
    a: "append_assertion (object_id prior) (payload_family prior) k c
      (Some (assertion_id prior)) acc [assertion_id prior] s1 = Inr (a, s2)"
    and s2: "splittable prior (Suc 0) (instants ?o - option_instants ?L - instants c) s2"
    by auto
  obtain s3 where w: "(if k \<noteq> Deletion then write_payload writer (assertion_id a) else tx_return ()) s2 = Inr ((), s3)"
    and s3: "splittable prior (Suc 0) (instants ?o - option_instants ?L - instants c) s3"
    using write_payload_total [OF cb(2) s2] s2 by (cases "k = Deletion") auto
  have "half_open r \<and> instants r \<subseteq> instants ?o - option_instants ?L - instants c" if "?R = Some r" for r
    using that right_segment_half_open part by auto
  from append_copy_total [OF s3 this cb(1)] obtain r s4 where
    "append_copy prior ?R acc copier s3 = Inr (r, s4)"
    by blast
  with c l a w have "split prior window k acc copier writer s =
      Inr (\<lparr>seg_left = l, seg_corrected = a, seg_right = r\<rparr>, s4)"
    by (auto simp: split_def Let_def)
  then show ?thesis by blast
qed

section \<open>What a deletion appends\<close>

text \<open>An accepted deletion, the state a batch leaves each of its targets in.\<close>

definition deletion_stands :: "assertion \<Rightarrow> 'p tdb \<Rightarrow> bool" where
  "deletion_stands r s \<longleftrightarrow> r \<in> set (db_rows s) \<and> accepted_in (db_rows s) r \<and> kind r = Deletion"

text \<open>The rows an append adds supersede only assertions that are no deletions.\<close>

definition spares_deletions :: "'p tdb \<Rightarrow> assertion list \<Rightarrow> bool" where
  "spares_deletions s new \<longleftrightarrow>
     (\<forall>b\<in>set new. \<forall>i. supersedes b = Some i \<longrightarrow>
        (\<exists>p\<in>set (db_rows s). assertion_id p = i \<and> kind p \<noteq> Deletion))"

lemma delete_one_effect:
  assumes del: "delete_one fromiso (obj, locator) ef eu family copier acc s = Inr (d, s')"
  shows "\<exists>new. db_rows s' = db_rows s @ new \<and> spares_deletions s new \<and> del_deletion d \<in> set new \<and>
    kind (del_deletion d) = Deletion \<and> object_id (del_deletion d) = obj \<and> del_object d = obj"
proof -
  from del obtain fam found where fam: "family_of family locator = Inr fam"
    and found: "deletion_target fromiso (db_rows s) obj fam ef eu = Inr found"
    by (auto simp: delete_one_def)
  show ?thesis
  proof (cases found)
    case None
    with del fam found obtain iv row where
      row: "append_assertion obj fam Deletion iv None acc [] s = Inr (row, s')"
      and d: "d = \<lparr>del_object = obj, del_superseded = None, del_deletion = row,
        del_left = None, del_right = None\<rparr>"
      by (auto simp: delete_one_def)
    then show ?thesis
      by (intro exI [of _ "[row]"]) (auto simp: append_assertion_iff spares_deletions_def)
  next
    case (Some prior)
    with found have p: "prior \<in> set (accepted_payload_rows (db_rows s) obj fam)"
      using deletion_target_Some by blast
    from Some del fam found obtain window segs where
      segs: "split prior window Deletion acc copier None s = Inr (segs, s')"
      and d: "d = \<lparr>del_object = obj, del_superseded = Some (assertion_id prior),
        del_deletion = seg_corrected segs, del_left = seg_left segs, del_right = seg_right segs\<rparr>"
      by (auto simp: delete_one_def)
    note eff = split_effect [OF segs]
    have "spares_deletions s (segment_rows segs)"
      using eff(7) p by (auto simp: spares_deletions_def successor_of_def accepted_payload_rows_mem)
    moreover have "seg_corrected segs \<in> set (segment_rows segs)" by (simp add: segment_rows_def)
    ultimately show ?thesis
      using eff(1,6,7) p by (intro exI [of _ "segment_rows segs"])
        (auto simp: d successor_of_def accepted_payload_rows_mem)
  qed
qed

lemma spared_deletion_stands:
  assumes inv: "temporal_inv s" and new: "db_rows s' = db_rows s @ new" "spares_deletions s new"
    and r: "deletion_stands r s"
  shows "deletion_stands r s'"
proof -
  have "supersedes b \<noteq> Some (assertion_id r)" if "b \<in> set new" for b
  proof
    assume "supersedes b = Some (assertion_id r)"
    with new(2) that obtain p where p: "p \<in> set (db_rows s)" "assertion_id p = assertion_id r" "kind p \<noteq> Deletion"
      unfolding spares_deletions_def by blast
    have "r \<in> set (db_rows s)" using r by (simp add: deletion_stands_def)
    with p temporal_invD(1) [OF inv] have "p = r" by (auto dest: distinct_map_eqD)
    with p r show False by (simp add: deletion_stands_def)
  qed
  with r new(1) show ?thesis by (auto simp: deletion_stands_def superseded_by_None)
qed

lemma deletion_stands_new:
  assumes inv: "temporal_inv s" "temporal_inv s'" and new: "db_rows s' = db_rows s @ new" "spares_deletions s new"
    and r: "r \<in> set new" "kind r = Deletion"
  shows "deletion_stands r s'"
proof -
  have "distinct (map assertion_id (db_rows s @ new))" using temporal_invD(1) [OF inv(2)] new(1) by simp
  then have fresh: "assertion_id r \<notin> assertion_id ` set (db_rows s)" using r(1) by auto
  have "supersedes b \<noteq> Some (assertion_id r)" if b: "b \<in> set (db_rows s')" for b
  proof
    assume sup: "supersedes b = Some (assertion_id r)"
    show False
    proof (cases "b \<in> set new")
      case True
      with sup new(2) obtain p where "p \<in> set (db_rows s)" "assertion_id p = assertion_id r"
        unfolding spares_deletions_def by blast
      then show False using fresh by (metis imageI)
    next
      case False
      with b new(1) have "b \<in> set (db_rows s)" by simp
      moreover have "history_inv (db_rows s)" using inv(1) by (simp add: temporal_inv_def)
      ultimately obtain c where "c \<in> set (db_rows s)" "assertion_id c = assertion_id r"
        using history_inv_successor [OF _ _ sup] by blast
      then show False using fresh by (metis imageI)
    qed
  qed
  with r new(1) show ?thesis by (auto simp: deletion_stands_def superseded_by_None)
qed

lemma delete_batch_stands:
  assumes inv: "temporal_inv s"
    and del: "tx_map (\<lambda>i. delete_one fromiso (i, loc i) ef eu family copier acc) ids s = Inr (ds, s')"
  shows "temporal_inv s' \<and> (\<forall>d\<in>set ds. deletion_stands (del_deletion d) s' \<and> object_id (del_deletion d) = del_object d)"
proof -
  let ?f = "\<lambda>i. delete_one fromiso (i, loc i) ef eu family copier acc"
  let ?Q = "\<lambda>d s. deletion_stands (del_deletion d) s \<and> object_id (del_deletion d) = del_object d"
  have eff: "\<exists>new. db_rows s' = db_rows s @ new \<and> spares_deletions s new \<and> del_deletion d \<in> set new \<and>
      kind (del_deletion d) = Deletion \<and> object_id (del_deletion d) = del_object d"
    if "?f i s = Inr (d, s')" for i s d s'
    using delete_one_effect [OF that] by (elim exE conjE) (intro exI conjI, assumption+, simp)
  show ?thesis
  proof (rule tx_map_each [where I = temporal_inv and Q = ?Q, OF inv del])
    fix i s d s'
    assume s: "temporal_inv s" and d: "?f i s = Inr (d, s')"
    have s': "temporal_inv s'" using tx_keepsD [OF delete_one_keeps d s] .
    obtain new where new: "db_rows s' = db_rows s @ new" "spares_deletions s new"
      "del_deletion d \<in> set new" "kind (del_deletion d) = Deletion" "object_id (del_deletion d) = del_object d"
      using eff [OF d] by blast
    show "temporal_inv s' \<and> ?Q d s'"
      by (intro conjI) (rule s', rule deletion_stands_new [OF s s' new(1-4)], rule new(5))
  next
    fix i s d s' z
    assume s: "temporal_inv s" and z: "?Q z s" and d: "?f i s = Inr (d, s')"
    obtain new where "db_rows s' = db_rows s @ new" "spares_deletions s new"
      using eff [OF d] by blast
    from spared_deletion_stands [OF s this conjunct1 [OF z]] conjunct2 [OF z] show "?Q z s'" by (rule conjI)
  qed
qed

lemma accepted_in_force:
  assumes inv: "temporal_inv s" and r: "r \<in> set (db_rows s)" "accepted_in (db_rows s) r"
    and t: "act_date pair \<in> instants (interval_of r)" "db_clock s \<le> known_at pair"
  shows "in_force (db_rows s) pair r"
  using accepted_at_now [of "db_rows s" "db_clock s" r "known_at pair"] temporal_invD(4) [OF inv] r t
  by (simp add: in_force_def)

section \<open>The closure of the deletion roots\<close>

definition child_rel :: "'p tdb \<Rightarrow> ((uuid \<times> string) \<times> (uuid \<times> string)) set" where
  "child_rel db = {(n, m). m \<in> set (children db n)}"

definition closed_under_children :: "'p tdb \<Rightarrow> (uuid \<times> string) set \<Rightarrow> uuid set \<Rightarrow> bool" where
  "closed_under_children db ns ids \<longleftrightarrow> (\<forall>n\<in>ns. fst ` set (children db n) \<subseteq> ids)"

lemma descend_closed:
  "set frontier \<subseteq> set seen \<Longrightarrow>
   closed_under_children db (set seen - set frontier) (fst ` set seen) \<Longrightarrow>
   closed_under_children db (set (descend db seen frontier)) (fst ` set (descend db seen frontier))"
proof (induction db seen frontier rule: descend.induct)
  case (1 db seen frontier)
  show ?case
  proof (cases "frontier = []")
    case True
    with "1.prems" show ?thesis by (simp add: descend.simps)
  next
    case False
    obtain seen' next' where v:
      "visit_children seen [] (concat (map (children db) frontier)) = (seen', next')"
      by (cases "visit_children seen [] (concat (map (children db) frontier))")
    from visit_children_new [OF v] obtain new where new: "seen' = seen @ new" "next' = new"
      "fst ` set new = fst ` set (concat (map (children db) frontier)) - fst ` set seen"
      by auto
    have "closed_under_children db (set seen' - set next') (fst ` set seen')"
      unfolding closed_under_children_def
    proof
      fix n assume n: "n \<in> set seen' - set next'"
      show "fst ` set (children db n) \<subseteq> fst ` set seen'"
      proof (cases "n \<in> set frontier")
        case True
        then have "fst ` set (children db n) \<subseteq> fst ` set (concat (map (children db) frontier))" by auto
        also have "\<dots> \<subseteq> fst ` set seen'" using new(1,3) by auto
        finally show ?thesis .
      next
        case False
        with n new(1,2) have "n \<in> set seen - set frontier" by auto
        with "1.prems"(2) have "fst ` set (children db n) \<subseteq> fst ` set seen"
          unfolding closed_under_children_def by blast
        then show ?thesis using new(1) by auto
      qed
    qed
    moreover have "set next' \<subseteq> set seen'" using new by auto
    ultimately show ?thesis
      using "1.IH" [OF False v [symmetric]] False v
      by (subst (1 2) descend.simps) simp
  qed
qed

lemma descend_sound:
  "set frontier \<subseteq> set seen \<Longrightarrow> set seen \<subseteq> (child_rel db)\<^sup>* `` R \<Longrightarrow>
   set (descend db seen frontier) \<subseteq> (child_rel db)\<^sup>* `` R"
proof (induction db seen frontier rule: descend.induct)
  case (1 db seen frontier)
  show ?case
  proof (cases "frontier = []")
    case True
    with "1.prems" show ?thesis by (simp add: descend.simps)
  next
    case False
    obtain seen' next' where v:
      "visit_children seen [] (concat (map (children db) frontier)) = (seen', next')"
      by (cases "visit_children seen [] (concat (map (children db) frontier))")
    from visit_children_new [OF v] obtain new where new: "seen' = seen @ new" "next' = new"
      "set new \<subseteq> set (concat (map (children db) frontier))"
      by auto
    have "m \<in> (child_rel db)\<^sup>* `` R" if "m \<in> set new" for m
    proof -
      from that new(3) obtain n where n: "n \<in> set frontier" "m \<in> set (children db n)" by auto
      then have "n \<in> (child_rel db)\<^sup>* `` R" using "1.prems" by blast
      then obtain r where "r \<in> R" "(r, n) \<in> (child_rel db)\<^sup>*" by blast
      moreover have "(n, m) \<in> child_rel db" using n by (simp add: child_rel_def)
      ultimately show ?thesis by (blast intro: rtrancl_into_rtrancl)
    qed
    then have "set seen' \<subseteq> (child_rel db)\<^sup>* `` R" using new(1) "1.prems"(2) by auto
    moreover have "set next' \<subseteq> set seen'" using new by auto
    ultimately show ?thesis
      using "1.IH" [OF False v [symmetric]] False v by (subst descend.simps) simp
  qed
qed

lemma descend_extends: "\<exists>new. descend db seen frontier = seen @ new"
proof (induction db seen frontier rule: descend.induct)
  case (1 db seen frontier)
  show ?case
  proof (cases "frontier = []")
    case False
    obtain seen' next' where v:
      "visit_children seen [] (concat (map (children db) frontier)) = (seen', next')"
      by (cases "visit_children seen [] (concat (map (children db) frontier))")
    with visit_children_new [OF v] "1.IH" [OF False v [symmetric]] False show ?thesis
      by (subst descend.simps) auto
  qed (simp add: descend.simps)
qed

end
