(* ===== verification/Temporal_Properties.thy ===== *)
theory Temporal_Properties
  imports Temporal_Effects
begin

text \<open>
  The properties of the temporal assertion service and of the resolution that reads what it wrote,
  each with an instance on a small database.
\<close>

section \<open>A small database\<close>

definition sample_database :: "unit tdb" where
  "sample_database =
     \<lparr>db_configured = True, db_rows = [], db_registry = [(7, ''documents''), (8, ''chapters'')],
      db_parents = (\<lambda>t c. if t = ''chapters'' \<and> c = ''document_id'' then [(8, 7), (9, 7)] else []),
      db_project_meta = [], db_payloads = (), db_clock = 100,
      db_uuids = (\<lambda>n. word_of_nat (n + 20)), db_drawn = 0\<rparr>"

definition sample_acceptance :: acceptance_args where
  "sample_acceptance = \<lparr>arg_by = None, arg_via = None, arg_operation = None, arg_comment = None\<rparr>"

definition sample_create :: "string option \<Rightarrow> (unit, assertion) temporal_tx" where
  "sample_create family =
     create_assertion (\<lambda>_. None) (Uuid 7) (Arg_datetime (Aware 0)) Arg_none family ''payload'' sample_acceptance"

definition sample_row :: assertion where
  "sample_row = \<lparr>assertion_id = 20, object_id = 7, payload_family = ''document'', kind = Payload,
     revision_no = 1, supersedes = None, effective_from = 0, effective_until = None,
     recorded_at = 100, accepted_with = \<lparr>accepted_by = None, accepted_via = None,
       operation_id = None, acceptance_comment = None\<rparr>\<rparr>"

definition sample_state :: "unit tdb" where
  "sample_state = committed (sample_create None) sample_database"

lemma sample_state_rows: "db_rows sample_state = [sample_row]"
  by code_simp

lemma sample_fresh: "fresh_database sample_database"
  by (simp add: fresh_database_def sample_database_def)

lemma sample_reached: "service_run (\<lambda>_. None) sample_database sample_state"
proof -
  have "service_step (\<lambda>_. None) sample_database sample_state"
    unfolding sample_state_def sample_create_def committed_def by (rule service_step.create)
  then show ?thesis by (auto intro: service_run.intros)
qed

lemma sample_inv: "temporal_inv sample_state"
  by (rule service_run_inv [OF sample_reached fresh_database_inv [OF sample_fresh]])

lemma sample_uuids: "db_uuids sample_state = (\<lambda>n. word_of_nat (n + 20))"
  using transaction_appends [OF create_assertion_appends, of sample_database]
  by (simp add: appends_def sample_state_def sample_create_def committed_def sample_database_def)

lemma sample_drawn: "db_drawn sample_state = 1"
  by code_simp

lemma sample_supply: "fresh_supply 3 sample_state"
proof -
  have three: "[1..<4] = [1, 2, 3::nat]" by (simp add: upt_rec)
  then have "{1..<4} = {1, 2, 3::nat}" by (metis list.set(1) list.set(2) set_upt)
  with three show ?thesis
    by (simp add: fresh_supply_def sample_uuids sample_drawn sample_state_rows sample_row_def)
qed

section \<open>The history\<close>

text \<open>
  C1: whatever sequence of calls, clock ticks and foreign changes led to it, the history is
  unambiguous at every known time: two different assertions of one object and payload family that
  are accepted at the same known time cover disjoint sets of instants.
\<close>

theorem service_history_unambiguous:
  assumes "fresh_database s0" "service_run fromiso s0 s"
    and "a \<in> set (db_rows s)" "b \<in> set (db_rows s)" "a \<noteq> b"
    and "accepted_at known (db_rows s) a" "accepted_at known (db_rows s) b"
    and "object_id a = object_id b" "payload_family a = payload_family b"
  shows "instants (interval_of a) \<inter> instants (interval_of b) = {}"
proof -
  have inv: "temporal_inv s" using service_run_inv [OF assms(2) fresh_database_inv [OF assms(1)]] .
  with assms have "\<not> overlaps (interval_of a) (interval_of b)"
    using temporal_invD(6) [OF inv, of known] by (auto simp: unambiguous_at_def)
  then show ?thesis using temporal_invD(2) [OF inv] assms(3,4) by (simp add: overlaps_iff_instants)
qed

text \<open>
  The sample after a day, and after a deletion of the instants from 10 to 20 on that day.
\<close>

definition later_state :: "unit tdb" where
  "later_state = sample_state\<lparr>db_clock := 200\<rparr>"

definition sample_deletion :: "(unit, delete_result list) temporal_tx" where
  "sample_deletion = soft_delete (\<lambda>_. None) [Uuid 7] False (Arg_datetime (Aware 10))
     (Some (Arg_datetime (Aware 20))) None None sample_acceptance"

definition deleted_state :: "unit tdb" where
  "deleted_state = committed sample_deletion later_state"

lemma later_reached: "service_run (\<lambda>_. None) sample_database later_state"
proof -
  have "db_clock sample_state \<le> 200" by code_simp
  then have "service_step (\<lambda>_. None) sample_state later_state"
    unfolding later_state_def by (rule service_step.tick)
  with sample_reached show ?thesis by (rule service_run.run_step)
qed

lemma deleted_step: "service_run (\<lambda>_. None) later_state deleted_state"
proof -
  have "service_step (\<lambda>_. None) later_state deleted_state"
    unfolding deleted_state_def sample_deletion_def committed_def by (rule service_step.delete)
  then show ?thesis by (auto intro: service_run.intros)
qed

lemma later_inv: "temporal_inv later_state"
  by (rule service_run_inv [OF later_reached fresh_database_inv [OF sample_fresh]])

lemma deleted_inv: "temporal_inv deleted_state"
  by (rule service_run_inv [OF deleted_step later_inv])

definition sample_left :: assertion where
  "sample_left = sample_row\<lparr>assertion_id := 21, revision_no := 2, supersedes := Some 20,
     effective_until := Some 10, recorded_at := 200\<rparr>"

definition sample_cut :: assertion where
  "sample_cut = sample_row\<lparr>assertion_id := 22, kind := Deletion, revision_no := 3, supersedes := Some 20,
     effective_from := 10, effective_until := Some 20, recorded_at := 200\<rparr>"

definition sample_right :: assertion where
  "sample_right = sample_row\<lparr>assertion_id := 23, revision_no := 4, supersedes := Some 20,
     effective_from := 20, recorded_at := 200\<rparr>"

lemma sample_fields [simp]:
  "assertion_id sample_row = 20" "object_id sample_row = 7" "payload_family sample_row = ''document''"
  "kind sample_row = Payload" "supersedes sample_row = None" "recorded_at sample_row = 100"
  "interval_of sample_row = \<lparr>start = 0, until = None\<rparr>"
  "assertion_id sample_left = 21" "object_id sample_left = 7" "payload_family sample_left = ''document''"
  "kind sample_left = Payload" "supersedes sample_left = Some 20" "recorded_at sample_left = 200"
  "interval_of sample_left = \<lparr>start = 0, until = Some 10\<rparr>"
  "assertion_id sample_cut = 22" "object_id sample_cut = 7" "payload_family sample_cut = ''document''"
  "kind sample_cut = Deletion" "supersedes sample_cut = Some 20" "recorded_at sample_cut = 200"
  "interval_of sample_cut = \<lparr>start = 10, until = Some 20\<rparr>"
  "assertion_id sample_right = 23" "object_id sample_right = 7" "payload_family sample_right = ''document''"
  "kind sample_right = Payload" "supersedes sample_right = Some 20" "recorded_at sample_right = 200"
  "interval_of sample_right = \<lparr>start = 20, until = None\<rparr>"
  by (simp_all add: sample_row_def sample_left_def sample_cut_def sample_right_def interval_of_def)

text \<open>Rows compare by two groups of their columns.\<close>

definition row_identity :: "assertion \<Rightarrow> uuid \<times> uuid \<times> string \<times> assertion_kind \<times> int" where
  "row_identity a = (assertion_id a, object_id a, payload_family a, kind a, revision_no a)"

definition row_times ::
  "assertion \<Rightarrow> uuid option \<times> instant \<times> instant option \<times> instant \<times> acceptance" where
  "row_times a = (supersedes a, effective_from a, effective_until a, recorded_at a, accepted_with a)"

lemma rows_eqI:
  "map row_identity xs = map row_identity ys \<Longrightarrow> map row_times xs = map row_times ys \<Longrightarrow> xs = ys"
  by (induction xs arbitrary: ys) (auto simp: row_identity_def row_times_def)

lemma deleted_state_rows: "db_rows deleted_state = [sample_row, sample_left, sample_cut, sample_right]"
proof (rule rows_eqI)
  show "map row_identity (db_rows deleted_state) =
      map row_identity [sample_row, sample_left, sample_cut, sample_right]"
    by code_simp
  show "map row_times (db_rows deleted_state) =
      map row_times [sample_row, sample_left, sample_cut, sample_right]"
    by code_simp
qed

lemma deleted_state_run: "service_run (\<lambda>_. None) sample_database deleted_state"
  by (rule service_run_trans [OF deleted_step later_reached])

theorem service_history_unambiguous_witness:
  "instants (interval_of sample_left) \<inter> instants (interval_of sample_cut) = {}"
  by (rule service_history_unambiguous [OF sample_fresh deleted_state_run, of _ _ 200])
    (auto simp: deleted_state_rows accepted_at_def dest: arg_cong [of _ _ assertion_id])

section \<open>Reads\<close>

text \<open>
  C2: what a request at a known time in the past sees never changes: whatever calls the service
  runs after the clock has passed the known time, the resolution of every object at every
  effective time gives the same answer, an error included.
\<close>

theorem past_reads_stable:
  assumes "service_run fromiso s s'" "known_at pair < db_clock s"
  shows "as_of fromiso' (db_rows s') obj pair = as_of fromiso' (db_rows s) obj pair"
  using assms by (rule service.past_is_stable)

theorem past_reads_stable_witness:
  "as_of (\<lambda>_. None) (db_rows deleted_state) 7 \<lparr>act_date = 15, known_at = 150\<rparr> =
     Inr (Some (raw_of sample_row)) \<and>
   as_of (\<lambda>_. None) (db_rows deleted_state) 7 \<lparr>act_date = 15, known_at = 200\<rparr> = Inr None"
proof -
  have "db_clock later_state = 200" by (simp add: later_state_def)
  then have "as_of (\<lambda>_. None) (db_rows deleted_state) 7 \<lparr>act_date = 15, known_at = 150\<rparr> =
      as_of (\<lambda>_. None) (db_rows later_state) 7 \<lparr>act_date = 15, known_at = 150\<rparr>"
    by (intro past_reads_stable [OF deleted_step]) simp
  moreover have "as_of (\<lambda>_. None) (db_rows later_state) 7 \<lparr>act_date = 15, known_at = 150\<rparr> =
      Inr (Some (raw_of sample_row))"
    by (simp add: as_of_one object_rows_def later_state_def sample_state_rows in_force_def accepted_at_def
        mem_instants)
  moreover have "as_of (\<lambda>_. None) (db_rows deleted_state) 7 \<lparr>act_date = 15, known_at = 200\<rparr> = Inr None"
    by (simp add: as_of_one object_rows_def deleted_state_rows in_force_def accepted_at_def
        mem_instants)
  ultimately show ?thesis by simp
qed

text \<open>
  C3: where the rows of an object belong to one payload family, a request never fails as ambiguous:
  it sees the one assertion of the object in force at both times, nothing when there is none or
  when that assertion is a deletion.
\<close>

theorem single_family_reads:
  assumes "fresh_database s0" "service_run fromiso s0 s" "one_family (db_rows s) obj"
  shows "as_of fromiso' (db_rows s) obj pair =
    Inr (case List.find (\<lambda>a. object_id a = obj \<and> in_force (db_rows s) pair a) (db_rows s) of
           None \<Rightarrow> None | Some a \<Rightarrow> if kind a = Deletion then None else Some (raw_of a))"
  using service.resolution_finds [OF service_run_inv [OF assms(2) fresh_database_inv [OF assms(1)]] assms(3)] .

theorem single_family_reads_witness:
  "as_of (\<lambda>_. None) (db_rows deleted_state) 7 \<lparr>act_date = 25, known_at = 200\<rparr> =
     Inr (Some (raw_of sample_right))"
proof -
  have "one_family (db_rows deleted_state) 7"
    by (simp add: one_family_def deleted_state_rows)
  note reads = single_family_reads [OF sample_fresh deleted_state_run this]
  let ?rows = "[sample_row, sample_left, sample_cut, sample_right]"
  have "\<not> in_force ?rows \<lparr>act_date = 25, known_at = 200\<rparr> sample_row"
    "\<not> in_force ?rows \<lparr>act_date = 25, known_at = 200\<rparr> sample_left"
    "\<not> in_force ?rows \<lparr>act_date = 25, known_at = 200\<rparr> sample_cut"
    "in_force ?rows \<lparr>act_date = 25, known_at = 200\<rparr> sample_right"
    by (simp_all add: in_force_def accepted_at_def mem_instants)
  then show ?thesis unfolding reads unfolding deleted_state_rows by simp
qed

section \<open>Corrections\<close>

text \<open>
  C4: a correction of an interval that goes through partitions the interval of the assertion it
  corrects: the corrected segment covers the instants the window and the original share, the left
  and right segments keep the rest, no two segments share an instant, all three supersede the
  original, which is no longer accepted, and the history grows by these rows only.
\<close>

theorem replace_interval_partitions:
  assumes "temporal_inv s"
    and "replace_interval fromiso aid ef eu copier writer g s = Inr (segs, s')"
  shows "\<exists>prior window. prior \<in> set (db_rows s) \<and> uuid_of_arg aid = Inr (assertion_id prior) \<and>
    make_interval fromiso ef eu = Inr window \<and>
    accepted_in (db_rows s) prior \<and> \<not> accepted_in (db_rows s') prior \<and>
    db_rows s' = db_rows s @ option_list (seg_left segs) @ [seg_corrected segs] @ option_list (seg_right segs) \<and>
    (let l = option_instants (map_option interval_of (seg_left segs));
         c = instants (interval_of (seg_corrected segs));
         r = option_instants (map_option interval_of (seg_right segs))
     in c = instants window \<inter> instants (interval_of prior) \<and>
        l \<union> c \<union> r = instants (interval_of prior) \<and> l \<inter> c = {} \<and> r \<inter> c = {} \<and> l \<inter> r = {})"
proof -
  from assms(2) obtain prior_id window acc prior where id: "uuid_of_arg aid = Inr prior_id"
    and w: "make_interval fromiso ef eu = Inr window"
    and p: "acceptable_prior prior_id s = Inr (prior, s)"
    and sp: "split prior window Supersession acc copier writer s = Inr (segs, s')"
    by (auto simp: replace_interval_def with_database_def acceptable_prior_iff split: if_splits)
  note prior = acceptable_priorD [OF p] and eff = split_effect [OF sp]
  have "\<not> accepted_in (db_rows s') prior"
    using eff(1,7) by (auto simp: superseded_by_None successor_of_def segment_rows_def)
  moreover note segments_partition [OF eff(3)] clipped_to_instants [OF eff(3)]
  ultimately show ?thesis
    using id w prior eff by (intro exI [of _ prior] exI [of _ window]) (simp add: segment_rows_def)
qed

definition sample_correction :: "(unit, segments) temporal_tx" where
  "sample_correction = replace_interval (\<lambda>_. None) (Uuid 20) (Arg_datetime (Aware 10))
     (Arg_datetime (Aware 20)) None None sample_acceptance"

definition sample_segments :: segments where
  "sample_segments = \<lparr>seg_left = Some (sample_left\<lparr>recorded_at := 100\<rparr>),
     seg_corrected = sample_cut\<lparr>kind := Supersession, recorded_at := 100\<rparr>,
     seg_right = Some (sample_right\<lparr>recorded_at := 100\<rparr>)\<rparr>"

lemma sample_correction_run:
  "sample_correction sample_state = Inr (sample_segments, committed sample_correction sample_state)"
  by (rule committed_run) code_simp

theorem replace_interval_partitions_witness:
  "\<not> accepted_in (db_rows (committed sample_correction sample_state)) sample_row"
  using replace_interval_partitions [OF sample_inv sample_correction_run [unfolded sample_correction_def]]
  by (auto simp: sample_state_rows sample_correction_def)

text \<open>
  C5: a correction whose window meets the accepted assertion it corrects always goes through: the
  guard against ambiguous histories refuses none of its up to three appends, provided that the
  caller's values are well formed, the next three drawn identifiers are fresh and the payload
  callbacks do not raise.
\<close>

theorem replace_interval_succeeds:
  assumes "temporal_inv s" "db_configured s" "prior \<in> set (db_rows s)" "accepted_in (db_rows s) prior"
    and "make_interval fromiso ef eu = Inr window" "overlaps window (interval_of prior)"
    and "build_acceptance g = Inr acc" "fresh_supply 3 s" "total_copier copier" "total_writer writer"
  shows "\<exists>segs s'. replace_interval fromiso (Uuid (assertion_id prior)) ef eu copier writer g s = Inr (segs, s')"
proof -
  have "acceptable_prior (assertion_id prior) s = Inr (prior, s)"
    using find_unique_key [OF temporal_invD(1) [OF assms(1)] assms(3)] assms(4)
    by (simp add: acceptable_prior_iff)
  moreover obtain t where "map_of (db_registry s) (object_id prior) = Some t"
    using temporal_invD(5) [OF assms(1,3)] by blast
  moreover obtain segs s' where "split prior window Supersession acc copier writer s = Inr (segs, s')"
    using split_total [OF assms(1,3,4,8) make_interval_half_open [OF assms(5)] assms(6,9,10)] by blast
  ultimately have "replace_interval fromiso (Uuid (assertion_id prior)) ef eu copier writer g s = Inr (segs, s')"
    using assms(2,5,7) by (auto simp: replace_interval_def with_database_def uuid_of_arg_def)
  then show ?thesis by blast
qed

theorem replace_interval_succeeds_witness:
  "\<exists>segs s'. replace_interval (\<lambda>_. None) (Uuid (assertion_id sample_row)) (Arg_datetime (Aware 10)) Arg_none
     None None sample_acceptance sample_state = Inr (segs, s')"
proof (rule replace_interval_succeeds [OF sample_inv])
  show "db_configured sample_state" by code_simp
  show "make_interval (\<lambda>_. None) (Arg_datetime (Aware 10)) Arg_none = Inr \<lparr>start = 10, until = None\<rparr>"
    by code_simp
  show "build_acceptance sample_acceptance = Inr (accepted_with sample_row)" by code_simp
qed (simp_all add: sample_supply sample_state_rows superseded_by_def overlaps_def total_copier_def
    total_writer_def)

section \<open>Deletion and restoration\<close>

lemma soft_delete_batch:
  assumes "temporal_inv s" "soft_delete fromiso ids desc ef eu family copier g s = Inr (ds, s')"
  shows "temporal_inv s' \<and>
    (\<forall>d\<in>set ds. deletion_stands (del_deletion d) s' \<and> object_id (del_deletion d) = del_object d)"
proof -
  obtain roots acc where roots: "map_result uuid_of_arg ids = Inr roots" "build_acceptance g = Inr acc"
    using assms(2) by (auto simp: soft_delete_def)
  show ?thesis
  proof (cases "roots = []")
    case True
    with assms roots show ?thesis by (simp add: soft_delete_def)
  next
    case False
    with assms(2) roots obtain regs s1 targets s2 where
      l: "lock_all roots [] s = Inr (regs, s1)"
      and t: "(if desc then tx_bind (tx_read (\<lambda>db. filter (\<lambda>d. d \<notin> fst ` set regs)
          (descendants db regs))) (\<lambda>extra. lock_all extra regs) else tx_return regs) s1 = Inr (targets, s2)"
      and m: "tx_map (\<lambda>i. delete_one fromiso (i, the (map_of targets i)) ef eu family copier acc)
          (sort (map fst targets)) s2 = Inr (ds, s')"
      by (auto simp: soft_delete_def with_database_iff)
    have s1: "temporal_inv s1"
      using tx_keepsD [where I = temporal_inv, OF lock_all_keeps l assms(1)] .
    have keeps: "tx_keeps temporal_inv (if desc then tx_bind (tx_read (\<lambda>db. filter (\<lambda>d. d \<notin> fst ` set regs)
          (descendants db regs))) (\<lambda>extra. lock_all extra regs) else tx_return regs)"
      by (intro tx_rules lock_all_keeps)
    have "temporal_inv s2" by (rule tx_keepsD [where I = temporal_inv, OF keeps t s1])
    from delete_batch_stands [OF this m] show ?thesis .
  qed
qed

text \<open>
  C6: a committed deletion takes effect. For every target of the batch, a read at an effective time
  inside the interval its deletion covers and at a known time not before the commit sees no object,
  where the object's rows belong to one payload family.
\<close>

theorem soft_delete_hides:
  assumes "temporal_inv s" "soft_delete fromiso ids desc ef eu family copier g s = Inr (ds, s')"
    and "d \<in> set ds" "one_family (db_rows s') (del_object d)"
    and "act_date pair \<in> instants (interval_of (del_deletion d))" "db_clock s' \<le> known_at pair"
  shows "as_of fromiso' (db_rows s') (del_object d) pair = Inr None"
proof -
  have inv: "temporal_inv s'" and r: "deletion_stands (del_deletion d) s'"
    and obj: "object_id (del_deletion d) = del_object d"
    using soft_delete_batch [OF assms(1,2)] assms(3) by auto
  from r have mem: "del_deletion d \<in> set (db_rows s')" and acc: "accepted_in (db_rows s') (del_deletion d)"
    and k: "kind (del_deletion d) = Deletion" by (auto simp: deletion_stands_def)
  show ?thesis
    using service.resolution_of_row [OF inv assms(4) mem obj accepted_in_force [OF inv mem acc assms(5,6)]] k
    by simp
qed

definition sample_results :: "delete_result list" where
  "sample_results = [\<lparr>del_object = 7, del_superseded = Some 20, del_deletion = sample_cut,
     del_left = Some sample_left, del_right = Some sample_right\<rparr>]"

lemma sample_deletion_run: "sample_deletion later_state = Inr (sample_results, deleted_state)"
  unfolding deleted_state_def by (rule committed_run) code_simp

theorem soft_delete_hides_witness:
  "as_of (\<lambda>_. None) (db_rows deleted_state) 7 \<lparr>act_date = 12, known_at = 300\<rparr> = Inr None"
proof -
  have clock: "db_clock deleted_state = 200" by code_simp
  have fam: "one_family (db_rows deleted_state) 7"
    by (simp add: one_family_def deleted_state_rows)
  show ?thesis
    using soft_delete_hides [OF later_inv sample_deletion_run [unfolded sample_deletion_def],
        of "hd sample_results" "\<lparr>act_date = 12, known_at = 300\<rparr>" "\<lambda>_. None"] clock fam
    by (simp add: sample_results_def mem_instants)
qed

text \<open>
  C7: restoring a deletion makes the object visible again: the restoration supersedes the deletion,
  covers exactly its interval, and a read at an effective time inside that interval and at a known
  time not before the commit sees the restoration, where the object's rows belong to one payload
  family.
\<close>

theorem restore_shows:
  assumes "temporal_inv s" "restore did copier g s = Inr (row, s')"
    and "one_family (db_rows s') (object_id row)"
    and "act_date pair \<in> instants (interval_of row)" "db_clock s' \<le> known_at pair"
  shows "as_of fromiso (db_rows s') (object_id row) pair = Inr (Some (raw_of row)) \<and>
    kind row = Restoration \<and>
    (\<exists>deletion\<in>set (db_rows s). uuid_of_arg did = Inr (assertion_id deletion) \<and> kind deletion = Deletion \<and>
       supersedes row = Some (assertion_id deletion) \<and> interval_of row = interval_of deletion)"
proof -
  from assms(2) obtain i acc deletion s1 x where id: "uuid_of_arg did = Inr i"
    and d: "acceptable_prior i s = Inr (deletion, s)" and k: "kind deletion = Deletion"
    and app: "append_assertion (object_id deletion) (payload_family deletion) Restoration
      (interval_of deletion) (Some i) acc [i] s = Inr (row, s1)"
    and cp: "copy_payload copier (case supersedes deletion of None \<Rightarrow> i | Some j \<Rightarrow> j) (assertion_id row) s1
      = Inr (x, s')"
    by (auto simp: restore_def with_database_def acceptable_prior_iff split: if_splits)
  note dl = acceptable_priorD [OF d]
  note app' = append_successor [OF app [folded dl(3)]]
  have inv: "temporal_inv s'" using tx_keepsD [OF restore_keeps assms(2,1)] .
  have rows: "db_rows s' = db_rows s @ [row]"
    using app'(1) payload_callbacks_rows(1) [OF cp] by simp
  have hist: "history_inv (db_rows s')" using inv by (simp add: temporal_inv_def)
  have acc: "accepted_in (db_rows s') row"
    unfolding superseded_by_None
  proof
    fix b assume b: "b \<in> set (db_rows s')"
    show "supersedes b \<noteq> Some (assertion_id row)"
    proof
      assume sup: "supersedes b = Some (assertion_id row)"
      have fresh: "assertion_id row \<notin> assertion_id ` set (db_rows s)"
        using temporal_invD(1) [OF inv] rows by auto
      from history_inv_successor [OF hist b sup] obtain c where
        c: "c \<in> set (db_rows s')" "assertion_id c = assertion_id row" "c \<noteq> b"
        by blast
      have "c = row" using c(2) rows c(1) fresh by (metis Un_iff append_is_Nil_conv imageI insertE list.set(2) set_append empty_iff list.set(1))
      then have "b \<in> set (db_rows s)" using b c(3) rows by auto
      moreover have "history_inv (db_rows s)" using assms(1) by (simp add: temporal_inv_def)
      ultimately show False using history_inv_successor [OF _ _ sup] fresh by (metis imageI)
    qed
  qed
  have mem: "row \<in> set (db_rows s')" using rows by simp
  have "kind row = Restoration" "interval_of row = interval_of deletion"
    "supersedes row = Some (assertion_id deletion)"
    using app' by (simp_all add: successor_of_def)
  with service.resolution_of_row [OF inv assms(3) mem refl accepted_in_force [OF inv mem acc assms(4,5)]]
  show ?thesis using id dl(2,3) k by auto
qed

definition sample_restore :: "(unit, assertion) temporal_tx" where
  "sample_restore = restore (Uuid 22) None sample_acceptance"

definition sample_restored :: assertion where
  "sample_restored = sample_cut\<lparr>assertion_id := 24, kind := Restoration, revision_no := 5,
     supersedes := Some 22\<rparr>"

lemma sample_restore_run:
  "sample_restore deleted_state = Inr (sample_restored, committed sample_restore deleted_state)"
  by (rule committed_run) code_simp

theorem restore_shows_witness:
  "as_of (\<lambda>_. None) (db_rows (committed sample_restore deleted_state)) 7 \<lparr>act_date = 12, known_at = 300\<rparr> =
     Inr (Some (raw_of sample_restored))"
proof -
  have clock: "db_clock (committed sample_restore deleted_state) = 200" by code_simp
  have "map row_identity (db_rows (committed sample_restore deleted_state)) =
      map row_identity [sample_row, sample_left, sample_cut, sample_right, sample_restored]"
    by code_simp
  moreover have "map row_times (db_rows (committed sample_restore deleted_state)) =
      map row_times [sample_row, sample_left, sample_cut, sample_right, sample_restored]"
    by code_simp
  ultimately have rows: "db_rows (committed sample_restore deleted_state) =
      [sample_row, sample_left, sample_cut, sample_right, sample_restored]"
    by (rule rows_eqI)
  have restored: "object_id sample_restored = 7" "payload_family sample_restored = ''document''"
    "interval_of sample_restored = \<lparr>start = 10, until = Some 20\<rparr>"
    by (simp_all add: sample_restored_def sample_cut_def sample_row_def interval_of_def)
  have "one_family (db_rows (committed sample_restore deleted_state)) (object_id sample_restored)"
    by (simp add: one_family_def rows restored)
  from restore_shows [OF deleted_inv sample_restore_run [unfolded sample_restore_def] this [unfolded sample_restore_def],
      of "\<lparr>act_date = 12, known_at = 300\<rparr>" "\<lambda>_. None"]
  show ?thesis using clock by (simp add: restored mem_instants sample_restore_def)
qed

text \<open>The roots with the kinds of their locators.\<close>

definition root_kinds :: "(uuid \<times> string) list \<Rightarrow> (uuid \<times> string) list" where
  "root_kinds registries = fold (\<lambda>(i, locator) d. dict_set d i (registry_kind locator)) registries []"

lemma root_kinds_ids: "fst ` set (root_kinds registries) = fst ` set registries"
proof -
  have "fst ` set (fold (\<lambda>(i, locator) d. dict_set d i (registry_kind locator)) rs d) =
      fst ` set rs \<union> fst ` set d" for rs :: "(uuid \<times> string) list" and d
  proof (induction rs arbitrary: d)
    case (Cons r rs)
    obtain i l where "r = (i, l)" by (cases r)
    then show ?case using Cons by (simp only: fold_simps prod.case) (simp add: dict_set_keys_set)
  qed simp
  then show ?thesis by (simp add: root_kinds_def)
qed

text \<open>
  C8: the descendants a batch deletion takes in are the tracked closure of its roots: every one is
  registered and reachable from a root through the child tables; and a registered child
  of a root or of any node of the closure is a root or one of the descendants. The traversal ends
  on every content of the tables, cycles included.
\<close>

theorem descendants_closure:
  "(\<forall>i. i \<in> set (descendants db registries) \<longrightarrow>
      map_of (db_registry db) i \<noteq> None \<and>
      (\<exists>k r. r \<in> set (root_kinds registries) \<and> (r, (i, k)) \<in> (child_rel db)\<^sup>*)) \<and>
   (\<forall>n c k. n \<in> set (descend db (root_kinds registries) (root_kinds registries)) \<longrightarrow>
      (c, k) \<in> set (children db n) \<longrightarrow> map_of (db_registry db) c \<noteq> None \<longrightarrow>
      c \<in> fst ` set registries \<union> set (descendants db registries))"
proof -
  let ?R = "root_kinds registries" let ?D = "descend db ?R ?R"
  obtain new where new: "?D = ?R @ new" using descend_extends by blast
  have desc: "set (descendants db registries) = {i \<in> fst ` set new. map_of (db_registry db) i \<noteq> None}"
    by (auto simp: descendants_def root_kinds_def [symmetric] new)
  have sound: "set ?D \<subseteq> (child_rel db)\<^sup>* `` set ?R" by (rule descend_sound) auto
  have closed: "closed_under_children db (set ?D) (fst ` set ?D)"
    by (rule descend_closed) (auto simp: closed_under_children_def)
  show ?thesis
  proof (intro conjI allI impI)
    fix i assume i: "i \<in> set (descendants db registries)"
    then show "map_of (db_registry db) i \<noteq> None" by (simp add: desc)
    from i obtain k where "(i, k) \<in> set new" by (auto simp: desc)
    then have "(i, k) \<in> set ?D" by (simp add: new)
    with sound show "\<exists>k r. r \<in> set ?R \<and> (r, (i, k)) \<in> (child_rel db)\<^sup>*" by blast
  next
    fix n c k
    assume "n \<in> set ?D" "(c, k) \<in> set (children db n)" and reg: "map_of (db_registry db) c \<noteq> None"
    with closed have "c \<in> fst ` set ?D" by (force simp: closed_under_children_def)
    then have "c \<in> fst ` set registries \<or> c \<in> fst ` set new"
      by (simp only: new set_append image_Un root_kinds_ids Un_iff)
    with reg show "c \<in> fst ` set registries \<union> set (descendants db registries)" by (simp add: desc)
  qed
qed

theorem descendants_closure_witness:
  "8 \<in> set (descendants sample_database [(7, ''documents'')])"
proof -
  have "(7, ''document'') \<in> set (descend sample_database (root_kinds [(7, ''documents'')]) (root_kinds [(7, ''documents'')]))"
    using descend_extends [of sample_database "root_kinds [(7, ''documents'')]" "root_kinds [(7, ''documents'')]"]
    by (auto simp: root_kinds_def registry_kind_def registry_kind_locators_def)
  moreover have "(8, ''chapter'') \<in> set (children sample_database (7, ''document''))" by code_simp
  moreover have "map_of (db_registry sample_database) 8 \<noteq> None" by code_simp
  ultimately show ?thesis
    using descendants_closure [of sample_database "[(7, ''documents'')]"] by fastforce
qed

section \<open>The guard of an append\<close>

text \<open>
  The query that guards an append admits an interval exactly when no accepted assertion of the
  object and family, the ignored ones aside, shares an instant with it.
\<close>

theorem guard_admits_disjoint:
  assumes "temporal_inv s" "half_open iv"
  shows "guard_unambiguous obj family iv ignore s =
    (if \<exists>a\<in>set (db_rows s). object_id a = obj \<and> payload_family a = family \<and>
          assertion_id a \<notin> set ignore \<and> accepted_in (db_rows s) a \<and>
          instants (interval_of a) \<inter> instants iv \<noteq> {}
     then Inl Ambiguous_interval else Inr ((), s))"
proof -
  have "clashes (db_rows s) obj family iv ignore a \<longleftrightarrow>
      object_id a = obj \<and> payload_family a = family \<and> assertion_id a \<notin> set ignore \<and>
      accepted_in (db_rows s) a \<and> instants (interval_of a) \<inter> instants iv \<noteq> {}"
    if "a \<in> set (db_rows s)" for a
    using temporal_invD(2) [OF assms(1) that] assms(2)
    by (simp add: clashes_iff_overlaps overlaps_iff_instants)
  then show ?thesis
    by (auto simp: guard_unambiguous_def find_None_iff find_Some_iff split: option.split)
qed

theorem guard_admits_disjoint_witness:
  "guard_unambiguous 7 ''document'' \<lparr>start = 5, until = Some 6\<rparr> [] sample_state = Inl Ambiguous_interval \<and>
   guard_unambiguous 7 ''document'' \<lparr>start = -5, until = Some 0\<rparr> [] sample_state = Inr ((), sample_state)"
proof -
  have "half_open \<lparr>start = 5, until = Some 6\<rparr>" "half_open \<lparr>start = -5, until = Some 0\<rparr>"
    by (simp_all add: half_open_def)
  moreover have "(5::int) \<in> instants \<lparr>start = 0, until = None\<rparr> \<inter> instants \<lparr>start = 5, until = Some 6\<rparr>"
    by (simp add: mem_instants)
  moreover have "instants \<lparr>start = 0, until = None\<rparr> \<inter> instants \<lparr>start = -5, until = Some 0\<rparr> = {}"
    by (auto simp: mem_instants)
  ultimately show ?thesis
    using guard_admits_disjoint [OF sample_inv, of "\<lparr>start = 5, until = Some 6\<rparr>" 7 "''document''" "[]"]
      guard_admits_disjoint [OF sample_inv, of "\<lparr>start = -5, until = Some 0\<rparr>" 7 "''document''" "[]"]
    by (auto simp: sample_state_rows superseded_by_def)
qed

section \<open>Two payload families\<close>

definition two_families_state :: "unit tdb" where
  "two_families_state = committed (sample_create (Some ''notes'')) sample_state"

lemma two_families_rows: "db_rows two_families_state =
    [sample_row, sample_row\<lparr>assertion_id := 21, payload_family := ''notes'', revision_no := 2\<rparr>]"
proof (rule rows_eqI)
  show "map row_identity (db_rows two_families_state) = map row_identity
      [sample_row, sample_row\<lparr>assertion_id := 21, payload_family := ''notes'', revision_no := 2\<rparr>]"
    by code_simp
  show "map row_times (db_rows two_families_state) = map row_times
      [sample_row, sample_row\<lparr>assertion_id := 21, payload_family := ''notes'', revision_no := 2\<rparr>]"
    by code_simp
qed

text \<open>
  The guard of the writer and the resolution of the reader group differently. The guard compares
  the assertions of one object and payload family, the resolution all assertions of one object. So
  two calls the service accepts leave a history on which every read at those times fails as
  ambiguous.
\<close>

theorem two_families_ambiguous:
  "service_run (\<lambda>_. None) sample_database two_families_state \<and>
   as_of (\<lambda>_. None) (db_rows two_families_state) 7 \<lparr>act_date = 5, known_at = 100\<rparr> =
     Inl (Ambiguous_assertion 2 (Some (uuid_str 7)))"
proof
  have "service_step (\<lambda>_. None) sample_state two_families_state"
    unfolding two_families_state_def sample_create_def committed_def by (rule service_step.create)
  with sample_reached show "service_run (\<lambda>_. None) sample_database two_families_state"
    by (rule service_run.run_step)
  let ?b = "sample_row\<lparr>assertion_id := 21, payload_family := ''notes'', revision_no := 2\<rparr>"
  have fields: "object_id ?b = 7" "supersedes ?b = None" "recorded_at ?b = 100"
    "interval_of ?b = \<lparr>start = 0, until = None\<rparr>"
    by (simp_all add: interval_of_def sample_row_def)
  have "filter (in_force [sample_row, ?b] \<lparr>act_date = 5, known_at = 100\<rparr>) [sample_row, ?b] = [sample_row, ?b]"
    by (simp add: in_force_def accepted_at_def mem_instants fields)
  moreover have "object_rows [sample_row, ?b] 7 = [sample_row, ?b]"
    by (simp add: object_rows_def)
  ultimately have "as_of (\<lambda>_. None) [sample_row, ?b] 7 \<lparr>act_date = 5, known_at = 100\<rparr> =
      Inl (Ambiguous_assertion 2 (raw_object (raw_of sample_row)))"
    unfolding as_of_def select_visible_assertion_def visible_rows_raw_of Let_def by simp
  then show "as_of (\<lambda>_. None) (db_rows two_families_state) 7 \<lparr>act_date = 5, known_at = 100\<rparr> =
      Inl (Ambiguous_assertion 2 (Some (uuid_str 7)))"
    by (simp add: two_families_rows raw_of_def)
qed

end
