(* ===== verification/Chunk_Versions.thy ===== *)
theory Chunk_Versions
  imports Py_Values
begin

text \<open>
  The versioned text of semantic chunks (\<open>runtime/chunk_versions.py\<close>). The record \<open>cdb\<close> holds the
  tables the service touches: \<open>semantic_chunk_versions\<close> with its immutable texts,
  \<open>semantic_chunk_current\<close> with the pointer of each chunk, the projection \<open>semantic_chunk_texts\<close>,
  the chunks, their classifier assignments and the rows derived from the text. One SQL statement
  is one function; the constraints and foreign-key actions of \<open>db/schema.py\<close> are part of it.
\<close>

section \<open>Tables\<close>

datatype version_status = Active | Retired | Deleted

record version_row =
  v_id :: uuid
  v_chunk :: uuid
  v_logical :: uuid
  v_previous :: "uuid option"
  v_restored :: "uuid option"
  v_no :: int
  v_text :: string
  v_sha :: string
  v_chars :: int
  v_source :: "string option"
  v_start :: "int option"
  v_end :: "int option"
  v_order :: "int option"
  v_status :: version_status
  v_is_current :: bool
  v_valid_from :: int
  v_valid_to :: "int option"
  v_comment :: "string option"
  v_actor :: "string option"
  v_operation :: "string option"
  v_operation_id :: "uuid option"
  v_deleted_at :: "int option"
  v_updated_at :: int
  v_meta :: json_dict

record current_row =
  p_version :: uuid
  p_comment :: "string option"
  p_actor :: "string option"
  p_operation :: "string option"

record text_row =
  t_text :: string
  t_sha :: string
  t_chars :: int
  t_meta :: json_dict

record chunk_row =
  k_document :: uuid
  k_paragraph :: "uuid option"
  k_text :: string
  k_chars :: int
  k_start :: "int option"
  k_end :: "int option"
  k_order :: "int option"
  k_status :: "uuid option"
  k_category :: "uuid option"
  k_meta :: json_dict

record assignment_row =
  a_value :: uuid
  a_version :: "uuid option"

record embedding_row =
  e_type :: string
  e_entity :: uuid
  e_chunk :: "uuid option"
  e_active :: bool

record document_row =
  d_owner :: "uuid option"
  d_revectorize :: bool

text \<open>
  \<open>cdb_assignments\<close> and \<open>cdb_derived\<close> are indexed by the name of the table, the other tables by
  the primary key. A derived table (feedback, metrics, tokens, tags) is the list of the chunks its
  rows belong to.
\<close>

record cdb =
  cdb_configured :: bool
  cdb_versions :: "version_row list"
  cdb_current :: "(uuid \<times> current_row) list"
  cdb_texts :: "(uuid \<times> text_row) list"
  cdb_chunks :: "(uuid \<times> chunk_row) list"
  cdb_assignments :: "string \<Rightarrow> (uuid \<times> assignment_row) list"
  cdb_derived :: "string \<Rightarrow> uuid list"
  cdb_embeddings :: "embedding_row list"
  cdb_documents :: "(uuid \<times> document_row) list"
  cdb_files :: "(uuid \<times> bool) list"
  cdb_dictionaries :: "string \<Rightarrow> (string \<times> uuid \<times> bool) list"
  cdb_clock :: int
  cdb_uuids :: "nat \<Rightarrow> uuid"
  cdb_drawn :: nat

datatype version_error =
    Chunk_not_found uuid
  | Bad_argument
  | Version_not_found uuid "int option"
  | Last_version_delete uuid int
  | Retire_requires_replacement uuid int
  | Current_mismatch uuid int "int option"
  | Store_unconfigured
  | Store_integrity
  | No_result

type_synonym 'a chunk_tx = "(cdb, version_error, 'a) tx"

section \<open>Arguments\<close>

datatype number_arg = Int_arg int | Bool_arg bool | Other_arg

definition version_number :: "number_arg \<Rightarrow> (version_error, int) result" where
  "version_number value = (case value of
       Int_arg n \<Rightarrow> if n \<le> 0 then Inl Bad_argument else Inr n
     | _ \<Rightarrow> Inl Bad_argument)"

definition optional_version_number :: "number_arg option \<Rightarrow> (version_error, int option) result" where
  "optional_version_number value = (case value of
       None \<Rightarrow> Inr None
     | Some v \<Rightarrow> bind_result (version_number v) (\<lambda>n. Inr (Some n)))"

definition chunk_id_of :: "string \<Rightarrow> (version_error, uuid) result" where
  "chunk_id_of t = (case uuid_of_string t of None \<Rightarrow> Inl Bad_argument | Some u \<Rightarrow> Inr u)"

definition operation_uuid :: "string option \<Rightarrow> (version_error, uuid option) result" where
  "operation_uuid value = (case value of
       None \<Rightarrow> Inr None
     | Some t \<Rightarrow> bind_result (chunk_id_of t) (\<lambda>u. Inr (Some u)))"

text \<open>\<open>COALESCE(a, b)\<close>\<close>

definition coalesce :: "'a option \<Rightarrow> 'a option \<Rightarrow> 'a option" where
  "coalesce a b = (case a of None \<Rightarrow> b | Some x \<Rightarrow> Some x)"

section \<open>Reads\<close>

definition require_chunk :: "uuid \<Rightarrow> unit chunk_tx" where
  "require_chunk c = (\<lambda>s. if map_of (cdb_chunks s) c = None then Inl (Chunk_not_found c) else Inr ((), s))"

definition version_of :: "version_row list \<Rightarrow> uuid \<Rightarrow> int \<Rightarrow> version_row option" where
  "version_of rows c n = List.find (\<lambda>v. v_chunk v = c \<and> v_no v = n) rows"

definition version_by_id :: "version_row list \<Rightarrow> uuid \<Rightarrow> version_row option" where
  "version_by_id rows i = List.find (\<lambda>v. v_id v = i) rows"

definition current_version :: "cdb \<Rightarrow> uuid \<Rightarrow> version_row option" where
  "current_version s c = (case map_of (cdb_current s) c of
       None \<Rightarrow> None
     | Some p \<Rightarrow> version_by_id (cdb_versions s) (p_version p))"

definition next_version_no :: "version_row list \<Rightarrow> uuid \<Rightarrow> int" where
  "next_version_no rows c = next_number (map v_no (filter (\<lambda>v. v_chunk v = c) rows))"

definition current_version_no :: "cdb \<Rightarrow> uuid \<Rightarrow> int option" where
  "current_version_no s c = map_option v_no (current_version s c)"

definition assert_expected_current :: "uuid \<Rightarrow> number_arg option \<Rightarrow> unit chunk_tx" where
  "assert_expected_current c expected_arg =
     tx_bind (tx_lift (optional_version_number expected_arg)) (\<lambda>e.
       case e of
         None \<Rightarrow> tx_return ()
       | Some expected \<Rightarrow>
           tx_bind (tx_read (\<lambda>s. current_version_no s c)) (\<lambda>actual.
           tx_guard (actual = Some expected) (Current_mismatch c expected actual)))"

definition on_store :: "'a chunk_tx \<Rightarrow> 'a chunk_tx" where
  "on_store m = (\<lambda>s. if cdb_configured s then m s else Inl Store_unconfigured)"

section \<open>Answers\<close>

text \<open>\<open>_version_payload\<close>: the row with its preview, its text only on request.\<close>

record version_view =
  pl_row :: version_row
  pl_text :: "string option"
  pl_preview :: string
  pl_current :: bool
  pl_checksum :: string

definition version_payload :: "int \<Rightarrow> bool \<Rightarrow> version_row \<Rightarrow> version_view" where
  "version_payload limit include_text row =
     \<lparr>pl_row = row, pl_text = (if include_text then Some (v_text row) else None),
      pl_preview = chunk_preview limit (v_text row), pl_current = v_is_current row,
      pl_checksum = v_sha row\<rparr>"

definition list_versions :: "int \<Rightarrow> string \<Rightarrow> bool \<Rightarrow> (uuid \<times> version_view list \<times> nat) chunk_tx" where
  "list_versions limit chunk_id include_deleted =
     tx_bind (tx_lift (chunk_id_of chunk_id)) (\<lambda>c.
     on_store (
       tx_bind (require_chunk c) (\<lambda>_.
       tx_bind (tx_read (\<lambda>s. sort_key v_no (filter (\<lambda>v. v_chunk v = c \<and>
           (include_deleted \<or> v_deleted_at v = None)) (cdb_versions s)))) (\<lambda>rows.
       tx_return (c, map (version_payload limit False) rows, length rows)))))"

definition get_version ::
  "int \<Rightarrow> string \<Rightarrow> number_arg option \<Rightarrow> bool \<Rightarrow> bool \<Rightarrow> (uuid \<times> version_view) chunk_tx" where
  "get_version limit chunk_id version_no current include_text =
     tx_bind (tx_lift (chunk_id_of chunk_id)) (\<lambda>c.
     on_store (
       tx_bind (require_chunk c) (\<lambda>_.
       tx_bind (if current \<or> version_no = None
                then tx_read (\<lambda>s. current_version s c)
                else tx_bind (tx_lift (version_number (the version_no))) (\<lambda>n.
                  tx_read (\<lambda>s. version_of (cdb_versions s) c n))) (\<lambda>row.
       case row of
         None \<Rightarrow> tx_raise (Version_not_found c (case version_no of Some (Int_arg n) \<Rightarrow> Some n | _ \<Rightarrow> None))
       | Some v \<Rightarrow> tx_return (c, version_payload limit include_text v)))))"

section \<open>Inserting a version\<close>

text \<open>
  \<open>_source_metadata\<close> and \<open>_insert_version\<close>; \<open>sha\<close> is \<open>hashlib.sha256(value.encode("utf-8")).hexdigest()\<close>.
\<close>

definition source_version_of :: "json_dict \<Rightarrow> string option" where
  "source_version_of meta =
     (let v = json_or (json_get meta ''source_version_id'') (json_get meta ''sourceVersionId'')
      in if json_true v then Some (json_str v) else None)"

definition draw_chunk_uuid :: "uuid chunk_tx" where
  "draw_chunk_uuid = (\<lambda>s. Inr (cdb_uuids s (cdb_drawn s), s\<lparr>cdb_drawn := Suc (cdb_drawn s)\<rparr>))"

definition version_constraints :: "cdb \<Rightarrow> version_row \<Rightarrow> bool" where
  "version_constraints s v \<longleftrightarrow>
     v_id v \<notin> v_id ` set (cdb_versions s) \<and>
     (v_chunk v, v_no v) \<notin> (\<lambda>w. (v_chunk w, v_no w)) ` set (cdb_versions s) \<and>
     (v_logical v, v_no v) \<notin> (\<lambda>w. (v_logical w, v_no w)) ` set (cdb_versions s) \<and>
     0 < v_no v \<and> 0 \<le> v_chars v \<and>
     map_of (cdb_chunks s) (v_chunk v) \<noteq> None \<and>
     (\<forall>i\<in>set_option (v_previous v) \<union> set_option (v_restored v). i \<in> v_id ` set (cdb_versions s)) \<and>
     (v_is_current v \<and> v_deleted_at v = None \<longrightarrow>
        (\<forall>w\<in>set (cdb_versions s). v_logical w = v_logical v \<longrightarrow> \<not> (v_is_current w \<and> v_deleted_at w = None)))"

definition insert_version_row :: "version_row \<Rightarrow> version_row chunk_tx" where
  "insert_version_row v = (\<lambda>s.
     if version_constraints s v then Inr (v, s\<lparr>cdb_versions := cdb_versions s @ [v]\<rparr>)
     else Inl Store_integrity)"

record version_note =
  n_comment :: "string option"
  n_actor :: "string option"
  n_operation :: "string option"

definition insert_version ::
  "(string \<Rightarrow> string) \<Rightarrow> uuid \<Rightarrow> int \<Rightarrow> string \<Rightarrow> version_note \<Rightarrow> string option \<Rightarrow> uuid option
    \<Rightarrow> uuid option \<Rightarrow> version_row chunk_tx" where
  "insert_version sha c version_no val note operation_id previous restored =
     tx_bind (\<lambda>s. case map_of (cdb_chunks s) c of
         None \<Rightarrow> Inl No_result | Some k \<Rightarrow> Inr (k, s)) (\<lambda>k.
     tx_bind (tx_lift (operation_uuid operation_id)) (\<lambda>opid.
     tx_bind draw_chunk_uuid (\<lambda>i.
     tx_bind (tx_read cdb_clock) (\<lambda>now.
     insert_version_row
       \<lparr>v_id = i, v_chunk = c, v_logical = c, v_previous = previous, v_restored = restored,
        v_no = version_no, v_text = val, v_sha = sha val, v_chars = int (length val),
        v_source = source_version_of (k_meta k), v_start = k_start k, v_end = k_end k,
        v_order = k_order k, v_status = Active, v_is_current = False, v_valid_from = now,
        v_valid_to = None, v_comment = n_comment note, v_actor = n_actor note,
        v_operation = n_operation note, v_operation_id = opid, v_deleted_at = None,
        v_updated_at = now, v_meta = k_meta k\<rparr>))))"

section \<open>Activating a version\<close>

text \<open>The statements of \<open>_activate\<close>, in its order.\<close>

definition retired :: "int \<Rightarrow> version_row \<Rightarrow> version_row" where
  "retired now v =
     v\<lparr>v_is_current := False, v_status := Retired,
       v_valid_to := coalesce (v_valid_to v) (Some now), v_updated_at := now\<rparr>"

definition retire_current :: "uuid \<Rightarrow> uuid \<Rightarrow> cdb \<Rightarrow> cdb" where
  "retire_current logical i s = s\<lparr>cdb_versions := map (\<lambda>v.
     if v_logical v = logical \<and> v_is_current v \<and> v_id v \<noteq> i then retired (cdb_clock s) v else v)
     (cdb_versions s)\<rparr>"

definition promoted :: "int \<Rightarrow> version_note \<Rightarrow> version_row \<Rightarrow> version_row" where
  "promoted now note v =
     v\<lparr>v_is_current := True, v_status := Active, v_deleted_at := None, v_valid_to := None,
       v_comment := coalesce (n_comment note) (v_comment v),
       v_actor := coalesce (n_actor note) (v_actor v),
       v_operation := coalesce (n_operation note) (v_operation v), v_updated_at := now\<rparr>"

text \<open>The partial unique index allows one current version that is not deleted per logical chunk.\<close>

definition one_current :: "version_row list \<Rightarrow> bool" where
  "one_current rows \<longleftrightarrow>
     distinct (map v_logical (filter (\<lambda>v. v_is_current v \<and> v_deleted_at v = None) rows))"

definition promote :: "uuid \<Rightarrow> version_note \<Rightarrow> unit chunk_tx" where
  "promote i note = (\<lambda>s.
     let rows = map (\<lambda>v. if v_id v = i then promoted (cdb_clock s) note v else v) (cdb_versions s) in
     if one_current rows then Inr ((), s\<lparr>cdb_versions := rows\<rparr>) else Inl Store_integrity)"

definition point_current :: "uuid \<Rightarrow> current_row \<Rightarrow> unit chunk_tx" where
  "point_current c p = (\<lambda>s.
     if map_of (cdb_chunks s) c \<noteq> None \<and> p_version p \<in> v_id ` set (cdb_versions s) \<and>
       (\<forall>(d, q)\<in>set (cdb_current s). d \<noteq> c \<longrightarrow> p_version q \<noteq> p_version p)
     then Inr ((), s\<lparr>cdb_current := dict_set (cdb_current s) c p\<rparr>) else Inl Store_integrity)"

text \<open>
  The upsert the other writers of the table use: \<open>INSERT INTO semantic_chunk_current (chunk_uuid,
  version_id) ... ON CONFLICT (chunk_uuid) DO UPDATE SET version_id\<close>.
\<close>

definition point_version :: "uuid \<Rightarrow> uuid \<Rightarrow> unit chunk_tx" where
  "point_version c i = (\<lambda>s. point_current c
     (case map_of (cdb_current s) c of
        None \<Rightarrow> \<lparr>p_version = i, p_comment = None, p_actor = None, p_operation = None\<rparr>
      | Some p \<Rightarrow> p\<lparr>p_version := i\<rparr>) s)"

text \<open>\<open>UPDATE\<close> of the row with the given key, when there is one.\<close>

definition update_key :: "('k \<times> 'v) list \<Rightarrow> 'k \<Rightarrow> ('v \<Rightarrow> 'v) \<Rightarrow> ('k \<times> 'v) list" where
  "update_key rows k f = map (\<lambda>(i, r). if i = k then (i, f r) else (i, r)) rows"

definition project_text :: "uuid \<Rightarrow> text_row \<Rightarrow> cdb \<Rightarrow> cdb" where
  "project_text c t s = s\<lparr>cdb_texts := update_key (cdb_texts s) c (\<lambda>_. t)\<rparr>"

definition empty_chunk_text :: "uuid \<Rightarrow> int \<Rightarrow> cdb \<Rightarrow> cdb" where
  "empty_chunk_text c n s = s\<lparr>cdb_chunks := update_key (cdb_chunks s) c (\<lambda>k. k\<lparr>k_text := [], k_chars := n\<rparr>)\<rparr>"

definition version_dependent_assignments :: "string list" where
  "version_dependent_assignments =
     [''semantic_chunk_type_assignments'', ''semantic_chunk_role_assignments'',
      ''semantic_chunk_status_assignments'', ''semantic_chunk_block_type_assignments'',
      ''semantic_chunk_language_assignments'', ''semantic_chunk_category_assignments'']"

definition rebind_assignments :: "uuid \<Rightarrow> uuid \<Rightarrow> cdb \<Rightarrow> cdb" where
  "rebind_assignments c i s = s\<lparr>cdb_assignments := (\<lambda>table.
     if List.member version_dependent_assignments table
     then update_key (cdb_assignments s table) c (\<lambda>a. a\<lparr>a_version := Some i\<rparr>)
     else cdb_assignments s table)\<rparr>"

text \<open>\<open>_invalidate_derived_rows\<close>\<close>

definition derived_tables :: "string list" where
  "derived_tables = [''semantic_chunk_feedback'', ''semantic_chunk_metrics'',
     ''semantic_chunk_tokens'', ''semantic_chunk_tags'']"

definition chunk_document :: "cdb \<Rightarrow> uuid \<Rightarrow> uuid option" where
  "chunk_document s c = map_option k_document (map_of (cdb_chunks s) c)"

definition chunk_file :: "cdb \<Rightarrow> uuid \<Rightarrow> uuid option" where
  "chunk_file s c = (case chunk_document s c of
       None \<Rightarrow> None
     | Some d \<Rightarrow> (case map_of (cdb_documents s) d of None \<Rightarrow> None | Some r \<Rightarrow> d_owner r))"

definition stale_embedding :: "cdb \<Rightarrow> uuid \<Rightarrow> embedding_row \<Rightarrow> bool" where
  "stale_embedding s c e \<longleftrightarrow>
     (e_type e = ''semantic_chunk'' \<and> e_entity e = c) \<or>
     (e_type e = ''paragraph'' \<and>
        (case map_of (cdb_chunks s) c of None \<Rightarrow> False | Some k \<Rightarrow> k_paragraph k = Some (e_entity e))) \<or>
     (e_type e = ''document'' \<and> chunk_document s c = Some (e_entity e)) \<or>
     (e_type e = ''file'' \<and> chunk_file s c = Some (e_entity e))"

definition invalidate_derived_rows :: "uuid \<Rightarrow> cdb \<Rightarrow> cdb" where
  "invalidate_derived_rows c s = s\<lparr>
     cdb_derived := (\<lambda>table. if List.member derived_tables table
       then filter (\<lambda>d. d \<noteq> c) (cdb_derived s table) else cdb_derived s table),
     cdb_embeddings := map (\<lambda>e. if stale_embedding s c e then e\<lparr>e_active := False\<rparr> else e) (cdb_embeddings s),
     cdb_documents := map (\<lambda>(i, d). if chunk_document s c = Some i then (i, d\<lparr>d_revectorize := True\<rparr>)
       else (i, d)) (cdb_documents s),
     cdb_files := map (\<lambda>(i, b). (i, chunk_file s c = Some i \<or> b)) (cdb_files s)\<rparr>"

definition activate :: "uuid \<Rightarrow> version_row \<Rightarrow> version_note \<Rightarrow> version_row chunk_tx" where
  "activate c row note =
     tx_bind (tx_write (retire_current (v_logical row) (v_id row))) (\<lambda>_.
     tx_bind (promote (v_id row) note) (\<lambda>_.
     tx_bind (point_current c \<lparr>p_version = v_id row, p_comment = n_comment note,
         p_actor = n_actor note, p_operation = n_operation note\<rparr>) (\<lambda>_.
     tx_bind (tx_write (project_text c \<lparr>t_text = v_text row, t_sha = v_sha row,
         t_chars = int (length (v_text row)), t_meta = v_meta row\<rparr>)) (\<lambda>_.
     tx_bind (tx_write (empty_chunk_text c (int (length (v_text row))))) (\<lambda>_.
     tx_bind (tx_write (rebind_assignments c (v_id row))) (\<lambda>_.
     tx_bind (tx_write (invalidate_derived_rows c)) (\<lambda>_.
     (\<lambda>s. case version_by_id (cdb_versions s) (v_id row) of
        None \<Rightarrow> Inl No_result | Some v \<Rightarrow> Inr (v, s)))))))))"

section \<open>Operations\<close>

datatype version_outcome = Unchanged | Appended | Restored | Set_current

definition append_and_activate ::
  "(string \<Rightarrow> string) \<Rightarrow> string \<Rightarrow> string option \<Rightarrow> version_note \<Rightarrow> number_arg option \<Rightarrow> string option
    \<Rightarrow> (uuid \<times> version_outcome \<times> version_row) chunk_tx" where
  "append_and_activate sha chunk_id text_value note expected operation_id =
     tx_bind (tx_lift (chunk_id_of chunk_id)) (\<lambda>c.
     tx_bind (tx_lift (case text_value of None \<Rightarrow> Inl Bad_argument | Some t \<Rightarrow> Inr t)) (\<lambda>val.
     on_store (
       tx_bind (require_chunk c) (\<lambda>_.
       tx_bind (assert_expected_current c expected) (\<lambda>_.
       tx_bind (tx_read (\<lambda>s. current_version s c)) (\<lambda>current.
       case current of
         Some v \<Rightarrow>
           if v_text v = val then tx_return (c, Unchanged, v)
           else tx_bind (tx_read (\<lambda>s. next_version_no (cdb_versions s) c)) (\<lambda>n.
                tx_bind (insert_version sha c n val note operation_id (Some (v_id v)) None) (\<lambda>row.
                tx_bind (activate c row note) (\<lambda>row'. tx_return (c, Appended, row'))))
       | None \<Rightarrow>
           tx_bind (tx_read (\<lambda>s. next_version_no (cdb_versions s) c)) (\<lambda>n.
           tx_bind (insert_version sha c n val note operation_id None None) (\<lambda>row.
           tx_bind (activate c row note) (\<lambda>row'. tx_return (c, Appended, row'))))))))))"

definition append_version where
  "append_version sha chunk_id text_value comment actor expected operation_id =
     append_and_activate sha chunk_id text_value
       \<lparr>n_comment = comment, n_actor = actor, n_operation = Some ''append''\<rparr> expected operation_id"

definition update_text where
  "update_text sha chunk_id text_value comment actor expected operation_id =
     append_and_activate sha chunk_id text_value
       \<lparr>n_comment = comment, n_actor = actor, n_operation = Some ''update''\<rparr> expected operation_id"

definition restore_version ::
  "(string \<Rightarrow> string) \<Rightarrow> string \<Rightarrow> number_arg \<Rightarrow> string option \<Rightarrow> string option \<Rightarrow> number_arg option
    \<Rightarrow> string option \<Rightarrow> (uuid \<times> version_outcome \<times> version_row) chunk_tx" where
  "restore_version sha chunk_id version_no comment actor expected operation_id =
     tx_bind (tx_lift (chunk_id_of chunk_id)) (\<lambda>c.
     tx_bind (tx_lift (version_number version_no)) (\<lambda>n.
     on_store (
       tx_bind (require_chunk c) (\<lambda>_.
       tx_bind (tx_read (\<lambda>s. version_of (cdb_versions s) c n)) (\<lambda>found.
       case found of
         None \<Rightarrow> tx_raise (Version_not_found c (Some n))
       | Some source \<Rightarrow>
           tx_bind (assert_expected_current c expected) (\<lambda>_.
           tx_bind (tx_read (\<lambda>s. next_version_no (cdb_versions s) c)) (\<lambda>next_no.
           tx_bind (insert_version sha c next_no (v_text source)
               \<lparr>n_comment = comment, n_actor = actor, n_operation = Some ''restore''\<rparr>
               operation_id None (Some (v_id source))) (\<lambda>row.
           tx_bind (activate c row
               \<lparr>n_comment = comment, n_actor = actor, n_operation = Some ''restore''\<rparr>) (\<lambda>row'.
           tx_return (c, Restored, row'))))))))))"

definition set_current ::
  "string \<Rightarrow> number_arg \<Rightarrow> string option \<Rightarrow> string option
    \<Rightarrow> (uuid \<times> version_outcome \<times> version_row) chunk_tx" where
  "set_current chunk_id version_no comment actor =
     tx_bind (tx_lift (chunk_id_of chunk_id)) (\<lambda>c.
     tx_bind (tx_lift (version_number version_no)) (\<lambda>n.
     on_store (
       tx_bind (require_chunk c) (\<lambda>_.
       tx_bind (tx_read (\<lambda>s. version_of (cdb_versions s) c n)) (\<lambda>found.
       case found of
         None \<Rightarrow> tx_raise (Version_not_found c (Some n))
       | Some row \<Rightarrow>
           if v_deleted_at row \<noteq> None then tx_raise (Version_not_found c (Some n))
           else tx_bind (activate c row
               \<lparr>n_comment = comment, n_actor = actor, n_operation = Some ''set_current''\<rparr>) (\<lambda>row'.
             tx_return (c, Set_current, row')))))))"

definition retire_row :: "uuid \<Rightarrow> string option \<Rightarrow> string option \<Rightarrow> cdb \<Rightarrow> cdb" where
  "retire_row i comment actor s = s\<lparr>cdb_versions := map (\<lambda>v.
     if v_id v = i
     then v\<lparr>v_status := Retired, v_is_current := False,
            v_valid_to := coalesce (v_valid_to v) (Some (cdb_clock s)),
            v_comment := coalesce comment (v_comment v), v_actor := coalesce actor (v_actor v),
            v_operation := Some ''retire'', v_updated_at := cdb_clock s\<rparr>
     else v) (cdb_versions s)\<rparr>"

definition retire_version ::
  "string \<Rightarrow> number_arg \<Rightarrow> number_arg option \<Rightarrow> string option \<Rightarrow> string option
    \<Rightarrow> (uuid \<times> int \<times> int option) chunk_tx" where
  "retire_version chunk_id version_no replacement_no comment actor =
     tx_bind (tx_lift (chunk_id_of chunk_id)) (\<lambda>c.
     tx_bind (tx_lift (version_number version_no)) (\<lambda>n.
     tx_bind (tx_lift (optional_version_number replacement_no)) (\<lambda>replacement.
     on_store (
       tx_bind (require_chunk c) (\<lambda>_.
       tx_bind (tx_read (\<lambda>s. version_of (cdb_versions s) c n)) (\<lambda>found.
       case found of
         None \<Rightarrow> tx_raise (Version_not_found c (Some n))
       | Some row \<Rightarrow>
           if v_deleted_at row \<noteq> None then tx_raise (Version_not_found c (Some n))
           else
             tx_bind (tx_read (\<lambda>s. length (filter (\<lambda>v. v_chunk v = c \<and> v_deleted_at v = None \<and>
                 v_status v \<noteq> Deleted) (cdb_versions s)))) (\<lambda>active.
             tx_bind (tx_guard (active \<noteq> 1) (Last_version_delete c n)) (\<lambda>_.
             tx_bind
               (if v_is_current row
                then (case replacement of
                    None \<Rightarrow> tx_raise (Retire_requires_replacement c n)
                  | Some r \<Rightarrow>
                      tx_bind (tx_read (\<lambda>s. version_of (cdb_versions s) c r)) (\<lambda>other.
                      case other of
                        None \<Rightarrow> tx_raise (Version_not_found c (Some r))
                      | Some q \<Rightarrow>
                          if v_deleted_at q \<noteq> None \<or> r = n then tx_raise (Version_not_found c (Some r))
                          else tx_bind (activate c q \<lparr>n_comment = comment, n_actor = actor,
                                 n_operation = Some ''retire''\<rparr>) (\<lambda>_. tx_return (Some r))))
                else tx_return None) (\<lambda>replaced.
             tx_bind (tx_write (retire_row (v_id row) comment actor)) (\<lambda>_.
             tx_bind (tx_read (\<lambda>s. current_version_no s c)) (\<lambda>now_current.
             tx_return (c, n, case replaced of Some r \<Rightarrow> Some r | None \<Rightarrow> now_current))))))))))))"

text \<open>
  \<open>DELETE FROM semantic_chunk_versions\<close>: the foreign keys on the deleted row set the references of
  other versions and of the assignments to null and delete the row of \<open>semantic_chunk_current\<close>
  that points to it (\<open>ON DELETE CASCADE\<close>).
\<close>

definition forget :: "uuid list \<Rightarrow> uuid option \<Rightarrow> uuid option" where
  "forget gone ref = (case ref of None \<Rightarrow> None | Some i \<Rightarrow> if i \<in> set gone then None else Some i)"

definition delete_version_rows :: "uuid \<Rightarrow> int \<Rightarrow> cdb \<Rightarrow> cdb" where
  "delete_version_rows c n s =
     (let gone = map v_id (filter (\<lambda>v. v_chunk v = c \<and> v_no v = n) (cdb_versions s)) in
      s\<lparr>cdb_versions := map (\<lambda>v. v\<lparr>v_previous := forget gone (v_previous v),
                                    v_restored := forget gone (v_restored v)\<rparr>)
           (filter (\<lambda>v. \<not> (v_chunk v = c \<and> v_no v = n)) (cdb_versions s)),
        cdb_current := filter (\<lambda>(_, p). p_version p \<notin> set gone) (cdb_current s),
        cdb_assignments := (\<lambda>table. map (\<lambda>(i, a). (i, a\<lparr>a_version := forget gone (a_version a)\<rparr>))
           (cdb_assignments s table))\<rparr>)"

text \<open>\<open>ORDER BY version_no DESC LIMIT 1\<close> over the versions that are not deleted.\<close>

definition latest_version :: "version_row list \<Rightarrow> uuid \<Rightarrow> version_row option" where
  "latest_version rows c =
     (case rev (sort_key v_no (filter (\<lambda>v. v_chunk v = c \<and> v_deleted_at v = None) rows)) of
        [] \<Rightarrow> None | v # _ \<Rightarrow> Some v)"

definition delete_version :: "string \<Rightarrow> number_arg \<Rightarrow> (uuid \<times> int \<times> int option) chunk_tx" where
  "delete_version chunk_id version_no =
     tx_bind (tx_lift (chunk_id_of chunk_id)) (\<lambda>c.
     tx_bind (tx_lift (version_number version_no)) (\<lambda>n.
     on_store (
       tx_bind (require_chunk c) (\<lambda>_.
       tx_bind (tx_read (\<lambda>s. version_of (cdb_versions s) c n)) (\<lambda>found.
       case found of
         None \<Rightarrow> tx_raise (Version_not_found c (Some n))
       | Some row \<Rightarrow>
           tx_bind (tx_read (\<lambda>s. length (filter (\<lambda>v. v_chunk v = c) (cdb_versions s)))) (\<lambda>count.
           tx_bind (tx_guard (count \<noteq> 1) (Last_version_delete c n)) (\<lambda>_.
           tx_bind (tx_write (delete_version_rows c n)) (\<lambda>_.
           tx_bind (tx_read (\<lambda>s. map_option p_version (map_of (cdb_current s) c))) (\<lambda>current_id.
           tx_bind
             (if current_id = Some (v_id row)
              then tx_bind (\<lambda>s. case latest_version (cdb_versions s) c of
                       None \<Rightarrow> Inl No_result | Some v \<Rightarrow> Inr (v, s)) (\<lambda>replacement.
                   tx_bind (activate c replacement
                     \<lparr>n_comment = None, n_actor = None, n_operation = Some ''delete''\<rparr>) (\<lambda>_. tx_return ()))
              else tx_return ()) (\<lambda>_.
           tx_bind (tx_read (\<lambda>s. current_version_no s c)) (\<lambda>now_current.
           tx_return (c, n, now_current))))))))))))"

text \<open>
  \<open>diff_versions\<close>: \<open>unified_diff\<close> stands for \<open>difflib.unified_diff\<close> of the two texts with the number of
  context lines; \<open>changed\<close> is whether it is empty.
\<close>

definition diff_versions ::
  "(string \<Rightarrow> string \<Rightarrow> int \<Rightarrow> int \<Rightarrow> int \<Rightarrow> string list) \<Rightarrow> int \<Rightarrow> string \<Rightarrow> number_arg \<Rightarrow> number_arg
    \<Rightarrow> number_arg \<Rightarrow> (uuid \<times> version_view \<times> version_view \<times> string list \<times> bool) chunk_tx" where
  "diff_versions unified_diff limit chunk_id from_no to_no context_lines =
     tx_bind (tx_lift (chunk_id_of chunk_id)) (\<lambda>c.
     tx_bind (tx_lift (version_number from_no)) (\<lambda>m.
     tx_bind (tx_lift (version_number to_no)) (\<lambda>n.
     tx_bind (tx_lift (case context_lines of
         Int_arg k \<Rightarrow> if k < 0 \<or> 20 < k then Inl Bad_argument else Inr k
       | _ \<Rightarrow> Inl Bad_argument)) (\<lambda>k.
     on_store (
       tx_bind (require_chunk c) (\<lambda>_.
       tx_bind (tx_read (\<lambda>s. (version_of (cdb_versions s) c m, version_of (cdb_versions s) c n))) (\<lambda>rows.
       case rows of
         (Some left, Some right) \<Rightarrow>
           (let diff = unified_diff (v_text left) (v_text right) m n k in
            tx_return (c, version_payload limit False left, version_payload limit False right, diff, diff \<noteq> []))
       | _ \<Rightarrow> tx_raise (Version_not_found c None))))))))"

section \<open>The initial version of an ingested chunk\<close>

text \<open>
  \<open>_insert_semantic_chunk_initial_version\<close> of \<open>ingestion/runtime_boundary.py\<close>: version 1 is inserted
  as the current one unless it exists, and the pointer is set to version 1.
\<close>

definition initial_version_row ::
  "uuid \<Rightarrow> uuid \<Rightarrow> chunk_row \<Rightarrow> string \<Rightarrow> string \<Rightarrow> int \<Rightarrow> json_dict \<Rightarrow> int \<Rightarrow> version_row" where
  "initial_version_row i c k body digest n meta now =
     \<lparr>v_id = i, v_chunk = c, v_logical = c, v_previous = None, v_restored = None,
      v_no = 1, v_text = body, v_sha = digest, v_chars = n, v_source = None,
      v_start = k_start k, v_end = k_end k, v_order = k_order k, v_status = Active,
      v_is_current = True, v_valid_from = now, v_valid_to = None, v_comment = None,
      v_actor = None, v_operation = Some ''ingest'', v_operation_id = None,
      v_deleted_at = None, v_updated_at = now, v_meta = meta\<rparr>"

definition seed_version ::
  "uuid \<Rightarrow> string \<Rightarrow> string \<Rightarrow> int \<Rightarrow> json_dict \<Rightarrow> uuid chunk_tx" where
  "seed_version c body digest n meta = (\<lambda>s.
     case version_of (cdb_versions s) c 1 of
       Some v \<Rightarrow> Inr (v_id v, s)
     | None \<Rightarrow> (case map_of (cdb_chunks s) c of
         None \<Rightarrow> Inl No_result
       | Some k \<Rightarrow>
           tx_bind draw_chunk_uuid (\<lambda>i.
           tx_bind (insert_version_row (initial_version_row i c k body digest n meta (cdb_clock s))) (\<lambda>v.
           tx_return (v_id v))) s))"

definition insert_initial_version ::
  "uuid \<Rightarrow> string \<Rightarrow> string \<Rightarrow> int \<Rightarrow> json_dict \<Rightarrow> unit chunk_tx" where
  "insert_initial_version c body digest n meta =
     tx_bind (seed_version c body digest n meta) (\<lambda>i.
     tx_bind (point_version c i) (\<lambda>_.
     tx_write (rebind_assignments c i)))"

text \<open>
  The rows of a newly written chunk that carry its text (\<open>_write_semantic_chunk\<close> of
  \<open>ingestion/publication_repository.py\<close>): the chunk, its text, its first version.
\<close>

definition write_chunk_text ::
  "(string \<Rightarrow> string) \<Rightarrow> uuid \<Rightarrow> chunk_row \<Rightarrow> string \<Rightarrow> json_dict \<Rightarrow> unit chunk_tx" where
  "write_chunk_text sha c k body text_meta =
     tx_bind (\<lambda>s. if map_of (cdb_chunks s) c \<noteq> None then Inl Store_integrity
         else Inr ((), s\<lparr>cdb_chunks := cdb_chunks s @ [(c, k)]\<rparr>)) (\<lambda>_.
     tx_bind (\<lambda>s. if map_of (cdb_texts s) c \<noteq> None then Inl Store_integrity
         else Inr ((), s\<lparr>cdb_texts := cdb_texts s @ [(c, \<lparr>t_text = body, t_sha = sha body,
           t_chars = int (length body), t_meta = text_meta\<rparr>)]\<rparr>)) (\<lambda>_.
     insert_initial_version c body (sha body) (int (length body)) (k_meta k)))"

end
