(* ===== verification/Chunk_Version_Invariant.thy ===== *)
theory Chunk_Version_Invariant
  imports Chunk_Versions
begin

text \<open>
  The invariant of the versioned chunk texts and what one activation does to it: version numbers and
  identifiers are unique, every row carries the digest and the length of its text, the pointer of a
  chunk and the flag \<open>is_current\<close> of its versions agree, and the projected text is the text of the
  version pointed to.
\<close>

section \<open>The invariant\<close>

definition version_rows_ok :: "(string \<Rightarrow> string) \<Rightarrow> version_row list \<Rightarrow> bool" where
  "version_rows_ok sha rows \<longleftrightarrow>
     distinct (map v_id rows) \<and> distinct (map (\<lambda>v. (v_chunk v, v_no v)) rows) \<and>
     (\<forall>v\<in>set rows. v_logical v = v_chunk v \<and> 0 < v_no v \<and> v_sha v = sha (v_text v) \<and>
        v_chars v = int (length (v_text v)))"

definition pointers_ok :: "version_row list \<Rightarrow> (uuid \<times> current_row) list \<Rightarrow> bool" where
  "pointers_ok rows ptrs \<longleftrightarrow>
     distinct (map fst ptrs) \<and>
     (\<forall>(c, p)\<in>set ptrs. \<exists>v\<in>set rows. v_id v = p_version p \<and> v_chunk v = c \<and> v_is_current v \<and>
        v_deleted_at v = None) \<and>
     (\<forall>v\<in>set rows. v_is_current v \<longrightarrow> (\<exists>p. (v_chunk v, p) \<in> set ptrs \<and> p_version p = v_id v))"

definition projects :: "text_row \<Rightarrow> version_row \<Rightarrow> bool" where
  "projects t v \<longleftrightarrow> t_text t = v_text v \<and> t_sha t = v_sha v \<and> t_chars t = v_chars v"

definition projection_ok :: "cdb \<Rightarrow> bool" where
  "projection_ok s \<longleftrightarrow>
     (\<forall>(c, t)\<in>set (cdb_texts s). \<forall>v. current_version s c = Some v \<longrightarrow> projects t v)"

definition version_inv :: "(string \<Rightarrow> string) \<Rightarrow> cdb \<Rightarrow> bool" where
  "version_inv sha s \<longleftrightarrow>
     version_rows_ok sha (cdb_versions s) \<and> pointers_ok (cdb_versions s) (cdb_current s) \<and> projection_ok s"

lemma pointers_okD:
  assumes "pointers_ok rows ptrs"
  shows "distinct (map fst ptrs)"
    "(c, p) \<in> set ptrs \<Longrightarrow> \<exists>v\<in>set rows. v_id v = p_version p \<and> v_chunk v = c \<and> v_is_current v \<and>
       v_deleted_at v = None"
    "v \<in> set rows \<Longrightarrow> v_is_current v \<Longrightarrow> \<exists>p. (v_chunk v, p) \<in> set ptrs \<and> p_version p = v_id v"
  using assms unfolding pointers_ok_def by fast+

lemma version_by_id_Some:
  "distinct (map v_id rows) \<Longrightarrow> version_by_id rows i = Some v \<longleftrightarrow> v \<in> set rows \<and> v_id v = i"
  using find_unique_key [of v_id rows v] by (auto simp: version_by_id_def dest: find_Some_in)

lemma version_of_Some:
  assumes "distinct (map (\<lambda>v. (v_chunk v, v_no v)) rows)"
  shows "version_of rows c n = Some v \<longleftrightarrow> v \<in> set rows \<and> v_chunk v = c \<and> v_no v = n"
  using find_unique_key [OF assms, of v] by (auto simp: version_of_def dest: find_Some_in)

lemma current_version_Some:
  assumes "version_rows_ok sha (cdb_versions s)" "distinct (map fst (cdb_current s))"
  shows "current_version s c = Some v \<longleftrightarrow>
    (\<exists>p. (c, p) \<in> set (cdb_current s) \<and> v \<in> set (cdb_versions s) \<and> v_id v = p_version p)"
  using assms
  by (auto simp: current_version_def version_rows_ok_def version_by_id_Some split: option.splits
      dest: eq_key_imp_eq_value)

text \<open>The current version of a chunk is the one row of the chunk that is flagged as current.\<close>

lemma current_version_iff:
  assumes "version_inv sha s"
  shows "current_version s c = Some v \<longleftrightarrow> v \<in> set (cdb_versions s) \<and> v_chunk v = c \<and> v_is_current v"
proof -
  have rows: "version_rows_ok sha (cdb_versions s)" and ptr: "pointers_ok (cdb_versions s) (cdb_current s)"
    using assms by (auto simp: version_inv_def)
  have d: "distinct (map fst (cdb_current s))" using ptr by (simp add: pointers_ok_def)
  show ?thesis
  proof
    assume "current_version s c = Some v"
    then obtain p where p: "(c, p) \<in> set (cdb_current s)" "v \<in> set (cdb_versions s)" "v_id v = p_version p"
      using current_version_Some [OF rows d] by blast
    then obtain w where "w \<in> set (cdb_versions s)" "v_id w = p_version p" "v_chunk w = c" "v_is_current w"
      using ptr by (fastforce simp: pointers_ok_def)
    moreover from this p rows have "w = v" by (auto simp: version_rows_ok_def dest: distinct_map_eqD)
    ultimately show "v \<in> set (cdb_versions s) \<and> v_chunk v = c \<and> v_is_current v" by simp
  next
    assume "v \<in> set (cdb_versions s) \<and> v_chunk v = c \<and> v_is_current v"
    with ptr show "current_version s c = Some v"
      using current_version_Some [OF rows d] by (fastforce simp: pointers_ok_def)
  qed
qed

section \<open>Inserting\<close>

lemma version_inv_frame:
  assumes "cdb_versions s' = cdb_versions s" "cdb_current s' = cdb_current s" "cdb_texts s' = cdb_texts s"
  shows "version_inv sha s' = version_inv sha s"
  unfolding version_inv_def projection_ok_def current_version_def assms ..

lemma insert_version_row_iff:
  "insert_version_row v s = Inr (r, s') \<longleftrightarrow>
     r = v \<and> version_constraints s v \<and> s' = s\<lparr>cdb_versions := cdb_versions s @ [v]\<rparr>"
  by (auto simp: insert_version_row_def)

lemma insert_version_effect:
  assumes "insert_version sha c n val note opid previous restored s = Inr (row, s')"
  shows "s' = s\<lparr>cdb_drawn := Suc (cdb_drawn s), cdb_versions := cdb_versions s @ [row]\<rparr>"
    "v_id row \<notin> v_id ` set (cdb_versions s)" "v_chunk row = c" "v_logical row = c" "v_no row = n"
    "v_text row = val" "v_sha row = sha val" "v_chars row = int (length val)" "\<not> v_is_current row"
    "v_deleted_at row = None" "0 < n" "(c, n) \<notin> (\<lambda>w. (v_chunk w, v_no w)) ` set (cdb_versions s)"
    "v_previous row = previous" "v_restored row = restored" "map_of (cdb_chunks s) c \<noteq> None"
  using assms
  by (auto simp: insert_version_def insert_version_row_iff draw_chunk_uuid_def version_constraints_def
      split: option.splits)

lemma append_row_inv:
  assumes inv: "version_inv sha s" and row: "v_id row \<notin> v_id ` set (cdb_versions s)"
    "(v_chunk row, v_no row) \<notin> (\<lambda>w. (v_chunk w, v_no w)) ` set (cdb_versions s)"
    "v_logical row = v_chunk row" "0 < v_no row" "v_sha row = sha (v_text row)"
    "v_chars row = int (length (v_text row))" "\<not> v_is_current row"
    and s': "cdb_versions s' = cdb_versions s @ [row]" "cdb_current s' = cdb_current s"
      "cdb_texts s' = cdb_texts s"
  shows "version_inv sha s'"
proof -
  have rows: "version_rows_ok sha (cdb_versions s)" and ptr: "pointers_ok (cdb_versions s) (cdb_current s)"
    and proj: "projection_ok s"
    using inv by (auto simp: version_inv_def)
  have rows': "version_rows_ok sha (cdb_versions s')"
    using rows row s' by (auto simp: version_rows_ok_def)
  have ptr': "pointers_ok (cdb_versions s') (cdb_current s')"
    using ptr row s' by (fastforce simp: pointers_ok_def)
  have "current_version s' c = Some v \<Longrightarrow> current_version s c = Some v" for c v
  proof -
    assume "current_version s' c = Some v"
    then obtain p where p: "(c, p) \<in> set (cdb_current s)" "v \<in> set (cdb_versions s')" "v_id v = p_version p"
      using current_version_Some [OF rows'] ptr' s'(2) by (auto simp: pointers_ok_def)
    moreover have "p_version p \<in> v_id ` set (cdb_versions s)"
      using pointers_okD(2) [OF ptr p(1)] by force
    ultimately have "v \<in> set (cdb_versions s)" using row(1) s'(1) by auto
    with p show "current_version s c = Some v"
      using current_version_Some [OF rows] ptr by (auto simp: pointers_ok_def)
  qed
  with proj s'(3) have "projection_ok s'" by (fastforce simp: projection_ok_def)
  with rows' ptr' show ?thesis by (simp add: version_inv_def)
qed

section \<open>Publishing a version\<close>

text \<open>The columns of a version that never change.\<close>

definition same_text :: "version_row \<Rightarrow> version_row \<Rightarrow> bool" where
  "same_text v w \<longleftrightarrow> v_id v = v_id w \<and> v_chunk v = v_chunk w \<and> v_logical v = v_logical w \<and>
     v_no v = v_no w \<and> v_text v = v_text w \<and> v_sha v = v_sha w \<and> v_chars v = v_chars w"

lemma same_text_refl [simp]: "same_text v v"
  by (simp add: same_text_def)

lemma retired_simps [simp]:
  "same_text (retired now v) v" "\<not> v_is_current (retired now v)" "v_id (retired now v) = v_id v"
  "v_deleted_at (retired now v) = v_deleted_at v"
  by (simp_all add: retired_def same_text_def)

lemma promoted_simps [simp]:
  "same_text (promoted now note v) v" "v_is_current (promoted now note v)"
  "v_deleted_at (promoted now note v) = None"
  by (simp_all add: promoted_def same_text_def)

lemma same_textD:
  "same_text v w \<Longrightarrow> v_id v = v_id w \<and> v_chunk v = v_chunk w \<and> v_logical v = v_logical w \<and>
     v_no v = v_no w \<and> v_text v = v_text w \<and> v_sha v = v_sha w \<and> v_chars v = v_chars w"
  by (simp add: same_text_def)

lemma map_same_text:
  assumes "\<And>v. v \<in> set rows \<Longrightarrow> same_text (f v) v" "\<And>v w. same_text v w \<Longrightarrow> g v = g w"
  shows "map g (map f rows) = map g rows"
  using assms by simp

lemma version_rows_ok_map:
  assumes "\<And>v. v \<in> set rows \<Longrightarrow> same_text (f v) v"
  shows "version_rows_ok sha (map f rows) = version_rows_ok sha rows"
proof -
  note same = same_textD [OF assms]
  have "map v_id (map f rows) = map v_id rows"
    "map (\<lambda>v. (v_chunk v, v_no v)) (map f rows) = map (\<lambda>v. (v_chunk v, v_no v)) rows"
    using same by auto
  moreover have "(\<forall>v\<in>set (map f rows). v_logical v = v_chunk v \<and> 0 < v_no v \<and> v_sha v = sha (v_text v) \<and>
        v_chars v = int (length (v_text v))) \<longleftrightarrow>
      (\<forall>v\<in>set rows. v_logical v = v_chunk v \<and> 0 < v_no v \<and> v_sha v = sha (v_text v) \<and>
        v_chars v = int (length (v_text v)))"
    using same by simp
  ultimately show ?thesis unfolding version_rows_ok_def by (simp only:)
qed

text \<open>
  What every way of making a version the current one amounts to: the version's flag is set, the other
  flags of the chunk are cleared, the pointer and the projection follow.
\<close>

definition publishes :: "version_row \<Rightarrow> cdb \<Rightarrow> cdb \<Rightarrow> (version_row \<Rightarrow> version_row) \<Rightarrow> bool" where
  "publishes row s s' f \<longleftrightarrow>
     cdb_versions s' = map f (cdb_versions s) \<and>
     (\<forall>v\<in>set (cdb_versions s). same_text (f v) v \<and>
        (v_is_current (f v) \<longleftrightarrow> v_id v = v_id row \<or> v_is_current v \<and> v_chunk v \<noteq> v_chunk row) \<and>
        v_deleted_at (f v) = (if v_id v = v_id row then None else v_deleted_at v)) \<and>
     (\<exists>p. cdb_current s' = dict_set (cdb_current s) (v_chunk row) p \<and> p_version p = v_id row) \<and>
     (\<forall>(d, t)\<in>set (cdb_texts s'). if d = v_chunk row then projects t row else (d, t) \<in> set (cdb_texts s))"

lemma dict_set_mem:
  "distinct (map fst d) \<Longrightarrow> (k', v') \<in> set (dict_set d k v) \<longleftrightarrow> (if k' = k then v' = v else (k', v') \<in> set d)"
  using map_of_eq_Some_iff [of "dict_set d k v" k' v'] map_of_eq_Some_iff [of d k' v']
  by (auto simp: distinct_dict_set)

lemma publishes_inv:
  assumes inv: "version_inv sha s" and row: "row \<in> set (cdb_versions s)" and pub: "publishes row s s' f"
  shows "version_inv sha s'" "current_version s' (v_chunk row) = Some (f row)"
proof -
  let ?c = "v_chunk row"
  have rows: "version_rows_ok sha (cdb_versions s)" and ptr: "pointers_ok (cdb_versions s) (cdb_current s)"
    and proj: "projection_ok s"
    using inv by (auto simp: version_inv_def)
  from pub obtain p where v': "cdb_versions s' = map f (cdb_versions s)"
    and c': "cdb_current s' = dict_set (cdb_current s) ?c p" and p: "p_version p = v_id row"
    and same: "\<And>v. v \<in> set (cdb_versions s) \<Longrightarrow> same_text (f v) v"
    and cur: "\<And>v. v \<in> set (cdb_versions s) \<Longrightarrow>
      v_is_current (f v) \<longleftrightarrow> v_id v = v_id row \<or> v_is_current v \<and> v_chunk v \<noteq> ?c"
    and del: "\<And>v. v \<in> set (cdb_versions s) \<Longrightarrow>
      v_deleted_at (f v) = (if v_id v = v_id row then None else v_deleted_at v)"
    and proj_row: "\<And>d t. (d, t) \<in> set (cdb_texts s') \<Longrightarrow>
      if d = ?c then projects t row else (d, t) \<in> set (cdb_texts s)"
    unfolding publishes_def by blast
  have rows': "version_rows_ok sha (cdb_versions s')"
    using rows version_rows_ok_map [OF same] by (simp add: v')
  have dist: "distinct (map fst (cdb_current s))" using pointers_okD(1) [OF ptr] .
  note mem = dict_set_mem [OF dist, of _ _ ?c p]
  have same_id: "v = row" if "v \<in> set (cdb_versions s)" "v_id v = v_id row" for v
    using rows that row by (auto simp: version_rows_ok_def dest: distinct_map_eqD)
  have ptr': "pointers_ok (cdb_versions s') (cdb_current s')"
    unfolding pointers_ok_def
  proof (intro conjI)
    show "distinct (map fst (cdb_current s'))" using dist by (simp add: c' distinct_dict_set)
    show "\<forall>(c, q)\<in>set (cdb_current s'). \<exists>v\<in>set (cdb_versions s'). v_id v = p_version q \<and> v_chunk v = c \<and>
        v_is_current v \<and> v_deleted_at v = None"
    proof (safe)
      fix c q assume "(c, q) \<in> set (cdb_current s')"
      then have cq: "if c = ?c then q = p else (c, q) \<in> set (cdb_current s)" by (simp add: c' mem)
      show "\<exists>v\<in>set (cdb_versions s'). v_id v = p_version q \<and> v_chunk v = c \<and> v_is_current v \<and>
          v_deleted_at v = None"
      proof (cases "c = ?c")
        case True
        with cq p row same [OF row] cur [OF row] del [OF row] show ?thesis
          by (intro bexI [of _ "f row"]) (auto simp: v' dest!: same_textD)
      next
        case False
        with cq pointers_okD(2) [OF ptr] obtain v where v: "v \<in> set (cdb_versions s)"
          "v_id v = p_version q" "v_chunk v = c" "v_is_current v" "v_deleted_at v = None"
          by fastforce
        with False same [OF v(1)] cur [OF v(1)] del [OF v(1)] show ?thesis
          by (intro bexI [of _ "f v"]) (auto simp: v' dest!: same_textD)
      qed
    qed
    show "\<forall>v\<in>set (cdb_versions s'). v_is_current v \<longrightarrow>
        (\<exists>p. (v_chunk v, p) \<in> set (cdb_current s') \<and> p_version p = v_id v)"
    proof (intro ballI impI)
      fix w assume "w \<in> set (cdb_versions s')" and wc: "v_is_current w"
      then obtain v where v: "v \<in> set (cdb_versions s)" "w = f v" by (auto simp: v')
      note sv = same_textD [OF same [OF v(1)]]
      show "\<exists>p. (v_chunk w, p) \<in> set (cdb_current s') \<and> p_version p = v_id w"
      proof (cases "v_id v = v_id row")
        case True
        with same_id v(1) have "v = row" by blast
        with v sv p show ?thesis by (intro exI [of _ p]) (simp add: c' mem)
      next
        case False
        with wc v cur [OF v(1)] have "v_is_current v" "v_chunk v \<noteq> ?c" by auto
        with pointers_okD(3) [OF ptr v(1)] sv v show ?thesis by (auto simp: c' mem)
      qed
    qed
  qed
  have d': "distinct (map fst (cdb_current s'))" using pointers_okD(1) [OF ptr'] .
  show now: "current_version s' ?c = Some (f row)"
    using row p same_textD [OF same [OF row]]
    by (subst current_version_Some [OF rows' d']) (auto simp: c' mem v')
  have "projects t v" if t: "(d, t) \<in> set (cdb_texts s')" and v: "current_version s' d = Some v" for d t v
  proof (cases "d = ?c")
    case True
    with v now have "v = f row" by simp
    with proj_row [OF t] True same_textD [OF same [OF row]] show ?thesis by (simp add: projects_def)
  next
    case False
    from v obtain q where q: "(d, q) \<in> set (cdb_current s')" "v \<in> set (cdb_versions s')" "v_id v = p_version q"
      using current_version_Some [OF rows' d'] by blast
    with False have q': "(d, q) \<in> set (cdb_current s)" by (simp add: c' mem)
    from q obtain u where u: "u \<in> set (cdb_versions s)" "v = f u" by (auto simp: v')
    note su = same_textD [OF same [OF u(1)]]
    have "current_version s d = Some u"
      using current_version_Some [OF rows dist] q q' u su by auto
    moreover have "(d, t) \<in> set (cdb_texts s)" using proj_row [OF t] False by simp
    ultimately have "projects t u" using proj by (auto simp: projection_ok_def)
    then show ?thesis using u su by (simp add: projects_def)
  qed
  then have "projection_ok s'" by (auto simp: projection_ok_def)
  with rows' ptr' show "version_inv sha s'" by (simp add: version_inv_def)
qed

section \<open>Activation publishes\<close>

definition activated :: "int \<Rightarrow> version_note \<Rightarrow> version_row \<Rightarrow> version_row \<Rightarrow> version_row" where
  "activated now note row v =
     (if v_id v = v_id row then promoted now note v
      else if v_logical v = v_logical row \<and> v_is_current v then retired now v else v)"

lemma point_current_iff:
  "point_current c p s = Inr (x, s') \<Longrightarrow>
     s' = s\<lparr>cdb_current := dict_set (cdb_current s) c p\<rparr> \<and> p_version p \<in> v_id ` set (cdb_versions s)"
  by (auto simp: point_current_def split: if_splits)

lemma promote_iff:
  "promote i note s = Inr (x, s') \<Longrightarrow>
     s' = s\<lparr>cdb_versions := map (\<lambda>v. if v_id v = i then promoted (cdb_clock s) note v else v) (cdb_versions s)\<rparr>"
  by (auto simp: promote_def Let_def split: if_splits)

lemma statement_frames [simp]:
  "cdb_versions (project_text c t s) = cdb_versions s" "cdb_versions (empty_chunk_text c n s) = cdb_versions s"
  "cdb_versions (rebind_assignments c i s) = cdb_versions s"
  "cdb_versions (invalidate_derived_rows c s) = cdb_versions s"
  "cdb_current (project_text c t s) = cdb_current s" "cdb_current (empty_chunk_text c n s) = cdb_current s"
  "cdb_current (rebind_assignments c i s) = cdb_current s"
  "cdb_current (invalidate_derived_rows c s) = cdb_current s"
  "cdb_current (retire_current l i s) = cdb_current s"
  "cdb_texts (empty_chunk_text c n s) = cdb_texts s" "cdb_texts (rebind_assignments c i s) = cdb_texts s"
  "cdb_texts (invalidate_derived_rows c s) = cdb_texts s" "cdb_texts (retire_current l i s) = cdb_texts s"
  "cdb_texts (project_text c t s) = update_key (cdb_texts s) c (\<lambda>_. t)"
  "cdb_clock (retire_current l i s) = cdb_clock s"
  by (simp_all add: project_text_def empty_chunk_text_def rebind_assignments_def
      invalidate_derived_rows_def retire_current_def)

lemma keys_update_key [simp]: "map fst (update_key rows k f) = map fst rows"
  by (induction rows) (auto simp: update_key_def)

lemma activate_effect:
  assumes "activate c row note s = Inr (r, s')"
  shows "cdb_versions s' = map (activated (cdb_clock s) note row) (cdb_versions s)"
    "cdb_current s' = dict_set (cdb_current s) c \<lparr>p_version = v_id row, p_comment = n_comment note,
       p_actor = n_actor note, p_operation = n_operation note\<rparr>"
    "cdb_texts s' = update_key (cdb_texts s) c (\<lambda>_. \<lparr>t_text = v_text row, t_sha = v_sha row,
       t_chars = int (length (v_text row)), t_meta = v_meta row\<rparr>)"
    "version_by_id (cdb_versions s') (v_id row) = Some r"
    "cdb_configured s' = cdb_configured s" "map fst (cdb_chunks s') = map fst (cdb_chunks s)"
proof -
  from assms obtain s1 s2 where
    s1: "promote (v_id row) note (retire_current (v_logical row) (v_id row) s) = Inr ((), s1)"
    and s2: "point_current c \<lparr>p_version = v_id row, p_comment = n_comment note,
       p_actor = n_actor note, p_operation = n_operation note\<rparr> s1 = Inr ((), s2)"
    and s': "s' = invalidate_derived_rows c (rebind_assignments c (v_id row)
       (empty_chunk_text c (int (length (v_text row))) (project_text c \<lparr>t_text = v_text row, t_sha = v_sha row,
       t_chars = int (length (v_text row)), t_meta = v_meta row\<rparr> s2)))"
    and r: "version_by_id (cdb_versions s') (v_id row) = Some r"
    by (auto simp: activate_def split: option.splits)
  note p1 = promote_iff [OF s1] and p2 = conjunct1 [OF point_current_iff [OF s2]]
  show "cdb_versions s' = map (activated (cdb_clock s) note row) (cdb_versions s)"
    by (simp add: s' p2 p1) (auto simp: retire_current_def activated_def retired_def)
  show "cdb_current s' = dict_set (cdb_current s) c \<lparr>p_version = v_id row, p_comment = n_comment note,
       p_actor = n_actor note, p_operation = n_operation note\<rparr>"
    "cdb_texts s' = update_key (cdb_texts s) c (\<lambda>_. \<lparr>t_text = v_text row, t_sha = v_sha row,
       t_chars = int (length (v_text row)), t_meta = v_meta row\<rparr>)"
    by (simp_all add: s' p2 p1)
  show "version_by_id (cdb_versions s') (v_id row) = Some r" by (rule r)
  show "cdb_configured s' = cdb_configured s" "map fst (cdb_chunks s') = map fst (cdb_chunks s)"
    by (simp_all add: s' p2 p1)
      (simp_all add: project_text_def empty_chunk_text_def rebind_assignments_def
        invalidate_derived_rows_def retire_current_def)
qed

lemma update_key_mem:
  "(i, r) \<in> set (update_key rows k f) \<longleftrightarrow> (if i = k then (\<exists>q. (k, q) \<in> set rows \<and> r = f q) else (i, r) \<in> set rows)"
  by (auto simp: update_key_def image_iff split: prod.splits)

lemma activate_publishes:
  assumes inv: "version_inv sha s" and row: "row \<in> set (cdb_versions s)" "v_chunk row = c"
    and act: "activate c row note s = Inr (r, s')"
  shows "publishes row s s' (activated (cdb_clock s) note row)" "r = activated (cdb_clock s) note row row"
proof -
  have rows: "version_rows_ok sha (cdb_versions s)" using inv by (simp add: version_inv_def)
  then have log: "\<And>v. v \<in> set (cdb_versions s) \<Longrightarrow> v_logical v = v_chunk v"
    and row': "v_chars row = int (length (v_text row))"
    using row by (auto simp: version_rows_ok_def)
  note eff = activate_effect [OF act]
  show "publishes row s s' (activated (cdb_clock s) note row)"
    unfolding publishes_def
  proof (intro conjI)
    show "\<forall>v\<in>set (cdb_versions s). same_text (activated (cdb_clock s) note row v) v \<and>
        (v_is_current (activated (cdb_clock s) note row v) \<longleftrightarrow>
           v_id v = v_id row \<or> v_is_current v \<and> v_chunk v \<noteq> v_chunk row) \<and>
        v_deleted_at (activated (cdb_clock s) note row v) = (if v_id v = v_id row then None else v_deleted_at v)"
      using log row(1) by (auto simp: activated_def)
    show "\<exists>p. cdb_current s' = dict_set (cdb_current s) (v_chunk row) p \<and> p_version p = v_id row"
      using eff(2) row(2) by auto
    show "\<forall>(d, t)\<in>set (cdb_texts s'). if d = v_chunk row then projects t row else (d, t) \<in> set (cdb_texts s)"
      using row(2) row' by (auto simp: eff(3) update_key_mem projects_def split: if_splits)
  qed (rule eff(1))
  have "version_rows_ok sha (cdb_versions s')"
    using rows by (simp add: eff(1) version_rows_ok_map activated_def)
  then have "distinct (map v_id (cdb_versions s'))" by (simp add: version_rows_ok_def)
  moreover have "activated (cdb_clock s) note row row \<in> set (cdb_versions s')"
    using row(1) by (simp add: eff(1))
  moreover have "v_id (activated (cdb_clock s) note row row) = v_id row"
    by (simp add: activated_def promoted_def)
  ultimately show "r = activated (cdb_clock s) note row row"
    using eff(4) version_by_id_Some by (metis option.inject)
qed

lemma activated_same [simp]: "same_text (activated now note row v) v"
  by (simp add: activated_def)

lemma activate_inv:
  assumes "version_inv sha s" "row \<in> set (cdb_versions s)" "v_chunk row = c"
    and "activate c row note s = Inr (r, s')"
  shows "version_inv sha s'" "current_version s' c = Some r" "same_text r row"
  using publishes_inv [OF assms(1,2) activate_publishes(1) [OF assms]] activate_publishes(2) [OF assms] assms(3)
  by simp_all

text \<open>Appending a version and making it current.\<close>

lemma insert_activate_inv:
  assumes inv: "version_inv sha s"
    and ins: "insert_version sha c n val note opid previous restored s = Inr (row, s1)"
    and act: "activate c row note' s1 = Inr (r, s')"
  shows "version_inv sha s'" "current_version s' c = Some r" "v_text r = val" "v_no r = n" "v_chunk r = c"
    "cdb_versions s' = map (activated (cdb_clock s) note' row) (cdb_versions s @ [row])"
proof -
  note eff = insert_version_effect [OF ins]
  have s1: "version_inv sha s1"
    by (rule append_row_inv [OF inv, of row]) (use eff in auto)
  have row: "row \<in> set (cdb_versions s1)" using eff(1) by simp
  note a = activate_inv [OF s1 row eff(3) act]
  show "version_inv sha s'" "current_version s' c = Some r" by (rule a(1), rule a(2))
  show "v_text r = val" "v_no r = n" "v_chunk r = c" using same_textD [OF a(3)] eff by auto
  show "cdb_versions s' = map (activated (cdb_clock s) note' row) (cdb_versions s @ [row])"
    using activate_effect(1) [OF act] eff(1) by simp
qed

end
