(* ===== verification/Chunk_Entity_Update.thy ===== *)
theory Chunk_Entity_Update
  imports Chunk_Version_Invariant
begin

text \<open>
  The second writer of the versioned chunk texts: the text update of a semantic chunk through the
  generic entity service (\<open>_replace_semantic_chunk_text\<close>, \<open>_reset_semantic_chunk_block_meta\<close> and
  \<open>_dictionary_id\<close> of \<open>runtime/entity_lifecycle.py\<close>). It writes the same tables with statements of
  its own.
\<close>

section \<open>Resetting the metadata\<close>

definition reset_block_meta_fields :: "string list" where
  "reset_block_meta_fields =
     [''category'', ''tags'', ''tags_flat'', ''summary'', ''title'', ''classification'']"

definition reset_status :: string where
  "reset_status = ''needs_review''"

definition reset_category :: string where
  "reset_category = ''uncategorized''"

definition reset_block_meta :: "json_dict \<Rightarrow> json_dict" where
  "reset_block_meta meta =
     dict_set (dict_set (fold (\<lambda>k d. dict_pop d k) reset_block_meta_fields meta)
       ''status'' (J_str reset_status)) ''category'' (J_str reset_category)"

section \<open>Dictionary rows\<close>

definition dictionary_tables :: "string list" where
  "dictionary_tables = [''chunk_types'', ''chunk_roles'', ''chunk_statuses'', ''block_types'',
     ''languages'', ''categories'']"

definition dictionary_id :: "string \<Rightarrow> string \<Rightarrow> uuid chunk_tx" where
  "dictionary_id table descr =
     (if \<not> List.member dictionary_tables table then tx_raise Bad_argument
      else let val = py_strip descr in
        if val = [] \<or> 100 < length val then tx_raise Bad_argument
        else (\<lambda>s. case map_of (cdb_dictionaries s table) val of
            Some (i, _) \<Rightarrow> Inr (i, s)
          | None \<Rightarrow> tx_bind draw_chunk_uuid (\<lambda>i.
              tx_bind (tx_write (\<lambda>s. s\<lparr>cdb_dictionaries := (cdb_dictionaries s)
                (table := dict_set (cdb_dictionaries s table) val (i, False))\<rparr>)) (\<lambda>_.
              tx_return i)) s))"

section \<open>Replacing the text\<close>

definition semantic_chunk_assignment_tables :: "(string \<times> bool) list" where
  "semantic_chunk_assignment_tables =
     [(''semantic_chunk_status_assignments'', True), (''semantic_chunk_category_assignments'', False)]"

definition retire_pointed :: "uuid \<Rightarrow> cdb \<Rightarrow> cdb" where
  "retire_pointed c s = s\<lparr>cdb_versions := map (\<lambda>v.
     if map_option p_version (map_of (cdb_current s) c) = Some (v_id v) then retired (cdb_clock s) v else v)
     (cdb_versions s)\<rparr>"

definition set_current_row :: "int \<Rightarrow> version_row \<Rightarrow> version_row" where
  "set_current_row now v =
     v\<lparr>v_is_current := True, v_status := Active, v_valid_to := None, v_updated_at := now\<rparr>"

definition promote_plain :: "uuid \<Rightarrow> unit chunk_tx" where
  "promote_plain i = (\<lambda>s.
     let rows = map (\<lambda>v. if v_id v = i then set_current_row (cdb_clock s) v else v) (cdb_versions s) in
     if one_current rows then Inr ((), s\<lparr>cdb_versions := rows\<rparr>) else Inl Store_integrity)"

definition upsert_assignment :: "string \<Rightarrow> uuid \<Rightarrow> uuid \<Rightarrow> uuid \<Rightarrow> cdb \<Rightarrow> cdb" where
  "upsert_assignment table c val i s = s\<lparr>cdb_assignments := (cdb_assignments s)
     (table := dict_set (cdb_assignments s table) c \<lparr>a_value = val, a_version = Some i\<rparr>)\<rparr>"

definition drop_derived_rows :: "uuid \<Rightarrow> cdb \<Rightarrow> cdb" where
  "drop_derived_rows c s = s\<lparr>
     cdb_derived := (\<lambda>table. if List.member derived_tables table
       then filter (\<lambda>d. d \<noteq> c) (cdb_derived s table) else cdb_derived s table),
     cdb_embeddings := filter (\<lambda>e. e_chunk e \<noteq> Some c) (cdb_embeddings s)\<rparr>"

definition entity_version ::
  "(string \<Rightarrow> string) \<Rightarrow> uuid \<Rightarrow> string \<Rightarrow> json_dict \<Rightarrow> chunk_row \<Rightarrow> version_row chunk_tx" where
  "entity_version sha c text_value text_meta k =
     tx_bind (tx_read (\<lambda>s. (map_option p_version (map_of (cdb_current s) c),
        next_version_no (cdb_versions s) c, cdb_clock s))) (\<lambda>(previous, n, now).
     tx_bind draw_chunk_uuid (\<lambda>i.
     insert_version_row
       \<lparr>v_id = i, v_chunk = c, v_logical = c, v_previous = previous, v_restored = None,
        v_no = n, v_text = text_value, v_sha = sha text_value, v_chars = int (length text_value),
        v_source = None, v_start = k_start k, v_end = k_end k, v_order = k_order k,
        v_status = Active, v_is_current = False, v_valid_from = now, v_valid_to = None,
        v_comment = None, v_actor = None, v_operation = Some ''entity_update'',
        v_operation_id = None, v_deleted_at = None, v_updated_at = now, v_meta = text_meta\<rparr>))"

text \<open>The statements of \<open>_replace_semantic_chunk_text\<close> once the text is known to differ.\<close>

definition replace_changed_text ::
  "(string \<Rightarrow> string) \<Rightarrow> uuid \<Rightarrow> string \<Rightarrow> chunk_row \<Rightarrow> json_dict \<Rightarrow> json_dict \<Rightarrow> unit chunk_tx" where
  "replace_changed_text sha c text_value k block_meta text_meta =
     tx_bind (dictionary_id ''chunk_statuses'' reset_status) (\<lambda>status_id.
     tx_bind (dictionary_id ''categories'' reset_category) (\<lambda>category_id.
     tx_bind (entity_version sha c text_value text_meta k) (\<lambda>row.
     tx_bind (tx_write (retire_pointed c)) (\<lambda>_.
     tx_bind (promote_plain (v_id row)) (\<lambda>_.
     tx_bind (point_version c (v_id row)) (\<lambda>_.
     tx_bind (tx_write (\<lambda>s. s\<lparr>cdb_chunks := update_key (cdb_chunks s) c (\<lambda>k.
         k\<lparr>k_text := [], k_chars := int (length text_value), k_status := Some status_id,
           k_category := Some category_id, k_meta := block_meta\<rparr>)\<rparr>)) (\<lambda>_.
     tx_bind (tx_write (\<lambda>s. s\<lparr>cdb_texts := dict_set (cdb_texts s) c
         \<lparr>t_text = text_value, t_sha = sha text_value, t_chars = int (length text_value),
          t_meta = text_meta\<rparr>\<rparr>)) (\<lambda>_.
     tx_bind (tx_write (\<lambda>s. fold (\<lambda>(table, status). upsert_assignment table c
         (if status then status_id else category_id) (v_id row)) semantic_chunk_assignment_tables s)) (\<lambda>_.
     tx_write (drop_derived_rows c))))))))))"

definition replaced_meta :: "chunk_row \<Rightarrow> text_row option \<Rightarrow> json_dict" where
  "replaced_meta k previous =
     (let old_meta = (case previous of None \<Rightarrow> [] | Some t \<Rightarrow> t_meta t)
      in reset_block_meta (if old_meta = [] then reset_block_meta (k_meta k) else old_meta))"

definition replace_chunk_text :: "(string \<Rightarrow> string) \<Rightarrow> uuid \<Rightarrow> string \<Rightarrow> unit chunk_tx" where
  "replace_chunk_text sha c text_value = (\<lambda>s.
     case map_of (cdb_chunks s) c of
       None \<Rightarrow> Inl (Chunk_not_found c)
     | Some k \<Rightarrow>
         if map_option t_text (map_of (cdb_texts s) c) = Some text_value then Inr ((), s)
         else replace_changed_text sha c text_value k (reset_block_meta (k_meta k))
                (replaced_meta k (map_of (cdb_texts s) c)) s)"

section \<open>It publishes a version\<close>

lemma dictionary_id_frame:
  assumes "dictionary_id table descr s = Inr (i, s')"
  shows "cdb_versions s' = cdb_versions s" "cdb_current s' = cdb_current s" "cdb_texts s' = cdb_texts s"
    "cdb_chunks s' = cdb_chunks s" "cdb_clock s' = cdb_clock s"
  using assms
  by (auto simp: dictionary_id_def Let_def draw_chunk_uuid_def split: if_splits option.splits)

lemma upsert_assignment_frame [simp]:
  "cdb_versions (upsert_assignment t c v i s) = cdb_versions s"
  "cdb_current (upsert_assignment t c v i s) = cdb_current s"
  "cdb_texts (upsert_assignment t c v i s) = cdb_texts s"
  by (simp_all add: upsert_assignment_def)

lemma drop_derived_frame [simp]:
  "cdb_versions (drop_derived_rows c s) = cdb_versions s"
  "cdb_current (drop_derived_rows c s) = cdb_current s"
  "cdb_texts (drop_derived_rows c s) = cdb_texts s"
  by (simp_all add: drop_derived_rows_def)

lemma set_current_row_simps [simp]:
  "same_text (set_current_row now v) v" "v_is_current (set_current_row now v)"
  "v_deleted_at (set_current_row now v) = v_deleted_at v"
  by (simp_all add: set_current_row_def same_text_def)

lemma entity_version_effect:
  assumes "entity_version sha c val meta k s = Inr (row, s')"
  shows "s' = s\<lparr>cdb_drawn := Suc (cdb_drawn s), cdb_versions := cdb_versions s @ [row]\<rparr>"
    "v_id row \<notin> v_id ` set (cdb_versions s)" "v_chunk row = c" "v_logical row = c"
    "v_no row = next_version_no (cdb_versions s) c" "v_text row = val" "v_sha row = sha val"
    "v_chars row = int (length val)" "\<not> v_is_current row" "v_deleted_at row = None" "0 < v_no row"
    "(c, v_no row) \<notin> (\<lambda>w. (v_chunk w, v_no w)) ` set (cdb_versions s)"
  using assms
  by (auto simp: entity_version_def insert_version_row_iff draw_chunk_uuid_def version_constraints_def)

text \<open>The part of the update after the dictionary rows, on the inserted row.\<close>

definition entity_current :: "int \<Rightarrow> uuid option \<Rightarrow> version_row \<Rightarrow> version_row \<Rightarrow> version_row" where
  "entity_current now pointed row v =
     (let w = (if pointed = Some (v_id v) then retired now v else v)
      in if v_id w = v_id row then set_current_row now w else w)"

lemma replace_chunk_text_cases:
  assumes "replace_chunk_text sha c val s = Inr (x, s')"
  obtains (unchanged) t where "s' = s" "map_of (cdb_texts s) c = Some t" "t_text t = val"
  | (replaced) s0 s1 row where "cdb_versions s0 = cdb_versions s" "cdb_current s0 = cdb_current s"
      "cdb_texts s0 = cdb_texts s" "\<exists>meta k. entity_version sha c val meta k s0 = Inr (row, s1)"
      "cdb_versions s' = map (entity_current (cdb_clock s1) (map_option p_version (map_of (cdb_current s) c)) row)
         (cdb_versions s1)"
      "\<exists>p. cdb_current s' = dict_set (cdb_current s) c p \<and> p_version p = v_id row"
      "\<exists>meta. cdb_texts s' = dict_set (cdb_texts s) c
         \<lparr>t_text = val, t_sha = sha val, t_chars = int (length val), t_meta = meta\<rparr>"
proof -
  from assms obtain k where k: "map_of (cdb_chunks s) c = Some k"
    by (auto simp: replace_chunk_text_def split: option.splits)
  show ?thesis
  proof (cases "map_option t_text (map_of (cdb_texts s) c) = Some val")
    case True
    then obtain t where "map_of (cdb_texts s) c = Some t" "t_text t = val" by auto
    moreover have "s' = s" using True k assms by (simp add: replace_chunk_text_def)
    ultimately show ?thesis by (rule unchanged [rotated])
  next
    case False
    define meta where "meta = replaced_meta k (map_of (cdb_texts s) c)"
    have ch: "replace_changed_text sha c val k (reset_block_meta (k_meta k)) meta s = Inr (x, s')"
      using assms unfolding replace_chunk_text_def k option.case meta_def if_not_P [OF False] .
    from ch obtain i1 s01 i2 s0 row s1 s2 s3 where
      d1: "dictionary_id ''chunk_statuses'' reset_status s = Inr (i1, s01)"
      and d2: "dictionary_id ''categories'' reset_category s01 = Inr (i2, s0)"
      and ev: "entity_version sha c val meta k s0 = Inr (row, s1)"
      and pp: "promote_plain (v_id row) (retire_pointed c s1) = Inr ((), s2)"
      and pv: "point_version c (v_id row) s2 = Inr ((), s3)"
      and s': "cdb_versions s' = cdb_versions s3" "cdb_current s' = cdb_current s3"
        "cdb_texts s' = dict_set (cdb_texts s3) c
         \<lparr>t_text = val, t_sha = sha val, t_chars = int (length val), t_meta = meta\<rparr>"
      by (auto simp: replace_changed_text_def semantic_chunk_assignment_tables_def)
    note f1 = dictionary_id_frame [OF d1] and f2 = dictionary_id_frame [OF d2]
    note e = entity_version_effect [OF ev]
    have s2: "s2 = (retire_pointed c s1)\<lparr>cdb_versions := map (\<lambda>v. if v_id v = v_id row
        then set_current_row (cdb_clock s1) v else v) (cdb_versions (retire_pointed c s1))\<rparr>"
      using pp by (auto simp: promote_plain_def Let_def retire_pointed_def split: if_splits)
    obtain p where s3: "s3 = s2\<lparr>cdb_current := dict_set (cdb_current s2) c p\<rparr>" "p_version p = v_id row"
      using pv by (auto simp: point_version_def split: option.splits dest!: point_current_iff)
    have cur: "cdb_current s2 = cdb_current s" "cdb_texts s2 = cdb_texts s"
      using e(1) f1 f2 by (simp_all add: s2 retire_pointed_def)
    show ?thesis
    proof (rule replaced [of s0 row s1])
      have "cdb_current s1 = cdb_current s" using e(1) f1 f2 by simp
      moreover have "cdb_versions s3 = map (\<lambda>v. if v_id v = v_id row then set_current_row (cdb_clock s1) v else v)
          (cdb_versions (retire_pointed c s1))"
        by (simp add: s3 s2)
      ultimately have "cdb_versions s3 =
          map (entity_current (cdb_clock s1) (map_option p_version (map_of (cdb_current s) c)) row) (cdb_versions s1)"
        by (simp add: retire_pointed_def entity_current_def comp_def)
      with s'(1) show "cdb_versions s' =
          map (entity_current (cdb_clock s1) (map_option p_version (map_of (cdb_current s) c)) row) (cdb_versions s1)"
        by (rule trans)
    qed (use f1 f2 ev s' s3 cur in auto)
  qed
qed

lemma entity_current_publishes:
  assumes inv: "version_inv sha s1" and row: "row \<in> set (cdb_versions s1)" "v_chunk row = c"
    "\<not> v_is_current row" "v_deleted_at row = None" "v_sha row = sha val" "v_text row = val"
    and s': "cdb_versions s' = map (entity_current now (map_option p_version (map_of (cdb_current s1) c)) row)
         (cdb_versions s1)"
      "cdb_current s' = dict_set (cdb_current s1) c p" "p_version p = v_id row"
      "cdb_texts s' = dict_set (cdb_texts s1) c
         \<lparr>t_text = val, t_sha = sha val, t_chars = int (length val), t_meta = meta\<rparr>"
    and texts: "distinct (map fst (cdb_texts s1))"
  shows "publishes row s1 s' (entity_current now (map_option p_version (map_of (cdb_current s1) c)) row)"
proof -
  let ?f = "entity_current now (map_option p_version (map_of (cdb_current s1) c)) row"
  have rows: "version_rows_ok sha (cdb_versions s1)" using inv by (simp add: version_inv_def)
  then have dist: "distinct (map v_id (cdb_versions s1))" and len: "v_chars row = int (length (v_text row))"
    using row(1) by (auto simp: version_rows_ok_def)
  have pointed: "map_option p_version (map_of (cdb_current s1) c) = Some (v_id v) \<longleftrightarrow>
      v_is_current v \<and> v_chunk v = c" if v: "v \<in> set (cdb_versions s1)" for v
    using current_version_iff [OF inv, of c v] v dist
    by (auto simp: current_version_def version_by_id_Some split: option.splits)
  have "same_text (?f v) v \<and>
      (v_is_current (?f v) \<longleftrightarrow> v_id v = v_id row \<or> v_is_current v \<and> v_chunk v \<noteq> v_chunk row) \<and>
      v_deleted_at (?f v) = (if v_id v = v_id row then None else v_deleted_at v)"
    if v: "v \<in> set (cdb_versions s1)" for v
  proof (cases "v_id v = v_id row")
    case True
    then have "v = row" using v row(1) dist by (auto dest: distinct_map_eqD)
    moreover have other: "map_option p_version (map_of (cdb_current s1) c) \<noteq> Some (v_id row)"
      using pointed [OF row(1)] row(3) by blast
    ultimately show ?thesis using row unfolding entity_current_def Let_def by (simp only: if_not_P [OF other]) simp
  next
    case False
    with row(2) pointed [OF v] show ?thesis
      by (auto simp: entity_current_def Let_def dest: same_textD)
  qed
  moreover have "\<forall>(d, t)\<in>set (cdb_texts s'). if d = v_chunk row then projects t row else (d, t) \<in> set (cdb_texts s1)"
    using row len texts by (auto simp: s'(4) dict_set_mem projects_def split: if_splits)
  ultimately show ?thesis
    using s' row(2) by (auto simp: publishes_def)
qed

lemma replace_chunk_text_inv:
  assumes inv: "version_inv sha s" and texts: "distinct (map fst (cdb_texts s))"
    and rep: "replace_chunk_text sha c val s = Inr (x, s')"
  shows "version_inv sha s' \<and> map_option t_text (map_of (cdb_texts s') c) = Some val \<and>
    (\<forall>d. d \<noteq> c \<longrightarrow> map_of (cdb_texts s') d = map_of (cdb_texts s) d) \<and>
    (s' = s \<or> fst ` set (cdb_texts s') = insert c (fst ` set (cdb_texts s)) \<and>
       fst ` set (cdb_current s') = insert c (fst ` set (cdb_current s)) \<and> distinct (map fst (cdb_texts s')) \<and>
       (\<exists>v. current_version s' c = Some v \<and> v_text v = val \<and>
          v_no v = next_version_no (cdb_versions s) c))"
  using rep
proof (cases rule: replace_chunk_text_cases)
  case (unchanged t)
  with inv show ?thesis by auto
next
  case (replaced s0 s1 row)
  obtain meta k where ev: "entity_version sha c val meta k s0 = Inr (row, s1)" using replaced(4) by blast
  note e = entity_version_effect [OF ev]
  obtain p where cur': "cdb_current s' = dict_set (cdb_current s) c p" "p_version p = v_id row"
    using replaced(6) by blast
  obtain m where texts': "cdb_texts s' = dict_set (cdb_texts s) c
      \<lparr>t_text = val, t_sha = sha val, t_chars = int (length val), t_meta = m\<rparr>"
    using replaced(7) by blast
  have inv0: "version_inv sha s0" using inv version_inv_frame [of s0 s] replaced(1-3) by simp
  have inv1: "version_inv sha s1"
    by (rule append_row_inv [OF inv0, of row]) (use e in auto)
  have row1: "row \<in> set (cdb_versions s1)" using e(1) by simp
  have same1: "cdb_current s1 = cdb_current s" "cdb_texts s1 = cdb_texts s"
    using e(1) replaced(2,3) by simp_all
  have pub: "publishes row s1 s' (entity_current (cdb_clock s1) (map_option p_version (map_of (cdb_current s1) c)) row)"
    by (rule entity_current_publishes [OF inv1 row1, of c val _ _ p m])
      (use e replaced(5) cur' texts texts' same1 in simp_all)
  note fin = publishes_inv [OF inv1 row1 pub]
  let ?v = "entity_current (cdb_clock s1) (map_option p_version (map_of (cdb_current s1) c)) row row"
  have "same_text ?v row" by (auto simp: entity_current_def Let_def same_text_def retired_def set_current_row_def)
  then have "v_text ?v = val" "v_no ?v = next_version_no (cdb_versions s) c"
    using same_textD e replaced(1) by auto
  with fin e cur' texts' texts show ?thesis
    by (auto simp: distinct_dict_set)
qed

end
