(* ===== verification/Chunk_Version_Service.thy ===== *)
theory Chunk_Version_Service
  imports Chunk_Entity_Update
begin

text \<open>
  The version service as a state machine over the chunk tables: what each operation does, the steps
  of both writers, reachability, the preservation of the invariant, and the interface of the writers
  of chunk texts with the lemmas on sequences of writes.
\<close>

section \<open>What the operations return\<close>

lemma on_store_iff [simp]: "on_store m s = Inr r \<longleftrightarrow> cdb_configured s \<and> m s = Inr r"
  by (simp add: on_store_def)

lemma require_chunk_iff [simp]:
  "require_chunk c s = Inr (x, s') \<longleftrightarrow> s' = s \<and> map_of (cdb_chunks s) c \<noteq> None"
  by (auto simp: require_chunk_def)

lemma assert_expected_current_iff [simp]:
  "assert_expected_current c e s = Inr (x, s') \<longleftrightarrow>
     s' = s \<and> (\<exists>n. optional_version_number e = Inr n \<and> (\<forall>m. n = Some m \<longrightarrow> current_version_no s c = Some m))"
  by (auto simp: assert_expected_current_def split: option.splits)

lemma append_and_activate_cases:
  assumes "append_and_activate sha chunk_id text_value note expected operation_id s = Inr ((c, out, r), s')"
  obtains (unchanged) val where "chunk_id_of chunk_id = Inr c" "text_value = Some val" "s' = s"
      "out = Unchanged" "current_version s c = Some r" "v_text r = val"
      "\<exists>n. optional_version_number expected = Inr n \<and> (\<forall>m. n = Some m \<longrightarrow> current_version_no s c = Some m)"
  | (appended) val previous row s1 where "chunk_id_of chunk_id = Inr c" "text_value = Some val"
      "out = Appended"
      "insert_version sha c (next_version_no (cdb_versions s) c) val note operation_id previous None s = Inr (row, s1)"
      "activate c row note s1 = Inr (r, s')" "map_option v_text (current_version s c) \<noteq> Some val"
      "\<exists>n. optional_version_number expected = Inr n \<and> (\<forall>m. n = Some m \<longrightarrow> current_version_no s c = Some m)"
proof -
  from assms obtain val where c: "chunk_id_of chunk_id = Inr c" and val: "text_value = Some val"
    and e: "\<exists>n. optional_version_number expected = Inr n \<and> (\<forall>m. n = Some m \<longrightarrow> current_version_no s c = Some m)"
    by (auto simp: append_and_activate_def split: option.splits if_splits)
  show ?thesis
  proof (cases "current_version s c")
    case None
    with assms c val e show ?thesis by (auto simp: append_and_activate_def intro!: appended)
  next
    case (Some v)
    show ?thesis
    proof (cases "v_text v = val")
      case True
      with Some assms c val e show ?thesis by (intro unchanged) (auto simp: append_and_activate_def)
    next
      case False
      with Some assms c val obtain row s1 where
        "insert_version sha c (next_version_no (cdb_versions s) c) val note operation_id (Some (v_id v)) None s = Inr (row, s1)"
        "activate c row note s1 = Inr (r, s')" "out = Appended"
        by (auto simp: append_and_activate_def)
      with False Some c val e show ?thesis by (intro appended) auto
    qed
  qed
qed

lemma restore_version_cases:
  assumes "restore_version sha chunk_id version_no comment actor expected operation_id s = Inr ((c, out, r), s')"
  obtains n source row s1 where "chunk_id_of chunk_id = Inr c" "version_number version_no = Inr n"
    "version_of (cdb_versions s) c n = Some source" "out = Restored"
    "insert_version sha c (next_version_no (cdb_versions s) c) (v_text source)
       \<lparr>n_comment = comment, n_actor = actor, n_operation = Some ''restore''\<rparr> operation_id None
       (Some (v_id source)) s = Inr (row, s1)"
    "activate c row \<lparr>n_comment = comment, n_actor = actor, n_operation = Some ''restore''\<rparr> s1 = Inr (r, s')"
  using assms by (auto simp: restore_version_def)

lemma set_current_cases:
  assumes "set_current chunk_id version_no comment actor s = Inr ((c, out, r), s')"
  obtains n row where "chunk_id_of chunk_id = Inr c" "version_number version_no = Inr n"
    "version_of (cdb_versions s) c n = Some row" "v_deleted_at row = None" "out = Set_current"
    "activate c row \<lparr>n_comment = comment, n_actor = actor, n_operation = Some ''set_current''\<rparr> s = Inr (r, s')"
  using assms by (auto simp: set_current_def)

text \<open>
  Retiring: a version that is not current is only flagged; the current one hands over to its
  replacement first.
\<close>

lemma retire_version_cases:
  assumes "retire_version chunk_id version_no replacement_no comment actor s = Inr ((c, n, now_current), s')"
  obtains (plain) row where "chunk_id_of chunk_id = Inr c" "version_number version_no = Inr n"
      "version_of (cdb_versions s) c n = Some row" "\<not> v_is_current row"
      "s' = retire_row (v_id row) comment actor s" "now_current = current_version_no s' c"
  | (replaced) row m q r s1 where "chunk_id_of chunk_id = Inr c" "version_number version_no = Inr n"
      "version_of (cdb_versions s) c n = Some row" "v_is_current row"
      "version_of (cdb_versions s) c m = Some q" "m \<noteq> n" "v_deleted_at q = None"
      "activate c q \<lparr>n_comment = comment, n_actor = actor, n_operation = Some ''retire''\<rparr> s = Inr (r, s1)"
      "s' = retire_row (v_id row) comment actor s1" "now_current = Some m"
proof -
  from assms obtain row where row: "chunk_id_of chunk_id = Inr c" "version_number version_no = Inr n"
      "version_of (cdb_versions s) c n = Some row"
    by (auto simp: retire_version_def)
  show ?thesis
  proof (cases "v_is_current row")
    case False
    with assms row show ?thesis
      by (intro plain [of row]) (auto simp: retire_version_def)
  next
    case True
    with assms row obtain m q r s1 where
      "version_of (cdb_versions s) c m = Some q" "m \<noteq> n" "v_deleted_at q = None"
      "activate c q \<lparr>n_comment = comment, n_actor = actor, n_operation = Some ''retire''\<rparr> s = Inr (r, s1)"
      "s' = retire_row (v_id row) comment actor s1" "now_current = Some m"
      by (auto simp: retire_version_def)
    with True row show ?thesis by (intro replaced [of row m q r s1])
  qed
qed

lemma delete_version_rows_frame [simp]:
  "cdb_texts (delete_version_rows c n s) = cdb_texts s"
  by (simp add: delete_version_rows_def Let_def)

text \<open>
  The foreign key of the pointer removes the row the service reads next, so the branch that
  activates a replacement is never taken.
\<close>

lemma deleted_pointer_gone:
  assumes "version_of (cdb_versions s) c n = Some row"
  shows "map_option p_version (map_of (cdb_current (delete_version_rows c n s)) c) \<noteq> Some (v_id row)"
proof
  assume "map_option p_version (map_of (cdb_current (delete_version_rows c n s)) c) = Some (v_id row)"
  then obtain p where "(c, p) \<in> set (cdb_current (delete_version_rows c n s))" "p_version p = v_id row"
    by (auto dest: map_of_SomeD)
  moreover have "row \<in> set (cdb_versions s)" "v_chunk row = c" "v_no row = n"
    using assms by (auto simp: version_of_def dest: find_Some_in)
  ultimately show False by (auto simp: delete_version_rows_def Let_def)
qed

lemma delete_version_cases:
  assumes "delete_version chunk_id version_no s = Inr ((c, n, now_current), s')"
  obtains row where "chunk_id_of chunk_id = Inr c" "version_number version_no = Inr n"
    "version_of (cdb_versions s) c n = Some row" "length (filter (\<lambda>v. v_chunk v = c) (cdb_versions s)) \<noteq> 1"
    "s' = delete_version_rows c n s" "now_current = current_version_no s' c"
proof -
  from assms obtain row where row: "chunk_id_of chunk_id = Inr c" "version_number version_no = Inr n"
      "version_of (cdb_versions s) c n = Some row" "length (filter (\<lambda>v. v_chunk v = c) (cdb_versions s)) \<noteq> 1"
    by (auto simp: delete_version_def)
  note gone = deleted_pointer_gone [OF row(3)]
  have "s' = delete_version_rows c n s \<and> now_current = current_version_no s' c"
    using assms row gone by (auto simp: delete_version_def split: if_splits)
  with row show ?thesis by (intro that) auto
qed

section \<open>Every operation keeps the invariant\<close>

definition store_inv :: "(string \<Rightarrow> string) \<Rightarrow> cdb \<Rightarrow> bool" where
  "store_inv sha s \<longleftrightarrow> version_inv sha s \<and> distinct (map fst (cdb_texts s))"

lemma version_row_of:
  assumes "version_inv sha s" "version_of (cdb_versions s) c n = Some row"
  shows "row \<in> set (cdb_versions s)" "v_chunk row = c" "v_no row = n"
  using assms version_of_Some [of "cdb_versions s" c n row]
  by (auto simp: version_inv_def version_rows_ok_def)

lemma version_id_unique:
  "version_inv sha s \<Longrightarrow> v \<in> set (cdb_versions s) \<Longrightarrow> w \<in> set (cdb_versions s) \<Longrightarrow> v_id v = v_id w \<Longrightarrow> v = w"
  by (auto simp: version_inv_def version_rows_ok_def dest: distinct_map_eqD)

text \<open>Changes of columns the invariant does not speak about.\<close>

lemma touch_inv:
  assumes inv: "version_inv sha s" and v': "cdb_versions s' = map f (cdb_versions s)"
    and f: "\<And>v. v \<in> set (cdb_versions s) \<Longrightarrow> same_text (f v) v \<and> v_is_current (f v) = v_is_current v \<and>
      v_deleted_at (f v) = v_deleted_at v"
    and same: "cdb_current s' = cdb_current s" "cdb_texts s' = cdb_texts s"
  shows "version_inv sha s'" "current_version s' c = map_option f (current_version s c)"
proof -
  have rows: "version_rows_ok sha (cdb_versions s)" and ptr: "pointers_ok (cdb_versions s) (cdb_current s)"
    and proj: "projection_ok s"
    using inv by (auto simp: version_inv_def)
  have rows': "version_rows_ok sha (cdb_versions s')"
    using rows f by (simp add: v' version_rows_ok_map)
  have ids: "version_by_id (cdb_versions s') i = map_option f (version_by_id (cdb_versions s) i)" for i
  proof (cases "version_by_id (cdb_versions s) i")
    case None
    then have "v_id v \<noteq> i" if "v \<in> set (cdb_versions s)" for v
      using that by (auto simp: version_by_id_def find_None_iff)
    moreover have "v_id (f v) = v_id v" if "v \<in> set (cdb_versions s)" for v
      using f [OF that] same_textD by blast
    ultimately have "\<forall>v\<in>set (cdb_versions s'). v_id v \<noteq> i" by (simp add: v')
    then have "version_by_id (cdb_versions s') i = None" by (simp add: version_by_id_def find_None_iff)
    with None show ?thesis by simp
  next
    case (Some v)
    with rows have v: "v \<in> set (cdb_versions s)" "v_id v = i"
      by (auto simp: version_by_id_Some version_rows_ok_def)
    then have "version_by_id (cdb_versions s') i = Some (f v)"
      using rows' same_textD [OF conjunct1 [OF f [OF v(1)]]]
      by (simp add: version_by_id_Some version_rows_ok_def) (simp add: v')
    with Some show ?thesis by simp
  qed
  then have cur: "current_version s' c = map_option f (current_version s c)" for c
    by (simp add: current_version_def same split: option.split)
  show "current_version s' c = map_option f (current_version s c)" by (rule cur)
  have ptr': "pointers_ok (cdb_versions s') (cdb_current s')"
    unfolding pointers_ok_def
  proof (intro conjI)
    show "distinct (map fst (cdb_current s'))" using pointers_okD(1) [OF ptr] by (simp add: same)
    show "\<forall>(c, p)\<in>set (cdb_current s'). \<exists>v\<in>set (cdb_versions s'). v_id v = p_version p \<and> v_chunk v = c \<and>
        v_is_current v \<and> v_deleted_at v = None"
    proof safe
      fix c p assume "(c, p) \<in> set (cdb_current s')"
      then obtain v where v: "v \<in> set (cdb_versions s)" "v_id v = p_version p" "v_chunk v = c"
        "v_is_current v" "v_deleted_at v = None"
        using pointers_okD(2) [OF ptr] same(1) by metis
      with f [OF v(1)] show "\<exists>v\<in>set (cdb_versions s'). v_id v = p_version p \<and> v_chunk v = c \<and>
          v_is_current v \<and> v_deleted_at v = None"
        by (intro bexI [of _ "f v"]) (auto simp: v' dest!: same_textD)
    qed
    show "\<forall>v\<in>set (cdb_versions s'). v_is_current v \<longrightarrow>
        (\<exists>p. (v_chunk v, p) \<in> set (cdb_current s') \<and> p_version p = v_id v)"
      using pointers_okD(3) [OF ptr] f same(1) by (fastforce simp: v' dest: same_textD)
  qed
  have "projects t w" if t: "(d, t) \<in> set (cdb_texts s')" and w: "current_version s' d = Some w" for d t w
  proof -
    from w cur obtain v where v: "current_version s d = Some v" "w = f v" by auto
    then have "v \<in> set (cdb_versions s)" using current_version_iff [OF inv] by blast
    with f same_textD have "v_text w = v_text v" "v_sha w = v_sha v" "v_chars w = v_chars v"
      unfolding v(2) by blast+
    moreover have "projects t v" using proj t v(1) by (auto simp: projection_ok_def same)
    ultimately show ?thesis by (simp add: projects_def)
  qed
  then have "projection_ok s'" by (auto simp: projection_ok_def)
  with ptr' rows' show "version_inv sha s'" by (simp add: version_inv_def)
qed

lemma append_and_activate_inv:
  assumes "store_inv sha s" "append_and_activate sha i txt_val note e opid s = Inr ((c, out, r), s')"
  shows "store_inv sha s'"
  using assms(2)
proof (cases rule: append_and_activate_cases)
  case (appended val previous row s1)
  have "version_inv sha s" using assms(1) by (simp add: store_inv_def)
  from insert_activate_inv(1) [OF this appended(4,5)] show ?thesis
    using assms(1) activate_effect(3) [OF appended(5)] insert_version_effect(1) [OF appended(4)]
    by (simp add: store_inv_def)
qed (use assms in simp)

lemma restore_version_inv:
  assumes "store_inv sha s" "restore_version sha i n cm ac e opid s = Inr ((c, out, r), s')"
  shows "store_inv sha s'"
  using assms(2)
proof (cases rule: restore_version_cases)
  case (1 n source row s1)
  have "version_inv sha s" using assms(1) by (simp add: store_inv_def)
  from insert_activate_inv(1) [OF this 1(5,6)] show ?thesis
    using assms(1) activate_effect(3) [OF 1(6)] insert_version_effect(1) [OF 1(5)]
    by (simp add: store_inv_def)
qed

lemma set_current_inv:
  assumes "store_inv sha s" "set_current i n cm ac s = Inr ((c, out, r), s')"
  shows "store_inv sha s'"
  using assms(2)
proof (cases rule: set_current_cases)
  case (1 n row)
  have inv: "version_inv sha s" using assms(1) by (simp add: store_inv_def)
  note row = version_row_of [OF inv 1(3)]
  from activate_inv(1) [OF inv row(1,2) 1(6)] show ?thesis
    using assms(1) activate_effect(3) [OF 1(6)] by (simp add: store_inv_def)
qed

lemma retire_row_inv:
  assumes inv: "version_inv sha s" and row: "\<And>v. v \<in> set (cdb_versions s) \<Longrightarrow> v_id v = i \<Longrightarrow> \<not> v_is_current v"
  shows "version_inv sha (retire_row i cm ac s)"
    "map_option v_no (current_version (retire_row i cm ac s) c) = map_option v_no (current_version s c)"
proof -
  let ?f = "\<lambda>v. if v_id v = i
     then v\<lparr>v_status := Retired, v_is_current := False,
            v_valid_to := coalesce (v_valid_to v) (Some (cdb_clock s)),
            v_comment := coalesce cm (v_comment v), v_actor := coalesce ac (v_actor v),
            v_operation := Some ''retire'', v_updated_at := cdb_clock s\<rparr>
     else v"
  have f: "same_text (?f v) v \<and> v_is_current (?f v) = v_is_current v \<and> v_deleted_at (?f v) = v_deleted_at v"
    if "v \<in> set (cdb_versions s)" for v
    using row [OF that] by (simp add: same_text_def)
  have v': "cdb_versions (retire_row i cm ac s) = map ?f (cdb_versions s)"
    "cdb_current (retire_row i cm ac s) = cdb_current s" "cdb_texts (retire_row i cm ac s) = cdb_texts s"
    by (simp_all add: retire_row_def)
  show "version_inv sha (retire_row i cm ac s)" by (rule touch_inv(1) [OF inv v'(1) f v'(2,3)])
  show "map_option v_no (current_version (retire_row i cm ac s) c) = map_option v_no (current_version s c)"
  proof -
    have "current_version (retire_row i cm ac s) c = map_option ?f (current_version s c)"
      by (rule touch_inv(2) [OF inv v'(1) f v'(2,3)])
    then show ?thesis by (cases "current_version s c") simp_all
  qed
qed

lemma retire_version_inv:
  assumes "store_inv sha s" "retire_version i n m cm ac s = Inr ((c, k, cur), s')"
  shows "store_inv sha s'" "cur = current_version_no s' c"
proof -
  have inv: "version_inv sha s" and texts: "distinct (map fst (cdb_texts s))"
    using assms(1) by (simp_all add: store_inv_def)
  from assms(2) have "store_inv sha s' \<and> cur = current_version_no s' c"
  proof (cases rule: retire_version_cases)
    case (plain row)
    note row = version_row_of [OF inv plain(3)]
    have "\<not> v_is_current v" if "v \<in> set (cdb_versions s)" "v_id v = v_id row" for v
      using that row(1) plain(4) inv
      by (auto simp: version_inv_def version_rows_ok_def dest: distinct_map_eqD)
    from retire_row_inv(1) [OF inv this] plain(5,6) texts show ?thesis
      by (simp add: store_inv_def retire_row_def)
  next
    case (replaced row m q r s1)
    note row = version_row_of [OF inv replaced(3)] and q = version_row_of [OF inv replaced(5)]
    note act = activate_inv [OF inv q(1,2) replaced(8)]
    have eff: "cdb_versions s1 = map (activated (cdb_clock s) \<lparr>n_comment = cm, n_actor = ac,
        n_operation = Some ''retire''\<rparr> q) (cdb_versions s)"
      by (rule activate_effect(1) [OF replaced(8)])
    have same: "v_no r = m" using same_textD [OF act(3)] q(3) by simp
    have "\<not> v_is_current v" if v: "v \<in> set (cdb_versions s1)" "v_id v = v_id row" for v
    proof
      assume "v_is_current v"
      moreover obtain w where w: "w \<in> set (cdb_versions s)" "same_text v w"
        using v(1) eff activated_same by auto
      then have "v_id w = v_id row" using v(2) by (simp add: same_text_def)
      then have "w = row" by (rule version_id_unique [OF inv w(1) row(1)])
      then have "v_chunk v = c" "v_no v = k" using w(2) row by (simp_all add: same_text_def)
      ultimately have "v = r" using current_version_iff [OF act(1), of c v] v(1) act(2) by simp
      with same \<open>v_no v = k\<close> replaced(6) show False by simp
    qed
    from retire_row_inv [OF act(1) this] same act(2) replaced(9,10) texts activate_effect(3) [OF replaced(8)]
    show ?thesis by (simp add: store_inv_def current_version_no_def) (simp add: retire_row_def)
  qed
  then show "store_inv sha s'" "cur = current_version_no s' c" by blast+
qed

lemma delete_version_rows_inv:
  assumes inv: "version_inv sha s"
  shows "version_inv sha (delete_version_rows c n s)"
    "current_version (delete_version_rows c n s) d = Some w \<Longrightarrow>
       \<exists>v. current_version s d = Some v \<and> same_text w v"
proof -
  let ?s = "delete_version_rows c n s"
  let ?gone = "map v_id (filter (\<lambda>v. v_chunk v = c \<and> v_no v = n) (cdb_versions s))"
  let ?f = "\<lambda>v. v\<lparr>v_previous := forget ?gone (v_previous v), v_restored := forget ?gone (v_restored v)\<rparr>"
  have rows: "version_rows_ok sha (cdb_versions s)" and ptr: "pointers_ok (cdb_versions s) (cdb_current s)"
    and proj: "projection_ok s"
    using inv by (auto simp: version_inv_def)
  have v': "cdb_versions ?s = map ?f (filter (\<lambda>v. \<not> (v_chunk v = c \<and> v_no v = n)) (cdb_versions s))"
    and c': "cdb_current ?s = filter (\<lambda>(_, p). p_version p \<notin> set ?gone) (cdb_current s)"
    by (simp_all add: delete_version_rows_def Let_def)
  have same: "same_text (?f v) v \<and> v_is_current (?f v) = v_is_current v \<and> v_deleted_at (?f v) = v_deleted_at v" for v
    by (simp add: same_text_def)
  have "version_rows_ok sha (filter (\<lambda>v. \<not> (v_chunk v = c \<and> v_no v = n)) (cdb_versions s))"
    using rows by (simp add: version_rows_ok_def distinct_map_filter)
  then have rows': "version_rows_ok sha (cdb_versions ?s)"
    unfolding v' using same by (subst version_rows_ok_map) auto
  have dist: "distinct (map fst (cdb_current ?s))"
    using pointers_okD(1) [OF ptr] by (simp add: c' distinct_map_filter)
  have kept: "v \<in> set (cdb_versions s) \<Longrightarrow> v_id v \<notin> set ?gone \<longleftrightarrow> \<not> (v_chunk v = c \<and> v_no v = n)" for v
    using rows by (auto simp: version_rows_ok_def dest: distinct_map_eqD)
  have ptr': "pointers_ok (cdb_versions ?s) (cdb_current ?s)"
    unfolding pointers_ok_def
  proof (intro conjI dist)
    show "\<forall>(d, p)\<in>set (cdb_current ?s). \<exists>v\<in>set (cdb_versions ?s). v_id v = p_version p \<and> v_chunk v = d \<and>
        v_is_current v \<and> v_deleted_at v = None"
    proof safe
      fix d p assume "(d, p) \<in> set (cdb_current ?s)"
      then have dp: "(d, p) \<in> set (cdb_current s)" "p_version p \<notin> set ?gone" by (auto simp: c')
      then obtain v where v: "v \<in> set (cdb_versions s)" "v_id v = p_version p" "v_chunk v = d"
        "v_is_current v" "v_deleted_at v = None"
        using pointers_okD(2) [OF ptr] by metis
      have "\<not> (v_chunk v = c \<and> v_no v = n)"
        using iffD1 [OF kept [OF v(1), unfolded v(2)] dp(2)] .
      then have "?f v \<in> set (cdb_versions ?s)" using v(1) unfolding v' set_map set_filter by (intro imageI) simp
      then show "\<exists>v\<in>set (cdb_versions ?s). v_id v = p_version p \<and> v_chunk v = d \<and>
          v_is_current v \<and> v_deleted_at v = None"
        by (rule bexI [rotated]) (use v in simp)
    qed
    show "\<forall>v\<in>set (cdb_versions ?s). v_is_current v \<longrightarrow>
        (\<exists>p. (v_chunk v, p) \<in> set (cdb_current ?s) \<and> p_version p = v_id v)"
    proof (intro ballI impI)
      fix w assume w: "w \<in> set (cdb_versions ?s)" "v_is_current w"
      then obtain v where v: "v \<in> set (cdb_versions s)" "\<not> (v_chunk v = c \<and> v_no v = n)" "w = ?f v"
        unfolding v' by auto
      with w(2) pointers_okD(3) [OF ptr v(1)] obtain p where "(v_chunk v, p) \<in> set (cdb_current s)"
        "p_version p = v_id v" by auto
      with kept [OF v(1)] v show "\<exists>p. (v_chunk w, p) \<in> set (cdb_current ?s) \<and> p_version p = v_id w"
        by (intro exI [of _ p]) (simp add: c')
    qed
  qed
  have cur: "\<exists>v. current_version s d = Some v \<and> same_text w v" if "current_version ?s d = Some w" for d w
  proof -
    from that obtain p where p: "(d, p) \<in> set (cdb_current ?s)" "w \<in> set (cdb_versions ?s)" "v_id w = p_version p"
      using current_version_Some [OF rows' dist] by blast
    then obtain v where v: "v \<in> set (cdb_versions s)" "w = ?f v" unfolding v' by auto
    moreover have "(d, p) \<in> set (cdb_current s)" using p(1) by (simp add: c')
    ultimately have "current_version s d = Some v"
      using current_version_Some [OF rows pointers_okD(1) [OF ptr]] p(3) by auto
    with v same show ?thesis by blast
  qed
  then show "current_version ?s d = Some w \<Longrightarrow> \<exists>v. current_version s d = Some v \<and> same_text w v" .
  have "projection_ok ?s"
    using proj cur by (fastforce simp: projection_ok_def projects_def same_text_def)
  with rows' ptr' show "version_inv sha ?s" by (simp add: version_inv_def)
qed

lemma delete_version_inv:
  assumes "store_inv sha s" "delete_version i n s = Inr ((c, k, cur), s')"
  shows "store_inv sha s'"
  using assms(2)
proof (cases rule: delete_version_cases)
  case (1 row)
  with assms(1) show ?thesis by (simp add: store_inv_def delete_version_rows_inv(1))
qed

lemma replace_chunk_text_store_inv:
  assumes "store_inv sha s" "replace_chunk_text sha c val s = Inr (x, s')"
  shows "store_inv sha s'"
  using replace_chunk_text_inv [OF _ _ assms(2)] assms(1) by (auto simp: store_inv_def)

section \<open>Foreign keys\<close>

text \<open>Versions and texts belong to rows of \<open>semantic_chunks\<close>; every statement keeps it so.\<close>

named_theorems chunk_keeps \<open>statements and operations that keep the foreign keys\<close>

definition fk_with :: "uuid set \<Rightarrow> cdb \<Rightarrow> bool" where
  "fk_with cs s \<longleftrightarrow>
     (\<forall>v\<in>set (cdb_versions s). v_chunk v \<in> fst ` set (cdb_chunks s)) \<and>
     (\<forall>c\<in>fst ` set (cdb_texts s) \<union> cs. c \<in> fst ` set (cdb_chunks s))"

lemma keys_set_update_key [simp]: "fst ` set (update_key rows k f) = fst ` set rows"
  unfolding list.set_map [symmetric] keys_update_key ..

lemma v_chunk_simps [simp]:
  "v_chunk (retired now v) = v_chunk v" "v_chunk (promoted now note v) = v_chunk v"
  "v_chunk (set_current_row now v) = v_chunk v"
  by (simp_all add: retired_def promoted_def set_current_row_def)

lemma statements_fk [chunk_keeps]:
  "tx_keeps (fk_with cs) (tx_write (retire_current l i))"
  "tx_keeps (fk_with cs) (tx_write (retire_pointed c))"
  "tx_keeps (fk_with cs) (tx_write (retire_row i cm ac))"
  by (auto intro!: tx_keeps_write simp: fk_with_def retire_current_def retire_pointed_def retire_row_def)

lemma fk_versions:
  "s' = s\<lparr>cdb_versions := map f (cdb_versions s)\<rparr> \<Longrightarrow> (\<And>v. v_chunk (f v) = v_chunk v) \<Longrightarrow>
   fk_with cs s \<Longrightarrow> fk_with cs s'"
  by (simp add: fk_with_def)

lemma promote_fk [chunk_keeps]:
  "tx_keeps (fk_with cs) (promote i note)" "tx_keeps (fk_with cs) (promote_plain i)"
proof -
  show "tx_keeps (fk_with cs) (promote i note)"
    by (rule tx_keepsI, drule promote_iff, erule fk_versions) simp_all
  have plain: "promote_plain i s = Inr (x, s') \<Longrightarrow> s' = s\<lparr>cdb_versions :=
      map (\<lambda>v. if v_id v = i then set_current_row (cdb_clock s) v else v) (cdb_versions s)\<rparr>" for s x s'
    by (auto simp: promote_plain_def Let_def split: if_splits)
  show "tx_keeps (fk_with cs) (promote_plain i)"
    by (rule tx_keepsI, drule plain, erule fk_versions) simp_all
qed

lemma point_fk [chunk_keeps]:
  "tx_keeps (fk_with cs) (point_current c p)" "tx_keeps (fk_with cs) (point_version c i)"
  by (auto intro!: tx_keepsI simp: point_version_def fk_with_def dest!: point_current_iff split: option.splits)

lemma writes_fk [chunk_keeps]:
  "tx_keeps (fk_with cs) (tx_write (project_text c t))"
  "tx_keeps (fk_with cs) (tx_write (empty_chunk_text c n))"
  "tx_keeps (fk_with cs) (tx_write (rebind_assignments c i))"
  "tx_keeps (fk_with cs) (tx_write (invalidate_derived_rows c))"
  "tx_keeps (fk_with cs) (tx_write (drop_derived_rows c))"
  "tx_keeps (fk_with cs) (tx_write (\<lambda>s. s\<lparr>cdb_chunks := update_key (cdb_chunks s) c f\<rparr>))"
  "tx_keeps (fk_with cs) (tx_write (delete_version_rows c k))"
  by (rule tx_keeps_write; simp add: fk_with_def project_text_def empty_chunk_text_def
      rebind_assignments_def invalidate_derived_rows_def drop_derived_rows_def delete_version_rows_def Let_def)+

lemma upsert_text_fk [chunk_keeps]:
  "c \<in> cs \<Longrightarrow> tx_keeps (fk_with cs) (tx_write (\<lambda>s. s\<lparr>cdb_texts := dict_set (cdb_texts s) c t\<rparr>))"
  by (rule tx_keeps_write) (simp add: fk_with_def)

lemma draw_fk [chunk_keeps]: "tx_keeps (fk_with cs) draw_chunk_uuid"
  by (auto intro!: tx_keepsI simp: draw_chunk_uuid_def fk_with_def)

lemma insert_row_fk [chunk_keeps]: "tx_keeps (fk_with cs) (insert_version_row v)"
proof (rule tx_keepsI)
  fix s x s' assume s: "fk_with cs s" and "insert_version_row v s = Inr (x, s')"
  then have "map_of (cdb_chunks s) (v_chunk v) \<noteq> None" "s' = s\<lparr>cdb_versions := cdb_versions s @ [v]\<rparr>"
    by (simp_all add: insert_version_row_iff version_constraints_def)
  moreover from this(1) have "v_chunk v \<in> fst ` set (cdb_chunks s)"
    by (simp add: map_of_eq_None_iff)
  ultimately show "fk_with cs s'" using s by (simp add: fk_with_def)
qed

lemma reading_fk:
  assumes "\<And>x. tx_keeps I (f x)" "\<And>s x s'. m s = Inr (x, s') \<Longrightarrow> s' = s"
  shows "tx_keeps I (tx_bind m f)"
proof (rule tx_keeps_bind)
  show "tx_keeps I m" using assms(2) by (intro tx_keepsI) blast
qed (rule assms(1))

lemma insert_version_fk [chunk_keeps]:
  "tx_keeps (fk_with cs) (insert_version sha c n val note opid previous restored)"
  unfolding insert_version_def
  by (rule reading_fk) (auto intro!: tx_rules chunk_keeps split: option.splits)

lemma activate_fk [chunk_keeps]: "tx_keeps (fk_with cs) (activate c row note)"
  unfolding activate_def
  by (intro tx_rules chunk_keeps) (auto intro!: tx_keepsI split: option.splits)

lemma entity_version_fk [chunk_keeps]: "tx_keeps (fk_with cs) (entity_version sha c val meta k)"
  unfolding entity_version_def by (rule reading_fk) (auto intro!: tx_rules chunk_keeps)

lemma dictionary_id_fk [chunk_keeps]: "tx_keeps (fk_with cs) (dictionary_id table descr)"
  by (rule tx_keepsI) (simp add: fk_with_def dictionary_id_frame)

lemma upserts_fk [chunk_keeps]:
  "tx_keeps (fk_with cs) (tx_write (\<lambda>s. fold (\<lambda>(t, b). upsert_assignment t c (g b) i) ts s))"
proof (rule tx_keeps_write)
  show "fk_with cs s \<Longrightarrow> fk_with cs (fold (\<lambda>(t, b). upsert_assignment t c (g b) i) ts s)" for s
  proof (induction ts arbitrary: s)
    case (Cons t ts)
    have "fk_with cs (upsert_assignment (fst t) c (g (snd t)) i s)"
      using Cons.prems by (simp add: fk_with_def upsert_assignment_def)
    from Cons.IH [OF this] show ?case by (simp add: case_prod_beta)
  qed simp
qed

lemma replace_changed_fk: "c \<in> cs \<Longrightarrow> tx_keeps (fk_with cs) (replace_changed_text sha c val k bm tm)"
  unfolding replace_changed_text_def
  by (intro tx_rules chunk_keeps) (rule upserts_fk [where g = "\<lambda>b. if b then _ else _"])?

lemma on_store_keeps [chunk_keeps]: "tx_keeps I m \<Longrightarrow> tx_keeps I (on_store m)"
  by (auto simp: on_store_def intro!: tx_keepsI dest: tx_keepsD split: if_splits)

lemma reads_fk [chunk_keeps]:
  "tx_keeps I (require_chunk c)" "tx_keeps I (assert_expected_current c e)"
  by (auto intro!: tx_keepsI)

lemma append_and_activate_fk [chunk_keeps]:
  "tx_keeps (fk_with cs) (append_and_activate sha i t note e opid)"
  unfolding append_and_activate_def by (intro tx_rules chunk_keeps)

lemma restore_version_fk [chunk_keeps]: "tx_keeps (fk_with cs) (restore_version sha i n cm ac e opid)"
  unfolding restore_version_def by (intro tx_rules chunk_keeps)

lemma set_current_fk [chunk_keeps]: "tx_keeps (fk_with cs) (set_current i n cm ac)"
  unfolding set_current_def by (intro tx_rules chunk_keeps)

lemma retire_version_fk [chunk_keeps]: "tx_keeps (fk_with cs) (retire_version i n m cm ac)"
  unfolding retire_version_def by (intro tx_rules chunk_keeps)

lemma delete_version_fk [chunk_keeps]: "tx_keeps (fk_with cs) (delete_version i n)"
proof (rule tx_keepsI)
  fix s x s' assume s: "fk_with cs s" and del: "delete_version i n s = Inr (x, s')"
  obtain c k cur where x: "x = (c, k, cur)" by (cases x)
  from del [unfolded x] show "fk_with cs s'"
  proof (cases rule: delete_version_cases)
    case (1 row)
    with s tx_keepsD [OF writes_fk(7)] show ?thesis by fastforce
  qed
qed

lemma replace_chunk_text_fk [chunk_keeps]: "tx_keeps (fk_with {}) (replace_chunk_text sha c val)"
proof (rule tx_keepsI)
  fix s x s' assume s: "fk_with {} s" and rep: "replace_chunk_text sha c val s = Inr (x, s')"
  then obtain k where k: "map_of (cdb_chunks s) c = Some k"
    by (auto simp: replace_chunk_text_def split: option.splits)
  then have "c \<in> fst ` set (cdb_chunks s)" by (metis map_of_eq_None_iff option.distinct(1))
  with s have c: "fk_with {c} s" by (simp add: fk_with_def)
  show "fk_with {} s'"
  proof (cases "map_option t_text (map_of (cdb_texts s) c) = Some val")
    case True
    with rep k s show ?thesis unfolding replace_chunk_text_def k option.case if_P [OF True] by simp
  next
    case False
    from rep have "replace_changed_text sha c val k (reset_block_meta (k_meta k))
        (replaced_meta k (map_of (cdb_texts s) c)) s = Inr (x, s')"
      unfolding replace_chunk_text_def k option.case if_not_P [OF False] .
    from tx_keepsD [OF replace_changed_fk this c] have "fk_with {c} s'" by simp
    then show ?thesis by (simp add: fk_with_def)
  qed
qed

section \<open>A new chunk\<close>

lemma fresh_chunk:
  assumes inv: "version_inv sha s" and fk: "fk_with {} s" and c: "map_of (cdb_chunks s) c = None"
  shows "v \<in> set (cdb_versions s) \<Longrightarrow> v_chunk v \<noteq> c" "map_of (cdb_current s) c = None"
    "c \<notin> fst ` set (cdb_texts s)"
proof -
  have c': "c \<notin> fst ` set (cdb_chunks s)" using c by (simp add: map_of_eq_None_iff)
  show no: "v_chunk v \<noteq> c" if "v \<in> set (cdb_versions s)" for v
    using fk c' that by (auto simp: fk_with_def)
  have "c \<notin> fst ` set (cdb_current s)"
  proof
    assume "c \<in> fst ` set (cdb_current s)"
    then obtain p where "(c, p) \<in> set (cdb_current s)" by auto
    then obtain v where "v \<in> set (cdb_versions s)" "v_chunk v = c"
      using inv pointers_okD(2) unfolding version_inv_def by blast
    with no show False by blast
  qed
  then show "map_of (cdb_current s) c = None" by (simp add: map_of_eq_None_iff)
  show "c \<notin> fst ` set (cdb_texts s)" using fk c' by (auto simp: fk_with_def)
qed

lemma write_chunk_text_cases:
  assumes "write_chunk_text sha c k body meta s = Inr (x, s')" "\<forall>v\<in>set (cdb_versions s). v_chunk v \<noteq> c"
  obtains v p where "map_of (cdb_chunks s) c = None" "map_of (cdb_texts s) c = None"
    "v_id v \<notin> v_id ` set (cdb_versions s)" "v_chunk v = c" "v_logical v = c" "v_no v = 1" "v_text v = body"
    "v_sha v = sha body" "v_chars v = int (length body)" "v_is_current v" "v_deleted_at v = None"
    "cdb_versions s' = cdb_versions s @ [v]" "cdb_current s' = dict_set (cdb_current s) c p"
    "p_version p = v_id v" "cdb_chunks s' = cdb_chunks s @ [(c, k)]"
    "cdb_texts s' = cdb_texts s @ [(c, \<lparr>t_text = body, t_sha = sha body,
       t_chars = int (length body), t_meta = meta\<rparr>)]"
proof -
  let ?t = "\<lparr>t_text = body, t_sha = sha body, t_chars = int (length body), t_meta = meta\<rparr>"
  let ?s1 = "s\<lparr>cdb_chunks := cdb_chunks s @ [(c, k)], cdb_texts := cdb_texts s @ [(c, ?t)]\<rparr>"
  let ?v = "initial_version_row (cdb_uuids s (cdb_drawn s)) c k body (sha body) (int (length body)) (k_meta k)
    (cdb_clock s)"
  have none: "version_of (cdb_versions s) c 1 = None" using assms(2) by (auto simp: version_of_def find_None_iff)
  from assms(1) have c: "map_of (cdb_chunks s) c = None" "map_of (cdb_texts s) c = None"
    and ins: "insert_initial_version c body (sha body) (int (length body)) (k_meta k) ?s1 = Inr (x, s')"
    by (auto simp: write_chunk_text_def split: if_splits)
  then obtain i s2 s3 where seed: "seed_version c body (sha body) (int (length body)) (k_meta k) ?s1 = Inr (i, s2)"
    and pv: "point_version c i s2 = Inr ((), s3)" and s': "s' = rebind_assignments c i s3"
    by (auto simp: insert_initial_version_def)
  have k: "([c \<mapsto> k] ++ map_of (cdb_chunks s)) c = Some k" using c by (simp add: map_add_def)
  from seed have "tx_bind draw_chunk_uuid (\<lambda>i.
      tx_bind (insert_version_row (initial_version_row i c k body (sha body) (int (length body)) (k_meta k) (cdb_clock s)))
        (\<lambda>v. tx_return (v_id v))) ?s1 = Inr (i, s2)"
    by (simp add: seed_version_def none k)
  then have "i = v_id ?v" and s2: "s2 = ?s1\<lparr>cdb_drawn := Suc (cdb_drawn s), cdb_versions := cdb_versions s @ [?v]\<rparr>"
    "version_constraints (?s1\<lparr>cdb_drawn := Suc (cdb_drawn s)\<rparr>) ?v"
    by (auto simp: draw_chunk_uuid_def insert_version_row_iff)
  note s2 = this(1) s2
  from pv obtain p where "s3 = s2\<lparr>cdb_current := dict_set (cdb_current s2) c p\<rparr>" "p_version p = i"
    by (auto simp: point_version_def split: option.splits dest!: point_current_iff)
  moreover have "v_id ?v \<notin> v_id ` set (cdb_versions s)" using s2(3) by (simp add: version_constraints_def)
  ultimately show ?thesis
    using c s2(1,2) s' by (intro that [of ?v p]) (simp_all add: rebind_assignments_def initial_version_row_def)
qed

definition store_ok :: "(string \<Rightarrow> string) \<Rightarrow> cdb \<Rightarrow> bool" where
  "store_ok sha s \<longleftrightarrow> store_inv sha s \<and> fk_with {} s"

lemma write_chunk_text_ok:
  assumes ok: "store_ok sha s" and w: "write_chunk_text sha c k body meta s = Inr (x, s')"
  shows "store_ok sha s'" "\<exists>v. cdb_versions s' = cdb_versions s @ [v] \<and> v_text v = body \<and> current_version s' c = Some v"
proof -
  have inv: "version_inv sha s" and fk: "fk_with {} s" and texts: "distinct (map fst (cdb_texts s))"
    using ok by (auto simp: store_ok_def store_inv_def)
  have c: "map_of (cdb_chunks s) c = None" using w by (auto simp: write_chunk_text_def split: if_splits)
  note fresh = fresh_chunk [OF inv fk c]
  from fresh(1) have "\<forall>v\<in>set (cdb_versions s). v_chunk v \<noteq> c" by blast
  from write_chunk_text_cases [OF w this] obtain v p where
    v: "v_id v \<notin> v_id ` set (cdb_versions s)" "v_chunk v = c" "v_logical v = c" "v_no v = 1" "v_text v = body"
    "v_sha v = sha body" "v_chars v = int (length body)" "v_is_current v" "v_deleted_at v = None"
    and s': "cdb_versions s' = cdb_versions s @ [v]" "cdb_current s' = dict_set (cdb_current s) c p"
    "p_version p = v_id v" "cdb_chunks s' = cdb_chunks s @ [(c, k)]"
    "cdb_texts s' = cdb_texts s @ [(c, \<lparr>t_text = body, t_sha = sha body,
       t_chars = int (length body), t_meta = meta\<rparr>)]"
    by metis
  let ?u = "v\<lparr>v_is_current := False\<rparr>"
  let ?s = "s\<lparr>cdb_versions := cdb_versions s @ [?u]\<rparr>"
  let ?f = "\<lambda>w. if v_id w = v_id v then w\<lparr>v_is_current := True\<rparr> else w"
  have new: "(c, 1) \<notin> (\<lambda>w. (v_chunk w, v_no w)) ` set (cdb_versions s)"
    using fresh(1) by (metis (no_types, lifting) imageE prod.inject)
  have s0: "version_inv sha ?s"
    by (rule append_row_inv [OF inv, of ?u]) (use v new in simp_all)
  have other: "v_id w \<noteq> v_id v" if "w \<in> set (cdb_versions s)" for w
    using v(1) that by (metis imageI)
  have "map ?f (cdb_versions s) = cdb_versions s" using other by (simp add: map_if_id)
  then have map: "cdb_versions s' = map ?f (cdb_versions ?s)" using s'(1) v(8) by simp
  have "publishes ?u ?s s' ?f"
    unfolding publishes_def
  proof (intro conjI)
    show "\<forall>w\<in>set (cdb_versions ?s). same_text (?f w) w \<and>
        (v_is_current (?f w) \<longleftrightarrow> v_id w = v_id ?u \<or> v_is_current w \<and> v_chunk w \<noteq> v_chunk ?u) \<and>
        v_deleted_at (?f w) = (if v_id w = v_id ?u then None else v_deleted_at w)"
      using v other fresh(1) by (auto simp: same_text_def)
    show "\<exists>p. cdb_current s' = dict_set (cdb_current ?s) (v_chunk ?u) p \<and> p_version p = v_id ?u"
      using s'(2,3) v(2) by auto
    show "\<forall>(d, t)\<in>set (cdb_texts s'). if d = v_chunk ?u then projects t ?u else (d, t) \<in> set (cdb_texts ?s)"
      using v s'(5) fresh(3) by (auto simp: projects_def rev_image_eqI)
  qed (rule map)
  note pub = publishes_inv [OF s0 _ this]
  have "version_inv sha s'" by (rule pub(1)) simp
  moreover have cur: "current_version s' c = Some v" using pub(2) v(2,8) by simp
  moreover have "distinct (map fst (cdb_texts s'))" using texts s'(5) fresh(3) by simp
  moreover have "fk_with {} s'" using fk s' v(2) by (auto simp: fk_with_def)
  ultimately show "store_ok sha s'"
    "\<exists>v. cdb_versions s' = cdb_versions s @ [v] \<and> v_text v = body \<and> current_version s' c = Some v"
    using s'(1) v(5) by (auto simp: store_ok_def store_inv_def)
qed

section \<open>The state machine\<close>

text \<open>The changes that keep every version, and the administrative hard delete.\<close>

inductive edit_step :: "(string \<Rightarrow> string) \<Rightarrow> cdb \<Rightarrow> cdb \<Rightarrow> bool" for sha where
  edit_append: "edit_step sha s (snd (transaction (append_and_activate sha i t note e opid) s))"
| edit_restore: "edit_step sha s (snd (transaction (restore_version sha i n cm ac e opid) s))"
| edit_current: "edit_step sha s (snd (transaction (set_current i n cm ac) s))"
| edit_retire: "edit_step sha s (snd (transaction (retire_version i n m cm ac) s))"
| edit_entity: "edit_step sha s (snd (transaction (replace_chunk_text sha c val) s))"
| edit_ingest: "edit_step sha s (snd (transaction (write_chunk_text sha c k body meta) s))"
| edit_foreign: "cdb_versions s' = cdb_versions s \<Longrightarrow> cdb_current s' = cdb_current s \<Longrightarrow>
    cdb_texts s' = cdb_texts s \<Longrightarrow> map fst (cdb_chunks s') = map fst (cdb_chunks s) \<Longrightarrow> edit_step sha s s'"

inductive version_step :: "(string \<Rightarrow> string) \<Rightarrow> cdb \<Rightarrow> cdb \<Rightarrow> bool" for sha where
  step_edit: "edit_step sha s s' \<Longrightarrow> version_step sha s s'"
| step_delete: "version_step sha s (snd (transaction (delete_version i n) s))"

inductive_cases version_stepE: "version_step sha s s'"

lemma store_ok_transaction:
  assumes "store_ok sha s"
    and "\<And>x s'. m s = Inr (x, s') \<Longrightarrow> store_inv sha s'" "tx_keeps (fk_with {}) m"
  shows "store_ok sha (snd (transaction m s))"
  using assms by (cases rule: transaction_cases [of m s]) (auto simp: store_ok_def dest: tx_keepsD)

lemma edit_step_ok: "edit_step sha s s' \<Longrightarrow> store_ok sha s \<Longrightarrow> store_ok sha s'"
proof (induction rule: edit_step.induct)
  case (edit_append s i t nt e opid)
  then have "store_inv sha s" by (simp add: store_ok_def)
  with edit_append show ?case
    by (intro store_ok_transaction chunk_keeps) (auto dest: append_and_activate_inv)
next
  case (edit_restore s i n cm ac e opid)
  then have "store_inv sha s" by (simp add: store_ok_def)
  with edit_restore show ?case
    by (intro store_ok_transaction chunk_keeps) (auto dest: restore_version_inv)
next
  case (edit_current s i n cm ac)
  then have "store_inv sha s" by (simp add: store_ok_def)
  with edit_current show ?case
    by (intro store_ok_transaction chunk_keeps) (auto dest: set_current_inv)
next
  case (edit_retire s i n m cm ac)
  then have "store_inv sha s" by (simp add: store_ok_def)
  with edit_retire show ?case
    by (intro store_ok_transaction chunk_keeps) (auto dest: retire_version_inv)
next
  case (edit_entity s c val)
  then have "store_inv sha s" by (simp add: store_ok_def)
  with edit_entity show ?case
    by (intro store_ok_transaction chunk_keeps) (auto dest: replace_chunk_text_store_inv)
next
  case (edit_ingest s c k body meta)
  show ?case
    by (rule transaction_cases [of "write_chunk_text sha c k body meta" s])
      (use edit_ingest write_chunk_text_ok(1) in auto)
next
  case (edit_foreign s' s)
  have "fst ` set (cdb_chunks s') = fst ` set (cdb_chunks s)"
    unfolding list.set_map [symmetric] edit_foreign(4) ..
  with edit_foreign version_inv_frame [of s' s] show ?case
    by (simp add: store_ok_def store_inv_def fk_with_def)
qed

lemma version_step_ok: "version_step sha s s' \<Longrightarrow> store_ok sha s \<Longrightarrow> store_ok sha s'"
proof (induction rule: version_step.induct)
  case (step_edit s s')
  then show ?case by (rule edit_step_ok)
next
  case (step_delete s i n)
  then have "store_inv sha s" by (simp add: store_ok_def)
  with step_delete show ?case
    by (intro store_ok_transaction chunk_keeps) (auto dest: delete_version_inv)
qed

definition empty_store :: "cdb \<Rightarrow> bool" where
  "empty_store s \<longleftrightarrow> cdb_versions s = [] \<and> cdb_current s = [] \<and> cdb_texts s = []"

lemma empty_store_ok: "empty_store s \<Longrightarrow> store_ok sha s"
  by (simp add: empty_store_def store_ok_def store_inv_def version_inv_def version_rows_ok_def
      pointers_ok_def projection_ok_def fk_with_def)

lemma version_steps_ok: "(version_step sha)\<^sup>*\<^sup>* s s' \<Longrightarrow> store_ok sha s \<Longrightarrow> store_ok sha s'"
  by (induction rule: rtranclp_induct) (auto intro: version_step_ok)

end
