(* ===== verification/Chunk_Version_Properties.thy ===== *)
theory Chunk_Version_Properties
  imports Chunk_Version_Service
begin

text \<open>
  The interface of the writers of chunk texts, its interpretation on the version service, on the
  entity service and on their combination, and the properties of the versioned texts with
  instances on a small store.
\<close>

section \<open>The interface of a writer\<close>

text \<open>
  A writer publishes a text for a chunk: a successful call keeps the invariant, the chunk then reads
  as the text, and every other chunk reads as before.
\<close>

locale text_publisher =
  fixes inv :: "'s \<Rightarrow> bool"
    and text_of :: "'s \<Rightarrow> uuid \<Rightarrow> string option"
    and publish :: "uuid \<Rightarrow> string \<Rightarrow> ('s, 'e, 'r) tx"
  assumes keeps: "inv s \<Longrightarrow> publish c t s = Inr (r, s') \<Longrightarrow> inv s'"
    and reads: "inv s \<Longrightarrow> text_of s c \<noteq> None \<Longrightarrow> publish c t s = Inr (r, s') \<Longrightarrow> text_of s' c = Some t"
    and others: "inv s \<Longrightarrow> publish c t s = Inr (r, s') \<Longrightarrow> d \<noteq> c \<Longrightarrow> text_of s' d = text_of s d"
begin

lemma known_kept:
  assumes "inv s" "text_of s c \<noteq> None" "publish c t s = Inr (r, s')" "text_of s d \<noteq> None"
  shows "text_of s' d \<noteq> None"
  using reads [OF assms(1-3)] others [OF assms(1,3), of d] assms(4) by (cases "d = c") auto

text \<open>After a sequence of writes every chunk reads as the last text written to it.\<close>

definition last_text :: "(uuid \<times> string) list \<Rightarrow> uuid \<Rightarrow> string option \<Rightarrow> string option" where
  "last_text ws c before = fold (\<lambda>(d, t) v. if d = c then Some t else v) ws before"

lemma writes_read_back:
  assumes "inv s" "\<forall>(d, t)\<in>set ws. text_of s d \<noteq> None"
    and "tx_map (\<lambda>(d, t). publish d t) ws s = Inr (rs, s')"
  shows "inv s' \<and> text_of s' c = last_text ws c (text_of s c)"
  using assms
proof (induction ws arbitrary: s rs)
  case Nil
  then show ?case by (simp add: last_text_def)
next
  case (Cons w ws)
  obtain d t where w: "w = (d, t)" by (cases w)
  from Cons.prems(3) w obtain r s1 rs1 where p: "publish d t s = Inr (r, s1)"
    and rest: "tx_map (\<lambda>(d, t). publish d t) ws s1 = Inr (rs1, s')"
    by auto
  have known: "text_of s d \<noteq> None" using Cons.prems(2) w by simp
  have s1: "inv s1" using keeps [OF Cons.prems(1) p] .
  have "\<forall>(e, u)\<in>set ws. text_of s1 e \<noteq> None"
    using Cons.prems(2) known_kept [OF Cons.prems(1) known p] by auto
  from Cons.IH [OF s1 this rest] reads [OF Cons.prems(1) known p] others [OF Cons.prems(1) p, of c]
  show ?case by (cases "d = c") (simp_all add: w last_text_def)
qed

end

section \<open>The writers of the program\<close>

definition text_of_chunk :: "cdb \<Rightarrow> uuid \<Rightarrow> string option" where
  "text_of_chunk s c = map_option t_text (map_of (cdb_texts s) c)"

text \<open>
  A projected text has a pointer: holds of every store the hard delete was not used on.
\<close>

definition settled :: "(string \<Rightarrow> string) \<Rightarrow> cdb \<Rightarrow> bool" where
  "settled sha s \<longleftrightarrow> store_ok sha s \<and> fst ` set (cdb_texts s) \<subseteq> fst ` set (cdb_current s)"

text \<open>\<open>update_text\<close> of the version service, by the chunk's identifier.\<close>

definition version_publish ::
  "(string \<Rightarrow> string) \<Rightarrow> uuid \<Rightarrow> string \<Rightarrow> (uuid \<times> version_outcome \<times> version_row) chunk_tx" where
  "version_publish sha c t = update_text sha (uuid_str c) (Some t) None None None None"

definition either_publish :: "(string \<Rightarrow> string) \<Rightarrow> (uuid \<Rightarrow> string \<Rightarrow> bool) \<Rightarrow> uuid \<Rightarrow> string \<Rightarrow> unit chunk_tx" where
  "either_publish sha choice c t =
     (if choice c t then tx_bind (version_publish sha c t) (\<lambda>_. tx_return ()) else replace_chunk_text sha c t)"

lemma map_of_update_key: "map_of (update_key rows k f) i = (if i = k then map_option f (map_of rows k) else map_of rows i)"
  by (induction rows) (auto simp: update_key_def)

lemma chunk_id_of_str [simp]: "chunk_id_of (uuid_str c) = Inr c"
  by (simp add: chunk_id_of_def uuid_of_string_str)

lemma settled_current:
  assumes "settled sha s" "text_of_chunk s c = Some t"
  shows "\<exists>v. current_version s c = Some v \<and> v_text v = t"
proof -
  have inv: "version_inv sha s" using assms(1) by (simp add: settled_def store_ok_def store_inv_def)
  from assms(2) obtain r where r: "(c, r) \<in> set (cdb_texts s)" "t_text r = t"
    by (auto simp: text_of_chunk_def dest: map_of_SomeD)
  with assms(1) have "c \<in> fst ` set (cdb_current s)" by (force simp: settled_def)
  then obtain p where p: "(c, p) \<in> set (cdb_current s)" by auto
  have rows: "version_rows_ok sha (cdb_versions s)" and ptr: "pointers_ok (cdb_versions s) (cdb_current s)"
    using inv by (simp_all add: version_inv_def)
  from pointers_okD(2) [OF ptr p] obtain v where "v \<in> set (cdb_versions s)" "v_id v = p_version p" by blast
  with p have "current_version s c = Some v"
    using current_version_Some [OF rows pointers_okD(1) [OF ptr]] by blast
  moreover from this r inv have "projects r v" by (auto simp: version_inv_def projection_ok_def)
  ultimately show ?thesis using r(2) by (auto simp: projects_def)
qed

lemma append_text_effect:
  assumes ok: "settled sha s"
    and app: "append_and_activate sha i (Some t) nt e opid s = Inr ((c, out, r), s')"
  shows "settled sha s'" "text_of_chunk s c \<noteq> None \<Longrightarrow> text_of_chunk s' c = Some t"
    "d \<noteq> c \<Longrightarrow> text_of_chunk s' d = text_of_chunk s d"
proof -
  have sok: "store_ok sha s" and sub: "fst ` set (cdb_texts s) \<subseteq> fst ` set (cdb_current s)"
    using ok by (auto simp: settled_def)
  then have inv: "store_inv sha s" by (simp add: store_ok_def)
  have sok': "store_ok sha s'"
    using append_and_activate_inv [OF inv app] tx_keepsD [OF append_and_activate_fk app] sok
    by (simp add: store_ok_def)
  have "settled sha s' \<and> (text_of_chunk s c \<noteq> None \<longrightarrow> text_of_chunk s' c = Some t) \<and>
      (d \<noteq> c \<longrightarrow> text_of_chunk s' d = text_of_chunk s d)"
    using app
  proof (cases rule: append_and_activate_cases)
    case (unchanged val)
    then show ?thesis using ok settled_current [OF ok] by fastforce
  next
    case (appended val previous row s1)
    note eff = activate_effect [OF appended(5)] and ins = insert_version_effect [OF appended(4)]
    have texts: "map_of (cdb_texts s') d = (if d = c then map_option (\<lambda>_. \<lparr>t_text = t, t_sha = v_sha row,
       t_chars = int (length t), t_meta = v_meta row\<rparr>) (map_of (cdb_texts s) c) else map_of (cdb_texts s) d)" for d
      using eff(3) ins(1,6) appended(2) by (simp add: map_of_update_key)
    have "fst ` set (cdb_texts s') \<subseteq> fst ` set (cdb_current s')"
      using eff(2,3) ins(1) sub by auto
    with sok' texts show ?thesis by (auto simp: settled_def text_of_chunk_def)
  qed
  then show "settled sha s'" "text_of_chunk s c \<noteq> None \<Longrightarrow> text_of_chunk s' c = Some t"
    "d \<noteq> c \<Longrightarrow> text_of_chunk s' d = text_of_chunk s d" by blast+
qed

interpretation version_writer: text_publisher "settled sha" text_of_chunk "version_publish sha"
proof
  fix s c t r s' d
  assume s: "settled sha s" and p: "version_publish sha c t s = Inr (r, s')"
  obtain c' out v where r: "r = (c', out, v)" by (cases r)
  from p r have app: "append_and_activate sha (uuid_str c) (Some t)
      \<lparr>n_comment = None, n_actor = None, n_operation = Some ''update''\<rparr> None None s = Inr ((c', out, v), s')"
    by (simp add: version_publish_def update_text_def)
  have c': "c' = c" using app by (cases rule: append_and_activate_cases) auto
  note eff = append_text_effect [OF s app, unfolded c']
  show "settled sha s'" by (rule eff(1))
  show "text_of_chunk s c \<noteq> None \<Longrightarrow> text_of_chunk s' c = Some t" by (rule eff(2))
  show "d \<noteq> c \<Longrightarrow> text_of_chunk s' d = text_of_chunk s d" by (rule eff(3))
qed

lemma replace_text_effect:
  assumes ok: "settled sha s" and rep: "replace_chunk_text sha c t s = Inr (r, s')"
  shows "settled sha s'" "text_of_chunk s' c = Some t" "d \<noteq> c \<Longrightarrow> text_of_chunk s' d = text_of_chunk s d"
proof -
  have inv: "version_inv sha s" "distinct (map fst (cdb_texts s))" and fk: "fk_with {} s"
    and sub: "fst ` set (cdb_texts s) \<subseteq> fst ` set (cdb_current s)"
    using ok by (auto simp: settled_def store_ok_def store_inv_def)
  note eff = replace_chunk_text_inv [OF inv rep]
  have "fk_with {} s'" using tx_keepsD [OF replace_chunk_text_fk rep fk] .
  moreover have "store_inv sha s'"
    using replace_chunk_text_store_inv [OF _ rep] inv by (simp add: store_inv_def)
  moreover have "fst ` set (cdb_texts s') \<subseteq> fst ` set (cdb_current s')"
  proof (cases "s' = s")
    case False
    with eff sub show ?thesis by (metis insert_mono)
  qed (use sub in simp)
  ultimately show "settled sha s'" by (simp add: settled_def store_ok_def)
  show "text_of_chunk s' c = Some t" "d \<noteq> c \<Longrightarrow> text_of_chunk s' d = text_of_chunk s d"
    using eff by (simp_all add: text_of_chunk_def)
qed

interpretation entity_writer: text_publisher "settled sha" text_of_chunk "replace_chunk_text sha"
  by unfold_locales (blast intro: replace_text_effect)+

interpretation both_writers: text_publisher "settled sha" text_of_chunk "either_publish sha choice"
proof
  fix s c t and r :: unit and s' d
  assume s: "settled sha s" and "either_publish sha choice c t s = Inr (r, s')"
  then consider (version) q where "version_publish sha c t s = Inr (q, s')"
    | (entity) "replace_chunk_text sha c t s = Inr (r, s')"
    by (auto simp: either_publish_def split: if_splits)
  then have "settled sha s' \<and> (text_of_chunk s c \<noteq> None \<longrightarrow> text_of_chunk s' c = Some t) \<and>
      (d \<noteq> c \<longrightarrow> text_of_chunk s' d = text_of_chunk s d)"
  proof cases
    case version
    from version_writer.keeps [OF s version] version_writer.reads [OF s _ version]
      version_writer.others [OF s version, of d] show ?thesis by simp
  next
    case entity
    from entity_writer.keeps [OF s entity] entity_writer.reads [OF s _ entity]
      entity_writer.others [OF s entity, of d] show ?thesis by simp
  qed
  then show "settled sha s'" "text_of_chunk s c \<noteq> None \<Longrightarrow> text_of_chunk s' c = Some t"
    "d \<noteq> c \<Longrightarrow> text_of_chunk s' d = text_of_chunk s d" by blast+
qed

section \<open>The history only grows\<close>

definition text_columns :: "version_row \<Rightarrow> uuid \<times> uuid \<times> int \<times> string \<times> string" where
  "text_columns v = (v_id v, v_chunk v, v_no v, v_text v, v_sha v)"

definition versions_extend :: "cdb \<Rightarrow> cdb \<Rightarrow> bool" where
  "versions_extend s s' \<longleftrightarrow>
     (\<exists>new. map text_columns (cdb_versions s') = map text_columns (cdb_versions s) @ new)"

lemma versions_extend_refl [simp]: "versions_extend s s"
  by (simp add: versions_extend_def)

lemma versions_extend_trans: "versions_extend s t \<Longrightarrow> versions_extend t u \<Longrightarrow> versions_extend s u"
  by (auto simp: versions_extend_def)

lemma text_columns_same: "same_text v w \<Longrightarrow> text_columns v = text_columns w"
  by (simp add: text_columns_def same_text_def)

lemma versions_extend_map:
  assumes "cdb_versions s' = map f (cdb_versions s @ new)" "\<And>v. same_text (f v) v"
  shows "versions_extend s s'"
  using assms text_columns_same [OF assms(2)] by (auto simp: versions_extend_def)

lemma activate_extends: "activate c row nt s = Inr (r, s') \<Longrightarrow> versions_extend s s'"
  by (rule versions_extend_map [of _ "activated (cdb_clock s) nt row" _ "[]"])
    (simp_all add: activate_effect(1) [of c row nt s r s'])

lemma insert_extends: "insert_version sha c n val nt opid p q s = Inr (row, s') \<Longrightarrow> versions_extend s s'"
  using insert_version_effect(1) [of sha c n val nt opid p q s row s']
  by (auto simp: versions_extend_def)

lemma retire_row_extends: "versions_extend s (retire_row i cm ac s)"
proof (rule versions_extend_map [of _ _ _ "[]"])
  show "cdb_versions (retire_row i cm ac s) = map (\<lambda>v. if v_id v = i
     then v\<lparr>v_status := Retired, v_is_current := False,
            v_valid_to := coalesce (v_valid_to v) (Some (cdb_clock s)),
            v_comment := coalesce cm (v_comment v), v_actor := coalesce ac (v_actor v),
            v_operation := Some ''retire'', v_updated_at := cdb_clock s\<rparr> else v) (cdb_versions s @ [])"
    by (simp add: retire_row_def)
qed (simp add: same_text_def)

lemma entity_current_same: "same_text (entity_current now pointed row v) v"
  by (simp add: entity_current_def Let_def same_text_def retired_def set_current_row_def)

lemma replace_extends:
  assumes "replace_chunk_text sha c val s = Inr (x, s')"
  shows "versions_extend s s'"
  using assms
proof (cases rule: replace_chunk_text_cases)
  case (replaced s0 s1 row)
  then obtain meta k where "entity_version sha c val meta k s0 = Inr (row, s1)" by blast
  from entity_version_effect(1) [OF this] replaced(1) have "cdb_versions s1 = cdb_versions s @ [row]" by simp
  then show ?thesis
    by (intro versions_extend_map [OF replaced(5) [unfolded \<open>cdb_versions s1 = cdb_versions s @ [row]\<close>]]
        entity_current_same)
qed simp

lemma edit_step_extends:
  assumes "edit_step sha s s'" "store_ok sha s"
  shows "versions_extend s s'"
  using assms
proof (induction rule: edit_step.induct)
  case (edit_append s i t nt e opid)
  show ?case
  proof (rule transaction_cases [of "append_and_activate sha i t nt e opid" s])
    fix x s' assume m: "append_and_activate sha i t nt e opid s = Inr (x, s')"
      and tr: "transaction (append_and_activate sha i t nt e opid) s = (Inr x, s')"
    obtain c out r where x: "x = (c, out, r)" by (cases x)
    from m [unfolded x] have "versions_extend s s'"
      by (cases rule: append_and_activate_cases) (auto dest: insert_extends activate_extends intro: versions_extend_trans)
    with tr show ?thesis by simp
  qed simp
next
  case (edit_restore s i n cm ac e opid)
  show ?case
  proof (rule transaction_cases [of "restore_version sha i n cm ac e opid" s])
    fix x s' assume m: "restore_version sha i n cm ac e opid s = Inr (x, s')"
      and tr: "transaction (restore_version sha i n cm ac e opid) s = (Inr x, s')"
    obtain c out r where x: "x = (c, out, r)" by (cases x)
    from m [unfolded x] have "versions_extend s s'"
      by (cases rule: restore_version_cases) (auto dest: insert_extends activate_extends intro: versions_extend_trans)
    with tr show ?thesis by simp
  qed simp
next
  case (edit_current s i n cm ac)
  show ?case
  proof (rule transaction_cases [of "set_current i n cm ac" s])
    fix x s' assume m: "set_current i n cm ac s = Inr (x, s')"
      and tr: "transaction (set_current i n cm ac) s = (Inr x, s')"
    obtain c out r where x: "x = (c, out, r)" by (cases x)
    from m [unfolded x] have "versions_extend s s'"
      by (cases rule: set_current_cases) (auto dest: activate_extends)
    with tr show ?thesis by simp
  qed simp
next
  case (edit_retire s i n m cm ac)
  show ?case
  proof (rule transaction_cases [of "retire_version i n m cm ac" s])
    fix x s' assume op: "retire_version i n m cm ac s = Inr (x, s')"
      and tr: "transaction (retire_version i n m cm ac) s = (Inr x, s')"
    obtain c k cur where x: "x = (c, k, cur)" by (cases x)
    from op [unfolded x] have "versions_extend s s'"
      by (cases rule: retire_version_cases)
        (auto dest: activate_extends intro: versions_extend_trans retire_row_extends)
    with tr show ?thesis by simp
  qed simp
next
  case (edit_entity s c val)
  show ?case
    by (rule transaction_cases [of "replace_chunk_text sha c val" s]) (auto dest: replace_extends)
next
  case (edit_ingest s c k body meta)
  show ?case
  proof (rule transaction_cases [of "write_chunk_text sha c k body meta" s])
    fix x s' assume "write_chunk_text sha c k body meta s = Inr (x, s')"
      and "transaction (write_chunk_text sha c k body meta) s = (Inr x, s')"
    moreover from write_chunk_text_ok(2) [OF edit_ingest this(1)] obtain v where
      "cdb_versions s' = cdb_versions s @ [v]" by blast
    ultimately show ?thesis by (simp add: versions_extend_def)
  qed simp
next
  case (edit_foreign s' s)
  then show ?case by (simp add: versions_extend_def)
qed

lemma activate_frame:
  assumes "activate c row nt s = Inr (r, s')"
  shows "cdb_configured s' = cdb_configured s" "map_of (cdb_chunks s') d = None \<longleftrightarrow> map_of (cdb_chunks s) d = None"
  using activate_effect(5,6) [OF assms] by (simp_all add: map_of_eq_None_iff flip: set_map)

lemma other_row:
  assumes "distinct xs" "x \<in> set xs" "P x" "length (filter P xs) \<noteq> 1"
  shows "\<exists>y\<in>set xs. P y \<and> y \<noteq> x"
proof (rule ccontr)
  assume "\<not> (\<exists>y\<in>set xs. P y \<and> y \<noteq> x)"
  then have one: "set (filter P xs) = {x}" using assms(2,3) unfolding set_filter by blast
  have "length (filter P xs) = card (set (filter P xs))" using distinct_card [OF distinct_filter [OF assms(1)]] by (rule sym)
  also have "\<dots> = 1" unfolding one by simp
  finally show False using assms(4) by (rule notE [rotated])
qed

section \<open>Properties\<close>

text \<open>
  C9: however the two writers, the ingestion and the hard delete are interleaved, a chunk has at
  most one version flagged as current, the pointer selects exactly that one, and the projected text
  and digest are those of the version pointed to.
\<close>

theorem current_version_consistent:
  assumes "empty_store s0" "(version_step sha)\<^sup>*\<^sup>* s0 s"
  shows "(current_version s c = Some v \<longleftrightarrow> v \<in> set (cdb_versions s) \<and> v_chunk v = c \<and> v_is_current v) \<and>
    (v \<in> set (cdb_versions s) \<and> w \<in> set (cdb_versions s) \<and> v_is_current v \<and> v_is_current w \<and>
       v_chunk v = v_chunk w \<longrightarrow> v = w) \<and>
    (current_version s c = Some v \<and> (c, t) \<in> set (cdb_texts s) \<longrightarrow>
       t_text t = v_text v \<and> t_sha t = sha (v_text v))"
proof -
  have inv: "version_inv sha s"
    using version_steps_ok [OF assms(2) empty_store_ok [OF assms(1)]] by (simp add: store_ok_def store_inv_def)
  note cur = current_version_iff [OF inv]
  have "v = w" if "v \<in> set (cdb_versions s)" "w \<in> set (cdb_versions s)" "v_is_current v" "v_is_current w"
    "v_chunk v = v_chunk w"
    using cur [of "v_chunk w" v] cur [of "v_chunk w" w] that by auto
  moreover have "t_text t = v_text v \<and> t_sha t = sha (v_text v)"
    if v: "current_version s c = Some v" and t: "(c, t) \<in> set (cdb_texts s)"
  proof -
    have "projects t v" using inv v t by (auto simp: version_inv_def projection_ok_def)
    moreover have "v_sha v = sha (v_text v)"
      using inv cur v by (auto simp: version_inv_def version_rows_ok_def)
    ultimately show ?thesis by (simp add: projects_def)
  qed
  ultimately show ?thesis using cur by blast
qed

text \<open>
  C10: versions are immutable. Whatever the writers do short of the hard delete, every version keeps
  its identifier, chunk, number, text and digest, in place, and new versions are appended.
\<close>

theorem versions_immutable:
  assumes "(edit_step sha)\<^sup>*\<^sup>* s s'" "store_ok sha s"
  shows "\<exists>new. map text_columns (cdb_versions s') = map text_columns (cdb_versions s) @ new"
proof -
  have "versions_extend s s' \<and> store_ok sha s'"
    using assms
    by (induction rule: rtranclp_induct) (auto intro: versions_extend_trans edit_step_extends edit_step_ok)
  then show ?thesis by (simp add: versions_extend_def)
qed

text \<open>
  An update either changes nothing, when the chunk already reads as the new text, or appends a
  version with the new text, numbered above every version of the chunk, which becomes the current
  one.
\<close>

theorem update_text_appends:
  assumes "store_ok sha s"
    and "update_text sha (uuid_str c) (Some t) comment actor expected opid s = Inr ((c', out, r), s')"
  shows "(out = Unchanged \<and> s' = s \<and> current_version s c = Some r \<and> v_text r = t) \<or>
    (out = Appended \<and> current_version s' c = Some r \<and> v_text r = t \<and>
     (\<forall>v\<in>set (cdb_versions s). v_chunk v = c \<longrightarrow> v_no v < v_no r) \<and>
     length (cdb_versions s') = Suc (length (cdb_versions s)))"
proof -
  have inv: "version_inv sha s" using assms(1) by (simp add: store_ok_def store_inv_def)
  from assms(2) have "append_and_activate sha (uuid_str c) (Some t)
      \<lparr>n_comment = comment, n_actor = actor, n_operation = Some ''update''\<rparr> expected opid s = Inr ((c', out, r), s')"
    by (simp add: update_text_def)
  then show ?thesis
  proof (cases rule: append_and_activate_cases)
    case (appended val previous row s1)
    then have c': "c' = c" "val = t" by auto
    note eff = insert_activate_inv [OF inv appended(4,5)]
    have "v_no v < next_version_no (cdb_versions s) c'" if "v \<in> set (cdb_versions s)" "v_chunk v = c'" for v
      unfolding next_version_no_def using that by (intro next_number_greater) auto
    with eff c' appended(3) show ?thesis by auto
  qed auto
qed

text \<open>
  C11: restoring a version and reading the chunk gives the restored version's text back, in a version
  of its own numbered above all others; the restored version stays what it was.
\<close>

theorem restore_version_reads_back:
  assumes "store_ok sha s"
    and "restore_version sha (uuid_str c) (Int_arg n) comment actor expected opid s = Inr ((c', out, r), s')"
  shows "\<exists>source. version_of (cdb_versions s) c n = Some source \<and> current_version s' c = Some r \<and>
    v_text r = v_text source \<and> v_no r = next_version_no (cdb_versions s) c \<and> n < v_no r \<and>
    text_columns source \<in> set (map text_columns (cdb_versions s'))"
proof -
  have inv: "version_inv sha s" using assms(1) by (simp add: store_ok_def store_inv_def)
  from assms(2) show ?thesis
  proof (cases rule: restore_version_cases)
    case (1 m source row s1)
    then have c': "c' = c" and m: "m = n" by (auto simp: version_number_def split: if_splits)
    note eff = insert_activate_inv [OF inv 1(5,6)] and src = version_row_of [OF inv 1(3)]
    have "n < next_version_no (cdb_versions s) c"
      unfolding next_version_no_def using src c' m by (intro next_number_greater) force
    moreover have "text_columns source \<in> set (map text_columns (cdb_versions s'))"
    proof -
      have "versions_extend s s'"
        using insert_extends [OF 1(5)] activate_extends [OF 1(6)] by (rule versions_extend_trans)
      then obtain new where "map text_columns (cdb_versions s') = map text_columns (cdb_versions s) @ new"
        unfolding versions_extend_def by blast
      then show ?thesis using src(1) by (simp only: set_append set_map) blast
    qed
    ultimately show ?thesis using 1(3) eff c' m by auto
  qed
qed

text \<open>
  C12: no update is lost. Of two updates that expect the same current version, a second one after a
  first that appended is refused as a mismatch, whatever it writes, and changes nothing.
\<close>

theorem lost_update_refused:
  assumes "store_ok sha s"
    and "update_text sha (uuid_str c) (Some t) cm ac (Some (Int_arg n)) opid s = Inr ((c', Appended, r), s')"
  shows "transaction (update_text sha (uuid_str c) (Some u) cm' ac' (Some (Int_arg n)) opid') s' =
    (Inl (Current_mismatch c n (Some (v_no r))), s')"
proof -
  have inv: "version_inv sha s" using assms(1) by (simp add: store_ok_def store_inv_def)
  from assms(2) have app: "append_and_activate sha (uuid_str c) (Some t)
      \<lparr>n_comment = cm, n_actor = ac, n_operation = Some ''update''\<rparr> (Some (Int_arg n)) opid s =
      Inr ((c', Appended, r), s')"
    by (simp add: update_text_def)
  then have "cdb_configured s" by (auto simp: append_and_activate_def split: option.splits)
  from app show ?thesis
  proof (cases rule: append_and_activate_cases)
    case (appended val previous row s1)
    then have c': "c' = c" by simp
    note eff = insert_activate_inv [OF inv appended(4,5)]
    have n: "0 < n" "current_version_no s c = Some n"
      using appended(7) c' by (auto simp: optional_version_number_def version_number_def split: if_splits)
    then obtain v where "v \<in> set (cdb_versions s)" "v_chunk v = c" "v_no v = n"
      using current_version_iff [OF inv] by (auto simp: current_version_no_def)
    then have "n < next_version_no (cdb_versions s) c"
      unfolding next_version_no_def by (intro next_number_greater) force
    then have ne: "v_no r \<noteq> n" using eff(4) c' by simp
    have cur: "current_version_no s' c = Some (v_no r)" using eff(2) c' by (simp add: current_version_no_def)
    have conf: "cdb_configured s'" and chunk: "map_of (cdb_chunks s') c \<noteq> None"
      using activate_frame [OF appended(5)] insert_version_effect(1,15) [OF appended(4)] \<open>cdb_configured s\<close> c'
      by simp_all
    show ?thesis
      using n(1) ne conf chunk cur
      by (simp add: transaction_def update_text_def append_and_activate_def on_store_def require_chunk_def
          tx_bind_def tx_lift_def assert_expected_current_def optional_version_number_def version_number_def
          tx_read_def tx_guard_def tx_raise_def)
  qed simp
qed

text \<open>
  Retiring never leaves a chunk without a current version: when the chunk had one, it has one
  afterwards, it is not the retired version, and the number returned is its number.
\<close>

theorem retire_keeps_a_current:
  assumes "store_ok sha s"
    and "retire_version (uuid_str c) (Int_arg n) m comment actor s = Inr ((c', n', now), s')"
    and "current_version s c \<noteq> None"
  shows "\<exists>v. current_version s' c = Some v \<and> v_no v \<noteq> n \<and> now = Some (v_no v)"
proof -
  have inv: "version_inv sha s" and sinv: "store_inv sha s"
    using assms(1) by (simp_all add: store_ok_def store_inv_def)
  note ret = retire_version_inv [OF sinv assms(2)]
  from assms(2) have ids: "c' = c" "n' = n"
    by (auto simp: retire_version_def version_number_def split: if_splits)
  have "now \<noteq> None \<and> now \<noteq> Some n"
    using assms(2)
  proof (cases rule: retire_version_cases)
    case (plain row)
    note row = version_row_of [OF inv plain(3)]
    have "\<not> v_is_current v" if "v \<in> set (cdb_versions s)" "v_id v = v_id row" for v
      using version_id_unique [OF inv that(1) row(1) that(2)] plain(4) by simp
    from retire_row_inv(2) [OF inv this] plain(5,6)
    have now: "now = map_option v_no (current_version s c')" by (simp add: current_version_no_def)
    obtain v where v: "current_version s c = Some v" using assms(3) by blast
    then have "v \<in> set (cdb_versions s)" "v_chunk v = c" "v_is_current v"
      using current_version_iff [OF inv] by blast+
    moreover have "v_no v \<noteq> n"
    proof
      assume "v_no v = n"
      then have "version_of (cdb_versions s) c n = Some v"
        using version_of_Some [of "cdb_versions s" c n v] inv calculation
        by (simp add: version_inv_def version_rows_ok_def)
      with plain(3,4) ids calculation show False by simp
    qed
    ultimately show ?thesis using now v ids by simp
  next
    case (replaced row k q r s1)
    with ids show ?thesis by simp
  qed
  with ret(2) ids show ?thesis by (auto simp: current_version_no_def)
qed

text \<open>
  C13: deleting the current version leaves the chunk without any. The description of the command
  says that the highest remaining version becomes current; but the delete of the version row cascades
  to the pointer, the service then finds no pointer to replace, and it returns with no current
  version while the projection still shows the deleted text.
\<close>

theorem delete_current_orphans:
  assumes "store_ok sha s" "current_version s c = Some v" "text_of_chunk s c = Some t"
    and "delete_version (uuid_str c) (Int_arg (v_no v)) s = Inr ((c', n, now), s')"
  shows "now = None \<and> current_version s' c = None \<and> text_of_chunk s' c = Some (v_text v) \<and>
    (\<exists>w\<in>set (cdb_versions s'). v_chunk w = c)"
proof -
  have inv: "version_inv sha s" using assms(1) by (simp add: store_ok_def store_inv_def)
  have v: "v \<in> set (cdb_versions s)" "v_chunk v = c" "v_is_current v"
    using current_version_iff [OF inv] assms(2) by blast+
  from assms(4) show ?thesis
  proof (cases rule: delete_version_cases)
    case (1 row)
    then have c': "c' = c" and n: "n = v_no v" by (auto simp: version_number_def split: if_splits)
    note row = version_row_of [OF inv 1(3)]
    have "row = v"
      using row v c' n inv by (auto simp: version_inv_def version_rows_ok_def dest: distinct_map_eqD)
    note dl = delete_version_rows_inv [OF inv, of c n]
    have none: "current_version s' c = None"
    proof (rule ccontr)
      assume "current_version s' c \<noteq> None"
      then obtain w where w: "current_version s' c = Some w" by blast
      then have "current_version (delete_version_rows c n s) c = Some w" using 1(5) c' by simp
      from dl(2) [OF this] assms(2) have "same_text w v" by auto
      moreover have "w \<in> set (cdb_versions s')" "v_chunk w = c"
        using w current_version_iff dl(1) 1(5) c' by blast+
      ultimately show False
        using 1(5) c' n by (auto simp: delete_version_rows_def Let_def same_text_def)
    qed
    obtain r where r: "(c, r) \<in> set (cdb_texts s)" "t_text r = t" "map_of (cdb_texts s) c = Some r"
      using assms(3) by (auto simp: text_of_chunk_def dest: map_of_SomeD)
    then have "t = v_text v"
      using inv assms(2) by (auto simp: version_inv_def projection_ok_def projects_def)
    then have "text_of_chunk s' c = Some (v_text v)" using r 1(5) by (simp add: text_of_chunk_def)
    moreover have "\<exists>w\<in>set (cdb_versions s'). v_chunk w = c"
    proof -
      have "distinct (cdb_versions s)"
        using inv by (simp add: version_inv_def version_rows_ok_def distinct_map)
      from other_row [OF this v(1), of "\<lambda>v. v_chunk v = c'"] 1(4) v(2) c' obtain w where
        "w \<in> set (cdb_versions s)" "v_chunk w = c'" "w \<noteq> v" by auto
      moreover from this have "v_no w \<noteq> n"
        using v c' n inv by (auto simp: version_inv_def version_rows_ok_def dest: distinct_map_eqD)
      ultimately show ?thesis using 1(5) c' by (force simp: delete_version_rows_def Let_def)
    qed
    ultimately show ?thesis using none 1(5,6) c' by (simp add: current_version_no_def)
  qed
qed

text \<open>
  C14: the two writers of chunk texts work together. After any successful sequence of updates, each
  through the version service or the entity service, every chunk reads as the last text written to
  it, or as before when none was, and every chunk with a text has a current version.
\<close>

theorem both_writers_read_back:
  assumes "settled sha s" "\<forall>(d, t)\<in>set ws. text_of_chunk s d \<noteq> None"
    and "tx_map (\<lambda>(d, t). either_publish sha choice d t) ws s = Inr (rs, s')"
  shows "text_of_chunk s' c = fold (\<lambda>(d, t) v. if d = c then Some t else v) ws (text_of_chunk s c) \<and>
    (\<forall>t. text_of_chunk s' c = Some t \<longrightarrow> (\<exists>v. current_version s' c = Some v \<and> v_text v = t))"
  using both_writers.writes_read_back [OF assms, of c] settled_current [of sha s' c]
  by (simp add: both_writers.last_text_def)

section \<open>A small store\<close>

definition blank_store :: cdb where
  "blank_store =
     \<lparr>cdb_configured = True, cdb_versions = [], cdb_current = [], cdb_texts = [], cdb_chunks = [],
      cdb_assignments = (\<lambda>_. []), cdb_derived = (\<lambda>_. []), cdb_embeddings = [],
      cdb_documents = [(1, \<lparr>d_owner = Some 2, d_revectorize = False\<rparr>)], cdb_files = [(2, False)],
      cdb_dictionaries = (\<lambda>_. []), cdb_clock = 10, cdb_uuids = (\<lambda>n. word_of_nat (n + 20)), cdb_drawn = 0\<rparr>"

definition sample_chunk :: chunk_row where
  "sample_chunk = \<lparr>k_document = 1, k_paragraph = None, k_text = [], k_chars = 1, k_start = None,
     k_end = None, k_order = None, k_status = None, k_category = None, k_meta = []\<rparr>"

definition one_version :: cdb where
  "one_version = committed (write_chunk_text id 5 sample_chunk ''a'' []) blank_store"

definition sample_update :: "string \<Rightarrow> int option \<Rightarrow> (uuid \<times> version_outcome \<times> version_row) chunk_tx" where
  "sample_update t expected =
     update_text id (uuid_str 5) (Some t) None None (map_option Int_arg expected) None"

definition two_versions :: cdb where
  "two_versions = committed (sample_update ''b'' (Some 1)) one_version"

text \<open>Shorthands for the rows of the small store.\<close>

definition first_version :: version_row where
  "first_version = hd (cdb_versions one_version)"

definition second_version :: version_row where
  "second_version = cdb_versions two_versions ! 1"

lemma blank_store_ok: "store_ok id blank_store"
  by (rule empty_store_ok) (simp add: empty_store_def blank_store_def)

lemma one_version_step: "edit_step id blank_store one_version"
  unfolding one_version_def committed_def by (rule edit_step.edit_ingest)

lemma two_versions_step: "edit_step id one_version two_versions"
  unfolding two_versions_def committed_def sample_update_def update_text_def by (rule edit_step.edit_append)

lemma one_version_ok: "store_ok id one_version"
  by (rule edit_step_ok [OF one_version_step blank_store_ok])

lemma two_versions_ok: "store_ok id two_versions"
  by (rule edit_step_ok [OF two_versions_step one_version_ok])

lemma second_update_run:
  "sample_update ''b'' (Some 1) one_version = Inr ((5, Appended, second_version), two_versions)"
  unfolding two_versions_def by (rule committed_run) code_simp

lemma two_versions_reached: "(version_step id)\<^sup>*\<^sup>* blank_store two_versions"
  using one_version_step two_versions_step
  by (auto intro: step_edit rtranclp.rtrancl_into_rtrancl)

lemma two_versions_current: "current_version two_versions 5 = Some second_version"
  by code_simp

text \<open>A store with two versions of one chunk, written out.\<close>

definition version_literal :: "uuid \<Rightarrow> int \<Rightarrow> string \<Rightarrow> bool \<Rightarrow> version_row" where
  "version_literal i n t current =
     \<lparr>v_id = i, v_chunk = 5, v_logical = 5, v_previous = None, v_restored = None, v_no = n, v_text = t,
      v_sha = t, v_chars = int (length t), v_source = None, v_start = None, v_end = None, v_order = None,
      v_status = (if current then Active else Retired), v_is_current = current, v_valid_from = 1,
      v_valid_to = None, v_comment = None, v_actor = None, v_operation = None, v_operation_id = None,
      v_deleted_at = None, v_updated_at = 1, v_meta = []\<rparr>"

definition pair_store :: cdb where
  "pair_store = blank_store\<lparr>
     cdb_versions := [version_literal 11 1 ''a'' False, version_literal 12 2 ''b'' True],
     cdb_current := [(5, \<lparr>p_version = 12, p_comment = None, p_actor = None, p_operation = None\<rparr>)],
     cdb_texts := [(5, \<lparr>t_text = ''b'', t_sha = ''b'', t_chars = 1, t_meta = []\<rparr>)],
     cdb_chunks := [(5, sample_chunk)]\<rparr>"

lemma pair_store_current: "current_version pair_store 5 = Some (version_literal 12 2 ''b'' True)"
  by code_simp

lemma pair_store_ok: "store_ok id pair_store"
proof -
  have "current_version pair_store c = None" if "c \<noteq> 5" for c
    using that by (simp add: current_version_def pair_store_def)
  then have "projection_ok pair_store"
    using pair_store_current by (simp add: projection_ok_def projects_def pair_store_def version_literal_def)
  then show ?thesis
    by (simp add: store_ok_def store_inv_def version_inv_def version_rows_ok_def pointers_ok_def fk_with_def
        pair_store_def version_literal_def)
qed

section \<open>Instances\<close>

theorem current_version_consistent_witness:
  "v_is_current second_version \<and> t_text ` {t. (5, t) \<in> set (cdb_texts two_versions)} \<subseteq> {''b''}"
proof -
  have "empty_store blank_store" by (simp add: empty_store_def blank_store_def)
  note facts = current_version_consistent [OF this two_versions_reached]
  have tx: "v_text second_version = ''b''" by code_simp
  have "t_text t = ''b''" if "(5, t) \<in> set (cdb_texts two_versions)" for t
    using facts [of 5 second_version second_version t] two_versions_current that tx by simp
  moreover have "v_is_current second_version"
    using facts [of 5 second_version second_version] two_versions_current by simp
  ultimately show ?thesis by blast
qed

theorem versions_immutable_witness:
  "\<exists>new. map text_columns (cdb_versions two_versions) = map text_columns (cdb_versions one_version) @ new"
proof -
  have "(edit_step id)\<^sup>*\<^sup>* one_version two_versions" using two_versions_step by (rule r_into_rtranclp)
  from versions_immutable [OF this one_version_ok] show ?thesis .
qed

theorem update_text_appends_witness:
  "current_version two_versions 5 = Some second_version \<and> v_text second_version = ''b''"
  using update_text_appends [OF one_version_ok second_update_run [unfolded sample_update_def]] by simp

definition restored_store :: cdb where
  "restored_store = committed (restore_version id (uuid_str 5) (Int_arg 1) None None None None) pair_store"

theorem restore_version_reads_back_witness:
  "\<exists>v. current_version restored_store 5 = Some v \<and> v_text v = ''a'' \<and> 1 < v_no v"
proof -
  have "fst (transaction (restore_version id (uuid_str 5) (Int_arg 1) None None None None) pair_store) =
      Inr (5, Restored, cdb_versions restored_store ! 2)"
    by code_simp
  from committed_run [OF this] have run: "restore_version id (uuid_str 5) (Int_arg 1) None None None None pair_store =
      Inr ((5, Restored, cdb_versions restored_store ! 2), restored_store)"
    by (simp add: restored_store_def)
  have "map_option v_text (version_of (cdb_versions pair_store) 5 1) = Some ''a''" by code_simp
  with restore_version_reads_back [OF pair_store_ok run] show ?thesis by auto
qed

theorem lost_update_refused_witness:
  "transaction (sample_update ''c'' (Some 1)) two_versions =
     (Inl (Current_mismatch 5 1 (Some (v_no second_version))), two_versions)"
  using lost_update_refused [OF one_version_ok second_update_run [unfolded sample_update_def option.map], of "''c''" None None None]
  by (simp add: sample_update_def)

definition retired_store :: cdb where
  "retired_store = committed (retire_version (uuid_str 5) (Int_arg 2) (Some (Int_arg 1)) None None) pair_store"

theorem retire_keeps_a_current_witness:
  "\<exists>v. current_version retired_store 5 = Some v \<and> v_no v \<noteq> 2"
proof -
  have "fst (transaction (retire_version (uuid_str 5) (Int_arg 2) (Some (Int_arg 1)) None None) pair_store) =
      Inr (5, 2, Some 1)"
    by code_simp
  from committed_run [OF this] have "retire_version (uuid_str 5) (Int_arg 2) (Some (Int_arg 1)) None None pair_store =
      Inr ((5, 2, Some 1), retired_store)"
    by (simp add: retired_store_def)
  from retire_keeps_a_current [OF pair_store_ok this] pair_store_current show ?thesis by auto
qed

definition orphaned_store :: cdb where
  "orphaned_store = committed (delete_version (uuid_str 5) (Int_arg 2)) pair_store"

theorem delete_current_orphans_witness:
  "current_version orphaned_store 5 = None \<and> text_of_chunk orphaned_store 5 = Some ''b'' \<and>
   (\<exists>w\<in>set (cdb_versions orphaned_store). v_chunk w = 5)"
proof -
  let ?v = "version_literal 12 2 ''b'' True"
  have no: "v_no ?v = 2" and tx: "v_text ?v = ''b''" by (simp_all add: version_literal_def)
  have "fst (transaction (delete_version (uuid_str 5) (Int_arg (v_no ?v))) pair_store) = Inr (5, 2, None)"
    by code_simp
  from committed_run [OF this] have run: "delete_version (uuid_str 5) (Int_arg (v_no ?v)) pair_store =
      Inr ((5, 2, None), orphaned_store)"
    by (simp add: orphaned_store_def no)
  have "text_of_chunk pair_store 5 = Some ''b''" by code_simp
  from delete_current_orphans [OF pair_store_ok pair_store_current this run] tx show ?thesis by simp
qed

theorem both_writers_read_back_witness:
  "\<exists>rs s'. tx_map (\<lambda>(d, t). either_publish id (\<lambda>_ t. t = ''c'') d t) [(5, ''d'')] pair_store = Inr (rs, s') \<and>
     text_of_chunk s' 5 = Some ''d''"
proof -
  let ?m = "tx_map (\<lambda>(d, t). either_publish id (\<lambda>_ t. t = ''c'') d t) [(5, ''d'')]"
  have "fst (transaction ?m pair_store) = Inr [()]" by code_simp
  from committed_run [OF this] have run: "?m pair_store = Inr ([()], committed ?m pair_store)" .
  have "fst ` set (cdb_texts pair_store) = {5}" "fst ` set (cdb_current pair_store) = {5}" by code_simp+
  then have "settled id pair_store" using pair_store_ok by (simp add: settled_def)
  moreover have "text_of_chunk pair_store 5 = Some ''b''" by code_simp
  ultimately have "text_of_chunk (committed ?m pair_store) 5 = Some ''d''"
    using both_writers_read_back [OF _ _ run, of 5] by simp
  with run show ?thesis by blast
qed

end
