(* ===== verification/Exact_Reconstruction.thy ===== *)
theory Exact_Reconstruction
  imports Py_Values
begin

text \<open>
  The metadata from which a source text is put together again exactly
  (\<open>runtime/exact_reconstruction.py\<close>): for every chunk the gap before it, its slice of the source
  where that differs from the stored text, and after the last chunk the rest of the source. The
  pieces travel in the JSON metadata of the chunks and are parsed when they are read back.
\<close>

section \<open>Data\<close>

record exact_piece =
  gap_before :: string
  source_text :: "string option"
  suffix_after :: "string option"

record exact_input =
  in_text :: string
  in_start :: "int option"
  in_end :: "int option"

datatype exact_error =
    Scope_outside | No_coordinates | Not_monotonic | Slice_differs | No_chunks
  | Not_an_object | Unsupported_version | Gap_no_string | Suffix_no_string | Source_no_string
  | Conflicting_metadata | Mixed_metadata | Missing_metadata | Suffix_count | Suffix_misplaced

text \<open>\<open>s[a:b]\<close> for \<open>0 \<le> a \<le> b\<close>\<close>

definition slice :: "string \<Rightarrow> int \<Rightarrow> int \<Rightarrow> string" where
  "slice s a b = take (nat (b - a)) (drop (nat a) s)"

section \<open>Building the pieces\<close>

text \<open>
  The loop of \<open>build_exact_reconstruction_pieces\<close> over the chunks with its \<open>cursor\<close>, then the scope
  check before it and the suffix after it.
\<close>

fun scan_chunks ::
  "string \<Rightarrow> int \<Rightarrow> bool \<Rightarrow> int \<Rightarrow> exact_input list \<Rightarrow> (exact_error, exact_piece list \<times> int) result" where
  "scan_chunks src scope_end allow cursor [] = Inr ([], cursor)"
| "scan_chunks src scope_end allow cursor (chunk # chunks) =
     (case (in_start chunk, in_end chunk) of
        (Some s, Some e) \<Rightarrow>
          if s < cursor \<or> e < s \<or> scope_end < e then Inl Not_monotonic
          else if slice src s e \<noteq> in_text chunk \<and> \<not> allow then Inl Slice_differs
          else bind_result (scan_chunks src scope_end allow e chunks) (\<lambda>(pieces, final).
            Inr (\<lparr>gap_before = slice src cursor s,
                  source_text = (if slice src s e \<noteq> in_text chunk then Some (slice src s e) else None),
                  suffix_after = None\<rparr> # pieces, final))
      | _ \<Rightarrow> Inl No_coordinates)"

definition build_exact_pieces ::
  "string \<Rightarrow> exact_input list \<Rightarrow> int \<Rightarrow> int option \<Rightarrow> bool \<Rightarrow> (exact_error, exact_piece list) result" where
  "build_exact_pieces src chunks scope_start scope_arg allow =
     (let scope_end = (case scope_arg of None \<Rightarrow> int (length src) | Some e \<Rightarrow> e) in
      if scope_start < 0 \<or> scope_end < scope_start \<or> int (length src) < scope_end then Inl Scope_outside
      else bind_result (scan_chunks src scope_end allow scope_start chunks) (\<lambda>(pieces, cursor).
        if pieces = [] then Inl No_chunks
        else Inr (butlast pieces @ [(last pieces)\<lparr>suffix_after := Some (slice src cursor scope_end)\<rparr>])))"

section \<open>Metadata\<close>

definition exact_key :: string where
  "exact_key = ''doc_store_exact_reconstruction''"

definition exact_version :: int where
  "exact_version = 1"

definition metadata_for_piece :: "exact_piece \<Rightarrow> json_dict" where
  "metadata_for_piece p =
     [(''version'', J_int exact_version), (''gap_before'', J_str (gap_before p))] @
     (case source_text p of None \<Rightarrow> [] | Some t \<Rightarrow> [(''source_text'', J_str t)]) @
     (case suffix_after p of None \<Rightarrow> [] | Some t \<Rightarrow> [(''suffix_after'', J_str t)])"

definition merge_piece_metadata :: "json_dict \<Rightarrow> exact_piece \<Rightarrow> json_dict" where
  "merge_piece_metadata meta p = dict_set meta exact_key (J_object (metadata_for_piece p))"

text \<open>\<open>value.get("version") != 1\<close>: \<open>True == 1\<close> in Python.\<close>

definition optional_string :: "exact_error \<Rightarrow> json \<Rightarrow> (exact_error, string option) result" where
  "optional_string e v = (case v of J_null \<Rightarrow> Inr None | J_str t \<Rightarrow> Inr (Some t) | _ \<Rightarrow> Inl e)"

fun parse_piece :: "json \<Rightarrow> (exact_error, exact_piece) result" where
  "parse_piece (J_object d) =
     (if json_get d ''version'' \<noteq> J_int exact_version \<and> json_get d ''version'' \<noteq> J_bool True
      then Inl Unsupported_version
      else (case json_get d ''gap_before'' of
          J_str gap \<Rightarrow>
            bind_result (optional_string Suffix_no_string (json_get d ''suffix_after'')) (\<lambda>suffix.
            bind_result (optional_string Source_no_string (json_get d ''source_text'')) (\<lambda>src.
              Inr \<lparr>gap_before = gap, source_text = src, suffix_after = suffix\<rparr>))
        | _ \<Rightarrow> Inl Gap_no_string))"
| "parse_piece _ = Inl Not_an_object"

fun select_from ::
  "exact_piece option \<Rightarrow> json_dict list \<Rightarrow> (exact_error, exact_piece option) result" where
  "select_from selected [] = Inr selected"
| "select_from selected (meta # metas) =
     (case map_of meta exact_key of
        None \<Rightarrow> select_from selected metas
      | Some v \<Rightarrow> bind_result (parse_piece v) (\<lambda>p.
          if selected \<noteq> None \<and> selected \<noteq> Some p then Inl Conflicting_metadata
          else select_from (Some p) metas))"

definition select_exact_piece :: "json_dict \<Rightarrow> json_dict \<Rightarrow> (exact_error, exact_piece option) result" where
  "select_exact_piece chunk_meta text_meta = select_from None [chunk_meta, text_meta]"

section \<open>Slices\<close>

lemma slice_empty [simp]: "slice s a a = []"
  by (simp add: slice_def)

lemma slice_append:
  assumes "0 \<le> a" "a \<le> b" "b \<le> c"
  shows "slice s a b @ slice s b c = slice s a c"
proof -
  have "drop (nat b) s = drop (nat (b - a)) (drop (nat a) s)"
    using assms by (simp add: nat_diff_distrib)
  moreover have "nat (c - a) = nat (b - a) + nat (c - b)" using assms by simp
  ultimately show ?thesis by (simp add: slice_def take_add)
qed

lemma slice_all: "slice s 0 (int (length s)) = s"
  by (simp add: slice_def)

lemma length_slice: "0 \<le> a \<Longrightarrow> a \<le> b \<Longrightarrow> b \<le> int (length s) \<Longrightarrow> length (slice s a b) = nat (b - a)"
  by (simp add: slice_def min_absorb2)

lemma slice_append_left: "0 \<le> a \<Longrightarrow> b \<le> int (length s) \<Longrightarrow> slice (s @ t) a b = slice s a b"
  by (cases "a \<le> b") (auto simp: slice_def)

lemma slice_append_right:
  assumes "int (length s) \<le> a"
  shows "slice (s @ t) a b = slice t (a - int (length s)) (b - int (length s))"
proof -
  have "nat (a - int (length s)) = nat a - length s" by simp
  moreover have "b - int (length s) - (a - int (length s)) = b - a" by simp
  ultimately show ?thesis using assms by (simp add: slice_def)
qed

section \<open>What the pieces are worth\<close>

text \<open>A chunk whose range lies between two positions of the source, as a list of such.\<close>

fun in_order :: "int \<Rightarrow> int \<Rightarrow> exact_input list \<Rightarrow> bool" where
  "in_order cursor final [] \<longleftrightarrow> cursor \<le> final"
| "in_order cursor final (chunk # chunks) \<longleftrightarrow>
     (\<exists>s e. in_start chunk = Some s \<and> in_end chunk = Some e \<and> cursor \<le> s \<and> s \<le> e \<and> in_order e final chunks)"

text \<open>The text a piece contributes where the stored text of its chunk is \<open>stored\<close>.\<close>

definition piece_text :: "exact_piece \<Rightarrow> string \<Rightarrow> string" where
  "piece_text p stored = gap_before p @ (case source_text p of None \<Rightarrow> stored | Some t \<Rightarrow> t)"

definition piece_suffix :: "exact_piece \<Rightarrow> string" where
  "piece_suffix p = (case suffix_after p of None \<Rightarrow> [] | Some t \<Rightarrow> t)"

lemma in_order_le: "in_order a b cs \<Longrightarrow> a \<le> b"
  by (induction cs arbitrary: a) fastforce+

lemma scan_chunks_total:
  assumes "in_order cursor scope_end chunks"
  shows "\<exists>r. scan_chunks src scope_end True cursor chunks = Inr r"
  using assms
proof (induction chunks arbitrary: cursor)
  case (Cons c cs)
  then obtain s e where r: "in_start c = Some s" "in_end c = Some e" "cursor \<le> s" "s \<le> e" "in_order e scope_end cs"
    by auto
  from Cons.IH [OF r(5)] in_order_le [OF r(5)] r(1-4) show ?case by auto
qed simp

lemma scan_chunks_text:
  assumes "scan_chunks src scope_end allow cursor chunks = Inr (pieces, final)" "0 \<le> cursor"
  shows "length pieces = length chunks \<and> cursor \<le> final \<and> (chunks \<noteq> [] \<longrightarrow> final \<le> scope_end) \<and>
    concat (map2 piece_text pieces (map in_text chunks)) = slice src cursor final \<and>
    (\<forall>p\<in>set pieces. suffix_after p = None)"
  using assms
proof (induction chunks arbitrary: cursor pieces)
  case (Cons c cs)
  from Cons.prems(1) obtain s e rest where r: "in_start c = Some s" "in_end c = Some e"
      "cursor \<le> s" "s \<le> e" "e \<le> scope_end" "scan_chunks src scope_end allow e cs = Inr (rest, final)"
    and p: "pieces = \<lparr>gap_before = slice src cursor s,
      source_text = (if slice src s e \<noteq> in_text c then Some (slice src s e) else None),
      suffix_after = None\<rparr> # rest"
    by (auto split: option.splits if_splits)
  from r Cons.prems(2) have e: "0 \<le> e" by simp
  note ih = Cons.IH [OF r(6) e]
  have "concat (map2 piece_text pieces (map in_text (c # cs))) =
      (slice src cursor s @ slice src s e) @ slice src e final"
    using ih by (auto simp: p piece_text_def)
  also have "\<dots> = slice src cursor final"
    using slice_append [of cursor s e src] slice_append [of cursor e final src] ih r Cons.prems(2) by simp
  finally show ?case using ih r by (simp add: p) (cases cs; simp)
qed simp

lemma parse_metadata [simp]: "parse_piece (J_object (metadata_for_piece p)) = Inr p"
  by (cases p) (simp add: parse_piece.simps metadata_for_piece_def json_get_def optional_string_def
    split: option.splits)

declare parse_piece.simps [simp del]

lemma select_merged:
  assumes "map_of chunk_meta exact_key = None"
  shows "select_exact_piece chunk_meta (merge_piece_metadata meta p) = Inr (Some p)"
  using assms by (simp add: select_exact_piece_def merge_piece_metadata_def)

lemma select_none:
  assumes "map_of chunk_meta exact_key = None" "map_of text_meta exact_key = None"
  shows "select_exact_piece chunk_meta text_meta = Inr None"
  using assms by (simp add: select_exact_piece_def)

text \<open>Built pieces read as the scope of the source, and only the last one carries a suffix.\<close>

lemma build_exact_pieces_text:
  assumes "build_exact_pieces src chunks scope_start scope_arg allow = Inr pieces"
  defines "scope_end \<equiv> case scope_arg of None \<Rightarrow> int (length src) | Some e \<Rightarrow> e"
  shows "length pieces = length chunks \<and> pieces \<noteq> [] \<and>
    concat (map2 piece_text pieces (map in_text chunks)) @ piece_suffix (last pieces) =
      slice src scope_start scope_end \<and>
    (\<forall>p\<in>set (butlast pieces). suffix_after p = None) \<and> suffix_after (last pieces) \<noteq> None"
proof -
  from assms obtain raw cursor where scope: "0 \<le> scope_start" "scope_start \<le> scope_end"
    and scan: "scan_chunks src scope_end allow scope_start chunks = Inr (raw, cursor)"
    and raw: "raw \<noteq> []"
    and p: "pieces = butlast raw @ [(last raw)\<lparr>suffix_after := Some (slice src cursor scope_end)\<rparr>]"
    by (auto simp: build_exact_pieces_def Let_def split: if_splits)
  note t = scan_chunks_text [OF scan scope(1)]
  obtain init z where r: "raw = init @ [z]" using raw by (cases raw rule: rev_cases) auto
  from t have len: "length raw = length chunks" by simp
  then obtain cs c where c: "chunks = cs @ [c]" "length cs = length init"
    unfolding r by (cases chunks rule: rev_cases) auto
  have same: "piece_text (z\<lparr>suffix_after := x\<rparr>) = piece_text z" for x
    by (simp add: piece_text_def fun_eq_iff)
  have "concat (map2 piece_text pieces (map in_text chunks)) =
      concat (map2 piece_text raw (map in_text chunks))"
    unfolding p r c(1) using c(2) by (simp add: same)
  then have "concat (map2 piece_text pieces (map in_text chunks)) = slice src scope_start cursor"
    using t by simp
  moreover have "slice src scope_start cursor @ slice src cursor scope_end = slice src scope_start scope_end"
  proof -
    have "chunks \<noteq> []" using c by simp
    with t scope show ?thesis by (intro slice_append) auto
  qed
  ultimately show ?thesis using t len unfolding p r by (auto simp: piece_suffix_def)
qed

end
