(* ===== verification/Text_Reconstruction.thy ===== *)
theory Text_Reconstruction
  imports Exact_Reconstruction "HOL-Library.List_Lexorder" "HOL-Library.Char_ord"
begin

text \<open>
  Putting the text of a chapter or of a source file together from the current chunks
  (\<open>runtime/text_reconstruction.py\<close>), and the reconstruction the ingestion measures its round trip
  with (\<open>_reconstructed_scope_text\<close> of \<open>ingestion/runtime_boundary.py\<close>). Both work on the rows the
  service selects, here the list of rows in the order of the query.
\<close>

section \<open>Rows\<close>

record chunk_text_row =
  r_chunk :: string
  r_paragraph :: string
  r_chapter :: string
  r_document :: string
  r_order :: int
  r_paragraph_order :: int
  r_text :: string
  r_source_start :: "int option"
  r_source_end :: "int option"
  r_source_name :: "string option"
  r_source_path :: "string option"
  r_file :: "string option"
  r_chunk_meta :: json_dict
  r_text_meta :: json_dict

definition row_piece :: "chunk_text_row \<Rightarrow> (exact_error, exact_piece option) result" where
  "row_piece r = select_exact_piece (r_chunk_meta r) (r_text_meta r)"

section \<open>Selecting the exact pieces\<close>

text \<open>
  \<open>_select_exact_pieces\<close>: the dictionary of the pieces by chunk with the two counters, then the
  consistency checks, the last of which is a loop over all rows but the final one.
\<close>

fun collect_pieces ::
  "(string \<times> exact_piece) list \<Rightarrow> nat \<Rightarrow> nat \<Rightarrow> chunk_text_row list
    \<Rightarrow> (exact_error, (string \<times> exact_piece) list \<times> nat \<times> nat) result" where
  "collect_pieces pieces legacy suffixes [] = Inr (pieces, legacy, suffixes)"
| "collect_pieces pieces legacy suffixes (r # rs) =
     bind_result (row_piece r) (\<lambda>found. case found of
         None \<Rightarrow> collect_pieces pieces (Suc legacy) suffixes rs
       | Some p \<Rightarrow> collect_pieces (dict_set pieces (r_chunk r) p) legacy
           (if suffix_after p \<noteq> None then Suc suffixes else suffixes) rs)"

definition has_suffix :: "(string \<times> exact_piece) list \<Rightarrow> chunk_text_row \<Rightarrow> bool" where
  "has_suffix pieces r =
     (case map_of pieces (r_chunk r) of None \<Rightarrow> False | Some p \<Rightarrow> suffix_after p \<noteq> None)"

definition select_exact_pieces ::
  "chunk_text_row list \<Rightarrow> (exact_error, (string \<times> exact_piece) list) result" where
  "select_exact_pieces rows =
     bind_result (collect_pieces [] 0 0 rows) (\<lambda>(pieces, legacy, suffixes).
       if pieces \<noteq> [] \<and> legacy \<noteq> 0 then Inl Mixed_metadata
       else if pieces \<noteq> [] \<and> length pieces \<noteq> length rows then Inl Missing_metadata
       else if pieces \<noteq> [] \<and> suffixes \<noteq> 1 then Inl Suffix_count
       else if pieces \<noteq> [] \<and> map_of pieces (r_chunk (last rows)) = None then Inl Missing_metadata
       else if pieces \<noteq> [] \<and> \<not> has_suffix pieces (last rows) then Inl Suffix_misplaced
       else if list_ex (has_suffix pieces) (butlast rows) then Inl Suffix_misplaced
       else Inr pieces)"

section \<open>Assembling\<close>

definition legacy_separator :: "string option \<Rightarrow> string \<Rightarrow> string" where
  "legacy_separator previous paragraph = (case previous of
       None \<Rightarrow> []
     | Some p \<Rightarrow> if paragraph = p then '' '' else [char_of (10::nat), char_of (10::nat)])"

definition row_separator ::
  "(string \<times> exact_piece) list \<Rightarrow> string option \<Rightarrow> chunk_text_row \<Rightarrow> string" where
  "row_separator pieces previous r = (case map_of pieces (r_chunk r) of
       Some p \<Rightarrow> gap_before p
     | None \<Rightarrow> legacy_separator previous (r_paragraph r))"

definition row_body :: "(string \<times> exact_piece) list \<Rightarrow> chunk_text_row \<Rightarrow> string" where
  "row_body pieces r = (case map_of pieces (r_chunk r) of
       Some p \<Rightarrow> (case source_text p of Some t \<Rightarrow> t | None \<Rightarrow> r_text r)
     | None \<Rightarrow> r_text r)"

record range_entry =
  g_chunk :: string
  g_paragraph :: string
  g_chapter :: string
  g_document :: string
  g_file :: "string option"
  g_order :: int
  g_paragraph_order :: int
  g_text_start :: int
  g_text_end :: int
  g_source_start :: "int option"
  g_source_end :: "int option"
  g_preview :: string

definition range_of :: "int \<Rightarrow> chunk_text_row \<Rightarrow> string \<Rightarrow> int \<Rightarrow> int \<Rightarrow> range_entry" where
  "range_of limit r body s e =
     \<lparr>g_chunk = r_chunk r, g_paragraph = r_paragraph r, g_chapter = r_chapter r,
      g_document = r_document r, g_file = r_file r, g_order = r_order r,
      g_paragraph_order = r_paragraph_order r, g_text_start = s, g_text_end = e,
      g_source_start = r_source_start r, g_source_end = r_source_end r,
      g_preview = chunk_preview limit body\<rparr>"

text \<open>
  The loop of \<open>_assemble\<close>: the emitted pieces, the range map, the cursor and the flag; \<open>cap\<close> is
  \<open>max_chars\<close>, where 0 means no bound. A row that does not fit ends the loop.
\<close>

type_synonym emission = "string list \<times> range_entry list \<times> int \<times> bool"

definition emit_row ::
  "int \<Rightarrow> int \<Rightarrow> (string \<times> exact_piece) list \<Rightarrow> int \<Rightarrow> string option \<Rightarrow> chunk_text_row
    \<Rightarrow> string \<times> range_entry list \<times> bool" where
  "emit_row limit cap pieces cursor previous r =
     (let separator = row_separator pieces previous r; body = row_body pieces r;
          candidate = separator @ body;
          emitted = (if cap \<noteq> 0 then take (nat (cap - cursor)) candidate else candidate);
          from = cursor + int (min (length separator) (length emitted));
          n = length emitted - length separator
      in (emitted, (if n \<noteq> 0 then [range_of limit r body from (from + int n)] else []),
          length emitted < length candidate))"

fun emit_rows ::
  "int \<Rightarrow> int \<Rightarrow> (string \<times> exact_piece) list \<Rightarrow> int \<Rightarrow> string option \<Rightarrow> chunk_text_row list \<Rightarrow> emission" where
  "emit_rows limit cap pieces cursor previous [] = ([], [], cursor, False)"
| "emit_rows limit cap pieces cursor previous (r # rs) =
     (if cap \<noteq> 0 \<and> cap - cursor \<le> 0 then ([], [], cursor, True)
      else (case emit_row limit cap pieces cursor previous r of (emitted, entry, short) \<Rightarrow>
        if short then ([emitted], entry, cursor + int (length emitted), True)
        else (case emit_rows limit cap pieces (cursor + int (length emitted)) (Some (r_paragraph r)) rs of
            (out, ranges, final, truncated) \<Rightarrow> (emitted # out, entry @ ranges, final, truncated))))"

definition emit_suffix :: "int \<Rightarrow> string \<Rightarrow> emission \<Rightarrow> emission" where
  "emit_suffix cap suffix em =
     (case em of (out, ranges, cursor, truncated) \<Rightarrow>
        if truncated then em
        else if cap \<noteq> 0 \<and> cap - cursor \<le> 0 then (out, ranges, cursor, suffix \<noteq> [])
        else let emitted = (if cap \<noteq> 0 then take (nat (cap - cursor)) suffix else suffix) in
          (out @ [emitted], ranges, cursor + int (length emitted), length emitted < length suffix))"

definition final_suffix :: "(string \<times> exact_piece) list \<Rightarrow> chunk_text_row list \<Rightarrow> string" where
  "final_suffix pieces rows =
     (case map_of pieces (r_chunk (last rows)) of
        None \<Rightarrow> [] | Some p \<Rightarrow> (case suffix_after p of None \<Rightarrow> [] | Some t \<Rightarrow> t))"

record assembled =
  a_entity :: string
  a_text :: string
  a_preview :: string
  a_sha :: string
  a_char_count :: int
  a_chunk_count :: nat
  a_paragraph_count :: nat
  a_document_ids :: "string list"
  a_chapter_ids :: "string list"
  a_source_names :: "string list"
  a_source_paths :: "string list"
  a_ranges :: "range_entry list"
  a_truncated :: bool
  a_max_chars :: int

text \<open>\<open>sorted({x for x in column if x})\<close>\<close>

definition sorted_values :: "string option list \<Rightarrow> string list" where
  "sorted_values column =
     sort (dict_fromkeys (filter (\<lambda>v. v \<noteq> []) (List.map_filter id column)))"

datatype assembly_error = Negative_bound | Metadata exact_error

definition assemble ::
  "(string \<Rightarrow> string) \<Rightarrow> int \<Rightarrow> string \<Rightarrow> int \<Rightarrow> chunk_text_row list \<Rightarrow> (assembly_error, assembled) result" where
  "assemble sha limit entity max_chars rows =
     (if max_chars < 0 then Inl Negative_bound
      else case select_exact_pieces rows of
        Inl e \<Rightarrow> Inl (Metadata e)
      | Inr pieces \<Rightarrow>
          (let body_rows = emit_rows limit max_chars pieces 0 None rows;
               em = (if pieces \<noteq> [] then emit_suffix max_chars (final_suffix pieces rows) body_rows
                     else body_rows)
           in case em of (out, ranges, _, truncated) \<Rightarrow>
             (let body = concat out in
              Inr \<lparr>a_entity = entity, a_text = body, a_preview = chunk_preview limit body,
                a_sha = sha body, a_char_count = int (length body), a_chunk_count = length ranges,
                a_paragraph_count = length (dict_fromkeys (map g_paragraph ranges)),
                a_document_ids = sort (dict_fromkeys (map r_document rows)),
                a_chapter_ids = sort (dict_fromkeys (map r_chapter rows)),
                a_source_names = sorted_values (map r_source_name rows),
                a_source_paths = sorted_values (map r_source_path rows),
                a_ranges = ranges, a_truncated = truncated, a_max_chars = max_chars\<rparr>)))"

section \<open>The reconstruction of the ingestion\<close>

text \<open>
  \<open>_reconstructed_scope_text\<close> keeps its own copy of the selection and of the separators.
\<close>

fun scope_pieces ::
  "(string \<times> exact_piece) list \<Rightarrow> string option \<Rightarrow> chunk_text_row list \<Rightarrow> string list" where
  "scope_pieces exact previous [] = []"
| "scope_pieces exact previous (r # rs) =
     (case map_of exact (r_chunk r) of
        Some p \<Rightarrow> gap_before p @ (case source_text p of Some t \<Rightarrow> t | None \<Rightarrow> r_text r)
      | None \<Rightarrow> (case previous of
            None \<Rightarrow> r_text r
          | Some q \<Rightarrow> if r_paragraph r = q then '' '' @ r_text r
                      else [char_of (10::nat), char_of (10::nat)] @ r_text r)) #
     scope_pieces exact (Some (r_paragraph r)) rs"

definition reconstructed_scope_text :: "chunk_text_row list \<Rightarrow> (exact_error, string) result" where
  "reconstructed_scope_text rows =
     bind_result (collect_pieces [] 0 0 rows) (\<lambda>(exact, legacy, suffixes).
       if exact \<noteq> [] \<and> legacy \<noteq> 0 then Inl Mixed_metadata
       else if exact \<noteq> [] \<and> length exact \<noteq> length rows then Inl Missing_metadata
       else if exact \<noteq> [] \<and> suffixes \<noteq> 1 then Inl Suffix_count
       else if exact \<noteq> [] \<and> \<not> has_suffix exact (last rows) then Inl Suffix_misplaced
       else Inr (concat (scope_pieces exact None rows) @
         (if exact \<noteq> [] then final_suffix exact rows else [])))"

section \<open>The selected pieces\<close>

lemma dict_set_fresh: "k \<notin> fst ` set d \<Longrightarrow> dict_set d k v = d @ [(k, v)]"
  by (induction d) auto

lemma length_dict_set: "length (dict_set d k v) = (if k \<in> fst ` set d then length d else Suc (length d))"
proof -
  have "length (map fst (dict_set d k v)) = (if k \<in> fst ` set d then length d else Suc (length d))"
    by (simp only: keys_dict_set) simp
  then show ?thesis by simp
qed

lemma collect_pieces_length:
  "collect_pieces d l n rows = Inr (d', l', n') \<Longrightarrow> length d' \<le> length d + length rows"
proof (induction rows arbitrary: d l n)
  case (Cons r rs)
  then obtain found where f: "row_piece r = Inr found" by auto
  show ?case
  proof (cases found)
    case None
    with Cons.prems f have "collect_pieces d (Suc l) n rs = Inr (d', l', n')" by simp
    from Cons.IH [OF this] show ?thesis by simp
  next
    case (Some p)
    with Cons.prems f obtain m where "collect_pieces (dict_set d (r_chunk r) p) l m rs = Inr (d', l', n')" by auto
    from Cons.IH [OF this] show ?thesis by (simp add: length_dict_set split: if_splits)
  qed
qed simp

text \<open>
  A dictionary with as many entries as there are rows holds the piece of every row, and the chunks
  of the rows are distinct.
\<close>

definition pieces_of :: "chunk_text_row list \<Rightarrow> exact_piece list \<Rightarrow> bool" where
  "pieces_of rows ps \<longleftrightarrow>
     list_all2 (\<lambda>r p. row_piece r = Inr (Some p)) rows ps \<and> distinct (map r_chunk rows)"

definition suffix_count :: "exact_piece list \<Rightarrow> nat" where
  "suffix_count ps = length (filter (\<lambda>p. suffix_after p \<noteq> None) ps)"

lemma collect_pieces_full:
  assumes "collect_pieces d l n rows = Inr (d', l', n')" "length d' = length d + length rows"
  shows "\<exists>ps. pieces_of rows ps \<and> r_chunk ` set rows \<inter> fst ` set d = {} \<and>
    d' = d @ zip (map r_chunk rows) ps \<and> l' = l \<and> n' = n + suffix_count ps"
  using assms
proof (induction rows arbitrary: d l n)
  case Nil
  then show ?case by (simp add: pieces_of_def suffix_count_def)
next
  case (Cons r rs)
  then obtain found where f: "row_piece r = Inr found" by auto
  show ?case
  proof (cases found)
    case None
    with Cons.prems f have "collect_pieces d (Suc l) n rs = Inr (d', l', n')" by simp
    from collect_pieces_length [OF this] Cons.prems(2) show ?thesis by simp
  next
    case (Some p)
    define m where "m = (if suffix_after p \<noteq> None then Suc n else n)"
    with Cons.prems f Some have step: "collect_pieces (dict_set d (r_chunk r) p) l m rs = Inr (d', l', n')" by simp
    from collect_pieces_length [OF step] Cons.prems(2) have fresh: "r_chunk r \<notin> fst ` set d"
      by (simp add: length_dict_set split: if_splits)
    note d1 = dict_set_fresh [OF fresh, of p]
    from Cons.IH [OF step] Cons.prems(2) obtain ps where ps: "pieces_of rs ps"
      "r_chunk ` set rs \<inter> fst ` set (dict_set d (r_chunk r) p) = {}"
      "d' = dict_set d (r_chunk r) p @ zip (map r_chunk rs) ps" "l' = l" "n' = m + suffix_count ps"
      by (auto simp: d1)
    have "pieces_of (r # rs) (p # ps)" using ps(1,2) f Some by (auto simp: pieces_of_def d1)
    moreover have "n' = n + suffix_count (p # ps)" using ps(5) by (simp add: m_def suffix_count_def)
    ultimately show ?thesis using ps(2,3,4) fresh by (intro exI [of _ "p # ps"]) (auto simp: d1)
  qed
qed

lemma collect_pieces_zip:
  assumes "pieces_of rows ps" "r_chunk ` set rows \<inter> fst ` set d = {}"
  shows "collect_pieces d l n rows = Inr (d @ zip (map r_chunk rows) ps, l, n + suffix_count ps)"
  using assms
proof (induction rows arbitrary: ps d l n)
  case Nil
  then show ?case by (simp add: pieces_of_def suffix_count_def)
next
  case (Cons r rs)
  then obtain p qs where ps: "ps = p # qs" "row_piece r = Inr (Some p)" "pieces_of rs qs"
    by (auto simp: pieces_of_def list_all2_Cons1)
  have fresh: "r_chunk r \<notin> fst ` set d" using Cons.prems(2) by auto
  have "r_chunk ` set rs \<inter> fst ` set (d @ [(r_chunk r, p)]) = {}"
    using Cons.prems by (auto simp: pieces_of_def)
  from Cons.IH [OF ps(3) this] show ?case
    by (simp add: ps dict_set_fresh [OF fresh] suffix_count_def)
qed

lemma pieces_of_lookup:
  assumes "pieces_of rows ps" "i < length rows"
  shows "map_of (zip (map r_chunk rows) ps) (r_chunk (rows ! i)) = Some (ps ! i)"
proof -
  from assms have "length ps = length rows" by (auto simp: pieces_of_def dest: list_all2_lengthD)
  moreover from this assms have "(r_chunk (rows ! i), ps ! i) \<in> set (zip (map r_chunk rows) ps)"
    by (simp add: set_zip) (intro exI [of _ i], simp)
  ultimately show ?thesis using assms by (intro map_of_is_SomeI) (auto simp: pieces_of_def)
qed

lemma pieces_of_has_suffix:
  assumes "pieces_of rows ps"
  shows "map (has_suffix (zip (map r_chunk rows) ps)) rows = map (\<lambda>p. suffix_after p \<noteq> None) ps"
proof (rule nth_equalityI)
  show l: "length (map (has_suffix (zip (map r_chunk rows) ps)) rows) = length (map (\<lambda>p. suffix_after p \<noteq> None) ps)"
    using assms by (auto simp: pieces_of_def dest: list_all2_lengthD)
  fix i assume "i < length (map (has_suffix (zip (map r_chunk rows) ps)) rows)"
  with l pieces_of_lookup [OF assms, of i]
  show "map (has_suffix (zip (map r_chunk rows) ps)) rows ! i = map (\<lambda>p. suffix_after p \<noteq> None) ps ! i"
    by (simp add: has_suffix_def)
qed

lemma scope_pieces_Cons:
  "scope_pieces exact prev (r # rs) =
     (row_separator exact prev r @ row_body exact r) # scope_pieces exact (Some (r_paragraph r)) rs"
  by (simp add: row_separator_def row_body_def legacy_separator_def split: option.split)

lemma scope_pieces_exact:
  assumes "list_all2 (\<lambda>r p. map_of exact (r_chunk r) = Some p) rows ps"
  shows "scope_pieces exact prev rows = map2 piece_text ps (map r_text rows)"
  using assms
proof (induction rows arbitrary: prev ps)
  case (Cons r rs)
  then obtain p qs where "ps = p # qs" "map_of exact (r_chunk r) = Some p"
    "list_all2 (\<lambda>r p. map_of exact (r_chunk r) = Some p) rs qs"
    by (auto simp: list_all2_Cons1)
  with Cons.IH show ?case by (simp add: piece_text_def)
qed simp

text \<open>One suffix, on the last row.\<close>

definition one_suffix :: "exact_piece list \<Rightarrow> bool" where
  "one_suffix ps \<longleftrightarrow> ps \<noteq> [] \<and> suffix_after (last ps) \<noteq> None \<and> (\<forall>p\<in>set (butlast ps). suffix_after p = None)"

lemma one_suffix_iff:
  "ps \<noteq> [] \<Longrightarrow> one_suffix ps \<longleftrightarrow> suffix_count ps = 1 \<and> suffix_after (last ps) \<noteq> None"
  by (cases ps rule: rev_cases) (auto simp: one_suffix_def suffix_count_def filter_empty_conv)

lemma scope_text_of_pieces:
  assumes "pieces_of rows ps" "one_suffix ps"
  shows "reconstructed_scope_text rows =
    Inr (concat (map2 piece_text ps (map r_text rows)) @ piece_suffix (last ps))"
proof -
  let ?d = "zip (map r_chunk rows) ps"
  from assms have ne: "ps \<noteq> []" and len: "length ps = length rows"
    by (auto simp: one_suffix_def pieces_of_def dest: list_all2_lengthD)
  then have rows: "rows \<noteq> []" and d: "?d \<noteq> []" and ld: "length ?d = length rows" by (auto simp: zip_eq_Nil_iff)
  have last: "map_of ?d (r_chunk (last rows)) = Some (last ps)"
    using pieces_of_lookup [OF assms(1), of "length rows - 1"] rows ne len by (simp add: last_conv_nth)
  have "list_all2 (\<lambda>r p. map_of ?d (r_chunk r) = Some p) rows ps"
    using len pieces_of_lookup [OF assms(1)] by (simp add: list_all2_conv_all_nth)
  note sp = scope_pieces_exact [OF this, of None]
  show ?thesis
    using collect_pieces_zip [OF assms(1), of "[]" 0 0] assms(2) one_suffix_iff [OF ne] d ld last
    by (simp add: reconstructed_scope_text_def has_suffix_def sp final_suffix_def piece_suffix_def)
qed

text \<open>The two selections agree on every list of rows, errors included.\<close>

lemma list_ex_butlast_map: "list_ex P (butlast xs) \<longleftrightarrow> True \<in> set (butlast (map P xs))"
  by (auto simp: list_ex_iff map_butlast [symmetric])

lemma scope_text_selects:
  "reconstructed_scope_text rows = bind_result (select_exact_pieces rows) (\<lambda>exact.
     Inr (concat (scope_pieces exact None rows) @ (if exact \<noteq> [] then final_suffix exact rows else [])))"
proof (cases "collect_pieces [] 0 0 rows")
  case (Inr x)
  obtain d l n where x: "x = (d, l, n)" by (cases x)
  show ?thesis
  proof (cases "d \<noteq> [] \<and> l = 0 \<and> length d = length rows \<and> n = 1")
    case False
    have "\<not> list_ex (has_suffix []) (butlast rows)" by (simp add: has_suffix_def list_ex_iff)
    with False show ?thesis
      by (auto simp: reconstructed_scope_text_def select_exact_pieces_def Inr x)
  next
    case True
    from collect_pieces_full [OF Inr [unfolded x]] True obtain ps where ps: "pieces_of rows ps"
      "d = zip (map r_chunk rows) ps" "suffix_count ps = 1" by auto
    from True have rows: "rows \<noteq> []" and len: "length ps = length rows"
      using ps by (auto simp: pieces_of_def dest: list_all2_lengthD)
    then have ne: "ps \<noteq> []" by auto
    have last: "map_of d (r_chunk (last rows)) = Some (last ps)"
      using pieces_of_lookup [OF ps(1), of "length rows - 1"] rows ne len
      by (simp add: last_conv_nth ps(2))
    have "list_ex (has_suffix d) (butlast rows) \<longleftrightarrow> True \<in> set (butlast (map (\<lambda>p. suffix_after p \<noteq> None) ps))"
      by (simp only: list_ex_butlast_map ps(2) pieces_of_has_suffix [OF ps(1)])
    also have "\<dots> \<longleftrightarrow> (\<exists>p\<in>set (butlast ps). suffix_after p \<noteq> None)"
      by (auto simp: map_butlast [symmetric])
    finally have early: "list_ex (has_suffix d) (butlast rows) \<longleftrightarrow> (\<exists>p\<in>set (butlast ps). suffix_after p \<noteq> None)" .
    have "\<not> list_ex (has_suffix d) (butlast rows)" if "has_suffix d (last rows)"
      using that one_suffix_iff [OF ne] ps(3) last by (simp add: early one_suffix_def has_suffix_def)
    with True last show ?thesis
      by (auto simp: reconstructed_scope_text_def select_exact_pieces_def Inr x)
  qed
qed (simp add: reconstructed_scope_text_def select_exact_pieces_def)

section \<open>What the loop emits\<close>

lemma emit_row_prefix:
  assumes "emit_row limit cap pieces cursor prev r = (emitted, entry, short)"
  shows "\<exists>k. emitted = take k (row_separator pieces prev r @ row_body pieces r)"
    "short \<longleftrightarrow> length emitted < length (row_separator pieces prev r @ row_body pieces r)"
    "entry = (let n = length emitted - length (row_separator pieces prev r);
                  from = cursor + int (min (length (row_separator pieces prev r)) (length emitted))
              in if n \<noteq> 0 then [range_of limit r (row_body pieces r) from (from + int n)] else [])"
proof -
  let ?c = "row_separator pieces prev r @ row_body pieces r"
  define E where "E = (if cap \<noteq> 0 then take (nat (cap - cursor)) ?c else ?c)"
  define F where "F e = (let n = length e - length (row_separator pieces prev r);
      from = cursor + int (min (length (row_separator pieces prev r)) (length e))
    in if n \<noteq> 0 then [range_of limit r (row_body pieces r) from (from + int n)] else [])" for e :: string
  have "emit_row limit cap pieces cursor prev r = (E, F E, length E < length ?c)"
    by (simp only: emit_row_def Let_def E_def F_def)
  with assms have eqs: "emitted = E" "entry = F E" "short \<longleftrightarrow> length E < length ?c" by auto
  have "E = take (if cap \<noteq> 0 then nat (cap - cursor) else length ?c) ?c"
    by (simp add: E_def del: take_append)
  then show "\<exists>k. emitted = take k ?c" unfolding eqs(1) ..
  show "short \<longleftrightarrow> length emitted < length ?c" using eqs by simp
  show "entry = (let n = length emitted - length (row_separator pieces prev r);
      from = cursor + int (min (length (row_separator pieces prev r)) (length emitted))
    in if n \<noteq> 0 then [range_of limit r (row_body pieces r) from (from + int n)] else [])"
    using eqs by (simp only: F_def)
qed

lemma emit_rows_uncapped:
  "\<exists>ranges. emit_rows limit 0 pieces cursor prev rows =
     (scope_pieces pieces prev rows, ranges,
      cursor + int (length (concat (scope_pieces pieces prev rows))), False)"
proof (induction rows arbitrary: cursor prev)
  case (Cons r rs)
  let ?c = "row_separator pieces prev r @ row_body pieces r"
  from Cons.IH [of "cursor + int (length ?c)" "Some (r_paragraph r)"] obtain ranges where
    "emit_rows limit 0 pieces (cursor + int (length ?c)) (Some (r_paragraph r)) rs =
      (scope_pieces pieces (Some (r_paragraph r)) rs, ranges, cursor + int (length ?c) +
        int (length (concat (scope_pieces pieces (Some (r_paragraph r)) rs))), False)" by blast
  then show ?case
    by (simp add: emit_row_def Let_def scope_pieces_Cons algebra_simps del: scope_pieces.simps(2))
qed simp

lemma short_take: "length (take k c) < length c \<Longrightarrow> length (take k c) = k \<and> k < length c"
  by auto

lemma emit_rows_capped:
  assumes "emit_rows limit cap pieces cursor prev rows = (out, ranges, final, truncated)"
    and "0 < cap" "cursor \<le> cap"
  shows "concat out = take (nat (cap - cursor)) (concat (scope_pieces pieces prev rows)) \<and>
    final = cursor + int (length (concat out)) \<and> (truncated \<longrightarrow> final = cap) \<and>
    (\<not> truncated \<longrightarrow> concat out = concat (scope_pieces pieces prev rows))"
  using assms(1,3)
proof (induction rows arbitrary: cursor prev out ranges final truncated)
  case (Cons r rs)
  define c where "c = row_separator pieces prev r @ row_body pieces r"
  let ?rest = "concat (scope_pieces pieces (Some (r_paragraph r)) rs)"
  have full: "concat (scope_pieces pieces prev (r # rs)) = c @ ?rest"
    by (simp only: scope_pieces_Cons concat.simps c_def)
  show ?case
  proof (cases "cap \<le> cursor")
    case True
    with Cons.prems assms(2) show ?thesis by (simp add: full)
  next
    case False
    define e where "e = take (nat (cap - cursor)) c"
    from assms(2) have er: "\<exists>entry. emit_row limit cap pieces cursor prev r = (e, entry, length e < length c)"
      by (auto simp: emit_row_def Let_def e_def c_def simp del: take_append)
    then obtain entry where row: "emit_row limit cap pieces cursor prev r = (e, entry, length e < length c)" ..
    show ?thesis
    proof (cases "length e < length c")
      case True
      from short_take [OF this [unfolded e_def]]
      have le: "length e = nat (cap - cursor)" "nat (cap - cursor) < length c" unfolding e_def by blast+
      from True Cons.prems row False have "out = [e]" "final = cursor + int (length e)" "truncated" by auto
      with le False show ?thesis unfolding full by (simp add: e_def)
    next
      case not_short: False
      then have e: "e = c" by (simp add: e_def not_less)
      then have fit: "int (length c) \<le> cap - cursor" using False e_def by simp
      from not_short Cons.prems row False obtain out' ranges' where rec:
        "emit_rows limit cap pieces (cursor + int (length e)) (Some (r_paragraph r)) rs = (out', ranges', final, truncated)"
        and out: "out = e # out'"
        by (auto split: prod.splits)
      have "cursor + int (length e) \<le> cap" using fit e by simp
      note ih = Cons.IH [OF rec this]
      have "nat (cap - cursor) = length c + nat (cap - (cursor + int (length e)))"
        using fit e by simp
      then have "take (nat (cap - cursor)) (c @ ?rest) =
          c @ take (nat (cap - (cursor + int (length e)))) ?rest" by simp
      moreover have co: "concat out = c @ concat out'" by (simp add: out e)
      moreover from ih have "concat out' = take (nat (cap - (cursor + int (length e)))) ?rest" by blast
      ultimately have body: "concat out = take (nat (cap - cursor)) (c @ ?rest)" by (simp only:)
      have "final = cursor + int (length (concat out))" using ih co e by simp
      moreover have "\<not> truncated \<longrightarrow> concat out = c @ ?rest"
      proof
        assume "\<not> truncated"
        with ih have "concat out' = ?rest" by blast
        then show "concat out = c @ ?rest" using co by (simp only:)
      qed
      ultimately show ?thesis unfolding full using body ih by blast
    qed
  qed
qed simp

section \<open>The range map\<close>

text \<open>
  Every entry of the range map locates a part of the assembled text that begins the text of its row.
\<close>

definition locates ::
  "(string \<times> exact_piece) list \<Rightarrow> chunk_text_row list \<Rightarrow> string \<Rightarrow> int \<Rightarrow> range_entry \<Rightarrow> bool" where
  "locates pieces rows body base g \<longleftrightarrow>
     base \<le> g_text_start g \<and> g_text_start g < g_text_end g \<and> g_text_end g \<le> base + int (length body) \<and>
     (\<exists>r\<in>set rows. g_chunk g = r_chunk r \<and> g_paragraph g = r_paragraph r \<and>
        slice body (g_text_start g - base) (g_text_end g - base) =
          take (nat (g_text_end g - g_text_start g)) (row_body pieces r))"

definition follows :: "range_entry \<Rightarrow> range_entry \<Rightarrow> bool" where
  "follows g h \<longleftrightarrow> g_text_end g \<le> g_text_start h"

lemma locates_append: "locates pieces rows body base g \<Longrightarrow> locates pieces rows (body @ rest) base g"
  by (force simp: locates_def slice_append_left)

lemma locates_shift:
  "locates pieces rows body (base + int (length before)) g \<Longrightarrow>
   locates pieces (r # rows) (before @ body) base g"
  by (auto simp: locates_def slice_append_right algebra_simps)

lemma emit_row_locates:
  assumes "emit_row limit cap pieces cursor prev r = (emitted, entry, short)"
  shows "\<forall>g\<in>set entry. locates pieces (r # rs) emitted cursor g" "length entry \<le> 1"
proof -
  let ?s = "row_separator pieces prev r" let ?b = "row_body pieces r"
  from emit_row_prefix [OF assms] obtain k where k: "emitted = take k (?s @ ?b)"
    and entry: "entry = (let n = length emitted - length ?s; from = cursor + int (min (length ?s) (length emitted))
      in if n \<noteq> 0 then [range_of limit r ?b from (from + int n)] else [])" by blast
  show "length entry \<le> 1" by (simp add: entry Let_def)
  show "\<forall>g\<in>set entry. locates pieces (r # rs) emitted cursor g"
  proof
    fix g assume g: "g \<in> set entry"
    define n where "n = length emitted - length ?s"
    from g have pos: "n \<noteq> 0" and g: "g = range_of limit r ?b (cursor + int (length ?s)) (cursor + int (length ?s) + int n)"
      by (auto simp: entry Let_def n_def split: if_splits)
    have len: "length emitted = length ?s + n" using pos by (simp add: n_def)
    then have "emitted = ?s @ take n ?b" "n \<le> length ?b"
      using k by (auto simp: min_def split: if_splits)
    then have "slice emitted (int (length ?s)) (int (length ?s) + int n) = take n ?b"
      by (simp add: slice_def)
    with pos len show "locates pieces (r # rs) emitted cursor g"
      by (simp add: locates_def g range_of_def)
  qed
qed

lemma emit_rows_ranges:
  assumes "emit_rows limit cap pieces cursor prev rows = (out, ranges, final, truncated)"
  shows "(\<forall>g\<in>set ranges. locates pieces rows (concat out) cursor g) \<and> sorted_wrt follows ranges"
  using assms
proof (induction rows arbitrary: cursor prev out ranges final truncated)
  case (Cons r rs)
  show ?case
  proof (cases "cap \<noteq> 0 \<and> cap - cursor \<le> 0")
    case True
    with Cons.prems show ?thesis by simp
  next
    case False
    obtain emitted entry short where row: "emit_row limit cap pieces cursor prev r = (emitted, entry, short)"
      by (cases "emit_row limit cap pieces cursor prev r")
    note loc = emit_row_locates(1) [OF row, of rs]
    have sorted: "sorted_wrt follows entry" using emit_row_locates(2) [OF row] by (cases entry) auto
    show ?thesis
    proof (cases short)
      case True
      with Cons.prems False row have "out = [emitted]" "ranges = entry" by auto
      with loc sorted show ?thesis by simp
    next
      case not_short: False
      with Cons.prems False row obtain out' ranges' where rec:
        "emit_rows limit cap pieces (cursor + int (length emitted)) (Some (r_paragraph r)) rs =
          (out', ranges', final, truncated)" and out: "out = emitted # out'" "ranges = entry @ ranges'"
        by (auto split: prod.splits)
      note ih = Cons.IH [OF rec]
      have "locates pieces (r # rs) (concat out) cursor g" if "g \<in> set ranges" for g
        using that ih loc by (auto simp: out intro: locates_append locates_shift)
      moreover have "follows g h" if "g \<in> set entry" "h \<in> set ranges'" for g h
        using that ih loc by (force simp: follows_def locates_def)
      ultimately show ?thesis using ih sorted by (simp add: out sorted_wrt_append)
    qed
  qed
qed simp

section \<open>The assembled text\<close>

text \<open>The text the rows determine, whatever the bound: what \<open>max_chars = 0\<close> returns.\<close>

definition whole_text :: "chunk_text_row list \<Rightarrow> (exact_error, string) result" where
  "whole_text rows = bind_result (select_exact_pieces rows) (\<lambda>pieces.
     Inr (concat (scope_pieces pieces None rows) @ (if pieces \<noteq> [] then final_suffix pieces rows else [])))"

lemma assemble_cases:
  assumes "assemble sha limit entity cap rows = Inr a"
  obtains pieces out final truncated em_out em_final where
    "0 \<le> cap" "select_exact_pieces rows = Inr pieces"
    "emit_rows limit cap pieces 0 None rows = (out, a_ranges a, final, truncated)"
    "(if pieces \<noteq> [] then emit_suffix cap (final_suffix pieces rows) (out, a_ranges a, final, truncated)
      else (out, a_ranges a, final, truncated)) = (em_out, a_ranges a, em_final, a_truncated a)"
    "a_text a = concat em_out" "a_sha a = sha (a_text a)" "a_char_count a = int (length (a_text a))"
proof -
  from assms obtain pieces where p: "0 \<le> cap" "select_exact_pieces rows = Inr pieces"
    by (auto simp: assemble_def split: if_splits sum.splits)
  obtain out ranges final truncated where e: "emit_rows limit cap pieces 0 None rows = (out, ranges, final, truncated)"
    by (cases "emit_rows limit cap pieces 0 None rows")
  obtain em_out em_ranges em_final em_truncated where em: "(if pieces \<noteq> []
      then emit_suffix cap (final_suffix pieces rows) (out, ranges, final, truncated)
      else (out, ranges, final, truncated)) = (em_out, em_ranges, em_final, em_truncated)"
    by (cases "if pieces \<noteq> [] then emit_suffix cap (final_suffix pieces rows) (out, ranges, final, truncated)
      else (out, ranges, final, truncated)")
  then have "em_ranges = ranges" by (auto simp: emit_suffix_def Let_def split: if_splits)
  moreover have "a_text a = concat em_out" "a_ranges a = em_ranges" "a_truncated a = em_truncated"
    "a_sha a = sha (a_text a)" "a_char_count a = int (length (a_text a))"
    using assms p e em by (auto simp: assemble_def Let_def)
  ultimately show ?thesis using p e em by (intro that) auto
qed

lemma assemble_text:
  assumes "assemble sha limit entity cap rows = Inr a"
  shows "\<exists>t. whole_text rows = Inr t \<and> a_text a = (if cap = 0 then t else take (nat cap) t) \<and>
    (a_truncated a \<longrightarrow> cap \<noteq> 0 \<and> length (a_text a) = nat cap) \<and> (\<not> a_truncated a \<longrightarrow> a_text a = t)"
  using assms
proof (cases rule: assemble_cases)
  case (1 pieces out final truncated em_out em_final)
  let ?rows = "concat (scope_pieces pieces None rows)" let ?suf = "final_suffix pieces rows"
  have whole: "whole_text rows = Inr (?rows @ (if pieces \<noteq> [] then ?suf else []))"
    by (simp add: whole_text_def 1(2))
  show ?thesis
  proof (cases "cap = 0")
    case True
    with 1(3) emit_rows_uncapped [of limit pieces 0 None rows]
    have "out = scope_pieces pieces None rows" "\<not> truncated" by auto
    with 1(4,5) True whole show ?thesis by (auto simp: emit_suffix_def Let_def split: if_splits)
  next
    case False
    with 1(1) have pos: "0 < cap" "0 \<le> cap" by auto
    note em = emit_rows_capped [OF 1(3) pos]
    from em [unfolded diff_zero add_0]
    have em: "concat out = take (nat cap) ?rows" "final = int (length (concat out))"
      "truncated \<longrightarrow> final = cap" "\<not> truncated \<longrightarrow> concat out = ?rows"
      by blast+
    show ?thesis
    proof (cases "pieces = [] \<or> truncated")
      case True
      then have "em_out = out" "a_truncated a = truncated"
        using 1(4) by (cases "pieces = []"; auto simp: emit_suffix_def split: if_splits)+
      moreover have "take (nat cap) (?rows @ u) = take (nat cap) ?rows" if truncated for u
      proof -
        have "nat cap = length (concat out)" using em(2,3) that by linarith
        also have "\<dots> \<le> length ?rows" by (simp only: em(1) length_take min.cobounded1)
        finally show ?thesis by simp
      qed
      ultimately show ?thesis using True whole em 1(5) False by (cases truncated) auto
    next
      case rest: False
      then have full: "concat out = ?rows" using em(4) by simp
      have fits: "length ?rows \<le> nat cap" using em(1) full by (metis length_take min.cobounded2)
      have fin: "final = int (length ?rows)" using em(2) full by simp
      have step: "emit_suffix cap ?suf (out, a_ranges a, final, truncated) = (em_out, a_ranges a, em_final, a_truncated a)"
        using 1(4) rest by simp
      show ?thesis
      proof (cases "cap \<le> final")
        case True
        then have "length ?rows = nat cap" using fits fin pos by linarith
        with step True rest False whole 1(5) full show ?thesis by (auto simp: emit_suffix_def)
      next
        case room: False
        have "nat cap = length ?rows + nat (cap - final)" using room fin by linarith
        then have "take (nat cap) (?rows @ ?suf) = ?rows @ take (nat (cap - final)) ?suf" by simp
        moreover have "em_out = out @ [take (nat (cap - final)) ?suf]"
          "a_truncated a \<longleftrightarrow> length (take (nat (cap - final)) ?suf) < length ?suf"
          using step room rest False by (auto simp: emit_suffix_def Let_def)
        ultimately show ?thesis using whole 1(5) full rest False room fin
          by (auto simp: min_def split: if_splits)
      qed
    qed
  qed
qed

lemma assemble_ranges:
  assumes "assemble sha limit entity cap rows = Inr a"
  shows "\<exists>pieces. select_exact_pieces rows = Inr pieces \<and> sorted_wrt follows (a_ranges a) \<and>
    (\<forall>g\<in>set (a_ranges a). locates pieces rows (a_text a) 0 g)"
  using assms
proof (cases rule: assemble_cases)
  case (1 pieces out final truncated em_out em_final)
  note r = emit_rows_ranges [OF 1(3)]
  have "\<exists>rest. a_text a = concat out @ rest"
    using 1(4,5) by (auto simp: emit_suffix_def Let_def split: if_splits)
  then obtain rest where "a_text a = concat out @ rest" ..
  with r 1(2) show ?thesis using locates_append by auto
qed

end
