(* ===== verification/Svo_Chunking.thy ===== *)
theory Svo_Chunking
  imports Exact_Reconstruction Bitemporal_Resolution "HOL-Library.Sublist"
begin

text \<open>
  The boundary to the external chunker (\<open>ingestion/svo_chunking.py\<close>): locating the returned chunks
  in the source text, checking the answer, the wrappers around the client's \<open>chunk\<close> and
  \<open>chunk_batch\<close>, and the catalogue of presets. The client and the \<open>SemanticChunk\<close> class of
  \<open>chunk_metadata_adapter\<close> are not part of the repository: an item of an answer is a value of the
  type parameter, and \<open>adapter\<close> gives, for one that is a \<open>SemanticChunk\<close>, its serialised payload and
  the fields of its deserialisation that are read here, or nothing where the adapter raises.
\<close>

section \<open>Data\<close>

datatype chunker_error =
    Unsupported_strategy string | Chunker_unavailable | Chunker_internal | Batch_unavailable
  | Batch_lengths nat nat | Invalid_response | Empty_result | Contract_error nat | Bad_uuid
  | Empty_batch int int | Sentence_outside int int int int | Batch_count nat nat

record runtime_chunk =
  c_uuid :: uuid
  c_text :: string
  c_start :: int
  c_end :: int
  c_ordinal :: int
  c_meta :: json_dict

text \<open>\<open>None\<close> in a range field stands for a value that is no integer.\<close>

record adapter_chunk =
  x_payload :: json_dict
  x_source :: "string option"
  x_start :: "int option"
  x_end :: "int option"
  x_body :: "string option"
  x_text :: "string option"
  x_ordinal :: "int option"
  x_uuid :: string

datatype 'c item = Foreign_item | Chunk_item 'c
datatype 'c response = No_sequence | Items "'c item list"

type_synonym 'c adapter = "'c \<Rightarrow> adapter_chunk option"

section \<open>Locating a chunk in the source\<close>

text \<open>\<open>s.find(sub, i)\<close> on the rest of the text from \<open>i\<close> on.\<close>

fun first_at :: "(string \<Rightarrow> nat option) \<Rightarrow> nat \<Rightarrow> string \<Rightarrow> (nat \<times> nat) option" where
  "first_at match i s =
     (case match s of
        Some n \<Rightarrow> Some (i, i + n)
      | None \<Rightarrow> (case s of [] \<Rightarrow> None | _ # t \<Rightarrow> first_at match (Suc i) t))"

definition match_literal :: "string \<Rightarrow> string \<Rightarrow> nat option" where
  "match_literal sub s = (if prefix sub s then Some (length sub) else None)"

text \<open>
  The pattern of the escaped words joined with \<open>\s+\<close>: no word holds white space, so a match takes
  all the white space between two words and there is one way to match at a position.
\<close>

fun match_words :: "string list \<Rightarrow> string \<Rightarrow> nat option" where
  "match_words [] s = Some 0"
| "match_words [w] s = match_literal w s"
| "match_words (w # v # ws) s =
     (if prefix w s
      then let r = drop (length w) s; gap = takeWhile py_space r in
        if gap = [] then None
        else map_option (\<lambda>n. length w + length gap + n) (match_words (v # ws) (drop (length gap) r))
      else None)"

definition range_candidates :: "string \<Rightarrow> string \<Rightarrow> string list" where
  "range_candidates raw_body text_body =
     dict_fromkeys (filter (\<lambda>c. c \<noteq> []) [raw_body, text_body, py_strip raw_body, py_strip text_body])"

fun find_candidates :: "string list \<Rightarrow> nat \<Rightarrow> string \<Rightarrow> (nat \<times> nat) option" where
  "find_candidates [] i s = None"
| "find_candidates (c # cs) i s =
     (case first_at (match_literal c) i s of Some r \<Rightarrow> Some r | None \<Rightarrow> find_candidates cs i s)"

definition resolve_runtime_range ::
  "string \<Rightarrow> int \<Rightarrow> int \<Rightarrow> int \<Rightarrow> string \<Rightarrow> string \<Rightarrow> (int \<times> int) option" where
  "resolve_runtime_range src previous_end raw_start raw_end raw_body text_body =
     (if 0 \<le> raw_start \<and> raw_start < raw_end \<and> raw_end \<le> int (length src) \<and> previous_end \<le> raw_start \<and>
         (slice src raw_start raw_end = raw_body \<or> slice src raw_start raw_end = text_body)
      then Some (raw_start, raw_end)
      else let i = nat previous_end; rest = drop i src in
        map_option (\<lambda>(s, e). (int s, int e))
          (case find_candidates (range_candidates raw_body text_body) i rest of
             Some r \<Rightarrow> Some r
           | None \<Rightarrow> if py_strip text_body = [] then None
                     else first_at (match_words (py_split (py_strip text_body))) i rest))"

section \<open>Checking the chunker's answer\<close>

definition runtime_chunk_of ::
  "string \<Rightarrow> string \<Rightarrow> int \<Rightarrow> nat \<Rightarrow> adapter_chunk \<Rightarrow> (chunker_error, runtime_chunk) result" where
  "runtime_chunk_of src expected_source previous_end index x =
     (let raw_body = (case x_body x of None \<Rightarrow> [] | Some b \<Rightarrow> b);
          body = (case x_text x of None \<Rightarrow> raw_body | Some t \<Rightarrow> if t = [] then raw_body else t)
      in if x_source x \<noteq> Some expected_source then Inl (Contract_error index)
      else case (x_start x, x_end x) of
        (Some raw_start, Some raw_end) \<Rightarrow>
          if body = [] then Inl (Contract_error index)
          else (case resolve_runtime_range src previous_end raw_start raw_end raw_body body of
              None \<Rightarrow> Inl (Contract_error index)
            | Some (s, e) \<Rightarrow>
                if s < previous_end then Inl (Contract_error index)
                else if x_ordinal x \<noteq> None \<and> x_ordinal x \<noteq> Some (int index) then Inl (Contract_error index)
                else (case uuid_of_string (x_uuid x) of
                    None \<Rightarrow> Inl Bad_uuid
                  | Some u \<Rightarrow> if uuid_version u \<noteq> Some 4 then Inl (Contract_error index)
                      else Inr \<lparr>c_uuid = u, c_text = body, c_start = s, c_end = e,
                             c_ordinal = int index, c_meta = x_payload x\<rparr>))
      | _ \<Rightarrow> Inl (Contract_error index))"

fun validate_items ::
  "'c adapter \<Rightarrow> string \<Rightarrow> string \<Rightarrow> int \<Rightarrow> nat \<Rightarrow> 'c item list \<Rightarrow> (chunker_error, runtime_chunk list) result" where
  "validate_items adapter src expected_source previous_end index [] = Inr []"
| "validate_items adapter src expected_source previous_end index (Foreign_item # items) = Inl Invalid_response"
| "validate_items adapter src expected_source previous_end index (Chunk_item c # items) =
     (case adapter c of
        None \<Rightarrow> Inl Invalid_response
      | Some x \<Rightarrow> bind_result (runtime_chunk_of src expected_source previous_end index x) (\<lambda>r.
          bind_result (validate_items adapter src expected_source (c_end r) (Suc index) items) (\<lambda>rs.
            Inr (r # rs))))"

definition validate_runtime_chunks ::
  "'c adapter \<Rightarrow> 'c response \<Rightarrow> string \<Rightarrow> string \<Rightarrow> (chunker_error, runtime_chunk list) result" where
  "validate_runtime_chunks adapter raw src source_id =
     (case raw of
        No_sequence \<Rightarrow> Inl Invalid_response
      | Items [] \<Rightarrow> Inl Empty_result
      | Items items \<Rightarrow> (case uuid_of_string source_id of
            None \<Rightarrow> Inl Bad_uuid
          | Some u \<Rightarrow> validate_items adapter src (uuid_str u) 0 0 items))"

section \<open>The runtime wrapper of the client\<close>

text \<open>
  What a call of the client may do: answer, raise \<open>ChunkerError\<close>, \<open>AttributeError\<close>, one of
  \<open>TimeoutError\<close> and \<open>OSError\<close>, or another exception, of which the name of the class matters.
\<close>

datatype 'a call_outcome =
    Answer 'a | Raises_chunker chunker_error | Raises_attribute | Raises_os | Raises_other string

definition default_preset :: string where
  "default_preset = ''technical_text''"

definition strategy_params :: "string \<Rightarrow> (chunker_error, json_dict) result" where
  "strategy_params strategy =
     (if strategy = ''paragraph'' then
        Inr [(''use_sv'', J_bool False), (''aggregation_mode'', J_str ''paragraph'')]
      else if strategy = ''sentence'' then
        Inr [(''use_sv'', J_bool False), (''aggregation_mode'', J_str ''sentence'')]
      else if strategy = ''semantic'' then
        Inr [(''use_sv'', J_bool False), (''aggregation_mode'', J_str ''sentence''),
             (''chunk_set'', J_str default_preset)]
      else Inl (Unsupported_strategy strategy))"

definition looks_like_connection_error :: "string \<Rightarrow> bool" where
  "looks_like_connection_error name \<longleftrightarrow>
     (let n = py_lower name in sublist ''timeout'' n \<or> sublist ''connection'' n \<or> sublist ''connect'' n)"

record svo_options =
  o_chunk_sets :: "(string \<times> string option) list"
  o_language :: "string option"
  o_project :: "string option"

definition set_option :: "string \<Rightarrow> string option \<Rightarrow> json_dict \<Rightarrow> json_dict" where
  "set_option key v d = (case v of None \<Rightarrow> d | Some t \<Rightarrow> if t = [] then d else dict_set d key (J_str t))"

definition client_params :: "svo_options \<Rightarrow> string \<Rightarrow> (chunker_error, json_dict) result" where
  "client_params opts strategy = bind_result (strategy_params strategy) (\<lambda>params.
     Inr (set_option ''project'' (o_project opts) (set_option ''language'' (o_language opts)
       (set_option ''chunk_set'' (case map_of (o_chunk_sets opts) strategy of None \<Rightarrow> None | Some v \<Rightarrow> v)
         params))))"

definition call_kwargs :: "string option \<Rightarrow> json_dict \<Rightarrow> json_dict" where
  "call_kwargs source_id params =
     [(''source_id'', case source_id of None \<Rightarrow> J_null | Some s \<Rightarrow> J_str s), (''chunk_only'', J_bool True),
      (''chunk_type'', J_str ''DocBlock''), (''chunking_version'', J_str ''1.0'')] @ params"

definition wrapper_error :: "'a call_outcome \<Rightarrow> (chunker_error, 'a) result" where
  "wrapper_error r = (case r of
       Answer a \<Rightarrow> Inr a
     | Raises_chunker e \<Rightarrow> Inl e
     | Raises_attribute \<Rightarrow> Inl Chunker_internal
     | Raises_os \<Rightarrow> Inl Chunker_unavailable
     | Raises_other name \<Rightarrow>
         if looks_like_connection_error name then Inl Chunker_unavailable else Inl Chunker_internal)"

definition chunk_text ::
  "'c adapter \<Rightarrow> (string \<Rightarrow> json_dict \<Rightarrow> 'c response call_outcome) \<Rightarrow> svo_options \<Rightarrow> string \<Rightarrow> string \<Rightarrow> string
    \<Rightarrow> (chunker_error, runtime_chunk list) result" where
  "chunk_text adapter client opts body strategy source_id =
     bind_result (client_params opts strategy) (\<lambda>params.
     bind_result (wrapper_error (client body (call_kwargs (Some source_id) params))) (\<lambda>raw.
       validate_runtime_chunks adapter raw body source_id))"

text \<open>
  \<open>chunk_batch\<close>: one source identifier for the call where all are the same, and an answer with one
  entry per text. \<open>None\<close> stands for an answer that is no sequence.
\<close>

definition chunk_batch ::
  "'c adapter \<Rightarrow> (string list \<Rightarrow> json_dict \<Rightarrow> 'c response list option call_outcome) \<Rightarrow> svo_options
    \<Rightarrow> string list \<Rightarrow> string \<Rightarrow> string list \<Rightarrow> (chunker_error, runtime_chunk list list) result" where
  "chunk_batch adapter client opts texts strategy source_ids =
     (if length texts \<noteq> length source_ids then Inl (Batch_lengths (length texts) (length source_ids))
      else if texts = [] then Inr []
      else bind_result (client_params opts strategy) (\<lambda>params.
        let source_id = (if list_all (\<lambda>s. s = hd source_ids) source_ids then Some (hd source_ids) else None) in
        bind_result (case client texts (call_kwargs source_id params) of
            Raises_attribute \<Rightarrow> Inl Batch_unavailable | r \<Rightarrow> wrapper_error r) (\<lambda>raw.
          case raw of
            None \<Rightarrow> Inl Invalid_response
          | Some batches \<Rightarrow>
              if length batches \<noteq> length texts then Inl Invalid_response
              else map_result (\<lambda>((b, t), s). validate_runtime_chunks adapter b t s)
                (zip (zip batches texts) (case source_id of
                   Some s \<Rightarrow> replicate (length texts) s | None \<Rightarrow> source_ids)))))"

section \<open>Presets\<close>

definition preset_keys :: "string list" where
  "preset_keys = [''chunk_sets'', ''chunk_presets'', ''presets'', ''supported_presets'', ''supported_chunk_sets'']"

definition normalized_key :: "string \<Rightarrow> string" where
  "normalized_key k = map (\<lambda>c. if c = CHR ''-'' then CHR ''_'' else c) (py_lower k)"

definition string_items :: "json list \<Rightarrow> string list" where
  "string_items xs = concat (map (\<lambda>x. case x of J_str s \<Rightarrow> if py_strip s = [] then [] else [s] | _ \<Rightarrow> []) xs)"

definition preset_values :: "json \<Rightarrow> string list" where
  "preset_values v = (case v of
       J_object d \<Rightarrow> filter (\<lambda>k. py_strip k \<noteq> []) (map fst d)
     | J_list xs \<Rightarrow> string_items xs
     | _ \<Rightarrow> [])"

fun extract_presets :: "json \<Rightarrow> string list" where
  "extract_presets (J_object d) =
     concat (map (\<lambda>(k, v). if List.member preset_keys (normalized_key k) then preset_values v
       else extract_presets v) d)"
| "extract_presets (J_list xs) = string_items xs"
| "extract_presets _ = []"

datatype preset_error = Catalog_unavailable | Unsupported_preset string "string list" | Preset_no_string

text \<open>
  The answers of the public methods of the client, in the order in which they are asked, without
  those that cannot be called.
\<close>

fun query_supported_presets :: "json list \<Rightarrow> (preset_error, string list) result" where
  "query_supported_presets [] = Inl Catalog_unavailable"
| "query_supported_presets (v # vs) =
     (let presets = extract_presets v in
      if presets \<noteq> [] then Inr presets else query_supported_presets vs)"

definition request_preset :: "json \<Rightarrow> (preset_error, string option) result" where
  "request_preset v = (case v of
       J_null \<Rightarrow> Inr None
     | J_str s \<Rightarrow> Inr (let t = py_strip s in if t = [] then None else Some t)
     | _ \<Rightarrow> Inl Preset_no_string)"

definition select_preset :: "json list \<Rightarrow> string option \<Rightarrow> json \<Rightarrow> (preset_error, string) result" where
  "select_preset catalogs preset requested =
     bind_result (query_supported_presets catalogs) (\<lambda>supported.
     bind_result (case preset of Some p \<Rightarrow> Inr (Some p) | None \<Rightarrow> request_preset requested) (\<lambda>choice.
       let selected = (case choice of None \<Rightarrow> default_preset | Some p \<Rightarrow> if p = [] then default_preset else p)
       in if List.member supported selected then Inr selected
          else Inl (Unsupported_preset selected supported)))"

section \<open>The boundary to one normalised request\<close>

text \<open>\<open>_validate_result\<close>, the other check of an answer, which takes the ranges as they are.\<close>

datatype svo_error = Svo_foreign | Svo_empty | Svo_item nat | Svo_adapter nat | Svo_range nat | Svo_order | Svo_ordinal

fun check_items ::
  "'c adapter \<Rightarrow> int \<Rightarrow> int \<Rightarrow> nat \<Rightarrow> 'c item list \<Rightarrow> (svo_error, adapter_chunk list) result" where
  "check_items adapter len previous_end index [] = Inr []"
| "check_items adapter len previous_end index (Foreign_item # items) = Inl (Svo_item index)"
| "check_items adapter len previous_end index (Chunk_item c # items) =
     (case adapter c of
        None \<Rightarrow> Inl (Svo_adapter index)
      | Some x \<Rightarrow> (case (x_start x, x_end x) of
            (Some s, Some e) \<Rightarrow>
              if s < 0 \<or> e \<le> s \<or> len < e then Inl (Svo_range index)
              else if s < previous_end then Inl Svo_order
              else if x_ordinal x \<noteq> None \<and> x_ordinal x \<noteq> Some (int index) then Inl Svo_ordinal
              else bind_result (check_items adapter len e (Suc index) items) (\<lambda>xs. Inr (x # xs))
          | _ \<Rightarrow> Inl (Svo_range index)))"

definition validate_result ::
  "'c adapter \<Rightarrow> 'c response \<Rightarrow> string \<Rightarrow> (svo_error, adapter_chunk list) result" where
  "validate_result adapter raw src =
     (case raw of
        No_sequence \<Rightarrow> Inl Svo_foreign
      | Items [] \<Rightarrow> Inl Svo_empty
      | Items items \<Rightarrow> check_items adapter (int (length src)) 0 0 items)"

section \<open>Words and white space\<close>

lemma split_words_word:
  "\<forall>c\<in>set w. \<not> py_space c \<Longrightarrow> split_words acc (w @ s) = split_words (acc @ w) s"
  by (induction w arbitrary: acc) auto

lemma split_words_spaces: "\<forall>c\<in>set g. py_space c \<Longrightarrow> split_words [] (g @ s) = split_words [] s"
  by (induction g) auto

lemma split_words_trailing:
  "\<forall>c\<in>set g. py_space c \<Longrightarrow> split_words acc (s @ g) = split_words acc s"
proof (induction s arbitrary: acc)
  case Nil
  then show ?case using split_words_spaces [of "tl g" "[]"] by (cases g) auto
qed auto

lemma py_split_word_gap:
  assumes "\<forall>c\<in>set w. \<not> py_space c" "w \<noteq> []" "\<forall>c\<in>set g. py_space c" "g \<noteq> []"
  shows "py_split (w @ g @ s) = w # py_split s"
proof -
  obtain c g' where g: "g = c # g'" using assms(4) by (cases g) auto
  then show ?thesis
    using assms split_words_word [of w "[]" "g @ s"] split_words_spaces [of g' s] by (simp add: py_split_def)
qed

lemma py_split_word: "\<forall>c\<in>set w. \<not> py_space c \<Longrightarrow> w \<noteq> [] \<Longrightarrow> py_split w = [w]"
  using split_words_word [of w "[]" "[]"] by (simp add: py_split_def)

lemma py_split_strip [simp]: "py_split (py_strip s) = py_split s"
proof -
  let ?t = "dropWhile py_space s"
  have "split_words [] s = split_words [] (takeWhile py_space s @ ?t)" by simp
  also have "\<dots> = split_words [] ?t" by (rule split_words_spaces) (auto dest: set_takeWhileD)
  also have "?t = rev (dropWhile py_space (rev ?t)) @ rev (takeWhile py_space (rev ?t))"
    by (metis rev_append rev_rev_ident takeWhile_dropWhile_id)
  also have "split_words [] \<dots> = split_words [] (rev (dropWhile py_space (rev ?t)))"
    by (rule split_words_trailing) (auto dest: set_takeWhileD)
  finally show ?thesis by (simp add: py_split_def py_strip_def)
qed

lemma py_split_clean: "w \<in> set (py_split s) \<Longrightarrow> w \<noteq> [] \<and> (\<forall>c\<in>set w. \<not> py_space c)"
  using split_words_clean [of "[]" w s] by (simp add: py_split_def)

lemma split_words_nonempty: "acc \<noteq> [] \<Longrightarrow> split_words acc s \<noteq> []"
  by (induction s arbitrary: acc) auto

lemma py_strip_nonempty: "py_strip s \<noteq> [] \<Longrightarrow> py_split s \<noteq> []"
proof -
  assume "py_strip s \<noteq> []"
  then obtain c t where h: "dropWhile py_space s = c # t" "\<not> py_space c"
    by (cases "dropWhile py_space s") (auto simp: py_strip_def dropWhile_eq_Cons_conv)
  have "split_words [] s = split_words [] (takeWhile py_space s @ c # t)"
    using h(1) by (metis takeWhile_dropWhile_id)
  also have "\<dots> = split_words [] (c # t)" by (rule split_words_spaces) (auto dest: set_takeWhileD)
  finally show "py_split s \<noteq> []" using h(2) split_words_nonempty by (simp add: py_split_def)
qed

section \<open>Located ranges\<close>

lemma first_at_Some:
  "first_at m i s = Some (a, b) \<Longrightarrow> \<exists>k n. k \<le> length s \<and> a = i + k \<and> b = a + n \<and> m (drop k s) = Some n"
proof (induction s arbitrary: i)
  case Nil
  then show ?case by (auto split: option.splits)
next
  case (Cons c s)
  show ?case
  proof (cases "m (c # s)")
    case None
    with Cons.prems have "first_at m (Suc i) s = Some (a, b)" by simp
    from Cons.IH [OF this] obtain k n where "k \<le> length s" "a = Suc i + k" "b = a + n" "m (drop k s) = Some n"
      by blast
    then show ?thesis by (intro exI [of _ "Suc k"] exI [of _ n]) auto
  next
    case (Some n)
    with Cons.prems show ?thesis by (intro exI [of _ 0] exI [of _ n]) auto
  qed
qed

declare first_at.simps [simp del]

lemma match_literal_Some: "match_literal w s = Some n \<Longrightarrow> n = length w \<and> n \<le> length s \<and> take n s = w"
  by (auto simp: match_literal_def prefix_def split: if_splits)

lemma match_words_Some:
  assumes "match_words ws s = Some n" "\<forall>w\<in>set ws. w \<noteq> [] \<and> (\<forall>c\<in>set w. \<not> py_space c)"
  shows "n \<le> length s \<and> py_split (take n s) = ws \<and> (ws \<noteq> [] \<longrightarrow> 0 < n)"
  using assms
proof (induction ws s arbitrary: n rule: match_words.induct)
  case (1 s)
  then show ?case by (simp add: py_split_def)
next
  case (2 w s)
  then show ?case using match_literal_Some [of w s n] py_split_word [of w] by auto
next
  case (3 w v ws s)
  define r where "r = drop (length w) s"
  define g where "g = takeWhile py_space r"
  from "3.prems"(1) have p: "prefix w s" by (simp split: if_splits)
  with "3.prems"(1) have g: "g \<noteq> []" by (auto simp: r_def [symmetric] g_def Let_def split: if_splits)
  with "3.prems"(1) p obtain m where m: "match_words (v # ws) (drop (length g) r) = Some m"
    "n = length w + length g + m"
    by (auto simp: r_def [symmetric] g_def [symmetric] Let_def split: if_splits)
  from p have s: "s = w @ r" by (auto simp: prefix_def r_def)
  have r: "r = g @ drop (length g) r"
    by (metis g_def takeWhile_eq_take append_take_drop_id)
  have ih: "m \<le> length (drop (length g) r)" "py_split (take m (drop (length g) r)) = v # ws"
    using "3.IH" [OF p r_def g_def _ m(1)] g "3.prems"(2) by auto
  have "take (length g + m) r = g @ take m (drop (length g) r)" by (subst r) simp
  then have "take n s = w @ g @ take m (drop (length g) r)"
    unfolding s m(2) by (simp add: add.assoc)
  moreover have "\<forall>c\<in>set g. py_space c" by (auto simp: g_def dest: set_takeWhileD)
  ultimately have "py_split (take n s) = w # v # ws"
    using py_split_word_gap [of w g] "3.prems"(2) g ih(2) by simp
  moreover have "n \<le> length s"
  proof -
    have "length r = length g + length (drop (length g) r)" using r by (metis length_append)
    then show ?thesis using ih(1) s m(2) by simp
  qed
  ultimately show ?case using g m(2) by simp
qed

lemma range_candidates_set:
  assumes "c \<in> set (range_candidates raw_body text_body)"
  shows "c \<noteq> [] \<and> py_split c \<in> {py_split raw_body, py_split text_body}"
  using assms by (simp only: range_candidates_def set_dict_fromkeys set_filter) auto

lemma find_candidates_Some:
  "find_candidates cs i s = Some r \<Longrightarrow> \<exists>c\<in>set cs. first_at (match_literal c) i s = Some r"
  by (induction cs) (auto split: option.splits)

lemma take_drop_slice:
  assumes "k + n \<le> length (drop i src)"
  shows "take n (drop k (drop i src)) = slice src (int (i + k)) (int (i + k + n))"
  by (simp add: slice_def add.commute nat_int_add)

text \<open>
  A located range lies behind the previous chunk and inside the source, is not empty, and the
  source text there has the words of the chunk's body or of its text.
\<close>

lemma resolve_range:
  assumes "resolve_runtime_range src prev raw_start raw_end raw_body text_body = Some (s, e)"
    and "0 \<le> prev" "prev \<le> int (length src)"
  shows "prev \<le> s \<and> s < e \<and> e \<le> int (length src) \<and>
    py_split (slice src s e) \<in> {py_split raw_body, py_split text_body}"
proof -
  let ?i = "nat prev" let ?rest = "drop ?i src"
  have found: "prev \<le> s \<and> s < e \<and> e \<le> int (length src) \<and> py_split (slice src s e) \<in> {py_split raw_body, py_split text_body}"
    if at: "first_at m ?i ?rest = Some (a, b)" and se: "s = int a" "e = int b"
      and m: "\<And>t n. m t = Some n \<Longrightarrow> 0 < n \<and> n \<le> length t \<and>
        py_split (take n t) \<in> {py_split raw_body, py_split text_body}" for m a b
  proof -
    from first_at_Some [OF at] obtain k n where k: "k \<le> length ?rest" "a = ?i + k" "b = a + n"
      "m (drop k ?rest) = Some n" by blast
    note n = m [OF k(4)]
    have "n \<le> length (drop k ?rest)" using n by blast
    then have fit: "k + n \<le> length ?rest" using k(1) by simp
    have "py_split (slice src s e) = py_split (take n (drop k ?rest))"
      by (simp only: take_drop_slice [OF fit] se k(2,3))
    then show ?thesis using n fit k(2,3) se assms(2,3) by auto
  qed
  show ?thesis
  proof (cases "0 \<le> raw_start \<and> raw_start < raw_end \<and> raw_end \<le> int (length src) \<and> prev \<le> raw_start \<and>
         (slice src raw_start raw_end = raw_body \<or> slice src raw_start raw_end = text_body)")
    case True
    with assms(1) show ?thesis by (auto simp: resolve_runtime_range_def)
  next
    case other: False
    show ?thesis
    proof (cases "find_candidates (range_candidates raw_body text_body) ?i ?rest")
      case None
      with other assms(1) obtain a b where at: "py_strip text_body \<noteq> []"
        "first_at (match_words (py_split text_body)) ?i ?rest = Some (a, b)" "s = int a" "e = int b"
        by (auto simp: resolve_runtime_range_def Let_def split: if_splits)
      have ne: "py_split text_body \<noteq> []" using at(1) by (rule py_strip_nonempty)
      show ?thesis
        by (rule found [OF at(2-4)]) (use ne match_words_Some py_split_clean in fastforce)
    next
      case (Some r)
      with other assms(1) obtain a b where r: "r = (a, b)" "s = int a" "e = int b"
        by (cases r) (auto simp: resolve_runtime_range_def Let_def)
      from find_candidates_Some [OF Some] obtain c where c: "c \<in> set (range_candidates raw_body text_body)"
        "first_at (match_literal c) ?i ?rest = Some (a, b)" unfolding r(1) by blast
      show ?thesis
        by (rule found [OF c(2) r(2,3)])
          (use range_candidates_set [OF c(1)] match_literal_Some in fastforce)
    qed
  qed
qed

section \<open>Validated answers\<close>

text \<open>Chunks that lie one behind the other between two positions of the source.\<close>

fun placed :: "int \<Rightarrow> int \<Rightarrow> runtime_chunk list \<Rightarrow> bool" where
  "placed prev final [] \<longleftrightarrow> prev \<le> final"
| "placed prev final (r # rs) \<longleftrightarrow> prev \<le> c_start r \<and> c_start r < c_end r \<and> placed (c_end r) final rs"

lemma placed_le: "placed a b rs \<Longrightarrow> a \<le> b"
  by (induction rs arbitrary: a) fastforce+

lemma placed_mem: "placed a b rs \<Longrightarrow> r \<in> set rs \<Longrightarrow> a \<le> c_start r \<and> c_start r < c_end r \<and> c_end r \<le> b"
  by (induction rs arbitrary: a) (force dest: placed_le)+

lemma runtime_chunk_of_ok:
  assumes "runtime_chunk_of src expected prev index x = Inr r" "0 \<le> prev" "prev \<le> int (length src)"
  shows "prev \<le> c_start r \<and> c_start r < c_end r \<and> c_end r \<le> int (length src) \<and>
    c_ordinal r = int index \<and> c_text r \<noteq> [] \<and> uuid_version (c_uuid r) = Some 4 \<and> c_meta r = x_payload x"
proof -
  from assms(1) obtain raw_start raw_end raw_body body s e u where
    "resolve_runtime_range src prev raw_start raw_end raw_body body = Some (s, e)"
    "body \<noteq> []" "uuid_version u = Some 4"
    "r = \<lparr>c_uuid = u, c_text = body, c_start = s, c_end = e, c_ordinal = int index, c_meta = x_payload x\<rparr>"
    unfolding runtime_chunk_of_def Let_def by (auto split: if_splits option.splits prod.splits)
  with resolve_range [OF _ assms(2,3)] show ?thesis by force
qed

lemma validate_items_ok:
  assumes "validate_items adapter src expected prev index items = Inr rs" "0 \<le> prev" "prev \<le> int (length src)"
  shows "placed prev (int (length src)) rs \<and> map c_ordinal rs = map int [index..<index + length items] \<and>
    (\<forall>r\<in>set rs. c_text r \<noteq> [] \<and> uuid_version (c_uuid r) = Some 4)"
  using assms
proof (induction adapter src expected prev index items arbitrary: rs rule: validate_items.induct)
  case (3 adapter src expected prev index c items)
  then obtain x r rs' where x: "adapter c = Some x" and r: "runtime_chunk_of src expected prev index x = Inr r"
    and rest: "validate_items adapter src expected (c_end r) (Suc index) items = Inr rs'" and rs: "rs = r # rs'"
    by (auto split: option.splits)
  note ok = runtime_chunk_of_ok [OF r "3.prems"(2,3)]
  have "placed (c_end r) (int (length src)) rs' \<and>
      map c_ordinal rs' = map int [Suc index..<Suc index + length items] \<and>
      (\<forall>r\<in>set rs'. c_text r \<noteq> [] \<and> uuid_version (c_uuid r) = Some 4)"
    using ok "3.prems"(2) by (intro "3.IH" [OF x rest]) auto
  moreover have "[index..<Suc (index + length items)] = index # [Suc index..<Suc (index + length items)]"
    by (rule upt_conv_Cons) simp
  ultimately show ?case using ok by (simp add: rs del: upt_Suc)
qed auto

lemma validate_runtime_chunks_ok:
  assumes "validate_runtime_chunks adapter raw src source_id = Inr rs"
  shows "rs \<noteq> [] \<and> placed 0 (int (length src)) rs \<and> map c_ordinal rs = map int [0..<length rs] \<and>
    (\<forall>r\<in>set rs. c_text r \<noteq> [] \<and> uuid_version (c_uuid r) = Some 4)"
proof -
  from assms obtain items u where i: "items \<noteq> []" "validate_items adapter src (uuid_str u) 0 0 items = Inr rs"
    by (auto simp: validate_runtime_chunks_def split: response.splits list.splits option.splits)
  note ok = validate_items_ok [OF i(2)]
  then have o: "map c_ordinal rs = map int [0..<length items]" by simp
  then have "length (map c_ordinal rs) = length (map int [0..<length items])" by (rule arg_cong)
  then have "length rs = length items" by simp
  with ok o i(1) show ?thesis by auto
qed

end
