(* ===== verification/Ingestion_Plan.thy ===== *)
theory Ingestion_Plan
  imports Svo_Chunking "HOL-Library.Product_Lexorder"
begin

text \<open>
  From the chunks of the two passes of the chunker to the plan of a publication: the sentences of
  every paragraph with their exact pieces (\<open>_sentence_chunks_from_paragraph_batch\<close> and
  \<open>_sentence_chunks_for_paragraph\<close> of \<open>ingestion/runtime_boundary.py\<close>, \<open>_exact_sentence_plan\<close> of
  \<open>ingestion/publication_repository.py\<close>).
\<close>

datatype plan_error =
    Plan_chunker chunker_error | Plan_exact exact_error | No_sentence_inside int int

section \<open>Sentences of the paragraphs\<close>

text \<open>
  The sentence pass runs on the texts of the paragraphs, and its ranges are moved to the source.
\<close>

fun shift_sentences ::
  "runtime_chunk \<Rightarrow> int \<Rightarrow> runtime_chunk list \<Rightarrow> (chunker_error, runtime_chunk list) result" where
  "shift_sentences p ordinal [] = Inr []"
| "shift_sentences p ordinal (x # xs) =
     (let s = c_start p + c_start x; e = c_start p + c_end x in
      if s < c_start p \<or> c_end p < e \<or> e \<le> s
      then Inl (Sentence_outside (c_start p) (c_end p) (c_start x) (c_end x))
      else bind_result (shift_sentences p (ordinal + 1) xs) (\<lambda>rest.
        Inr (x\<lparr>c_start := s, c_end := e, c_ordinal := ordinal\<rparr> # rest)))"

fun shift_batches ::
  "int \<Rightarrow> (runtime_chunk \<times> runtime_chunk list) list \<Rightarrow> (chunker_error, runtime_chunk list) result" where
  "shift_batches ordinal [] = Inr []"
| "shift_batches ordinal ((p, batch) # rest) =
     (if batch = [] then Inl (Empty_batch (c_start p) (c_end p))
      else bind_result (shift_sentences p ordinal batch) (\<lambda>xs.
           bind_result (shift_batches (ordinal + int (length batch)) rest) (\<lambda>ys. Inr (xs @ ys))))"

text \<open>\<open>chunker\<close> is what \<open>chunk_batch\<close> returns for the texts of the paragraphs.\<close>

definition sentence_chunks_from_batch ::
  "(string list \<Rightarrow> string \<Rightarrow> string list \<Rightarrow> (chunker_error, runtime_chunk list list) result)
    \<Rightarrow> runtime_chunk list \<Rightarrow> string \<Rightarrow> (chunker_error, runtime_chunk list) result" where
  "sentence_chunks_from_batch chunker paragraphs source_id =
     (if paragraphs = [] then Inr []
      else bind_result (chunker (map c_text paragraphs) ''sentence'' (replicate (length paragraphs) source_id))
        (\<lambda>batches. if length batches \<noteq> length paragraphs
           then Inl (Batch_count (length paragraphs) (length batches))
           else shift_batches 0 (zip paragraphs batches)))"

definition sentence_chunks_for_paragraph ::
  "runtime_chunk \<Rightarrow> runtime_chunk list \<Rightarrow> (plan_error, runtime_chunk list) result" where
  "sentence_chunks_for_paragraph p sentences =
     (let inside = filter (\<lambda>c. c_start p \<le> c_start c \<and> c_start c < c_end p) sentences;
          matches = (if inside = []
            then filter (\<lambda>c. c_start p < c_end c \<and> c_start c < c_end p) sentences else inside)
      in if matches = [] then Inl (No_sentence_inside (c_start p) (c_end p))
         else Inr (sort_key (\<lambda>c. (c_start c, c_end c, c_ordinal c)) matches))"

section \<open>The exact plan\<close>

type_synonym sentence_plan = "(runtime_chunk \<times> (runtime_chunk \<times> exact_piece) list) list"

definition exact_input_of :: "runtime_chunk \<Rightarrow> exact_input" where
  "exact_input_of r = \<lparr>in_text = c_text r, in_start = Some (c_start r), in_end = Some (c_end r)\<rparr>"

definition exact_sentence_plan ::
  "string \<Rightarrow> runtime_chunk list \<Rightarrow> runtime_chunk list \<Rightarrow> (plan_error, sentence_plan) result" where
  "exact_sentence_plan src paragraphs sentences =
     bind_result (map_result (\<lambda>p. bind_result (sentence_chunks_for_paragraph p sentences)
         (\<lambda>ss. Inr (p, ss))) paragraphs) (\<lambda>grouped.
     let ordered = concat (map snd grouped) in
     bind_result (case build_exact_pieces src (map exact_input_of ordered) 0 None True of
         Inl e \<Rightarrow> Inl (Plan_exact e) | Inr ps \<Rightarrow> Inr ps) (\<lambda>pieces.
     let by_id = dict_update [] (zip (map c_uuid ordered) pieces) in
       Inr (map (\<lambda>(p, ss). (p, map (\<lambda>s. (s, the (map_of by_id (c_uuid s)))) ss)) grouped)))"

section \<open>Paragraphs and their sentences in order\<close>

text \<open>What the two passes return: every paragraph behind the previous one, its sentences inside.\<close>

fun grouped_between :: "int \<Rightarrow> int \<Rightarrow> (runtime_chunk \<times> runtime_chunk list) list \<Rightarrow> bool" where
  "grouped_between a b [] \<longleftrightarrow> a \<le> b"
| "grouped_between a b ((p, ss) # rest) \<longleftrightarrow>
     a \<le> c_start p \<and> ss \<noteq> [] \<and> placed (c_start p) (c_end p) ss \<and> grouped_between (c_end p) b rest"

lemma shift_sentences_placed:
  assumes "shift_sentences p ordinal xs = Inr ys" "placed prev final xs" "0 \<le> prev"
  shows "ys \<noteq> [] \<longrightarrow> placed (c_start p + prev) (c_end p) ys"
    and "map c_ordinal ys = map (\<lambda>i. ordinal + int i) [0..<length xs]"
    and "map c_uuid ys = map c_uuid xs" "map c_text ys = map c_text xs"
proof -
  have "(ys \<noteq> [] \<longrightarrow> placed (c_start p + prev) (c_end p) ys) \<and>
      map c_ordinal ys = map (\<lambda>i. ordinal + int i) [0..<length xs] \<and>
      map c_uuid ys = map c_uuid xs \<and> map c_text ys = map c_text xs"
    using assms
  proof (induction p ordinal xs arbitrary: ys prev rule: shift_sentences.induct)
    case (2 p ordinal x xs)
    then obtain rest where ok: "c_start p + c_end x \<le> c_end p" "0 \<le> c_start x" "c_start x < c_end x"
      and rest: "shift_sentences p (ordinal + 1) xs = Inr rest"
      and ys: "ys = x\<lparr>c_start := c_start p + c_start x, c_end := c_start p + c_end x, c_ordinal := ordinal\<rparr> # rest"
      by (auto simp: Let_def split: if_splits)
    from ok have cond: "\<not> (c_start p + c_start x < c_start p \<or> c_end p < c_start p + c_end x \<or>
        c_start p + c_end x \<le> c_start p + c_start x)" by simp
    from "2.prems" have pl: "prev \<le> c_start x" "placed (c_end x) final xs" by auto
    from "2.IH" [OF refl refl cond rest pl(2)] ok have
      ih: "rest \<noteq> [] \<longrightarrow> placed (c_start p + c_end x) (c_end p) rest"
        "map c_ordinal rest = map (\<lambda>i. ordinal + 1 + int i) [0..<length xs]"
        "map c_uuid rest = map c_uuid xs" "map c_text rest = map c_text xs" by auto
    have "map (\<lambda>i. ordinal + int i) [0..<Suc (length xs)] = ordinal # map (\<lambda>i. ordinal + 1 + int i) [0..<length xs]"
      by (simp only: upt_conv_Cons zero_less_Suc map_Suc_upt [symmetric] list.map map_map) (simp add: o_def add.assoc)
    then show ?case using ih ok pl by (cases "rest = []") (auto simp: ys)
  qed simp
  then show "ys \<noteq> [] \<longrightarrow> placed (c_start p + prev) (c_end p) ys"
    "map c_ordinal ys = map (\<lambda>i. ordinal + int i) [0..<length xs]"
    "map c_uuid ys = map c_uuid xs" "map c_text ys = map c_text xs" by blast+
qed

lemma shift_batches_grouped:
  assumes "shift_batches ordinal pbs = Inr ss" "placed a b (map fst pbs)"
    and "\<forall>(p, batch)\<in>set pbs. \<exists>final. placed 0 final batch"
  shows "\<exists>groups. map fst groups = map fst pbs \<and> concat (map snd groups) = ss \<and> grouped_between a b groups \<and>
    map c_ordinal ss = map (\<lambda>i. ordinal + int i) [0..<length ss] \<and>
    map c_uuid ss = concat (map (\<lambda>pb. map c_uuid (snd pb)) pbs)"
  using assms
proof (induction ordinal pbs arbitrary: ss a rule: shift_batches.induct)
  case (2 ordinal p batch rest)
  then obtain xs ys where ne: "batch \<noteq> []" and xs: "shift_sentences p ordinal batch = Inr xs"
    and ys: "shift_batches (ordinal + int (length batch)) rest = Inr ys" and ss: "ss = xs @ ys"
    by (auto split: if_splits)
  from "2.prems"(3) obtain final where "placed 0 final batch" by auto
  note sh = shift_sentences_placed [OF xs this order_refl]
  have len: "length xs = length batch" using sh(3) by (rule map_eq_imp_length_eq)
  then have "xs \<noteq> []" using ne by auto
  from "2.prems" have p: "a \<le> c_start p" "placed (c_end p) b (map fst rest)" by auto
  have "\<forall>(p, batch)\<in>set rest. \<exists>final. placed 0 final batch" using "2.prems"(3) by auto
  from "2.IH" [OF ne ys p(2) this] obtain groups where g: "map fst groups = map fst rest"
    "concat (map snd groups) = ys" "grouped_between (c_end p) b groups"
    "map c_ordinal ys = map (\<lambda>i. ordinal + int (length batch) + int i) [0..<length ys]"
    "map c_uuid ys = concat (map (\<lambda>pb. map c_uuid (snd pb)) rest)" by blast
  have "[0..<length ss] = [0..<length xs] @ map (\<lambda>i. i + length xs) [0..<length ys]"
    by (simp only: map_add_upt ss length_append) (simp add: upt_add_eq_append [of 0] add.commute)
  then have "map c_ordinal ss = map (\<lambda>i. ordinal + int i) [0..<length ss]"
    using sh(2) g(4) len by (simp add: ss o_def algebra_simps)
  then show ?case
    using g sh p ne \<open>xs \<noteq> []\<close> by (intro exI [of _ "(p, xs) # groups"]) (auto simp: ss)
qed (auto intro: exI [of _ "[]"])

text \<open>A paragraph finds exactly its own sentences, in their order.\<close>

lemma grouped_between_le: "grouped_between a b groups \<Longrightarrow> a \<le> b"
  by (induction groups arbitrary: a) (force dest: placed_le)+

lemma grouped_mem:
  assumes "grouped_between a b groups" "(p, ss) \<in> set groups" "s \<in> set ss"
  shows "a \<le> c_start s \<and> c_start s < b \<and> c_start p \<le> c_start s \<and> c_start s < c_end p"
  using assms
proof (induction groups arbitrary: a)
  case (Cons g groups)
  obtain p' ss' where g: "g = (p', ss')" by (cases g)
  show ?case
  proof (cases "(p, ss) = g")
    case True
    with Cons.prems have "placed (c_start p) (c_end p) ss" "a \<le> c_start p" "grouped_between (c_end p) b groups"
      by (auto simp: g)
    with placed_mem [OF this(1) Cons.prems(3)] grouped_between_le [OF this(3)] show ?thesis by auto
  next
    case False
    with Cons.prems have "(p, ss) \<in> set groups" "grouped_between (c_end p') b groups"
      "a \<le> c_start p'" "placed (c_start p') (c_end p') ss'" by (auto simp: g)
    with Cons.IH [OF this(2,1) Cons.prems(3)] placed_le [OF this(4)] show ?thesis by auto
  qed
qed simp

lemma placed_sorted: "placed a b rs \<Longrightarrow> sorted_wrt (\<lambda>x y. c_start x < c_start y) rs"
  by (induction rs arbitrary: a) (force dest: placed_mem)+

lemma placed_sort_key:
  assumes "placed a b rs"
  shows "sort_key (\<lambda>c. (c_start c, c_end c, c_ordinal c)) rs = rs"
proof (rule sort_key_id_if_sorted)
  have "sorted_wrt (\<lambda>x y. (c_start x, c_end x, c_ordinal x) \<le> (c_start y, c_end y, c_ordinal y)) rs"
    by (rule sorted_wrt_mono_rel [OF _ placed_sorted [OF assms]]) simp
  then show "sorted (map (\<lambda>c. (c_start c, c_end c, c_ordinal c)) rs)" by (simp add: sorted_map)
qed

lemma paragraph_finds_sentences:
  assumes "grouped_between a b groups" "(p, ss) \<in> set groups"
  shows "sentence_chunks_for_paragraph p (concat (map snd groups)) = Inr ss"
proof -
  let ?in = "\<lambda>c. c_start p \<le> c_start c \<and> c_start c < c_end p"
  have "ss \<noteq> [] \<and> placed (c_start p) (c_end p) ss \<and> filter ?in (concat (map snd groups)) = ss"
    using assms
  proof (induction groups arbitrary: a)
    case (Cons g groups)
    obtain p' ss' where g: "g = (p', ss')" by (cases g)
    from Cons.prems(1) have gb: "ss' \<noteq> []" "placed (c_start p') (c_end p') ss'" "grouped_between (c_end p') b groups"
      by (auto simp: g)
    show ?case
    proof (cases "(p, ss) = g")
      case True
      then have eq: "p' = p" "ss' = ss" by (auto simp: g)
      have "filter ?in ss = ss" using placed_mem [OF gb(2)] by (fastforce simp: filter_id_conv eq)
      moreover have "filter ?in (concat (map snd groups)) = []"
        using grouped_mem [OF gb(3)] by (fastforce simp: filter_empty_conv eq)
      ultimately show ?thesis using gb by (simp add: g eq)
    next
      case False
      with Cons.prems(2) have mem: "(p, ss) \<in> set groups" by simp
      from Cons.IH [OF gb(3) mem] obtain s where ih: "ss \<noteq> []" "placed (c_start p) (c_end p) ss"
        "filter ?in (concat (map snd groups)) = ss" "s \<in> set ss" by (cases ss) auto
      have "c_end p' \<le> c_start p"
        using gb(3) mem by (induction groups arbitrary: p') (fastforce dest: placed_le)+
      then have "filter ?in ss' = []"
        using placed_mem [OF gb(2)] by (fastforce simp: filter_empty_conv)
      with ih show ?thesis by (simp add: g)
    qed
  qed simp
  then show ?thesis by (auto simp: sentence_chunks_for_paragraph_def Let_def placed_sort_key)
qed

lemma in_order_append: "in_order a m xs \<Longrightarrow> in_order m b ys \<Longrightarrow> in_order a b (xs @ ys)"
proof (induction xs arbitrary: a)
  case Nil
  then show ?case
  proof (cases ys)
    case (Cons y ys')
    with Nil show ?thesis by force
  qed simp
qed auto

lemma placed_in_order: "placed a b rs \<Longrightarrow> in_order a b (map exact_input_of rs)"
  by (induction rs arbitrary: a) (auto simp: exact_input_of_def)

lemma grouped_in_order: "grouped_between a b groups \<Longrightarrow> in_order a b (map exact_input_of (concat (map snd groups)))"
proof (induction groups arbitrary: a)
  case (Cons g groups)
  obtain p ss where g: "g = (p, ss)" by (cases g)
  with Cons.prems have gb: "a \<le> c_start p" "placed (c_start p) (c_end p) ss" "grouped_between (c_end p) b groups"
    by auto
  from gb(1,2) have "placed a (c_end p) ss" by (cases ss) auto
  from in_order_append [OF placed_in_order [OF this] Cons.IH [OF gb(3)]] show ?case by (simp add: g)
qed simp

section \<open>The plan exists and reads as the source\<close>

definition plan_rows :: "sentence_plan \<Rightarrow> (runtime_chunk \<times> exact_piece) list" where
  "plan_rows plan = concat (map snd plan)"

lemma build_total:
  assumes "in_order 0 (int (length src)) chunks" "chunks \<noteq> []"
  shows "\<exists>pieces. build_exact_pieces src chunks 0 None True = Inr pieces"
proof -
  from scan_chunks_total [OF assms(1)] obtain pieces final where
    scan: "scan_chunks src (int (length src)) True 0 chunks = Inr (pieces, final)" by force
  then have "length pieces = length chunks" using scan_chunks_text [OF scan] by simp
  then have "pieces \<noteq> []" using assms(2) by auto
  with scan show ?thesis by (simp add: build_exact_pieces_def)
qed

lemma assign_pieces:
  assumes "distinct (map c_uuid xs)" "length pieces = length xs"
  shows "map (\<lambda>s. (s, the (map_of (dict_update [] (zip (map c_uuid xs) pieces)) (c_uuid s)))) xs = zip xs pieces"
proof (rule nth_equalityI)
  fix i assume i: "i < length (map (\<lambda>s. (s, the (map_of (dict_update [] (zip (map c_uuid xs) pieces)) (c_uuid s)))) xs)"
  have "map_of (dict_update [] (zip (map c_uuid xs) pieces)) = map_of (zip (map c_uuid xs) pieces)"
    using assms by (simp add: map_of_dict_update)
  moreover have "map_of (zip (map c_uuid xs) pieces) (map c_uuid xs ! i) = Some (pieces ! i)"
    using assms i by (intro map_of_zip_nth) auto
  ultimately show "map (\<lambda>s. (s, the (map_of (dict_update [] (zip (map c_uuid xs) pieces)) (c_uuid s)))) xs ! i =
      zip xs pieces ! i" using assms i by simp
qed (use assms in simp)

lemma exact_sentence_plan_total:
  assumes "grouped_between 0 (int (length src)) groups" "groups \<noteq> []"
    and "distinct (map c_uuid (concat (map snd groups)))"
  shows "\<exists>plan pieces. exact_sentence_plan src (map fst groups) (concat (map snd groups)) = Inr plan \<and>
    build_exact_pieces src (map exact_input_of (concat (map snd groups))) 0 None True = Inr pieces \<and>
    map fst plan = map fst groups \<and> map (map fst \<circ> snd) plan = map snd groups \<and>
    plan_rows plan = zip (concat (map snd groups)) pieces"
proof -
  let ?ss = "concat (map snd groups)"
  have "map_result (\<lambda>p. bind_result (sentence_chunks_for_paragraph p ?ss) (\<lambda>ss. Inr (p, ss))) (map fst groups) = Inr groups"
    unfolding map_result_Inr_iff list_all2_map1 list_all2_same
    using paragraph_finds_sentences [OF assms(1)] by (auto simp del: map_map)
  moreover from assms have "?ss \<noteq> []" by (cases groups) auto
  with build_total [OF grouped_in_order [OF assms(1)]] obtain pieces where
    pieces: "build_exact_pieces src (map exact_input_of ?ss) 0 None True = Inr pieces" by auto
  moreover define f where "f = (\<lambda>s :: runtime_chunk. (s, the (map_of (dict_update [] (zip (map c_uuid ?ss) pieces)) (c_uuid s))))"
  ultimately have plan: "exact_sentence_plan src (map fst groups) ?ss = Inr (map (\<lambda>(p, ss). (p, map f ss)) groups)"
    by (simp add: exact_sentence_plan_def Let_def f_def)
  have "length pieces = length ?ss" using build_exact_pieces_text [OF pieces] by simp
  with assign_pieces [OF assms(3)] have "map f ?ss = zip ?ss pieces" by (simp add: f_def)
  moreover have "plan_rows (map (\<lambda>(p, ss). (p, map f ss)) groups) = map f ?ss"
    by (induction groups) (auto simp: plan_rows_def)
  moreover have "map (map fst \<circ> snd) (map (\<lambda>(p, ss). (p, map f ss)) groups) = map snd groups"
    by (auto simp: f_def o_def)
  ultimately show ?thesis using plan pieces by (auto simp: split_beta o_def)
qed

end
