(* ===== verification/Py_Regex.thy ===== *)
theory Py_Regex
  imports Py_Values
begin

text \<open>
  The regular expressions the services use, all of them sequences of character classes with a
  number of repetitions and of word boundaries: matching at a position with greedy repetition and
  backtracking as \<open>re\<close> does it, and \<open>search\<close>, \<open>findall\<close> and \<open>sub\<close> on top of it.
\<close>

datatype atom = Rep "char \<Rightarrow> bool" nat "nat option" | Boundary

section \<open>Character classes\<close>

definition code_in :: "(nat \<times> nat) list \<Rightarrow> char \<Rightarrow> bool" where
  "code_in ranges c \<longleftrightarrow> list_ex (\<lambda>(a, b). a \<le> (of_char c :: nat) \<and> of_char c \<le> b) ranges"

definition ascii_lower :: "char \<Rightarrow> bool" where "ascii_lower = code_in [(97, 122)]"
definition ascii_letter :: "char \<Rightarrow> bool" where "ascii_letter = code_in [(65, 90), (97, 122)]"

text \<open>\<open>\d\<close> and \<open>\w\<close> on code points below 256.\<close>

definition digit_char :: "char \<Rightarrow> bool" where "digit_char = code_in [(48, 57)]"

definition word_char :: "char \<Rightarrow> bool" where
  "word_char = code_in [(48, 57), (65, 90), (95, 95), (97, 122), (170, 170), (178, 179), (181, 181),
     (185, 186), (188, 190), (192, 214), (216, 246), (248, 255)]"

definition one_of :: "string \<Rightarrow> char \<Rightarrow> bool" where
  "one_of cs c \<longleftrightarrow> List.member cs c"

definition literal :: "string \<Rightarrow> atom list" where
  "literal s = map (\<lambda>c. Rep (\<lambda>d. d = c) 1 (Some 1)) s"

section \<open>Matching at a position\<close>

text \<open>Is there a word boundary between the previous character and the next one?\<close>

definition boundary :: "char option \<Rightarrow> string \<Rightarrow> bool" where
  "boundary previous s \<longleftrightarrow>
     (case previous of None \<Rightarrow> False | Some c \<Rightarrow> word_char c) \<noteq> (case s of [] \<Rightarrow> False | c # _ \<Rightarrow> word_char c)"

primrec try_down :: "(nat \<Rightarrow> 'a option) \<Rightarrow> nat \<Rightarrow> nat \<Rightarrow> 'a option" where
  "try_down f lo 0 = (if lo = 0 then f 0 else None)"
| "try_down f lo (Suc n) =
     (if Suc n < lo then None else case f (Suc n) of Some r \<Rightarrow> Some r | None \<Rightarrow> try_down f lo n)"

definition run_length :: "(char \<Rightarrow> bool) \<Rightarrow> nat option \<Rightarrow> string \<Rightarrow> nat" where
  "run_length c hi s = (let n = length (takeWhile c s) in case hi of None \<Rightarrow> n | Some h \<Rightarrow> min h n)"

definition last_of :: "char option \<Rightarrow> string \<Rightarrow> char option" where
  "last_of previous s = (if s = [] then previous else Some (last s))"

text \<open>The numbers of characters the atoms take, of the match \<open>re\<close> finds first.\<close>

primrec rmatch :: "atom list \<Rightarrow> char option \<Rightarrow> string \<Rightarrow> nat list option" where
  "rmatch [] previous s = Some []"
| "rmatch (a # as) previous s =
     (case a of
        Boundary \<Rightarrow> if boundary previous s then map_option (Cons 0) (rmatch as previous s) else None
      | Rep c lo hi \<Rightarrow>
          try_down (\<lambda>k. map_option (Cons k) (rmatch as (last_of previous (take k s)) (drop k s)))
            lo (run_length c hi s))"

section \<open>Searching and replacing\<close>

text \<open>
  The first match from the position on: what stands before it, what its atoms took, and the rest.
\<close>

fun rsearch :: "atom list \<Rightarrow> char option \<Rightarrow> string \<Rightarrow> (string \<times> nat list \<times> string) option" where
  "rsearch as previous [] = map_option (\<lambda>ns. ([], ns, [])) (rmatch as previous [])"
| "rsearch as previous (c # s) =
     (case rmatch as previous (c # s) of
        Some ns \<Rightarrow> Some ([], ns, c # s)
      | None \<Rightarrow> map_option (\<lambda>(before, r). (c # before, r)) (rsearch as (Some c) s))"

definition group_of :: "nat \<Rightarrow> nat list \<Rightarrow> string \<Rightarrow> string" where
  "group_of i ns s = take (ns ! i) (drop (sum_list (take i ns)) s)"

text \<open>
  \<open>findall\<close> and \<open>sub\<close> for patterns that take at least one character: after a match the scan goes on
  behind it. The fuel is the length of the text, of which every round takes at least one character.
\<close>

fun scan_all ::
  "nat \<Rightarrow> atom list \<Rightarrow> (nat list \<Rightarrow> string \<Rightarrow> 'a) \<Rightarrow> char option \<Rightarrow> string \<Rightarrow> (string \<times> 'a) list \<times> string" where
  "scan_all 0 as f previous s = ([], s)"
| "scan_all (Suc fuel) as f previous s =
     (case rsearch as previous s of
        None \<Rightarrow> ([], s)
      | Some (before, ns, at) \<Rightarrow>
          let n = sum_list ns; hit = take n at; rest = drop n at in
          if n = 0 then ([], s)
          else (case scan_all fuel as f (last_of previous hit) rest of
              (found, tail) \<Rightarrow> ((before, f ns at) # found, tail)))"

definition findall :: "atom list \<Rightarrow> nat \<Rightarrow> string \<Rightarrow> string list" where
  "findall as i s = map snd (fst (scan_all (length s) as (group_of i) None s))"

definition sub_all :: "atom list \<Rightarrow> (string \<Rightarrow> string) \<Rightarrow> string \<Rightarrow> string" where
  "sub_all as f s =
     (case scan_all (length s) as (\<lambda>ns at. f (take (sum_list ns) at)) None s of
        (found, tail) \<Rightarrow> concat (map (\<lambda>(before, r). before @ r) found) @ tail)"

definition search_group :: "atom list \<Rightarrow> nat \<Rightarrow> string \<Rightarrow> string option" where
  "search_group as i s = map_option (\<lambda>(_, ns, at). group_of i ns at) (rsearch as None s)"

definition fullmatch :: "atom list \<Rightarrow> string \<Rightarrow> bool" where
  "fullmatch as s \<longleftrightarrow> (case rmatch as None s of None \<Rightarrow> False | Some ns \<Rightarrow> sum_list ns = length s)"

section \<open>Replacing keeps the length when the replacement does\<close>

lemma try_down_Some: "try_down f lo n = Some r \<Longrightarrow> \<exists>k. k \<le> n \<and> lo \<le> k \<and> f k = Some r"
proof (induction n)
  case (Suc n)
  show ?case
  proof (cases "f (Suc n)")
    case None
    with Suc.prems have "try_down f lo n = Some r" by (simp split: if_splits)
    from Suc.IH [OF this] show ?thesis by (auto intro: le_SucI)
  next
    case (Some x)
    with Suc.prems show ?thesis by (intro exI [of _ "Suc n"]) (simp split: if_splits)
  qed
qed (auto split: if_splits)

lemma run_length_le: "run_length c hi s \<le> length s"
  using length_takeWhile_le [of c s] by (auto simp: run_length_def Let_def split: option.split)

lemma rmatch_length: "rmatch as previous s = Some ns \<Longrightarrow> sum_list ns \<le> length s"
proof (induction as arbitrary: previous s ns)
  case (Cons a as)
  show ?case
  proof (cases a)
    case (Rep c lo hi)
    with Cons.prems obtain k where k: "k \<le> run_length c hi s"
      "map_option (Cons k) (rmatch as (last_of previous (take k s)) (drop k s)) = Some ns"
      by (auto dest: try_down_Some)
    then obtain ms where "ns = k # ms" "rmatch as (last_of previous (take k s)) (drop k s) = Some ms" by auto
    with Cons.IH [OF this(2)] k(1) run_length_le [of c hi s] show ?thesis by simp
  next
    case Boundary
    with Cons show ?thesis by (fastforce split: if_splits)
  qed
qed simp

lemma rsearch_split:
  "rsearch as previous s = Some (before, ns, at) \<Longrightarrow> s = before @ at \<and> sum_list ns \<le> length at"
proof (induction as previous s arbitrary: before rule: rsearch.induct)
  case (1 as previous)
  then show ?case by (auto dest: rmatch_length)
next
  case (2 as previous c s)
  then show ?case by (auto split: option.splits dest: rmatch_length)
qed

lemma scan_all_length:
  assumes "\<And>t. length (f t) = length t"
  shows "scan_all fuel as (\<lambda>ns at. f (take (sum_list ns) at)) previous s = (found, tail) \<Longrightarrow>
    length (concat (map (\<lambda>(before, r). before @ r) found) @ tail) = length s"
proof (induction fuel arbitrary: previous s found tail)
  case (Suc fuel)
  show ?case
  proof (cases "rsearch as previous s")
    case None
    with Suc.prems show ?thesis by simp
  next
    case (Some x)
    obtain before ns at where x: "x = (before, ns, at)" by (cases x)
    note sp = rsearch_split [OF Some [unfolded x]]
    show ?thesis
    proof (cases "sum_list ns = 0")
      case True
      with Suc.prems Some x show ?thesis by simp
    next
      case False
      obtain found' tail' where rec: "scan_all fuel as (\<lambda>ns at. f (take (sum_list ns) at))
          (last_of previous (take (sum_list ns) at)) (drop (sum_list ns) at) = (found', tail')"
        by (cases "scan_all fuel as (\<lambda>ns at. f (take (sum_list ns) at))
          (last_of previous (take (sum_list ns) at)) (drop (sum_list ns) at)")
      with False Suc.prems Some x have "found = (before, f (take (sum_list ns) at)) # found'" "tail = tail'"
        by (auto simp: Let_def simp del: sum_list_eq_0_iff)
      with Suc.IH [OF rec] sp show ?thesis by (simp add: assms)
    qed
  qed
qed simp

lemma sub_all_length: "(\<And>t. length (f t) = length t) \<Longrightarrow> length (sub_all as f s) = length s"
  using scan_all_length [of f "length s" as None s]
  by (auto simp: sub_all_def split: prod.splits)

end
