(* ===== verification/Integrity.thy ===== *)
theory Integrity
  imports Py_Regex Exact_Reconstruction
begin

text \<open>
  The verdict on a round trip (\<open>_integrity_verdict\<close> of \<open>ingestion/runtime_boundary.py\<close>) and the
  diagnostic a refused one discloses (\<open>ingestion/integrity_diagnostics.py\<close>): how much of the source
  may travel with it, to whom, and redacted how.
\<close>

section \<open>UTF-8\<close>

text \<open>\<open>s.encode("utf-8")\<close> of code points below 256, as the list of bytes.\<close>

definition utf8_char :: "char \<Rightarrow> nat list" where
  "utf8_char c = (let n = of_char c in if n < 128 then [n] else [192 + n div 64, 128 + n mod 64])"

definition utf8 :: "string \<Rightarrow> nat list" where
  "utf8 s = concat (map utf8_char s)"

text \<open>
  \<open>len(b[:n].decode("utf-8", errors="ignore"))\<close>: the characters whose bytes lie in the first \<open>n\<close>; a
  character cut in the middle is ignored.
\<close>

fun whole_chars :: "nat \<Rightarrow> string \<Rightarrow> nat" where
  "whole_chars n [] = 0"
| "whole_chars n (c # cs) =
     (let k = length (utf8_char c) in if k \<le> n then Suc (whole_chars (n - k) cs) else 0)"

section \<open>The verdict\<close>

datatype integrity_outcome = Match | Mismatch | Length_boundary

fun shared_prefix :: "nat list \<Rightarrow> nat list \<Rightarrow> nat" where
  "shared_prefix (x # xs) (y # ys) = (if x = y then Suc (shared_prefix xs ys) else 0)"
| "shared_prefix _ _ = 0"

definition integrity_verdict :: "string \<Rightarrow> string \<Rightarrow> integrity_outcome \<times> nat option" where
  "integrity_verdict src reconstructed =
     (if src = reconstructed then (Match, None)
      else let a = utf8 src; b = utf8 reconstructed; shared = min (length a) (length b);
               offset = shared_prefix a b in
        if offset = shared then (Length_boundary, Some shared) else (Mismatch, Some offset))"

section \<open>Redaction\<close>

definition mask_text :: "string \<Rightarrow> string" where
  "mask_text s = replicate (length s) (CHR ''*'')"

text \<open>The patterns of mail addresses, telephone-like runs and long runs of digits.\<close>

definition mail_local :: "char \<Rightarrow> bool" where
  "mail_local c \<longleftrightarrow> ascii_letter c \<or> digit_char c \<or> one_of ''._%+-'' c"

definition mail_domain :: "char \<Rightarrow> bool" where
  "mail_domain c \<longleftrightarrow> ascii_letter c \<or> digit_char c \<or> one_of ''.-'' c"

definition pii_patterns :: "atom list list" where
  "pii_patterns =
     [[Rep mail_local 1 None, Rep (one_of ''@'') 1 (Some 1), Rep mail_domain 1 None,
       Rep (one_of ''.'') 1 (Some 1), Rep ascii_letter 2 None],
      [Rep (one_of ''+'') 0 (Some 1), Rep digit_char 1 (Some 1),
       Rep (\<lambda>c. digit_char c \<or> one_of '' ()-'' c) 7 None, Rep digit_char 1 (Some 1)],
      [Rep digit_char 4 None]]"

definition redact_pii :: "string \<Rightarrow> string" where
  "redact_pii s = fold (\<lambda>p t. sub_all p mask_text t) pii_patterns s"

definition redaction :: "string \<Rightarrow> string \<Rightarrow> string" where
  "redaction policy =
     (if policy = ''none'' then id else if policy = ''redact_pii'' then redact_pii else mask_text)"

definition context_authorized :: "string list" where
  "context_authorized = [''owner'', ''operator'', ''auditor'']"

section \<open>The diagnostic\<close>

record span_diagnostic =
  sp_id :: uuid
  sp_state :: "uuid option"
  sp_document :: "uuid option"
  sp_chapter :: "uuid option"
  sp_chunk :: "uuid option"
  sp_start :: int
  sp_end :: int
  sp_byte_offset :: "nat option"
  sp_length_boundary :: "nat option"
  sp_before :: "string option"
  sp_after :: "string option"
  sp_authorization :: string
  sp_policy :: string
  sp_redacted :: bool
  sp_fragment :: string

datatype diagnostic_error =
    Nothing_to_diagnose | Identical_texts | No_offset | No_authorization | No_policy | Negative_limit
  | Offset_past_end

definition build_integrity_diagnostic ::
  "(string \<Rightarrow> string) \<Rightarrow> uuid \<Rightarrow> string \<Rightarrow> string \<Rightarrow> integrity_outcome \<Rightarrow> nat option
    \<Rightarrow> uuid option \<Rightarrow> uuid option \<Rightarrow> uuid option \<Rightarrow> string \<Rightarrow> string \<Rightarrow> int
    \<Rightarrow> (diagnostic_error, span_diagnostic) result" where
  "build_integrity_diagnostic sha span_id src reconstructed verdict offset document chapter chunk
       authorization policy limit =
     (if verdict = Match then Inl Nothing_to_diagnose
      else if src = reconstructed then Inl Identical_texts
      else case offset of
        None \<Rightarrow> Inl No_offset
      | Some at \<Rightarrow>
          if authorization = [] then Inl No_authorization
          else if policy = [] then Inl No_policy
          else if limit < 0 then Inl Negative_limit
          else if max (length (utf8 src)) (length (utf8 reconstructed)) < at then Inl Offset_past_end
          else
            let located = int (whole_chars at src);
                window_start = max 0 (located - limit);
                window_end = min (int (length src)) (located + limit);
                allowed = List.member context_authorized authorization;
                exact_before = slice src window_start located;
                exact_after = slice src located window_end;
                redacted_before = redaction policy exact_before;
                redacted_after = redaction policy exact_after
            in Inr \<lparr>sp_id = span_id, sp_state = None, sp_document = document, sp_chapter = chapter,
                 sp_chunk = chunk, sp_start = window_start, sp_end = window_end,
                 sp_byte_offset = (if verdict = Mismatch then Some at else None),
                 sp_length_boundary = (if verdict = Length_boundary then Some at else None),
                 sp_before = (if allowed then Some (take (nat limit) redacted_before) else None),
                 sp_after = (if allowed then Some (take (nat limit) redacted_after) else None),
                 sp_authorization = authorization, sp_policy = policy,
                 sp_redacted = (allowed \<and> (redacted_before \<noteq> exact_before \<or> redacted_after \<noteq> exact_after)),
                 sp_fragment = sha (slice src window_start window_end)\<rparr>)"

section \<open>What the verdict means\<close>

lemma shared_prefix_le: "shared_prefix xs ys \<le> min (length xs) (length ys)"
  by (induction xs ys rule: shared_prefix.induct) auto

lemma shared_prefix_take: "take (shared_prefix xs ys) xs = take (shared_prefix xs ys) ys"
  by (induction xs ys rule: shared_prefix.induct) auto

lemma shared_prefix_differs:
  "shared_prefix xs ys < min (length xs) (length ys) \<Longrightarrow> xs ! shared_prefix xs ys \<noteq> ys ! shared_prefix xs ys"
  by (induction xs ys rule: shared_prefix.induct) auto

lemma utf8_char_nonempty [simp]: "utf8_char c \<noteq> []"
  by (simp add: utf8_char_def Let_def)

lemma utf8_simps [simp]: "utf8 [] = []" "utf8 (c # s) = utf8_char c @ utf8 s"
  by (simp_all add: utf8_def)

lemma of_char_bound: "(of_char c :: nat) < 256"
  by (rule nat_of_char_less_256)

text \<open>The first byte of a character tells its length, and the bytes tell the character.\<close>

lemma utf8_char_append:
  assumes "utf8_char c @ xs = utf8_char d @ ys"
  shows "c = d \<and> xs = ys"
proof -
  let ?m = "of_char c :: nat" and ?n = "of_char d :: nat"
  have b: "?m < 256" "?n < 256" by (rule of_char_bound)+
  have "?m = ?n \<and> xs = ys"
  proof (cases "?m < 128"; cases "?n < 128")
    assume "\<not> ?m < 128" "\<not> ?n < 128"
    with assms have "?m div 64 = ?n div 64" "?m mod 64 = ?n mod 64" "xs = ys"
      by (auto simp: utf8_char_def Let_def)
    then show ?thesis by (metis div_mult_mod_eq)
  qed (use assms b in \<open>auto simp: utf8_char_def Let_def\<close>)
  then show ?thesis by simp
qed

lemma utf8_inj: "utf8 s = utf8 t \<Longrightarrow> s = t"
proof (induction s arbitrary: t)
  case Nil
  then show ?case by (cases t) auto
next
  case (Cons c s)
  then obtain d t' where "t = d # t'" by (cases t) auto
  with Cons utf8_char_append [of c "utf8 s" d "utf8 t'"] show ?case by auto
qed

lemma whole_chars_le: "whole_chars n s \<le> length s"
  by (induction n s rule: whole_chars.induct) (auto simp: Let_def)

lemma redact_pii_length: "length (redact_pii s) = length s"
proof -
  have "length (fold (\<lambda>p t. sub_all p mask_text t) ps s) = length s" for ps s
    by (induction ps arbitrary: s) (simp_all add: sub_all_length mask_text_def)
  then show ?thesis by (simp add: redact_pii_def)
qed

lemma redaction_length [simp]: "length (redaction policy s) = length s"
  by (simp add: redaction_def redact_pii_length mask_text_def)

end
