(* ===== verification/Redaction.thy ===== *)
theory Redaction
  imports Integrity "HOL-Library.Sublist"
begin

text \<open>
  What the redaction of a diagnostic hides. A pattern without word boundaries denotes a set of texts; masking
  all its matches leaves no part of the text in that set, and neither does the masking of further patterns
  undo it. The scan for matches is taken as it is modelled: leftmost, greedy, behind the previous match.
\<close>

section \<open>What a pattern spells\<close>

text \<open>The texts a pattern without word boundaries denotes, whatever stands around them.\<close>

primrec spells :: "atom list \<Rightarrow> string \<Rightarrow> bool" where
  "spells [] w \<longleftrightarrow> w = []"
| "spells (a # as) w \<longleftrightarrow> (case a of
       Boundary \<Rightarrow> False
     | Rep c lo hi \<Rightarrow> \<exists>k\<le>length w. lo \<le> k \<and> (case hi of None \<Rightarrow> True | Some h \<Rightarrow> k \<le> h) \<and>
         list_all c (take k w) \<and> spells as (drop k w))"

definition least_length :: "atom list \<Rightarrow> nat" where
  "least_length as = sum_list (map (\<lambda>a. case a of Rep c lo hi \<Rightarrow> lo | Boundary \<Rightarrow> 0) as)"

lemma try_down_total: "lo \<le> k \<Longrightarrow> k \<le> n \<Longrightarrow> f k \<noteq> None \<Longrightarrow> try_down f lo n \<noteq> None"
  by (induction n) (auto split: option.splits simp: le_Suc_eq)

lemma takeWhile_append_all: "list_all c u \<Longrightarrow> length u \<le> length (takeWhile c (u @ t))"
  by (induction u) auto

lemma rmatch_complete: "spells as w \<Longrightarrow> rmatch as previous (w @ t) \<noteq> None"
proof (induction as arbitrary: previous w)
  case (Cons a as)
  show ?case
  proof (cases a)
    case (Rep c lo hi)
    with Cons.prems obtain k where k: "k \<le> length w" "lo \<le> k" "case hi of None \<Rightarrow> True | Some h \<Rightarrow> k \<le> h"
      "list_all c (take k w)" "spells as (drop k w)" by auto
    have "length (take k w) \<le> length (takeWhile c (take k w @ drop k w @ t))" by (rule takeWhile_append_all [OF k(4)])
    moreover have "take k w @ drop k w @ t = w @ t" by (simp flip: append_assoc)
    ultimately have "k \<le> length (takeWhile c (w @ t))" using k(1) by (simp only: length_take min_absorb2)
    then have run: "k \<le> run_length c hi (w @ t)"
      using k(3) by (auto simp: run_length_def Let_def split: option.splits)
    from Cons.IH [OF k(5), of "last_of previous (take k w)"] k(1)
    have "map_option (Cons k) (rmatch as (last_of previous (take k (w @ t))) (drop k (w @ t))) \<noteq> None" by simp
    with try_down_total [where f = "\<lambda>k. map_option (Cons k) (rmatch as (last_of previous (take k (w @ t))) (drop k (w @ t)))", OF k(2) run]
    show ?thesis by (simp add: Rep)
  next
    case Boundary
    with Cons.prems show ?thesis by simp
  qed
qed simp

lemma spells_least: "spells as w \<Longrightarrow> least_length as \<le> length w"
proof (induction as arbitrary: w)
  case (Cons a as)
  then show ?case by (cases a) (fastforce simp: least_length_def)+
qed (simp add: least_length_def)

lemma rmatch_least: "rmatch as previous s = Some ns \<Longrightarrow> least_length as \<le> sum_list ns"
proof (induction as arbitrary: previous s ns)
  case (Cons a as)
  show ?case
  proof (cases a)
    case (Rep c lo hi)
    with Cons.prems obtain k where k: "lo \<le> k"
      "map_option (Cons k) (rmatch as (last_of previous (take k s)) (drop k s)) = Some ns"
      by (auto dest: try_down_Some)
    then obtain ms where "ns = k # ms" "rmatch as (last_of previous (take k s)) (drop k s) = Some ms" by auto
    with Cons.IH [OF this(2)] k(1) show ?thesis by (simp add: least_length_def Rep)
  next
    case Boundary
    with Cons show ?thesis by (fastforce simp: least_length_def split: if_splits)
  qed
qed (simp add: least_length_def)

text \<open>A search finds nothing only where nothing is spelt, and no spelt text begins before what it finds.\<close>

lemma rsearch_None:
  assumes "rsearch as previous s = None"
  shows "s = u @ w @ t \<Longrightarrow> \<not> spells as w"
  using assms
proof (induction as previous s arbitrary: u rule: rsearch.induct)
  case (1 as previous)
  with rmatch_complete [of as w previous t] show ?case by auto
next
  case (2 as previous c s)
  show ?case
  proof (cases u)
    case Nil
    with "2.prems"(1) rmatch_complete [of as w previous t] have "spells as w \<Longrightarrow> rmatch as previous (c # s) \<noteq> None" by simp
    with "2.prems"(2) show ?thesis by (auto split: option.splits)
  next
    case (Cons d u')
    with "2.prems" "2.IH" [of u'] show ?thesis by (auto split: option.splits)
  qed
qed

lemma rsearch_first:
  assumes "rsearch as previous s = Some (before, ns, at)"
  shows "s = u @ w @ t \<Longrightarrow> spells as w \<Longrightarrow> length before \<le> length u"
  using assms
proof (induction as previous s arbitrary: u before rule: rsearch.induct)
  case (2 as previous c s)
  show ?case
  proof (cases u)
    case Nil
    with "2.prems"(1,2) rmatch_complete [of as w previous t] have "rmatch as previous (c # s) \<noteq> None" by simp
    with "2.prems"(3) show ?thesis by (auto split: option.splits)
  next
    case (Cons d u')
    with "2.prems" "2.IH" [of u'] show ?thesis by (fastforce split: option.splits)
  qed
qed auto

lemma rsearch_nonempty:
  "rsearch as previous s = Some (before, ns, at) \<Longrightarrow> least_length as \<le> sum_list ns"
  by (induction as previous s arbitrary: before rule: rsearch.induct) (auto split: option.splits dest: rmatch_least)

section \<open>Masking leaves nothing spelt\<close>

abbreviation star :: char where "star \<equiv> CHR ''*''"

definition clean :: "atom list \<Rightarrow> string \<Rightarrow> bool" where
  "clean as s \<longleftrightarrow> (\<forall>w. sublist w s \<and> star \<notin> set w \<longrightarrow> \<not> spells as w)"

lemma sublist_around_stars:
  assumes "sublist w (b @ replicate n star @ r)" "star \<notin> set w" "0 < n"
  shows "sublist w b \<or> sublist w r"
proof -
  consider "w = []" | "w \<noteq> []" by blast
  then show ?thesis
  proof cases
  case 1
  then show ?thesis by simp
  next
  case 2
  from assms(1) obtain u t where eq: "u @ w @ t = b @ replicate n star @ r" by (auto simp: sublist_def)
  show ?thesis
  proof (cases "length u + length w \<le> length b")
    case True
    then have "b = take (length b) (u @ w @ t)" by (simp add: eq)
    also have "\<dots> = u @ w @ take (length b - length u - length w) t" using True by simp
    finally show ?thesis by (metis sublist_def)
  next
    case False
    have "length b + n \<le> length u"
    proof (rule ccontr)
      assume "\<not> length b + n \<le> length u"
      define i where "i = max (length u) (length b)"
      have i: "length u \<le> i" "i < length u + length w" "length b \<le> i" "i < length b + n"
        using False assms(3) \<open>\<not> length b + n \<le> length u\<close> 2 by (auto simp: i_def)
      then have "i - length u < length w" by simp
      with i(1) have "(u @ w @ t) ! i = w ! (i - length u)" by (simp add: nth_append)
      moreover have "i - length b < n" using i by simp
      with i(3) have "(b @ replicate n star @ r) ! i = star" by (simp add: nth_append)
      ultimately have "star \<in> set w" using \<open>i - length u < length w\<close> eq by (metis nth_mem)
      with assms(2) show False by simp
    qed
    then have "r = drop (length b + n) (u @ w @ t)" by (simp add: eq)
    also have "\<dots> = drop (length b + n) u @ w @ t" using \<open>length b + n \<le> length u\<close> by simp
    finally show ?thesis by (metis sublist_def)
  qed
  qed
qed

lemma scan_all_clean:
  assumes "0 < least_length as"
  shows "scan_all fuel as (\<lambda>ns at. mask_text (take (sum_list ns) at)) previous s = (found, tail) \<Longrightarrow>
    length s \<le> fuel \<Longrightarrow> clean as (concat (map (\<lambda>(before, r). before @ r) found) @ tail)"
proof (induction fuel arbitrary: previous s found tail)
  case 0
  have "\<not> spells as []"
    using spells_least [of as "[]"] assms by auto
  with 0 show ?case by (auto simp: clean_def)
next
  case (Suc fuel)
  show ?case
  proof (cases "rsearch as previous s")
    case None
    with Suc.prems rsearch_None [OF None] show ?thesis by (auto simp: clean_def sublist_def)
  next
    case (Some x)
    obtain before ns at where x: "x = (before, ns, at)" by (cases x)
    note hit = Some [unfolded x]
    note sp = rsearch_split [OF hit]
    define n where "n = sum_list ns"
    have n: "0 < n" "n \<le> length at" using rsearch_nonempty [OF hit] assms sp by (simp_all add: n_def)
    obtain found' tail' where rec: "scan_all fuel as (\<lambda>ns at. mask_text (take (sum_list ns) at))
        (last_of previous (take n at)) (drop n at) = (found', tail')"
      by (cases "scan_all fuel as (\<lambda>ns at. mask_text (take (sum_list ns) at)) (last_of previous (take n at)) (drop n at)")
    let ?out' = "concat (map (\<lambda>(before, r). before @ r) found') @ tail'"
    have "(found, tail) = ((before, mask_text (take n at)) # found', tail')"
      using Suc.prems(1) hit rec n(1) by (simp add: Let_def n_def del: sum_list_eq_0_iff)
    then have out: "concat (map (\<lambda>(before, r). before @ r) found) @ tail = before @ replicate n star @ ?out'"
      using n(2) by (simp add: mask_text_def min_absorb2)
    have IH: "clean as ?out'" using Suc.IH [OF rec] Suc.prems(2) sp n by simp
    have "\<not> spells as w" if w: "sublist w (before @ replicate n star @ ?out')" "star \<notin> set w" for w
    proof
      assume s: "spells as w"
      then have "w \<noteq> []"
        using spells_least [of as "[]"] assms by auto
      from sublist_around_stars [OF w n(1)] show False
      proof
        assume "sublist w before"
        then obtain u t where b: "before = u @ w @ t" by (auto simp: sublist_def)
        with sp have "s = u @ w @ (t @ at)" by simp
        from rsearch_first [OF hit this s] b \<open>w \<noteq> []\<close> show False by simp
      next
        assume "sublist w ?out'"
        with IH w(2) s show False by (simp add: clean_def)
      qed
    qed
    then show ?thesis unfolding out clean_def by blast
  qed
qed

lemma sub_all_clean: "0 < least_length as \<Longrightarrow> clean as (sub_all as mask_text s)"
  using scan_all_clean [of as "length s" None s] by (auto simp: sub_all_def split: prod.splits)

text \<open>What a masking changes becomes a star, so it leaves a clean text clean.\<close>

lemma scan_all_stars:
  "scan_all fuel as (\<lambda>ns at. mask_text (take (sum_list ns) at)) previous s = (found, tail) \<Longrightarrow>
    list_all2 (\<lambda>a b. b = a \<or> b = star) s (concat (map (\<lambda>(before, r). before @ r) found) @ tail)"
proof (induction fuel arbitrary: previous s found tail)
  case (Suc fuel)
  show ?case
  proof (cases "rsearch as previous s")
    case None
    with Suc.prems show ?thesis by (simp add: list_all2_same)
  next
    case (Some x)
    obtain before ns at where x: "x = (before, ns, at)" by (cases x)
    note sp = rsearch_split [OF Some [unfolded x]]
    define n where "n = sum_list ns"
    show ?thesis
    proof (cases "n = 0")
      case True
      with Suc.prems Some x show ?thesis by (simp add: n_def list_all2_same)
    next
      case False
      obtain found' tail' where rec: "scan_all fuel as (\<lambda>ns at. mask_text (take (sum_list ns) at))
          (last_of previous (take n at)) (drop n at) = (found', tail')"
        by (cases "scan_all fuel as (\<lambda>ns at. mask_text (take (sum_list ns) at)) (last_of previous (take n at)) (drop n at)")
      have "(found, tail) = ((before, mask_text (take n at)) # found', tail')"
        using Suc.prems Some x rec False by (simp add: Let_def n_def del: sum_list_eq_0_iff)
      moreover have "list_all2 (\<lambda>a b. b = a \<or> b = star) (take n at) (mask_text (take n at))"
        by (simp add: mask_text_def list_all2_conv_all_nth)
      moreover have "s = before @ take n at @ drop n at" using sp by simp
      moreover have "list_all2 (\<lambda>a b. b = a \<or> b = star) before before" by (simp add: list_all2_same)
      ultimately show ?thesis using Suc.IH [OF rec]
        by (simp only: prod.inject list.map concat.simps prod.case append_assoc list_all2_appendI)
    qed
  qed
qed (simp add: list_all2_same)

lemma sub_all_stars: "list_all2 (\<lambda>a b. b = a \<or> b = star) s (sub_all as mask_text s)"
  using scan_all_stars [of "length s" as None s] by (auto simp: sub_all_def split: prod.splits)

lemma clean_starred:
  assumes "clean as s" "list_all2 (\<lambda>a b. b = a \<or> b = star) s t"
  shows "clean as t"
  unfolding clean_def
proof (intro allI impI)
  fix w assume w: "sublist w t \<and> star \<notin> set w"
  then obtain u v where t: "t = u @ w @ v" by (auto simp: sublist_def)
  with assms(2) obtain u' w' v' where s: "s = u' @ w' @ v'" and w': "list_all2 (\<lambda>a b. b = a \<or> b = star) w' w"
    by (auto simp: list_all2_append2)
  from w have "star \<notin> set w" by simp
  with w' have "w' = w" by (induction w' w rule: list_all2_induct) auto
  with s have "sublist w s" by (auto simp: sublist_def)
  with assms(1) w show "\<not> spells as w" by (simp add: clean_def)
qed

section \<open>Redaction of personal data\<close>

text \<open>Is some part of the text a mail address, a telephone-like run or a long run of digits?\<close>

definition shows_pii :: "string \<Rightarrow> bool" where
  "shows_pii t \<longleftrightarrow> (\<exists>p\<in>set pii_patterns. \<exists>w. sublist w t \<and> spells p w)"

lemma spells_chars: "spells as w \<Longrightarrow> c \<in> set w \<Longrightarrow> \<exists>p lo hi. Rep p lo hi \<in> set as \<and> p c"
proof (induction as arbitrary: w)
  case (Cons a as)
  show ?case
  proof (cases a)
    case (Rep p lo hi)
    with Cons.prems obtain k where k: "list_all p (take k w)" "spells as (drop k w)" by auto
    have "c \<in> set (take k w) \<or> c \<in> set (drop k w)" using Cons.prems(2) by (metis Un_iff append_take_drop_id set_append)
    then show ?thesis
    proof
      assume "c \<in> set (take k w)"
      with k(1) Rep show ?thesis by (auto simp: list_all_iff)
    next
      assume "c \<in> set (drop k w)"
      with Cons.IH [OF k(2)] show ?thesis by auto
    qed
  qed (use Cons.prems in simp)
qed simp

lemma pii_no_star: "p \<in> set pii_patterns \<Longrightarrow> spells p w \<Longrightarrow> star \<notin> set w"
  by (rule notI, drule spells_chars, assumption)
    (auto simp: pii_patterns_def mail_local_def mail_domain_def ascii_letter_def digit_char_def one_of_def code_in_def)

lemma pii_least: "p \<in> set pii_patterns \<Longrightarrow> 0 < least_length p"
  by (auto simp: pii_patterns_def least_length_def)

lemma redact_pii_stars: "list_all2 (\<lambda>a b. b = a \<or> b = star) s (redact_pii s)"
proof -
  have "list_all2 (\<lambda>a b. b = a \<or> b = star) s t \<Longrightarrow>
      list_all2 (\<lambda>a b. b = a \<or> b = star) s (fold (\<lambda>p t. sub_all p mask_text t) ps t)" for ps t
  proof (induction ps arbitrary: t)
    case (Cons p ps)
    have "list_all2 (\<lambda>a b. b = a \<or> b = star) s (sub_all p mask_text t)"
      by (rule list_all2_trans [OF _ Cons.prems sub_all_stars]) auto
    from Cons.IH [OF this] show ?case by simp
  qed simp
  then show ?thesis by (simp add: redact_pii_def list_all2_same)
qed

lemma redaction_stars: "list_all2 (\<lambda>a b. b = a \<or> b = star) s (redaction policy s)"
  using redact_pii_stars by (auto simp: redaction_def mask_text_def list_all2_same list_all2_conv_all_nth)

lemma redact_pii_hides: "\<not> shows_pii (redact_pii s)"
proof -
  have steps: "clean p (fold (\<lambda>p t. sub_all p mask_text t) ps t)" if "clean p t \<or> p \<in> set ps \<and> 0 < least_length p" for p ps t
    using that
  proof (induction ps arbitrary: t)
    case (Cons q ps)
    have "clean p (sub_all q mask_text t) \<or> p \<in> set ps \<and> 0 < least_length p"
      using Cons.prems clean_starred [OF _ sub_all_stars] sub_all_clean by auto
    from Cons.IH [OF this] show ?case by simp
  qed simp
  have "clean p (redact_pii s)" if "p \<in> set pii_patterns" for p
    unfolding redact_pii_def using steps that pii_least by blast
  then show ?thesis using pii_no_star by (auto simp: shows_pii_def clean_def)
qed

end
