(* ===== verification/Publication_Mapper.thy ===== *)
theory Publication_Mapper
  imports Ingestion_Plan Py_Regex "HOL-Library.List_Lexorder" "HOL-Library.Char_ord"
begin

unbundle bit_operations_syntax

text \<open>
  The pure half of a publication: the plan of a document version (\<open>ingestion/publication_mapper.py\<close>,
  \<open>ingestion/persistence_plan.py\<close>) and the features of a chunk's text from which its metadata and
  its classifiers are computed (\<open>_chunk_features\<close>, \<open>_chunk_metadata_features\<close>,
  \<open>_semantic_classifier_values\<close> of \<open>ingestion/runtime_boundary.py\<close>). \<open>sha\<close> is the hexadecimal SHA-256
  digest of the UTF-8 encoding of a text. Words of scripts outside Latin-1 do not occur in the
  model's strings, so the stop words and the prefix written in Cyrillic never match.
\<close>

section \<open>Derived identities\<close>

definition hex_word :: "string \<Rightarrow> uuid" where
  "hex_word s = foldl (\<lambda>w c. 16 * w + (case hex_value c of None \<Rightarrow> 0 | Some d \<Rightarrow> word_of_nat d)) 0 s"

text \<open>
  \<open>_stable_uuid4\<close>: the first 16 bytes of the digest with the version stamped into byte 6 and the
  variant into byte 8. Byte \<open>i\<close> of the big-endian bytes holds the bits from \<open>8 * (15 - i)\<close> on.
\<close>

definition stamp_version :: "uuid \<Rightarrow> uuid" where
  "stamp_version w =
     ((w AND NOT (push_bit 76 0xF)) OR push_bit 76 4) AND NOT (push_bit 62 3) OR push_bit 62 2"

definition stable_uuid4 :: "(string \<Rightarrow> string) \<Rightarrow> string \<Rightarrow> uuid" where
  "stable_uuid4 sha v = stamp_version (hex_word (take 32 (sha v)))"

definition version_modulus :: int where
  "version_modulus = 2147483646"

definition source_version_number :: "(string \<Rightarrow> string) \<Rightarrow> string \<Rightarrow> int" where
  "source_version_number sha v = uint (hex_word (take 8 (sha v))) mod version_modulus + 1"

datatype stated_version = Stated_int int | Stated_bool bool | Stated_text string

definition resolve_source_version :: "(string \<Rightarrow> string) \<Rightarrow> stated_version \<Rightarrow> string \<Rightarrow> int" where
  "resolve_source_version sha stated source_version_id =
     (case stated of
        Stated_int n \<Rightarrow> if 0 < n then n else source_version_number sha source_version_id
      | _ \<Rightarrow> source_version_number sha source_version_id)"

section \<open>Names and titles\<close>

text \<open>\<open>PurePosixPath(p).name\<close> and \<open>.suffix\<close>\<close>

definition path_name :: "string \<Rightarrow> string" where
  "path_name p = (let parts = filter (\<lambda>s. s \<noteq> [] \<and> s \<noteq> ''.'') (split_at (CHR ''/'') p) in
     if parts = [] then [] else last parts)"

definition path_suffix :: "string \<Rightarrow> string" where
  "path_suffix p = (let name = path_name p; ext = takeWhile (\<lambda>c. c \<noteq> CHR ''.'') (rev name); stem = length name - length ext - 1
     in if CHR ''.'' \<in> set name \<and> 0 < stem \<and> ext \<noteq> [] then CHR ''.'' # rev ext else [])"

definition source_name_of :: "string option \<Rightarrow> string option" where
  "source_name_of filename = (case filename of
       None \<Rightarrow> None | Some f \<Rightarrow> if f = [] then None else Some (take 512 (path_name f)))"

definition untitled_document :: string where
  "untitled_document = ''Untitled document''"

fun first_heading :: "string list \<Rightarrow> string option" where
  "first_heading [] = None"
| "first_heading (l # ls) =
     (let stripped = py_strip (lstrip_chars (CHR ''#'') (py_strip l)) in
      if stripped \<noteq> [] then Some (take 1024 stripped) else first_heading ls)"

definition title_of :: "string option \<Rightarrow> string \<Rightarrow> string" where
  "title_of filename body =
     (case first_heading (splitlines body) of
        Some t \<Rightarrow> t
      | None \<Rightarrow> take 1024 (case source_name_of filename of
            None \<Rightarrow> untitled_document | Some n \<Rightarrow> if n = [] then untitled_document else n))"

definition file_id_of :: "(string \<Rightarrow> string) \<Rightarrow> uuid \<Rightarrow> string \<Rightarrow> string option \<Rightarrow> uuid" where
  "file_id_of sha document_id body_sha filename =
     stable_uuid4 sha (''doc-store:file:'' @ uuid_str document_id @ '':'' @ body_sha @ '':'' @
       (case filename of None \<Rightarrow> [] | Some f \<Rightarrow> f))"

section \<open>Properties a text states about itself\<close>

definition name_char :: "char \<Rightarrow> bool" where
  "name_char c \<longleftrightarrow> ascii_lower c \<or> digit_char c \<or> one_of ''_-'' c"

definition keyword_pattern :: "string \<Rightarrow> atom list" where
  "keyword_pattern w = Boundary # literal w @ [Rep py_space 1 None, Rep name_char 1 None, Boundary]"

definition sorted_set :: "string list \<Rightarrow> string list" where
  "sorted_set xs = sort (remdups xs)"

definition source_project :: "string \<Rightarrow> string option" where
  "source_project body = search_group (keyword_pattern ''project'') 9 (py_lower body)"

definition source_tags :: "string \<Rightarrow> string list" where
  "source_tags body = sorted_set (findall (keyword_pattern ''tag'') 5 (py_lower body))"

definition source_properties :: "string \<Rightarrow> string option \<Rightarrow> json_dict" where
  "source_properties body default_project =
     (''tags'', J_list (map J_str (source_tags body))) #
     (case (case source_project body of Some p \<Rightarrow> Some p | None \<Rightarrow> default_project) of
        None \<Rightarrow> [] | Some p \<Rightarrow> [(''project'', J_str p)])"

section \<open>The plan\<close>

record request_context =
  q_document :: uuid
  q_source_version :: string
  q_normalized_version :: string
  q_operation :: string
  q_command :: string
  q_text :: string
  q_filename :: "string option"
  q_content_sha :: string
  q_strategy :: string
  q_media_type :: "string option"
  q_byte_length :: "int option"

record persistence_plan =
  l_document :: uuid
  l_source_version_id :: string
  l_normalized_version :: string
  l_operation :: string
  l_command :: string
  l_text :: string
  l_filename :: "string option"
  l_content_sha :: string
  l_strategy :: string
  l_source_version :: int
  l_title :: string
  l_source_name :: "string option"
  l_length :: int
  l_body_sha :: string
  l_file :: uuid
  l_meta :: json_dict
  l_media_type :: "string option"
  l_byte_length :: "int option"

definition document_meta :: "(string \<Rightarrow> string) \<Rightarrow> request_context \<Rightarrow> json_dict" where
  "document_meta sha q =
     (let body_sha = sha (q_text q) in
      dict_update
        [(''file_id'', J_str (uuid_str (file_id_of sha (q_document q) body_sha (q_filename q)))),
         (''source_version_id'', J_str (q_source_version q)),
         (''normalized_source_version_id'', J_str (q_normalized_version q)),
         (''operation_id'', J_str (q_operation q)), (''ingestion_command'', J_str (q_command q)),
         (''chunking_strategy'', J_str (q_strategy q)), (''checksum_algorithm'', J_str ''sha256''),
         (''content_sha256'', J_str (q_content_sha q)), (''source_sha256'', J_str body_sha),
         (''file_sha256'', J_str body_sha), (''body_sha256'', J_str body_sha)]
        (source_properties (q_text q) (Some ''doc-store'')))"

definition map_plan :: "(string \<Rightarrow> string) \<Rightarrow> request_context \<Rightarrow> stated_version \<Rightarrow> persistence_plan" where
  "map_plan sha q stated =
     (let body_sha = sha (q_text q) in
      \<lparr>l_document = q_document q, l_source_version_id = q_source_version q,
       l_normalized_version = q_normalized_version q, l_operation = q_operation q,
       l_command = q_command q, l_text = q_text q, l_filename = q_filename q,
       l_content_sha = q_content_sha q, l_strategy = q_strategy q,
       l_source_version = resolve_source_version sha stated (q_source_version q),
       l_title = title_of (q_filename q) (q_text q), l_source_name = source_name_of (q_filename q),
       l_length = int (length (q_text q)), l_body_sha = body_sha,
       l_file = file_id_of sha (q_document q) body_sha (q_filename q),
       l_meta = document_meta sha q, l_media_type = q_media_type q, l_byte_length = q_byte_length q\<rparr>)"

section \<open>Features of a chunk\<close>

definition word_tokens :: "string \<Rightarrow> string list" where
  "word_tokens body = take 256 (findall [Rep word_char 1 None] 0 (py_lower body))"

definition bm25_tokens :: "string list \<Rightarrow> string list" where
  "bm25_tokens tokens =
     take 256 (filter (\<lambda>t. 2 < length t \<and> \<not> List.member [''the'', ''and'', ''or'', ''of'', ''to''] t) tokens)"

definition category_of :: "string \<Rightarrow> string option \<Rightarrow> string" where
  "category_of body source_name =
     (let lowered = py_lower ((case source_name of None \<Rightarrow> [] | Some n \<Rightarrow> n) @ [char_of (10::nat)] @ take 500 body) in
      if sublist ''%%7d-'' lowered then ''theory''
      else if prefix ''#'' (dropWhile py_space body) then ''heading''
      else ''uncategorized'')"

definition chunk_tags :: "string \<Rightarrow> string option \<Rightarrow> string \<Rightarrow> string list" where
  "chunk_tags body source_name strategy =
     sorted_set (filter (\<lambda>t. t \<noteq> [])
       (source_tags body @
        (case source_name of
           None \<Rightarrow> []
         | Some n \<Rightarrow> if n = [] then []
             else [let s = lstrip_chars (CHR ''.'') (py_lower (path_suffix n)) in if s = [] then ''text'' else s]) @
        [''chunking:'' @ strategy, ''category:'' @ category_of body source_name]))"

definition chunk_features :: "string \<Rightarrow> string option \<Rightarrow> string \<Rightarrow> json_dict" where
  "chunk_features body source_name strategy =
     (let tokens = word_tokens body; tags = chunk_tags body source_name strategy in
      [(''category'', J_str (category_of body source_name)), (''tags'', J_list (map J_str tags)),
       (''tags_flat'', J_str (joined '', '' tags)), (''tokens'', J_list (map J_str tokens)),
       (''bm25_tokens'', J_list (map J_str (bm25_tokens tokens)))])"

definition classifier_fields :: "string list" where
  "classifier_fields = [''type'', ''role'', ''status'', ''block_type'', ''language'', ''category'']"

definition chunk_metadata_features :: "json_dict \<Rightarrow> json_dict" where
  "chunk_metadata_features metadata =
     concat (map (\<lambda>k. let v = json_get metadata k in
       if v = J_null then [] else let t = py_strip (json_str v) in if t = [] then [] else [(k, J_str t)])
       classifier_fields) @
     concat (map (\<lambda>k. let v = json_get metadata k in if v = J_null then [] else [(k, J_str (json_str v))])
       [''chunking_version'', ''block_id'', ''block_index''])"

definition classifier_defaults :: "(string \<times> string) list" where
  "classifier_defaults =
     [(''type'', ''DocBlock''), (''role'', ''system''), (''status'', ''needs_review''),
      (''block_type'', ''paragraph''), (''language'', ''UNKNOWN''), (''category'', ''uncategorized'')]"

definition classifier_values :: "json_dict \<Rightarrow> (string \<times> string) list" where
  "classifier_values features =
     map (\<lambda>(k, d). (k, case json_get features k of
         J_str t \<Rightarrow> if py_strip t = [] then d else py_strip t
       | _ \<Rightarrow> d)) classifier_defaults"

text \<open>The metadata of a paragraph and of a sentence chunk, as \<open>_write_paragraph\<close> and
  \<open>_write_semantic_chunk\<close> put them together.\<close>

definition paragraph_meta :: "persistence_plan \<Rightarrow> runtime_chunk \<Rightarrow> nat \<Rightarrow> json_dict" where
  "paragraph_meta plan p order_index =
     dict_update (dict_update (dict_update (l_meta plan) (source_properties (c_text p) None))
       (dict_update (chunk_features (c_text p) (l_source_name plan) ''paragraph'')
          (chunk_metadata_features (c_meta p))))
       [(''paragraph_number'', J_int (int order_index + 1)), (''chunker'', J_str ''svo'')]"

definition sentence_features :: "persistence_plan \<Rightarrow> runtime_chunk \<Rightarrow> json_dict" where
  "sentence_features plan s =
     dict_set (dict_update (chunk_features (c_text s) (l_source_name plan) ''sentence'')
       (chunk_metadata_features (c_meta s))) ''block_type'' (J_str ''sentence'')"

definition chunk_meta :: "persistence_plan \<Rightarrow> json_dict \<Rightarrow> runtime_chunk \<Rightarrow> uuid \<Rightarrow> uuid \<Rightarrow> json_dict" where
  "chunk_meta plan p_meta s chapter_id paragraph_id =
     (let features = sentence_features plan s in
      dict_update (dict_update (dict_update p_meta features)
        [(''unit_type'', J_str ''sentence''), (''chapter_id'', J_str (uuid_str chapter_id)),
         (''paragraph_id'', J_str (uuid_str paragraph_id)),
         (''source_name'', case l_source_name plan of None \<Rightarrow> J_null | Some n \<Rightarrow> J_str n),
         (''svo_chunk'', J_object (c_meta s))])
        (map (\<lambda>(k, v). (k, J_str v)) (classifier_values features)))"

section \<open>The stable identifiers are version 4, the folded versions fit their column\<close>

lemma source_version_number_bounds:
  "0 < source_version_number sha v \<and> source_version_number sha v \<le> version_modulus"
  by (simp add: source_version_number_def version_modulus_def)

lemma word_nibble:
  fixes w :: "128 word"
  shows "(unat w div 2 ^ 62) mod 4 = unat (take_bit 2 (drop_bit 62 w))"
    "(unat w div 2 ^ 76) mod 16 = unat (take_bit 4 (drop_bit 76 w))"
proof -
  have "unat (take_bit n (drop_bit k w)) = (unat w div 2 ^ k) mod 2 ^ n" for n k
    by (simp only: unsigned_take_bit_eq unat_drop_bit_eq) (simp only: take_bit_eq_mod drop_bit_eq_div)
  from this [of 2 62] this [of 4 76]
  show "(unat w div 2 ^ 62) mod 4 = unat (take_bit 2 (drop_bit 62 w))"
    "(unat w div 2 ^ 76) mod 16 = unat (take_bit 4 (drop_bit 76 w))" by simp_all
qed

lemma stamp_bits:
  "take_bit 2 (drop_bit 62 (stamp_version w)) = 2"
  "take_bit 4 (drop_bit 76 (stamp_version w)) = 4"
  by (auto intro!: bit_word_eqI simp: stamp_version_def bit_simps)

lemma stamp_version_uuid4: "uuid_version (stamp_version w) = Some 4"
  by (simp only: uuid_version_def Let_def word_nibble stamp_bits) simp

lemma stable_uuid4_version: "uuid_version (stable_uuid4 sha v) = Some 4"
  by (simp add: stable_uuid4_def stamp_version_uuid4)

end
