(* ===== verification/Reconstruction_Properties.thy ===== *)
theory Reconstruction_Properties
  imports Text_Reconstruction Ingestion_Plan Redaction Publication_Mapper
begin

text \<open>
  What the chunker boundary, the exact pieces and the reconstruction promise together: the answer of
  the chunker is only accepted where it lies in the source, the pieces stored with its chunks give
  the source back character by character, and the two readers of them agree.
\<close>

section \<open>Rows that store a plan\<close>

text \<open>The rows of a scope with the texts of its chunks and, in their metadata, their pieces.\<close>

definition stored_rows ::
  "chunk_text_row list \<Rightarrow> exact_input list \<Rightarrow> exact_piece list \<Rightarrow> chunk_text_row list" where
  "stored_rows rows chunks pieces =
     map2 (\<lambda>r (c, p). r\<lparr>r_text := in_text c, r_text_meta := merge_piece_metadata (r_text_meta r) p\<rparr>)
       rows (zip chunks pieces)"

lemma stored_rows_pieces:
  assumes "length rows = length chunks" "length pieces = length chunks"
    and "list_all (\<lambda>r. map_of (r_chunk_meta r) exact_key = None) rows" "distinct (map r_chunk rows)"
  shows "pieces_of (stored_rows rows chunks pieces) pieces"
    and "map r_text (stored_rows rows chunks pieces) = map in_text chunks"
proof -
  have "map r_chunk (stored_rows rows chunks pieces) = map r_chunk rows"
    using assms(1,2) by (intro nth_equalityI) (auto simp: stored_rows_def split: prod.splits)
  then show "pieces_of (stored_rows rows chunks pieces) pieces"
    using assms by (auto simp: pieces_of_def stored_rows_def list_all2_conv_all_nth row_piece_def
      select_merged list_all_length split: prod.splits)
  show "map r_text (stored_rows rows chunks pieces) = map in_text chunks"
    using assms(1,2) by (intro nth_equalityI) (auto simp: stored_rows_def split: prod.splits)
qed

lemma built_one_suffix: "build_exact_pieces src chunks a b allow = Inr pieces \<Longrightarrow> one_suffix pieces"
  using build_exact_pieces_text [of src chunks a b allow pieces] by (simp add: one_suffix_def)

lemma stored_rows_read:
  assumes "build_exact_pieces src chunks 0 None allow = Inr pieces"
    and "length rows = length chunks" "distinct (map r_chunk rows)"
    and "list_all (\<lambda>r. map_of (r_chunk_meta r) exact_key = None) rows"
  shows "reconstructed_scope_text (stored_rows rows chunks pieces) = Inr src"
proof -
  note t = build_exact_pieces_text [OF assms(1)]
  from t have len: "length pieces = length chunks" by simp
  note st = stored_rows_pieces [OF assms(2) len assms(4,3)]
  show ?thesis
    using scope_text_of_pieces [OF st(1) built_one_suffix [OF assms(1)]] t st(2) by (simp add: slice_all)
qed

lemma whole_text_scope: "whole_text rows = reconstructed_scope_text rows"
  by (simp add: whole_text_def scope_text_selects)

lemma assemble_unbounded:
  "case reconstructed_scope_text rows of
     Inl e \<Rightarrow> assemble sha limit entity 0 rows = Inl (Metadata e)
   | Inr t \<Rightarrow> \<exists>a. assemble sha limit entity 0 rows = Inr a \<and> a_text a = t \<and> \<not> a_truncated a"
proof (cases "select_exact_pieces rows")
  case (Inl e)
  then show ?thesis by (simp add: scope_text_selects assemble_def)
next
  case (Inr pieces)
  obtain a where a: "assemble sha limit entity 0 rows = Inr a"
  proof (cases "assemble sha limit entity 0 rows")
    case (Inl e)
    with Inr show ?thesis by (simp add: assemble_def Let_def split_beta)
  qed
  from assemble_text [OF a] show ?thesis by (auto simp: whole_text_scope a)
qed

lemma chunk_text_placed:
  assumes "chunk_text adapter client opts body strategy source_id = Inr rs"
  shows "rs \<noteq> [] \<and> placed 0 (int (length body)) rs \<and> map c_ordinal rs = map int [0..<length rs] \<and>
    (\<forall>r\<in>set rs. c_text r \<noteq> [] \<and> uuid_version (c_uuid r) = Some 4)"
proof -
  from assms obtain raw where "validate_runtime_chunks adapter raw body source_id = Inr rs"
    by (auto simp: chunk_text_def)
  then show ?thesis by (rule validate_runtime_chunks_ok)
qed

lemma chunk_batch_placed:
  assumes "chunk_batch adapter client opts texts strategy source_ids = Inr batches" "batch \<in> set batches"
  shows "\<exists>final. placed 0 final batch"
proof -
  from assms obtain zs where "map_result (\<lambda>((b, t), s). validate_runtime_chunks adapter b t s) zs = Inr batches"
    by (auto simp: chunk_batch_def Let_def split: if_splits option.splits)
  then have all: "list_all2 (\<lambda>z b. (\<lambda>((b, t), s). validate_runtime_chunks adapter b t s) z = Inr b) zs batches"
    by (simp only: map_result_Inr_iff)
  from assms(2) obtain i where "i < length batches" "batches ! i = batch" by (auto simp: in_set_conv_nth)
  with list_all2_nthD2 [OF all] obtain z where
    "(\<lambda>((b, t), s). validate_runtime_chunks adapter b t s) z = Inr batch" by blast
  then obtain b t s where "validate_runtime_chunks adapter b t s = Inr batch" by (auto split: prod.splits)
  from validate_runtime_chunks_ok [OF this] show ?thesis by blast
qed

lemma accepted_passes_plan:
  assumes "chunk_text adapter client opts src ''paragraph'' source_id = Inr paragraphs"
    and "sentence_chunks_from_batch (chunk_batch adapter batch_client opts) paragraphs source_id = Inr sentences"
    and "distinct (map c_uuid sentences)"
  obtains plan pieces where "exact_sentence_plan src paragraphs sentences = Inr plan"
    "build_exact_pieces src (map exact_input_of sentences) 0 None True = Inr pieces"
    "map fst plan = paragraphs" "plan_rows plan = zip sentences pieces" "length pieces = length sentences"
    "concat (map (map fst \<circ> snd) plan) = sentences" "map c_ordinal sentences = map int [0..<length sentences]"
    "paragraphs \<noteq> []" "sentences \<noteq> []"
proof -
  note para = chunk_text_placed [OF assms(1)]
  from assms(2) para obtain batches where b: "chunk_batch adapter batch_client opts (map c_text paragraphs) ''sentence''
      (replicate (length paragraphs) source_id) = Inr batches"
    and shift: "shift_batches 0 (zip paragraphs batches) = Inr sentences" "length batches = length paragraphs"
    by (auto simp: sentence_chunks_from_batch_def split: if_splits)
  have "\<forall>(p, batch)\<in>set (zip paragraphs batches). \<exists>final. placed 0 final batch"
    using chunk_batch_placed [OF b] by (auto dest: set_zip_rightD)
  from shift_batches_grouped [OF shift(1) _ this, of 0 "int (length src)"] para shift(2)
  obtain groups where g: "map fst groups = paragraphs" "concat (map snd groups) = sentences"
    "grouped_between 0 (int (length src)) groups" "map c_ordinal sentences = map (\<lambda>i. 0 + int i) [0..<length sentences]" by auto
  then have ne: "groups \<noteq> []" "distinct (map c_uuid (concat (map snd groups)))" using para assms(3) by auto
  with g(2,3) have "sentences \<noteq> []" by (cases groups) auto
  from exact_sentence_plan_total [OF g(3) ne] obtain plan pieces where plan:
    "exact_sentence_plan src paragraphs sentences = Inr plan"
    "build_exact_pieces src (map exact_input_of sentences) 0 None True = Inr pieces"
    "map fst plan = paragraphs" "map (map fst \<circ> snd) plan = map snd groups" "plan_rows plan = zip sentences pieces"
    unfolding g(1,2) by blast
  have "length pieces = length sentences" using build_exact_pieces_text [OF plan(2)] by simp
  with that [OF plan(1-3,5)] plan(4) g(2,4) \<open>sentences \<noteq> []\<close> para show ?thesis by simp
qed

section \<open>The properties\<close>

text \<open>
  C15: The exact pieces of a source are a lossless encoding of it: build them from any chunks whose
  ranges the builder accepts, store each in the metadata of its chunk's text, and the reconstruction
  without a bound returns the source itself, untruncated, whatever the stored chunk texts are.
\<close>

theorem exact_round_trip:
  assumes "build_exact_pieces src chunks 0 None allow = Inr pieces"
    and "length rows = length chunks" "distinct (map r_chunk rows)"
    and "list_all (\<lambda>r. map_of (r_chunk_meta r) exact_key = None) rows"
  shows "\<exists>a. assemble sha limit entity 0 (stored_rows rows chunks pieces) = Inr a \<and>
    a_text a = src \<and> \<not> a_truncated a"
  using assemble_unbounded [where rows = "stored_rows rows chunks pieces" and sha = sha and limit = limit and entity = entity]
    stored_rows_read [OF assms]
  by simp

text \<open>
  C17: The reconstruction with which an ingestion checks itself and the reconstruction command are
  the same function on every list of rows: they refuse the same rows with the same error, and else
  return the same text.
\<close>

theorem reconstructions_agree:
  "case reconstructed_scope_text rows of
     Inl e \<Rightarrow> assemble sha limit entity 0 rows = Inl (Metadata e)
   | Inr t \<Rightarrow> \<exists>a. assemble sha limit entity 0 rows = Inr a \<and> a_text a = t \<and> \<not> a_truncated a"
  by (rule assemble_unbounded)

text \<open>
  C19: A bounded reconstruction returns the prefix of the whole text of that length, never more, and
  says that it is truncated where the whole text is longer.
\<close>

theorem assemble_bounded:
  assumes "assemble sha limit entity cap rows = Inr a" "cap \<noteq> 0"
  shows "\<exists>t. reconstructed_scope_text rows = Inr t \<and> a_text a = take (nat cap) t \<and>
    int (length (a_text a)) \<le> cap \<and> (cap < int (length t) \<longrightarrow> a_truncated a)"
proof -
  have "0 \<le> cap" using assms(1) by (rule assemble_cases)
  moreover from assemble_text [OF assms(1)] assms(2) obtain t where t: "reconstructed_scope_text rows = Inr t"
    "a_text a = take (nat cap) t" "\<not> a_truncated a \<longrightarrow> a_text a = t"
    unfolding whole_text_scope by metis
  moreover from t(2) have "length (a_text a) \<le> nat cap" by simp
  moreover have "a_truncated a" if "cap < int (length t)"
    using that t(2,3) \<open>length (a_text a) \<le> nat cap\<close> \<open>0 \<le> cap\<close> by (auto simp: nat_less_iff)
  ultimately show ?thesis by (intro exI [of _ t]) linarith
qed

text \<open>
  The range map of a reconstruction is true: its entries follow one another without overlap,
  lie inside the returned text, and the text at each entry's range begins the body of the row whose
  chunk and paragraph the entry names.
\<close>

theorem range_map_locates:
  assumes "assemble sha limit entity cap rows = Inr a"
  shows "\<exists>pieces. select_exact_pieces rows = Inr pieces \<and> sorted_wrt follows (a_ranges a) \<and>
    (\<forall>g\<in>set (a_ranges a). locates pieces rows (a_text a) 0 g)"
  by (rule assemble_ranges [OF assms])

text \<open>
  C18: An accepted answer of the chunker is a sequence of non-empty chunks at disjoint, non-empty
  ranges of the source in ascending order, numbered from 0 without a gap, each with an identifier of
  version 4, whatever the ranges were that the chunker stated.
\<close>

theorem accepted_chunks_placed:
  assumes "chunk_text adapter client opts body strategy source_id = Inr rs"
  shows "rs \<noteq> [] \<and> placed 0 (int (length body)) rs \<and> map c_ordinal rs = map int [0..<length rs] \<and>
    (\<forall>r\<in>set rs. c_text r \<noteq> [] \<and> uuid_version (c_uuid r) = Some 4)"
  by (rule chunk_text_placed [OF assms])

text \<open>
  A range that the chunker stated wrongly is relocated soundly: the result lies behind the
  previous chunk and inside the source, is not empty, and the words of the source at it are the
  words of the chunk's body or of its text.
\<close>

theorem relocated_range_matches:
  assumes "resolve_runtime_range src prev raw_start raw_end raw_body text_body = Some (s, e)"
    and "0 \<le> prev" "prev \<le> int (length src)"
  shows "prev \<le> s \<and> s < e \<and> e \<le> int (length src) \<and>
    py_split (slice src s e) \<in> {py_split raw_body, py_split text_body}"
  by (rule resolve_range [OF assms])

text \<open>
  C16: Once both passes of the chunker are accepted, the plan of the publication always exists: every
  paragraph gets exactly its own sentences, every sentence a piece, and any rows that store these
  sentences with these pieces read back as the source. Only the identifiers the chunker gave must
  be distinct.
\<close>

theorem accepted_passes_read_back:
  assumes "chunk_text adapter client opts src ''paragraph'' source_id = Inr paragraphs"
    and "sentence_chunks_from_batch (chunk_batch adapter batch_client opts) paragraphs source_id = Inr sentences"
    and "distinct (map c_uuid sentences)"
    and "length rows = length sentences" "distinct (map r_chunk rows)"
    and "list_all (\<lambda>r. map_of (r_chunk_meta r) exact_key = None) rows"
  shows "\<exists>plan. exact_sentence_plan src paragraphs sentences = Inr plan \<and> map fst plan = paragraphs \<and>
    map fst (plan_rows plan) = sentences \<and>
    reconstructed_scope_text
      (stored_rows rows (map exact_input_of sentences) (map snd (plan_rows plan))) = Inr src"
proof -
  from accepted_passes_plan [OF assms(1-3)] obtain plan pieces where plan:
    "exact_sentence_plan src paragraphs sentences = Inr plan"
    "build_exact_pieces src (map exact_input_of sentences) 0 None True = Inr pieces"
    "map fst plan = paragraphs" "plan_rows plan = zip sentences pieces" "length pieces = length sentences" .
  moreover have "reconstructed_scope_text (stored_rows rows (map exact_input_of sentences) pieces) = Inr src"
    using assms(4-6) by (intro stored_rows_read [OF plan(2)]) auto
  ultimately show ?thesis by auto
qed

text \<open>
  The verdict on a round trip is exact on the UTF-8 bytes: a match means equality; a mismatch
  names the first byte in which the two differ; a length boundary means that one is a proper prefix
  of the other, and names the length of the shorter one.
\<close>

theorem integrity_verdict_exact:
  "case integrity_verdict src back of
     (Match, at) \<Rightarrow> src = back \<and> at = None
   | (Mismatch, at) \<Rightarrow> \<exists>k. at = Some k \<and> k < length (utf8 src) \<and> k < length (utf8 back) \<and>
       take k (utf8 src) = take k (utf8 back) \<and> utf8 src ! k \<noteq> utf8 back ! k
   | (Length_boundary, at) \<Rightarrow> \<exists>k. at = Some k \<and> k = min (length (utf8 src)) (length (utf8 back)) \<and>
       take k (utf8 src) = take k (utf8 back) \<and> length (utf8 src) \<noteq> length (utf8 back)"
proof -
  let ?a = "utf8 src" and ?b = "utf8 back"
  let ?k = "shared_prefix ?a ?b"
  note t = shared_prefix_take [of ?a ?b] and le = shared_prefix_le [of ?a ?b]
  consider "src = back" | "src \<noteq> back" "?k < min (length ?a) (length ?b)"
    | "src \<noteq> back" "?k = min (length ?a) (length ?b)" using le by linarith
  then show ?thesis
  proof cases
    case 2
    then have "?k \<noteq> min (length ?a) (length ?b)" by linarith
    with 2 t shared_prefix_differs [of ?a ?b] show ?thesis by (simp add: integrity_verdict_def Let_def)
  next
    case 3
    have "length ?a \<noteq> length ?b"
    proof
      assume "length ?a = length ?b"
      with t 3(2) have "?a = ?b" by simp
      with 3(1) show False by (simp add: utf8_inj)
    qed
    with t 3 show ?thesis by (simp add: integrity_verdict_def Let_def)
  qed (simp add: integrity_verdict_def)
qed

text \<open>
  C20: A refused round trip always has its diagnostic, and the diagnostic discloses no more than it
  may: its span lies in the source and holds at most twice the limit, nothing of the source travels
  with it unless the authorization is one of the three privileged ones, and what travels is at most the
  limit on either side and differs from the source by masked characters only. Under the policy
  \<open>redact_pii\<close> no part of either side is a mail address, a telephone-like run or a run of four digits;
  under an unknown policy everything is masked.
\<close>

theorem diagnostic_discloses:
  assumes "integrity_verdict src back = (verdict, at)" "src \<noteq> back"
    and "authorization \<noteq> []" "policy \<noteq> []" "0 \<le> limit"
  shows "\<exists>d. build_integrity_diagnostic sha span_id src back verdict at document chapter chunk
      authorization policy limit = Inr d \<and>
    0 \<le> sp_start d \<and> sp_start d \<le> sp_end d \<and> sp_end d \<le> int (length src) \<and>
    sp_end d - sp_start d \<le> 2 * limit \<and>
    (if authorization \<in> set context_authorized
     then (\<exists>b a. sp_before d = Some b \<and> sp_after d = Some a \<and> int (length b) \<le> limit \<and>
       int (length a) \<le> limit \<and>
       list_all2 (\<lambda>x y. y = x \<or> y = CHR ''*'') (slice src (sp_start d) (sp_end d)) (b @ a) \<and>
       (policy = ''none'' \<longrightarrow> b @ a = slice src (sp_start d) (sp_end d)) \<and>
       (policy = ''redact_pii'' \<longrightarrow> \<not> shows_pii b \<and> \<not> shows_pii a) \<and>
       (policy \<noteq> ''none'' \<and> policy \<noteq> ''redact_pii'' \<longrightarrow> set (b @ a) \<subseteq> {CHR ''*''}))
     else sp_before d = None \<and> sp_after d = None)"
proof -
  from assms(1,2) shared_prefix_le [of "utf8 src" "utf8 back"] obtain k where
    at: "at = Some k" "verdict \<noteq> Match" "k \<le> max (length (utf8 src)) (length (utf8 back))"
    by (auto simp: integrity_verdict_def Let_def split: if_splits)
  define l where "l = int (whole_chars k src)"
  have l: "0 \<le> l" "l \<le> int (length src)" using whole_chars_le [of k src] by (simp_all add: l_def)
  let ?s = "max 0 (l - limit)" and ?e = "min (int (length src)) (l + limit)"
  have b: "int (length (slice src ?s l)) \<le> limit" "int (length (slice src l ?e)) \<le> limit"
    using l assms(5) by (auto simp: length_slice)
  have whole: "slice src ?s l @ slice src l ?e = slice src ?s ?e"
    using l assms(5) by (intro slice_append) auto
  let ?b = "redaction policy (slice src ?s l)" and ?a = "redaction policy (slice src l ?e)"
  define allowed where "allowed = List.member context_authorized authorization"
  have ok: "\<not> (verdict = Match)" "\<not> (src = back)" "\<not> (authorization = [])" "\<not> (policy = [])" "\<not> limit < 0"
    "\<not> max (length (utf8 src)) (length (utf8 back)) < k"
    using assms(2-5) at by auto
  have "\<exists>d. build_integrity_diagnostic sha span_id src back verdict at document chapter chunk
      authorization policy limit = Inr d \<and> sp_start d = ?s \<and> sp_end d = ?e \<and>
      sp_before d = (if allowed then Some (take (nat limit) ?b) else None) \<and>
      sp_after d = (if allowed then Some (take (nat limit) ?a) else None)"
    by (simp only: build_integrity_diagnostic_def Let_def at(1) option.case ok if_False
      l_def allowed_def sum.inject simp_thms span_diagnostic.select_convs)
  then obtain d where d: "build_integrity_diagnostic sha span_id src back verdict at document chapter chunk
      authorization policy limit = Inr d"
    and f: "sp_start d = ?s" "sp_end d = ?e"
      "sp_before d = (if allowed then Some (take (nat limit) ?b) else None)"
      "sp_after d = (if allowed then Some (take (nat limit) ?a) else None)"
    by blast
  have len: "length ?b \<le> nat limit" "length ?a \<le> nat limit" using b by (simp_all add: nat_le_eq_zle le_nat_iff)
  have fits: "take (nat limit) ?b = ?b" "take (nat limit) ?a = ?a" by (rule take_all, rule len)+
  have none: "?b @ ?a = slice src ?s ?e" if "policy = ''none''" using that whole by (simp add: redaction_def)
  have stars: "list_all2 (\<lambda>x y. y = x \<or> y = CHR ''*'') (slice src ?s ?e) (?b @ ?a)"
    unfolding whole [symmetric] by (intro list_all2_appendI redaction_stars)
  have hidden: "\<not> shows_pii ?b \<and> \<not> shows_pii ?a" if "policy = ''redact_pii''"
    using that by (simp add: redaction_def redact_pii_hides)
  have masked: "set (?b @ ?a) \<subseteq> {CHR ''*''}" if "policy \<noteq> ''none''" "policy \<noteq> ''redact_pii''"
    using that by (auto simp: redaction_def mask_text_def)
  show ?thesis
  proof (intro exI conjI)
    show "build_integrity_diagnostic sha span_id src back verdict at document chapter chunk
      authorization policy limit = Inr d" by (rule d)
    show "0 \<le> sp_start d" "sp_start d \<le> sp_end d" "sp_end d \<le> int (length src)"
      "sp_end d - sp_start d \<le> 2 * limit"
      using l assms(5) by (auto simp: f(1,2))
    show "if authorization \<in> set context_authorized
     then (\<exists>b a. sp_before d = Some b \<and> sp_after d = Some a \<and> int (length b) \<le> limit \<and>
       int (length a) \<le> limit \<and>
       list_all2 (\<lambda>x y. y = x \<or> y = CHR ''*'') (slice src (sp_start d) (sp_end d)) (b @ a) \<and>
       (policy = ''none'' \<longrightarrow> b @ a = slice src (sp_start d) (sp_end d)) \<and>
       (policy = ''redact_pii'' \<longrightarrow> \<not> shows_pii b \<and> \<not> shows_pii a) \<and>
       (policy \<noteq> ''none'' \<and> policy \<noteq> ''redact_pii'' \<longrightarrow> set (b @ a) \<subseteq> {CHR ''*''}))
     else sp_before d = None \<and> sp_after d = None"
    proof (cases allowed)
      case True
      then have "authorization \<in> set context_authorized" by (simp add: allowed_def)
      moreover have "int (length ?b) \<le> limit" "int (length ?a) \<le> limit" using len assms(5) by linarith+
      ultimately show ?thesis using True none stars hidden masked unfolding f fits by auto
    next
      case False
      then show ?thesis by (simp add: allowed_def f)
    qed
  qed
qed

text \<open>
  The identities a publication derives instead of drawing them have the shape the schema checks:
  the file's identifier is one of version 4, and the version number fits a positive 32-bit column,
  unless the source states its own.
\<close>

theorem mapped_identities:
  "uuid_version (l_file (map_plan sha q stated)) = Some 4 \<and>
   0 < l_source_version (map_plan sha q stated) \<and>
   (l_source_version (map_plan sha q stated) < 2 ^ 31 - 1 \<or>
    stated = Stated_int (l_source_version (map_plan sha q stated)))"
  using source_version_number_bounds [of sha "q_source_version q"]
  by (auto simp: map_plan_def Let_def file_id_of_def stable_uuid4_version resolve_source_version_def
    version_modulus_def split: stated_version.split)

section \<open>Witnesses\<close>

definition two_inputs :: "exact_input list" where
  "two_inputs = [\<lparr>in_text = ''ab'', in_start = Some 1, in_end = Some 3\<rparr>,
     \<lparr>in_text = ''d'', in_start = Some 4, in_end = Some 6\<rparr>]"

definition two_pieces :: "exact_piece list" where
  "two_pieces = [\<lparr>gap_before = ''>'', source_text = None, suffix_after = None\<rparr>,
     \<lparr>gap_before = '' '', source_text = Some ''d.'', suffix_after = Some ''!''\<rparr>]"

definition sample_row :: "string \<Rightarrow> chunk_text_row" where
  "sample_row c = \<lparr>r_chunk = c, r_paragraph = ''p'', r_chapter = ''h'', r_document = ''d'', r_order = 0,
     r_paragraph_order = 0, r_text = [], r_source_start = None, r_source_end = None,
     r_source_name = None, r_source_path = None, r_file = None, r_chunk_meta = [], r_text_meta = []\<rparr>"

lemma two_built: "build_exact_pieces ''>ab d.!'' two_inputs 0 None True = Inr two_pieces"
  by code_simp

theorem exact_round_trip_witness:
  "\<exists>a. assemble id 80 ''d'' 0 (stored_rows [sample_row ''a'', sample_row ''b''] two_inputs two_pieces) = Inr a \<and>
     a_text a = ''>ab d.!'' \<and> \<not> a_truncated a"
  by (rule exact_round_trip [OF two_built]) code_simp+

theorem assemble_bounded_witness:
  "\<exists>a. assemble id 80 ''d'' 5 (stored_rows [sample_row ''a'', sample_row ''b''] two_inputs two_pieces) = Inr a \<and>
     a_text a = ''>ab d'' \<and> a_truncated a"
proof -
  let ?rows = "stored_rows [sample_row ''a'', sample_row ''b''] two_inputs two_pieces"
  have "reconstructed_scope_text ?rows = Inr ''>ab d.!''" by code_simp
  moreover obtain a where a: "assemble id 80 ''d'' 5 ?rows = Inr a"
  proof (cases "assemble id 80 ''d'' 5 ?rows")
    case (Inl e)
    have "case assemble id 80 ''d'' 5 ?rows of Inl _ \<Rightarrow> False | Inr _ \<Rightarrow> True" by code_simp
    with Inl show ?thesis by simp
  qed
  ultimately show ?thesis using assemble_bounded [OF a] by auto
qed

theorem range_map_locates_witness:
  "\<exists>a pieces. assemble id 80 ''d'' 5 (stored_rows [sample_row ''a'', sample_row ''b''] two_inputs two_pieces) = Inr a \<and>
     map (\<lambda>g. (g_text_start g, g_text_end g)) (a_ranges a) = [(1, 3), (4, 5)] \<and>
     sorted_wrt follows (a_ranges a) \<and>
     list_all (locates pieces (stored_rows [sample_row ''a'', sample_row ''b''] two_inputs two_pieces) (a_text a) 0)
       (a_ranges a)"
proof -
  let ?rows = "stored_rows [sample_row ''a'', sample_row ''b''] two_inputs two_pieces"
  have r: "case assemble id 80 ''d'' 5 ?rows of
      Inl _ \<Rightarrow> False | Inr a \<Rightarrow> map (\<lambda>g. (g_text_start g, g_text_end g)) (a_ranges a) = [(1, 3), (4, 5)]"
    by code_simp
  then obtain a where "assemble id 80 ''d'' 5 ?rows = Inr a" by (auto split: sum.splits)
  with r range_map_locates [OF this] show ?thesis by (auto simp: list_all_iff)
qed

definition echo_uuid :: uuid where
  "echo_uuid = stamp_version 1"

definition echo_chunk :: "string \<Rightarrow> adapter_chunk" where
  "echo_chunk t = \<lparr>x_payload = [], x_source = Some (uuid_str echo_uuid), x_start = Some 0,
     x_end = Some (int (length t)), x_body = Some t, x_text = Some t, x_ordinal = Some 0, x_uuid = uuid_str echo_uuid\<rparr>"

definition echo_client :: "string \<Rightarrow> json_dict \<Rightarrow> string response call_outcome" where
  "echo_client t params = Answer (Items [Chunk_item t])"

definition echo_batch :: "string list \<Rightarrow> json_dict \<Rightarrow> string response list option call_outcome" where
  "echo_batch ts params = Answer (Some (map (\<lambda>t. Items [Chunk_item t]) ts))"

definition no_options :: svo_options where
  "no_options = \<lparr>o_chunk_sets = [], o_language = None, o_project = None\<rparr>"

definition echo_result :: "string \<Rightarrow> runtime_chunk list" where
  "echo_result t = [\<lparr>c_uuid = echo_uuid, c_text = t, c_start = 0,
     c_end = int (length t), c_ordinal = 0, c_meta = []\<rparr>]"

lemma echo_validated:
  "validate_runtime_chunks (\<lambda>t. Some (echo_chunk t)) (Items [Chunk_item ''ab'']) ''ab'' (uuid_str echo_uuid) =
     Inr (echo_result ''ab'')"
  by (simp add: validate_runtime_chunks_def runtime_chunk_of_def echo_chunk_def echo_result_def
    resolve_runtime_range_def slice_def echo_uuid_def stamp_version_uuid4)

lemma echo_run:
  "chunk_text (\<lambda>t. Some (echo_chunk t)) echo_client no_options ''ab'' ''paragraph'' (uuid_str echo_uuid) = Inr (echo_result ''ab'')"
  by (simp add: chunk_text_def client_params_def strategy_params_def no_options_def set_option_def
    wrapper_error_def echo_client_def echo_validated)

theorem accepted_chunks_placed_witness:
  "placed 0 2 (echo_result ''ab'') \<and> map c_ordinal (echo_result ''ab'') = [0]"
  using accepted_chunks_placed [OF echo_run] by (simp add: echo_result_def)

theorem relocated_range_matches_witness:
  "(4::int) < 10 \<and> py_split (slice ''one two  x'' 4 10) = [''two'', ''x'']"
proof -
  have "resolve_runtime_range ''one two  x'' 3 0 5 ''two x'' ''two x'' = Some (4, 10)" by code_simp
  from relocated_range_matches [OF this] have "py_split (slice ''one two  x'' 4 10) = py_split ''two x''" by simp
  moreover have "py_split ''two x'' = [''two'', ''x'']" by code_simp
  ultimately show ?thesis by simp
qed

theorem accepted_passes_read_back_witness:
  "\<exists>plan. exact_sentence_plan ''ab'' (echo_result ''ab'') (echo_result ''ab'') = Inr plan \<and>
     map fst (plan_rows plan) = echo_result ''ab'' \<and>
     reconstructed_scope_text (stored_rows [sample_row ''a''] (map exact_input_of (echo_result ''ab''))
       (map snd (plan_rows plan))) = Inr ''ab''"
proof -
  have "sentence_chunks_from_batch (chunk_batch (\<lambda>t. Some (echo_chunk t)) echo_batch no_options)
      (echo_result ''ab'') (uuid_str echo_uuid) = Inr (echo_result ''ab'')"
    by (simp add: sentence_chunks_from_batch_def chunk_batch_def client_params_def strategy_params_def
      no_options_def set_option_def wrapper_error_def echo_batch_def echo_result_def
      echo_validated [unfolded echo_result_def])
  from accepted_passes_read_back [OF echo_run this, of "[sample_row ''a'']"] show ?thesis
    by (auto simp: echo_result_def sample_row_def exact_key_def)
qed

theorem diagnostic_discloses_witness:
  "\<exists>d. build_integrity_diagnostic id 9 ''tel 12345 a'' ''tel 12345 b'' Mismatch (Some 10) None None None ''owner'' ''redact_pii'' 10 = Inr d \<and>
     sp_before d = Some ''tel ***** '' \<and> \<not> shows_pii ''tel ***** ''"
proof -
  have v: "integrity_verdict ''tel 12345 a'' ''tel 12345 b'' = (Mismatch, Some 10)" by code_simp
  obtain d b where d: "build_integrity_diagnostic id 9 ''tel 12345 a'' ''tel 12345 b'' Mismatch (Some 10) None None None ''owner'' ''redact_pii'' 10 = Inr d"
    and b: "sp_before d = Some b" "\<not> shows_pii b"
    using diagnostic_discloses [OF v, of "''owner''" "''redact_pii''" 10 id 9 None None None] by (auto simp: context_authorized_def)
  moreover have "case build_integrity_diagnostic id 9 ''tel 12345 a'' ''tel 12345 b'' Mismatch (Some 10) None None None ''owner'' ''redact_pii'' 10 of
      Inl _ \<Rightarrow> False | Inr d \<Rightarrow> sp_before d = Some ''tel ***** ''"
    by code_simp
  ultimately show ?thesis by auto
qed

end
