(* ===== verification/Py_Json.thy ===== *)
theory Py_Json
  imports Py_Values "HOL-Library.List_Lexorder" "HOL-Library.Char_ord"
begin

text \<open>
  \<open>json.dumps(value, sort_keys=True, separators=(",", ":"), ensure_ascii=False)\<close>, the canonical form
  the services hash, and the \<open>->>\<close> operator of a JSON column.
\<close>

definition json_escape :: "char \<Rightarrow> string" where
  "json_escape c = (let n = (of_char c :: nat); slash = char_of (92::nat) in
     if n = 34 \<or> n = 92 then [slash, c]
     else if n = 8 then [slash, CHR ''b''] else if n = 12 then [slash, CHR ''f'']
     else if n = 10 then [slash, CHR ''n''] else if n = 13 then [slash, CHR ''r'']
     else if n = 9 then [slash, CHR ''t'']
     else if n < 32 then [slash, CHR ''u'', CHR ''0'', CHR ''0'', hex_digit (n div 16), hex_digit (n mod 16)]
     else [c])"

definition json_quote :: "string \<Rightarrow> string" where
  "json_quote s = (let q = char_of (34::nat) in q # concat (map json_escape s) @ [q])"

fun canonical_json :: "json \<Rightarrow> string" where
  "canonical_json J_null = ''null''"
| "canonical_json (J_bool b) = (if b then ''true'' else ''false'')"
| "canonical_json (J_int n) = int_str n"
| "canonical_json (J_str s) = json_quote s"
| "canonical_json (J_list xs) = ''['' @ joined '','' (map canonical_json xs) @ '']''"
| "canonical_json (J_object d) =
     ''{'' @ joined '','' (map snd (sort_key fst (map (\<lambda>(k, v). (k, json_quote k @ '':'' @ canonical_json v)) d))) @ ''}''"

text \<open>
  \<open>document ->> key\<close>: \<open>NULL\<close> for a missing key and for a JSON null, the text of a string and of a
  scalar; \<open>render\<close> is the database's text of an array or an object.
\<close>

definition json_field :: "(json \<Rightarrow> string) \<Rightarrow> json_dict \<Rightarrow> string \<Rightarrow> string option" where
  "json_field render d k = (case json_get d k of
       J_null \<Rightarrow> None
     | J_str s \<Rightarrow> Some s
     | J_bool b \<Rightarrow> Some (if b then ''true'' else ''false'')
     | J_int n \<Rightarrow> Some (int_str n)
     | v \<Rightarrow> Some (render v))"

end
