(* ===== verification/Publication_Store.thy ===== *)
theory Publication_Store
  imports Chunk_Version_Service Publication_Mapper Integrity Text_Reconstruction Temporal_Assertions Py_Json
begin

text \<open>
  The tables a publication writes and the statements that write them
  (\<open>ingestion/publication_repository.py\<close> and the helpers of \<open>ingestion/runtime_boundary.py\<close> it
  calls). \<open>b_store\<close> holds the tables shared with the version service, \<open>b_temporal\<close> the assertions
  and the registry of identifiers; \<open>semantic_chunks\<close>, \<open>documents\<close> and \<open>files\<close> are split between
  \<open>b_store\<close> and the columns that only a publication reads. A statement that violates a constraint
  raises \<open>Pub_constraint\<close>.
\<close>

section \<open>Tables\<close>

record place_row =
  s_chapter :: uuid
  s_removed :: bool
  s_removed_at :: "instant option"

record paragraph_row =
  y_document :: uuid
  y_chapter :: uuid
  y_order :: int
  y_text :: string
  y_start :: int
  y_end :: int
  y_meta :: json_dict
  y_removed :: bool
  y_removed_at :: "instant option"

record chapter_row =
  h_document :: uuid
  h_order :: int
  h_heading :: string
  h_end :: int
  h_meta :: json_dict
  h_removed :: bool
  h_removed_at :: "instant option"

record document_entry =
  m_upload :: uuid
  m_version :: int
  m_path :: "string option"
  m_name :: "string option"
  m_content_sha :: string
  m_body_sha :: string
  m_title :: string
  m_attempt :: int
  m_trace :: uuid
  m_created :: instant
  m_updated :: instant
  m_meta :: json_dict
  m_removed :: bool
  m_removed_at :: "instant option"

record file_row =
  f_owner :: "uuid option"
  f_source :: uuid
  f_path :: string
  f_name :: string
  f_chars :: int
  f_content_sha :: string
  f_body_sha :: string
  f_rechunk :: bool
  f_meta :: json_dict
  f_removed :: bool
  f_removed_at :: "instant option"

record source_row =
  o_locator :: string
  o_media_type :: "string option"
  o_byte_length :: "int option"
  o_sha :: string
  o_provenance :: json_dict

datatype run_status = Succeeded | Failed

record run_row =
  j_id :: uuid
  j_source :: uuid
  j_kind :: string
  j_actor :: string
  j_status :: run_status
  j_configuration :: string
  j_parameters :: json_dict
  j_source_sha :: string
  j_back_sha :: string
  j_outcome :: integrity_outcome
  j_offset :: "nat option"
  j_span :: "uuid option"
  j_authorization :: "string option"
  j_policy :: "string option"
  j_document :: "uuid option"
  j_chapter :: "uuid option"
  j_operation :: uuid

record state_row =
  w_assertion :: uuid
  w_source :: uuid
  w_run :: uuid
  w_manifest :: json_dict
  w_locator :: string
  w_restoration_sha :: string
  w_back_sha :: string

record pub_db =
  b_store :: cdb
  b_temporal :: "unit tdb"
  b_places :: "(uuid \<times> place_row) list"
  b_paragraphs :: "(uuid \<times> paragraph_row) list"
  b_chapters :: "(uuid \<times> chapter_row) list"
  b_documents :: "(uuid \<times> document_entry) list"
  b_files :: "(uuid \<times> file_row) list"
  b_sources :: "(uuid \<times> source_row) list"
  b_runs :: "run_row list"
  b_spans :: "(uuid \<times> span_diagnostic) list"
  b_states :: "state_row list"

datatype pub_error =
    Pub_constraint | Pub_chunk version_error | Pub_temporal temporal_error | Pub_scope exact_error
  | Pub_plan plan_error | Pub_diagnostic diagnostic_error | Pub_no_chunks | Pub_value
  | Pub_unregistered uuid

type_synonym 'a pub_tx = "(pub_db, pub_error, 'a) tx"

definition on_chunks :: "'a chunk_tx \<Rightarrow> 'a pub_tx" where
  "on_chunks m = (\<lambda>s. case m (b_store s) of
       Inl e \<Rightarrow> Inl (Pub_chunk e) | Inr (x, c) \<Rightarrow> Inr (x, s\<lparr>b_store := c\<rparr>))"

definition on_temporal :: "(unit, 'a) temporal_tx \<Rightarrow> 'a pub_tx" where
  "on_temporal m = (\<lambda>s. case m (b_temporal s) of
       Inl e \<Rightarrow> Inl (Pub_temporal e) | Inr (x, t) \<Rightarrow> Inr (x, s\<lparr>b_temporal := t\<rparr>))"

definition pub_clock :: "pub_db \<Rightarrow> instant" where
  "pub_clock s = cdb_clock (b_store s)"

definition constraint :: "(pub_db \<Rightarrow> bool) \<Rightarrow> unit pub_tx" where
  "constraint P = (\<lambda>s. tx_guard (P s) Pub_constraint s)"

text \<open>A \<open>VARCHAR(n)\<close> column and a 32-bit integer column.\<close>

definition fits :: "nat \<Rightarrow> string \<Rightarrow> bool" where
  "fits n t \<longleftrightarrow> length t \<le> n"

definition int4 :: "int \<Rightarrow> bool" where
  "int4 n \<longleftrightarrow> - (2 ^ 31) \<le> n \<and> n < 2 ^ 31"

text \<open>The trigger that registers the identifier of every inserted row once and for all.\<close>

definition register :: "string \<Rightarrow> uuid \<Rightarrow> unit pub_tx" where
  "register locator i = (\<lambda>s.
     if map_of (db_registry (b_temporal s)) i \<noteq> None then Inl Pub_constraint
     else Inr ((), s\<lparr>b_temporal := (b_temporal s)\<lparr>db_registry := db_registry (b_temporal s) @ [(i, locator)]\<rparr>\<rparr>))"

section \<open>Retiring what the document has\<close>

text \<open>The statements of \<open>_mark_existing_hierarchy_deleted\<close>.\<close>

definition document_chunks :: "pub_db \<Rightarrow> uuid \<Rightarrow> uuid list" where
  "document_chunks s d = map fst (filter (\<lambda>(c, k). k_document k = d) (cdb_chunks (b_store s)))"

definition unmarked_chunks :: "pub_db \<Rightarrow> uuid \<Rightarrow> uuid list" where
  "unmarked_chunks s d = filter (\<lambda>c. case map_of (b_places s) c of
       None \<Rightarrow> False | Some p \<Rightarrow> s_removed_at p = None) (document_chunks s d)"

definition deactivate_embeddings :: "uuid list \<Rightarrow> pub_db \<Rightarrow> pub_db" where
  "deactivate_embeddings cs s = s\<lparr>b_store := (b_store s)\<lparr>cdb_embeddings := map (\<lambda>e.
     case e_chunk e of Some c \<Rightarrow> if c \<in> set cs then e\<lparr>e_active := False\<rparr> else e | None \<Rightarrow> e)
     (cdb_embeddings (b_store s))\<rparr>\<rparr>"

definition remove_places :: "uuid \<Rightarrow> pub_db \<Rightarrow> pub_db" where
  "remove_places d s = (let now = pub_clock s; cs = unmarked_chunks s d in
     s\<lparr>b_places := map (\<lambda>(c, p). if c \<in> set cs
         then (c, p\<lparr>s_removed := True, s_removed_at := Some now\<rparr>) else (c, p)) (b_places s)\<rparr>)"

definition remove_paragraphs :: "uuid \<Rightarrow> pub_db \<Rightarrow> pub_db" where
  "remove_paragraphs d s = (let now = pub_clock s in
     s\<lparr>b_paragraphs := map (\<lambda>(i, p). if y_document p = d \<and> y_removed_at p = None
         then (i, p\<lparr>y_removed := True, y_removed_at := Some now\<rparr>) else (i, p)) (b_paragraphs s)\<rparr>)"

definition remove_chapters :: "uuid \<Rightarrow> pub_db \<Rightarrow> pub_db" where
  "remove_chapters d s = (let now = pub_clock s in
     s\<lparr>b_chapters := map (\<lambda>(i, h). if h_document h = d \<and> h_removed_at h = None
         then (i, h\<lparr>h_removed := True, h_removed_at := Some now\<rparr>) else (i, h)) (b_chapters s)\<rparr>)"

definition chapter_orders :: "(uuid \<times> chapter_row) list \<Rightarrow> uuid \<Rightarrow> int list" where
  "chapter_orders rows d = map (h_order \<circ> snd) (filter (\<lambda>(i, h). h_document h = d) rows)"

definition shift_chapters :: "uuid \<Rightarrow> unit pub_tx" where
  "shift_chapters d = (\<lambda>s.
     let by = next_number (chapter_orders (b_chapters s) d);
         rows = map (\<lambda>(i, h). if h_document h = d \<and> h_removed h
           then (i, h\<lparr>h_order := h_order h + by\<rparr>) else (i, h)) (b_chapters s)
     in if list_all (\<lambda>(i, h). int4 (h_order h)) rows then Inr ((), s\<lparr>b_chapters := rows\<rparr>)
        else Inl Pub_constraint)"

definition mark_existing_hierarchy_deleted :: "uuid \<Rightarrow> unit pub_tx" where
  "mark_existing_hierarchy_deleted d =
     tx_bind (tx_read (\<lambda>s. unmarked_chunks s d)) (\<lambda>cs.
     tx_bind (tx_write (\<lambda>s. if cs = [] then s else deactivate_embeddings cs s)) (\<lambda>_.
     tx_bind (tx_write (remove_places d)) (\<lambda>_.
     tx_bind (tx_write (remove_paragraphs d)) (\<lambda>_.
     tx_bind (tx_write (remove_chapters d)) (\<lambda>_.
     shift_chapters d)))))"

definition document_owner :: "pub_db \<Rightarrow> uuid \<Rightarrow> uuid option" where
  "document_owner s d = (case map_of (cdb_documents (b_store s)) d of None \<Rightarrow> None | Some r \<Rightarrow> d_owner r)"

definition retire_previous_files :: "uuid \<Rightarrow> pub_db \<Rightarrow> pub_db" where
  "retire_previous_files d s = (let now = pub_clock s; owner = document_owner s d in
     s\<lparr>b_files := map (\<lambda>(i, f). if f_owner f = Some d \<or> owner = Some i
         then (i, f\<lparr>f_removed := True, f_removed_at := Some now\<rparr>) else (i, f)) (b_files s)\<rparr>)"

section \<open>The immutable original\<close>

definition source_locator :: "persistence_plan \<Rightarrow> string" where
  "source_locator plan = take 2048
     (case (l_filename plan, l_source_name plan) of
        (Some (c # t), _) \<Rightarrow> c # t
      | (_, Some (c # t)) \<Rightarrow> c # t
      | _ \<Rightarrow> ''doc-store:document:'' @ uuid_str (l_document plan) @ '':'' @ l_source_version_id plan)"

definition optional_json :: "string option \<Rightarrow> json" where
  "optional_json v = (case v of None \<Rightarrow> J_null | Some t \<Rightarrow> J_str t)"

definition source_provenance :: "persistence_plan \<Rightarrow> json_dict" where
  "source_provenance plan =
     [(''captured_by'', J_str ''doc_store_server.ingestion.runtime_boundary''),
      (''ingestion_command'', J_str (l_command plan)), (''operation_id'', J_str (l_operation plan)),
      (''document_id'', J_str (uuid_str (l_document plan))), (''file_id'', J_str (uuid_str (l_file plan))),
      (''source_version_id'', J_str (l_source_version_id plan)),
      (''filename'', optional_json (l_filename plan)), (''source_name'', optional_json (l_source_name plan))]"

definition primary_source_id :: "(string \<Rightarrow> string) \<Rightarrow> persistence_plan \<Rightarrow> uuid" where
  "primary_source_id sha plan =
     stable_uuid4 sha (''doc-store:primary-source:'' @ uuid_str (l_file plan) @ '':'' @ l_content_sha plan)"

definition resolve_primary_source :: "(string \<Rightarrow> string) \<Rightarrow> persistence_plan \<Rightarrow> uuid pub_tx" where
  "resolve_primary_source sha plan = (\<lambda>s.
     case map_of (b_files s) (l_file plan) of
       Some f \<Rightarrow> Inr (f_source f, s)
     | None \<Rightarrow>
         let i = primary_source_id sha plan in
         if map_of (b_sources s) i \<noteq> None then Inr (i, s)
         else Inr (i, s\<lparr>b_sources := b_sources s @ [(i,
           \<lparr>o_locator = source_locator plan, o_media_type = l_media_type plan,
            o_byte_length = l_byte_length plan, o_sha = l_content_sha plan,
            o_provenance = source_provenance plan\<rparr>)]\<rparr>))"

end
