(* ===== verification/Publication_Writes.thy ===== *)
theory Publication_Writes
  imports Publication_Store
begin

text \<open>
  The rows of a publication (\<open>_write_file\<close>, \<open>_write_document\<close>, \<open>_write_chapter\<close>,
  \<open>_write_paragraph\<close>, \<open>_write_semantic_chunk\<close> with its classifiers, metrics and index rows), the run
  and the source state that record it, and the rows of a document as a reconstruction reads them.
\<close>

section \<open>File, document and chapter\<close>

definition first_nonempty :: "string option list \<Rightarrow> string \<Rightarrow> string" where
  "first_nonempty vs d = (case filter (\<lambda>t. t \<noteq> []) (List.map_filter id vs) of [] \<Rightarrow> d | t # _ \<Rightarrow> t)"

definition file_of_plan :: "persistence_plan \<Rightarrow> uuid \<Rightarrow> uuid option \<Rightarrow> file_row" where
  "file_of_plan plan source owner =
     \<lparr>f_owner = owner, f_source = source,
      f_path = first_nonempty [l_filename plan, l_source_name plan] (uuid_str (l_file plan)),
      f_name = first_nonempty [l_source_name plan, l_filename plan] (uuid_str (l_file plan)),
      f_chars = l_length plan, f_content_sha = l_content_sha plan, f_body_sha = l_body_sha plan,
      f_rechunk = False, f_meta = l_meta plan, f_removed = False, f_removed_at = None\<rparr>"

definition write_file :: "persistence_plan \<Rightarrow> uuid \<Rightarrow> unit pub_tx" where
  "write_file plan source =
     (let i = l_file plan; fresh = file_of_plan plan source None in
      tx_bind (constraint (\<lambda>s. fits 2048 (f_path fresh) \<and> fits 512 (f_name fresh))) (\<lambda>_.
      tx_bind (tx_read (\<lambda>s. map_of (b_files s) i)) (\<lambda>existing.
      tx_bind (case existing of
          Some f \<Rightarrow> tx_write (\<lambda>s. s\<lparr>b_files := dict_set (b_files s) i (file_of_plan plan (f_source f) (f_owner f))\<rparr>)
        | None \<Rightarrow>
            tx_bind (constraint (\<lambda>s. map_of (b_sources s) source \<noteq> None \<and>
              source \<notin> (f_source \<circ> snd) ` set (b_files s))) (\<lambda>_.
            tx_bind (tx_write (\<lambda>s. s\<lparr>b_files := b_files s @ [(i, fresh)]\<rparr>)) (\<lambda>_.
            register ''files'' i))) (\<lambda>_.
      tx_write (\<lambda>s. s\<lparr>b_store := (b_store s)\<lparr>cdb_files := dict_set (cdb_files (b_store s)) i True\<rparr>\<rparr>)))))"

definition document_of_plan ::
  "persistence_plan \<Rightarrow> uuid \<Rightarrow> instant \<Rightarrow> document_entry option \<Rightarrow> document_entry" where
  "document_of_plan plan trace now existing =
     \<lparr>m_upload = l_document plan, m_version = l_source_version plan, m_path = l_filename plan,
      m_name = l_source_name plan, m_content_sha = l_content_sha plan, m_body_sha = l_body_sha plan,
      m_title = l_title plan,
      m_attempt = (case existing of None \<Rightarrow> 1 | Some m \<Rightarrow> m_attempt m + 1), m_trace = trace,
      m_created = (case existing of None \<Rightarrow> now | Some m \<Rightarrow> m_created m), m_updated = now,
      m_meta = l_meta plan,
      m_removed = (case existing of None \<Rightarrow> False | Some m \<Rightarrow> m_removed m), m_removed_at = None\<rparr>"

definition write_document :: "persistence_plan \<Rightarrow> unit pub_tx" where
  "write_document plan =
     (let d = l_document plan in
      tx_bind (tx_lift (case uuid_of_string (l_operation plan) of
          None \<Rightarrow> Inl Pub_value | Some u \<Rightarrow> Inr u)) (\<lambda>trace.
      tx_bind (constraint (\<lambda>s. 0 < l_source_version plan \<and> int4 (l_source_version plan) \<and>
         fits 1024 (l_title plan) \<and> list_all (fits 2048) (case l_filename plan of None \<Rightarrow> [] | Some f \<Rightarrow> [f]) \<and>
         list_all (\<lambda>(i, m). i = d \<or> (m_upload m, m_version m) \<noteq> (d, l_source_version plan)) (b_documents s))) (\<lambda>_.
      tx_bind (tx_read (\<lambda>s. (map_of (b_documents s) d, pub_clock s))) (\<lambda>(existing, now).
      tx_bind (tx_write (\<lambda>s. s\<lparr>b_documents := dict_set (b_documents s) d (document_of_plan plan trace now existing),
         b_store := (b_store s)\<lparr>cdb_documents := dict_set (cdb_documents (b_store s)) d
           \<lparr>d_owner = Some (l_file plan), d_revectorize = True\<rparr>\<rparr>\<rparr>)) (\<lambda>_.
      if existing = None then register ''documents'' d else tx_return ())))))"

definition insert_chapter :: "uuid \<Rightarrow> chapter_row \<Rightarrow> unit pub_tx" where
  "insert_chapter i h =
     tx_bind (constraint (\<lambda>s. map_of (b_chapters s) i = None \<and> map_of (b_documents s) (h_document h) \<noteq> None \<and>
       h_order h \<notin> set (chapter_orders (b_chapters s) (h_document h)) \<and> 0 \<le> h_end h \<and>
       fits 1024 (h_heading h))) (\<lambda>_.
     tx_bind (tx_write (\<lambda>s. s\<lparr>b_chapters := b_chapters s @ [(i, h)]\<rparr>)) (\<lambda>_.
     register ''chapters'' i))"

definition write_chapter :: "persistence_plan \<Rightarrow> uuid \<Rightarrow> unit pub_tx" where
  "write_chapter plan i =
     insert_chapter i \<lparr>h_document = l_document plan, h_order = 0, h_heading = l_title plan,
       h_end = l_length plan, h_meta = l_meta plan, h_removed = False, h_removed_at = None\<rparr>"

section \<open>Paragraphs and chunks\<close>

definition insert_paragraph :: "uuid \<Rightarrow> paragraph_row \<Rightarrow> unit pub_tx" where
  "insert_paragraph i p =
     tx_bind (constraint (\<lambda>s. map_of (b_paragraphs s) i = None \<and> map_of (b_chapters s) (y_chapter p) \<noteq> None \<and>
       list_all (\<lambda>(j, q). (y_chapter q, y_order q) \<noteq> (y_chapter p, y_order p)) (b_paragraphs s) \<and>
       0 \<le> y_order p \<and> int4 (y_order p) \<and> 0 \<le> y_start p \<and> y_start p \<le> y_end p)) (\<lambda>_.
     tx_bind (tx_write (\<lambda>s. s\<lparr>b_paragraphs := b_paragraphs s @ [(i, p)]\<rparr>)) (\<lambda>_.
     register ''paragraphs'' i))"

definition write_paragraph :: "persistence_plan \<Rightarrow> runtime_chunk \<Rightarrow> uuid \<Rightarrow> uuid \<Rightarrow> nat \<Rightarrow> json_dict pub_tx" where
  "write_paragraph plan p i chapter order_index =
     (let meta = paragraph_meta plan p order_index in
      tx_bind (insert_paragraph i \<lparr>y_document = l_document plan, y_chapter = chapter,
        y_order = int order_index, y_text = c_text p, y_start = c_start p, y_end = c_end p,
        y_meta = meta, y_removed = False, y_removed_at = None\<rparr>) (\<lambda>_.
      tx_return meta))"

text \<open>\<open>_semantic_dictionary_ids\<close>; a row inserted by \<open>_dictionary_id\<close> is registered by the trigger.\<close>

definition classifier_tables :: "(string \<times> string) list" where
  "classifier_tables =
     [(''type'', ''chunk_types''), (''role'', ''chunk_roles''), (''status'', ''chunk_statuses''),
      (''block_type'', ''block_types''), (''language'', ''languages''), (''category'', ''categories'')]"

definition semantic_dictionary_id :: "(string \<times> string) list \<Rightarrow> string \<times> string \<Rightarrow> uuid pub_tx" where
  "semantic_dictionary_id values = (\<lambda>(field, table).
     let descr = (case map_of values field of Some v \<Rightarrow> v | None \<Rightarrow> the (map_of classifier_defaults field)) in
     tx_bind (tx_read (\<lambda>s. map_of (cdb_dictionaries (b_store s) table) (py_strip descr))) (\<lambda>existing.
     tx_bind (on_chunks (dictionary_id table descr)) (\<lambda>i.
     tx_bind (if existing = None then register table i else tx_return ()) (\<lambda>_.
     tx_return i))))"

definition semantic_dictionary_ids :: "(string \<times> string) list \<Rightarrow> uuid list pub_tx" where
  "semantic_dictionary_ids values = tx_map (semantic_dictionary_id values) classifier_tables"

definition assignment_tables :: "string list" where
  "assignment_tables =
     [''semantic_chunk_type_assignments'', ''semantic_chunk_role_assignments'',
      ''semantic_chunk_status_assignments'', ''semantic_chunk_block_type_assignments'',
      ''semantic_chunk_language_assignments'', ''semantic_chunk_category_assignments'']"

definition assign_classifier :: "uuid \<Rightarrow> string \<times> uuid \<Rightarrow> cdb \<Rightarrow> cdb" where
  "assign_classifier c = (\<lambda>(table, i) s. s\<lparr>cdb_assignments := (cdb_assignments s)
     (table := dict_set (cdb_assignments s table) c
       (case map_of (cdb_assignments s table) c of
          None \<Rightarrow> \<lparr>a_value = i, a_version = None\<rparr> | Some a \<Rightarrow> a\<lparr>a_value := i\<rparr>))\<rparr>)"

definition derive :: "string \<Rightarrow> nat \<Rightarrow> uuid \<Rightarrow> cdb \<Rightarrow> cdb" where
  "derive table n c s = s\<lparr>cdb_derived := (cdb_derived s)(table := cdb_derived s table @ replicate n c)\<rparr>"

definition list_field :: "json_dict \<Rightarrow> string \<Rightarrow> json list" where
  "list_field d k = (case json_get d k of J_list xs \<Rightarrow> xs | _ \<Rightarrow> [])"

definition default_metrics :: "uuid \<Rightarrow> cdb \<Rightarrow> cdb" where
  "default_metrics c s = derive ''semantic_chunk_feedback'' 1 c (derive ''semantic_chunk_metrics'' 1 c s)"

definition chunk_index_rows :: "json_dict \<Rightarrow> uuid \<Rightarrow> cdb \<Rightarrow> cdb" where
  "chunk_index_rows features c s =
     derive ''semantic_chunk_tags'' (length (list_field features ''tags'')) c
       (derive ''semantic_chunk_tokens''
          (length (list_field features ''tokens'') + length (list_field features ''bm25_tokens'')) c s)"

definition insert_place :: "uuid \<Rightarrow> uuid \<Rightarrow> chunk_row \<Rightarrow> uuid \<Rightarrow> unit pub_tx" where
  "insert_place c paragraph k chapter =
     tx_bind (constraint (\<lambda>s. map_of (b_places s) c = None \<and> map_of (b_paragraphs s) paragraph \<noteq> None \<and>
       list_all (\<lambda>(d, l). (k_paragraph l, k_order l) \<noteq> (k_paragraph k, k_order k)) (cdb_chunks (b_store s)) \<and>
       (case (k_start k, k_end k) of (Some a, Some b) \<Rightarrow> 0 \<le> a \<and> a \<le> b | _ \<Rightarrow> False) \<and>
       (case k_order k of Some n \<Rightarrow> 0 \<le> n \<and> int4 n | None \<Rightarrow> False))) (\<lambda>_.
     tx_bind (tx_write (\<lambda>s. s\<lparr>b_places := b_places s @
       [(c, \<lparr>s_chapter = chapter, s_removed = False, s_removed_at = None\<rparr>)]\<rparr>)) (\<lambda>_.
     register ''semantic_chunks'' c))"

definition chunk_of_plan ::
  "persistence_plan \<Rightarrow> json_dict \<Rightarrow> runtime_chunk \<Rightarrow> uuid \<Rightarrow> uuid \<Rightarrow> uuid list \<Rightarrow> chunk_row" where
  "chunk_of_plan plan p_meta s chapter paragraph dictionary_ids =
     \<lparr>k_document = l_document plan, k_paragraph = Some paragraph, k_text = [],
      k_chars = int (length (c_text s)), k_start = Some (c_start s), k_end = Some (c_end s),
      k_order = Some (c_ordinal s), k_status = Some (dictionary_ids ! 2),
      k_category = Some (dictionary_ids ! 5), k_meta = chunk_meta plan p_meta s chapter paragraph\<rparr>"

definition write_semantic_chunk ::
  "(string \<Rightarrow> string) \<Rightarrow> persistence_plan \<Rightarrow> runtime_chunk \<Rightarrow> uuid \<Rightarrow> uuid \<Rightarrow> json_dict \<Rightarrow> exact_piece
    \<Rightarrow> uuid pub_tx" where
  "write_semantic_chunk sha plan s paragraph chapter p_meta p =
     (let features = sentence_features plan s; c = c_uuid s in
      tx_bind (semantic_dictionary_ids (classifier_values features)) (\<lambda>ids.
      let k = chunk_of_plan plan p_meta s chapter paragraph ids in
      tx_bind (insert_place c paragraph k chapter) (\<lambda>_.
      tx_bind (on_chunks (write_chunk_text sha c k (c_text s) (merge_piece_metadata (k_meta k) p))) (\<lambda>_.
      tx_bind (tx_write (\<lambda>st. st\<lparr>b_store := chunk_index_rows features c (default_metrics c
        (fold (assign_classifier c) (zip assignment_tables ids) (b_store st)))\<rparr>)) (\<lambda>_.
      tx_return c)))))"

text \<open>
  The loop over the plan: every paragraph with its sentences. The chunk spans pair every chunk with
  the byte at which its text ends when the texts are joined by \<open>_reconstruction_separator\<close>.
\<close>

record progress =
  g_paragraphs :: "uuid list"
  g_spans :: "(uuid \<times> nat) list"
  g_length :: nat
  g_previous :: "uuid option"

definition reconstruction_separator :: "uuid option \<Rightarrow> uuid \<Rightarrow> string" where
  "reconstruction_separator previous paragraph = (case previous of
       None \<Rightarrow> []
     | Some q \<Rightarrow> if q = paragraph then '' '' else [char_of (10::nat), char_of (10::nat)])"

definition advance :: "uuid \<Rightarrow> uuid \<Rightarrow> string \<Rightarrow> progress \<Rightarrow> progress" where
  "advance c paragraph t g =
     (let n = g_length g + length (utf8 (reconstruction_separator (g_previous g) paragraph)) + length (utf8 t)
      in g\<lparr>g_spans := g_spans g @ [(c, n)], g_length := n, g_previous := Some paragraph\<rparr>)"

fun write_sentences ::
  "(string \<Rightarrow> string) \<Rightarrow> persistence_plan \<Rightarrow> uuid \<Rightarrow> uuid \<Rightarrow> json_dict \<Rightarrow> progress
    \<Rightarrow> (runtime_chunk \<times> exact_piece) list \<Rightarrow> progress pub_tx" where
  "write_sentences sha plan paragraph chapter meta g [] = tx_return g"
| "write_sentences sha plan paragraph chapter meta g ((s, p) # rest) =
     tx_bind (write_semantic_chunk sha plan s paragraph chapter meta p) (\<lambda>c.
     write_sentences sha plan paragraph chapter meta
       (advance c paragraph (case source_text p of None \<Rightarrow> c_text s | Some t \<Rightarrow> t) g) rest)"

fun write_paragraphs ::
  "(string \<Rightarrow> string) \<Rightarrow> persistence_plan \<Rightarrow> uuid \<Rightarrow> nat \<Rightarrow> progress \<Rightarrow> sentence_plan \<Rightarrow> progress pub_tx" where
  "write_paragraphs sha plan chapter order_index g [] = tx_return g"
| "write_paragraphs sha plan chapter order_index g ((p, ss) # rest) =
     tx_bind (on_chunks draw_chunk_uuid) (\<lambda>paragraph.
     tx_bind (write_paragraph plan p paragraph chapter order_index) (\<lambda>meta.
     tx_bind (write_sentences sha plan paragraph chapter meta (g\<lparr>g_paragraphs := g_paragraphs g @ [paragraph]\<rparr>) ss) (\<lambda>g'.
     write_paragraphs sha plan chapter (Suc order_index) g' rest)))"

section \<open>Runs and source states\<close>

definition run_kind :: "string \<Rightarrow> string" where
  "run_kind c = (if c = ''document_create'' \<or> c = ''document_update'' then c
     else if c = ''document_chunk'' then ''integrity_recheck'' else ''file_ingest'')"

definition default_run_actor :: string where
  "default_run_actor = ''doc-store:ingestion-runtime-boundary''"

definition separators_json :: json where
  "separators_json = J_object [(''within_paragraph'', J_str '' ''),
     (''between_paragraphs'', J_str [char_of (10::nat), char_of (10::nat)])]"

definition profile_id :: string where
  "profile_id = ''doc-store.ingestion.runtime_boundary''"

definition comparison_scope :: string where
  "comparison_scope = ''document_normalized_source''"

definition normalization_parameters :: "persistence_plan \<Rightarrow> json_dict" where
  "normalization_parameters plan =
     [(''chunking_strategy'', J_str (l_strategy plan)), (''chunker'', J_str ''svo''),
      (''paragraph_and_sentence_units'', J_bool True), (''text_encoding'', J_str ''utf-8''),
      (''checksum_algorithm'', J_str ''sha256''), (''comparison_scope'', J_str comparison_scope),
      (''reconstruction_separators'', separators_json),
      (''normalized_source_version_id'', J_str (l_normalized_version plan))]"

definition configuration_hash :: "(string \<Rightarrow> string) \<Rightarrow> string \<Rightarrow> json_dict \<Rightarrow> string" where
  "configuration_hash sha command parameters = sha (canonical_json (J_object
     [(''normalization_profile_id'', J_str profile_id), (''normalization_profile_version'', J_str ''1''),
      (''run_kind'', J_str (run_kind command)), (''comparison_scope'', J_str comparison_scope),
      (''parameters'', J_object parameters)]))"

definition run_constraints :: "pub_db \<Rightarrow> run_row \<Rightarrow> bool" where
  "run_constraints s j \<longleftrightarrow>
     j_id j \<notin> j_id ` set (b_runs s) \<and> map_of (b_sources s) (j_source j) \<noteq> None \<and>
     j_configuration j \<noteq> [] \<and> j_actor j \<noteq> [] \<and>
     (j_status j = Succeeded \<longrightarrow> j_outcome j = Match \<and> j_source_sha j = j_back_sha j) \<and>
     (j_outcome j = Match \<or> j_offset j \<noteq> None \<or> j_span j \<noteq> None) \<and>
     (case j_document j of None \<Rightarrow> True | Some d \<Rightarrow> map_of (b_documents s) d \<noteq> None) \<and>
     (case j_chapter j of None \<Rightarrow> True | Some h \<Rightarrow> map_of (b_chapters s) h \<noteq> None)"

record run_facts =
  n_run :: uuid
  n_source :: uuid
  n_chapter :: "uuid option"
  n_status :: run_status
  n_back_sha :: string
  n_outcome :: integrity_outcome
  n_offset :: "nat option"
  n_span :: "uuid option"
  n_authorization :: "string option"
  n_policy :: "string option"
  n_document :: "uuid option"

definition insert_processing_run ::
  "(string \<Rightarrow> string) \<Rightarrow> string \<Rightarrow> persistence_plan \<Rightarrow> run_facts \<Rightarrow> unit pub_tx" where
  "insert_processing_run sha actor plan n =
     tx_bind (tx_lift (case uuid_of_string (l_operation plan) of
         None \<Rightarrow> Inl Pub_constraint | Some u \<Rightarrow> Inr u)) (\<lambda>operation.
     (\<lambda>s. let j = \<lparr>j_id = n_run n, j_source = n_source n, j_kind = run_kind (l_command plan),
            j_actor = actor, j_status = n_status n,
            j_configuration = configuration_hash sha (l_command plan) (normalization_parameters plan),
            j_parameters = normalization_parameters plan, j_source_sha = l_body_sha plan,
            j_back_sha = n_back_sha n, j_outcome = n_outcome n, j_offset = n_offset n,
            j_span = n_span n, j_authorization = n_authorization n, j_policy = n_policy n,
            j_document = n_document n, j_chapter = n_chapter n, j_operation = operation\<rparr>
       in if run_constraints s j then Inr ((), s\<lparr>b_runs := b_runs s @ [j]\<rparr>) else Inl Pub_constraint))"

definition insert_source_span :: "span_diagnostic \<Rightarrow> uuid \<Rightarrow> unit pub_tx" where
  "insert_source_span d run =
     tx_bind (constraint (\<lambda>s. sp_id d \<notin> (sp_id \<circ> snd) ` set (b_spans s) \<and> run \<in> j_id ` set (b_runs s))) (\<lambda>_.
     tx_write (\<lambda>s. s\<lparr>b_spans := b_spans s @ [(run, d)]\<rparr>))"

definition source_state_family :: string where
  "source_state_family = ''source_state''"

text \<open>
  The prior state of \<open>_append_source_state\<close>: of the assertions of the family that are no deletion and
  not superseded, the one with the highest revision.
\<close>

definition prior_state :: "assertion list \<Rightarrow> uuid \<Rightarrow> assertion option" where
  "prior_state rows d =
     (let open_rows = sort_key revision_no (filter (\<lambda>a. object_id a = d \<and>
         payload_family a = source_state_family \<and> kind a \<noteq> Deletion \<and> accepted_in rows a) rows)
      in if open_rows = [] then None else Some (last open_rows))"

definition state_manifest :: "persistence_plan \<Rightarrow> uuid \<Rightarrow> nat \<Rightarrow> nat \<Rightarrow> json_dict" where
  "state_manifest plan chapter paragraph_count chunk_count =
     [(''restoration'', J_object [(''command'', J_str ''source_file_reconstruct''),
        (''selector'', J_object [(''document_id'', J_str (uuid_str (l_document plan)))]),
        (''separators'', separators_json)]),
      (''normalization'', J_object [(''profile_id'', J_str profile_id), (''profile_version'', J_str ''1''),
        (''parameters'', J_object (normalization_parameters plan))]),
      (''hierarchy'', J_object [(''chapter_ids'', J_list [J_str (uuid_str chapter)]),
        (''paragraph_count'', J_int (int paragraph_count)), (''chunk_count'', J_int (int chunk_count))]),
      (''source'', J_object [(''source_version_id'', J_str (l_source_version_id plan)),
        (''normalized_source_version_id'', J_str (l_normalized_version plan)),
        (''char_count'', J_int (l_length plan))])]"

definition append_source_state ::
  "string \<Rightarrow> persistence_plan \<Rightarrow> uuid \<Rightarrow> uuid \<Rightarrow> string \<Rightarrow> uuid \<Rightarrow> nat \<Rightarrow> nat \<Rightarrow> uuid pub_tx" where
  "append_source_state actor plan run source back_sha chapter paragraph_count chunk_count =
     (let d = l_document plan in
      tx_bind (\<lambda>s. if map_of (db_registry (b_temporal s)) d = None then Inl (Pub_unregistered d) else Inr ((), s)) (\<lambda>_.
      tx_bind (tx_lift (case uuid_of_string (l_operation plan) of
          None \<Rightarrow> Inl Pub_constraint | Some u \<Rightarrow> Inr u)) (\<lambda>operation.
      tx_bind (on_chunks draw_chunk_uuid) (\<lambda>i.
      tx_bind (tx_read (\<lambda>s. (prior_state (db_rows (b_temporal s)) d,
          next_number (map revision_no (filter (\<lambda>a. object_id a = d) (db_rows (b_temporal s)))), pub_clock s))) (\<lambda>(prior, rev, now).
      tx_bind (on_temporal (insert_row \<lparr>assertion_id = i, object_id = d,
          payload_family = source_state_family,
          kind = (if prior = None then Payload else Supersession), revision_no = rev,
          supersedes = map_option assertion_id prior, effective_from = now, effective_until = None,
          recorded_at = now, accepted_with = \<lparr>accepted_by = Some actor, accepted_via = Some (l_command plan),
            operation_id = Some operation, acceptance_comment = None\<rparr>\<rparr>)) (\<lambda>_.
      tx_bind (constraint (\<lambda>s. map_of (b_sources s) source \<noteq> None \<and>
          source \<in> set (map j_source (filter (\<lambda>j. j_id j = run) (b_runs s))))) (\<lambda>_.
      tx_bind (tx_write (\<lambda>s. s\<lparr>b_states := b_states s @ [\<lparr>w_assertion = i, w_source = source, w_run = run,
          w_manifest = state_manifest plan chapter paragraph_count chunk_count,
          w_locator = take 2048 (''doc-store:source_file_reconstruct?document_id='' @ uuid_str d),
          w_restoration_sha = l_body_sha plan, w_back_sha = back_sha\<rparr>]\<rparr>)) (\<lambda>_.
      tx_return i))))))))"

end
