(* ===== verification/Document_Scope.thy ===== *)
theory Document_Scope
  imports Publication_Writes "HOL-Library.Product_Lexorder"
begin

text \<open>
  The rows of a document's current chunks in the order of the hierarchy, as the ingestion reads them
  for its round trip (\<open>_reconstructed_scope_text\<close>) and as the reconstruction service selects them
  (\<open>_select_rows\<close> of \<open>runtime/text_reconstruction.py\<close>): the joins of \<open>semantic_chunks\<close> with its
  text, paragraph, chapter and document, all of them neither removed nor marked as removed.
  \<open>render\<close> is the database's text of a JSON array or object.
\<close>

section \<open>The join\<close>

definition live :: "bool \<Rightarrow> instant option \<Rightarrow> bool" where
  "live removed at \<longleftrightarrow> at = None \<and> \<not> removed"

record scope_entry =
  e_created :: instant
  e_document_id :: uuid
  e_chapter_order :: int
  e_paragraph_order :: int
  e_chunk_order :: int
  e_chunk_id :: uuid
  e_chapter_id :: uuid
  e_source_upload :: uuid
  e_owner :: "uuid option"
  e_row :: chunk_text_row

definition joined_row ::
  "(json \<Rightarrow> string) \<Rightarrow> pub_db \<Rightarrow> uuid \<times> chunk_row \<Rightarrow> scope_entry option" where
  "joined_row render s = (\<lambda>(c, k).
     case (map_of (cdb_texts (b_store s)) c, map_of (b_places s) c, k_paragraph k, k_order k) of
       (Some t, Some l, Some p, Some order) \<Rightarrow>
         (case (map_of (b_paragraphs s) p, map_of (b_chapters s) (s_chapter l), map_of (b_documents s) (k_document k)) of
            (Some y, Some h, Some m) \<Rightarrow>
              if live (m_removed m) (m_removed_at m) \<and> live (h_removed h) (h_removed_at h) \<and>
                live (y_removed y) (y_removed_at y) \<and> live (s_removed l) (s_removed_at l)
              then let owner = document_owner s (k_document k) in
                Some \<lparr>e_created = m_created m, e_document_id = k_document k,
                  e_chapter_order = h_order h, e_paragraph_order = y_order y, e_chunk_order = order,
                  e_chunk_id = c, e_chapter_id = s_chapter l, e_source_upload = m_upload m, e_owner = owner,
                  e_row = \<lparr>r_chunk = uuid_str c, r_paragraph = uuid_str p,
                    r_chapter = uuid_str (s_chapter l), r_document = uuid_str (k_document k),
                    r_order = order, r_paragraph_order = y_order y, r_text = t_text t,
                    r_source_start = k_start k, r_source_end = k_end k, r_source_name = m_name m,
                    r_source_path = m_path m,
                    r_file = coalesce (json_field render (k_meta k) ''file_id'')
                      (coalesce (map_option uuid_str owner) (Some (uuid_str (m_upload m)))),
                    r_chunk_meta = k_meta k, r_text_meta = t_meta t\<rparr>\<rparr>
              else None
          | _ \<Rightarrow> None)
     | _ \<Rightarrow> None)"

definition joined_rows :: "(json \<Rightarrow> string) \<Rightarrow> pub_db \<Rightarrow> scope_entry list" where
  "joined_rows render s = List.map_filter (joined_row render s) (cdb_chunks (b_store s))"

section \<open>The scope of a document\<close>

definition hierarchy_order :: "scope_entry \<Rightarrow> int \<times> int \<times> int \<times> uuid" where
  "hierarchy_order e = (e_chapter_order e, e_paragraph_order e, e_chunk_order e, e_chunk_id e)"

definition document_scope :: "(json \<Rightarrow> string) \<Rightarrow> pub_db \<Rightarrow> uuid \<Rightarrow> chunk_text_row list" where
  "document_scope render s d =
     map e_row (sort_key hierarchy_order (filter (\<lambda>e. e_document_id e = d) (joined_rows render s)))"

definition scope_text :: "(json \<Rightarrow> string) \<Rightarrow> uuid \<Rightarrow> string pub_tx" where
  "scope_text render d = (\<lambda>s. case reconstructed_scope_text (document_scope render s d) of
       Inl e \<Rightarrow> Inl (Pub_scope e) | Inr t \<Rightarrow> Inr (t, s))"

section \<open>The selection of the reconstruction service\<close>

record scope_selector =
  x_chapter :: "string option"
  x_document :: "string option"
  x_file :: "string option"
  x_name :: "string option"
  x_path :: "string option"
  x_project :: "string option"
  x_filters :: "(string \<times> json) list"
  x_limit :: int
  x_offset :: int

datatype selection_error =
    Selector_required | No_database | Bad_page | Bad_selector_uuid | Bad_filter_key | Nothing_found
  | Assembly assembly_error

definition uuid_filter :: "string option \<Rightarrow> (selection_error, uuid option) result" where
  "uuid_filter v = (case v of
       None \<Rightarrow> Inr None
     | Some t \<Rightarrow> (case uuid_of_string t of None \<Rightarrow> Inl Bad_selector_uuid | Some u \<Rightarrow> Inr (Some u)))"

definition admits :: "'a option \<Rightarrow> ('a \<Rightarrow> bool) \<Rightarrow> bool" where
  "admits v P = (case v of None \<Rightarrow> True | Some x \<Rightarrow> P x)"

definition filter_key_ok :: "string \<Rightarrow> bool" where
  "filter_key_ok k = (case k of
       [] \<Rightarrow> False
     | c # t \<Rightarrow> (ascii_letter c \<or> c = CHR ''_'') \<and> length t \<le> 127 \<and>
         list_all (\<lambda>c. ascii_letter c \<or> digit_char c \<or> c = CHR ''_'') t)"

text \<open>The \<open>WHERE\<close> clause for the parsed selectors.\<close>

definition selects ::
  "(json \<Rightarrow> string) \<Rightarrow> scope_selector \<Rightarrow> uuid option \<Rightarrow> uuid option \<Rightarrow> uuid option \<Rightarrow> uuid option
    \<Rightarrow> scope_entry \<Rightarrow> bool" where
  "selects render x chapter document file_id project e \<longleftrightarrow>
     (let field = json_field render (r_chunk_meta (e_row e)) in
      admits chapter (\<lambda>u. e_chapter_id e = u) \<and>
      admits document (\<lambda>u. e_document_id e = u) \<and>
      admits file_id (\<lambda>u. e_owner e = Some u \<or> e_source_upload e = u \<or> field ''file_id'' = Some (uuid_str u)) \<and>
      admits project (\<lambda>u. e_owner e = Some u \<or> field ''project_id'' = Some (uuid_str u) \<or>
        field ''project'' = Some (uuid_str u)) \<and>
      admits (x_name x) (\<lambda>n. r_source_name (e_row e) = Some n \<or> field ''source_name'' = Some n) \<and>
      admits (x_path x) (\<lambda>p. r_source_path (e_row e) = Some p \<or> field ''source_path'' = Some p) \<and>
      list_all (\<lambda>(key, v). field key = Some (json_str v)) (x_filters x))"

definition service_order :: "scope_entry \<Rightarrow> instant \<times> uuid \<times> int \<times> int \<times> int \<times> uuid" where
  "service_order e = (e_created e, e_document_id e, hierarchy_order e)"

definition select_rows ::
  "(json \<Rightarrow> string) \<Rightarrow> pub_db \<Rightarrow> scope_selector \<Rightarrow> (selection_error, chunk_text_row list) result" where
  "select_rows render s x =
     (if \<not> cdb_configured (b_store s) then Inl No_database
      else if x_limit x < 1 \<or> x_offset x < 0 then Inl Bad_page
      else bind_result (uuid_filter (x_chapter x)) (\<lambda>chapter.
           bind_result (uuid_filter (x_document x)) (\<lambda>document.
           bind_result (uuid_filter (x_file x)) (\<lambda>file_id.
           bind_result (uuid_filter (x_project x)) (\<lambda>project.
             if \<not> list_all (\<lambda>(key, v). filter_key_ok key) (x_filters x) then Inl Bad_filter_key
             else Inr (map e_row (take (nat (x_limit x)) (drop (nat (x_offset x))
               (sort_key service_order (filter (selects render x chapter document file_id project)
                 (joined_rows render s)))))))))))"

definition given :: "string option \<Rightarrow> bool" where
  "given v \<longleftrightarrow> v \<noteq> None \<and> v \<noteq> Some []"

definition assemble_selection ::
  "(string \<Rightarrow> string) \<Rightarrow> (json \<Rightarrow> string) \<Rightarrow> int \<Rightarrow> pub_db \<Rightarrow> string \<Rightarrow> scope_selector \<Rightarrow> int
    \<Rightarrow> (selection_error, assembled) result" where
  "assemble_selection sha render limit s entity x max_chars =
     bind_result (select_rows render s x) (\<lambda>rows.
       if rows = [] then Inl Nothing_found
       else case assemble sha limit entity max_chars rows of
         Inl e \<Rightarrow> Inl (Assembly e) | Inr a \<Rightarrow> Inr a)"

definition assemble_chapter_text ::
  "(string \<Rightarrow> string) \<Rightarrow> (json \<Rightarrow> string) \<Rightarrow> int \<Rightarrow> pub_db \<Rightarrow> scope_selector \<Rightarrow> int
    \<Rightarrow> (selection_error, assembled) result" where
  "assemble_chapter_text sha render limit s x max_chars =
     (if \<not> given (x_chapter x) \<and> \<not> given (x_document x) \<and> \<not> given (x_file x) \<and> \<not> given (x_name x) \<and>
        \<not> given (x_path x) \<and> \<not> given (x_project x) \<and> x_filters x = []
      then Inl Selector_required
      else assemble_selection sha render limit s ''chapter'' x max_chars)"

definition reconstruct_source_file ::
  "(string \<Rightarrow> string) \<Rightarrow> (json \<Rightarrow> string) \<Rightarrow> int \<Rightarrow> pub_db \<Rightarrow> scope_selector \<Rightarrow> int
    \<Rightarrow> (selection_error, assembled) result" where
  "reconstruct_source_file sha render limit s x max_chars =
     (if \<not> given (x_document x) \<and> \<not> given (x_file x) \<and> \<not> given (x_name x) \<and> \<not> given (x_path x) \<and>
        \<not> given (x_project x) \<and> x_filters x = []
      then Inl Selector_required
      else assemble_selection sha render limit s ''source_file'' (x\<lparr>x_chapter := None\<rparr>) max_chars)"

end
