(* ===== verification/Publication.thy ===== *)
theory Publication
  imports Document_Scope
begin

text \<open>
  Publishing a document version (\<open>PublicationRepository\<close> and \<open>publish_document\<close> of
  \<open>ingestion/publication.py\<close>): the lookup of an already committed version, the transaction with its
  savepoint and its measured verdict, the refusal with its evidence, and the outcomes.
\<close>

section \<open>The transaction\<close>

text \<open>
  \<open>ROLLBACK TO SAVEPOINT\<close>: the tables as they were, while the identifiers drawn in the process stay
  drawn.
\<close>

definition rollback_to :: "pub_db \<Rightarrow> pub_db \<Rightarrow> pub_db" where
  "rollback_to saved s = saved\<lparr>b_store := (b_store saved)\<lparr>cdb_drawn := cdb_drawn (b_store s)\<rparr>\<rparr>"

definition chunk_at_offset :: "(uuid \<times> nat) list \<Rightarrow> nat option \<Rightarrow> uuid option" where
  "chunk_at_offset spans offset = (case offset of
       None \<Rightarrow> None
     | Some n \<Rightarrow> if spans = [] then None
         else (case List.find (\<lambda>(c, e). n < e) spans of
             Some (c, _) \<Rightarrow> Some c | None \<Rightarrow> Some (fst (last spans))))"

record refusal =
  q_diagnostic :: span_diagnostic
  q_outcome :: integrity_outcome
  q_offset :: "nat option"
  q_back_sha :: string

record references =
  z_document :: uuid
  z_version :: int
  z_chapters :: "uuid list"
  z_paragraphs :: "uuid list"
  z_chunks :: "uuid list"
  z_source :: uuid
  z_run :: uuid
  z_assertion :: uuid

datatype hierarchy_end = Matches string progress | Differs refusal

text \<open>The body of the savepoint block: the hierarchy, its reading back, and the verdict.\<close>

definition write_rows ::
  "(string \<Rightarrow> string) \<Rightarrow> persistence_plan \<Rightarrow> uuid \<Rightarrow> uuid \<Rightarrow> sentence_plan \<Rightarrow> progress pub_tx" where
  "write_rows sha plan source chapter sentence_plan =
     (let d = l_document plan in
      tx_bind (mark_existing_hierarchy_deleted d) (\<lambda>_.
      tx_bind (tx_write (retire_previous_files d)) (\<lambda>_.
      tx_bind (write_file plan source) (\<lambda>_.
      tx_bind (write_document plan) (\<lambda>_.
      tx_bind (write_chapter plan chapter) (\<lambda>_.
      write_paragraphs sha plan chapter 0
        \<lparr>g_paragraphs = [], g_spans = [], g_length = 0, g_previous = None\<rparr> sentence_plan))))))"

definition measure_round_trip ::
  "(string \<Rightarrow> string) \<Rightarrow> (json \<Rightarrow> string) \<Rightarrow> persistence_plan \<Rightarrow> uuid \<Rightarrow> progress \<Rightarrow> hierarchy_end pub_tx" where
  "measure_round_trip sha render plan chapter g =
     (let d = l_document plan in
      tx_bind (scope_text render d) (\<lambda>read_back.
      case integrity_verdict (l_text plan) read_back of
        (Match, _) \<Rightarrow> tx_return (Matches (sha read_back) g)
      | (verdict, offset) \<Rightarrow>
          tx_bind (on_chunks draw_chunk_uuid) (\<lambda>span.
          tx_bind (tx_lift (case build_integrity_diagnostic sha span (l_text plan) read_back verdict offset
              (Some d) (Some chapter) (chunk_at_offset (g_spans g) offset) ''owner'' ''redact_pii'' 64 of
              Inl e \<Rightarrow> Inl (Pub_diagnostic e) | Inr x \<Rightarrow> Inr x)) (\<lambda>diagnostic.
          tx_return (Differs \<lparr>q_diagnostic = diagnostic, q_outcome = verdict, q_offset = offset,
            q_back_sha = sha read_back\<rparr>)))))"

definition write_hierarchy ::
  "(string \<Rightarrow> string) \<Rightarrow> (json \<Rightarrow> string) \<Rightarrow> persistence_plan \<Rightarrow> uuid \<Rightarrow> uuid \<Rightarrow> sentence_plan
    \<Rightarrow> hierarchy_end pub_tx" where
  "write_hierarchy sha render plan source chapter sentence_plan =
     tx_bind (write_rows sha plan source chapter sentence_plan) (measure_round_trip sha render plan chapter)"

text \<open>\<open>_write_refusal_evidence\<close>: the failed run, and the span in a savepoint of its own.\<close>

definition write_refusal_evidence ::
  "(string \<Rightarrow> string) \<Rightarrow> string \<Rightarrow> persistence_plan \<Rightarrow> refusal \<Rightarrow> uuid \<Rightarrow> uuid \<Rightarrow> unit pub_tx" where
  "write_refusal_evidence sha actor plan q run source =
     (let d = q_diagnostic q in
      tx_bind (insert_processing_run sha actor plan \<lparr>n_run = run, n_source = source, n_chapter = None,
        n_status = Failed, n_back_sha = q_back_sha q, n_outcome = q_outcome q, n_offset = q_offset q,
        n_span = Some (sp_id d), n_authorization = Some (sp_authorization d),
        n_policy = Some (sp_policy d), n_document = None\<rparr>) (\<lambda>_.
      (\<lambda>s. case insert_source_span d run s of Inl _ \<Rightarrow> Inr ((), s) | Inr r \<Rightarrow> Inr r)))"

datatype publish_end = Refuses refusal | Publishes references

text \<open>The second transaction.\<close>

definition publication_transaction ::
  "(string \<Rightarrow> string) \<Rightarrow> (json \<Rightarrow> string) \<Rightarrow> string \<Rightarrow> persistence_plan \<Rightarrow> sentence_plan \<Rightarrow> uuid \<Rightarrow> uuid
    \<Rightarrow> uuid \<Rightarrow> publish_end pub_tx" where
  "publication_transaction sha render actor plan sentence_plan run chapter source = (\<lambda>s.
     case write_hierarchy sha render plan source chapter sentence_plan s of
       Inl e \<Rightarrow> Inl e
     | Inr (Differs q, s') \<Rightarrow>
         tx_bind (write_refusal_evidence sha actor plan q run source) (\<lambda>_. tx_return (Refuses q))
           (rollback_to s s')
     | Inr (Matches back_sha g, s') \<Rightarrow>
         tx_bind (insert_processing_run sha actor plan \<lparr>n_run = run, n_source = source,
           n_chapter = Some chapter, n_status = Succeeded, n_back_sha = back_sha, n_outcome = Match,
           n_offset = None, n_span = None, n_authorization = None, n_policy = None,
           n_document = Some (l_document plan)\<rparr>) (\<lambda>_.
         tx_bind (append_source_state actor plan run source back_sha chapter (length (g_paragraphs g))
           (length (g_spans g))) (\<lambda>assertion.
         tx_return (Publishes \<lparr>z_document = l_document plan, z_version = l_source_version plan,
           z_chapters = [chapter], z_paragraphs = g_paragraphs g, z_chunks = map fst (g_spans g),
           z_source = source, z_run = run, z_assertion = assertion\<rparr>))) s')"

datatype publish_result =
    Published references
  | Refused span_diagnostic string string
  | Publish_failed pub_error

definition publish_version ::
  "(string \<Rightarrow> string) \<Rightarrow> (json \<Rightarrow> string) \<Rightarrow> string \<Rightarrow> persistence_plan \<Rightarrow> runtime_chunk list
    \<Rightarrow> runtime_chunk list \<Rightarrow> pub_db \<Rightarrow> publish_result \<times> pub_db" where
  "publish_version sha render actor plan paragraphs sentences s =
     (if paragraphs = [] \<or> sentences = [] then (Publish_failed Pub_no_chunks, s)
      else case exact_sentence_plan (l_text plan) paragraphs sentences of
        Inl e \<Rightarrow> (Publish_failed (Pub_plan e), s)
      | Inr sentence_plan \<Rightarrow>
          (case tx_bind (on_chunks draw_chunk_uuid) (\<lambda>run. tx_bind (on_chunks draw_chunk_uuid) (\<lambda>chapter.
               tx_return (run, chapter))) s of
             Inl e \<Rightarrow> (Publish_failed e, s)
           | Inr ((run, chapter), s1) \<Rightarrow>
               (case transaction (resolve_primary_source sha plan) s1 of
                  (Inl e, s2) \<Rightarrow> (Publish_failed e, s2)
                | (Inr source, s2) \<Rightarrow>
                    (case transaction (publication_transaction sha render actor plan sentence_plan run chapter source) s2 of
                       (Inl e, s3) \<Rightarrow> (Publish_failed e, s3)
                     | (Inr (Refuses q), s3) \<Rightarrow> (Refused (q_diagnostic q) (l_body_sha plan) (q_back_sha q), s3)
                     | (Inr (Publishes r), s3) \<Rightarrow> (Published r, s3)))))"

section \<open>The lookup of a committed version\<close>

record file_state =
  i_document_revectorize :: bool
  i_content_sha :: "string option"
  i_body_sha :: "string option"
  i_file_revectorize :: bool
  i_file_rechunk :: bool

text \<open>\<open>_load_document_file_state\<close>: a document that is not marked as removed, with its file if it has one.\<close>

definition document_file_state :: "pub_db \<Rightarrow> uuid \<Rightarrow> file_state option" where
  "document_file_state s d = (case map_of (b_documents s) d of
       None \<Rightarrow> None
     | Some m \<Rightarrow> if m_removed_at m \<noteq> None then None
         else let f = (case document_owner s d of None \<Rightarrow> None | Some owner \<Rightarrow> map_of (b_files s) owner);
                  revectorize = (case map_of (cdb_documents (b_store s)) d of None \<Rightarrow> False | Some r \<Rightarrow> d_revectorize r)
           in Some \<lparr>i_document_revectorize = revectorize,
                i_content_sha = map_option f_content_sha f, i_body_sha = map_option f_body_sha f,
                i_file_revectorize = (f \<noteq> None \<and> (case document_owner s d of None \<Rightarrow> False
                  | Some owner \<Rightarrow> map_of (cdb_files (b_store s)) owner = Some True)),
                i_file_rechunk = (case f of None \<Rightarrow> False | Some r \<Rightarrow> f_rechunk r)\<rparr>)"

datatype replay_reason = File_checksum_match | Source_version_match | Revectorization_pending

record replay =
  u_idempotent :: bool
  u_reason :: replay_reason
  u_version_id :: string
  u_version :: int
  u_strategy :: string
  u_chunks :: "uuid list"

definition existing_references ::
  "pub_db \<Rightarrow> uuid \<Rightarrow> string \<Rightarrow> int \<Rightarrow> string \<Rightarrow> bool \<Rightarrow> replay_reason \<Rightarrow> replay" where
  "existing_references s d version_id version strategy idempotent reason =
     \<lparr>u_idempotent = idempotent, u_reason = reason, u_version_id = version_id, u_version = version,
      u_strategy = strategy,
      u_chunks = map fst (sort_key (\<lambda>(c, k). case k_order k of None \<Rightarrow> 0 | Some n \<Rightarrow> n)
        (filter (\<lambda>(c, k). c \<in> set (unmarked_chunks s d)) (cdb_chunks (b_store s))))\<rparr>"

datatype version_arg = Version_int int | Version_text string

text \<open>\<open>int(value)\<close> of a decimal string, else the folded number; \<open>py_int10\<close> is Python's \<open>int(s)\<close>.\<close>

definition version_number_of :: "(string \<Rightarrow> string) \<Rightarrow> (string \<Rightarrow> int option) \<Rightarrow> version_arg \<Rightarrow> int" where
  "version_number_of sha py_int10 v = (case v of
       Version_int n \<Rightarrow> n
     | Version_text t \<Rightarrow> (case py_int10 t of Some n \<Rightarrow> n | None \<Rightarrow> source_version_number sha t))"

definition committed_document_row ::
  "(string \<Rightarrow> string) \<Rightarrow> (string \<Rightarrow> int option) \<Rightarrow> (json \<Rightarrow> string) \<Rightarrow> pub_db \<Rightarrow> uuid \<Rightarrow> version_arg \<Rightarrow> persistence_plan option
    \<Rightarrow> (string option \<times> string option) option" where
  "committed_document_row sha py_int10 render s d version plan = (case map_of (b_documents s) d of
       None \<Rightarrow> None
     | Some m \<Rightarrow> (case plan of
           Some p \<Rightarrow>
             if json_field render (m_meta m) ''source_version_id'' = Some (l_source_version_id p)
             then Some (Some (l_source_version_id p),
               Some (case json_field render (m_meta m) ''chunking_strategy'' of
                   Some (c # t) \<Rightarrow> c # t | _ \<Rightarrow> l_strategy p))
             else None
         | None \<Rightarrow>
             if m_version m = version_number_of sha py_int10 version
             then Some (json_field render (m_meta m) ''source_version_id'', json_field render (m_meta m) ''chunking_strategy'')
             else None))"

definition replay_reference ::
  "(string \<Rightarrow> string) \<Rightarrow> (string \<Rightarrow> int option) \<Rightarrow> (json \<Rightarrow> string) \<Rightarrow> pub_db \<Rightarrow> uuid \<Rightarrow> version_arg \<Rightarrow> persistence_plan option
    \<Rightarrow> replay option" where
  "replay_reference sha py_int10 render s d version plan =
     (if map_option l_command plan = Some ''document_chunk'' then None
      else case document_file_state s d of
        None \<Rightarrow> None
      | Some i \<Rightarrow>
          let quiescent = (\<not> i_file_rechunk i \<and> \<not> i_file_revectorize i \<and> \<not> i_document_revectorize i);
              same_bytes = (\<lambda>p. l_filename p \<noteq> None \<and> quiescent \<and>
                (i_content_sha i = Some (l_content_sha p) \<or> i_body_sha i = Some (l_body_sha p)))
          in case plan of
               Some p \<Rightarrow>
                 if same_bytes p
                 then Some (existing_references s d (l_source_version_id p) (l_source_version p) (l_strategy p)
                   True File_checksum_match)
                 else (case committed_document_row sha py_int10 render s d version plan of
                     Some (Some version_id, Some strategy) \<Rightarrow>
                       if quiescent then Some (existing_references s d version_id (l_source_version p) strategy
                         True Source_version_match)
                       else if \<not> i_file_rechunk i then Some (existing_references s d version_id
                         (l_source_version p) strategy False Revectorization_pending)
                       else None
                   | _ \<Rightarrow> None)
             | None \<Rightarrow>
                 (case committed_document_row sha py_int10 render s d version plan of
                     Some (Some version_id, Some strategy) \<Rightarrow>
                       let n = version_number_of sha py_int10 version in
                       if quiescent then Some (existing_references s d version_id n strategy
                         True Source_version_match)
                       else if \<not> i_file_rechunk i then Some (existing_references s d version_id
                         n strategy False Revectorization_pending)
                       else None
                   | _ \<Rightarrow> None))"

section \<open>The publication boundary\<close>

datatype failure_stage = Identity_lookup | Mapper | Repository_transaction

datatype 'r publication_outcome =
    Committed references
  | Idempotent_replay 'r
  | Rolled_back failure_stage
  | Integrity_refused span_diagnostic string string

text \<open>
  \<open>publish_document\<close> over the three calls it orders; a call that raises is \<open>None\<close>, and the
  repository's transaction answers as \<open>publish_version\<close>.
\<close>

definition publish_document ::
  "('r option) option \<Rightarrow> 'p option \<Rightarrow> ('p \<Rightarrow> 's \<Rightarrow> publish_result \<times> 's) \<Rightarrow> 's \<Rightarrow> 'r publication_outcome \<times> 's" where
  "publish_document lookup mapped publish s = (case lookup of
       None \<Rightarrow> (Rolled_back Identity_lookup, s)
     | Some (Some existing) \<Rightarrow> (Idempotent_replay existing, s)
     | Some None \<Rightarrow> (case mapped of
           None \<Rightarrow> (Rolled_back Mapper, s)
         | Some plan \<Rightarrow> (case publish plan s of
               (Published r, s') \<Rightarrow> (Committed r, s')
             | (Refused d a b, s') \<Rightarrow> (Integrity_refused d a b, s')
             | (Publish_failed e, s') \<Rightarrow> (Rolled_back Repository_transaction, s'))))"

end
