(* ===== verification/Publication_Effects.thy ===== *)
theory Publication_Effects
  imports Publication
begin

text \<open>
  What the statements of a publication do to the rows a reconstruction reads: the hierarchy the
  document had disappears from them, every written chunk adds one row at the end, and nothing else
  changes.
\<close>

section \<open>The part of the state the join reads\<close>

definition same_view :: "pub_db \<Rightarrow> pub_db \<Rightarrow> bool" where
  "same_view s s' \<longleftrightarrow>
     cdb_chunks (b_store s') = cdb_chunks (b_store s) \<and> cdb_texts (b_store s') = cdb_texts (b_store s) \<and>
     cdb_documents (b_store s') = cdb_documents (b_store s) \<and> b_places s' = b_places s \<and>
     b_paragraphs s' = b_paragraphs s \<and> b_chapters s' = b_chapters s \<and> b_documents s' = b_documents s"

lemma same_view_refl [simp]: "same_view s s"
  by (simp add: same_view_def)

lemma same_view_trans: "same_view s t \<Longrightarrow> same_view t u \<Longrightarrow> same_view s u"
  by (simp add: same_view_def)

lemma joined_row_view: "same_view s s' \<Longrightarrow> joined_row render s' = joined_row render s"
  unfolding joined_row_def document_owner_def same_view_def by (elim conjE) (simp only:)

lemma joined_rows_view: "same_view s s' \<Longrightarrow> joined_rows render s' = joined_rows render s"
  by (simp add: joined_rows_def joined_row_view) (simp add: same_view_def)

lemma document_scope_view: "same_view s s' \<Longrightarrow> document_scope render s' d = document_scope render s d"
  by (simp add: document_scope_def joined_rows_view)

section \<open>Lifted statements\<close>

lemma on_chunks_iff [simp]:
  "on_chunks m s = Inr (x, s') \<longleftrightarrow> (\<exists>c. m (b_store s) = Inr (x, c) \<and> s' = s\<lparr>b_store := c\<rparr>)"
  by (auto simp: on_chunks_def split: sum.splits)

lemma on_temporal_iff [simp]:
  "on_temporal m s = Inr (x, s') \<longleftrightarrow> (\<exists>t. m (b_temporal s) = Inr (x, t) \<and> s' = s\<lparr>b_temporal := t\<rparr>)"
  by (auto simp: on_temporal_def split: sum.splits)

lemma constraint_iff [simp]: "constraint P s = Inr (x, s') \<longleftrightarrow> P s \<and> s' = s"
  by (auto simp: constraint_def)

lemma register_view: "register l i s = Inr (x, s') \<Longrightarrow> same_view s s' \<and> b_store s' = b_store s"
  by (auto simp: register_def same_view_def split: if_splits)

lemma draw_view: "on_chunks draw_chunk_uuid s = Inr (x, s') \<Longrightarrow> same_view s s'"
  by (auto simp: draw_chunk_uuid_def same_view_def)

section \<open>The old hierarchy disappears\<close>

text \<open>A chunk with no place, or with a place marked as removed, is in no scope.\<close>

definition dead :: "pub_db \<Rightarrow> uuid \<Rightarrow> bool" where
  "dead s c \<longleftrightarrow> (case map_of (b_places s) c of None \<Rightarrow> True | Some l \<Rightarrow> s_removed_at l \<noteq> None)"

lemma dead_row: "dead s c \<Longrightarrow> joined_row render s (c, k) = None"
  by (auto simp: dead_def joined_row_def live_def split: option.splits)

lemma map_of_map_cond:
  "map_of (map (\<lambda>(i, r). if P i r then (i, f r) else (i, r)) rows) k =
     (case map_of rows k of None \<Rightarrow> None | Some r \<Rightarrow> Some (if P k r then f r else r))"
  by (induction rows) auto

lemma remove_places_dead:
  assumes "c \<in> set (document_chunks s d)"
  shows "dead (remove_places d s) c"
proof (cases "map_of (b_places s) c")
  case None
  then show ?thesis by (simp add: dead_def remove_places_def Let_def map_of_map_cond)
next
  case (Some l)
  then show ?thesis using assms
    by (auto simp: dead_def remove_places_def Let_def map_of_map_cond unmarked_chunks_def)
qed

lemma mark_cases:
  assumes "mark_existing_hierarchy_deleted d s = Inr (x, s')"
  shows "cdb_chunks (b_store s') = cdb_chunks (b_store s)" "cdb_texts (b_store s') = cdb_texts (b_store s)"
    "cdb_documents (b_store s') = cdb_documents (b_store s)" "b_documents s' = b_documents s"
    "\<forall>(c, k)\<in>set (cdb_chunks (b_store s)). k_document k = d \<longrightarrow> dead s' c"
proof -
  define cs where "cs = unmarked_chunks s d"
  define s1 where "s1 = (if cs = [] then s else deactivate_embeddings cs s)"
  define s4 where "s4 = remove_chapters d (remove_paragraphs d (remove_places d s1))"
  have s1: "cdb_chunks (b_store s1) = cdb_chunks (b_store s)" "cdb_texts (b_store s1) = cdb_texts (b_store s)"
    "cdb_documents (b_store s1) = cdb_documents (b_store s)" "b_documents s1 = b_documents s"
    by (simp_all add: s1_def deactivate_embeddings_def)
  from assms have "shift_chapters d s4 = Inr (x, s')"
    unfolding s4_def s1_def cs_def by (simp add: mark_existing_hierarchy_deleted_def split del: if_split)
  then obtain rows where s': "s' = s4\<lparr>b_chapters := rows\<rparr>"
    by (auto simp: shift_chapters_def Let_def split: if_splits)
  have store: "b_store s' = b_store s1" "b_documents s' = b_documents s1"
    "b_places s' = b_places (remove_places d s1)"
    by (simp_all add: s' s4_def remove_chapters_def remove_paragraphs_def remove_places_def Let_def)
  show "cdb_chunks (b_store s') = cdb_chunks (b_store s)" "cdb_texts (b_store s') = cdb_texts (b_store s)"
    "cdb_documents (b_store s') = cdb_documents (b_store s)" "b_documents s' = b_documents s"
    by (simp_all add: store s1)
  show "\<forall>(c, k)\<in>set (cdb_chunks (b_store s)). k_document k = d \<longrightarrow> dead s' c"
  proof clarify
    fix c k assume "(c, k) \<in> set (cdb_chunks (b_store s))" "d = k_document k"
    then have "c \<in> set (document_chunks s1 d)" by (force simp: document_chunks_def s1)
    from remove_places_dead [OF this] show "dead s' c" using \<open>d = k_document k\<close> by (simp add: dead_def store)
  qed
qed

section \<open>File, document, chapter\<close>

lemma write_file_frame:
  assumes "write_file plan source s = Inr (x, s')"
  shows "same_view s s'"
  using assms by (cases "map_of (b_files s) (l_file plan)")
    (auto simp: write_file_def Let_def same_view_def dest!: register_view)

lemma write_document_frame:
  assumes "write_document plan s = Inr (x, s')"
  shows "cdb_chunks (b_store s') = cdb_chunks (b_store s)" "cdb_texts (b_store s') = cdb_texts (b_store s)"
    "b_places s' = b_places s" "b_paragraphs s' = b_paragraphs s" "b_chapters s' = b_chapters s"
    "\<exists>m. map_of (b_documents s') (l_document plan) = Some m \<and> m_removed_at m = None \<and>
       m_removed m = (case map_of (b_documents s) (l_document plan) of None \<Rightarrow> False | Some m \<Rightarrow> m_removed m)"
proof -
  define now where "now = pub_clock s"
  from assms obtain trace s1 where
    s1: "s1 = s\<lparr>b_documents := dict_set (b_documents s) (l_document plan)
        (document_of_plan plan trace now (map_of (b_documents s) (l_document plan))),
      b_store := (b_store s)\<lparr>cdb_documents := dict_set (cdb_documents (b_store s)) (l_document plan)
           \<lparr>d_owner = Some (l_file plan), d_revectorize = True\<rparr>\<rparr>\<rparr>"
    and reg: "(if map_of (b_documents s) (l_document plan) = None then register ''documents'' (l_document plan)
        else tx_return ()) s1 = Inr (x, s')"
    unfolding write_document_def Let_def now_def by auto
  from reg have view: "same_view s1 s'" "b_store s' = b_store s1"
    by (auto split: if_splits dest: register_view)
  then show "cdb_chunks (b_store s') = cdb_chunks (b_store s)" "cdb_texts (b_store s') = cdb_texts (b_store s)"
    "b_places s' = b_places s" "b_paragraphs s' = b_paragraphs s" "b_chapters s' = b_chapters s"
    by (simp_all add: same_view_def s1)
  from view(1) have "b_documents s' = b_documents s1" by (simp add: same_view_def)
  then show "\<exists>m. map_of (b_documents s') (l_document plan) = Some m \<and> m_removed_at m = None \<and>
       m_removed m = (case map_of (b_documents s) (l_document plan) of None \<Rightarrow> False | Some m \<Rightarrow> m_removed m)"
    by (simp add: s1 document_of_plan_def)
qed

lemma write_chapter_frame:
  assumes "write_chapter plan i s = Inr (x, s')"
  shows "cdb_chunks (b_store s') = cdb_chunks (b_store s)" "cdb_texts (b_store s') = cdb_texts (b_store s)"
    "cdb_documents (b_store s') = cdb_documents (b_store s)" "b_documents s' = b_documents s"
    "b_places s' = b_places s" "b_paragraphs s' = b_paragraphs s" "map_of (b_chapters s) i = None"
    "\<exists>h. map_of (b_chapters s') i = Some h \<and> h_order h = 0 \<and> live (h_removed h) (h_removed_at h)"
  using assms
  by (auto simp: write_chapter_def insert_chapter_def same_view_def live_def map_add_def dest!: register_view)

section \<open>Paragraphs and chunks\<close>

lemma write_paragraph_frame:
  assumes "write_paragraph plan p i chapter n s = Inr (meta, s')"
  shows "meta = paragraph_meta plan p n" "map_of (b_paragraphs s) i = None"
    "b_paragraphs s' = b_paragraphs s @ [(i, \<lparr>y_document = l_document plan, y_chapter = chapter,
        y_order = int n, y_text = c_text p, y_start = c_start p, y_end = c_end p,
        y_meta = meta, y_removed = False, y_removed_at = None\<rparr>)]"
    "cdb_chunks (b_store s') = cdb_chunks (b_store s)" "cdb_texts (b_store s') = cdb_texts (b_store s)"
    "cdb_documents (b_store s') = cdb_documents (b_store s)" "b_documents s' = b_documents s"
    "b_places s' = b_places s" "b_chapters s' = b_chapters s"
  using assms
  by (auto simp: write_paragraph_def insert_paragraph_def Let_def same_view_def dest!: register_view)

lemma dictionary_id_docs:
  "dictionary_id table descr s = Inr (i, s') \<Longrightarrow> cdb_documents s' = cdb_documents s"
  by (auto simp: dictionary_id_def Let_def draw_chunk_uuid_def split: if_splits option.splits)

lemma semantic_dictionary_id_view:
  assumes "semantic_dictionary_id values ft s = Inr (i, s')"
  shows "same_view s s'"
proof -
  from assms obtain table descr c s1 s2 where
    d: "dictionary_id table descr (b_store s) = Inr (i, c)" and s1: "s1 = s\<lparr>b_store := c\<rparr>"
    and reg: "same_view s1 s'"
    by (cases ft) (auto simp: semantic_dictionary_id_def Let_def split: if_splits dest: register_view)
  from dictionary_id_frame [OF d] dictionary_id_docs [OF d] have "same_view s s1"
    by (simp add: same_view_def s1)
  with reg show ?thesis by (rule same_view_trans [rotated])
qed

lemma tx_map_view:
  assumes "\<And>x s y s'. f x s = Inr (y, s') \<Longrightarrow> same_view s s'" "tx_map f xs s = Inr (ys, s')"
  shows "same_view s s'"
  using assms(2)
proof (induction xs arbitrary: s ys)
  case (Cons x xs)
  then obtain y s1 zs where "f x s = Inr (y, s1)" "tx_map f xs s1 = Inr (zs, s')" by auto
  with Cons.IH [OF this(2)] assms(1) show ?case by (blast intro: same_view_trans)
qed simp

lemma chunk_rows_frame [simp]:
  "cdb_chunks (chunk_index_rows f c s) = cdb_chunks s" "cdb_texts (chunk_index_rows f c s) = cdb_texts s"
  "cdb_documents (chunk_index_rows f c s) = cdb_documents s"
  "cdb_chunks (default_metrics c s) = cdb_chunks s" "cdb_texts (default_metrics c s) = cdb_texts s"
  "cdb_documents (default_metrics c s) = cdb_documents s"
  by (simp_all add: chunk_index_rows_def default_metrics_def derive_def)

lemma assign_frame [simp]:
  "cdb_chunks (fold (assign_classifier c) xs s) = cdb_chunks s"
  "cdb_texts (fold (assign_classifier c) xs s) = cdb_texts s"
  "cdb_documents (fold (assign_classifier c) xs s) = cdb_documents s"
  by (induction xs arbitrary: s) (auto simp: assign_classifier_def split_beta)


lemma insert_place_cases:
  assumes "insert_place c paragraph k chapter s = Inr (x, s')"
  shows "map_of (b_places s) c = None" "map_of (b_paragraphs s) paragraph \<noteq> None"
    "b_store s' = b_store s" "b_documents s' = b_documents s" "b_paragraphs s' = b_paragraphs s"
    "b_chapters s' = b_chapters s"
    "b_places s' = b_places s @ [(c, \<lparr>s_chapter = chapter, s_removed = False, s_removed_at = None\<rparr>)]"
  using assms by (auto simp: insert_place_def same_view_def dest!: register_view)

lemma write_chunk_text_frame:
  assumes "write_chunk_text sha c k body meta s = Inr (x, s')"
  shows "map_of (cdb_chunks s) c = None" "map_of (cdb_texts s) c = None"
    "cdb_chunks s' = cdb_chunks s @ [(c, k)]"
    "cdb_texts s' = cdb_texts s @ [(c, \<lparr>t_text = body, t_sha = sha body,
       t_chars = int (length body), t_meta = meta\<rparr>)]"
    "cdb_documents s' = cdb_documents s"
proof -
  let ?s1 = "s\<lparr>cdb_chunks := cdb_chunks s @ [(c, k)], cdb_texts := cdb_texts s @
    [(c, \<lparr>t_text = body, t_sha = sha body, t_chars = int (length body), t_meta = meta\<rparr>)]\<rparr>"
  from assms have none: "map_of (cdb_chunks s) c = None" "map_of (cdb_texts s) c = None"
    and ins: "insert_initial_version c body (sha body) (int (length body)) (k_meta k) ?s1 = Inr (x, s')"
    by (auto simp: write_chunk_text_def split: if_splits)
  show "map_of (cdb_chunks s) c = None" "map_of (cdb_texts s) c = None" by (rule none)+
  from ins obtain i s2 s3 where seed: "seed_version c body (sha body) (int (length body)) (k_meta k) ?s1 = Inr (i, s2)"
    and pv: "point_version c i s2 = Inr ((), s3)" and s': "s' = rebind_assignments c i s3"
    by (auto simp: insert_initial_version_def)
  from seed have "cdb_chunks s2 = cdb_chunks ?s1 \<and> cdb_texts s2 = cdb_texts ?s1 \<and> cdb_documents s2 = cdb_documents ?s1"
    by (auto simp: seed_version_def draw_chunk_uuid_def insert_version_row_iff split: option.splits)
  moreover from pv have "cdb_chunks s3 = cdb_chunks s2 \<and> cdb_texts s3 = cdb_texts s2 \<and> cdb_documents s3 = cdb_documents s2"
    by (auto simp: point_version_def split: option.splits dest!: point_current_iff)
  ultimately show "cdb_chunks s' = cdb_chunks s @ [(c, k)]"
    "cdb_texts s' = cdb_texts s @ [(c, \<lparr>t_text = body, t_sha = sha body,
       t_chars = int (length body), t_meta = meta\<rparr>)]"
    "cdb_documents s' = cdb_documents s"
    by (simp_all add: s' rebind_assignments_def)
qed

lemma write_semantic_chunk_cases:
  assumes "write_semantic_chunk sha plan x paragraph chapter p_meta p s = Inr (c, s')"
  obtains ids k where "c = c_uuid x" "k = chunk_of_plan plan p_meta x chapter paragraph ids"
    "map_of (cdb_chunks (b_store s)) c = None" "map_of (cdb_texts (b_store s)) c = None"
    "map_of (b_places s) c = None" "map_of (b_paragraphs s) paragraph \<noteq> None"
    "cdb_chunks (b_store s') = cdb_chunks (b_store s) @ [(c, k)]"
    "cdb_texts (b_store s') = cdb_texts (b_store s) @ [(c, \<lparr>t_text = c_text x, t_sha = sha (c_text x),
       t_chars = int (length (c_text x)), t_meta = merge_piece_metadata (k_meta k) p\<rparr>)]"
    "b_places s' = b_places s @ [(c, \<lparr>s_chapter = chapter, s_removed = False, s_removed_at = None\<rparr>)]"
    "cdb_documents (b_store s') = cdb_documents (b_store s)" "b_documents s' = b_documents s"
    "b_paragraphs s' = b_paragraphs s" "b_chapters s' = b_chapters s"
proof -
  let ?features = "sentence_features plan x"
  from assms obtain ids s1 s2 st where
    ids: "semantic_dictionary_ids (classifier_values ?features) s = Inr (ids, s1)"
    and place: "insert_place (c_uuid x) paragraph (chunk_of_plan plan p_meta x chapter paragraph ids) chapter s1 = Inr ((), s2)"
    and written: "write_chunk_text sha (c_uuid x) (chunk_of_plan plan p_meta x chapter paragraph ids) (c_text x)
       (merge_piece_metadata (k_meta (chunk_of_plan plan p_meta x chapter paragraph ids)) p) (b_store s2) = Inr ((), st)"
    and s': "s' = s2\<lparr>b_store := chunk_index_rows ?features (c_uuid x) (default_metrics (c_uuid x)
        (fold (assign_classifier (c_uuid x)) (zip assignment_tables ids) st))\<rparr>" and c: "c = c_uuid x"
    by (auto simp: write_semantic_chunk_def Let_def)
  have view: "same_view s s1"
    using ids unfolding semantic_dictionary_ids_def by (rule tx_map_view [rotated]) (rule semantic_dictionary_id_view)
  note pl = insert_place_cases [OF place] and w = write_chunk_text_frame [OF written]
  show ?thesis
    by (rule that [of "chunk_of_plan plan p_meta x chapter paragraph ids" ids])
      (use view pl w in \<open>simp_all add: c s' same_view_def\<close>)
qed

end
