(* ===== verification/Publication_Scope.thy ===== *)
theory Publication_Scope
  imports Publication_Effects
begin

text \<open>
  The scope of a document after its hierarchy is written: exactly the written chunks, each with its
  text and its exact piece, in the order of the plan.
\<close>

section \<open>No metadata of a chunk hides its piece\<close>

lemma dict_update_keys [simp]: "fst ` set (dict_update d e) = fst ` set d \<union> fst ` set e"
  by (induction d e rule: dict_update.induct) auto

lemma no_exact_key:
  assumes "map_of (l_meta plan) exact_key = None"
  shows "map_of (chunk_meta plan (paragraph_meta plan p n) x chapter paragraph) exact_key = None"
proof -
  have "exact_key \<notin> fst ` set (chunk_features b m t)" "exact_key \<notin> fst ` set (chunk_metadata_features j)"
    "exact_key \<notin> fst ` set (classifier_values j)" "exact_key \<notin> fst ` set (source_properties b None)" for b m t j
    by (auto simp: chunk_features_def Let_def exact_key_def chunk_metadata_features_def classifier_fields_def
      classifier_values_def classifier_defaults_def source_properties_def split: if_splits option.splits)
  moreover have "exact_key \<notin> fst ` set (l_meta plan)" using assms by (simp add: map_of_eq_None_iff)
  ultimately show ?thesis
    by (auto simp: map_of_eq_None_iff chunk_meta_def paragraph_meta_def sentence_features_def Let_def image_iff
      exact_key_def split_beta)
qed

section \<open>The entries of a document\<close>

definition scope_entries :: "(json \<Rightarrow> string) \<Rightarrow> pub_db \<Rightarrow> uuid \<Rightarrow> scope_entry list" where
  "scope_entries render s d =
     List.map_filter (joined_row render s) (filter (\<lambda>(c, k). k_document k = d) (cdb_chunks (b_store s)))"

lemma joined_row_document: "joined_row render s (c, k) = Some e \<Longrightarrow> e_document_id e = k_document k"
  by (auto simp: joined_row_def Let_def split: option.splits if_splits)

lemma scope_entries_joined:
  "filter (\<lambda>e. e_document_id e = d) (joined_rows render s) = scope_entries render s d"
proof -
  have "filter (\<lambda>e. e_document_id e = d) (List.map_filter (joined_row render s) rows) =
      List.map_filter (joined_row render s) (filter (\<lambda>(c, k). k_document k = d) rows)" for rows
    by (induction rows) (auto simp: map_filter_simps split: option.splits dest: joined_row_document)
  then show ?thesis by (simp add: joined_rows_def scope_entries_def)
qed

lemma document_scope_entries:
  "document_scope render s d = map e_row (sort_key hierarchy_order (scope_entries render s d))"
  by (simp add: document_scope_def scope_entries_joined)

lemma map_filter_cong: "(\<And>x. x \<in> set xs \<Longrightarrow> f x = g x) \<Longrightarrow> List.map_filter f xs = List.map_filter g xs"
  by (induction xs) (auto simp: map_filter_simps split: option.split)

lemma map_filter_append: "List.map_filter f (xs @ ys) = List.map_filter f xs @ List.map_filter f ys"
  by (induction xs) (simp_all add: map_filter_simps split: option.split)

section \<open>The invariant of the loop\<close>

definition paragraph_live :: "pub_db \<Rightarrow> uuid \<Rightarrow> nat \<Rightarrow> bool" where
  "paragraph_live s i n \<longleftrightarrow>
     (\<exists>y. map_of (b_paragraphs s) i = Some y \<and> y_order y = int n \<and> live (y_removed y) (y_removed_at y))"

definition chapter_live :: "pub_db \<Rightarrow> uuid \<Rightarrow> bool" where
  "chapter_live s i \<longleftrightarrow>
     (\<exists>h. map_of (b_chapters s) i = Some h \<and> h_order h = 0 \<and> live (h_removed h) (h_removed_at h))"

definition document_live :: "pub_db \<Rightarrow> uuid \<Rightarrow> bool" where
  "document_live s d \<longleftrightarrow> (\<exists>m. map_of (b_documents s) d = Some m \<and> live (m_removed m) (m_removed_at m))"

definition paragraph_known :: "pub_db \<Rightarrow> chunk_row \<Rightarrow> bool" where
  "paragraph_known s k \<longleftrightarrow> (\<exists>p. k_paragraph k = Some p \<and> map_of (b_paragraphs s) p \<noteq> None)"

definition scope_inv :: "(json \<Rightarrow> string) \<Rightarrow> pub_db \<Rightarrow> uuid \<Rightarrow> uuid \<Rightarrow> scope_entry list \<Rightarrow> bool" where
  "scope_inv render s d chapter es \<longleftrightarrow>
     scope_entries render s d = es \<and> chapter_live s chapter \<and> document_live s d \<and>
     (\<forall>(c, k)\<in>set (cdb_chunks (b_store s)). k_document k = d \<longrightarrow> dead s c \<or> paragraph_known s k)"

definition entry_matches :: "uuid \<Rightarrow> scope_entry \<Rightarrow> nat \<times> runtime_chunk \<times> exact_piece \<Rightarrow> bool" where
  "entry_matches d e = (\<lambda>(n, x, p). e_document_id e = d \<and> e_chapter_order e = 0 \<and>
     e_paragraph_order e = int n \<and> e_chunk_order e = c_ordinal x \<and> e_chunk_id e = c_uuid x \<and>
     r_chunk (e_row e) = uuid_str (c_uuid x) \<and> r_text (e_row e) = c_text x \<and>
     row_piece (e_row e) = Inr (Some p))"

lemma map_of_snoc: "map_of (xs @ [(k, v)]) i = (case map_of xs i of None \<Rightarrow> if i = k then Some v else None | r \<Rightarrow> r)"
  by (auto simp: map_add_def split: option.splits)

lemma map_of_snoc_other: "i \<noteq> k \<Longrightarrow> map_of (xs @ [(k, v)]) i = map_of xs i"
  by (simp add: map_add_def split: option.split)

text \<open>A written chunk adds its row.\<close>

lemma chunk_step:
  assumes inv: "scope_inv render s d chapter es" and d: "d = l_document plan"
    and w: "write_semantic_chunk sha plan x paragraph chapter p_meta p s = Inr (c, s')"
    and par: "paragraph_live s paragraph n"
    and meta: "map_of (chunk_meta plan p_meta x chapter paragraph) exact_key = None"
  shows "c = c_uuid x \<and> paragraph_live s' paragraph n \<and>
    (\<exists>e. scope_inv render s' d chapter (es @ [e]) \<and> entry_matches d e (n, x, p))"
  using w
proof (cases rule: write_semantic_chunk_cases)
  case (1 ids k)
  from par obtain y where y: "map_of (b_paragraphs s) paragraph = Some y" "y_order y = int n"
    "live (y_removed y) (y_removed_at y)" by (auto simp: paragraph_live_def)
  from inv obtain h m where h: "map_of (b_chapters s) chapter = Some h" "h_order h = 0"
    "live (h_removed h) (h_removed_at h)" and m: "map_of (b_documents s) d = Some m"
    "live (m_removed m) (m_removed_at m)"
    by (auto simp: scope_inv_def chapter_live_def document_live_def)
  have k: "k_document k = d" "k_paragraph k = Some paragraph" "k_order k = Some (c_ordinal x)"
    "k_meta k = chunk_meta plan p_meta x chapter paragraph"
    by (simp_all add: 1(2) chunk_of_plan_def d)
  have other: "joined_row render s' (i, j) = joined_row render s (i, j)" if "i \<noteq> c" for i j
  proof -
    have "map_of (cdb_texts (b_store s')) i = map_of (cdb_texts (b_store s)) i"
      "map_of (b_places s') i = map_of (b_places s) i"
      using that by (simp_all add: 1(8,9) map_of_snoc_other del: map_of_append)
    then show ?thesis
      unfolding joined_row_def document_owner_def split_conv by (simp only: 1(10-13) prod.case)
  qed
  have fresh: "i \<noteq> c" if "(i, j) \<in> set (cdb_chunks (b_store s))" for i j
    using that 1(3) by (force simp: map_of_eq_None_iff)
  have "live False None" by (simp add: live_def)
  then obtain e where e: "joined_row render s' (c, k) = Some e" and mt: "entry_matches d e (n, x, p)"
    using 1(1,4,5,10-13) y h m k meta
    by (auto simp: joined_row_def 1(8,9) map_add_def Let_def entry_matches_def row_piece_def select_merged)
  have "scope_entries render s' d = es @ [e]"
  proof -
    have "List.map_filter (joined_row render s') (filter (\<lambda>(c, k). k_document k = d) (cdb_chunks (b_store s))) =
        List.map_filter (joined_row render s) (filter (\<lambda>(c, k). k_document k = d) (cdb_chunks (b_store s)))"
      by (rule map_filter_cong) (use fresh other in auto)
    also have "\<dots> = es" using inv by (simp only: scope_inv_def scope_entries_def)
    finally have "List.map_filter (joined_row render s')
      (filter (\<lambda>(c, k). k_document k = d) (cdb_chunks (b_store s))) = es" .
    then show ?thesis using e k by (simp add: scope_entries_def 1(7) map_filter_append map_filter_simps)
  qed
  moreover have "dead s' i \<or> paragraph_known s' j"
    if "(i, j) \<in> set (cdb_chunks (b_store s'))" "k_document j = d" for i j
  proof (cases "(i, j) \<in> set (cdb_chunks (b_store s))")
    case True
    with inv that(2) have "dead s i \<or> paragraph_known s j" by (auto simp: scope_inv_def)
    moreover have "dead s' i = dead s i" using fresh [OF True] by (simp add: dead_def 1(9) map_of_snoc_other del: map_of_append)
    moreover have "paragraph_known s' j = paragraph_known s j" by (simp add: paragraph_known_def 1(12))
    ultimately show ?thesis by blast
  next
    case False
    with that 1(7) have "j = k" by auto
    then show ?thesis using y k 1 by (simp add: paragraph_known_def)
  qed
  ultimately have "scope_inv render s' d chapter (es @ [e])"
    using h m 1 by (auto simp: scope_inv_def chapter_live_def document_live_def)
  moreover have "paragraph_live s' paragraph n" using y 1 by (simp add: paragraph_live_def)
  ultimately show ?thesis using mt 1(1) by blast
qed

text \<open>A written paragraph changes no row.\<close>

lemma paragraph_step:
  assumes inv: "scope_inv render s d chapter es"
    and w: "write_paragraph plan p i chapter n s = Inr (meta, s')"
  shows "scope_inv render s' d chapter es \<and> paragraph_live s' i n \<and> meta = paragraph_meta plan p n"
proof -
  note f = write_paragraph_frame [OF w]
  have "joined_row render s' (c, k) = joined_row render s (c, k)"
    if "(c, k) \<in> set (cdb_chunks (b_store s))" "k_document k = d" for c k
  proof (cases "dead s c")
    case True
    then have "dead s' c" by (simp add: dead_def f)
    with True show ?thesis by (simp add: dead_row)
  next
    case False
    with inv that obtain q where "k_paragraph k = Some q" "map_of (b_paragraphs s) q \<noteq> None"
      by (auto simp: scope_inv_def paragraph_known_def)
    then show ?thesis using f
      by (auto simp: joined_row_def map_of_snoc document_owner_def split: option.splits)
  qed
  then have "scope_entries render s' d = scope_entries render s d"
    unfolding scope_entries_def f(4) by (intro map_filter_cong) auto
  moreover have "dead s' c \<or> paragraph_known s' k"
    if "(c, k) \<in> set (cdb_chunks (b_store s'))" "k_document k = d" for c k
  proof -
    from inv that have "dead s c \<or> paragraph_known s k" by (auto simp: scope_inv_def f(4))
    moreover have "dead s' c = dead s c" by (simp add: dead_def f)
    moreover have "paragraph_known s k \<Longrightarrow> paragraph_known s' k"
      by (auto simp: paragraph_known_def f(3) map_of_snoc)
    ultimately show ?thesis by blast
  qed
  ultimately have "scope_inv render s' d chapter es"
    using inv f by (auto simp: scope_inv_def chapter_live_def document_live_def)
  moreover have "paragraph_live s' i n"
    using f by (simp add: paragraph_live_def map_add_def live_def)
  ultimately show ?thesis using f(1) by blast
qed

section \<open>The loops\<close>

fun indexed :: "nat \<Rightarrow> sentence_plan \<Rightarrow> (nat \<times> runtime_chunk \<times> exact_piece) list" where
  "indexed n [] = []"
| "indexed n ((p, ss) # rest) = map (\<lambda>(x, q). (n, x, q)) ss @ indexed (Suc n) rest"

lemma sentences_step:
  assumes "write_sentences sha plan paragraph chapter p_meta g ss s = Inr (g', s')"
    and "scope_inv render s d chapter es" "d = l_document plan" "paragraph_live s paragraph n"
    and "\<And>x. map_of (chunk_meta plan p_meta x chapter paragraph) exact_key = None"
  shows "map fst (g_spans g') = map fst (g_spans g) @ map (c_uuid \<circ> fst) ss \<and>
    (\<exists>new. scope_inv render s' d chapter (es @ new) \<and>
      list_all2 (entry_matches d) new (map (\<lambda>(x, q). (n, x, q)) ss))"
  using assms(1,2,4)
proof (induction ss arbitrary: g s es)
  case Nil
  then show ?case by (auto intro: exI [of _ "[]"])
next
  case (Cons xq ss)
  obtain x q where xq: "xq = (x, q)" by (cases xq)
  from Cons.prems(1) obtain c s1 where c: "write_semantic_chunk sha plan x paragraph chapter p_meta q s = Inr (c, s1)"
    and rest: "write_sentences sha plan paragraph chapter p_meta
      (advance c paragraph (case source_text q of None \<Rightarrow> c_text x | Some t \<Rightarrow> t) g) ss s1 = Inr (g', s')"
    by (auto simp: xq)
  from chunk_step [OF Cons.prems(2) assms(3) c Cons.prems(3) assms(5)] obtain e where
    e: "c = c_uuid x" "paragraph_live s1 paragraph n" "scope_inv render s1 d chapter (es @ [e])"
      "entry_matches d e (n, x, q)" by blast
  from Cons.IH [OF rest e(3,2)] obtain new where new: "scope_inv render s' d chapter ((es @ [e]) @ new)"
    "list_all2 (entry_matches d) new (map (\<lambda>(x, q). (n, x, q)) ss)"
    and sp: "map fst (g_spans g') = map fst (g_spans g) @ c_uuid x # map (c_uuid \<circ> fst) ss"
    by (auto simp: advance_def Let_def e(1))
  have "scope_inv render s' d chapter (es @ e # new)" using new(1) by simp
  moreover have "list_all2 (entry_matches d) (e # new) (map (\<lambda>(x, q). (n, x, q)) (xq # ss))"
    using new(2) e(4) by (simp add: xq)
  ultimately show ?case using sp by (auto simp: xq)
qed

lemma scope_inv_view:
  assumes "same_view s s'"
  shows "scope_inv render s' d chapter es = scope_inv render s d chapter es"
  using assms joined_row_view [OF assms]
  by (simp add: scope_inv_def scope_entries_def same_view_def chapter_live_def document_live_def
    dead_def paragraph_known_def)

lemma draw_scope_inv:
  "on_chunks draw_chunk_uuid s = Inr (i, s') \<Longrightarrow> scope_inv render s d chapter es \<Longrightarrow> scope_inv render s' d chapter es"
  by (simp only: scope_inv_view [OF draw_view])

lemma write_paragraphs_paragraphs:
  "write_sentences sha plan paragraph chapter p_meta g ss s = Inr (g', s') \<Longrightarrow> g_paragraphs g' = g_paragraphs g"
  by (induction ss arbitrary: g s) (fastforce simp: advance_def Let_def)+

lemma paragraphs_step:
  assumes "write_paragraphs sha plan chapter n g sp s = Inr (g', s')"
    and "scope_inv render s d chapter es" "d = l_document plan" "map_of (l_meta plan) exact_key = None"
  shows "map fst (g_spans g') = map fst (g_spans g) @ map (c_uuid \<circ> fst) (plan_rows sp) \<and>
    length (g_paragraphs g') = length (g_paragraphs g) + length sp \<and>
    (\<exists>new. scope_inv render s' d chapter (es @ new) \<and> list_all2 (entry_matches d) new (indexed n sp))"
  using assms(1,2)
proof (induction sp arbitrary: n g s es)
  case Nil
  then show ?case by (auto simp: plan_rows_def intro: exI [of _ "[]"])
next
  case (Cons ps sp)
  obtain p ss where ps: "ps = (p, ss)" by (cases ps)
  define g0 where "g0 i = g\<lparr>g_paragraphs := g_paragraphs g @ [i]\<rparr>" for i
  from Cons.prems(1) obtain i s1 meta s2 g1 s3 where
    i: "on_chunks draw_chunk_uuid s = Inr (i, s1)"
    and par: "write_paragraph plan p i chapter n s1 = Inr (meta, s2)"
    and sen: "write_sentences sha plan i chapter meta (g0 i) ss s2 = Inr (g1, s3)"
    and rest: "write_paragraphs sha plan chapter (Suc n) g1 sp s3 = Inr (g', s')"
    unfolding ps g0_def by (auto simp del: on_chunks_iff)
  from paragraph_step [OF draw_scope_inv [OF i Cons.prems(2)] par] have
    p: "scope_inv render s2 d chapter es" "paragraph_live s2 i n" "meta = paragraph_meta plan p n" by blast+
  from sentences_step [OF sen p(1) assms(3) p(2)] no_exact_key [OF assms(4)] obtain new1 where
    new1: "scope_inv render s3 d chapter (es @ new1)"
      "list_all2 (entry_matches d) new1 (map (\<lambda>(x, q). (n, x, q)) ss)"
    and sp1: "map fst (g_spans g1) = map fst (g_spans g) @ map (c_uuid \<circ> fst) ss"
    by (auto simp: p(3) g0_def)
  from Cons.IH [OF rest new1(1)] obtain new2 where
    new2: "scope_inv render s' d chapter ((es @ new1) @ new2)" "list_all2 (entry_matches d) new2 (indexed (Suc n) sp)"
    and sp2: "map fst (g_spans g') = map fst (g_spans g1) @ map (c_uuid \<circ> fst) (plan_rows sp)"
    and par2: "length (g_paragraphs g') = length (g_paragraphs g1) + length sp" by blast
  have "list_all2 (entry_matches d) (new1 @ new2) (indexed n (ps # sp))"
    using new1(2) new2(2) by (simp add: ps list_all2_appendI)
  moreover have "scope_inv render s' d chapter (es @ (new1 @ new2))" using new2(1) by simp
  ultimately show ?case
    using sp1 sp2 par2 write_paragraphs_paragraphs [OF sen] by (auto simp: ps plan_rows_def g0_def)
qed

end
