(* ===== verification/Publication_Match.thy ===== *)
theory Publication_Match
  imports Publication_Scope
begin

text \<open>
  A hierarchy written from an exact plan reads back as its source, so its round trip matches; which
  errors a publication can end with; and the reconstruction service reads the same rows.
\<close>

section \<open>The hierarchy before the first paragraph\<close>

definition soft_deleted :: "pub_db \<Rightarrow> uuid \<Rightarrow> bool" where
  "soft_deleted s d \<longleftrightarrow> (case map_of (b_documents s) d of None \<Rightarrow> False | Some m \<Rightarrow> m_removed m)"

lemma retire_files_view: "same_view s (retire_previous_files d s)"
  by (simp add: retire_previous_files_def Let_def same_view_def)

lemma hierarchy_head:
  assumes mark: "mark_existing_hierarchy_deleted d s = Inr (x1, s1)"
    and write_f: "write_file plan source (retire_previous_files d s1) = Inr (x2, s2)"
    and document: "write_document plan s2 = Inr (x3, s3)" and d: "d = l_document plan"
    and chap: "write_chapter plan chapter s3 = Inr (x4, s4)"
  shows "scope_entries render s4 d = []" "chapter_live s4 chapter"
    "\<exists>m. map_of (b_documents s4) d = Some m \<and> m_removed_at m = None \<and> (m_removed m \<longleftrightarrow> soft_deleted s d)"
    "\<forall>(c, k)\<in>set (cdb_chunks (b_store s4)). k_document k = d \<longrightarrow> dead s4 c"
proof -
  note m = mark_cases [OF mark] and w = write_document_frame [OF document] and h = write_chapter_frame [OF chap]
  have v: "same_view s1 s2" by (rule same_view_trans [OF retire_files_view write_file_frame [OF write_f]])
  then have places: "b_places s4 = b_places s1" using w(3) h(5) by (simp add: same_view_def)
  have "cdb_chunks (b_store s4) = cdb_chunks (b_store s)" using v m w h by (simp add: same_view_def)
  with m(5) show all: "\<forall>(c, k)\<in>set (cdb_chunks (b_store s4)). k_document k = d \<longrightarrow> dead s4 c"
    by (simp add: dead_def places)
  have "List.map_filter (joined_row render s4) (filter (\<lambda>(c, k). k_document k = d) (cdb_chunks (b_store s4))) =
      List.map_filter (\<lambda>_. None) (filter (\<lambda>(c, k). k_document k = d) (cdb_chunks (b_store s4)))"
    by (rule map_filter_cong) (use all dead_row in fastforce)
  then show "scope_entries render s4 d = []" by (simp add: scope_entries_def map_filter_def)
  show "chapter_live s4 chapter" using h(8) by (simp add: chapter_live_def)
  have "map_of (b_documents s2) d = map_of (b_documents s) d" using v m(4) by (simp add: same_view_def)
  with w(6) h(4) show "\<exists>m. map_of (b_documents s4) d = Some m \<and> m_removed_at m = None \<and> (m_removed m \<longleftrightarrow> soft_deleted s d)"
    by (auto simp: soft_deleted_def d)
qed

lemma hierarchy_scope_inv:
  assumes "mark_existing_hierarchy_deleted d s = Inr (x1, s1)"
    "write_file plan source (retire_previous_files d s1) = Inr (x2, s2)"
    "write_document plan s2 = Inr (x3, s3)" "d = l_document plan" "write_chapter plan chapter s3 = Inr (x4, s4)"
    "\<not> soft_deleted s d"
  shows "scope_inv render s4 d chapter []"
proof -
  note h = hierarchy_head [OF assms(1-5)]
  from h(3) assms(6) have "document_live s4 d" by (auto simp: document_live_def live_def)
  moreover have "\<forall>(c, k)\<in>set (cdb_chunks (b_store s4)). k_document k = d \<longrightarrow> dead s4 c \<or> paragraph_known s4 k"
    using h(4) by blast
  ultimately show ?thesis using h(1,2) by (simp add: scope_inv_def)
qed

section \<open>The rows in the order of the plan\<close>

definition ordered_plan :: "sentence_plan \<Rightarrow> bool" where
  "ordered_plan sp \<longleftrightarrow> (\<forall>(p, ss)\<in>set sp. sorted_wrt (\<lambda>x y. c_ordinal (fst x) < c_ordinal (fst y)) ss)"

definition plan_order :: "nat \<times> runtime_chunk \<times> exact_piece \<Rightarrow> int \<times> int \<times> int \<times> uuid" where
  "plan_order = (\<lambda>(n, x, p). (0, int n, c_ordinal x, c_uuid x))"

lemma indexed_ge: "(m, x, p) \<in> set (indexed n sp) \<Longrightarrow> n \<le> m"
  by (induction n sp rule: indexed.induct) force+

lemma indexed_sorted: "ordered_plan sp \<Longrightarrow> sorted_wrt (\<lambda>a b. plan_order a \<le> plan_order b) (indexed n sp)"
proof (induction n sp rule: indexed.induct)
  case (2 n p ss rest)
  then have "sorted_wrt (\<lambda>x y. c_ordinal (fst x) < c_ordinal (fst y)) ss" "ordered_plan rest"
    by (auto simp: ordered_plan_def)
  moreover from this(1) have "sorted_wrt (\<lambda>a b. plan_order a \<le> plan_order b) (map (\<lambda>(x, q). (n, x, q)) ss)"
    by (simp add: sorted_wrt_map) (erule sorted_wrt_mono_rel [rotated], auto simp: plan_order_def)
  moreover have "plan_order a \<le> plan_order b"
    if "a \<in> set (map (\<lambda>(x, q). (n, x, q)) ss)" "b \<in> set (indexed (Suc n) rest)" for a b
    using that by (cases a; cases b) (auto simp: plan_order_def dest!: indexed_ge)
  ultimately show ?case using 2 by (simp add: sorted_wrt_append)
qed simp

lemma indexed_rows: "map snd (indexed n sp) = plan_rows sp"
  by (induction n sp rule: indexed.induct) (auto simp: plan_rows_def comp_def split_beta)

lemma matched_scope:
  assumes "scope_entries render s d = es" "list_all2 (entry_matches d) es (indexed 0 sp)" "ordered_plan sp"
    and "distinct (map (c_uuid \<circ> fst) (plan_rows sp))"
  shows "pieces_of (document_scope render s d) (map snd (plan_rows sp))"
    and "map r_text (document_scope render s d) = map (c_text \<circ> fst) (plan_rows sp)"
proof -
  have len: "length es = length (indexed 0 sp)" using assms(2) by (rule list_all2_lengthD)
  then have len': "length es = length (plan_rows sp)" by (simp flip: indexed_rows [of 0])
  have m: "entry_matches d (es ! i) (indexed 0 sp ! i)" if "i < length es" for i
    using assms(2) that by (rule list_all2_nthD)
  have row: "snd (indexed 0 sp ! i) = plan_rows sp ! i" if "i < length es" for i
    using that len by (simp flip: indexed_rows [of 0])
  have order: "hierarchy_order (es ! i) = plan_order (indexed 0 sp ! i)" if "i < length es" for i
    using m [OF that] by (cases "indexed 0 sp ! i") (simp add: entry_matches_def hierarchy_order_def plan_order_def)
  have "sorted (map hierarchy_order es)"
    using indexed_sorted [OF assms(3), of 0] order len by (simp add: sorted_wrt_iff_nth_less)
  then have "sort_key hierarchy_order es = es" by (rule sort_key_id_if_sorted)
  then have scope: "document_scope render s d = map e_row es" by (simp add: document_scope_entries assms(1))
  have at: "r_chunk (e_row (es ! i)) = uuid_str (c_uuid (fst (plan_rows sp ! i)))"
    "r_text (e_row (es ! i)) = c_text (fst (plan_rows sp ! i))"
    "row_piece (e_row (es ! i)) = Inr (Some (snd (plan_rows sp ! i)))" if "i < length es" for i
    using m [OF that] row [OF that] by (cases "indexed 0 sp ! i"; auto simp: entry_matches_def)+
  have "map r_chunk (map e_row es) = map uuid_str (map (c_uuid \<circ> fst) (plan_rows sp))"
    using at(1) len' by (intro nth_equalityI) simp_all
  moreover have "distinct (map uuid_str (map (c_uuid \<circ> fst) (plan_rows sp)))"
    using assms(4) distinct_map [of uuid_str "map (c_uuid \<circ> fst) (plan_rows sp)"] by (simp add: inj_on_def)
  ultimately have "distinct (map r_chunk (map e_row es))" by (simp only:)
  then show "pieces_of (document_scope render s d) (map snd (plan_rows sp))"
    using at(3) len' by (simp add: pieces_of_def scope list_all2_conv_all_nth)
  show "map r_text (document_scope render s d) = map (c_text \<circ> fst) (plan_rows sp)"
    using at(2) len' by (intro nth_equalityI) (simp_all add: scope)
qed

lemma matched_text:
  assumes "scope_entries render s d = es" "list_all2 (entry_matches d) es (indexed 0 sp)" "ordered_plan sp"
    and "distinct (map (c_uuid \<circ> fst) (plan_rows sp))"
    and built: "build_exact_pieces src (map exact_input_of (map fst (plan_rows sp))) 0 None True = Inr (map snd (plan_rows sp))"
  shows "reconstructed_scope_text (document_scope render s d) = Inr src"
proof -
  note t = build_exact_pieces_text [OF built] and m = matched_scope [OF assms(1-4)]
  have "one_suffix (map snd (plan_rows sp))" using t by (simp add: one_suffix_def)
  from scope_text_of_pieces [OF m(1) this] t m(2) show ?thesis
    by (simp add: slice_all exact_input_of_def comp_def)
qed

section \<open>The hierarchy matches\<close>

lemma write_rows_scope:
  assumes w: "write_rows sha plan source chap sp s = Inr (g, s')"
    and live: "\<not> soft_deleted s (l_document plan)" and meta: "map_of (l_meta plan) exact_key = None"
  shows "\<exists>es. scope_inv render s' (l_document plan) chap es \<and> list_all2 (entry_matches (l_document plan)) es (indexed 0 sp)"
    and "map fst (g_spans g) = map (c_uuid \<circ> fst) (plan_rows sp)" "length (g_paragraphs g) = length sp"
proof -
  let ?g = "\<lparr>g_paragraphs = [], g_spans = [], g_length = 0, g_previous = None\<rparr> :: progress"
  from w obtain x1 s1 x2 s2 x3 s3 x4 s4 where
    head: "mark_existing_hierarchy_deleted (l_document plan) s = Inr (x1, s1)"
      "write_file plan source (retire_previous_files (l_document plan) s1) = Inr (x2, s2)"
      "write_document plan s2 = Inr (x3, s3)" "write_chapter plan chap s3 = Inr (x4, s4)"
    and body: "write_paragraphs sha plan chap 0 ?g sp s4 = Inr (g, s')"
    unfolding write_rows_def Let_def tx_bind_iff tx_write_iff by blast
  from paragraphs_step [OF body hierarchy_scope_inv [OF head(1-3) refl head(4) live] refl meta]
  show "\<exists>es. scope_inv render s' (l_document plan) chap es \<and> list_all2 (entry_matches (l_document plan)) es (indexed 0 sp)"
    "map fst (g_spans g) = map (c_uuid \<circ> fst) (plan_rows sp)" "length (g_paragraphs g) = length sp"
    by auto
qed

lemma write_rows_match:
  assumes w: "write_rows sha plan source chap sp s = Inr (g, s')"
    and live: "\<not> soft_deleted s (l_document plan)" and meta: "map_of (l_meta plan) exact_key = None"
    and sp: "ordered_plan sp" "distinct (map (c_uuid \<circ> fst) (plan_rows sp))"
    "build_exact_pieces (l_text plan) (map exact_input_of (map fst (plan_rows sp))) 0 None True = Inr (map snd (plan_rows sp))"
  shows "measure_round_trip sha render plan chap g s' = Inr (Matches (sha (l_text plan)) g, s')"
proof -
  from write_rows_scope(1) [OF w live meta] obtain es where
    es: "scope_inv render s' (l_document plan) chap es" "list_all2 (entry_matches (l_document plan)) es (indexed 0 sp)"
    by blast
  then have "scope_entries render s' (l_document plan) = es" by (simp add: scope_inv_def)
  from matched_text [OF this es(2) sp] have rd: "scope_text render (l_document plan) s' = Inr (l_text plan, s')"
    by (simp add: scope_text_def)
  have "integrity_verdict (l_text plan) (l_text plan) = (Match, None)" by (simp add: integrity_verdict_def)
  then show ?thesis
    unfolding measure_round_trip_def Let_def tx_bind_step [where m = "scope_text render (l_document plan)", OF rd] by (simp add: tx_return_def)
qed

section \<open>Which errors a statement raises\<close>

named_theorems raises_rules

definition tx_raises :: "('e \<Rightarrow> bool) \<Rightarrow> ('s, 'e, 'a) tx \<Rightarrow> bool" where
  "tx_raises E m \<longleftrightarrow> (\<forall>s e. m s = Inl e \<longrightarrow> E e)"

lemma tx_raisesI: "(\<And>s e. m s = Inl e \<Longrightarrow> E e) \<Longrightarrow> tx_raises E m"
  by (simp add: tx_raises_def)

lemma tx_raisesD: "tx_raises E m \<Longrightarrow> m s = Inl e \<Longrightarrow> E e"
  by (simp add: tx_raises_def)

lemma tx_raises_bind [raises_rules]:
  "tx_raises E m \<Longrightarrow> (\<And>x. tx_raises E (f x)) \<Longrightarrow> tx_raises E (tx_bind m f)"
  by (auto simp: tx_raises_def tx_bind_Inl_iff)

lemma tx_raises_simple [raises_rules]:
  "tx_raises E (tx_return x)" "tx_raises E (tx_read g)" "tx_raises E (tx_write h)"
  "E e \<Longrightarrow> tx_raises E (tx_guard b e)" "E e \<Longrightarrow> tx_raises E (tx_raise e)"
  by (auto simp: tx_raises_def tx_guard_def)

lemma tx_raises_cases [raises_rules]:
  "tx_raises E m \<Longrightarrow> tx_raises E n \<Longrightarrow> tx_raises E (if b then m else n)"
  "tx_raises E m \<Longrightarrow> (\<And>y. tx_raises E (f y)) \<Longrightarrow> tx_raises E (case opt of None \<Rightarrow> m | Some y \<Rightarrow> f y)"
  "(\<And>a b. tx_raises E (h a b)) \<Longrightarrow> tx_raises E (case z of (a, b) \<Rightarrow> h a b)"
  by (auto split: option.split prod.split)

lemma tx_raises_map [raises_rules]: "(\<And>x. tx_raises E (f x)) \<Longrightarrow> tx_raises E (tx_map f xs)"
  by (induction xs) (auto intro!: raises_rules)

fun database_error :: "pub_error \<Rightarrow> bool" where
  "database_error (Pub_scope e) = False"
| "database_error (Pub_plan e) = False"
| "database_error (Pub_diagnostic e) = False"
| "database_error Pub_no_chunks = False"
| "database_error _ = True"

lemma statement_raises [raises_rules]:
  "tx_raises database_error (on_chunks m)" "tx_raises database_error (on_temporal n)"
  "tx_raises database_error (constraint P)" "tx_raises database_error (register l i)"
  "tx_raises database_error (shift_chapters d)" "tx_raises database_error (resolve_primary_source sha plan)"
  "database_error e \<Longrightarrow> tx_raises database_error (tx_lift (case opt of None \<Rightarrow> Inl e | Some u \<Rightarrow> Inr u))"
  by (auto simp: tx_raises_def on_chunks_def on_temporal_def constraint_def register_def shift_chapters_def
    resolve_primary_source_def Let_def tx_guard_def split: sum.splits if_splits option.splits)

lemma head_raises [raises_rules]:
  "tx_raises database_error (mark_existing_hierarchy_deleted d)"
  "tx_raises database_error (write_file plan source)"
  "tx_raises database_error (write_document plan)"
  "tx_raises database_error (write_chapter plan i)"
  "tx_raises database_error (write_paragraph plan p i chapter n)"
  unfolding mark_existing_hierarchy_deleted_def write_file_def write_document_def write_chapter_def
    insert_chapter_def write_paragraph_def insert_paragraph_def Let_def
  by (intro raises_rules; simp)+

lemma chunk_raises [raises_rules]:
  "tx_raises database_error (write_semantic_chunk sha plan x paragraph chapter p_meta p)"
proof -
  have "tx_raises database_error (semantic_dictionary_id vs ft)" for vs ft
    unfolding semantic_dictionary_id_def Let_def by (intro raises_rules)
  then show ?thesis
    unfolding write_semantic_chunk_def semantic_dictionary_ids_def insert_place_def Let_def
    by (intro raises_rules) auto
qed

lemma sentences_raises [raises_rules]: "tx_raises database_error (write_sentences sha plan paragraph chapter meta g ss)"
  by (induction ss arbitrary: g) (auto intro!: raises_rules)

lemma paragraphs_raises [raises_rules]: "tx_raises database_error (write_paragraphs sha plan chapter n g sp)"
  by (induction sp arbitrary: n g) (auto intro!: raises_rules)

lemma run_raises [raises_rules]: "tx_raises database_error (insert_processing_run sha actor plan n)"
proof -
  have "tx_raises database_error (\<lambda>s. if run_constraints s j then Inr ((), s\<lparr>b_runs := b_runs s @ [j]\<rparr>) else Inl Pub_constraint)" for j
    by (rule tx_raisesI) (auto split: if_splits)
  then show ?thesis unfolding insert_processing_run_def Let_def by (intro raises_rules) auto
qed

lemma state_raises [raises_rules]: "tx_raises database_error (append_source_state actor plan run source back_sha h n k)"
proof -
  have "tx_raises database_error (\<lambda>s. if map_of (db_registry (b_temporal s)) d = None then Inl (Pub_unregistered d) else Inr ((), s))" for d
    by (rule tx_raisesI) (auto split: if_splits)
  then show ?thesis unfolding append_source_state_def Let_def by (intro raises_rules) auto
qed

lemma rows_raises [raises_rules]: "tx_raises database_error (write_rows sha plan source chap sp)"
  unfolding write_rows_def Let_def by (intro raises_rules)

text \<open>A hierarchy written from an exact plan ends in a match or in an error of the database.\<close>

lemma hierarchy_matches:
  assumes live: "\<not> soft_deleted s (l_document plan)" and meta: "map_of (l_meta plan) exact_key = None"
    and sp: "ordered_plan sp" "distinct (map (c_uuid \<circ> fst) (plan_rows sp))"
    "build_exact_pieces (l_text plan) (map exact_input_of (map fst (plan_rows sp))) 0 None True = Inr (map snd (plan_rows sp))"
  obtains (failed) e where "write_hierarchy sha render plan source chap sp s = Inl e" "database_error e"
  | (matched) g s' where "write_hierarchy sha render plan source chap sp s = Inr (Matches (sha (l_text plan)) g, s')"
      "map fst (g_spans g) = map (c_uuid \<circ> fst) (plan_rows sp)" "length (g_paragraphs g) = length sp"
proof (cases "write_rows sha plan source chap sp s")
  case (Inl e)
  show ?thesis
    by (rule failed [of e]) (simp_all add: write_hierarchy_def tx_bind_fail [where m = "write_rows sha plan source chap sp", OF Inl]
      tx_raisesD [OF rows_raises Inl])
next
  case (Inr r)
  obtain g s' where r: "r = (g, s')" by (cases r)
  note w = Inr [unfolded r]
  show ?thesis
    by (rule matched [of g s'])
      (simp_all add: write_hierarchy_def tx_bind_step [where m = "write_rows sha plan source chap sp", OF w]
        write_rows_match [OF w live meta sp]
        write_rows_scope(2,3) [OF w live meta])
qed

end
