(* ===== verification/Publication_Reads.thy ===== *)
theory Publication_Reads
  imports Publication_Match Reconstruction_Properties
begin

text \<open>
  The reconstruction service reads a document as the ingestion does; what a finished, a refused and a
  failed publication leave behind; and what a versioned edit does to the rows.
\<close>

section \<open>Sorting by equivalent keys\<close>

lemma insort_key_equiv:
  "(\<And>y. y \<in> set xs \<Longrightarrow> f x \<le> f y \<longleftrightarrow> g x \<le> g y) \<Longrightarrow> insort_key f x xs = insort_key g x xs"
  by (induction xs) auto

lemma sort_key_equiv:
  "(\<And>x y. x \<in> set xs \<Longrightarrow> y \<in> set xs \<Longrightarrow> f x \<le> f y \<longleftrightarrow> g x \<le> g y) \<Longrightarrow> sort_key f xs = sort_key g xs"
proof (induction xs)
  case (Cons x xs)
  then have "sort_key f xs = sort_key g xs" by simp
  moreover have "insort_key f x (sort_key g xs) = insort_key g x (sort_key g xs)"
    using Cons.prems by (intro insort_key_equiv) simp
  ultimately show ?case by simp
qed simp

lemma insort_key_map: "(\<And>z. f (h z) = f z) \<Longrightarrow> insort_key f (h x) (map h xs) = map h (insort_key f x xs)"
  by (induction xs) auto

lemma sort_key_map: "(\<And>z. f (h z) = f z) \<Longrightarrow> sort_key f (map h xs) = map h (sort_key f xs)"
  by (induction xs) (simp_all add: insort_key_map)

section \<open>The service reads the scope of the ingestion\<close>

definition document_selector :: "uuid \<Rightarrow> int \<Rightarrow> scope_selector" where
  "document_selector d limit = \<lparr>x_chapter = None, x_document = Some (uuid_str d), x_file = None,
     x_name = None, x_path = None, x_project = None, x_filters = [], x_limit = limit, x_offset = 0\<rparr>"

lemma joined_row_created:
  "joined_row render s (c, k) = Some e \<Longrightarrow>
   \<exists>m. map_of (b_documents s) (e_document_id e) = Some m \<and> e_created e = m_created m"
  by (auto simp: joined_row_def Let_def split: option.splits if_splits)

lemma joined_rows_created:
  assumes "e \<in> set (joined_rows render s)"
  shows "\<exists>m. map_of (b_documents s) (e_document_id e) = Some m \<and> e_created e = m_created m"
  using assms by (auto simp: joined_rows_def map_filter_def dest: joined_row_created)

lemma length_joined_rows: "length (joined_rows render s) \<le> length (cdb_chunks (b_store s))"
  by (simp add: joined_rows_def map_filter_def)

lemma select_document_rows:
  assumes "cdb_configured (b_store s)" "int (length (cdb_chunks (b_store s))) \<le> limit" "1 \<le> limit"
  shows "select_rows render s (document_selector d limit) = Inr (document_scope render s d)"
proof -
  let ?rows = "filter (\<lambda>e. e_document_id e = d) (joined_rows render s)"
  have "selects render (document_selector d limit) None (Some d) None None = (\<lambda>e. e_document_id e = d)"
    by (simp add: selects_def document_selector_def admits_def fun_eq_iff)
  moreover have "sort_key service_order ?rows = sort_key hierarchy_order ?rows"
    by (rule sort_key_equiv) (auto simp: service_order_def dest!: joined_rows_created)
  moreover have "length ?rows \<le> nat limit"
    using assms(2) length_joined_rows [of render s] length_filter_le [of "\<lambda>e. e_document_id e = d" "joined_rows render s"]
    by linarith
  ultimately show ?thesis
    using assms by (simp add: select_rows_def uuid_filter_def document_selector_def document_scope_def)
qed

lemma reconstruct_document:
  assumes "cdb_configured (b_store s)" "int (length (cdb_chunks (b_store s))) \<le> limit" "1 \<le> limit"
    and "reconstructed_scope_text (document_scope render s d) = Inr t" "t \<noteq> []"
  shows "\<exists>a. reconstruct_source_file sha render preview s (document_selector d limit) 0 = Inr a \<and>
    a_text a = t \<and> \<not> a_truncated a"
proof -
  have "(document_selector d limit)\<lparr>x_chapter := None\<rparr> = document_selector d limit"
    by (simp add: document_selector_def)
  moreover have "given (x_document (document_selector d limit))"
    by (simp add: document_selector_def given_def uuid_str_def Let_def)
  moreover have "document_scope render s d \<noteq> []" using assms(4,5) by (auto simp: reconstructed_scope_text_def)
  moreover obtain a where "assemble sha preview ''source_file'' 0 (document_scope render s d) = Inr a"
    "a_text a = t" "\<not> a_truncated a"
    using assemble_unbounded [where rows = "document_scope render s d" and sha = sha and limit = preview
      and entity = "''source_file''"] assms(4) by auto
  ultimately show ?thesis
    using select_document_rows [OF assms(1-3)]
    by (simp add: reconstruct_source_file_def assemble_selection_def)
qed

end
