(* ===== verification/Publication_Keeps.thy ===== *)
theory Publication_Keeps
  imports Publication_Match
begin

text \<open>
  What the statements of a publication leave alone: whether a database is configured at all, and,
  past the document's own row, the rows of \<open>documents\<close>.
\<close>

section \<open>The database\<close>

definition configured :: "bool \<Rightarrow> pub_db \<Rightarrow> bool" where
  "configured b s \<longleftrightarrow> cdb_configured (b_store s) = b"

lemma configured_writes:
  "tx_keeps (configured b) (constraint P)" "tx_keeps (configured b) (register l i)"
  "tx_keeps (configured b) (on_chunks draw_chunk_uuid)" "tx_keeps (configured b) (tx_write (remove_places d))"
  "tx_keeps (configured b) (tx_write (remove_paragraphs d))" "tx_keeps (configured b) (tx_write (remove_chapters d))"
  "tx_keeps (configured b) (shift_chapters d)" "tx_keeps (configured b) (tx_write (retire_previous_files d))"
  "tx_keeps (configured b) (tx_write (\<lambda>s. if cs = [] then s else deactivate_embeddings cs s))"
  by (auto intro!: tx_keepsI simp: configured_def constraint_def register_def draw_chunk_uuid_def remove_places_def
    remove_paragraphs_def remove_chapters_def shift_chapters_def retire_previous_files_def deactivate_embeddings_def Let_def
    split: if_splits)

lemma tx_keeps_split [tx_rules]: "(\<And>a b. tx_keeps I (h a b)) \<Longrightarrow> tx_keeps I (case z of (a, b) \<Rightarrow> h a b)"
  by (cases z) simp

lemma configured_head:
  "tx_keeps (configured b) (mark_existing_hierarchy_deleted d)" "tx_keeps (configured b) (write_file plan source)"
  "tx_keeps (configured b) (write_document plan)" "tx_keeps (configured b) (write_chapter plan h)"
  "tx_keeps (configured b) (write_paragraph plan p i h n)"
  unfolding mark_existing_hierarchy_deleted_def write_file_def write_document_def write_chapter_def
    insert_chapter_def write_paragraph_def insert_paragraph_def Let_def
  by (intro tx_rules configured_writes tx_keeps_write; simp add: configured_def)+

lemma configured_dictionary: "tx_keeps (configured b) (on_chunks (dictionary_id table descr))"
  by (rule tx_keepsI) (auto simp: configured_def dictionary_id_def Let_def draw_chunk_uuid_def split: if_splits option.splits)

lemma write_chunk_text_configured:
  assumes "write_chunk_text sha c k body meta s = Inr (x, s')"
  shows "cdb_configured s' = cdb_configured s"
  using assms
  by (auto simp: write_chunk_text_def insert_initial_version_def seed_version_def draw_chunk_uuid_def insert_version_row_def
    point_version_def point_current_def rebind_assignments_def split: if_splits option.splits)

lemma configured_chunk: "tx_keeps (configured b) (write_semantic_chunk sha plan x p h meta q)"
proof -
  have ids: "tx_keeps (configured b) (semantic_dictionary_id vs ft)" for vs ft
    unfolding semantic_dictionary_id_def Let_def by (intro tx_rules configured_dictionary configured_writes)
  have place: "tx_keeps (configured b) (insert_place c p k h)" for c k
    unfolding insert_place_def by (intro tx_rules configured_writes tx_keeps_write) (simp add: configured_def)
  have body: "tx_keeps (configured b) (on_chunks (write_chunk_text sha c k body meta))" for c k body meta
    by (rule tx_keepsI) (auto simp: configured_def dest: write_chunk_text_configured)
  have "cdb_configured (fold (assign_classifier c) xs t) = cdb_configured t" for c xs t
    by (induction xs arbitrary: t) (auto simp: assign_classifier_def split_beta)
  then have idx: "tx_keeps (configured b) (tx_write (\<lambda>st. st\<lparr>b_store := chunk_index_rows f c (default_metrics c
        (fold (assign_classifier c) xs (b_store st)))\<rparr>))" for f c xs
    by (intro tx_keeps_write) (simp add: configured_def chunk_index_rows_def default_metrics_def derive_def)
  show ?thesis unfolding write_semantic_chunk_def semantic_dictionary_ids_def Let_def
    by (intro tx_rules ids place body idx)
qed

lemma configured_rows: "tx_keeps (configured b) (write_rows sha plan source h sp)"
proof -
  have s: "tx_keeps (configured b) (write_sentences sha plan p h meta g ss)" for p meta g ss
    by (induction ss arbitrary: g) (auto intro!: tx_rules configured_chunk)
  have "tx_keeps (configured b) (write_paragraphs sha plan h n g sp)" for n g
    by (induction sp arbitrary: n g) (auto intro!: tx_rules configured_writes configured_head s)
  then show ?thesis unfolding write_rows_def Let_def by (intro tx_rules configured_head configured_writes)
qed

section \<open>The documents\<close>

lemma chunk_keeps_documents: "tx_keeps (\<lambda>s. b_documents s = ds) (write_semantic_chunk sha plan x p h meta q)"
  by (rule tx_keepsI) (auto elim!: write_semantic_chunk_cases)

lemma sentences_keep_documents: "tx_keeps (\<lambda>s. b_documents s = ds) (write_sentences sha plan p h meta g ss)"
  by (induction ss arbitrary: g) (auto intro!: tx_rules chunk_keeps_documents)

lemma paragraphs_keep_documents: "tx_keeps (\<lambda>s. b_documents s = ds) (write_paragraphs sha plan h n g sp)"
proof (induction sp arbitrary: n g)
  case (Cons ps sp)
  have "tx_keeps (\<lambda>s. b_documents s = ds) (on_chunks draw_chunk_uuid)"
    by (rule tx_keepsI) (auto simp: draw_chunk_uuid_def)
  moreover have "tx_keeps (\<lambda>s. b_documents s = ds) (write_paragraph plan p i h n)" for p i
    by (rule tx_keepsI) (auto dest: write_paragraph_frame(7))
  ultimately show ?case using Cons by (cases ps) (auto intro!: tx_rules sentences_keep_documents)
qed (auto intro: tx_rules)

end
