(* ===== verification/Publication_Properties.thy ===== *)
theory Publication_Properties
  imports Publication_Reads Publication_Keeps
begin

text \<open>
  What a finished, a refused and a failed publication leave behind, with the properties.
\<close>

section \<open>The ends of a publication\<close>

lemma verdict_match: "integrity_verdict src rb = (Match, at) \<Longrightarrow> rb = src"
  by (auto simp: integrity_verdict_def Let_def split: if_splits)

lemma insert_run_cases:
  assumes "insert_processing_run sha actor plan n s = Inr (x, s')"
  obtains j where "s' = s\<lparr>b_runs := b_runs s @ [j]\<rparr>" "j_id j = n_run n" "j_status j = n_status n"
    "j_source j = n_source n" "j_source_sha j = l_body_sha plan" "j_back_sha j = n_back_sha n"
    "j_span j = n_span n" "j_document j = n_document n" "j_chapter j = n_chapter n" "j_outcome j = n_outcome n"
    "run_constraints s j"
  using assms by (auto simp: insert_processing_run_def Let_def split: if_splits)

lemma insert_run_view: "insert_processing_run sha actor plan n s = Inr (x, s') \<Longrightarrow> same_view s s' \<and> b_store s' = b_store s"
  by (erule insert_run_cases) (simp add: same_view_def)

lemma append_state_view: "append_source_state actor plan run source back_sha h n k s = Inr (x, s') \<Longrightarrow> same_view s s'"
  by (auto simp: append_source_state_def Let_def same_view_def draw_chunk_uuid_def split: if_splits prod.splits)

lemma append_state_configured:
  "append_source_state actor plan run source back_sha h n k s = Inr (x, s') \<Longrightarrow>
   cdb_configured (b_store s') = cdb_configured (b_store s)"
  by (auto simp: append_source_state_def Let_def draw_chunk_uuid_def split: if_splits prod.splits)

lemma measure_cases:
  assumes "measure_round_trip sha render plan chap g s = Inr (e, s')"
  obtains (matched) "e = Matches (sha (l_text plan)) g" "s' = s"
      "reconstructed_scope_text (document_scope render s (l_document plan)) = Inr (l_text plan)"
  | (differs) q rb where "e = Differs q" "reconstructed_scope_text (document_scope render s (l_document plan)) = Inr rb"
      "rb \<noteq> l_text plan" "q_back_sha q = sha rb"
      "s' = s\<lparr>b_store := (b_store s)\<lparr>cdb_drawn := cdb_drawn (b_store s')\<rparr>\<rparr>"
proof -
  from assms obtain rb where rd: "reconstructed_scope_text (document_scope render s (l_document plan)) = Inr rb"
    and rest: "(case integrity_verdict (l_text plan) rb of
        (Match, _) \<Rightarrow> tx_return (Matches (sha rb) g)
      | (verdict, offset) \<Rightarrow>
          tx_bind (on_chunks draw_chunk_uuid) (\<lambda>span.
          tx_bind (tx_lift (case build_integrity_diagnostic sha span (l_text plan) rb verdict offset
              (Some (l_document plan)) (Some chap) (chunk_at_offset (g_spans g) offset) ''owner'' ''redact_pii'' 64 of
              Inl e \<Rightarrow> Inl (Pub_diagnostic e) | Inr x \<Rightarrow> Inr x)) (\<lambda>diagnostic.
          tx_return (Differs \<lparr>q_diagnostic = diagnostic, q_outcome = verdict, q_offset = offset,
            q_back_sha = sha rb\<rparr>)))) s = Inr (e, s')"
    by (auto simp: measure_round_trip_def Let_def scope_text_def split: sum.splits)
  obtain v offset where v: "integrity_verdict (l_text plan) rb = (v, offset)" by (cases "integrity_verdict (l_text plan) rb")
  show ?thesis
  proof (cases "v = Match")
    case True
    have b: "rb = l_text plan" using verdict_match v True by blast
    from rest have "Matches (sha rb) g = e \<and> s' = s" by (simp add: v True)
    with rd show ?thesis by (intro matched) (auto simp: b)
  next
    case False
    have "rb \<noteq> l_text plan" using v False by (auto simp: integrity_verdict_def)
    moreover from False rest have "\<exists>q. e = Differs q \<and> q_back_sha q = sha rb \<and>
        s' = s\<lparr>b_store := (b_store s)\<lparr>cdb_drawn := cdb_drawn (b_store s')\<rparr>\<rparr>"
      unfolding v by (cases v) (auto simp: draw_chunk_uuid_def split: sum.splits)
    ultimately show ?thesis using rd by (elim exE conjE) (rule differs)
  qed
qed

text \<open>A publication that ends with references went through every step.\<close>

lemma published_cases:
  assumes "publish_version sha render actor plan paragraphs sentences s = (Published z, s')"
  obtains sp run chap source s1 s2 g sh sr where
    "exact_sentence_plan (l_text plan) paragraphs sentences = Inr sp"
    "same_view s s2" "cdb_configured (b_store s2) = cdb_configured (b_store s)"
    "write_rows sha plan source chap sp s2 = Inr (g, sh)"
    "reconstructed_scope_text (document_scope render sh (l_document plan)) = Inr (l_text plan)"
    "same_view sh s'" "cdb_configured (b_store s') = cdb_configured (b_store sh)"
    "z_chunks z = map fst (g_spans g)" "z_paragraphs z = g_paragraphs g" "z_document z = l_document plan"
    "z_chapters z = [chap]" "z_run z = run" "z_source z = source"
proof -
  from assms obtain sp where sp: "exact_sentence_plan (l_text plan) paragraphs sentences = Inr sp"
    by (auto simp: publish_version_def split: if_splits sum.splits)
  from assms obtain run chap s1 where ids: "tx_bind (on_chunks draw_chunk_uuid) (\<lambda>run.
      tx_bind (on_chunks draw_chunk_uuid) (\<lambda>chap. tx_return (run, chap))) s = Inr ((run, chap), s1)"
    by (auto simp: publish_version_def sp split: if_splits sum.splits)
  from assms obtain source s2 where src: "transaction (resolve_primary_source sha plan) s1 = (Inr source, s2)"
    by (auto simp: publish_version_def sp ids split: if_splits sum.splits prod.splits)
  from assms have tx: "transaction (publication_transaction sha render actor plan sp run chap source) s2 = (Inr (Publishes z), s')"
    by (auto simp: publish_version_def sp ids src split: if_splits sum.splits prod.splits publish_end.splits)
  then have tx: "publication_transaction sha render actor plan sp run chap source s2 = Inr (Publishes z, s')"
    by (auto simp: transaction_def split: sum.splits)
  have v: "same_view s s2 \<and> cdb_configured (b_store s2) = cdb_configured (b_store s)"
    using ids src by (auto simp: draw_chunk_uuid_def transaction_def resolve_primary_source_def Let_def same_view_def
      split: sum.splits option.splits if_splits)
  from tx obtain e sh' where h: "write_hierarchy sha render plan source chap sp s2 = Inr (e, sh')"
    by (auto simp: publication_transaction_def split: sum.splits)
  then obtain g sh where w: "write_rows sha plan source chap sp s2 = Inr (g, sh)"
    and me: "measure_round_trip sha render plan chap g sh = Inr (e, sh')"
    by (auto simp: write_hierarchy_def)
  from me show ?thesis
  proof (cases rule: measure_cases)
    case (differs q rb)
    with tx h show ?thesis by (auto simp: publication_transaction_def)
  next
    case matched
    from tx h matched(1,2) obtain sr x where
      run: "insert_processing_run sha actor plan \<lparr>n_run = run, n_source = source,
           n_chapter = Some chap, n_status = Succeeded, n_back_sha = sha (l_text plan), n_outcome = Match,
           n_offset = None, n_span = None, n_authorization = None, n_policy = None,
           n_document = Some (l_document plan)\<rparr> sh = Inr (x, sr)"
      and st: "append_source_state actor plan run source (sha (l_text plan)) chap (length (g_paragraphs g))
           (length (g_spans g)) sr = Inr (z_assertion z, s')"
      and z: "z = \<lparr>z_document = l_document plan, z_version = l_source_version plan,
           z_chapters = [chap], z_paragraphs = g_paragraphs g, z_chunks = map fst (g_spans g),
           z_source = source, z_run = run, z_assertion = z_assertion z\<rparr>"
      by (auto simp: publication_transaction_def)
    have "same_view sh s'" using same_view_trans [OF _ append_state_view [OF st]] insert_run_view [OF run] by blast
    moreover have "cdb_configured (b_store s') = cdb_configured (b_store sh)"
      using append_state_configured [OF st] insert_run_view [OF run] by simp
    moreover have "z_chunks z = map fst (g_spans g)" "z_paragraphs z = g_paragraphs g" "z_document z = l_document plan"
      "z_chapters z = [chap]" "z_run z = run" "z_source z = source" by (subst z, simp)+
    ultimately show ?thesis using that [OF sp _ _ w matched(3)] v by blast
  qed
qed

text \<open>Everything a refusal leaves behind.\<close>

definition refusal_trace :: "pub_db \<Rightarrow> span_diagnostic \<Rightarrow> string \<Rightarrow> string \<Rightarrow> pub_db \<Rightarrow> bool" where
  "refusal_trace s d src_sha back_sha s' \<longleftrightarrow> (\<exists>drawn sources j spans.
     s' = s\<lparr>b_store := (b_store s)\<lparr>cdb_drawn := drawn\<rparr>, b_sources := sources, b_runs := b_runs s @ [j],
       b_spans := spans\<rparr> \<and>
     (sources = b_sources s \<or> (\<exists>r. sources = b_sources s @ [r])) \<and>
     (spans = b_spans s \<or> spans = b_spans s @ [(j_id j, d)]) \<and>
     j_status j = Failed \<and> j_document j = None \<and> j_chapter j = None \<and> j_span j = Some (sp_id d) \<and>
     j_source_sha j = src_sha \<and> j_back_sha j = back_sha)"

lemma resolve_source_cases:
  assumes "resolve_primary_source sha plan s = Inr (i, s')"
  obtains sources where "s' = s\<lparr>b_sources := sources\<rparr>" "sources = b_sources s \<or> (\<exists>r. sources = b_sources s @ [r])"
proof (cases "s' = s")
  case True
  then show ?thesis using that [of "b_sources s"] by simp
next
  case False
  with assms show ?thesis
    using that by (auto simp: resolve_primary_source_def Let_def split: option.splits if_splits)
qed

lemma refusal_evidence_cases:
  assumes "write_refusal_evidence sha actor plan q run source s = Inr (x, s')"
  obtains j spans where "s' = s\<lparr>b_runs := b_runs s @ [j], b_spans := spans\<rparr>"
    "spans = b_spans s \<or> spans = b_spans s @ [(j_id j, q_diagnostic q)]" "j_status j = Failed"
    "j_document j = None" "j_chapter j = None" "j_span j = Some (sp_id (q_diagnostic q))"
    "j_source_sha j = l_body_sha plan" "j_back_sha j = q_back_sha q"
proof -
  from assms obtain s1 where run: "insert_processing_run sha actor plan \<lparr>n_run = run, n_source = source, n_chapter = None,
        n_status = Failed, n_back_sha = q_back_sha q, n_outcome = q_outcome q, n_offset = q_offset q,
        n_span = Some (sp_id (q_diagnostic q)), n_authorization = Some (sp_authorization (q_diagnostic q)),
        n_policy = Some (sp_policy (q_diagnostic q)), n_document = None\<rparr> s = Inr ((), s1)"
    and span: "(case insert_source_span (q_diagnostic q) run s1 of Inl _ \<Rightarrow> Inr ((), s1) | Inr r \<Rightarrow> Inr r) =
      (Inr (x, s') :: (pub_error, unit \<times> pub_db) result)"
    by (auto simp: write_refusal_evidence_def Let_def)
  from run obtain j where j: "s1 = s\<lparr>b_runs := b_runs s @ [j]\<rparr>" "j_id j = run" "j_status j = Failed"
    "j_source_sha j = l_body_sha plan" "j_back_sha j = q_back_sha q" "j_span j = Some (sp_id (q_diagnostic q))"
    "j_document j = None" "j_chapter j = None"
    by (rule insert_run_cases) simp
  from span have "s' = s1 \<or> s' = s1\<lparr>b_spans := b_spans s1 @ [(run, q_diagnostic q)]\<rparr>"
    by (auto simp: insert_source_span_def split: sum.splits)
  then show ?thesis
  proof
    assume "s' = s1"
    with j show ?thesis by (intro that [where j = j and spans = "b_spans s"]) simp_all
  next
    assume "s' = s1\<lparr>b_spans := b_spans s1 @ [(run, q_diagnostic q)]\<rparr>"
    with j show ?thesis by (intro that [where j = j and spans = "b_spans s @ [(run, q_diagnostic q)]"]) simp_all
  qed
qed

lemma refused_trace:
  assumes "publish_version sha render actor plan paragraphs sentences s = (Refused d a b, s')"
  shows "refusal_trace s d a b s'"
proof -
  from assms obtain sp where sp: "exact_sentence_plan (l_text plan) paragraphs sentences = Inr sp"
    by (auto simp: publish_version_def split: if_splits sum.splits)
  from assms obtain run chap s1 where ids: "tx_bind (on_chunks draw_chunk_uuid) (\<lambda>run.
      tx_bind (on_chunks draw_chunk_uuid) (\<lambda>chap. tx_return (run, chap))) s = Inr ((run, chap), s1)"
    by (auto simp: publish_version_def sp split: if_splits sum.splits)
  from assms obtain source s2 where src: "transaction (resolve_primary_source sha plan) s1 = (Inr source, s2)"
    by (auto simp: publish_version_def sp ids split: if_splits sum.splits prod.splits)
  from assms obtain q where tx: "transaction (publication_transaction sha render actor plan sp run chap source) s2 = (Inr (Refuses q), s')"
    and q: "d = q_diagnostic q" "a = l_body_sha plan" "b = q_back_sha q"
    by (auto simp: publish_version_def sp ids src split: if_splits sum.splits prod.splits publish_end.splits)
  then have "publication_transaction sha render actor plan sp run chap source s2 = Inr (Refuses q, s')"
    by (auto simp: transaction_def split: sum.splits)
  then obtain sh where evidence: "write_refusal_evidence sha actor plan q run source (rollback_to s2 sh) = Inr ((), s')"
    by (auto simp: publication_transaction_def split: sum.splits hierarchy_end.splits)
  from evidence obtain j spans where ev: "s' = (rollback_to s2 sh)\<lparr>b_runs := b_runs (rollback_to s2 sh) @ [j], b_spans := spans\<rparr>"
    "spans = b_spans (rollback_to s2 sh) \<or> spans = b_spans (rollback_to s2 sh) @ [(j_id j, q_diagnostic q)]" "j_status j = Failed"
    "j_document j = None" "j_chapter j = None" "j_span j = Some (sp_id (q_diagnostic q))"
    "j_source_sha j = l_body_sha plan" "j_back_sha j = q_back_sha q" by (rule refusal_evidence_cases)
  from src have "resolve_primary_source sha plan s1 = Inr (source, s2)" by (auto simp: transaction_def split: sum.splits)
  then obtain sources where s2: "s2 = s1\<lparr>b_sources := sources\<rparr>" "sources = b_sources s1 \<or> (\<exists>r. sources = b_sources s1 @ [r])"
    by (rule resolve_source_cases)
  from ids obtain drawn where s1: "s1 = s\<lparr>b_store := (b_store s)\<lparr>cdb_drawn := drawn\<rparr>\<rparr>"
    by (auto simp: draw_chunk_uuid_def)
  have r: "rollback_to s2 sh = s\<lparr>b_store := (b_store s)\<lparr>cdb_drawn := cdb_drawn (b_store sh)\<rparr>, b_sources := sources\<rparr>"
    by (simp add: rollback_to_def s2(1) s1)
  show ?thesis unfolding refusal_trace_def
  proof (intro exI conjI)
    show "s' = s\<lparr>b_store := (b_store s)\<lparr>cdb_drawn := cdb_drawn (b_store sh)\<rparr>, b_sources := sources,
        b_runs := b_runs s @ [j], b_spans := spans\<rparr>"
      unfolding ev(1) r by simp
    show "sources = b_sources s \<or> (\<exists>r. sources = b_sources s @ [r])" using s2(2) by (simp add: s1)
    show "spans = b_spans s \<or> spans = b_spans s @ [(j_id j, d)]" using ev(2) by (simp add: r q)
  qed (use ev q in simp_all)
qed

section \<open>Republishing a deleted document\<close>

lemma removed_scope:
  assumes "map_of (b_documents s) d = Some m" "m_removed m"
  shows "document_scope render s d = []"
proof -
  have "e_document_id e \<noteq> d" if "e \<in> set (joined_rows render s)" for e
    using that assms
    by (auto simp: joined_rows_def map_filter_def joined_row_def Let_def live_def split: option.splits if_splits)
  then show ?thesis by (auto simp: document_scope_def filter_empty_conv)
qed

lemma removed_scope_written:
  assumes w: "write_rows sha plan source chap sp s = Inr (g, s')" and gone: "soft_deleted s (l_document plan)"
  shows "document_scope render s' (l_document plan) = []"
proof -
  let ?g = "\<lparr>g_paragraphs = [], g_spans = [], g_length = 0, g_previous = None\<rparr> :: progress"
  from w obtain x1 s1 x2 s2 x3 s3 x4 s4 where
    head: "mark_existing_hierarchy_deleted (l_document plan) s = Inr (x1, s1)"
      "write_file plan source (retire_previous_files (l_document plan) s1) = Inr (x2, s2)"
      "write_document plan s2 = Inr (x3, s3)" "write_chapter plan chap s3 = Inr (x4, s4)"
    and body: "write_paragraphs sha plan chap 0 ?g sp s4 = Inr (g, s')"
    unfolding write_rows_def Let_def tx_bind_iff tx_write_iff by blast
  from hierarchy_head(3) [OF head(1-3) refl head(4)] gone obtain m where
    "map_of (b_documents s4) (l_document plan) = Some m" "m_removed m" by auto
  moreover have "b_documents s' = b_documents s4" using tx_keepsD [OF paragraphs_keep_documents body] by simp
  ultimately show ?thesis by (simp add: removed_scope)
qed

section \<open>The properties\<close>

lemma published_scope:
  assumes "publish_version sha render actor plan paragraphs sentences s = (Published z, s')"
    and "l_text plan \<noteq> []" "cdb_configured (b_store s)"
  shows "cdb_configured (b_store s')" "1 \<le> int (length (cdb_chunks (b_store s')))"
    "reconstructed_scope_text (document_scope render s' (z_document z)) = Inr (l_text plan)"
proof -
  from assms(1) obtain sp chap source s2 g sh where sh: "same_view sh s'" "z_document z = l_document plan"
    "reconstructed_scope_text (document_scope render sh (l_document plan)) = Inr (l_text plan)"
    and w: "write_rows sha plan source chap sp s2 = Inr (g, sh)"
    and c: "cdb_configured (b_store s2) = cdb_configured (b_store s)" "cdb_configured (b_store s') = cdb_configured (b_store sh)"
    by (rule published_cases)
  from tx_keepsD [OF configured_rows w] c assms(3) show "cdb_configured (b_store s')"
    by (simp add: configured_def)
  from sh show rd: "reconstructed_scope_text (document_scope render s' (z_document z)) = Inr (l_text plan)"
    by (simp add: document_scope_view)
  with assms(2) have "document_scope render s' (z_document z) \<noteq> []" by (auto simp: reconstructed_scope_text_def)
  then have "cdb_chunks (b_store s') \<noteq> []" by (auto simp: document_scope_def joined_rows_def map_filter_def)
  then show "1 \<le> int (length (cdb_chunks (b_store s')))" by (cases "cdb_chunks (b_store s')") auto
qed

text \<open>
  C21: A publication that reports success is restorable at once: the reconstruction of the document by
  its identifier, with any limit that admits all its chunks and no bound on the length, returns
  exactly the normalized source text, untruncated.
\<close>

theorem published_reconstructs:
  assumes "publish_version sha render actor plan paragraphs sentences s = (Published z, s')"
    and "l_text plan \<noteq> []" "cdb_configured (b_store s)" "int (length (cdb_chunks (b_store s'))) \<le> limit"
  shows "\<exists>a. reconstruct_source_file sha render preview s' (document_selector (z_document z) limit) 0 = Inr a \<and>
    a_text a = l_text plan \<and> \<not> a_truncated a"
proof -
  note scope = published_scope [OF assms(1-3)]
  from scope(2) assms(4) have "1 \<le> limit" by simp
  from reconstruct_document [OF scope(1) assms(4) this scope(3) assms(2)] show ?thesis .
qed

lemma sorted_wrt_concat: "sorted_wrt P (concat xss) \<Longrightarrow> xs \<in> set xss \<Longrightarrow> sorted_wrt P xs"
  by (induction xss) (auto simp: sorted_wrt_append)

lemma plan_transaction_ends:
  assumes "\<not> soft_deleted s (l_document plan)" "map_of (l_meta plan) exact_key = None"
    and "ordered_plan sp" "distinct (map (c_uuid \<circ> fst) (plan_rows sp))"
    "build_exact_pieces (l_text plan) (map exact_input_of (map fst (plan_rows sp))) 0 None True = Inr (map snd (plan_rows sp))"
  shows "case publication_transaction sha render actor plan sp run chap source s of
      Inl e \<Rightarrow> database_error e
    | Inr (Refuses q, s') \<Rightarrow> False
    | Inr (Publishes z, s') \<Rightarrow> z_chunks z = map (c_uuid \<circ> fst) (plan_rows sp) \<and> length (z_paragraphs z) = length sp"
  using assms
proof (cases rule: hierarchy_matches [where sha = sha and render = render and source = source and chap = chap])
  case (failed e)
  then show ?thesis by (simp add: publication_transaction_def)
next
  case (matched g s')
  define run_row where "run_row = \<lparr>n_run = run, n_source = source,
           n_chapter = Some chap, n_status = Succeeded, n_back_sha = sha (l_text plan), n_outcome = Match,
           n_offset = None, n_span = None, n_authorization = None, n_policy = None,
           n_document = Some (l_document plan)\<rparr>"
  define refs where "refs i = \<lparr>z_document = l_document plan, z_version = l_source_version plan,
           z_chapters = [chap], z_paragraphs = g_paragraphs g, z_chunks = map fst (g_spans g),
           z_source = source, z_run = run, z_assertion = i\<rparr>" for i
  define finish where "finish = tx_bind (insert_processing_run sha actor plan run_row) (\<lambda>_.
         tx_bind (append_source_state actor plan run source (sha (l_text plan)) chap (length (g_paragraphs g))
           (length (g_spans g))) (\<lambda>i. tx_return (Publishes (refs i))))"
  have "publication_transaction sha render actor plan sp run chap source s = finish s'"
    by (simp add: publication_transaction_def matched(1) finish_def run_row_def refs_def)
  moreover have "tx_raises database_error finish" unfolding finish_def by (intro raises_rules)
  moreover have "\<exists>i. e = Publishes (refs i)" if "finish s' = Inr (e, t)" for e t
    using that by (auto simp: finish_def refs_def)
  ultimately show ?thesis
    using matched(2,3) by (cases "finish s'") (auto dest: tx_raisesD simp: refs_def split: publish_end.splits)
qed

text \<open>
  C22: When both passes of the chunker were accepted and the document was not deleted before, the
  publication is never refused by its own integrity check: it either publishes the sentences of the
  second pass, one chunk each and one paragraph per chunk of the first pass, or a statement fails on
  an error of the database.
\<close>

theorem accepted_passes_published:
  assumes "chunk_text adapter client opts (l_text plan) ''paragraph'' source_id = Inr paragraphs"
    and "sentence_chunks_from_batch (chunk_batch adapter batch_client opts) paragraphs source_id = Inr sentences"
    and "distinct (map c_uuid sentences)" "map_of (l_meta plan) exact_key = None"
    and "\<not> soft_deleted s (l_document plan)"
  shows "case fst (publish_version sha render actor plan paragraphs sentences s) of
      Published z \<Rightarrow> z_chunks z = map c_uuid sentences \<and> length (z_paragraphs z) = length paragraphs
    | Refused d a b \<Rightarrow> False
    | Publish_failed e \<Rightarrow> database_error e"
proof -
  from accepted_passes_plan [OF assms(1-3)] obtain sp pieces where
    sp: "exact_sentence_plan (l_text plan) paragraphs sentences = Inr sp"
    and pieces: "build_exact_pieces (l_text plan) (map exact_input_of sentences) 0 None True = Inr pieces"
    and par: "map fst sp = paragraphs" and rows: "plan_rows sp = zip sentences pieces" "length pieces = length sentences"
    and con: "concat (map (map fst \<circ> snd) sp) = sentences"
    and ord: "map c_ordinal sentences = map int [0..<length sentences]"
    and ne: "paragraphs \<noteq> []" "sentences \<noteq> []" .
  have sorted: "sorted_wrt (\<lambda>x y. c_ordinal x < c_ordinal y) sentences"
  proof -
    have "sorted_wrt (<) (map c_ordinal sentences)" by (simp add: ord sorted_wrt_map)
    then show ?thesis by (simp add: sorted_wrt_map)
  qed
  have "sorted_wrt (\<lambda>x y. c_ordinal (fst x) < c_ordinal (fst y)) ss" if "(p, ss) \<in> set sp" for p ss
    using sorted_wrt_concat [OF sorted [folded con], of "map fst ss"] that by (force simp: sorted_wrt_map)
  then have plan: "ordered_plan sp" "distinct (map (c_uuid \<circ> fst) (plan_rows sp))"
    "build_exact_pieces (l_text plan) (map exact_input_of (map fst (plan_rows sp))) 0 None True = Inr (map snd (plan_rows sp))"
    using pieces rows assms(3) by (auto simp: ordered_plan_def simp flip: map_map)
  obtain ids s1 where ids: "tx_bind (on_chunks draw_chunk_uuid) (\<lambda>run.
      tx_bind (on_chunks draw_chunk_uuid) (\<lambda>chap. tx_return (run, chap))) s = (Inr (ids, s1) :: (pub_error, (uuid \<times> uuid) \<times> pub_db) result)" "same_view s s1"
    by (auto simp: draw_chunk_uuid_def same_view_def)
  obtain run chap where rc: "ids = (run, chap)" by (cases ids)
  show ?thesis
  proof (cases "resolve_primary_source sha plan s1")
    case (Inl e)
    with ids rc ne sp tx_raisesD [OF statement_raises(6) Inl] show ?thesis
      by (simp add: publish_version_def transaction_def del: tx_bind_iff)
  next
    case (Inr r)
    obtain source s2 where r: "r = (source, s2)" by (cases r)
    from Inr have "same_view s1 s2" unfolding r by (auto elim!: resolve_source_cases simp: same_view_def)
    with ids(2) have "same_view s s2" by (rule same_view_trans)
    with assms(5) have "\<not> soft_deleted s2 (l_document plan)" by (simp add: soft_deleted_def same_view_def)
    note ends = plan_transaction_ends [OF this assms(4) plan, of sha render actor run chap source]
    have "map (c_uuid \<circ> fst) (plan_rows sp) = map c_uuid sentences" "length sp = length paragraphs"
      using rows par by (simp_all flip: map_map) (metis length_map)
    with ends Inr ids rc ne sp show ?thesis
      by (auto simp: publish_version_def transaction_def r simp del: tx_bind_iff
        split: sum.splits prod.splits publish_end.splits)
  qed
qed

text \<open>
  C23: A refused publication leaves the hierarchy the document had untouched, byte for byte: besides
  the identifiers drawn, the only rows it adds are at most one immutable original, exactly one failed
  run that names the difference but neither document nor chapter, and at most the span that discloses it.
\<close>

theorem refused_keeps_hierarchy:
  assumes "publish_version sha render actor plan paragraphs sentences s = (Refused d a b, s')"
  shows "\<exists>drawn sources j spans.
     s' = s\<lparr>b_store := (b_store s)\<lparr>cdb_drawn := drawn\<rparr>, b_sources := sources, b_runs := b_runs s @ [j],
       b_spans := spans\<rparr> \<and>
     (sources = b_sources s \<or> (\<exists>r. sources = b_sources s @ [r])) \<and>
     (spans = b_spans s \<or> spans = b_spans s @ [(j_id j, d)]) \<and>
     j_status j = Failed \<and> j_document j = None \<and> j_chapter j = None \<and> j_span j = Some (sp_id d) \<and>
     j_source_sha j = a \<and> j_back_sha j = b"
  using refused_trace [OF assms] unfolding refusal_trace_def .

text \<open>
  C24: A document that was deleted can never be published again: the upsert of its row clears the
  time of the deletion but not the flag, no chunk of it is ever read back, and so every republication
  of a source with text ends as refused or failed.
\<close>

theorem republish_deleted_refused:
  assumes "map_of (b_documents s) (l_document plan) = Some m" "m_removed m" "l_text plan \<noteq> []"
  shows "fst (publish_version sha render actor plan paragraphs sentences s) \<noteq> Published z"
proof
  assume "fst (publish_version sha render actor plan paragraphs sentences s) = Published z"
  then obtain s' where "publish_version sha render actor plan paragraphs sentences s = (Published z, s')"
    by (metis prod.collapse)
  then obtain sp chap source s2 g sh where v: "same_view s s2" and w: "write_rows sha plan source chap sp s2 = Inr (g, sh)"
    and rd: "reconstructed_scope_text (document_scope render sh (l_document plan)) = Inr (l_text plan)"
    by (rule published_cases)
  from v assms have "soft_deleted s2 (l_document plan)" by (simp add: soft_deleted_def same_view_def)
  from removed_scope_written [OF w this] rd assms(3) show False by (simp add: reconstructed_scope_text_def)
qed

end
