(* ===== verification/Publication_Edits.thy ===== *)
theory Publication_Edits
  imports Publication_Reads
begin

text \<open>
  Two operations on a published document that its exact reconstruction does not survive: a versioned
  edit of one of its chunks, and a page that leaves out its last row; and the orders of the chapters
  of a document that is published again and again.
\<close>

section \<open>The rows after a versioned edit\<close>

lemma activate_rows:
  assumes "activate c row note s = Inr (r, s')"
  shows "cdb_chunks s' = update_key (cdb_chunks s) c (\<lambda>k. k\<lparr>k_text := [], k_chars := int (length (v_text row))\<rparr>)"
    "map_option d_owner \<circ> map_of (cdb_documents s') = map_option d_owner \<circ> map_of (cdb_documents s)"
proof -
  from assms obtain s1 s2 where
    s1: "promote (v_id row) note (retire_current (v_logical row) (v_id row) s) = Inr ((), s1)"
    and s2: "point_current c \<lparr>p_version = v_id row, p_comment = n_comment note,
       p_actor = n_actor note, p_operation = n_operation note\<rparr> s1 = Inr ((), s2)"
    and s': "s' = invalidate_derived_rows c (rebind_assignments c (v_id row)
       (empty_chunk_text c (int (length (v_text row))) (project_text c \<lparr>t_text = v_text row, t_sha = v_sha row,
       t_chars = int (length (v_text row)), t_meta = v_meta row\<rparr> s2)))"
    by (auto simp: activate_def split: option.splits)
  note p1 = promote_iff [OF s1] and p2 = conjunct1 [OF point_current_iff [OF s2]]
  have docs: "map_of (map (\<lambda>(i, d). if P i then (i, d\<lparr>d_revectorize := True\<rparr>) else (i, d)) rows) j =
      (case map_of rows j of None \<Rightarrow> None | Some d \<Rightarrow> Some (if P j then d\<lparr>d_revectorize := True\<rparr> else d))"
    for P and rows :: "(uuid \<times> document_row) list" and j
    by (induction rows) auto
  show "cdb_chunks s' = update_key (cdb_chunks s) c (\<lambda>k. k\<lparr>k_text := [], k_chars := int (length (v_text row))\<rparr>)"
    by (simp add: s' p2 p1 project_text_def empty_chunk_text_def rebind_assignments_def
        invalidate_derived_rows_def retire_current_def)
  show "map_option d_owner \<circ> map_of (cdb_documents s') = map_option d_owner \<circ> map_of (cdb_documents s)"
    by (simp add: s' p2 p1 project_text_def empty_chunk_text_def rebind_assignments_def
        invalidate_derived_rows_def retire_current_def docs fun_eq_iff split: option.splits)
qed

lemma appended_rows:
  assumes "append_and_activate sha chunk_id (Some t) note expected opid s = Inr ((c, Appended, r), s')"
  obtains k where "map_of (cdb_chunks s) c = Some k"
    "cdb_chunks s' = update_key (cdb_chunks s) c (\<lambda>k. k\<lparr>k_text := [], k_chars := int (length t)\<rparr>)"
    "cdb_texts s' = update_key (cdb_texts s) c (\<lambda>_. \<lparr>t_text = t, t_sha = sha t, t_chars = int (length t), t_meta = k_meta k\<rparr>)"
    "map_option d_owner \<circ> map_of (cdb_documents s') = map_option d_owner \<circ> map_of (cdb_documents s)"
  using assms
proof (cases rule: append_and_activate_cases)
  case (appended val previous row s1)
  then have ins: "insert_version sha c (next_version_no (cdb_versions s) c) t note opid previous None s = Inr (row, s1)"
    and act: "activate c row note s1 = Inr (r, s')" by simp_all
  note e = insert_version_effect [OF ins] and a = activate_effect(3) [OF act] activate_rows [OF act]
  from ins obtain k where k: "map_of (cdb_chunks s) c = Some k" "v_meta row = k_meta k"
    by (auto simp: insert_version_def insert_version_row_iff split: option.splits)
  show ?thesis using a e k by (intro that [of k]) simp_all
qed simp

text \<open>How the edit changes the joined rows.\<close>

definition edit_row :: "string \<Rightarrow> json_dict \<Rightarrow> chunk_text_row \<Rightarrow> chunk_text_row" where
  "edit_row t meta r = r\<lparr>r_text := t, r_text_meta := meta\<rparr>"

definition edit_entry :: "uuid \<Rightarrow> string \<Rightarrow> json_dict \<Rightarrow> scope_entry \<Rightarrow> scope_entry" where
  "edit_entry c t meta e = (if e_chunk_id e = c then e\<lparr>e_row := edit_row t meta (e_row e)\<rparr> else e)"

lemma update_key_lookup: "map_of (update_key rows c f) i = (if i = c then map_option f (map_of rows i) else map_of rows i)"
  by (induction rows) (auto simp: update_key_def)

lemma edited_joined_row:
  assumes chunks: "k' = (if i = c then k\<lparr>k_text := [], k_chars := n\<rparr> else k)"
    and texts: "cdb_texts st = update_key (cdb_texts (b_store s)) c (\<lambda>_. \<lparr>t_text = t, t_sha = h, t_chars = n, t_meta = meta\<rparr>)"
    and docs: "map_option d_owner \<circ> map_of (cdb_documents st) = map_option d_owner \<circ> map_of (cdb_documents (b_store s))"
  shows "joined_row render (s\<lparr>b_store := st\<rparr>) (i, k') = map_option (edit_entry c t meta) (joined_row render s (i, k))"
proof -
  have owner: "document_owner (s\<lparr>b_store := st\<rparr>) d = document_owner s d" for d
    using fun_cong [OF docs, of d] by (auto simp: document_owner_def split: option.splits)
  have same: "k_paragraph k' = k_paragraph k" "k_order k' = k_order k" "k_document k' = k_document k"
    "k_start k' = k_start k" "k_end k' = k_end k" "k_meta k' = k_meta k" by (simp_all add: chunks)
  have found: "map_of (cdb_texts st) i = (if i = c then map_option (\<lambda>_. \<lparr>t_text = t, t_sha = h, t_chars = n, t_meta = meta\<rparr>)
      (map_of (cdb_texts (b_store s)) i) else map_of (cdb_texts (b_store s)) i)"
    by (simp add: texts update_key_lookup)
  show ?thesis
    unfolding joined_row_def owner split_conv same
    by (cases "map_of (cdb_texts (b_store s)) i"; cases "map_of (b_places s) i"; cases "k_paragraph k"; cases "k_order k";
      auto simp: found Let_def edit_entry_def edit_row_def split: option.splits)
qed

lemma map_filter_map_option: "List.map_filter (\<lambda>x. map_option g (f x)) xs = map g (List.map_filter f xs)"
  by (induction xs) (auto simp: List.map_filter_simps split: option.splits)

lemma map_filter_map: "List.map_filter f (map g xs) = List.map_filter (\<lambda>x. f (g x)) xs"
  by (induction xs) (auto simp: List.map_filter_simps split: option.split)

lemma edited_scope:
  assumes "cdb_chunks st = update_key (cdb_chunks (b_store s)) c (\<lambda>k. k\<lparr>k_text := [], k_chars := n\<rparr>)"
    and "cdb_texts st = update_key (cdb_texts (b_store s)) c (\<lambda>_. \<lparr>t_text = t, t_sha = h, t_chars = n, t_meta = meta\<rparr>)"
    and "map_option d_owner \<circ> map_of (cdb_documents st) = map_option d_owner \<circ> map_of (cdb_documents (b_store s))"
  shows "\<exists>es. document_scope render s d = map e_row es \<and>
    document_scope render (s\<lparr>b_store := st\<rparr>) d = map (e_row \<circ> edit_entry c t meta) es \<and>
    (\<forall>e\<in>set es. r_chunk (e_row e) = uuid_str (e_chunk_id e) \<and>
      (\<exists>i k. (i, k) \<in> set (cdb_chunks (b_store s)) \<and> r_chunk_meta (e_row e) = k_meta k))"
proof -
  let ?es = "sort_key hierarchy_order (filter (\<lambda>e. e_document_id e = d) (joined_rows render s))"
  have step: "joined_row render (s\<lparr>b_store := st\<rparr>) (case x of (i, k) \<Rightarrow> if i = c then (i, k\<lparr>k_text := [], k_chars := n\<rparr>) else (i, k)) =
      map_option (edit_entry c t meta) (joined_row render s x)" for x
    using edited_joined_row [OF _ assms(2,3), of _ "fst x" "snd x"] by (cases x) auto
  have rows: "joined_rows render (s\<lparr>b_store := st\<rparr>) = map (edit_entry c t meta) (joined_rows render s)"
    by (simp add: joined_rows_def assms(1) update_key_def comp_def step map_filter_map flip: map_filter_map_option)
  have key: "hierarchy_order (edit_entry c t meta e) = hierarchy_order e" "e_document_id (edit_entry c t meta e) = e_document_id e" for e
    by (simp_all add: edit_entry_def hierarchy_order_def)
  have "document_scope render (s\<lparr>b_store := st\<rparr>) d = map (e_row \<circ> edit_entry c t meta) ?es"
    by (simp add: document_scope_def rows filter_map comp_def key sort_key_map)
  moreover have "r_chunk (e_row e) = uuid_str (e_chunk_id e) \<and>
      (\<exists>i k. (i, k) \<in> set (cdb_chunks (b_store s)) \<and> r_chunk_meta (e_row e) = k_meta k)" if "e \<in> set (joined_rows render s)" for e
    using that by (force simp: joined_rows_def map_filter_def joined_row_def Let_def split: option.splits if_splits)
  ultimately show ?thesis by (intro exI [of _ ?es]) (simp add: document_scope_def)
qed

section \<open>Which lists of rows are refused\<close>

lemma collect_pieces_counts:
  assumes "\<forall>r\<in>set rows. \<exists>f. row_piece r = Inr f"
  shows "\<exists>d' l' n'. collect_pieces d l n rows = Inr (d', l', n') \<and>
    (d' \<noteq> [] \<longleftrightarrow> d \<noteq> [] \<or> (\<exists>r\<in>set rows. row_piece r \<noteq> Inr None)) \<and>
    (l' \<noteq> 0 \<longleftrightarrow> l \<noteq> 0 \<or> (\<exists>r\<in>set rows. row_piece r = Inr None))"
  using assms
proof (induction rows arbitrary: d l n)
  case (Cons r rows)
  then obtain f where f: "row_piece r = Inr f" by auto
  have ne: "dict_set d k v \<noteq> []" for k and v :: exact_piece and d :: "(string \<times> exact_piece) list"
    by (cases d) (auto split: if_splits)
  show ?case
  proof (cases f)
    case None
    with f Cons.IH [of d "Suc l" n] Cons.prems show ?thesis by auto
  next
    case (Some p)
    with f Cons.IH [of "dict_set d (r_chunk r) p" l "if suffix_after p \<noteq> None then Suc n else n"] Cons.prems ne
    show ?thesis by auto
  qed
qed simp

lemma mixed_rows:
  assumes "\<forall>r\<in>set rows. \<exists>f. row_piece r = Inr f" "\<exists>r\<in>set rows. row_piece r = Inr None" "\<exists>r\<in>set rows. row_piece r \<noteq> Inr None"
  shows "select_exact_pieces rows = Inl Mixed_metadata"
  using collect_pieces_counts [OF assms(1), of "[]" 0 0] assms(2,3) by (auto simp: select_exact_pieces_def)

lemma selected_pieces_of:
  assumes "select_exact_pieces rows = Inr pieces" "pieces \<noteq> []"
  obtains ps where "pieces_of rows ps" "one_suffix ps"
proof -
  from assms(1) obtain l n where c: "collect_pieces [] 0 0 rows = Inr (pieces, l, n)"
    and ok: "l = 0" "length pieces = length rows" "n = 1" "has_suffix pieces (last rows)"
    using assms(2) by (auto simp: select_exact_pieces_def split: if_splits)
  from collect_pieces_full [OF c] ok obtain ps where ps: "pieces_of rows ps" "pieces = zip (map r_chunk rows) ps"
    "suffix_count ps = 1" by auto
  from ps(1) have len: "length ps = length rows" by (auto simp: pieces_of_def dest: list_all2_lengthD)
  with ps(2) assms(2) have ne: "ps \<noteq> []" "rows \<noteq> []" by auto
  then have "map_of pieces (r_chunk (last rows)) = Some (last ps)"
    using pieces_of_lookup [OF ps(1), of "length rows - 1"] len by (simp add: last_conv_nth ps(2))
  with ok(4) have "suffix_after (last ps) \<noteq> None" by (simp add: has_suffix_def)
  with ps ne show ?thesis by (intro that [of ps]) (simp_all add: one_suffix_iff)
qed

lemma short_page:
  assumes "pieces_of rows ps" "one_suffix ps" "0 < n" "n < length rows"
  shows "select_exact_pieces (take n rows) = Inl Suffix_count"
proof -
  from assms(1) have len: "length ps = length rows" by (auto simp: pieces_of_def dest: list_all2_lengthD)
  have "pieces_of (take n rows) (take n ps)" using assms(1) by (auto simp: pieces_of_def simp flip: take_map intro: list_all2_takeI)
  from collect_pieces_zip [OF this, of "[]" 0 0] have
    "collect_pieces [] 0 0 (take n rows) = Inr (zip (map r_chunk (take n rows)) (take n ps), 0, suffix_count (take n ps))" by simp
  moreover have "take n ps = take n (butlast ps)" using assms(4) len by (simp add: take_butlast)
  then have "suffix_count (take n ps) = 0"
    using assms(2) by (auto simp: suffix_count_def one_suffix_def filter_empty_conv dest: in_set_takeD)
  ultimately show ?thesis using assms(3,4) len by (auto simp: select_exact_pieces_def zip_eq_Nil_iff)
qed

section \<open>The properties\<close>

text \<open>
  C26: The first versioned edit of any chunk of a published document with at least two chunks makes
  the document unreadable: the new version carries the metadata of the chunk and not that of its
  text, the exact piece is lost, and every reconstruction of the document fails on mixed metadata.
\<close>

theorem versioned_edit_breaks_reading:
  assumes edit: "update_text sha chunk_id (Some t) comment actor expected opid (b_store s) = Inr ((c, Appended, r), st)"
    and read: "select_exact_pieces (document_scope render s d) = Inr pieces" "pieces \<noteq> []"
    and rows: "1 < length (document_scope render s d)" "uuid_str c \<in> r_chunk ` set (document_scope render s d)"
    and meta: "list_all (\<lambda>(i, k). map_of (k_meta k) exact_key = None) (cdb_chunks (b_store s))"
  shows "reconstructed_scope_text (document_scope render (s\<lparr>b_store := st\<rparr>) d) = Inl Mixed_metadata"
proof -
  from edit obtain k where k: "map_of (cdb_chunks (b_store s)) c = Some k"
    and rows': "cdb_chunks st = update_key (cdb_chunks (b_store s)) c (\<lambda>k. k\<lparr>k_text := [], k_chars := int (length t)\<rparr>)"
      "cdb_texts st = update_key (cdb_texts (b_store s)) c (\<lambda>_. \<lparr>t_text = t, t_sha = sha t, t_chars = int (length t), t_meta = k_meta k\<rparr>)"
      "map_option d_owner \<circ> map_of (cdb_documents st) = map_option d_owner \<circ> map_of (cdb_documents (b_store s))"
    unfolding update_text_def by (rule appended_rows)
  from edited_scope [OF rows', of render d] obtain es where es: "document_scope render s d = map e_row es"
    "document_scope render (s\<lparr>b_store := st\<rparr>) d = map (e_row \<circ> edit_entry c t (k_meta k)) es"
    "\<forall>e\<in>set es. r_chunk (e_row e) = uuid_str (e_chunk_id e)"
    "\<forall>e\<in>set es. \<exists>i k. (i, k) \<in> set (cdb_chunks (b_store s)) \<and> r_chunk_meta (e_row e) = k_meta k" by blast
  from read obtain ps where ps: "pieces_of (document_scope render s d) ps" by (rule selected_pieces_of) 
  have exact: "\<exists>p. row_piece (e_row e) = Inr (Some p)" if "e \<in> set es" for e
  proof -
    from that obtain i where "i < length es" "es ! i = e" by (auto simp: in_set_conv_nth)
    with ps show ?thesis by (auto simp: pieces_of_def es(1) list_all2_conv_all_nth)
  qed
  have chunk_meta: "map_of (r_chunk_meta (e_row e)) exact_key = None" if "e \<in> set es" for e
    using es(4) that meta by (fastforce simp: list_all_iff)
  have "map_of (k_meta k) exact_key = None" using meta k by (auto simp: list_all_iff dest: map_of_SomeD)
  then have edited: "row_piece (e_row (edit_entry c t (k_meta k) e)) = (if e_chunk_id e = c then Inr None else row_piece (e_row e))"
    if "e \<in> set es" for e
    using chunk_meta [OF that] by (simp add: edit_entry_def edit_row_def row_piece_def select_none)
  from rows(2) es(1,3) obtain e where e: "e \<in> set es" "e_chunk_id e = c" by auto
  have "\<exists>e'\<in>set es. e_chunk_id e' \<noteq> c"
  proof (rule ccontr)
    assume "\<not> ?thesis"
    then have "set (map r_chunk (document_scope render s d)) \<subseteq> {uuid_str c}" using es(1,3) by auto
    moreover have "distinct (map r_chunk (document_scope render s d))" using ps by (simp add: pieces_of_def)
    ultimately have "length (document_scope render s d) \<le> 1"
      using card_mono [of "{uuid_str c}"] by (metis List.finite_set card.empty card_insert_disjoint distinct_card empty_iff finite.emptyI
        length_map One_nat_def finite.insertI)
    with rows(1) show False by simp
  qed
  then obtain e' where e': "e' \<in> set es" "e_chunk_id e' \<noteq> c" by blast
  have "select_exact_pieces (document_scope render (s\<lparr>b_store := st\<rparr>) d) = Inl Mixed_metadata"
    unfolding es(2)
  proof (rule mixed_rows)
    show "\<forall>r\<in>set (map (e_row \<circ> edit_entry c t (k_meta k)) es). \<exists>f. row_piece r = Inr f"
      using edited exact by fastforce
    show "\<exists>r\<in>set (map (e_row \<circ> edit_entry c t (k_meta k)) es). row_piece r = Inr None"
      using edited [OF e(1)] e by auto
    show "\<exists>r\<in>set (map (e_row \<circ> edit_entry c t (k_meta k)) es). row_piece r \<noteq> Inr None"
      using edited [OF e'(1)] exact [OF e'(1)] e' by force
  qed
  then show ?thesis by (simp add: scope_text_selects)
qed

text \<open>
  A page of an exactly reconstructed selection that leaves out its last row is refused rather than
  returned: with any limit smaller than the number of rows the command fails on the count of suffixes,
  so no document can be read in pages.
\<close>

theorem short_page_refused:
  assumes "reconstruct_source_file sha render preview s x cap = Inr a" "x_offset x = 0"
    and "select_rows render s (x\<lparr>x_chapter := None\<rparr>) = Inr rows" "select_exact_pieces rows = Inr pieces" "pieces \<noteq> []"
    and "0 < n" "n < length rows"
  shows "reconstruct_source_file sha render preview s (x\<lparr>x_limit := int n\<rparr>) cap = Inl (Assembly (Metadata Suffix_count))"
proof -
  from selected_pieces_of [OF assms(4,5)] obtain ps where "pieces_of rows ps" "one_suffix ps" .
  from short_page [OF this assms(6,7)] have page: "select_exact_pieces (take n rows) = Inl Suffix_count" .
  from assms(1) have cap: "0 \<le> cap"
    by (auto simp: reconstruct_source_file_def assemble_selection_def assemble_def split: if_splits sum.splits)
  define all where "all chapter_id document file_id project = map e_row (sort_key service_order
    (filter (selects render (x\<lparr>x_chapter := None\<rparr>) chapter_id document file_id project) (joined_rows render s)))"
    for chapter_id document file_id project
  have selects: "selects render (x\<lparr>x_limit := int n, x_chapter := None\<rparr>) = selects render (x\<lparr>x_chapter := None\<rparr>)"
    by (simp add: selects_def fun_eq_iff)
  from assms(3) obtain h d f p where ids: "uuid_filter (x_document x) = Inr d" "uuid_filter (x_file x) = Inr f"
      "uuid_filter (x_project x) = Inr p" "uuid_filter None = Inr h" and
    ok: "cdb_configured (b_store s)" "list_all (\<lambda>(key, v). filter_key_ok key) (x_filters x)"
    and rows: "rows = take (nat (x_limit x)) (all h d f p)"
    by (auto simp: select_rows_def assms(2) all_def take_map split: if_splits)
  have "select_rows render s (x\<lparr>x_limit := int n, x_chapter := None\<rparr>) = Inr (take n (all h d f p))"
    using ids ok assms(2,6) by (simp add: select_rows_def all_def take_map selects)
  also have "take n (all h d f p) = take n rows" using assms(7) by (simp add: rows min_absorb1)
  finally have "select_rows render s (x\<lparr>x_limit := int n, x_chapter := None\<rparr>) = Inr (take n rows)" .
  moreover have "take n rows \<noteq> []" using assms(6,7) by auto
  ultimately show ?thesis using assms(1) page cap
    by (auto simp: reconstruct_source_file_def assemble_selection_def assemble_def)
qed

end
