(* ===== verification/Publication_Orders.thy ===== *)
theory Publication_Orders
  imports Publication_Properties
begin

text \<open>
  What a publication does to the orders of the chapters its document has had.
\<close>

section \<open>The orders of the chapters\<close>

lemma Max_shift: "xs \<noteq> [] \<Longrightarrow> Max (set (map (\<lambda>n. n + b) xs)) = Max (set xs) + (b :: int)"
  using mono_Max_commute [of "\<lambda>n. n + b" "set xs"] by (simp add: mono_def)

lemma mark_orders:
  assumes "mark_existing_hierarchy_deleted d s = Inr (x, s')"
    and "list_all (\<lambda>(i, h). h_document h = d \<longrightarrow> h_removed h \<or> h_removed_at h = None) (b_chapters s)"
  shows "chapter_orders (b_chapters s') d =
      map (\<lambda>n. n + next_number (chapter_orders (b_chapters s) d)) (chapter_orders (b_chapters s) d)"
    "\<forall>n\<in>set (chapter_orders (b_chapters s') d). int4 n"
    "list_all (\<lambda>(i, h). h_document h = d \<longrightarrow> h_removed h) (b_chapters s')"
proof -
  define gone where "gone now = (\<lambda>h :: chapter_row. if h_document h = d \<and> h_removed_at h = None
    then h\<lparr>h_removed := True, h_removed_at := Some now\<rparr> else h)" for now
  define cs where "cs = unmarked_chunks s d"
  define s0 where "s0 = remove_paragraphs d (remove_places d (if cs = [] then s else deactivate_embeddings cs s))"
  define s1 where "s1 = remove_chapters d s0"
  define now where "now = pub_clock s0"
  have "shift_chapters d s1 = Inr (x, s')"
    using assms(1) unfolding s1_def s0_def cs_def by (simp add: mark_existing_hierarchy_deleted_def split del: if_split)
  moreover have "b_chapters s0 = b_chapters s"
    by (simp add: s0_def remove_paragraphs_def remove_places_def deactivate_embeddings_def Let_def)
  then have "b_chapters s1 = map (\<lambda>(i, h). (i, gone now h)) (b_chapters s)"
    by (auto simp: s1_def remove_chapters_def Let_def gone_def now_def)
  ultimately have s1: "shift_chapters d s1 = Inr (x, s')" "b_chapters s1 = map (\<lambda>(i, h). (i, gone now h)) (b_chapters s)"
    by blast+
  have gone: "h_document (gone now h) = h_document h" "h_order (gone now h) = h_order h" for h
    by (simp_all add: gone_def)
  have orders1: "chapter_orders (b_chapters s1) d = chapter_orders (b_chapters s) d"
    by (simp add: chapter_orders_def s1(2) filter_map comp_def case_prod_unfold gone)
  define by_n where "by_n = next_number (chapter_orders (b_chapters s) d)"
  define shift where "shift = (\<lambda>h :: chapter_row. if h_document h = d \<and> h_removed h then h\<lparr>h_order := h_order h + by_n\<rparr> else h)"
  define rows where "rows = map (\<lambda>(i, h). if h_document h = d \<and> h_removed h
           then (i, h\<lparr>h_order := h_order h + by_n\<rparr>) else (i, h)) (b_chapters s1)"
  have rows: "rows = map (\<lambda>(i, h). (i, shift h)) (b_chapters s1)" by (auto simp: rows_def shift_def)
  have "shift_chapters d s1 = (if list_all (\<lambda>(i, h). int4 (h_order h)) rows then Inr ((), s1\<lparr>b_chapters := rows\<rparr>)
      else Inl Pub_constraint)"
    by (simp only: shift_chapters_def Let_def orders1 rows_def by_n_def)
  with s1(1) have "b_chapters s' = rows" "list_all (\<lambda>(i, h). int4 (h_order h)) rows" by (auto split: if_splits)
  then have s': "b_chapters s' = map (\<lambda>(i, h). (i, shift h)) (b_chapters s1)" "\<forall>(i, h)\<in>set (b_chapters s'). int4 (h_order h)"
    by (simp_all only: rows list_all_iff)
  have all: "h_removed h" if "(i, h) \<in> set (b_chapters s1)" "h_document h = d" for i h
  proof -
    from that(1) obtain h0 where h0: "(i, h0) \<in> set (b_chapters s)" "h = gone now h0" unfolding s1(2) by auto
    with that(2) have "h_document h0 = d" by (simp add: gone)
    with assms(2) h0(1) have "h_removed h0 \<or> h_removed_at h0 = None" by (fastforce simp: list_all_iff)
    then show ?thesis using \<open>h_document h0 = d\<close> by (auto simp: h0(2) gone_def)
  qed
  have doc: "h_document (shift h) = h_document h" for h by (simp add: shift_def)
  have "h_removed (shift h) = h_removed h" for h by (simp add: shift_def)
  with all doc show "list_all (\<lambda>(i, h). h_document h = d \<longrightarrow> h_removed h) (b_chapters s')"
    by (auto simp: s'(1) list_all_iff)
  have "chapter_orders (b_chapters s') d = map (\<lambda>(i, h). h_order (shift h)) (filter (\<lambda>(i, h). h_document h = d) (b_chapters s1))"
    by (simp add: chapter_orders_def s'(1) filter_map comp_def case_prod_unfold doc)
  also have "\<dots> = map (\<lambda>(i, h). h_order h + by_n) (filter (\<lambda>(i, h). h_document h = d) (b_chapters s1))"
    using all by (auto simp: shift_def)
  also have "\<dots> = map (\<lambda>n. n + by_n) (chapter_orders (b_chapters s1) d)"
    by (simp add: chapter_orders_def comp_def case_prod_unfold)
  finally show "chapter_orders (b_chapters s') d =
      map (\<lambda>n. n + next_number (chapter_orders (b_chapters s) d)) (chapter_orders (b_chapters s) d)"
    by (simp add: orders1 by_n_def)
  show "\<forall>n\<in>set (chapter_orders (b_chapters s') d). int4 n" using s'(2) by (auto simp: chapter_orders_def)
qed

lemma chunk_keeps_chapters: "tx_keeps (\<lambda>s. b_chapters s = hs) (write_semantic_chunk sha plan x p h meta q)"
  by (rule tx_keepsI) (auto elim!: write_semantic_chunk_cases)

lemma paragraphs_keep_chapters: "tx_keeps (\<lambda>s. b_chapters s = hs) (write_paragraphs sha plan h n g sp)"
proof -
  have s: "tx_keeps (\<lambda>s. b_chapters s = hs) (write_sentences sha plan p h meta g ss)" for p meta g ss
    by (induction ss arbitrary: g) (auto intro!: tx_rules chunk_keeps_chapters)
  have d: "tx_keeps (\<lambda>s. b_chapters s = hs) (on_chunks draw_chunk_uuid)"
    by (rule tx_keepsI) (auto simp: draw_chunk_uuid_def)
  have p: "tx_keeps (\<lambda>s. b_chapters s = hs) (write_paragraph plan p i h n)" for p i n
    by (rule tx_keepsI) (auto dest: write_paragraph_frame(9))
  show ?thesis by (induction sp arbitrary: n g) (auto intro!: tx_rules d p s)
qed

text \<open>Chapters with a sensible order whose flag of deletion and its time agree.\<close>

definition chapters_settled :: "uuid \<Rightarrow> (uuid \<times> chapter_row) list \<Rightarrow> bool" where
  "chapters_settled d rows \<longleftrightarrow> list_all (\<lambda>(i, h). h_document h = d \<longrightarrow>
     0 \<le> h_order h \<and> (h_removed h \<or> h_removed_at h = None)) rows"

lemma next_number_nonneg: "\<forall>n\<in>set ns. 0 \<le> n \<Longrightarrow> 0 \<le> next_number ns"
  by (auto simp: next_number_def)

text \<open>One publication puts the new chapter at 0 behind the others, which it moves up by their next number.\<close>

lemma published_orders:
  assumes "publish_version sha render actor plan paragraphs sentences s = (Published z, s')"
    and "chapters_settled (l_document plan) (b_chapters s)"
  shows "chapter_orders (b_chapters s') (l_document plan) =
      map (\<lambda>n. n + next_number (chapter_orders (b_chapters s) (l_document plan)))
        (chapter_orders (b_chapters s) (l_document plan)) @ [0]"
    and "chapters_settled (l_document plan) (b_chapters s')"
    and "\<forall>n\<in>set (chapter_orders (b_chapters s') (l_document plan)). int4 n"
proof -
  let ?d = "l_document plan" and ?old = "chapter_orders (b_chapters s) (l_document plan)"
  from assms(1) obtain sp chap source s2 g sh where v: "same_view s s2" "same_view sh s'"
    and w: "write_rows sha plan source chap sp s2 = Inr (g, sh)" by (rule published_cases)
  let ?g = "\<lparr>g_paragraphs = [], g_spans = [], g_length = 0, g_previous = None\<rparr> :: progress"
  from w obtain x1 t1 x2 t2 x3 t3 x4 t4 where
    head: "mark_existing_hierarchy_deleted ?d s2 = Inr (x1, t1)"
      "write_file plan source (retire_previous_files ?d t1) = Inr (x2, t2)"
      "write_document plan t2 = Inr (x3, t3)" "write_chapter plan chap t3 = Inr (x4, t4)"
    and body: "write_paragraphs sha plan chap 0 ?g sp t4 = Inr (g, sh)"
    unfolding write_rows_def Let_def tx_bind_iff tx_write_iff by blast
  have eq: "b_chapters s2 = b_chapters s" using v(1) by (simp add: same_view_def)
  have "list_all (\<lambda>(i, h). h_document h = ?d \<longrightarrow> h_removed h \<or> h_removed_at h = None) (b_chapters s2)"
    using assms(2) by (auto simp: eq list_all_iff chapters_settled_def)
  note m = mark_orders [OF head(1) this, unfolded eq]
  have "b_chapters t3 = b_chapters t1"
    using write_file_frame [OF head(2)] retire_files_view [of t1 ?d] write_document_frame(5) [OF head(3)]
    by (simp add: same_view_def)
  moreover obtain h where "b_chapters t4 = b_chapters t3 @ [(chap, h)]"
    and h: "h_order h = 0" "h_document h = ?d" "h_removed_at h = None"
    using head(4) by (auto simp: write_chapter_def insert_chapter_def same_view_def dest!: register_view)
  moreover have "b_chapters s' = b_chapters t4"
    using tx_keepsD [OF paragraphs_keep_chapters body] v(2) by (simp add: same_view_def)
  ultimately have rows: "b_chapters s' = b_chapters t1 @ [(chap, h)]" by simp
  then have orders: "chapter_orders (b_chapters s') ?d = chapter_orders (b_chapters t1) ?d @ [0]"
    using h by (simp add: chapter_orders_def)
  then show all: "chapter_orders (b_chapters s') ?d = map (\<lambda>n. n + next_number ?old) ?old @ [0]" by (simp add: m(1))
  show "\<forall>n\<in>set (chapter_orders (b_chapters s') ?d). int4 n" using m(2) by (auto simp: orders int4_def)
  have "\<forall>n\<in>set ?old. 0 \<le> n" using assms(2) by (auto simp: chapters_settled_def chapter_orders_def list_all_iff)
  then have "\<forall>n\<in>set (chapter_orders (b_chapters t1) ?d). 0 \<le> n" using next_number_nonneg [of ?old] by (auto simp: m(1))
  then have "\<forall>(i, h)\<in>set (b_chapters t1). h_document h = ?d \<longrightarrow> 0 \<le> h_order h"
    by (force simp: chapter_orders_def)
  with m(3) h show "chapters_settled ?d (b_chapters s')"
    by (auto simp: rows chapters_settled_def list_all_iff)
qed

lemma highest_order_doubles:
  assumes "ns \<noteq> []" "\<forall>n\<in>set ns. (0 :: int) \<le> n"
  shows "Max (set (map (\<lambda>n. n + next_number ns) ns @ [0])) = 2 * Max (set ns) + 1"
proof -
  have "0 \<le> Max (set ns)" using assms by (metis List.finite_set Max_in set_empty)
  then show ?thesis using assms(1) Max_shift [OF assms(1), of "next_number ns"] by (simp add: next_number_def)
qed

section \<open>How often a document can be published\<close>

text \<open>
  The chapters of one document over a run of the store with a number of successful publications of it;
  between them anything else may happen that leaves the rows of its chapters alone.
\<close>

definition chapters_of :: "uuid \<Rightarrow> pub_db \<Rightarrow> (uuid \<times> chapter_row) list" where
  "chapters_of d s = filter (\<lambda>(i, h). h_document h = d) (b_chapters s)"

inductive publications :: "uuid \<Rightarrow> pub_db \<Rightarrow> nat \<Rightarrow> pub_db \<Rightarrow> bool" for d :: uuid and s0 :: pub_db where
  start: "publications d s0 0 s0"
| elsewhere: "publications d s0 n s \<Longrightarrow> chapters_of d s' = chapters_of d s \<Longrightarrow> publications d s0 n s'"
| published: "publications d s0 n s \<Longrightarrow> l_document plan = d \<Longrightarrow>
    publish_version sha render actor plan paragraphs sentences s = (Published z, s') \<Longrightarrow> publications d s0 (Suc n) s'"

lemma list_all_filter: "list_all P (filter Q xs) \<longleftrightarrow> list_all (\<lambda>x. Q x \<longrightarrow> P x) xs"
  by (induction xs) auto

lemma of_chapters_only:
  "chapter_orders (b_chapters s) d = map (h_order \<circ> snd) (chapters_of d s)"
  "chapters_settled d (b_chapters s) \<longleftrightarrow> list_all (\<lambda>(i, h). 0 \<le> h_order h \<and> (h_removed h \<or> h_removed_at h = None)) (chapters_of d s)"
  by (simp_all add: chapters_of_def chapter_orders_def chapters_settled_def list_all_filter case_prod_unfold)

lemma settled_orders: "chapters_settled d rows \<Longrightarrow> \<forall>n\<in>set (chapter_orders rows d). 0 \<le> n"
  by (auto simp: chapters_settled_def chapter_orders_def list_all_iff)

lemma publications_orders:
  assumes "publications d s0 n s" "chapters_of d s0 = []"
  shows "chapters_settled d (b_chapters s) \<and> (n = 0 \<longrightarrow> chapter_orders (b_chapters s) d = []) \<and>
    (0 < n \<longrightarrow> chapter_orders (b_chapters s) d \<noteq> [] \<and> Max (set (chapter_orders (b_chapters s) d)) = 2 ^ (n - 1) - 1 \<and> n \<le> 32)"
  using assms
proof (induction rule: publications.induct)
  case start
  then show ?case by (simp add: of_chapters_only)
next
  case (elsewhere n s s')
  then show ?case by (simp add: of_chapters_only)
next
  case (published n s plan sha render actor paragraphs sentences z s')
  note d = published.hyps(2) and IH = published.IH [OF published.prems]
  let ?old = "chapter_orders (b_chapters s) d" and ?new = "chapter_orders (b_chapters s') d"
  from IH have settled: "chapters_settled (l_document plan) (b_chapters s)" by (simp add: d)
  note new = published_orders [OF published.hyps(3) settled, unfolded d]
  have max: "Max (set ?new) = 2 ^ n - 1"
  proof (cases "n = 0")
    case True
    then show ?thesis using IH by (simp add: new(1))
  next
    case False
    with IH have old: "?old \<noteq> []" "Max (set ?old) = 2 ^ (n - 1) - 1" by simp_all
    have "Max (set ?new) = 2 * Max (set ?old) + 1"
      unfolding new(1) using old(1) settled_orders IH by (intro highest_order_doubles) blast+
    with old(2) False show ?thesis by (cases n) simp_all
  qed
  have "?new \<noteq> []" by (simp add: new(1))
  then have "int4 (Max (set ?new))" using new(3) by (metis List.finite_set Max_in set_empty)
  then have "(2 :: int) ^ n \<le> 2 ^ 31" by (simp add: max int4_def)
  then have "n \<le> 31" by (simp only: power_increasing_iff [of "2 :: int"])
  with max \<open>?new \<noteq> []\<close> new(2) show ?case by simp
qed

text \<open>
  C25: a document is published at most thirty-two times. Starting without a chapter, the highest order
  among the chapters of a document, deleted ones included, is 2^(n-1) - 1 after n successful
  publications, whatever their sources and whatever else happens in between that leaves its chapters
  alone, because a publication moves the orders of the older chapters up by one more than the highest of
  them. After thirty-two the orders no longer fit their column: the thirty-third publication fails.
\<close>

theorem thirty_third_publication_fails:
  assumes "publications d s0 n s" "chapters_of d s0 = []"
  shows "n \<le> 32 \<and> (0 < n \<longrightarrow> Max (set (chapter_orders (b_chapters s) d)) = 2 ^ (n - 1) - 1) \<and>
    (n = 32 \<and> l_document plan = d \<longrightarrow>
      (\<forall>z. fst (publish_version sha render actor plan paragraphs sentences s) \<noteq> Published z))"
proof (intro conjI allI impI notI)
  note spec = publications_orders [OF _ assms(2)]
  show "n \<le> 32" using spec [OF assms(1)] by (cases n) simp_all
  show "0 < n \<Longrightarrow> Max (set (chapter_orders (b_chapters s) d)) = 2 ^ (n - 1) - 1" using spec [OF assms(1)] by simp
  fix z
  assume n: "n = 32 \<and> l_document plan = d"
    and "fst (publish_version sha render actor plan paragraphs sentences s) = Published z"
  then obtain s' where "publish_version sha render actor plan paragraphs sentences s = (Published z, s')"
    by (metis prod.collapse)
  from publications.published [OF assms(1) _ this] n have "publications d s0 (Suc n) s'" by simp
  from spec [OF this] n show False by simp
qed

end
