(* ===== verification/Publication_Examples.thy ===== *)
theory Publication_Examples
  imports Publication_Properties Publication_Edits Publication_Orders
begin

text \<open>
  A small store on which the properties of the publication are applied, evaluated statement by
  statement: one document with one paragraph and one sentence, published over an earlier hierarchy.
\<close>

section \<open>The store\<close>

definition toy_document :: uuid where "toy_document = 0x40008000000000000002"
definition toy_file_id :: uuid where "toy_file_id = 0x40008000000000000000"

lemma toy_ids [simp]:
  "toy_document \<noteq> toy_file_id" "toy_file_id \<noteq> toy_document" "toy_document \<noteq> echo_uuid" "echo_uuid \<noteq> toy_document"
  "toy_file_id \<noteq> echo_uuid" "echo_uuid \<noteq> toy_file_id"
  "toy_file_id \<noteq> 21" "toy_file_id \<noteq> 22" "toy_document \<noteq> 21" "toy_document \<noteq> 22" "echo_uuid \<noteq> 21" "echo_uuid \<noteq> 22"
  "21 \<noteq> toy_file_id" "22 \<noteq> toy_file_id" "21 \<noteq> toy_document" "22 \<noteq> toy_document" "21 \<noteq> echo_uuid" "22 \<noteq> echo_uuid"
  "toy_document \<noteq> 9" "9 \<noteq> toy_document"
  by (simp_all add: toy_document_def toy_file_id_def echo_uuid_def stamp_version_def)

definition toy_request :: request_context where
  "toy_request = \<lparr>q_document = toy_document, q_source_version = ''v'', q_normalized_version = ''h'', q_operation = uuid_str 5,
     q_command = ''document_create'', q_text = ''ab'', q_filename = None, q_content_sha = ''h'', q_strategy = ''paragraph'',
     q_media_type = Some ''text/plain'', q_byte_length = Some 2\<rparr>"

text \<open>The plan of the request, written out; every digest is \<open>h\<close>.\<close>

definition toy_plan :: persistence_plan where
  "toy_plan = \<lparr>l_document = toy_document, l_source_version_id = ''v'', l_normalized_version = ''h'',
     l_operation = uuid_str 5, l_command = ''document_create'', l_text = ''ab'', l_filename = None,
     l_content_sha = ''h'', l_strategy = ''paragraph'', l_source_version = 1, l_title = ''ab'', l_source_name = None,
     l_length = 2, l_body_sha = ''h'', l_file = toy_file_id,
     l_meta = [(''file_id'', J_str (uuid_str toy_file_id)), (''source_version_id'', J_str ''v''),
       (''normalized_source_version_id'', J_str ''h''), (''operation_id'', J_str (uuid_str 5)),
       (''ingestion_command'', J_str ''document_create''), (''chunking_strategy'', J_str ''paragraph''),
       (''checksum_algorithm'', J_str ''sha256''), (''content_sha256'', J_str ''h''), (''source_sha256'', J_str ''h''),
       (''file_sha256'', J_str ''h''), (''body_sha256'', J_str ''h''), (''tags'', J_list []), (''project'', J_str ''doc-store'')],
     l_media_type = Some ''text/plain'', l_byte_length = Some 2\<rparr>"

lemma toy_stamp: "stable_uuid4 (\<lambda>_. ''h'') v = toy_file_id"
  by (simp add: stable_uuid4_def hex_word_def hex_value_def stamp_version_def toy_file_id_def)

lemma toy_properties: "source_properties ''ab'' (Some ''doc-store'') = [(''tags'', J_list []), (''project'', J_str ''doc-store'')]"
    "title_of None ''ab'' = ''ab''"
  by code_simp+

lemma toy_plan_mapped: "map_plan (\<lambda>_. ''h'') toy_request (Stated_text ''v'') = toy_plan"
  by (simp add: map_plan_def toy_request_def toy_plan_def document_meta_def file_id_of_def toy_stamp toy_properties Let_def
    resolve_source_version_def source_version_number_def hex_word_def hex_value_def version_modulus_def source_name_of_def)

definition toy_file :: file_row where
  "toy_file = \<lparr>f_owner = None, f_source = 3, f_path = [], f_name = [], f_chars = 0, f_content_sha = [],
     f_body_sha = [], f_rechunk = False, f_meta = [], f_removed = False, f_removed_at = None\<rparr>"

definition toy_deleted :: document_entry where
  "toy_deleted = \<lparr>m_upload = toy_document, m_version = 1, m_path = None, m_name = None, m_content_sha = [], m_body_sha = [],
     m_title = [], m_attempt = 1, m_trace = 5, m_created = 0, m_updated = 0, m_meta = [], m_removed = True, m_removed_at = Some 4\<rparr>"

definition toy_chapter :: chapter_row where
  "toy_chapter = \<lparr>h_document = 9, h_order = 0, h_heading = [], h_end = 0, h_meta = [], h_removed = True, h_removed_at = Some 4\<rparr>"

text \<open>A store with the file of the plan, its original and the dictionaries; with or without a deleted
  document, and with a deleted chapter of another one.\<close>

definition toy_db :: "(uuid \<times> document_entry) list \<Rightarrow> pub_db" where
  "toy_db ds = \<lparr>b_store = \<lparr>cdb_configured = True, cdb_versions = [], cdb_current = [], cdb_texts = [], cdb_chunks = [],
      cdb_assignments = (\<lambda>_. []), cdb_derived = (\<lambda>_. []), cdb_embeddings = [], cdb_documents = [], cdb_files = [],
      cdb_dictionaries = (\<lambda>_. map (\<lambda>v. (v, 40, False))
        [''DocBlock'', ''system'', ''needs_review'', ''sentence'', ''UNKNOWN'', ''uncategorized'']),
      cdb_clock = 10, cdb_uuids = (\<lambda>n. word_of_nat (n + 20)), cdb_drawn = 0\<rparr>,
    b_temporal = \<lparr>db_configured = True, db_rows = [], db_registry = [(toy_file_id, ''files'')] @ map (\<lambda>(d, m). (d, ''documents'')) ds,
      db_parents = (\<lambda>_ _. []), db_project_meta = [], db_payloads = (), db_clock = 10,
      db_uuids = (\<lambda>n. word_of_nat (n + 90)), db_drawn = 0\<rparr>,
    b_places = [], b_paragraphs = [], b_chapters = [(50, toy_chapter)], b_documents = ds, b_files = [(toy_file_id, toy_file)],
    b_sources = [(3, \<lparr>o_locator = [], o_media_type = None, o_byte_length = None, o_sha = ''h'', o_provenance = []\<rparr>)],
    b_runs = [], b_spans = [], b_states = []\<rparr>"

definition toy_started :: "(uuid \<times> document_entry) list \<Rightarrow> pub_db" where
  "toy_started ds = (toy_db ds)\<lparr>b_store := (b_store (toy_db ds))\<lparr>cdb_drawn := 2\<rparr>\<rparr>"

definition toy_marked :: "(uuid \<times> document_entry) list \<Rightarrow> pub_db" where
  "toy_marked ds = (toy_started ds)\<lparr>b_chapters := [(50, toy_chapter)]\<rparr>"

definition toy_chunk :: "string \<Rightarrow> runtime_chunk list" where
  "toy_chunk t = [\<lparr>c_uuid = echo_uuid, c_text = t, c_start = 0, c_end = 2, c_ordinal = 0, c_meta = []\<rparr>]"


lemma toy_operation: "uuid_of_string (l_operation toy_plan) = Some 5" by (simp add: toy_plan_def)

lemma toy_features: "classifier_values (sentence_features toy_plan (hd (toy_chunk ''ab''))) =
  [(''type'', ''DocBlock''), (''role'', ''system''), (''status'', ''needs_review''),
      (''block_type'', ''sentence''), (''language'', ''UNKNOWN''), (''category'', ''uncategorized'')]"
proof -
  have "sentence_features toy_plan (hd (toy_chunk ''ab'')) =
      dict_set (dict_update (chunk_features ''ab'' None ''sentence'') (chunk_metadata_features [])) ''block_type'' (J_str ''sentence'')"
    by (simp add: sentence_features_def toy_plan_def toy_chunk_def)
  moreover have "classifier_values (dict_set (dict_update (chunk_features ''ab'' None ''sentence'') (chunk_metadata_features []))
      ''block_type'' (J_str ''sentence'')) = [(''type'', ''DocBlock''), (''role'', ''system''), (''status'', ''needs_review''),
      (''block_type'', ''sentence''), (''language'', ''UNKNOWN''), (''category'', ''uncategorized'')]"
    by code_simp
  ultimately show ?thesis by simp
qed

lemma toy_strips: "map py_strip [''DocBlock'', ''system'', ''needs_review'', ''sentence'', ''UNKNOWN'', ''uncategorized''] = [''DocBlock'', ''system'', ''needs_review'', ''sentence'', ''UNKNOWN'', ''uncategorized'']"
  by code_simp

definition toy_piece :: exact_piece where
  "toy_piece = \<lparr>gap_before = [], source_text = None, suffix_after = Some []\<rparr>"

definition toy_sentences :: sentence_plan where
  "toy_sentences = [(hd (toy_chunk ''ab''), [(hd (toy_chunk ''ab''), toy_piece)])]"

lemma toy_length: "length (uuid_str u) = 36"
  by (simp add: uuid_str_def Let_def)

lemma toy_sp: "exact_sentence_plan (l_text toy_plan) (toy_chunk ''ab'') (toy_chunk ''ab'') = Inr toy_sentences"
proof -
  have "l_text toy_plan = ''ab''" by (simp add: toy_plan_def)
  moreover have "exact_sentence_plan ''ab'' (toy_chunk ''ab'') (toy_chunk ''ab'') = Inr toy_sentences" by code_simp
  ultimately show ?thesis by simp
qed

lemmas toy_defs = toy_started_def toy_db_def toy_plan_def

lemma toy_dictionaries:
  assumes "cdb_dictionaries (b_store s) = cdb_dictionaries (b_store (toy_started ds))"
  shows "semantic_dictionary_ids (classifier_values (sentence_features toy_plan (hd (toy_chunk ''ab'')))) s =
   Inr (replicate 6 40, s)"
  using toy_strips assms
  by (simp add: toy_features semantic_dictionary_ids_def classifier_tables_def semantic_dictionary_id_def tx_bind_def tx_read_def
    on_chunks_def dictionary_id_def tx_return_def dictionary_tables_def toy_started_def toy_db_def Let_def numeral_eq_Suc)

lemma toy_mark: "mark_existing_hierarchy_deleted toy_document (toy_started ds) = Inr ((), toy_marked ds)"
  by (simp add: toy_marked_def toy_chapter_def int4_def chapter_orders_def next_number_def mark_existing_hierarchy_deleted_def tx_bind_def tx_read_def tx_write_def toy_defs remove_places_def remove_paragraphs_def
    remove_chapters_def shift_chapters_def document_chunks_def unmarked_chunks_def Let_def)

definition toy_headed :: "(uuid \<times> document_entry) list \<Rightarrow> pub_db \<Rightarrow> bool" where
  "toy_headed ds t \<longleftrightarrow>
     b_store t = (b_store (toy_started ds))\<lparr>cdb_files := [(toy_file_id, True)], cdb_documents := [(toy_document, \<lparr>d_owner = Some toy_file_id, d_revectorize = True\<rparr>)]\<rparr> \<and>
     db_rows (b_temporal t) = [] \<and> set (db_registry (b_temporal t)) = {(toy_file_id, ''files''), (toy_document, ''documents''), (21, ''chapters'')} \<and>
     b_places t = [] \<and> b_paragraphs t = [] \<and> b_runs t = [] \<and> b_sources t = b_sources (toy_started ds) \<and>
     map_of (b_documents t) toy_document \<noteq> None \<and> map_of (b_chapters t) 21 \<noteq> None"

lemma toy_head:
  assumes "ds = [] \<or> ds = [(toy_document, toy_deleted)]"
  shows "\<exists>t. tx_bind (tx_write (retire_previous_files toy_document)) (\<lambda>_.
      tx_bind (write_file toy_plan 3) (\<lambda>_.
      tx_bind (write_document toy_plan) (\<lambda>_. write_chapter toy_plan 21))) (toy_marked ds) = Inr ((), t) \<and> toy_headed ds t"
  using assms
  by (elim disjE; simp add: toy_headed_def tx_bind_def tx_read_def tx_write_def toy_defs retire_previous_files_def write_file_def write_document_def
    write_chapter_def insert_chapter_def Let_def document_owner_def file_of_plan_def first_nonempty_def map_filter_def
    constraint_def tx_guard_def tx_return_def fits_def int4_def register_def tx_lift_def chapter_orders_def toy_length toy_marked_def toy_chapter_def; auto)

lemma toy_body:
  assumes "toy_headed ds t"
  shows "\<exists>g u. write_paragraphs (\<lambda>t. ''h'') toy_plan 21 0 g0 toy_sentences t = Inr (g, u) \<and>
    b_runs u = b_runs t \<and> b_sources u = b_sources t \<and> b_documents u = b_documents t \<and> b_chapters u = b_chapters t \<and>
    db_rows (b_temporal u) = [] \<and> map_of (db_registry (b_temporal u)) toy_document \<noteq> None"
proof -
  from assms have t: "b_store t = (b_store (toy_started ds))\<lparr>cdb_files := [(toy_file_id, True)],
      cdb_documents := [(toy_document, \<lparr>d_owner = Some toy_file_id, d_revectorize = True\<rparr>)]\<rparr>"
    "db_rows (b_temporal t) = []" "b_places t = []" "b_paragraphs t = []" "map_of (b_chapters t) 21 \<noteq> None"
    and reg: "set (db_registry (b_temporal t)) = {(toy_file_id, ''files''), (toy_document, ''documents''), (21, ''chapters'')}"
    by (simp_all add: toy_headed_def)
  have fresh: "map_of (db_registry (b_temporal t)) 22 = None" "map_of (db_registry (b_temporal t)) echo_uuid = None"
    "map_of (db_registry (b_temporal t)) toy_document \<noteq> None"
    by (auto simp: map_of_eq_None_iff image_iff reg)
  let ?x = "hd (toy_chunk ''ab'')"
  have x: "c_start ?x = 0" "c_end ?x = 2" "c_ordinal ?x = 0" "c_uuid ?x = echo_uuid" by (simp_all add: toy_chunk_def)
  define t1 where "t1 = t\<lparr>b_store := (b_store t)\<lparr>cdb_drawn := 3\<rparr>\<rparr>"
  have draw: "on_chunks draw_chunk_uuid t = Inr (22, t1)"
    by (simp add: t1_def t(1) draw_chunk_uuid_def toy_defs on_chunks_def)
  define meta where "meta = paragraph_meta toy_plan ?x 0"
  define t2 where "t2 = t1\<lparr>b_paragraphs := [(22, \<lparr>y_document = toy_document, y_chapter = 21, y_order = 0, y_text = c_text ?x,
    y_start = 0, y_end = 2, y_meta = meta, y_removed = False, y_removed_at = None\<rparr>)],
    b_temporal := (b_temporal t1)\<lparr>db_registry := db_registry (b_temporal t1) @ [(22, ''paragraphs'')]\<rparr>\<rparr>"
  have par: "write_paragraph toy_plan ?x 22 21 0 t1 = Inr (meta, t2)"
    using t fresh by (auto simp: write_paragraph_def insert_paragraph_def Let_def register_def x meta_def t2_def t1_def toy_plan_def int4_def)
  define k where "k = chunk_of_plan toy_plan meta ?x 21 22 (replicate 6 40)"
  have k: "k_start k = Some 0" "k_end k = Some 2" "k_order k = Some 0"
    by (simp_all add: k_def chunk_of_plan_def x)
  define t3 where "t3 = t2\<lparr>b_places := [(echo_uuid, \<lparr>s_chapter = 21, s_removed = False, s_removed_at = None\<rparr>)],
    b_temporal := (b_temporal t2)\<lparr>db_registry := db_registry (b_temporal t2) @ [(echo_uuid, ''semantic_chunks'')]\<rparr>\<rparr>"
  have place: "insert_place echo_uuid 22 k 21 t2 = Inr ((), t3)"
    using t fresh by (auto simp: insert_place_def register_def k t3_def t2_def t1_def int4_def toy_defs)
  have "\<exists>c. write_chunk_text (\<lambda>t. ''h'') echo_uuid k (c_text ?x) (merge_piece_metadata (k_meta k) toy_piece) (b_store t3) = Inr ((), c)"
    by (simp add: write_chunk_text_def t3_def t2_def t1_def t(1) toy_defs insert_initial_version_def seed_version_def version_of_def
       draw_chunk_uuid_def insert_version_row_def version_constraints_def initial_version_row_def point_version_def point_current_def
       tx_bind_def tx_return_def tx_write_def del: tx_bind_iff)
  then obtain c where "write_chunk_text (\<lambda>t. ''h'') echo_uuid k (c_text ?x) (merge_piece_metadata (k_meta k) toy_piece) (b_store t3) = Inr ((), c)" ..
  then have "\<exists>u. write_semantic_chunk (\<lambda>t. ''h'') toy_plan ?x 22 21 meta toy_piece t2 = Inr (echo_uuid, u) \<and>
     b_runs u = b_runs t3 \<and> b_sources u = b_sources t3 \<and> b_documents u = b_documents t3 \<and> b_chapters u = b_chapters t3 \<and>
     b_temporal u = b_temporal t3"
    using place by (auto simp: write_semantic_chunk_def Let_def x toy_dictionaries [where ds = ds] t2_def t1_def t(1) k_def)
  then show ?thesis using draw par fresh
    by (auto simp: toy_sentences_def t3_def t2_def t1_def t simp del: on_chunks_iff)
qed


lemma toy_rows:
  assumes "ds = [] \<or> ds = [(toy_document, toy_deleted)]"
  obtains g u where "write_rows (\<lambda>t. ''h'') toy_plan 3 21 toy_sentences (toy_started ds) = Inr (g, u)"
    "b_runs u = []" "map_of (b_sources u) 3 \<noteq> None" "map_of (b_documents u) toy_document \<noteq> None" "map_of (b_chapters u) 21 \<noteq> None"
    "db_rows (b_temporal u) = []" "map_of (db_registry (b_temporal u)) toy_document \<noteq> None"
proof -
  from toy_head [OF assms] obtain t where t: "tx_bind (tx_write (retire_previous_files toy_document)) (\<lambda>_.
      tx_bind (write_file toy_plan 3) (\<lambda>_.
      tx_bind (write_document toy_plan) (\<lambda>_. write_chapter toy_plan 21))) (toy_marked ds) = Inr ((), t)" "toy_headed ds t"
    by blast
  define g0 where "g0 = (\<lparr>g_paragraphs = [], g_spans = [], g_length = 0, g_previous = None\<rparr> :: progress)"
  from toy_body [OF t(2), of g0] obtain g u where u: "write_paragraphs (\<lambda>t. ''h'') toy_plan 21 0 g0 toy_sentences t = Inr (g, u)"
    "b_runs u = b_runs t" "b_sources u = b_sources t" "b_documents u = b_documents t" "b_chapters u = b_chapters t"
    "db_rows (b_temporal u) = []" "map_of (db_registry (b_temporal u)) toy_document \<noteq> None" by blast
  have "l_document toy_plan = toy_document" by (simp add: toy_plan_def)
  with t(1) u(1) toy_mark have "write_rows (\<lambda>t. ''h'') toy_plan 3 21 toy_sentences (toy_started ds) = Inr (g, u)"
    unfolding write_rows_def Let_def tx_bind_iff g0_def by fastforce
  with t(2) u show ?thesis by (intro that) (simp_all add: toy_headed_def toy_defs)
qed

lemma toy_start:
  "tx_bind (on_chunks draw_chunk_uuid) (\<lambda>run. tx_bind (on_chunks draw_chunk_uuid) (\<lambda>h. tx_return (run, h))) (toy_db ds) =
     (Inr ((20, 21), toy_started ds) :: (pub_error, (uuid \<times> uuid) \<times> pub_db) result)"
  "transaction (resolve_primary_source (\<lambda>t. ''h'') toy_plan) (toy_started ds) = (Inr 3, toy_started ds)"
  by (auto simp: toy_started_def toy_db_def draw_chunk_uuid_def)
    (simp add: transaction_def resolve_primary_source_def toy_defs toy_file_def)

definition toy_publish :: "(uuid \<times> document_entry) list \<Rightarrow> publish_result \<times> pub_db" where
  "toy_publish ds = publish_version (\<lambda>t. ''h'') (\<lambda>_. []) ''a'' toy_plan (toy_chunk ''ab'') (toy_chunk ''ab'') (toy_db ds)"

lemma toy_publish_transaction:
  "toy_publish ds = (case transaction (publication_transaction (\<lambda>t. ''h'') (\<lambda>_. []) ''a'' toy_plan toy_sentences 20 21 3) (toy_started ds) of
     (Inl e, s3) \<Rightarrow> (Publish_failed e, s3)
   | (Inr (Refuses q), s3) \<Rightarrow> (Refused (q_diagnostic q) (l_body_sha toy_plan) (q_back_sha q), s3)
   | (Inr (Publishes r), s3) \<Rightarrow> (Published r, s3))"
proof -
  have "toy_chunk ''ab'' \<noteq> []" by (simp add: toy_chunk_def)
  then show ?thesis by (simp add: toy_publish_def publish_version_def toy_sp toy_start del: tx_bind_iff)
qed

lemma toy_body_sha: "l_body_sha toy_plan = ''h''"
  by (simp add: toy_plan_def)

lemma toy_run:
  assumes "b_runs u = []" "map_of (b_sources u) 3 \<noteq> None" "n_run n = 20" "n_source n = 3" "n_back_sha n = ''h''"
    "n_status n = Succeeded \<and> n_outcome n = Match \<or> n_status n = Failed \<and> n_offset n \<noteq> None"
    "case n_document n of None \<Rightarrow> True | Some d \<Rightarrow> map_of (b_documents u) d \<noteq> None"
    "case n_chapter n of None \<Rightarrow> True | Some h \<Rightarrow> map_of (b_chapters u) h \<noteq> None"
  shows "\<exists>j. insert_processing_run (\<lambda>t. ''h'') ''a'' toy_plan n u = Inr ((), u\<lparr>b_runs := [j]\<rparr>) \<and> j_id j = 20 \<and> j_source j = 3"
proof -
  define j where "j = \<lparr>j_id = n_run n, j_source = n_source n, j_kind = run_kind (l_command toy_plan),
            j_actor = ''a'', j_status = n_status n,
            j_configuration = configuration_hash (\<lambda>t. ''h'') (l_command toy_plan) (normalization_parameters toy_plan),
            j_parameters = normalization_parameters toy_plan, j_source_sha = l_body_sha toy_plan,
            j_back_sha = n_back_sha n, j_outcome = n_outcome n, j_offset = n_offset n,
            j_span = n_span n, j_authorization = n_authorization n, j_policy = n_policy n,
            j_document = n_document n, j_chapter = n_chapter n, j_operation = 5\<rparr>"
  have "insert_processing_run (\<lambda>t. ''h'') ''a'' toy_plan n u =
      (if run_constraints u j then Inr ((), u\<lparr>b_runs := b_runs u @ [j]\<rparr>) else Inl Pub_constraint)"
    by (simp add: insert_processing_run_def Let_def tx_bind_def tx_lift_def toy_operation j_def)
  moreover have "run_constraints u j"
    using assms by (auto simp: run_constraints_def configuration_hash_def j_def toy_body_sha)
  moreover have "j_id j = 20" "j_source j = 3" using assms(3,4) by (simp_all add: j_def)
  ultimately show ?thesis using assms(1) by auto
qed

lemma toy_state:
  assumes "b_runs u = [j]" "j_id j = 20" "j_source j = 3" "map_of (b_sources u) 3 \<noteq> None" "db_rows (b_temporal u) = []"
    "map_of (db_registry (b_temporal u)) toy_document \<noteq> None"
  shows "\<exists>i t. append_source_state ''a'' toy_plan 20 3 h 21 m n u = Inr (i, t) \<and> cdb_configured (b_store t) = cdb_configured (b_store u)"
proof -
  have "l_document toy_plan = toy_document" by (simp add: toy_plan_def)
  then show ?thesis
    using assms toy_operation
    by (auto simp: append_source_state_def Let_def draw_chunk_uuid_def prior_state_def insert_row_def row_constraints_def
      half_open_def interval_of_def source_state_family_def)
qed

lemma toy_published: "\<exists>z s'. toy_publish [] = (Published z, s') \<and> cdb_configured (b_store s')"
proof -
  obtain g u where w: "write_rows (\<lambda>t. ''h'') toy_plan 3 21 toy_sentences (toy_started []) = Inr (g, u)"
    and u: "b_runs u = []" "map_of (b_sources u) 3 \<noteq> None" "map_of (b_documents u) toy_document \<noteq> None" "map_of (b_chapters u) 21 \<noteq> None"
    "db_rows (b_temporal u) = []" "map_of (db_registry (b_temporal u)) toy_document \<noteq> None"
    by (rule toy_rows [of "[]"]) simp
  have "\<not> soft_deleted (toy_started []) (l_document toy_plan)" "map_of (l_meta toy_plan) exact_key = None"
    by (simp_all add: soft_deleted_def toy_defs exact_key_def)
  moreover have "ordered_plan toy_sentences" "distinct (map (c_uuid \<circ> fst) (plan_rows toy_sentences))"
    "build_exact_pieces (l_text toy_plan) (map exact_input_of (map fst (plan_rows toy_sentences))) 0 None True =
      Inr (map snd (plan_rows toy_sentences))"
    by (simp_all add: ordered_plan_def toy_sentences_def plan_rows_def toy_chunk_def toy_plan_def toy_piece_def exact_input_of_def
      build_exact_pieces_def slice_def)
  ultimately have m: "measure_round_trip (\<lambda>t. ''h'') (\<lambda>_. []) toy_plan 21 g u = Inr (Matches ''h'' g, u)"
    using write_rows_match [OF w] by simp
  from w m have "write_hierarchy (\<lambda>t. ''h'') (\<lambda>_. []) toy_plan 3 21 toy_sentences (toy_started []) = Inr (Matches ''h'' g, u)"
    by (simp add: write_hierarchy_def)
  moreover
  let ?n = "\<lparr>n_run = 20, n_source = 3, n_chapter = Some 21, n_status = Succeeded, n_back_sha = ''h'', n_outcome = Match,
    n_offset = None, n_span = None, n_authorization = None, n_policy = None, n_document = Some (l_document toy_plan)\<rparr>"
  have "l_document toy_plan = toy_document" by (simp add: toy_plan_def)
  then have "\<exists>j. insert_processing_run (\<lambda>t. ''h'') ''a'' toy_plan ?n u = Inr ((), u\<lparr>b_runs := [j]\<rparr>) \<and> j_id j = 20 \<and> j_source j = 3"
    using u by (intro toy_run) simp_all
  then obtain j where j: "insert_processing_run (\<lambda>t. ''h'') ''a'' toy_plan ?n u = Inr ((), u\<lparr>b_runs := [j]\<rparr>)" "j_id j = 20" "j_source j = 3"
    by blast
  moreover obtain i t where "append_source_state ''a'' toy_plan 20 3 ''h'' 21 (length (g_paragraphs g)) (length (g_spans g)) (u\<lparr>b_runs := [j]\<rparr>) = Inr (i, t)"
    "cdb_configured (b_store t) = cdb_configured (b_store u)"
    using toy_state [of "u\<lparr>b_runs := [j]\<rparr>" j] j u by force
  moreover have "cdb_configured (b_store u)"
    using tx_keepsD [OF configured_rows w] by (simp add: configured_def toy_defs)
  ultimately have "\<exists>z s'. publication_transaction (\<lambda>t. ''h'') (\<lambda>_. []) ''a'' toy_plan toy_sentences 20 21 3 (toy_started []) = Inr (Publishes z, s') \<and> cdb_configured (b_store s')"
    by (auto simp: publication_transaction_def)
  then show ?thesis by (auto simp: toy_publish_transaction transaction_def)
qed


lemma toy_refused: "\<exists>d a b s'. toy_publish [(toy_document, toy_deleted)] = (Refused d a b, s')"
proof -
  let ?ds = "[(toy_document, toy_deleted)]"
  obtain g u where w: "write_rows (\<lambda>t. ''h'') toy_plan 3 21 toy_sentences (toy_started ?ds) = Inr (g, u)"
    by (rule toy_rows [of ?ds]) simp
  have plan: "l_document toy_plan = toy_document" "l_text toy_plan = ''ab''" by (simp_all add: toy_plan_def)
  have "soft_deleted (toy_started ?ds) (l_document toy_plan)" by (simp add: soft_deleted_def toy_defs toy_deleted_def)
  from removed_scope_written [OF w this] have "scope_text (\<lambda>_. []) toy_document u = Inr ([], u)"
    by (simp add: scope_text_def reconstructed_scope_text_def plan)
  moreover have "integrity_verdict ''ab'' [] = (Length_boundary, Some 0)" by code_simp
  moreover obtain span v where draw: "on_chunks draw_chunk_uuid u = Inr (span, v)" by (auto simp: draw_chunk_uuid_def)
  moreover obtain d where "build_integrity_diagnostic (\<lambda>t. ''h'') span ''ab'' [] Length_boundary (Some 0) (Some toy_document) (Some 21)
      (chunk_at_offset (g_spans g) (Some 0)) ''owner'' ''redact_pii'' 64 = Inr d"
    by (simp add: build_integrity_diagnostic_def Let_def)
  moreover define q where "q = \<lparr>q_diagnostic = d, q_outcome = Length_boundary, q_offset = Some 0, q_back_sha = ''h''\<rparr>"
  ultimately have m: "measure_round_trip (\<lambda>t. ''h'') (\<lambda>_. []) toy_plan 21 g u = Inr (Differs q, v)"
    by (simp add: measure_round_trip_def Let_def plan tx_bind_def tx_lift_def tx_return_def del: tx_bind_iff on_chunks_iff)
  have q: "q_outcome q = Length_boundary" "q_offset q = Some 0" "q_back_sha q = ''h''" by (simp_all add: q_def)
  define r where "r = rollback_to (toy_started ?ds) v"
  have r: "b_runs r = []" "map_of (b_sources r) 3 \<noteq> None" by (simp_all add: r_def rollback_to_def toy_defs)
  let ?d = "q_diagnostic q"
  let ?n = "\<lparr>n_run = 20, n_source = 3, n_chapter = None, n_status = Failed, n_back_sha = q_back_sha q,
    n_outcome = q_outcome q, n_offset = q_offset q, n_span = Some (sp_id ?d), n_authorization = Some (sp_authorization ?d),
    n_policy = Some (sp_policy ?d), n_document = None\<rparr>"
  have "\<exists>j. insert_processing_run (\<lambda>t. ''h'') ''a'' toy_plan ?n r = Inr ((), r\<lparr>b_runs := [j]\<rparr>) \<and> j_id j = 20 \<and> j_source j = 3"
    using r q by (intro toy_run) simp_all
  then obtain j where "insert_processing_run (\<lambda>t. ''h'') ''a'' toy_plan ?n r = Inr ((), r\<lparr>b_runs := [j]\<rparr>)" by blast
  then have "\<exists>t. write_refusal_evidence (\<lambda>t. ''h'') ''a'' toy_plan q 20 3 r = Inr ((), t)"
    by (auto simp: write_refusal_evidence_def Let_def tx_bind_def split: sum.splits)
  moreover have "write_hierarchy (\<lambda>t. ''h'') (\<lambda>_. []) toy_plan 3 21 toy_sentences (toy_started ?ds) = Inr (Differs q, v)"
    using w m by (simp add: write_hierarchy_def)
  ultimately have "\<exists>t. publication_transaction (\<lambda>t. ''h'') (\<lambda>_. []) ''a'' toy_plan toy_sentences 20 21 3 (toy_started ?ds) = Inr (Refuses q, t)"
    by (auto simp: publication_transaction_def r_def)
  then show ?thesis by (auto simp: toy_publish_transaction transaction_def)
qed

section \<open>The properties applied\<close>

theorem published_reconstructs_witness:
  "\<exists>z s' a. toy_publish [] = (Published z, s') \<and>
     reconstruct_source_file (\<lambda>t. ''h'') (\<lambda>_. []) 80 s' (document_selector (z_document z) (int (length (cdb_chunks (b_store s'))))) 0 = Inr a \<and>
     a_text a = ''ab'' \<and> \<not> a_truncated a"
proof -
  obtain z s' where p: "toy_publish [] = (Published z, s')" using toy_published by blast
  have "l_text toy_plan = ''ab''" "cdb_configured (b_store (toy_db []))" by (simp_all add: toy_plan_def toy_db_def)
  then show ?thesis
    using published_reconstructs [OF p [unfolded toy_publish_def] _ _ order_refl, of 80] p by auto
qed

lemma echo_sentences: "sentence_chunks_from_batch (chunk_batch (\<lambda>t. Some (echo_chunk t)) echo_batch no_options)
      (echo_result ''ab'') (uuid_str echo_uuid) = Inr (echo_result ''ab'')"
  by (simp add: sentence_chunks_from_batch_def chunk_batch_def client_params_def strategy_params_def
    no_options_def set_option_def wrapper_error_def echo_batch_def echo_result_def
    echo_validated [unfolded echo_result_def])

lemma toy_echo: "toy_chunk ''ab'' = echo_result ''ab''"
  by (simp add: toy_chunk_def echo_result_def)

theorem accepted_passes_published_witness:
  "\<exists>z. fst (publish_version (\<lambda>t. ''h'') (\<lambda>_. []) ''a'' toy_plan (echo_result ''ab'') (echo_result ''ab'') (toy_db [])) = Published z \<and>
     z_chunks z = [echo_uuid] \<and> length (z_paragraphs z) = 1"
proof -
  have source: "l_text toy_plan = ''ab''" by (simp add: toy_plan_def)
  have meta: "map_of (l_meta toy_plan) exact_key = None" by (simp add: toy_plan_def exact_key_def)
  have live: "\<not> soft_deleted (toy_db []) (l_document toy_plan)" by (simp add: soft_deleted_def toy_db_def)
  have ids: "map c_uuid (echo_result ''ab'') = [echo_uuid]" "length (echo_result ''ab'') = 1" by (simp_all add: echo_result_def)
  obtain z s' where p: "publish_version (\<lambda>t. ''h'') (\<lambda>_. []) ''a'' toy_plan (echo_result ''ab'') (echo_result ''ab'') (toy_db []) =
      (Published z, s')"
    using toy_published unfolding toy_publish_def toy_echo by blast
  have run: "chunk_text (\<lambda>t. Some (echo_chunk t)) echo_client no_options (l_text toy_plan) ''paragraph'' (uuid_str echo_uuid) =
      Inr (echo_result ''ab'')" by (simp add: source echo_run)
  have "distinct (map c_uuid (echo_result ''ab''))" by (simp add: ids)
  from accepted_passes_published [OF run echo_sentences this meta live,
      where sha = "\<lambda>t. ''h''" and render = "\<lambda>_. []" and actor = "''a''"] show ?thesis
    by (simp add: p ids)
qed

theorem refused_keeps_hierarchy_witness:
  "\<exists>d a b s' j. toy_publish [(toy_document, toy_deleted)] = (Refused d a b, s') \<and> b_runs s' = [j] \<and> j_status j = Failed \<and>
     j_span j = Some (sp_id d) \<and> b_documents s' = [(toy_document, toy_deleted)]"
proof -
  obtain d a b s' where p: "toy_publish [(toy_document, toy_deleted)] = (Refused d a b, s')" using toy_refused by blast
  from refused_keeps_hierarchy [OF p [unfolded toy_publish_def]] show ?thesis
    using p by (auto simp: toy_db_def)
qed

theorem republish_deleted_refused_witness: "\<forall>z. fst (toy_publish [(toy_document, toy_deleted)]) \<noteq> Published z"
proof
  fix z
  have "map_of (b_documents (toy_db [(toy_document, toy_deleted)])) (l_document toy_plan) = Some toy_deleted" "m_removed toy_deleted" "l_text toy_plan \<noteq> []"
    by (simp_all add: toy_db_def toy_plan_def toy_deleted_def)
  from republish_deleted_refused [OF this] show "fst (toy_publish [(toy_document, toy_deleted)]) \<noteq> Published z"
    unfolding toy_publish_def by blast
qed

theorem thirty_third_publication_fails_witness:
  "\<exists>z s'. toy_publish [] = (Published z, s') \<and> publications toy_document (toy_db []) 1 s' \<and>
     Max (set (chapter_orders (b_chapters s') toy_document)) = 0"
proof -
  obtain z s' where p: "toy_publish [] = (Published z, s')" using toy_published by blast
  have d: "l_document toy_plan = toy_document" by (simp add: toy_plan_def)
  have one: "publications toy_document (toy_db []) 1 s'"
    using publications.published [OF publications.start d p [unfolded toy_publish_def]] by simp
  have "chapters_of toy_document (toy_db []) = []" by (simp add: chapters_of_def toy_db_def toy_chapter_def)
  from thirty_third_publication_fails [OF one this] p one show ?thesis by simp
qed

section \<open>A stored document with two chunks\<close>

definition pair_text :: "string \<Rightarrow> exact_piece \<Rightarrow> text_row" where
  "pair_text t p = \<lparr>t_text = t, t_sha = t, t_chars = 1, t_meta = merge_piece_metadata [] p\<rparr>"

definition pair_chunk :: "int \<Rightarrow> chunk_row" where
  "pair_chunk n = \<lparr>k_document = 1, k_paragraph = Some 22, k_text = [], k_chars = 1, k_start = Some n, k_end = Some (n + 1),
     k_order = Some n, k_status = None, k_category = None, k_meta = []\<rparr>"

definition pair_store :: pub_db where
  "pair_store = \<lparr>b_store = \<lparr>cdb_configured = True, cdb_versions = [], cdb_current = [], cdb_texts = [], cdb_chunks = [],
      cdb_assignments = (\<lambda>_. []), cdb_derived = (\<lambda>_. []), cdb_embeddings = [], cdb_documents = [], cdb_files = [],
      cdb_dictionaries = (\<lambda>_. []), cdb_clock = 10, cdb_uuids = (\<lambda>n. word_of_nat (n + 20)), cdb_drawn = 0\<rparr>,
    b_temporal = \<lparr>db_configured = True, db_rows = [], db_registry = [], db_parents = (\<lambda>_ _. []), db_project_meta = [],
      db_payloads = (), db_clock = 10, db_uuids = (\<lambda>n. word_of_nat (n + 90)), db_drawn = 0\<rparr>,
    b_places = [], b_paragraphs = [], b_chapters = [], b_documents = [], b_files = [], b_sources = [], b_runs = [],
    b_spans = [], b_states = []\<rparr>"

definition pair_document :: document_entry where
  "pair_document = \<lparr>m_upload = 1, m_version = 1, m_path = None, m_name = None, m_content_sha = [], m_body_sha = [],
     m_title = [], m_attempt = 1, m_trace = 5, m_created = 0, m_updated = 0, m_meta = [], m_removed = False, m_removed_at = None\<rparr>"

definition pair_db :: pub_db where
  "pair_db = pair_store\<lparr>
     b_store := (b_store pair_store)\<lparr>
       cdb_chunks := [(7, pair_chunk 0), (8, pair_chunk 1)],
       cdb_texts := [(7, pair_text ''a'' \<lparr>gap_before = [], source_text = None, suffix_after = None\<rparr>),
         (8, pair_text ''b'' \<lparr>gap_before = [], source_text = None, suffix_after = Some ''.''\<rparr>)]\<rparr>,
     b_places := map (\<lambda>c. (c, \<lparr>s_chapter = 21, s_removed = False, s_removed_at = None\<rparr>)) [7, 8],
     b_paragraphs := [(22, \<lparr>y_document = 1, y_chapter = 21, y_order = 0, y_text = [], y_start = 0, y_end = 2, y_meta = [],
       y_removed = False, y_removed_at = None\<rparr>)],
     b_chapters := [(21, \<lparr>h_document = 1, h_order = 0, h_heading = [], h_end = 2, h_meta = [], h_removed = False, h_removed_at = None\<rparr>)],
     b_documents := [(1, pair_document)]\<rparr>"

lemma pair_rows:
  "case select_exact_pieces (document_scope (\<lambda>_. []) pair_db 1) of
     Inl _ \<Rightarrow> False
   | Inr pieces \<Rightarrow> pieces \<noteq> [] \<and> length (document_scope (\<lambda>_. []) pair_db 1) = 2 \<and>
       r_chunk (hd (document_scope (\<lambda>_. []) pair_db 1)) = uuid_str 7"
  by code_simp

lemma pair_update:
  "case update_text id (uuid_str 7) (Some ''c'') None None None None (b_store pair_db) of
     Inl _ \<Rightarrow> False | Inr ((c, out, r), st) \<Rightarrow> c = 7 \<and> out = Appended"
  by code_simp

theorem versioned_edit_breaks_reading_witness:
  "\<exists>r st. update_text id (uuid_str 7) (Some ''c'') None None None None (b_store pair_db) = Inr ((7, Appended, r), st) \<and>
     reconstructed_scope_text (document_scope (\<lambda>_. []) (pair_db\<lparr>b_store := st\<rparr>) 1) = Inl Mixed_metadata"
proof -
  from pair_update obtain r st where
    u: "update_text id (uuid_str 7) (Some ''c'') None None None None (b_store pair_db) = Inr ((7, Appended, r), st)"
    by (auto split: sum.splits prod.splits)
  from pair_rows obtain pieces where p: "select_exact_pieces (document_scope (\<lambda>_. []) pair_db 1) = Inr pieces" "pieces \<noteq> []"
    and l: "length (document_scope (\<lambda>_. []) pair_db 1) = 2" "r_chunk (hd (document_scope (\<lambda>_. []) pair_db 1)) = uuid_str 7"
    by (auto split: sum.splits)
  from l(1) have "1 < length (document_scope (\<lambda>_. []) pair_db 1)" by simp
  moreover from l have "uuid_str 7 \<in> r_chunk ` set (document_scope (\<lambda>_. []) pair_db 1)"
    by (cases "document_scope (\<lambda>_. []) pair_db 1") auto
  moreover have "list_all (\<lambda>(i, k). map_of (k_meta k) exact_key = None) (cdb_chunks (b_store pair_db))"
    by (simp add: pair_db_def pair_chunk_def)
  ultimately show ?thesis using versioned_edit_breaks_reading [OF u p] u by blast
qed

theorem short_page_refused_witness:
  "reconstruct_source_file id (\<lambda>_. []) 80 pair_db (document_selector 1 1) 0 = Inl (Assembly (Metadata Suffix_count))"
proof -
  from pair_rows obtain pieces where p: "select_exact_pieces (document_scope (\<lambda>_. []) pair_db 1) = Inr pieces" "pieces \<noteq> []"
    and l: "length (document_scope (\<lambda>_. []) pair_db 1) = 2"
    by (auto split: sum.splits)
  have db: "cdb_configured (b_store pair_db)" "int (length (cdb_chunks (b_store pair_db))) \<le> 2"
    by (simp_all add: pair_db_def pair_store_def)
  have "reconstructed_scope_text (document_scope (\<lambda>_. []) pair_db 1) = Inr ''ab.''" by code_simp
  from reconstruct_document [OF db _ this, of id 80] obtain a where
    "reconstruct_source_file id (\<lambda>_. []) 80 pair_db (document_selector 1 2) 0 = Inr a" by auto
  moreover have "select_rows (\<lambda>_. []) pair_db ((document_selector 1 2)\<lparr>x_chapter := None\<rparr>) =
      Inr (document_scope (\<lambda>_. []) pair_db 1)"
    using select_document_rows [OF db, of "\<lambda>_. []" 1] by (simp add: document_selector_def)
  moreover have "(document_selector 1 2)\<lparr>x_limit := int 1\<rparr> = document_selector 1 1" "x_offset (document_selector 1 2) = 0"
    by (simp_all add: document_selector_def)
  ultimately show ?thesis using short_page_refused [OF _ _ _ p, of id "\<lambda>_. []" 80 pair_db "document_selector 1 2" 0 _ 1] l by simp
qed

end
