(* ===== verification/Entity_Graph.thy ===== *)
theory Entity_Graph
  imports Py_Json Effective_Interval
begin

text \<open>
  The addressable entities and the walks over them that decide what a deletion takes in
  (\<open>runtime/entity_lifecycle.py\<close>): the table names, the rows with their references, the closure of a
  set of entities under ownership and containment, and the references into such a set from outside.
  \<open>render\<close> is the database's text of a JSON array or object.
\<close>

section \<open>Tables and rows\<close>

datatype etable =
    Chunk_types | Chunk_roles | Chunk_statuses | Block_types | Languages | Categories
  | Projects | Files | Documents | Chapters | Paragraphs | Semantic_chunks

fun table_name :: "etable \<Rightarrow> string" where
  "table_name Chunk_types = ''chunk_types''"
| "table_name Chunk_roles = ''chunk_roles''"
| "table_name Chunk_statuses = ''chunk_statuses''"
| "table_name Block_types = ''block_types''"
| "table_name Languages = ''languages''"
| "table_name Categories = ''categories''"
| "table_name Projects = ''projects''"
| "table_name Files = ''files''"
| "table_name Documents = ''documents''"
| "table_name Chapters = ''chapters''"
| "table_name Paragraphs = ''paragraphs''"
| "table_name Semantic_chunks = ''semantic_chunks''"

definition entity_tables :: "(string \<times> etable) list" where
  "entity_tables =
     [(''block_type'', Block_types), (''block_types'', Block_types),
      (''category'', Categories), (''categories'', Categories),
      (''chunk_role'', Chunk_roles), (''chunk_roles'', Chunk_roles),
      (''chunk_status'', Chunk_statuses), (''chunk_statuses'', Chunk_statuses),
      (''chunk_type'', Chunk_types), (''chunk_types'', Chunk_types),
      (''document'', Documents), (''documents'', Documents), (''file'', Files), (''files'', Files),
      (''language'', Languages), (''languages'', Languages),
      (''chapter'', Chapters), (''chapters'', Chapters),
      (''paragraph'', Paragraphs), (''paragraphs'', Paragraphs),
      (''chunk'', Semantic_chunks), (''chunks'', Semantic_chunks),
      (''semantic_chunk'', Semantic_chunks), (''semantic_chunks'', Semantic_chunks),
      (''project'', Projects), (''projects'', Projects)]"

definition owner_tables :: "etable list" where
  "owner_tables = dict_fromkeys (map snd entity_tables)"

definition dictionary_reference_columns :: "etable list" where
  "dictionary_reference_columns =
     [Chunk_types, Chunk_roles, Chunk_statuses, Block_types, Languages, Categories]"

fun reference_column :: "etable \<Rightarrow> string" where
  "reference_column Chunk_types = ''chunk_type_id''"
| "reference_column Chunk_roles = ''role_id''"
| "reference_column Chunk_statuses = ''status_id''"
| "reference_column Block_types = ''block_type_id''"
| "reference_column Languages = ''language_id''"
| "reference_column Categories = ''category_id''"
| "reference_column _ = ''''"

datatype entity_error =
    Unsupported_entity_type string | Unsupported_operation etable | Unknown_fields "string list"
  | Missing_fields "string list" | Unknown_filter string | Bad_uuid | Empty_ids | Empty_values
  | Bad_values | Bad_page | Bad_depth | Owner_unregistered uuid | Entity_missing
  | Wrong_table etable | Deletion_unsafe | Entity_constraint

definition entity_table :: "string \<Rightarrow> (entity_error, etable) result" where
  "entity_table entity_type =
     (case map_of entity_tables (py_lower (py_strip entity_type)) of
        Some t \<Rightarrow> Inr t | None \<Rightarrow> Inl (Unsupported_entity_type entity_type))"

text \<open>
  A row: the references to other rows, the deletion marker, and the remaining columns by name.
  \<open>g_dictionary\<close> lists the dictionary columns of a chunk that are set, \<open>g_meta\<close> is \<open>block_meta\<close>.
\<close>

record entity_row =
  g_owner :: "uuid option"
  g_document :: "uuid option"
  g_chapter :: "uuid option"
  g_paragraph :: "uuid option"
  g_dictionary :: "(etable \<times> uuid) list"
  g_meta :: json_dict
  g_deleted :: bool
  g_deleted_at :: "instant option"
  g_columns :: json_dict

type_synonym entity_key = "etable \<times> uuid"

text \<open>
  \<open>ent_texts\<close> is \<open>semantic_chunk_texts\<close> (chunk and text), \<open>ent_links\<close> is \<open>semantic_chunk_links\<close> (source and target), \<open>ent_assignments\<close> the six assignment
  tables (dictionary table, dictionary row, chunk), \<open>ent_registry\<close> is \<open>entity_uuid_registry\<close>.
\<close>

record edb =
  ent_rows :: "(entity_key \<times> entity_row) list"
  ent_texts :: "(uuid \<times> string) list"
  ent_links :: "(uuid \<times> uuid) list"
  ent_assignments :: "(etable \<times> uuid \<times> uuid) list"
  ent_registry :: "(uuid \<times> string) list"
  ent_clock :: instant

type_synonym 'a entity_tx = "(edb, entity_error, 'a) tx"

text \<open>\<open>SELECT id FROM t WHERE column = i\<close>\<close>

definition select_ids :: "edb \<Rightarrow> etable \<Rightarrow> (entity_row \<Rightarrow> bool) \<Rightarrow> uuid list" where
  "select_ids s t P = map (snd \<circ> fst) (filter (\<lambda>(k, r). fst k = t \<and> P r) (ent_rows s))"

lemma select_ids_iff: "i \<in> set (select_ids s t P) \<longleftrightarrow> (\<exists>r. ((t, i), r) \<in> set (ent_rows s) \<and> P r)"
  by (force simp: select_ids_def)

section \<open>What a deletion takes in\<close>

text \<open>\<open>_add_owner_children\<close>, \<open>_add_children\<close> and \<open>_add_project_documents\<close>: the keys found.\<close>

definition owner_children_keys :: "edb \<Rightarrow> uuid \<Rightarrow> entity_key list" where
  "owner_children_keys s i =
     concat (map (\<lambda>t. map (Pair t) (select_ids s t (\<lambda>r. g_owner r = Some i))) owner_tables)"

definition child_keys :: "edb \<Rightarrow> etable \<Rightarrow> (entity_row \<Rightarrow> uuid option) \<Rightarrow> uuid \<Rightarrow> entity_key list" where
  "child_keys s t column i = map (Pair t) (select_ids s t (\<lambda>r. column r = Some i))"

definition project_name :: "edb \<Rightarrow> uuid \<Rightarrow> string option" where
  "project_name s i = (case map_of (ent_rows s) (Projects, i) of
     None \<Rightarrow> None | Some r \<Rightarrow> Some (json_str (json_get (g_columns r) ''name'')))"

definition names_project :: "(json \<Rightarrow> string) \<Rightarrow> uuid \<Rightarrow> string \<Rightarrow> entity_row \<Rightarrow> bool" where
  "names_project render i name r \<longleftrightarrow>
     json_field render (g_meta r) ''project_id'' = Some (uuid_str i) \<or>
     json_field render (g_meta r) ''project'' = Some name"

definition project_document_keys :: "(json \<Rightarrow> string) \<Rightarrow> edb \<Rightarrow> uuid \<Rightarrow> entity_key list" where
  "project_document_keys render s i = (case project_name s i of
       None \<Rightarrow> []
     | Some name \<Rightarrow> map (Pair Documents) (select_ids s Documents (names_project render i name)))"

fun taken_in :: "(json \<Rightarrow> string) \<Rightarrow> edb \<Rightarrow> entity_key \<Rightarrow> entity_key list" where
  "taken_in render s (Projects, i) = owner_children_keys s i @ project_document_keys render s i"
| "taken_in render s (Files, i) = owner_children_keys s i"
| "taken_in render s (Documents, i) =
     owner_children_keys s i @ child_keys s Chapters g_document i @
     child_keys s Paragraphs g_document i @ child_keys s Semantic_chunks g_document i"
| "taken_in render s (Chapters, i) =
     child_keys s Paragraphs g_chapter i @ child_keys s Semantic_chunks g_chapter i"
| "taken_in render s (Paragraphs, i) = child_keys s Semantic_chunks g_paragraph i"
| "taken_in render s _ = []"

text \<open>
  \<open>_closure\<close>: every round adds what the members of the set at its start take in, until nothing is
  added. \<open>refs\<close> is the set as the list of its members in the order they came in.
\<close>

definition newly_taken :: "(json \<Rightarrow> string) \<Rightarrow> edb \<Rightarrow> entity_key list \<Rightarrow> entity_key list" where
  "newly_taken render s refs =
     filter (\<lambda>k. \<not> List.member refs k) (dict_fromkeys (concat (map (taken_in render s) refs)))"

lemma set_newly_taken: "set (newly_taken render s refs) = (\<Union>k\<in>set refs. set (taken_in render s k)) - set refs"
  by (auto simp: newly_taken_def)

lemma taken_in_rows: "set (taken_in render s k) \<subseteq> fst ` set (ent_rows s)"
  by (cases "(render, s, k)" rule: taken_in.cases)
    (force simp: owner_children_keys_def child_keys_def project_document_keys_def select_ids_iff
       split: option.splits)+

function closure :: "(json \<Rightarrow> string) \<Rightarrow> edb \<Rightarrow> entity_key list \<Rightarrow> entity_key list" where
  "closure render s refs = (let added = newly_taken render s refs in
     if added = [] then refs else closure render s (refs @ added))"
  by auto
termination
proof (relation "measure (\<lambda>(render, s, refs). card (fst ` set (ent_rows s) - set refs))", goal_cases)
  case 1
  show ?case by simp
next
  case (2 render s refs added)
  then have sub: "set added \<subseteq> fst ` set (ent_rows s) - set refs"
    using taken_in_rows by (fastforce simp: set_newly_taken)
  obtain k where "k \<in> set added" using 2 by (meson last_in_set)
  with sub have "fst ` set (ent_rows s) - set (refs @ added) \<subset> fst ` set (ent_rows s) - set refs"
    by (intro psubsetI) auto
  then show ?case by (simp add: psubset_card_mono)
qed

declare closure.simps [simp del]

definition taken_rel :: "(json \<Rightarrow> string) \<Rightarrow> edb \<Rightarrow> entity_key rel" where
  "taken_rel render s = {(k, l). l \<in> set (taken_in render s k)}"

lemma rtrancl_Image_extend: "B \<subseteq> R\<^sup>* `` A \<Longrightarrow> R\<^sup>* `` (A \<union> B) \<subseteq> R\<^sup>* `` A"
proof
  fix y
  assume "B \<subseteq> R\<^sup>* `` A" "y \<in> R\<^sup>* `` (A \<union> B)"
  then obtain x where x: "x \<in> R\<^sup>* `` A" "(x, y) \<in> R\<^sup>*" by blast
  then show "y \<in> R\<^sup>* `` A" by (meson ImageE ImageI rtrancl_trans)
qed

lemma closure_extends: "set refs \<subseteq> set (closure render s refs)"
proof (induction render s refs rule: closure.induct)
  case (1 render s refs)
  show ?case
  proof (cases "newly_taken render s refs = []")
    case False
    then have "set (refs @ newly_taken render s refs) \<subseteq> set (closure render s refs)"
      using 1 [OF refl False] by (subst closure.simps) (simp add: Let_def)
    then show ?thesis by simp
  qed (subst closure.simps, simp)
qed

lemma closure_closed: "k \<in> set (closure render s refs) \<Longrightarrow> set (taken_in render s k) \<subseteq> set (closure render s refs)"
proof (induction render s refs rule: closure.induct)
  case (1 render s refs)
  show ?case
  proof (cases "newly_taken render s refs = []")
    case True
    then have "(\<Union>k\<in>set refs. set (taken_in render s k)) \<subseteq> set refs"
      using set_newly_taken [of render s refs] by auto
    with True 1(2) show ?thesis by (subst closure.simps, subst (asm) closure.simps) (auto simp: Let_def)
  next
    case False
    then have "closure render s refs = closure render s (refs @ newly_taken render s refs)"
      by (subst closure.simps) (simp add: Let_def)
    with 1(1) [OF refl False] 1(2) show ?thesis by simp
  qed
qed

lemma closure_sound: "set (closure render s refs) \<subseteq> (taken_rel render s)\<^sup>* `` set refs"
proof (induction render s refs rule: closure.induct)
  case (1 render s refs)
  show ?case
  proof (cases "newly_taken render s refs = []")
    case True
    then show ?thesis by (subst closure.simps) auto
  next
    case False
    have "set (newly_taken render s refs) \<subseteq> taken_rel render s `` set refs"
      by (auto simp: set_newly_taken taken_rel_def)
    also have "\<dots> \<subseteq> (taken_rel render s)\<^sup>* `` set refs" by (rule Image_mono) auto
    finally have "(taken_rel render s)\<^sup>* `` set (refs @ newly_taken render s refs) \<subseteq> (taken_rel render s)\<^sup>* `` set refs"
      by (simp only: set_append rtrancl_Image_extend)
    moreover have "closure render s refs = closure render s (refs @ newly_taken render s refs)"
      using False by (subst closure.simps) (simp add: Let_def)
    ultimately show ?thesis using 1 [OF refl False] by (simp only:)
  qed
qed

lemma closure_reachable: "set (closure render s refs) = (taken_rel render s)\<^sup>* `` set refs"
proof
  show "set (closure render s refs) \<subseteq> (taken_rel render s)\<^sup>* `` set refs" by (rule closure_sound)
next
  have "l \<in> set (closure render s refs)" if "(k, l) \<in> (taken_rel render s)\<^sup>*" "k \<in> set refs" for k l
    using that
  proof (induction rule: rtrancl_induct)
    case base
    then show ?case using closure_extends by blast
  next
    case (step y z)
    then show ?case using closure_closed [of y render s refs] by (auto simp: taken_rel_def)
  qed
  then show "(taken_rel render s)\<^sup>* `` set refs \<subseteq> set (closure render s refs)" by blast
qed

section \<open>References from outside\<close>

record reference =
  r_table :: string
  r_id :: uuid
  r_column :: string
  r_to_table :: "string option"
  r_to_id :: uuid

definition outside :: "entity_key list \<Rightarrow> etable \<Rightarrow> uuid list \<Rightarrow> uuid list" where
  "outside refs t is = filter (\<lambda>i. \<not> List.member refs (t, i)) is"

text \<open>\<open>_external_owner_rows\<close>, \<open>_external_fk_rows\<close> and \<open>_external_project_rows\<close>\<close>

definition external_owner_rows :: "edb \<Rightarrow> uuid \<Rightarrow> entity_key list \<Rightarrow> reference list" where
  "external_owner_rows s i refs = concat (map (\<lambda>t.
     map (\<lambda>j. \<lparr>r_table = table_name t, r_id = j, r_column = ''owner_id'', r_to_table = None, r_to_id = i\<rparr>)
       (outside refs t (select_ids s t (\<lambda>r. g_owner r = Some i)))) owner_tables)"

definition external_fk_rows ::
  "edb \<Rightarrow> etable \<Rightarrow> string \<Rightarrow> (entity_row \<Rightarrow> bool) \<Rightarrow> uuid \<Rightarrow> entity_key list \<Rightarrow> string option \<Rightarrow> reference list" where
  "external_fk_rows s t column refers i refs to_table =
     map (\<lambda>j. \<lparr>r_table = table_name t, r_id = j, r_column = column, r_to_table = to_table, r_to_id = i\<rparr>)
       (outside refs t (select_ids s t refers))"

definition external_project_rows ::
  "(json \<Rightarrow> string) \<Rightarrow> edb \<Rightarrow> uuid \<Rightarrow> string \<Rightarrow> entity_key list \<Rightarrow> reference list" where
  "external_project_rows render s i name refs =
     map (\<lambda>j. \<lparr>r_table = ''documents'', r_id = j, r_column = ''block_meta.project_id'',
               r_to_table = Some ''projects'', r_to_id = i\<rparr>)
       (outside refs Documents (select_ids s Documents (names_project render i name)))"

definition external_links :: "edb \<Rightarrow> uuid \<Rightarrow> entity_key list \<Rightarrow> reference list" where
  "external_links s i refs =
     map (\<lambda>j. \<lparr>r_table = ''semantic_chunk_links'', r_id = j, r_column = ''target_chunk_uuid'',
               r_to_table = Some ''semantic_chunks'', r_to_id = i\<rparr>)
       (outside refs Semantic_chunks (map fst (filter (\<lambda>(source, target). target = i) (ent_links s))))"

fun references_of :: "(json \<Rightarrow> string) \<Rightarrow> edb \<Rightarrow> entity_key list \<Rightarrow> entity_key \<Rightarrow> reference list" where
  "references_of render s refs (Projects, i) = external_owner_rows s i refs @
     (case project_name s i of None \<Rightarrow> [] | Some name \<Rightarrow> external_project_rows render s i name refs)"
| "references_of render s refs (Documents, i) = external_owner_rows s i refs @
     external_fk_rows s Chapters ''document_id'' (\<lambda>r. g_document r = Some i) i refs None @
     external_fk_rows s Paragraphs ''document_id'' (\<lambda>r. g_document r = Some i) i refs None @
     external_fk_rows s Semantic_chunks ''document_id'' (\<lambda>r. g_document r = Some i) i refs None"
| "references_of render s refs (Files, i) = external_owner_rows s i refs"
| "references_of render s refs (Chapters, i) =
     external_fk_rows s Paragraphs ''chapter_id'' (\<lambda>r. g_chapter r = Some i) i refs None @
     external_fk_rows s Semantic_chunks ''chapter_id'' (\<lambda>r. g_chapter r = Some i) i refs None"
| "references_of render s refs (Paragraphs, i) =
     external_fk_rows s Semantic_chunks ''paragraph_id'' (\<lambda>r. g_paragraph r = Some i) i refs None"
| "references_of render s refs (Semantic_chunks, i) = external_links s i refs"
| "references_of render s refs (t, i) =
     external_fk_rows s Semantic_chunks (reference_column t) (\<lambda>r. (t, i) \<in> set (g_dictionary r)) i refs
       (Some (table_name t))"

text \<open>\<open>references_to\<close> asks the tables in this order, of each the members of \<open>refs\<close>.\<close>

definition asked_tables :: "etable list" where
  "asked_tables = [Projects, Documents, Files, Chapters, Paragraphs, Semantic_chunks] @
     dictionary_reference_columns"

definition references_to :: "(json \<Rightarrow> string) \<Rightarrow> edb \<Rightarrow> entity_key list \<Rightarrow> reference list" where
  "references_to render s refs = concat (map (\<lambda>t.
     concat (map (references_of render s refs) (filter (\<lambda>k. fst k = t) refs))) asked_tables)"

lemma asked_all: "t \<in> set asked_tables"
  by (cases t) (simp_all add: asked_tables_def dictionary_reference_columns_def)

lemma references_to_empty:
  "references_to render s refs = [] \<longleftrightarrow> (\<forall>k\<in>set refs. references_of render s refs k = [])"
  using asked_all by (fastforce simp: references_to_def)

end
