(* ===== verification/Entity_Service.thy ===== *)
theory Entity_Service
  imports Entity_Graph
begin

text \<open>
  The operations of \<open>EntityLifecycleService\<close> that delete, restore, rebind and browse entities
  (\<open>runtime/entity_lifecycle.py\<close>). A statement that violates a foreign key raises
  \<open>Entity_constraint\<close>. \<open>render\<close> is the database's text of a JSON array or object, \<open>ordered\<close> its
  \<open>ORDER BY\<close> of a table's rows (it depends on the collation of the database), \<open>limit\<close> what
  \<open>preview_chars()\<close> read.
\<close>

section \<open>Arguments\<close>

definition parse_ids :: "string list \<Rightarrow> (entity_error, uuid list) result" where
  "parse_ids ids = map_result (\<lambda>i. case uuid_of_string i of Some u \<Rightarrow> Inr u | None \<Rightarrow> Inl Bad_uuid) ids"

definition roots_for :: "etable \<Rightarrow> string list \<Rightarrow> entity_key list entity_tx" where
  "roots_for t ids = tx_bind (tx_lift (parse_ids ids)) (\<lambda>us.
     if t \<noteq> Projects then tx_return (map (Pair t) us)
     else tx_read (\<lambda>s. map (Pair Projects) (filter (List.member us) (select_ids s Projects (\<lambda>r. True)))))"

section \<open>Deleting rows\<close>

text \<open>
  \<open>DELETE FROM t WHERE id = ANY(ids)\<close>: the foreign keys of the hierarchy cascade (a chapter to its
  document, a paragraph to its document and chapter, a chunk to its document, chapter and paragraph;
  three rounds reach everything below a document), as do the texts, links and assignments of a
  deleted chunk; a dictionary row that is still referenced refuses; a trigger takes the deleted rows
  off the registry.
\<close>

definition refers_to :: "entity_key list \<Rightarrow> entity_row \<Rightarrow> bool" where
  "refers_to ks r \<longleftrightarrow>
     (\<exists>(t, i)\<in>set ks. t = Documents \<and> g_document r = Some i \<or> t = Chapters \<and> g_chapter r = Some i \<or>
        t = Paragraphs \<and> g_paragraph r = Some i)"

definition cascade :: "edb \<Rightarrow> entity_key list \<Rightarrow> entity_key list" where
  "cascade s ks = ks @ map fst (filter (\<lambda>(k, r). refers_to ks r) (ent_rows s))"

definition cascaded :: "edb \<Rightarrow> entity_key list \<Rightarrow> entity_key list" where
  "cascaded s ks = cascade s (cascade s (cascade s ks))"

definition without_rows :: "entity_key list \<Rightarrow> edb \<Rightarrow> edb" where
  "without_rows gone s = s\<lparr>
     ent_rows := filter (\<lambda>(k, r). \<not> List.member gone k) (ent_rows s),
     ent_texts := filter (\<lambda>(c, t). \<not> List.member gone (Semantic_chunks, c)) (ent_texts s),
     ent_links := filter (\<lambda>(a, b). \<not> List.member gone (Semantic_chunks, a)) (ent_links s),
     ent_assignments := filter (\<lambda>(t, d, c). \<not> List.member gone (Semantic_chunks, c)) (ent_assignments s),
     ent_registry := filter (\<lambda>(i, n). \<not> List.member (map (\<lambda>(t, i). (i, table_name t)) gone) (i, n))
       (ent_registry s)\<rparr>"

definition dictionary_kept :: "entity_key list \<Rightarrow> edb \<Rightarrow> bool" where
  "dictionary_kept ks s \<longleftrightarrow>
     list_all (\<lambda>(k, r). list_all (\<lambda>d. \<not> List.member ks d) (g_dictionary r)) (ent_rows s) \<and>
     list_all (\<lambda>(t, d, c). \<not> List.member ks (t, d)) (ent_assignments s)"

definition delete_rows :: "entity_key list \<Rightarrow> nat entity_tx" where
  "delete_rows ks = (\<lambda>s.
     let gone = cascaded s (filter (\<lambda>k. List.member (map fst (ent_rows s)) k) ks);
         s' = without_rows gone s
     in if dictionary_kept gone s'
        then Inr (length (filter (\<lambda>(k, r). List.member ks k) (ent_rows s)), s')
        else Inl Entity_constraint)"

text \<open>\<open>_delete_closure\<close>\<close>

definition delete_links :: "uuid list \<Rightarrow> nat entity_tx" where
  "delete_links cs = (\<lambda>s. let hit = (\<lambda>(a, b). List.member cs a \<or> List.member cs b) in
     Inr (length (filter hit (ent_links s)), s\<lparr>ent_links := filter (Not \<circ> hit) (ent_links s)\<rparr>))"

definition delete_order :: "etable list" where
  "delete_order = [Semantic_chunks, Paragraphs, Chapters, Documents, Files, Projects, Categories,
     Languages, Block_types, Chunk_statuses, Chunk_roles, Chunk_types]"

definition of_table :: "etable \<Rightarrow> entity_key list \<Rightarrow> entity_key list" where
  "of_table t refs = filter (\<lambda>k. fst k = t) refs"

definition delete_table :: "entity_key list \<Rightarrow> etable \<Rightarrow> (string \<times> nat) list entity_tx" where
  "delete_table refs t =
     (if of_table t refs = [] then tx_return []
      else tx_bind (delete_rows (of_table t refs)) (\<lambda>n. tx_return [(table_name t, n)]))"

definition delete_closure :: "entity_key list \<Rightarrow> (string \<times> nat) list entity_tx" where
  "delete_closure refs =
     tx_bind (if of_table Semantic_chunks refs = [] then tx_return 0
              else delete_links (map snd (of_table Semantic_chunks refs))) (\<lambda>links.
     tx_bind (tx_map (delete_table refs) delete_order) (\<lambda>counts.
     tx_return ((if links = 0 then [] else [(''semantic_chunk_links'', links)]) @ concat counts)))"

text \<open>\<open>_set_deleted\<close>\<close>

definition marked :: "bool \<Rightarrow> instant \<Rightarrow> entity_row \<Rightarrow> entity_row" where
  "marked deleted now r = r\<lparr>g_deleted := deleted, g_deleted_at := (if deleted then Some now else None)\<rparr>"

definition mark_rows :: "bool \<Rightarrow> entity_key list \<Rightarrow> edb \<Rightarrow> edb" where
  "mark_rows deleted refs s = s\<lparr>ent_rows :=
     map (\<lambda>(k, r). (k, if List.member refs k then marked deleted (ent_clock s) r else r)) (ent_rows s)\<rparr>"

definition set_deleted :: "entity_key list \<Rightarrow> bool \<Rightarrow> (string \<times> nat) list entity_tx" where
  "set_deleted refs deleted =
     tx_bind (tx_write (mark_rows deleted refs)) (\<lambda>_.
     tx_read (\<lambda>s. map (\<lambda>t. (table_name t,
       length (filter (\<lambda>(k, r). fst k = t \<and> List.member refs k) (ent_rows s)))) (dict_fromkeys (map fst refs))))"

section \<open>Deletion, restoration and references\<close>

text \<open>\<open>hard_delete\<close>, \<open>soft_delete\<close> and \<open>undelete\<close>, each within one transaction.\<close>

definition hard_delete ::
  "(json \<Rightarrow> string) \<Rightarrow> string \<Rightarrow> string list \<Rightarrow> (string \<times> nat) list entity_tx" where
  "hard_delete render entity_type ids =
     tx_bind (tx_lift (entity_table entity_type)) (\<lambda>t.
     tx_bind (roots_for t ids) (\<lambda>roots.
     if roots = [] then tx_return []
     else
       tx_bind (tx_read (\<lambda>s. closure render s (dict_fromkeys roots))) (\<lambda>refs.
       tx_bind (tx_read (\<lambda>s. references_to render s refs)) (\<lambda>blockers.
       if blockers \<noteq> [] then tx_raise Deletion_unsafe else delete_closure refs))))"

definition mark_deleted ::
  "(json \<Rightarrow> string) \<Rightarrow> bool \<Rightarrow> string \<Rightarrow> string list \<Rightarrow> (string \<times> nat) list entity_tx" where
  "mark_deleted render deleted entity_type ids =
     tx_bind (tx_lift (entity_table entity_type)) (\<lambda>t.
     tx_bind (roots_for t ids) (\<lambda>roots.
     if roots = [] then tx_return []
     else
       tx_bind (tx_read (\<lambda>s. closure render s (dict_fromkeys roots))) (\<lambda>refs.
       set_deleted refs deleted)))"

definition soft_delete_entities ::
  "(json \<Rightarrow> string) \<Rightarrow> string \<Rightarrow> string list \<Rightarrow> (string \<times> nat) list entity_tx" where
  "soft_delete_entities render entity_type ids = mark_deleted render True entity_type ids"

definition undelete_entities ::
  "(json \<Rightarrow> string) \<Rightarrow> string \<Rightarrow> string list \<Rightarrow> (string \<times> nat) list entity_tx" where
  "undelete_entities render entity_type ids = mark_deleted render False entity_type ids"

definition references_for :: "(json \<Rightarrow> string) \<Rightarrow> string \<Rightarrow> string \<Rightarrow> reference list entity_tx" where
  "references_for render entity_type entity_id =
     tx_bind (tx_lift (entity_table entity_type)) (\<lambda>t.
     tx_bind (roots_for t [entity_id]) (\<lambda>refs.
     tx_read (\<lambda>s. references_to render s refs)))"

section \<open>Owners\<close>

definition validate_owner :: "uuid option \<Rightarrow> unit entity_tx" where
  "validate_owner owner = (case owner of
       None \<Rightarrow> tx_return ()
     | Some i \<Rightarrow> (\<lambda>s. tx_guard (map_of (ent_registry s) i \<noteq> None) (Owner_unregistered i) s))"

definition updated_at_tables :: "etable list" where
  "updated_at_tables = [Chunk_types, Chunk_roles, Chunk_statuses, Block_types, Languages, Categories,
     Projects, Files, Documents]"

definition touched :: "etable \<Rightarrow> instant \<Rightarrow> entity_row \<Rightarrow> entity_row" where
  "touched t now r = (if List.member updated_at_tables t
     then r\<lparr>g_columns := dict_set (g_columns r) ''updated_at'' (J_int now)\<rparr> else r)"

definition set_owner :: "etable \<Rightarrow> uuid list \<Rightarrow> uuid option \<Rightarrow> edb \<Rightarrow> edb" where
  "set_owner t is owner s = s\<lparr>ent_rows := map (\<lambda>(k, r).
     (k, if fst k = t \<and> List.member is (snd k) then touched t (ent_clock s) (r\<lparr>g_owner := owner\<rparr>) else r))
     (ent_rows s)\<rparr>"

text \<open>\<open>rebind_owner\<close>: the number of rows updated.\<close>

definition rebind_owner :: "string \<Rightarrow> string list \<Rightarrow> string option \<Rightarrow> nat entity_tx" where
  "rebind_owner entity_type ids owner_id =
     tx_bind (tx_lift (entity_table entity_type)) (\<lambda>t.
     tx_bind (tx_lift (parse_ids ids)) (\<lambda>is.
     if is = [] then tx_raise Empty_ids
     else
       tx_bind (tx_lift (case owner_id of None \<Rightarrow> Inr None
         | Some i \<Rightarrow> (case uuid_of_string i of Some u \<Rightarrow> Inr (Some u) | None \<Rightarrow> Inl Bad_uuid))) (\<lambda>owner.
       tx_bind (validate_owner owner) (\<lambda>_.
       tx_bind (tx_write (set_owner t is owner)) (\<lambda>_.
       tx_read (\<lambda>s. length (filter (\<lambda>(k, r). fst k = t \<and> List.member is (snd k) \<and>
         (t = Semantic_chunks \<longrightarrow> map_of (ent_texts s) (snd k) \<noteq> None)) (ent_rows s))))))))"

section \<open>The owner tree\<close>

datatype owner_node =
  Owner_node (node_key: entity_key) (node_preview: string) (node_children: "owner_node list")
    (node_truncated: bool) (node_cycle: bool)

definition preview_columns :: "etable \<Rightarrow> string list" where
  "preview_columns t = (case t of
       Projects \<Rightarrow> [''name'', ''description'']
     | Files \<Rightarrow> [''name'', ''path'']
     | Documents \<Rightarrow> [''title'', ''source_name'']
     | Chapters \<Rightarrow> [''heading'']
     | Paragraphs \<Rightarrow> [''text'']
     | Semantic_chunks \<Rightarrow> [''text'']
     | _ \<Rightarrow> [''descr''])"

definition entity_preview :: "int \<Rightarrow> etable \<Rightarrow> json_dict \<Rightarrow> string" where
  "entity_preview limit t columns =
     (case List.find json_true (map (json_get columns) (preview_columns t)) of
        Some v \<Rightarrow> chunk_preview limit (json_str v) | None \<Rightarrow> [])"

text \<open>\<open>_entity_preview_row\<close>: a chunk is joined with its text.\<close>

definition preview_row :: "edb \<Rightarrow> bool \<Rightarrow> entity_key \<Rightarrow> json_dict option" where
  "preview_row s include_deleted k = (case map_of (ent_rows s) k of
       None \<Rightarrow> None
     | Some r \<Rightarrow>
         if \<not> include_deleted \<and> g_deleted r then None
         else if fst k = Semantic_chunks
         then map_option (\<lambda>t. dict_set (g_columns r) ''text'' (J_str t)) (map_of (ent_texts s) (snd k))
         else Some (g_columns r))"

definition owner_tree_table_order :: "etable list" where
  "owner_tree_table_order = [Chunk_types, Chunk_roles, Chunk_statuses, Block_types, Languages,
     Categories, Projects, Files, Documents, Chapters, Paragraphs, Semantic_chunks]"

type_synonym row_order = "etable \<Rightarrow> (uuid \<times> entity_row) list \<Rightarrow> (uuid \<times> entity_row) list"

definition owned_rows :: "row_order \<Rightarrow> edb \<Rightarrow> bool \<Rightarrow> uuid \<Rightarrow> etable \<Rightarrow> uuid list" where
  "owned_rows ordered s include_deleted owner t = map fst (ordered t
     (map (\<lambda>(k, r). (snd k, r)) (filter (\<lambda>(k, r). fst k = t \<and> g_owner r = Some owner \<and>
        (include_deleted \<or> \<not> g_deleted r)) (ent_rows s))))"

text \<open>\<open>_owner_children\<close>: table by table, \<open>LIMIT\<close> what is left of the page.\<close>

fun owner_children_from ::
  "row_order \<Rightarrow> edb \<Rightarrow> bool \<Rightarrow> uuid \<Rightarrow> int \<Rightarrow> etable list \<Rightarrow> entity_key list \<Rightarrow> entity_key list" where
  "owner_children_from ordered s include_deleted owner page [] found = found"
| "owner_children_from ordered s include_deleted owner page (t # ts) found =
     (let remaining = page - int (length found) in
      if remaining \<le> 0 then found
      else owner_children_from ordered s include_deleted owner page ts
        (found @ map (Pair t) (take (nat remaining) (owned_rows ordered s include_deleted owner t))))"

definition owner_children :: "row_order \<Rightarrow> edb \<Rightarrow> bool \<Rightarrow> uuid \<Rightarrow> int \<Rightarrow> entity_key list" where
  "owner_children ordered s include_deleted owner page =
     owner_children_from ordered s include_deleted owner page owner_tree_table_order []"

text \<open>\<open>_owner_tree_node\<close>: the first number is \<open>max_depth - depth\<close>.\<close>

definition owner_node_at ::
  "int \<Rightarrow> edb \<Rightarrow> bool \<Rightarrow> uuid list \<Rightarrow> entity_key \<Rightarrow>
   (string \<Rightarrow> (entity_error, owner_node) result) \<Rightarrow> (entity_error, owner_node) result" where
  "owner_node_at limit s include_deleted visited k below =
     (if List.member visited (snd k) then Inr (Owner_node k [] [] False True)
      else case preview_row s include_deleted k of
        None \<Rightarrow> Inl Entity_missing
      | Some columns \<Rightarrow> below (entity_preview limit (fst k) columns))"

primrec owner_tree_node ::
  "int \<Rightarrow> row_order \<Rightarrow> edb \<Rightarrow> bool \<Rightarrow> int \<Rightarrow> nat \<Rightarrow> uuid list \<Rightarrow> entity_key \<Rightarrow> (entity_error, owner_node) result" where
  "owner_tree_node limit ordered s include_deleted page 0 visited k =
     owner_node_at limit s include_deleted visited k (\<lambda>preview. Inr (Owner_node k preview [] True False))"
| "owner_tree_node limit ordered s include_deleted page (Suc n) visited k =
     owner_node_at limit s include_deleted visited k (\<lambda>preview.
       let children = owner_children ordered s include_deleted (snd k) page in
       bind_result (map_result (owner_tree_node limit ordered s include_deleted page n (snd k # visited)) children)
         (\<lambda>nodes. Inr (Owner_node k preview nodes (page \<le> int (length children)) False)))"

definition table_of_name :: "string \<Rightarrow> etable option" where
  "table_of_name name = List.find (\<lambda>t. table_name t = name) owner_tree_table_order"

definition registered_table :: "edb \<Rightarrow> uuid \<Rightarrow> (entity_error, etable) result" where
  "registered_table s i = (case map_of (ent_registry s) i of
       None \<Rightarrow> Inl Entity_missing
     | Some name \<Rightarrow> (case table_of_name name of
           None \<Rightarrow> Inl (Unsupported_entity_type name) | Some t \<Rightarrow> Inr t))"

definition owner_tree ::
  "int \<Rightarrow> row_order \<Rightarrow> edb \<Rightarrow> string \<Rightarrow> string option \<Rightarrow> int \<Rightarrow> int \<Rightarrow> bool \<Rightarrow> (entity_error, owner_node) result" where
  "owner_tree limit ordered s entity_id entity_type max_depth page include_deleted =
     (if max_depth < 0 \<or> 20 < max_depth then Inl Bad_depth
      else if page < 1 \<or> 500 < page then Inl Bad_page
      else case uuid_of_string entity_id of
        None \<Rightarrow> Inl Bad_uuid
      | Some i \<Rightarrow>
          bind_result (case entity_type of
            None \<Rightarrow> Inr None
          | Some e \<Rightarrow> if e = [] then Inr None else bind_result (entity_table e) (\<lambda>t. Inr (Some t))) (\<lambda>expected.
          bind_result (registered_table s i) (\<lambda>t.
          if expected \<noteq> None \<and> expected \<noteq> Some t then Inl (Wrong_table t)
          else owner_tree_node limit ordered s include_deleted page (nat max_depth) [] (t, i))))"

end
