(* ===== verification/Entity_Values.thy ===== *)
theory Entity_Values
  imports Entity_Service
begin

text \<open>
  Reading, creating and updating entities through the generic service
  (\<open>runtime/entity_lifecycle.py\<close>): the columns each table lets a caller read or write, the statements
  the service composes from them, and the rows an insert or an update makes. A UUID value is its
  canonical text, a \<open>block_meta\<close> value the object it holds; \<open>cast_time\<close> is the database's reading of a
  timestamp.
\<close>

section \<open>Columns\<close>

fun default_fields :: "etable \<Rightarrow> string list" where
  "default_fields Projects =
     [''id'', ''owner_id'', ''name'', ''description'', ''is_deleted'', ''created_at'', ''updated_at'']"
| "default_fields Files =
     [''id'', ''owner_id'', ''path'', ''name'', ''body_sha256'', ''content_sha256'', ''needs_rechunk'',
      ''needs_revectorize'', ''is_deleted'', ''updated_at'', ''block_meta'']"
| "default_fields Documents =
     [''id'', ''owner_id'', ''title'', ''source_name'', ''processing_status'', ''body_sha256'',
      ''content_sha256'', ''needs_revectorize'', ''is_deleted'', ''updated_at'', ''block_meta'']"
| "default_fields Chapters =
     [''id'', ''owner_id'', ''document_id'', ''order_index'', ''heading'', ''is_deleted'', ''block_meta'']"
| "default_fields Paragraphs =
     [''id'', ''owner_id'', ''document_id'', ''chapter_id'', ''order_index'', ''text'', ''is_deleted'', ''block_meta'']"
| "default_fields Semantic_chunks =
     [''id'', ''owner_id'', ''document_id'', ''paragraph_id'', ''chapter_id'', ''order_index'', ''text'',
      ''is_deleted'', ''block_meta'']"
| "default_fields _ = [''id'', ''owner_id'', ''descr'', ''is_deleted'', ''created_at'', ''updated_at'']"

definition allowed_fields :: "etable \<Rightarrow> string list" where
  "allowed_fields t = default_fields t @
     [''created_at'', ''updated_at'', ''deleted_at'', ''owner_id'', ''path'', ''media_type'', ''byte_length'',
      ''content_sha256'', ''body_sha256'', ''checksum_algorithm'', ''needs_rechunk'', ''needs_revectorize'',
      ''source_version'', ''source_path'', ''source_name'', ''source_hash'', ''language'', ''quality_score'',
      ''search_weight'', ''char_count'', ''chunk_type'', ''score'', ''source_start'', ''source_end'', ''level'',
      ''name'', ''description'', ''descr'', ''body'', ''chunk_type_id'', ''role_id'', ''status_id'',
      ''block_type_id'', ''language_id'', ''category_id'']"

definition create_tables :: "etable list" where
  "create_tables = [Projects, Files, Documents] @ dictionary_reference_columns"

definition update_tables :: "etable list" where
  "update_tables = create_tables @ [Paragraphs, Semantic_chunks]"

fun writable_fields :: "etable \<Rightarrow> string list" where
  "writable_fields Projects = [''id'', ''owner_id'', ''name'', ''description'', ''is_deleted'', ''deleted_at'']"
| "writable_fields Files =
     [''id'', ''owner_id'', ''path'', ''name'', ''media_type'', ''byte_length'', ''char_count'',
      ''checksum_algorithm'', ''content_sha256'', ''body_sha256'', ''needs_rechunk'', ''needs_revectorize'',
      ''is_deleted'', ''deleted_at'', ''block_meta'']"
| "writable_fields Documents =
     [''id'', ''owner_id'', ''source_upload_id'', ''source_version'', ''source_path'', ''source_name'',
      ''source_hash'', ''checksum_algorithm'', ''content_sha256'', ''body_sha256'', ''title'',
      ''processing_status'', ''processing_attempt'', ''needs_revectorize'', ''processing_trace_id'',
      ''processing_started_at'', ''processing_completed_at'', ''is_deleted'', ''deleted_at'', ''block_meta'']"
| "writable_fields Paragraphs =
     [''owner_id'', ''text'', ''language'', ''quality_score'', ''search_weight'', ''is_deleted'',
      ''deleted_at'', ''block_meta'']"
| "writable_fields Semantic_chunks =
     [''owner_id'', ''text'', ''body'', ''score'', ''search_weight'', ''is_deleted'', ''deleted_at'', ''block_meta'']"
| "writable_fields Chapters = []"
| "writable_fields _ = [''id'', ''owner_id'', ''descr'', ''is_deleted'', ''deleted_at'']"

fun required_create_fields :: "etable \<Rightarrow> string list" where
  "required_create_fields Projects = [''id'', ''name'', ''description'']"
| "required_create_fields Files = [''id'', ''path'', ''name'', ''body_sha256'']"
| "required_create_fields Documents = [''id'', ''source_upload_id'', ''source_version'', ''title'', ''block_meta'']"
| "required_create_fields _ = [''id'', ''descr'']"

text \<open>\<open>sorted(set(xs) - set(ys))\<close>\<close>

definition sorted_difference :: "string list \<Rightarrow> string list \<Rightarrow> string list" where
  "sorted_difference xs ys = sort (filter (\<lambda>x. \<not> List.member ys x) (dict_fromkeys xs))"

definition validated_fields :: "etable \<Rightarrow> string list \<Rightarrow> (entity_error, string list) result" where
  "validated_fields t asked =
     (let selected = (if asked = [] then default_fields t else asked);
          unknown = sorted_difference selected (allowed_fields t)
      in if unknown \<noteq> [] then Inl (Unknown_fields unknown) else Inr selected)"

section \<open>Reading\<close>

definition from_sql :: "etable \<Rightarrow> string" where
  "from_sql t = (if t = Semantic_chunks
     then ''semantic_chunks AS sc JOIN semantic_chunk_texts AS sct ON sct.chunk_uuid = sc.id''
     else table_name t)"

definition field_sql :: "etable \<Rightarrow> string \<Rightarrow> string" where
  "field_sql t field = (if t = Semantic_chunks
     then (if field = ''text'' \<or> field = ''body'' then ''sct.text'' else ''sc.'' @ field) else field)"

definition select_field_sql :: "etable \<Rightarrow> string \<Rightarrow> string" where
  "select_field_sql t field =
     (if t = Semantic_chunks \<and> field = ''text'' then ''sct.text AS text''
      else if t = Semantic_chunks \<and> field = ''body'' then ''sct.text AS body''
      else field_sql t field)"

definition select_sql :: "etable \<Rightarrow> string list \<Rightarrow> string" where
  "select_sql t asked = joined '', '' (map (select_field_sql t) asked)"

fun order_by_sql :: "etable \<Rightarrow> string" where
  "order_by_sql Semantic_chunks = ''sc.order_index ASC NULLS LAST, sc.id ASC''"
| "order_by_sql Projects = ''name ASC, id ASC''"
| "order_by_sql Files = ''updated_at DESC NULLS LAST, id ASC''"
| "order_by_sql Documents = ''updated_at DESC NULLS LAST, id ASC''"
| "order_by_sql Chapters = ''order_index ASC NULLS LAST, id ASC''"
| "order_by_sql Paragraphs = ''order_index ASC NULLS LAST, id ASC''"
| "order_by_sql _ = ''descr ASC, id ASC''"

text \<open>\<open>_filters_sql\<close>: the clauses, and the parameters bound to them.\<close>

definition meta_prefix :: string where
  "meta_prefix = ''block_meta.''"

definition filter_allowed :: "etable \<Rightarrow> string list" where
  "filter_allowed t = allowed_fields t @ [''id'', ''document_id'', ''chapter_id'', ''paragraph_id'', ''is_deleted'']"

definition filter_param :: "nat \<Rightarrow> string" where
  "filter_param n = ''filter_'' @ nat_digits n"

definition filter_clause :: "etable \<Rightarrow> nat \<Rightarrow> string \<Rightarrow> (entity_error, string) result" where
  "filter_clause t n key = (let param = filter_param n in
     if take (length meta_prefix) key = meta_prefix
     then Inr (field_sql t ''block_meta'' @ '' ->> :'' @ param @ ''_key = :'' @ param)
     else if List.member (filter_allowed t) key then Inr (field_sql t key @ '' = :'' @ param)
     else Inl (Unknown_filter key))"

definition filter_params :: "nat \<Rightarrow> string \<Rightarrow> json \<Rightarrow> json_dict" where
  "filter_params n key value = (let param = filter_param n in
     if take (length meta_prefix) key = meta_prefix
     then [(param @ ''_key'', J_str (drop (length meta_prefix) key)), (param, J_str (json_str value))]
     else [(param, value)])"

fun filters_sql :: "etable \<Rightarrow> nat \<Rightarrow> json_dict \<Rightarrow> (entity_error, string list \<times> json_dict) result" where
  "filters_sql t n [] = Inr ([], [])"
| "filters_sql t n ((key, value) # filters) =
     bind_result (filter_clause t n key) (\<lambda>clause.
     bind_result (filters_sql t (Suc n) filters) (\<lambda>(where_clauses, params).
     Inr (clause # where_clauses, filter_params n key value @ params)))"

definition where_sql :: "string list \<Rightarrow> string" where
  "where_sql clauses = (if clauses = [] then [] else ''WHERE '' @ joined '' AND '' clauses)"

record list_statements =
  q_table :: etable
  q_rows :: string
  q_count :: string
  q_params :: json_dict

definition list_entities ::
  "string \<Rightarrow> string list \<Rightarrow> json_dict \<Rightarrow> int \<Rightarrow> int \<Rightarrow> bool \<Rightarrow> (entity_error, list_statements) result" where
  "list_entities entity_type asked filters limit offset show_deleted =
     bind_result (entity_table entity_type) (\<lambda>t.
     bind_result (validated_fields t asked) (\<lambda>selected.
     bind_result (filters_sql t 0 filters) (\<lambda>(clauses, params).
     let clauses = clauses @ (if show_deleted then [] else [field_sql t ''is_deleted'' @ '' IS FALSE'']) in
     if limit < 1 \<or> 500 < limit \<or> offset < 0 then Inl Bad_page
     else Inr \<lparr>q_table = t,
       q_rows = ''SELECT '' @ select_sql t selected @ '' FROM '' @ from_sql t @ '' '' @ where_sql clauses @
         '' ORDER BY '' @ order_by_sql t @ '' LIMIT :limit OFFSET :offset'',
       q_count = ''SELECT count(*) FROM '' @ from_sql t @ '' '' @ where_sql clauses,
       q_params = dict_update params [(''limit'', J_int limit), (''offset'', J_int offset)]\<rparr>)))"

definition get_entity ::
  "string \<Rightarrow> string \<Rightarrow> string list \<Rightarrow> bool \<Rightarrow> (entity_error, string \<times> string) result" where
  "get_entity entity_type entity_id asked show_deleted =
     bind_result (entity_table entity_type) (\<lambda>t.
     bind_result (validated_fields t asked) (\<lambda>selected.
     case uuid_of_string entity_id of
       None \<Rightarrow> Inl Bad_uuid
     | Some i \<Rightarrow> Inr (''SELECT '' @ select_sql t selected @ '' FROM '' @ from_sql t @ '' WHERE '' @
         joined '' AND '' ((field_sql t ''id'' @ '' = CAST(:entity_id AS uuid)'') #
           (if show_deleted then [] else [field_sql t ''is_deleted'' @ '' IS FALSE''])), uuid_str i)))"

section \<open>Values to write\<close>

definition uuid_fields :: "string list" where
  "uuid_fields = [''id'', ''owner_id'', ''source_upload_id'', ''processing_trace_id'', ''chunk_type_id'',
     ''role_id'', ''status_id'', ''block_type_id'', ''language_id'', ''category_id'']"

definition set_default :: "string \<Rightarrow> json \<Rightarrow> json_dict \<Rightarrow> json_dict" where
  "set_default k v d = (if map_of d k = None then dict_set d k v else d)"

definition copy_hash :: "string \<Rightarrow> json_dict \<Rightarrow> json_dict" where
  "copy_hash k d = (if map_of d k = None \<and> json_get d ''source_hash'' \<noteq> J_null
     then dict_set d k (json_get d ''source_hash'') else d)"

definition payload_defaults :: "etable \<Rightarrow> json_dict \<Rightarrow> json_dict" where
  "payload_defaults t d =
     (if t = Documents
      then set_default ''needs_revectorize'' (J_bool False) (copy_hash ''content_sha256'' (copy_hash ''body_sha256''
        (set_default ''checksum_algorithm'' (J_str ''sha256'') (set_default ''block_meta'' (J_object [])
          (set_default ''processing_attempt'' (J_int 0) (set_default ''processing_status'' (J_str ''draft'') d))))))
      else if t = Files
      then set_default ''needs_revectorize'' (J_bool False) (set_default ''needs_rechunk'' (J_bool False)
        (set_default ''checksum_algorithm'' (J_str ''sha256'') d))
      else d)"

fun parse_uuid_fields :: "string list \<Rightarrow> json_dict \<Rightarrow> (entity_error, json_dict) result" where
  "parse_uuid_fields [] d = Inr d"
| "parse_uuid_fields (k # ks) d =
     (if json_get d k = J_null then parse_uuid_fields ks d
      else case uuid_of_string (json_str (json_get d k)) of
        None \<Rightarrow> Inl Bad_uuid
      | Some i \<Rightarrow> parse_uuid_fields ks (dict_set d k (J_str (uuid_str i))))"

definition json_object :: "json \<Rightarrow> bool" where
  "json_object v = (case v of J_object d \<Rightarrow> True | _ \<Rightarrow> False)"

definition validated_values :: "etable \<Rightarrow> json_dict \<Rightarrow> bool \<Rightarrow> (entity_error, json_dict) result" where
  "validated_values t values require_id =
     (let unknown = sorted_difference (map fst values) (writable_fields t);
          payload = payload_defaults t values;
          missing = (if require_id then sorted_difference (required_create_fields t) (map fst payload) else [])
      in if unknown \<noteq> [] then Inl (Unknown_fields unknown)
         else if missing \<noteq> [] then Inl (Missing_fields missing)
         else bind_result (parse_uuid_fields uuid_fields payload) (\<lambda>payload.
           if (case map_of payload ''descr'' of None \<Rightarrow> False | Some v \<Rightarrow> 100 < length (json_str v)) \<or>
              (t = Files \<and> json_get payload ''checksum_algorithm'' \<noteq> J_null \<and>
                json_get payload ''checksum_algorithm'' \<noteq> J_str ''sha256'') \<or>
              (case map_of payload ''block_meta'' of None \<Rightarrow> False | Some v \<Rightarrow> \<not> json_object v)
           then Inl Bad_values else Inr payload))"

section \<open>Rows\<close>

text \<open>The \<open>NOT NULL\<close> columns of \<open>db/schema.py\<close> that an insert has to name, for want of a default.\<close>

fun required_columns :: "etable \<Rightarrow> string list" where
  "required_columns Projects = [''id'', ''name'', ''description'']"
| "required_columns Files = [''id'', ''primary_source_id'', ''path'', ''name'', ''body_sha256'']"
| "required_columns Documents = [''id'', ''source_upload_id'', ''title'']"
| "required_columns _ = [''id'', ''descr'']"

text \<open>The value columns of a row that may not be set to \<open>NULL\<close> either.\<close>

fun not_null_columns :: "etable \<Rightarrow> string list" where
  "not_null_columns Files = required_columns Files @
     [''checksum_algorithm'', ''needs_rechunk'', ''needs_revectorize'', ''is_deleted'', ''block_meta'']"
| "not_null_columns Documents = required_columns Documents @
     [''source_version'', ''checksum_algorithm'', ''processing_status'', ''processing_attempt'',
      ''needs_revectorize'', ''is_deleted'', ''block_meta'']"
| "not_null_columns Paragraphs = [''text'', ''is_deleted'', ''block_meta'']"
| "not_null_columns Semantic_chunks = [''text'', ''is_deleted'', ''block_meta'']"
| "not_null_columns t = required_columns t @ [''is_deleted'']"

type_synonym time_cast = "json \<Rightarrow> instant option option"

fun set_column :: "time_cast \<Rightarrow> string \<times> json \<Rightarrow> entity_row \<Rightarrow> entity_row option" where
  "set_column cast_time (k, v) r =
     (if k = ''owner_id'' then Some (r\<lparr>g_owner := (case v of J_str i \<Rightarrow> uuid_of_string i | _ \<Rightarrow> None)\<rparr>)
      else if k = ''is_deleted'' then (case v of J_bool b \<Rightarrow> Some (r\<lparr>g_deleted := b\<rparr>) | _ \<Rightarrow> None)
      else if k = ''deleted_at'' then map_option (\<lambda>i. r\<lparr>g_deleted_at := i\<rparr>) (cast_time v)
      else if k = ''block_meta'' then (case v of J_object d \<Rightarrow> Some (r\<lparr>g_meta := d\<rparr>) | _ \<Rightarrow> None)
      else if k = ''id'' then Some r
      else Some (r\<lparr>g_columns := dict_set (g_columns r) k v\<rparr>))"

fun set_columns :: "time_cast \<Rightarrow> json_dict \<Rightarrow> entity_row \<Rightarrow> entity_row option" where
  "set_columns cast_time [] r = Some r"
| "set_columns cast_time (p # ps) r =
     (case set_column cast_time p r of None \<Rightarrow> None | Some r' \<Rightarrow> set_columns cast_time ps r')"

definition blank_row :: entity_row where
  "blank_row = \<lparr>g_owner = None, g_document = None, g_chapter = None, g_paragraph = None,
     g_dictionary = [], g_meta = [], g_deleted = False, g_deleted_at = None, g_columns = []\<rparr>"

definition nulls :: "etable \<Rightarrow> json_dict \<Rightarrow> bool" where
  "nulls t payload \<longleftrightarrow> list_ex (\<lambda>k. map_of payload k = Some J_null) (not_null_columns t)"

definition payload_uuid :: "json_dict \<Rightarrow> string \<Rightarrow> uuid option" where
  "payload_uuid payload k = (case json_get payload k of J_str i \<Rightarrow> uuid_of_string i | _ \<Rightarrow> None)"

text \<open>
  \<open>INSERT\<close>: every required column is named and not null, the identifier is fresh in its table and in the
  registry (the trigger), the values fit their columns (\<open>cast_time\<close>, and \<open>unique\<close> for the unique and
  check constraints on the remaining columns).
\<close>

type_synonym row_check = "edb \<Rightarrow> entity_key \<Rightarrow> json_dict \<Rightarrow> bool"

definition insert_entity :: "time_cast \<Rightarrow> row_check \<Rightarrow> etable \<Rightarrow> json_dict \<Rightarrow> entity_row entity_tx" where
  "insert_entity cast_time check t payload = (\<lambda>s.
     case (payload_uuid payload ''id'', set_columns cast_time payload blank_row) of
       (Some i, Some r) \<Rightarrow>
         if list_ex (\<lambda>k. map_of payload k = None) (required_columns t) \<or> nulls t payload \<or>
            map_of (ent_rows s) (t, i) \<noteq> None \<or> map_of (ent_registry s) i \<noteq> None \<or> \<not> check s (t, i) payload
         then Inl Entity_constraint
         else Inr (r, s\<lparr>ent_rows := ent_rows s @ [((t, i), r)],
                        ent_registry := ent_registry s @ [(i, table_name t)]\<rparr>)
     | _ \<Rightarrow> Inl Entity_constraint)"

definition create_entity ::
  "time_cast \<Rightarrow> row_check \<Rightarrow> string \<Rightarrow> json_dict \<Rightarrow> entity_row entity_tx" where
  "create_entity cast_time check entity_type values =
     tx_bind (tx_lift (entity_table entity_type)) (\<lambda>t.
     if \<not> List.member create_tables t then tx_raise (Unsupported_operation t)
     else
       tx_bind (tx_lift (validated_values t values True)) (\<lambda>payload.
       tx_bind (validate_owner (payload_uuid payload ''owner_id'')) (\<lambda>_.
       insert_entity cast_time check t payload)))"

text \<open>
  \<open>_update_plain_entity\<close>: the identifier itself may be among the columns set; no trigger follows an
  update.
\<close>

definition update_plain_entity ::
  "time_cast \<Rightarrow> row_check \<Rightarrow> etable \<Rightarrow> uuid \<Rightarrow> json_dict \<Rightarrow> entity_row option entity_tx" where
  "update_plain_entity cast_time check t i payload = (\<lambda>s.
     case map_of (ent_rows s) (t, i) of
       None \<Rightarrow> Inr (None, s)
     | Some r \<Rightarrow>
         let j = (case payload_uuid payload ''id'' of None \<Rightarrow> i | Some j \<Rightarrow> j) in
         (case set_columns cast_time payload (touched t (ent_clock s) r) of
            None \<Rightarrow> Inl Entity_constraint
          | Some r' \<Rightarrow>
              if nulls t payload \<or> \<not> check s (t, j) payload \<or>
                 (j \<noteq> i \<and> (map_of (ent_rows s) (t, j) \<noteq> None \<or>
                   list_ex (\<lambda>(k, r). refers_to [(t, i)] r \<or> List.member (g_dictionary r) (t, i)) (ent_rows s) \<or>
                   list_ex (\<lambda>(d, e, c). (d, e) = (t, i)) (ent_assignments s)))
              then Inl Entity_constraint
              else Inr (Some r', s\<lparr>ent_rows :=
                map (\<lambda>(k, r). if k = (t, i) then ((t, j), r') else (k, r)) (ent_rows s)\<rparr>)))"

text \<open>
  \<open>_update_semantic_chunk\<close>: the text goes through \<open>replace\<close>, the replacement of
  \<open>Chunk_Entity_Update\<close> on the tables of the versions; the other columns are set here.
\<close>

definition chunk_payload_text :: "json_dict \<Rightarrow> (entity_error, json \<times> json_dict) result" where
  "chunk_payload_text payload =
     (let text_value = json_get payload ''text''; rest = dict_pop payload ''text'' in
      if text_value = J_null then Inr (json_get rest ''body'', dict_pop rest ''body'')
      else if map_of rest ''body'' \<noteq> None \<and> json_get rest ''body'' \<noteq> text_value then Inl Bad_values
      else Inr (text_value, dict_pop rest ''body''))"

definition update_semantic_chunk ::
  "time_cast \<Rightarrow> row_check \<Rightarrow> (uuid \<Rightarrow> string \<Rightarrow> unit entity_tx) \<Rightarrow> uuid \<Rightarrow> json_dict \<Rightarrow> entity_row option entity_tx" where
  "update_semantic_chunk cast_time check replace i payload =
     tx_bind (tx_lift (chunk_payload_text payload)) (\<lambda>(text_value, rest).
     tx_bind (if rest = [] then tx_read (\<lambda>s. map_of (ent_rows s) (Semantic_chunks, i))
              else update_plain_entity cast_time check Semantic_chunks i rest) (\<lambda>found.
     if found = None then tx_return None
     else
       tx_bind (if text_value = J_null then tx_return () else replace i (json_str text_value)) (\<lambda>_.
       tx_read (\<lambda>s. if map_of (ent_texts s) i = None then None else map_of (ent_rows s) (Semantic_chunks, i)))))"

text \<open>\<open>update_entity\<close>; \<open>update_chunk\<close> is \<open>update_semantic_chunk\<close> with its parameters.\<close>

definition update_entity ::
  "time_cast \<Rightarrow> row_check \<Rightarrow> (uuid \<Rightarrow> json_dict \<Rightarrow> entity_row option entity_tx) \<Rightarrow>
   string \<Rightarrow> string \<Rightarrow> json_dict \<Rightarrow> entity_row entity_tx" where
  "update_entity cast_time check update_chunk entity_type entity_id values =
     tx_bind (tx_lift (entity_table entity_type)) (\<lambda>t.
     if \<not> List.member update_tables t then tx_raise (Unsupported_operation t)
     else
       tx_bind (tx_lift (validated_values t values False)) (\<lambda>payload.
       if payload = [] then tx_raise Empty_values
       else case uuid_of_string entity_id of
         None \<Rightarrow> tx_raise Bad_uuid
       | Some i \<Rightarrow>
           tx_bind (validate_owner (payload_uuid payload ''owner_id'')) (\<lambda>_.
           tx_bind (if t = Semantic_chunks then update_chunk i payload
                    else update_plain_entity cast_time check t i payload) (\<lambda>row.
           case row of None \<Rightarrow> tx_raise Entity_missing | Some r \<Rightarrow> tx_return r))))"

end
