(* ===== verification/Entity_Value_Properties.thy ===== *)
theory Entity_Value_Properties
  imports Entity_Values
begin

text \<open>
  Properties of the generic reads and writes of entities: what an update of a document does to the
  columns it does not name, that no file can be created, and that the composed statements depend on
  names of columns only.
\<close>

section \<open>Payloads\<close>

lemma map_of_set_default: "map_of (set_default k v d) = (case map_of d k of None \<Rightarrow> (map_of d)(k \<mapsto> v) | Some w \<Rightarrow> map_of d)"
  by (simp add: set_default_def split: option.splits)

lemma distinct_set_default: "distinct (map fst d) \<Longrightarrow> distinct (map fst (set_default k v d))"
  by (simp add: set_default_def distinct_dict_set)

lemma keys_set_default: "fst ` set (set_default k v d) = insert k (fst ` set d)"
  by (cases "map_of d k") (auto simp: set_default_def map_of_eq_None_iff dest: map_of_SomeD intro: rev_image_eqI)

lemma map_of_copy_hash: "k \<noteq> k' \<Longrightarrow> map_of (copy_hash k d) k' = map_of d k'"
  by (simp add: copy_hash_def)

lemma distinct_copy_hash: "distinct (map fst d) \<Longrightarrow> distinct (map fst (copy_hash k d))"
  by (simp add: copy_hash_def distinct_dict_set)

lemma distinct_payload_defaults: "distinct (map fst d) \<Longrightarrow> distinct (map fst (payload_defaults t d))"
  by (simp add: payload_defaults_def distinct_set_default distinct_copy_hash)

lemma parse_uuid_fields_frame:
  "parse_uuid_fields ks d = Inr d' \<Longrightarrow>
     (k \<notin> set ks \<longrightarrow> map_of d' k = map_of d k) \<and> (map_of d k = None \<longrightarrow> map_of d' k = None)"
proof (induction ks d rule: parse_uuid_fields.induct)
  case (2 k' ks d)
  show ?case
  proof (cases "json_get d k' = J_null")
    case False
    with "2.prems" obtain i where i: "uuid_of_string (json_str (json_get d k')) = Some i"
      and rest: "parse_uuid_fields ks (dict_set d k' (J_str (uuid_str i))) = Inr d'"
      by (auto split: option.splits)
    have "map_of d k' \<noteq> None" using False by (auto simp: json_get_def split: option.splits)
    then show ?thesis using "2.IH"(2) [OF False i rest] by (auto split: if_splits)
  qed (use 2 in simp)
qed simp

lemma parse_uuid_fields_distinct:
  "parse_uuid_fields ks d = Inr d' \<Longrightarrow> distinct (map fst d) \<Longrightarrow> distinct (map fst d')"
  by (induction ks d rule: parse_uuid_fields.induct) (auto simp: distinct_dict_set split: if_splits option.splits)

lemma validated_values_frame:
  assumes "validated_values t values b = Inr payload"
  shows "k \<notin> set uuid_fields \<Longrightarrow> map_of payload k = map_of (payload_defaults t values) k"
    and "map_of (payload_defaults t values) k = None \<Longrightarrow> map_of payload k = None"
    and "distinct (map fst values) \<Longrightarrow> distinct (map fst payload)"
    and "fst ` set values \<subseteq> set (writable_fields t)"
proof -
  from assms have p: "parse_uuid_fields uuid_fields (payload_defaults t values) = Inr payload"
    and known: "sorted_difference (map fst values) (writable_fields t) = []"
    by (auto simp: validated_values_def Let_def split: if_splits)
  show "k \<notin> set uuid_fields \<Longrightarrow> map_of payload k = map_of (payload_defaults t values) k"
    "map_of (payload_defaults t values) k = None \<Longrightarrow> map_of payload k = None"
    using parse_uuid_fields_frame [OF p, of k] by auto
  show "distinct (map fst values) \<Longrightarrow> distinct (map fst payload)"
    using parse_uuid_fields_distinct [OF p] distinct_payload_defaults by blast
  have "set (sorted_difference xs ys) = set xs - set ys" for xs ys
    by (auto simp: sorted_difference_def)
  then have "set (map fst values) - set (writable_fields t) = {}" using known by (metis empty_set)
  then show "fst ` set values \<subseteq> set (writable_fields t)" by auto
qed

section \<open>The row a payload makes\<close>

lemma set_column_simps:
  "set_column c (k, v) r = Some r' \<Longrightarrow> k \<noteq> ''block_meta'' \<Longrightarrow> g_meta r' = g_meta r"
  "set_column c (''block_meta'', J_object d) r = Some (r\<lparr>g_meta := d\<rparr>)"
  "set_column c (k, v) r = Some r' \<Longrightarrow> k' \<noteq> k \<Longrightarrow> map_of (g_columns r') k' = map_of (g_columns r) k'"
  by (auto split: if_splits json.splits)

lemma set_columns_meta:
  "set_columns c ps r = Some r' \<Longrightarrow> distinct (map fst ps) \<Longrightarrow>
   (case map_of ps ''block_meta'' of None \<Rightarrow> g_meta r' = g_meta r | Some v \<Rightarrow> v = J_object (g_meta r'))"
proof (induction c ps r rule: set_columns.induct)
  case (2 c p ps r)
  obtain k v where p: "p = (k, v)" by (cases p)
  from "2.prems"(1) obtain r1 where r1: "set_column c p r = Some r1" and rest: "set_columns c ps r1 = Some r'"
    by (auto split: option.splits)
  note IH = "2.IH" [OF r1 rest]
  show ?case
  proof (cases "k = ''block_meta''")
    case True
    with r1 p obtain d where v: "v = J_object d" "g_meta r1 = d" by (auto split: json.splits)
    have "map_of ps ''block_meta'' = None"
      using "2.prems"(2) True by (simp add: p map_of_eq_None_iff)
    then show ?thesis using IH "2.prems"(2) v True by (simp add: p)
  next
    case False
    then show ?thesis using IH "2.prems"(2) set_column_simps(1) [OF r1 [unfolded p] False]
      by (cases "map_of ps ''block_meta''") (auto simp: p)
  qed
qed simp

lemma set_columns_column:
  assumes "k \<notin> {''owner_id'', ''is_deleted'', ''deleted_at'', ''block_meta'', ''id''}"
  shows "set_columns c ps r = Some r' \<Longrightarrow> distinct (map fst ps) \<Longrightarrow>
   map_of (g_columns r') k = (case map_of ps k of None \<Rightarrow> map_of (g_columns r) k | Some v \<Rightarrow> Some v)"
proof (induction c ps r rule: set_columns.induct)
  case (2 c p ps r)
  obtain k' v where p: "p = (k', v)" by (cases p)
  from "2.prems"(1) obtain r1 where r1: "set_column c p r = Some r1" and rest: "set_columns c ps r1 = Some r'"
    by (auto split: option.splits)
  note IH = "2.IH" [OF r1 rest]
  show ?case
  proof (cases "k' = k")
    case True
    then have "map_of (g_columns r1) k = Some v" using r1 assms by (auto simp: p)
    moreover have "map_of ps k = None" using "2.prems"(2) True by (simp add: p map_of_eq_None_iff)
    ultimately show ?thesis using IH "2.prems"(2) True by (simp add: p)
  next
    case False
    then show ?thesis
      using IH "2.prems"(2) set_column_simps(3) [OF r1 [unfolded p]] by (auto simp: p split: option.splits)
  qed
qed simp

section \<open>Updating a document\<close>

text \<open>The columns of a document a creation gives a default to, besides its metadata.\<close>

definition document_defaults :: "(string \<times> json) list" where
  "document_defaults = [(''processing_status'', J_str ''draft''), (''processing_attempt'', J_int 0),
     (''checksum_algorithm'', J_str ''sha256''), (''needs_revectorize'', J_bool False)]"

lemma set_default_get:
  "k \<noteq> k' \<Longrightarrow> map_of (set_default k v d) k' = map_of d k'"
  "map_of d k = None \<Longrightarrow> map_of (set_default k v d) k = Some v"
  "map_of (set_default k v d) k = (case map_of d k of None \<Rightarrow> Some v | w \<Rightarrow> w)"
  "k \<noteq> k' \<Longrightarrow> json_get (set_default k v d) k' = json_get d k'"
  by (simp_all add: set_default_def json_get_def split: option.split)

lemma copy_hash_get:
  "map_of d k = None \<Longrightarrow> json_get d ''source_hash'' \<noteq> J_null \<Longrightarrow> map_of (copy_hash k d) k = Some (json_get d ''source_hash'')"
  "k \<noteq> ''source_hash'' \<Longrightarrow> json_get (copy_hash k d) ''source_hash'' = json_get d ''source_hash''"
  by (simp_all add: copy_hash_def json_get_def)

lemma document_default:
  "map_of d ''processing_status'' = None \<Longrightarrow>
   map_of (payload_defaults Documents d) ''processing_status'' = Some (J_str ''draft'')"
  "map_of d ''processing_attempt'' = None \<Longrightarrow>
   map_of (payload_defaults Documents d) ''processing_attempt'' = Some (J_int 0)"
  "map_of d ''checksum_algorithm'' = None \<Longrightarrow>
   map_of (payload_defaults Documents d) ''checksum_algorithm'' = Some (J_str ''sha256'')"
  "map_of d ''needs_revectorize'' = None \<Longrightarrow>
   map_of (payload_defaults Documents d) ''needs_revectorize'' = Some (J_bool False)"
  by (simp_all add: payload_defaults_def set_default_get(1,2) map_of_copy_hash)

lemma document_defaults_filled:
  "(k, v) \<in> set document_defaults \<Longrightarrow> map_of d k = None \<Longrightarrow> map_of (payload_defaults Documents d) k = Some v"
  unfolding document_defaults_def using document_default [of d] by fastforce

lemma document_digest:
  assumes "k \<in> {''body_sha256'', ''content_sha256''}" "map_of values k = None" "json_get values ''source_hash'' \<noteq> J_null"
  shows "map_of (payload_defaults Documents values) k = Some (json_get values ''source_hash'')"
proof -
  let ?d = "set_default ''checksum_algorithm'' (J_str ''sha256'') (set_default ''block_meta'' (J_object [])
    (set_default ''processing_attempt'' (J_int 0) (set_default ''processing_status'' (J_str ''draft'') values)))"
  have hash: "json_get ?d ''source_hash'' = json_get values ''source_hash''"
    by (simp add: set_default_get(4))
  have free: "map_of ?d k = None"
    using assms(1,2) by (auto simp: set_default_get(1))
  have "map_of (copy_hash ''content_sha256'' (copy_hash ''body_sha256'' ?d)) k = Some (json_get values ''source_hash'')"
  proof (cases "k = ''body_sha256''")
    case True
    then have "map_of (copy_hash ''body_sha256'' ?d) k = Some (json_get values ''source_hash'')"
      using copy_hash_get(1) [of ?d] free hash assms(3) by simp
    then show ?thesis using True by (simp add: map_of_copy_hash)
  next
    case False
    with assms(1) have "k = ''content_sha256''" by simp
    then show ?thesis
      using copy_hash_get(1) [of "copy_hash ''body_sha256'' ?d" k] copy_hash_get(2) [of "''body_sha256''" ?d] free hash assms(3)
      by (simp add: map_of_copy_hash)
  qed
  then show ?thesis using assms(1) by (auto simp: payload_defaults_def set_default_get(1))
qed

text \<open>
  C30: every update of a document that goes through resets all the columns a creation gives a default to,
  when the update does not name them: its metadata are erased, its status goes back to a draft, its
  attempts to zero, its checksum algorithm to SHA-256, and its request for new vectors is withdrawn. An
  update that names the hash of the source but not the two digests overwrites them with that hash.
\<close>

theorem document_update_erases:
  assumes "entity_table entity_type = Inr Documents" "distinct (map fst values)"
    and "update_entity cast_time check update_chunk entity_type entity_id values s = Inr (r, s')"
  shows "(map_of values ''block_meta'' = None \<longrightarrow> g_meta r = []) \<and>
    (\<forall>(k, v)\<in>set document_defaults. map_of values k = None \<longrightarrow> map_of (g_columns r) k = Some v) \<and>
    (\<forall>k\<in>{''body_sha256'', ''content_sha256''}. map_of values k = None \<and> json_get values ''source_hash'' \<noteq> J_null \<longrightarrow>
      map_of (g_columns r) k = Some (json_get values ''source_hash''))"
proof -
  from assms(1,3) obtain payload i where payload: "validated_values Documents values False = Inr payload"
    and upd: "update_plain_entity cast_time check Documents i payload s = Inr (Some r, s')"
    by (auto simp: update_entity_def validate_owner_def split: if_splits option.splits)
  note frame = validated_values_frame [OF payload]
  from upd obtain r0 where cols: "set_columns cast_time payload r0 = Some r"
    by (auto simp: update_plain_entity_def Let_def split: option.splits if_splits)
  note column = set_columns_column [OF _ cols frame(3) [OF assms(2)]]
  have meta: "map_of payload ''block_meta'' = (case map_of values ''block_meta'' of None \<Rightarrow> Some (J_object []) | v \<Rightarrow> v)"
    using frame(1) [of "''block_meta''"]
    by (simp add: uuid_fields_def payload_defaults_def set_default_get(1,3) map_of_copy_hash)
  have "map_of (g_columns r) k = Some v" if "(k, v) \<in> set document_defaults" "map_of values k = None" for k v
  proof -
    have "map_of payload k = Some v"
      using frame(1) [of k] document_defaults_filled [OF that] that(1) by (auto simp: document_defaults_def uuid_fields_def)
    moreover have "k \<notin> {''owner_id'', ''is_deleted'', ''deleted_at'', ''block_meta'', ''id''}"
      using that(1) by (auto simp: document_defaults_def)
    ultimately show ?thesis using column by simp
  qed
  moreover have "map_of (g_columns r) k = Some (json_get values ''source_hash'')"
    if "k \<in> {''body_sha256'', ''content_sha256''}" "map_of values k = None" "json_get values ''source_hash'' \<noteq> J_null" for k
  proof -
    have "map_of payload k = Some (json_get values ''source_hash'')"
      using frame(1) [of k] document_digest [OF that] that(1) by (auto simp: uuid_fields_def)
    moreover have "k \<notin> {''owner_id'', ''is_deleted'', ''deleted_at'', ''block_meta'', ''id''}" using that(1) by auto
    ultimately show ?thesis using column by simp
  qed
  ultimately show ?thesis using set_columns_meta [OF cols frame(3) [OF assms(2)]] meta by (auto split: option.splits)
qed

text \<open>A store that holds one document with metadata.\<close>

definition one_document :: edb where
  "one_document = \<lparr>ent_rows = [((Documents, 1), blank_row\<lparr>g_meta := [(''project'', J_str ''p'')]\<rparr>)],
     ent_texts = [], ent_links = [], ent_assignments = [], ent_registry = [(1, ''documents'')], ent_clock = 0\<rparr>"

definition title_only :: json_dict where
  "title_only = [(''title'', J_str ''x'')]"

lemma title_only_payload: "validated_values Documents title_only False = Inr
   [(''title'', J_str ''x''), (''processing_status'', J_str ''draft''), (''processing_attempt'', J_int 0),
    (''block_meta'', J_object []), (''checksum_algorithm'', J_str ''sha256''), (''needs_revectorize'', J_bool False)]"
  by code_simp

lemma title_only_updates:
  obtains r s' where "update_entity (\<lambda>_. None) (\<lambda>_ _ _. True) (\<lambda>_ _. tx_return None)
    ''documents'' (uuid_str 1) title_only one_document = Inr (r, s')"
proof -
  have "entity_table ''documents'' = Inr Documents" "List.member update_tables Documents"
    by (code_simp, simp add: update_tables_def create_tables_def)
  then have "\<not> isl (update_entity (\<lambda>_. None) (\<lambda>_ _ _. True) (\<lambda>_ _. tx_return None)
      ''documents'' (uuid_str 1) title_only one_document)"
    by (simp add: update_entity_def title_only_payload tx_bind_def tx_lift_def tx_return_def validate_owner_def
        payload_uuid_def json_get_def update_plain_entity_def one_document_def touched_def nulls_def Let_def)
  then show thesis using that by (metis isl_def old.sum.exhaust prod.exhaust)
qed

theorem document_update_erases_witness:
  "\<exists>r s'. update_entity (\<lambda>_. None) (\<lambda>_ _ _. True) (\<lambda>_ _. tx_return None)
     ''documents'' (uuid_str 1) title_only one_document = Inr (r, s') \<and> g_meta r = [] \<and>
     map_of (g_columns r) ''needs_revectorize'' = Some (J_bool False)"
proof -
  obtain r s' where run: "update_entity (\<lambda>_. None) (\<lambda>_ _ _. True) (\<lambda>_ _. tx_return None)
      ''documents'' (uuid_str 1) title_only one_document = Inr (r, s')" by (rule title_only_updates)
  have "entity_table ''documents'' = Inr Documents" by code_simp
  from document_update_erases [OF this _ run] run show ?thesis by (simp add: title_only_def document_defaults_def)
qed

section \<open>Creating a file\<close>

text \<open>
  C31: no file can be created through the service: the insert needs a primary source, and the columns
  the service lets a caller write do not include it.
\<close>

theorem create_file_refused:
  assumes "entity_table entity_type = Inr Files"
  shows "\<exists>e. create_entity cast_time check entity_type values s = Inl e"
proof (rule ccontr)
  assume "\<not> ?thesis"
  then obtain r s' where "create_entity cast_time check entity_type values s = Inr (r, s')"
    by (cases "create_entity cast_time check entity_type values s") auto
  with assms obtain payload where payload: "validated_values Files values True = Inr payload"
    and ins: "insert_entity cast_time check Files payload s = Inr (r, s')"
    by (auto simp: create_entity_def validate_owner_def split: if_splits option.splits)
  have "map_of values ''primary_source_id'' = None"
    using validated_values_frame(4) [OF payload] by (auto simp: map_of_eq_None_iff)
  then have "map_of payload ''primary_source_id'' = None"
    by (intro validated_values_frame(2) [OF payload]) (simp add: payload_defaults_def map_of_set_default split: option.splits)
  with ins show False by (auto simp: insert_entity_def split: option.splits if_splits)
qed

theorem create_file_refused_witness:
  "\<exists>e. create_entity (\<lambda>_. None) (\<lambda>_ _ _. True) ''file'' [(''id'', J_str (uuid_str 1)), (''path'', J_str ''p''),
     (''name'', J_str ''n''), (''body_sha256'', J_str ''h'')] one_document = Inl e"
  by (rule create_file_refused) code_simp

section \<open>Statements\<close>

text \<open>What a filter contributes to the text of a statement.\<close>

definition filter_shape :: "string \<Rightarrow> string" where
  "filter_shape key = (if take (length meta_prefix) key = meta_prefix then meta_prefix else key)"

lemma filter_clause_shape:
  assumes "filter_shape k = filter_shape k'"
  shows "filter_clause t n k = filter_clause t n k'"
proof (cases "take (length meta_prefix) k = meta_prefix")
  case True
  have "take (length meta_prefix) k' = meta_prefix"
    using assms True by (auto simp: filter_shape_def split: if_splits)
  with True show ?thesis by (simp add: filter_clause_def)
next
  case False
  then have "k = k'" using assms by (auto simp: filter_shape_def split: if_splits)
  then show ?thesis by simp
qed

lemma filters_sql_shape:
  assumes "map (filter_shape \<circ> fst) xs = map (filter_shape \<circ> fst) ys"
  shows "map_sum id fst (filters_sql t n xs) = map_sum id fst (filters_sql t n ys)"
  using assms
proof (induction xs arbitrary: ys n)
  case Nil
  then show ?case by simp
next
  case (Cons x xs)
  obtain k v where x: "x = (k, v)" by (cases x)
  from Cons.prems obtain y zs where y: "ys = y # zs" by (cases ys) auto
  obtain k' v' where ys: "ys = (k', v') # zs" using y by (cases y) auto
  have k: "filter_shape k = filter_shape k'"
    and rest: "map (filter_shape \<circ> fst) xs = map (filter_shape \<circ> fst) zs"
    using Cons.prems by (simp_all add: x ys comp_def)
  have "filter_clause t n k = filter_clause t n k'" by (rule filter_clause_shape [OF k])
  moreover have "map_sum id fst (filters_sql t (Suc n) xs) = map_sum id fst (filters_sql t (Suc n) zs)"
    by (rule Cons.IH [OF rest])
  ultimately show ?case
    by (cases "filter_clause t n k'"; cases "filters_sql t (Suc n) xs"; cases "filters_sql t (Suc n) zs")
      (auto simp: x ys)
qed

text \<open>
  The statements that list entities depend on the columns asked for and filtered by, never on the
  values they are compared with, nor on the names of the metadata keys: these are bound as parameters.
\<close>

theorem list_statements_bind_values:
  assumes "map (filter_shape \<circ> fst) filters = map (filter_shape \<circ> fst) filters'"
  shows "map_sum id (\<lambda>q. (q_rows q, q_count q)) (list_entities entity_type asked filters limit offset show_deleted) =
    map_sum id (\<lambda>q. (q_rows q, q_count q)) (list_entities entity_type asked filters' limit offset show_deleted)"
proof (cases "entity_table entity_type")
  case (Inr t)
  show ?thesis
  proof (cases "validated_fields t asked")
    case selected: (Inr selected)
    show ?thesis
      using filters_sql_shape [OF assms, of t 0]
      by (cases "filters_sql t 0 filters"; cases "filters_sql t 0 filters'")
        (auto simp: list_entities_def Inr selected Let_def)
  qed (simp add: list_entities_def Inr)
qed (simp add: list_entities_def)

theorem list_statements_bind_values_witness:
  "map_sum id (\<lambda>q. (q_rows q, q_count q)) (list_entities ''documents'' [] [(''block_meta.a'', J_int 1)] 50 0 False) =
   map_sum id (\<lambda>q. (q_rows q, q_count q)) (list_entities ''documents'' [] [(''block_meta.) OR (1'', J_null)] 50 0 False)"
  by (rule list_statements_bind_values) (simp add: filter_shape_def meta_prefix_def)

end
