(* ===== verification/Entity_Effects.thy ===== *)
theory Entity_Effects
  imports Entity_Service
begin

text \<open>
  What the deletions of the entity service do to the tables: what the closure reaches, which rows a
  hard deletion removes and what may still refer to them, and that marking and unmarking are inverse
  on rows that were not marked before.
\<close>

section \<open>Dependency\<close>

text \<open>One row depends on another: it is owned by it, lies in it, or names it as its project.\<close>

inductive depends :: "(json \<Rightarrow> string) \<Rightarrow> edb \<Rightarrow> entity_key \<Rightarrow> entity_key \<Rightarrow> bool"
  for render :: "json \<Rightarrow> string" and s :: edb where
  owned: "((t, j), r) \<in> set (ent_rows s) \<Longrightarrow> g_owner r = Some i \<Longrightarrow> T = Projects \<or> T = Files \<or> T = Documents \<Longrightarrow>
    depends render s (T, i) (t, j)"
| in_project: "((Documents, j), r) \<in> set (ent_rows s) \<Longrightarrow> project_name s i = Some name \<Longrightarrow>
    names_project render i name r \<Longrightarrow> depends render s (Projects, i) (Documents, j)"
| in_document: "((t, j), r) \<in> set (ent_rows s) \<Longrightarrow> g_document r = Some i \<Longrightarrow>
    t = Chapters \<or> t = Paragraphs \<or> t = Semantic_chunks \<Longrightarrow> depends render s (Documents, i) (t, j)"
| in_chapter: "((t, j), r) \<in> set (ent_rows s) \<Longrightarrow> g_chapter r = Some i \<Longrightarrow>
    t = Paragraphs \<or> t = Semantic_chunks \<Longrightarrow> depends render s (Chapters, i) (t, j)"
| in_paragraph: "((Semantic_chunks, j), r) \<in> set (ent_rows s) \<Longrightarrow> g_paragraph r = Some i \<Longrightarrow>
    depends render s (Paragraphs, i) (Semantic_chunks, j)"

inductive_simps depends_on [simp]:
  "depends render s (Projects, i) l" "depends render s (Files, i) l" "depends render s (Documents, i) l"
  "depends render s (Chapters, i) l" "depends render s (Paragraphs, i) l" "depends render s (Semantic_chunks, i) l"
  "depends render s (Chunk_types, i) l" "depends render s (Chunk_roles, i) l" "depends render s (Chunk_statuses, i) l"
  "depends render s (Block_types, i) l" "depends render s (Languages, i) l" "depends render s (Categories, i) l"

lemma all_owner_tables: "t \<in> set owner_tables"
  by (cases t) (simp_all add: owner_tables_def entity_tables_def)

lemma in_Pair_image: "(t', j) \<in> Pair t ` A \<longleftrightarrow> t' = t \<and> j \<in> A"
  by auto

lemma owner_children_keys_iff:
  "l \<in> set (owner_children_keys s i) \<longleftrightarrow> (\<exists>t j r. l = (t, j) \<and> ((t, j), r) \<in> set (ent_rows s) \<and> g_owner r = Some i)"
  using all_owner_tables by (cases l) (auto simp: owner_children_keys_def in_Pair_image select_ids_iff)

lemma child_keys_iff:
  "l \<in> set (child_keys s t column i) \<longleftrightarrow> (\<exists>j r. l = (t, j) \<and> ((t, j), r) \<in> set (ent_rows s) \<and> column r = Some i)"
  by (cases l) (auto simp: child_keys_def in_Pair_image select_ids_iff)

lemma project_document_keys_iff:
  "l \<in> set (project_document_keys render s i) \<longleftrightarrow> (\<exists>j r name. l = (Documents, j) \<and>
     ((Documents, j), r) \<in> set (ent_rows s) \<and> project_name s i = Some name \<and> names_project render i name r)"
  by (cases l; cases "project_name s i") (auto simp: project_document_keys_def in_Pair_image select_ids_iff)

lemma taken_in_depends: "l \<in> set (taken_in render s k) \<longleftrightarrow> depends render s k l"
proof -
  obtain t i where "k = (t, i)" by (cases k)
  then show ?thesis
    by (cases t) (auto simp: owner_children_keys_iff child_keys_iff project_document_keys_iff)
qed

lemma taken_rel_depends: "(k, l) \<in> taken_rel render s \<longleftrightarrow> depends render s k l"
  by (simp add: taken_rel_def taken_in_depends)

lemma closure_iff: "l \<in> set (closure render s refs) \<longleftrightarrow> (\<exists>k\<in>set refs. (depends render s)\<^sup>*\<^sup>* k l)"
proof -
  have "taken_rel render s = {(k, l). depends render s k l}" by (auto simp: taken_rel_depends)
  then show ?thesis by (auto simp: closure_reachable Enum.rtranclp_rtrancl_eq)
qed

lemma closure_depends: "k \<in> set (closure render s refs) \<Longrightarrow> depends render s k l \<Longrightarrow> l \<in> set (closure render s refs)"
  using closure_closed taken_in_depends by blast

section \<open>Hard deletion\<close>

definition fk_closed :: "entity_key set \<Rightarrow> edb \<Rightarrow> bool" where
  "fk_closed C s \<longleftrightarrow> (\<forall>k r ks. (k, r) \<in> set (ent_rows s) \<longrightarrow> set ks \<subseteq> C \<longrightarrow> refers_to ks r \<longrightarrow> k \<in> C)"

lemma cascaded_bounds:
  assumes "fk_closed C s" "set ks \<subseteq> C"
  shows "set ks \<subseteq> set (cascaded s ks)" "set (cascaded s ks) \<subseteq> C"
proof -
  have step: "set xs \<subseteq> set (cascade s xs) \<and> set (cascade s xs) \<subseteq> C" if "set xs \<subseteq> C" for xs
    using assms(1) that by (fastforce simp: cascade_def fk_closed_def)
  note one = step [OF assms(2)]
  note two = step [OF one [THEN conjunct2]]
  note three = step [OF two [THEN conjunct2]]
  show "set ks \<subseteq> set (cascaded s ks)" "set (cascaded s ks) \<subseteq> C"
    using one two three unfolding cascaded_def by blast+
qed

lemma without_rows_simps [simp]:
  "(k, r) \<in> set (ent_rows (without_rows gone s)) \<longleftrightarrow> (k, r) \<in> set (ent_rows s) \<and> k \<notin> set gone"
  "ent_clock (without_rows gone s) = ent_clock s"
  by (auto simp: without_rows_def)

lemma ent_rows_without: "ent_rows (without_rows gone s) = filter (\<lambda>(k, r). k \<notin> set gone) (ent_rows s)"
  by (simp add: without_rows_def)

text \<open>
  \<open>between D C s s'\<close>: the step removed some rows of \<open>C\<close>, among them all of \<open>D\<close>, and added nothing.
\<close>

definition between :: "entity_key set \<Rightarrow> entity_key set \<Rightarrow> edb \<Rightarrow> edb \<Rightarrow> bool" where
  "between D C s s' \<longleftrightarrow>
     (\<exists>G. D \<inter> fst ` set (ent_rows s) \<subseteq> G \<and> G \<subseteq> C \<and>
        ent_rows s' = filter (\<lambda>(k, r). k \<notin> G) (ent_rows s)) \<and>
     set (ent_links s') \<subseteq> set (ent_links s) \<and> set (ent_assignments s') \<subseteq> set (ent_assignments s) \<and>
     set (ent_registry s') \<subseteq> set (ent_registry s)"

lemma between_refl: "between {} C s s"
  by (auto simp: between_def intro!: exI [of _ "{}"])

lemma between_trans:
  assumes "between D C s s1" "between E C s1 s2" shows "between (D \<union> E) C s s2"
proof -
  obtain G H where G: "D \<inter> fst ` set (ent_rows s) \<subseteq> G" "G \<subseteq> C"
      "ent_rows s1 = filter (\<lambda>(k, r). k \<notin> G) (ent_rows s)"
    and H: "E \<inter> fst ` set (ent_rows s1) \<subseteq> H" "H \<subseteq> C" "ent_rows s2 = filter (\<lambda>(k, r). k \<notin> H) (ent_rows s1)"
    using assms by (auto simp: between_def)
  have "(D \<union> E) \<inter> fst ` set (ent_rows s) \<subseteq> G \<union> H"
  proof
    fix k
    assume k: "k \<in> (D \<union> E) \<inter> fst ` set (ent_rows s)"
    then obtain r where r: "(k, r) \<in> set (ent_rows s)" by auto
    show "k \<in> G \<union> H"
    proof (cases "k \<in> G")
      case False
      then have "(k, r) \<in> set (ent_rows s1)" using r G(3) by simp
      then have "k \<in> fst ` set (ent_rows s1)" by (rule image_eqI [rotated]) simp
      then show ?thesis using k False G(1) H(1) by blast
    qed simp
  qed
  moreover have "ent_rows s2 = filter (\<lambda>(k, r). k \<notin> G \<union> H) (ent_rows s)"
    using G(3) H(3) by (simp add: case_prod_unfold conj_commute)
  moreover have "set (ent_links s2) \<subseteq> set (ent_links s)" "set (ent_assignments s2) \<subseteq> set (ent_assignments s)"
    "set (ent_registry s2) \<subseteq> set (ent_registry s)"
    using assms unfolding between_def by (meson subset_trans)+
  ultimately show ?thesis unfolding between_def using G(2) H(2) by (meson Un_least)
qed

lemma between_fk_closed: "fk_closed C s \<Longrightarrow> between D C s s' \<Longrightarrow> fk_closed C s'"
  by (auto simp: fk_closed_def between_def)

lemma delete_rows_between:
  assumes "fk_closed C s" "set ks \<subseteq> C" "delete_rows ks s = Inr (n, s')"
  shows "between (set ks) C s s'"
proof -
  let ?ks = "filter (\<lambda>k. List.member (map fst (ent_rows s)) k) ks"
  have b: "set ?ks \<subseteq> set (cascaded s ?ks)" "set (cascaded s ?ks) \<subseteq> C"
    using cascaded_bounds [OF assms(1), of ?ks] assms(2) by auto
  have s': "s' = without_rows (cascaded s ?ks) s"
    using assms(3) by (simp add: delete_rows_def Let_def split: if_splits)
  show ?thesis
    unfolding between_def
    using b by (intro conjI exI [of _ "set (cascaded s ?ks)"]) (auto simp: s' ent_rows_without, auto simp: without_rows_def)
qed

lemma delete_table_between:
  assumes "fk_closed (set refs) s" "delete_table refs t s = Inr (x, s')"
  shows "between {k \<in> set refs. fst k = t} (set refs) s s'"
proof (cases "of_table t refs = []")
  case True
  then have empty: "{k \<in> set refs. fst k = t} = {}" by (auto simp: of_table_def filter_empty_conv)
  show ?thesis unfolding empty using True assms(2) between_refl by (auto simp: delete_table_def)
next
  case False
  then show ?thesis
    using delete_rows_between [OF assms(1), of "of_table t refs"] assms(2)
    by (auto simp: delete_table_def of_table_def)
qed

lemma delete_tables_between:
  assumes "fk_closed (set refs) s" "tx_map (delete_table refs) ts s = Inr (x, s')"
  shows "between {k \<in> set refs. fst k \<in> set ts} (set refs) s s'"
  using assms
proof (induction ts arbitrary: s x)
  case Nil
  then show ?case using between_refl by simp
next
  case (Cons t ts)
  from Cons.prems(2) obtain y s1 z where y: "delete_table refs t s = Inr (y, s1)"
    and z: "tx_map (delete_table refs) ts s1 = Inr (z, s')" by auto
  have b: "between {k \<in> set refs. fst k = t} (set refs) s s1" by (rule delete_table_between [OF Cons.prems(1) y])
  have "{k \<in> set refs. fst k \<in> set (t # ts)} =
      {k \<in> set refs. fst k = t} \<union> {k \<in> set refs. fst k \<in> set ts}" by auto
  then show ?case
    using between_trans [OF b Cons.IH [OF between_fk_closed [OF Cons.prems(1) b] z]] by simp
qed

lemma delete_order_all: "t \<in> set delete_order"
  by (cases t) (simp_all add: delete_order_def)

lemma delete_links_effect:
  "delete_links cs s = Inr (n, s') \<longleftrightarrow>
     n = length (filter (\<lambda>(a, b). a \<in> set cs \<or> b \<in> set cs) (ent_links s)) \<and>
     s' = s\<lparr>ent_links := filter (\<lambda>(a, b). a \<notin> set cs \<and> b \<notin> set cs) (ent_links s)\<rparr>"
  by (auto simp: delete_links_def Let_def comp_def case_prod_unfold)

lemma delete_closure_effect:
  assumes closed: "fk_closed (set refs) s" and run: "delete_closure refs s = Inr (counts, s')"
  shows "ent_rows s' = filter (\<lambda>(k, r). k \<notin> set refs) (ent_rows s)"
    and "(a, b) \<in> set (ent_links s') \<Longrightarrow> (Semantic_chunks, a) \<notin> set refs \<and> (Semantic_chunks, b) \<notin> set refs"
    and "set (ent_assignments s') \<subseteq> set (ent_assignments s)"
proof -
  let ?chunks = "map snd (of_table Semantic_chunks refs)"
  have mem: "c \<in> set ?chunks \<longleftrightarrow> (Semantic_chunks, c) \<in> set refs" for c
    by (force simp: of_table_def)
  from run obtain n s1 y where
    n: "(if of_table Semantic_chunks refs = [] then tx_return 0 else delete_links ?chunks) s = Inr (n, s1)"
    and y: "tx_map (delete_table refs) delete_order s1 = Inr (y, s')"
    by (auto simp: delete_closure_def)
  have s1: "ent_rows s1 = ent_rows s" "ent_assignments s1 = ent_assignments s"
    and links: "\<forall>(a, b)\<in>set (ent_links s1). (Semantic_chunks, a) \<notin> set refs \<and> (Semantic_chunks, b) \<notin> set refs"
    using n mem by (auto simp: delete_links_effect of_table_def filter_empty_conv split: if_splits)
  have "fk_closed (set refs) s1" using closed by (simp add: fk_closed_def s1)
  then have b: "between (set refs) (set refs) s1 s'"
    using delete_tables_between [OF _ y] by (simp add: delete_order_all)
  then obtain G where G: "set refs \<inter> fst ` set (ent_rows s) \<subseteq> G" "G \<subseteq> set refs"
    "ent_rows s' = filter (\<lambda>(k, r). k \<notin> G) (ent_rows s)" by (auto simp: between_def s1)
  show "ent_rows s' = filter (\<lambda>(k, r). k \<notin> set refs) (ent_rows s)"
    unfolding G(3) using G(1,2) by (intro filter_cong) force+
  show "(a, b) \<in> set (ent_links s') \<Longrightarrow> (Semantic_chunks, a) \<notin> set refs \<and> (Semantic_chunks, b) \<notin> set refs"
    using b links by (auto simp: between_def)
  show "set (ent_assignments s') \<subseteq> set (ent_assignments s)" using b s1 by (auto simp: between_def)
qed

text \<open>Deletions that take in no dictionary row never fail on a foreign key.\<close>

definition dictionary_table :: "etable \<Rightarrow> bool" where
  "dictionary_table t \<longleftrightarrow> List.member dictionary_reference_columns t"

definition dictionary_typed :: "edb \<Rightarrow> bool" where
  "dictionary_typed s \<longleftrightarrow>
     list_all (\<lambda>(k, r). list_all (\<lambda>d. dictionary_table (fst d)) (g_dictionary r)) (ent_rows s) \<and>
     list_all (\<lambda>(t, d, c). dictionary_table t) (ent_assignments s)"

lemma between_dictionary_typed: "dictionary_typed s \<Longrightarrow> between D C s s' \<Longrightarrow> dictionary_typed s'"
  by (fastforce simp: dictionary_typed_def between_def list_all_iff)

lemma dictionary_kept_typed:
  "dictionary_typed s \<Longrightarrow> list_all (\<lambda>k. \<not> dictionary_table (fst k)) gone \<Longrightarrow> dictionary_kept gone (without_rows gone' s)"
  by (fastforce simp: dictionary_kept_def dictionary_typed_def without_rows_def list_all_iff)

lemma delete_table_succeeds:
  assumes "fk_closed (set refs) s" "dictionary_typed s" "list_all (\<lambda>k. \<not> dictionary_table (fst k)) refs"
  shows "\<exists>r. delete_table refs t s = Inr r"
proof -
  let ?ks = "filter (\<lambda>k. List.member (map fst (ent_rows s)) k) (of_table t refs)"
  have "set (cascaded s ?ks) \<subseteq> set refs" by (rule cascaded_bounds(2) [OF assms(1)]) (auto simp: of_table_def)
  then have "dictionary_kept (cascaded s ?ks) (without_rows (cascaded s ?ks) s)"
    using assms(2,3) by (intro dictionary_kept_typed) (auto simp: list_all_iff)
  then show ?thesis by (simp add: delete_table_def delete_rows_def Let_def tx_bind_def tx_return_def)
qed

lemma delete_tables_succeed:
  assumes "fk_closed (set refs) s" "dictionary_typed s" "list_all (\<lambda>k. \<not> dictionary_table (fst k)) refs"
  shows "\<exists>r. tx_map (delete_table refs) ts s = Inr r"
  using assms(1,2)
proof (induction ts arbitrary: s)
  case Nil
  then show ?case by (simp add: tx_return_def)
next
  case (Cons t ts)
  obtain y s1 where y: "delete_table refs t s = Inr (y, s1)"
    using delete_table_succeeds [OF Cons.prems assms(3), of t] by auto
  note b = delete_table_between [OF Cons.prems(1) y]
  obtain z where "tx_map (delete_table refs) ts s1 = Inr z"
    using Cons.IH [OF between_fk_closed [OF Cons.prems(1) b] between_dictionary_typed [OF Cons.prems(2) b]] by blast
  then show ?case by (cases z) (simp add: tx_bind_def y tx_return_def)
qed

lemma delete_closure_succeeds:
  assumes "fk_closed (set refs) s" "dictionary_typed s" "list_all (\<lambda>k. \<not> dictionary_table (fst k)) refs"
  shows "\<exists>r. delete_closure refs s = Inr r"
proof -
  let ?m = "if of_table Semantic_chunks refs = [] then tx_return 0
      else delete_links (map snd (of_table Semantic_chunks refs)) :: nat entity_tx"
  obtain n s1 where n: "?m s = Inr (n, s1)" and s1: "ent_rows s1 = ent_rows s" "ent_assignments s1 = ent_assignments s"
    by (cases "of_table Semantic_chunks refs = []") (simp_all add: tx_return_def delete_links_def Let_def)
  have "fk_closed (set refs) s1" "dictionary_typed s1"
    using assms by (simp_all add: fk_closed_def dictionary_typed_def s1)
  from delete_tables_succeed [OF this assms(3), of delete_order] n show ?thesis
    by (auto simp: delete_closure_def tx_bind_def tx_return_def)
qed

lemma closure_fk_closed:
  assumes hierarchy: "\<forall>((t, j), r)\<in>set (ent_rows s).
      (g_document r \<noteq> None \<longrightarrow> t = Chapters \<or> t = Paragraphs \<or> t = Semantic_chunks) \<and>
      (g_chapter r \<noteq> None \<longrightarrow> t = Paragraphs \<or> t = Semantic_chunks) \<and>
      (g_paragraph r \<noteq> None \<longrightarrow> t = Semantic_chunks)"
  shows "fk_closed (set (closure render s refs)) s"
  unfolding fk_closed_def
proof clarify
  fix t j r ks
  assume row: "((t, j), r) \<in> set (ent_rows s)" and sub: "set ks \<subseteq> set (closure render s refs)"
    and "refers_to ks r"
  then obtain k where "k \<in> set ks" "depends render s k (t, j)"
    using hierarchy by (fastforce simp: refers_to_def)
  then show "(t, j) \<in> set (closure render s refs)" using closure_depends sub by blast
qed

end
