(* ===== verification/Entity_Properties.thy ===== *)
theory Entity_Properties
  imports Entity_Effects
begin

text \<open>
  The properties of the entity service: what a hard deletion leaves behind, what it overlooks, and
  the deletion marker as an operation that can be undone.
\<close>

section \<open>Typed rows\<close>

text \<open>Only the rows of the hierarchy have the columns of their place in it.\<close>

definition entity_typed :: "edb \<Rightarrow> bool" where
  "entity_typed s \<longleftrightarrow> list_all (\<lambda>((t, j), r).
     (g_document r \<noteq> None \<longrightarrow> t = Chapters \<or> t = Paragraphs \<or> t = Semantic_chunks) \<and>
     (g_chapter r \<noteq> None \<longrightarrow> t = Paragraphs \<or> t = Semantic_chunks) \<and>
     (g_paragraph r \<noteq> None \<longrightarrow> t = Semantic_chunks) \<and>
     (g_dictionary r \<noteq> [] \<longrightarrow> t = Semantic_chunks)) (ent_rows s) \<and>
   dictionary_typed s"

lemma typed_fk_closed: "entity_typed s \<Longrightarrow> fk_closed (set (closure render s refs)) s"
  by (rule closure_fk_closed) (auto simp: entity_typed_def list_all_iff)

lemma references_of_dictionary:
  assumes "dictionary_table t" "references_of render s refs (t, i) = []"
    and "((Semantic_chunks, j), r) \<in> set (ent_rows s)" "(t, i) \<in> set (g_dictionary r)"
  shows "(Semantic_chunks, j) \<in> set refs"
proof -
  have "outside refs Semantic_chunks (select_ids s Semantic_chunks (\<lambda>r. (t, i) \<in> set (g_dictionary r))) = []"
    using assms(1,2) by (cases t) (simp_all add: dictionary_table_def dictionary_reference_columns_def external_fk_rows_def)
  then show ?thesis using assms(3,4) by (auto simp: outside_def filter_empty_conv select_ids_iff)
qed

lemma hard_delete_commits:
  assumes "entity_typed s" "entity_table entity_type = Inr t" "roots_for t ids s = Inr (roots, s)"
    and "list_all (\<lambda>k. \<not> dictionary_table (fst k)) (closure render s (dict_fromkeys roots))"
    and "references_to render s (closure render s (dict_fromkeys roots)) = []"
  shows "\<exists>counts s'. hard_delete render entity_type ids s = Inr (counts, s')"
proof -
  obtain counts s' where "delete_closure (closure render s (dict_fromkeys roots)) s = Inr (counts, s')"
    using delete_closure_succeeds [OF typed_fk_closed [OF assms(1)] _ assms(4)] assms(1)
    by (auto simp: entity_typed_def)
  then show ?thesis using assms by (simp add: hard_delete_def)
qed

lemma hard_delete_run:
  assumes "hard_delete render entity_type ids s = Inr (counts, s')" "entity_table entity_type = Inr t"
    "roots_for t ids s = Inr (roots, s)" "roots \<noteq> []"
  shows "references_to render s (closure render s (dict_fromkeys roots)) = []"
    "delete_closure (closure render s (dict_fromkeys roots)) s = Inr (counts, s')"
  using assms by (auto simp: hard_delete_def split: if_splits)

text \<open>
  C27: a hard deletion that commits removes exactly the entities that depend on its roots, by
  ownership, containment or project name, and keeps every other row as it was; no remaining row lies
  in a removed document, chapter or paragraph, is owned by a removed project, file or document or
  names a removed dictionary row, and no remaining link touches a removed chunk.
\<close>

theorem hard_delete_removes_dependents:
  assumes "entity_typed s" "hard_delete render entity_type ids s = Inr (counts, s')"
    and "entity_table entity_type = Inr t" "roots_for t ids s = Inr (roots, s)" "roots \<noteq> []"
  shows "ent_rows s' =
      filter (\<lambda>(k, r). \<not> List.member (closure render s (dict_fromkeys roots)) k) (ent_rows s) \<and>
    (\<forall>l. List.member (closure render s (dict_fromkeys roots)) l \<longleftrightarrow>
      (\<exists>k. List.member roots k \<and> (depends render s)\<^sup>*\<^sup>* k l)) \<and>
    (\<forall>k l r. List.member (closure render s (dict_fromkeys roots)) k \<and> (l, r) \<in> set (ent_rows s') \<longrightarrow>
      \<not> depends render s k l \<and> (dictionary_table (fst k) \<longrightarrow> k \<notin> set (g_dictionary r))) \<and>
    (\<forall>a b. (a, b) \<in> set (ent_links s') \<longrightarrow>
      \<not> List.member (closure render s (dict_fromkeys roots)) (Semantic_chunks, a) \<and>
      \<not> List.member (closure render s (dict_fromkeys roots)) (Semantic_chunks, b))"
    (is "?rows \<and> ?members \<and> ?refs \<and> ?links")
proof (intro conjI)
  let ?C = "closure render s (dict_fromkeys roots)"
  note run = hard_delete_run [OF assms(2-5)]
  note effect = delete_closure_effect [OF typed_fk_closed [OF assms(1)] run(2)]
  show ?rows using effect(1) by simp
  show ?members by (simp add: closure_iff Bex_def)
  show ?links using effect(2) by simp
  show ?refs
  proof clarify
    fix T i t j r
    assume k: "List.member ?C (T, i)" and l: "((t, j), r) \<in> set (ent_rows s')"
    from l have row: "((t, j), r) \<in> set (ent_rows s)" "(t, j) \<notin> set ?C" by (auto simp: effect(1))
    have "(T, i) \<notin> set (g_dictionary r)" if dict: "dictionary_table T"
    proof
      assume named: "(T, i) \<in> set (g_dictionary r)"
      then have chunk: "t = Semantic_chunks"
        using assms(1) row(1) by (fastforce simp: entity_typed_def list_all_iff)
      have "references_of render s ?C (T, i) = []" using run(1) k by (simp add: references_to_empty)
      then show False using references_of_dictionary [OF dict] row named chunk by blast
    qed
    moreover have "\<not> depends render s (T, i) (t, j)" using closure_depends k row(2) by auto
    ultimately show "\<not> depends render s (T, i) (t, j) \<and> (dictionary_table (fst (T, i)) \<longrightarrow> (T, i) \<notin> set (g_dictionary r))"
      by simp
  qed
qed

text \<open>
  A small store: a document with a chapter, a second document, an empty chapter of the second
  document, and a file that this chapter owns.
\<close>

definition plain_entity :: entity_row where
  "plain_entity = \<lparr>g_owner = None, g_document = None, g_chapter = None, g_paragraph = None,
     g_dictionary = [], g_meta = [], g_deleted = False, g_deleted_at = None, g_columns = []\<rparr>"

definition toy_entities :: edb where
  "toy_entities = \<lparr>ent_rows =
      [((Documents, 1), plain_entity), ((Chapters, 2), plain_entity\<lparr>g_document := Some 1\<rparr>),
       ((Documents, 3), plain_entity), ((Chapters, 4), plain_entity\<lparr>g_document := Some 3\<rparr>),
       ((Files, 5), plain_entity\<lparr>g_owner := Some 4\<rparr>)],
     ent_texts = [], ent_links = [], ent_assignments = [],
     ent_registry = [(1, ''documents''), (2, ''chapters''), (3, ''documents''), (4, ''chapters''), (5, ''files'')],
     ent_clock = 0\<rparr>"

lemma toy_typed: "entity_typed toy_entities"
  by (simp add: toy_entities_def plain_entity_def entity_typed_def dictionary_typed_def)

lemma toy_newly_taken:
  "newly_taken (\<lambda>_. []) toy_entities [(Documents, 1)] = [(Chapters, 2)]"
  "newly_taken (\<lambda>_. []) toy_entities [(Documents, 1), (Chapters, 2)] = []"
  by code_simp+

lemma toy_closure: "closure (\<lambda>_. []) toy_entities [(Documents, 1)] = [(Documents, 1), (Chapters, 2)]"
  by (subst closure.simps, subst closure.simps) (simp add: toy_newly_taken)

lemma toy_roots: "roots_for Documents [uuid_str 1] toy_entities = Inr ([(Documents, 1)], toy_entities)"
  by (simp add: roots_for_def parse_ids_def tx_bind_def tx_lift_def tx_return_def)

lemma toy_hard_delete:
  obtains counts s' where "hard_delete (\<lambda>_. []) ''documents'' [uuid_str 1] toy_entities = Inr (counts, s')"
proof -
  have "references_to (\<lambda>_. []) toy_entities [(Documents, 1), (Chapters, 2)] = []" by code_simp
  moreover have "entity_table ''documents'' = Inr Documents" by code_simp
  ultimately show thesis
    using hard_delete_commits [OF toy_typed _ toy_roots, of "''documents''" "\<lambda>_. []"] that
    by (auto simp: toy_closure dict_fromkeys_def dictionary_table_def dictionary_reference_columns_def)
qed

theorem hard_delete_removes_dependents_witness:
  "\<exists>counts s'. hard_delete (\<lambda>_. []) ''documents'' [uuid_str 1] toy_entities = Inr (counts, s') \<and>
     ent_rows s' = drop 2 (ent_rows toy_entities)"
proof -
  obtain counts s' where run: "hard_delete (\<lambda>_. []) ''documents'' [uuid_str 1] toy_entities = Inr (counts, s')"
    by (rule toy_hard_delete)
  have "entity_table ''documents'' = Inr Documents" by code_simp
  from hard_delete_removes_dependents [OF toy_typed run this toy_roots] run
  show ?thesis by (simp add: dict_fromkeys_def toy_closure) (simp add: toy_entities_def)
qed

section \<open>An owner that is overlooked\<close>

lemma lone_closure: "taken_in render s k = [] \<Longrightarrow> closure render s [k] = [k]"
  by (subst closure.simps) (simp add: newly_taken_def dict_fromkeys_def Let_def)

lemma entity_table_chapters: "entity_table ''chapters'' = Inr Chapters"
  by code_simp

lemma empty_chapter:
  assumes "list_all (\<lambda>(k, r). g_chapter r \<noteq> Some i) (ent_rows s)"
  shows "taken_in render s (Chapters, i) = []" "references_of render s refs (Chapters, i) = []"
    "cascaded s [(Chapters, i)] = [(Chapters, i)]"
proof -
  have none: "select_ids s t (\<lambda>r. g_chapter r = Some i) = []" for t
    using assms by (auto simp: select_ids_def filter_empty_conv list_all_iff)
  show "taken_in render s (Chapters, i) = []" "references_of render s refs (Chapters, i) = []"
    by (simp_all add: child_keys_def external_fk_rows_def outside_def none)
  have "filter (\<lambda>(k, r). refers_to [(Chapters, i)] r) (ent_rows s) = []"
    using assms by (auto simp: refers_to_def filter_empty_conv list_all_iff)
  then have "cascade s [(Chapters, i)] = [(Chapters, i)]" by (simp add: cascade_def)
  then show "cascaded s [(Chapters, i)] = [(Chapters, i)]" by (simp add: cascaded_def)
qed

lemma delete_lone_chapter:
  assumes "list_all (\<lambda>(k, r). g_chapter r \<noteq> Some i) (ent_rows s)"
    and "List.member (map fst (ent_rows s)) (Chapters, i)" "dictionary_typed s"
  shows "\<exists>counts. delete_closure [(Chapters, i)] s = Inr (counts, without_rows [(Chapters, i)] s)"
proof -
  have "dictionary_kept [(Chapters, i)] (without_rows [(Chapters, i)] s)"
    using assms(3) by (rule dictionary_kept_typed) (simp add: dictionary_table_def dictionary_reference_columns_def)
  then show ?thesis
    using assms
    by (auto simp: delete_closure_def delete_order_def delete_table_def of_table_def delete_rows_def empty_chapter
        tx_bind_def tx_return_def)
qed

lemma unregistered:
  assumes "distinct (map fst regs)" "map_of regs i = Some n"
  shows "map_of (filter (\<lambda>(j, m). (j, m) \<noteq> (i, n)) regs) i = None"
proof -
  have "m = n" if "(i, m) \<in> set regs" for m using assms that by simp
  then show ?thesis by (auto simp: map_of_eq_None_iff)
qed

text \<open>
  C28: the deletion set and the safety check follow \<open>owner_id\<close> only to projects, files and documents,
  while an entity of any table may own others: the hard deletion of an empty chapter (or of a chunk or
  a dictionary row) that owns a file goes through and leaves the file with an owner that no longer
  exists.
\<close>

theorem hard_delete_dangling_owner:
  assumes present: "List.member (map fst (ent_rows s)) (Chapters, i)"
    and alone: "list_all (\<lambda>(k, r). g_chapter r \<noteq> Some i) (ent_rows s)"
    and registered: "map_of (ent_registry s) i = Some ''chapters''" "distinct (map fst (ent_registry s))"
    and owned: "((Files, j), r) \<in> set (ent_rows s)" "g_owner r = Some i"
    and typed: "entity_typed s"
    and id: "uuid_of_string entity_id = Some i"
  shows "\<exists>counts s'. hard_delete render ''chapters'' [entity_id] s = Inr (counts, s') \<and>
    ((Files, j), r) \<in> set (ent_rows s') \<and> g_owner r = Some i \<and>
    \<not> List.member (map fst (ent_rows s')) (Chapters, i) \<and> map_of (ent_registry s') i = None"
proof -
  let ?s' = "without_rows [(Chapters, i)] s"
  have roots: "roots_for Chapters [entity_id] s = Inr ([(Chapters, i)], s)"
    using id by (simp add: roots_for_def parse_ids_def)
  obtain counts where "delete_closure [(Chapters, i)] s = Inr (counts, ?s')"
    using delete_lone_chapter [OF alone present] typed by (auto simp: entity_typed_def)
  then have "hard_delete render ''chapters'' [entity_id] s = Inr (counts, ?s')"
    using roots lone_closure [OF empty_chapter(1) [OF alone], of render]
    by (simp add: hard_delete_def entity_table_chapters dict_fromkeys_def empty_chapter [OF alone]
        references_to_empty del: references_of.simps)
  moreover have "map_of (ent_registry ?s') i = None"
    using unregistered [OF registered(2,1)] by (simp add: without_rows_def)
  ultimately show ?thesis using owned by (auto simp: without_rows_def)
qed

theorem hard_delete_dangling_owner_witness:
  "\<exists>counts s'. hard_delete (\<lambda>_. []) ''chapters'' [uuid_str 4] toy_entities = Inr (counts, s') \<and>
     map_of (ent_registry s') 4 = None"
  using hard_delete_dangling_owner [where s = toy_entities and i = 4 and j = 5 and entity_id = "uuid_str 4"
      and r = "plain_entity\<lparr>g_owner := Some 4\<rparr>" and render = "\<lambda>_. []", OF _ _ _ _ _ _ toy_typed]
  by (auto simp: toy_entities_def plain_entity_def)

section \<open>Marking and unmarking\<close>

lemma map_of_map_with_key: "map_of (map (\<lambda>(k, v). (k, f k v)) xs) k = map_option (f k) (map_of xs k)"
  by (induction xs) auto

text \<open>The tables with some rows marked, at a later time.\<close>

definition marked_at :: "bool \<Rightarrow> entity_key list \<Rightarrow> instant \<Rightarrow> edb \<Rightarrow> edb" where
  "marked_at d refs now s = mark_rows d refs s\<lparr>ent_clock := now\<rparr>"

lemma select_ids_mark:
  assumes "\<And>b now r. P (marked b now r) = P r"
  shows "select_ids (marked_at d refs now s) t P = select_ids s t P"
  by (simp add: select_ids_def marked_at_def mark_rows_def filter_map comp_def case_prod_unfold
      if_distrib [of P] assms cong: if_cong)

lemma taken_in_mark: "taken_in render (marked_at d refs now s) k = taken_in render s k"
proof -
  have name: "project_name (marked_at d refs now s) i = project_name s i" for i
    by (simp add: project_name_def marked_at_def mark_rows_def map_of_map_with_key marked_def split: option.splits)
  have named: "select_ids (marked_at d refs now s) t (names_project render i n) =
      select_ids s t (names_project render i n)" for t i n
    by (rule select_ids_mark) (simp add: names_project_def marked_def)
  show ?thesis
    by (cases "(render, s, k)" rule: taken_in.cases)
      (simp_all add: owner_children_keys_def child_keys_def project_document_keys_def
        select_ids_mark name named marked_def split: option.splits)
qed

lemma closure_mark: "closure render (marked_at d refs now s) roots = closure render s roots"
proof -
  have "closure render s' roots = closure render s roots"
    if "\<And>k. taken_in render s' k = taken_in render s k" for s'
    using that
  proof (induction render s roots rule: closure.induct)
    case (1 render s roots)
    have same: "newly_taken render s' roots = newly_taken render s roots"
      using 1(2) by (simp add: newly_taken_def cong: map_cong)
    show ?case
      using 1(1) [OF refl] 1(2) by (subst (1 2) closure.simps) (simp add: Let_def same)
  qed
  then show ?thesis using taken_in_mark by blast
qed

lemma roots_for_mark:
  "roots_for t ids s = Inr (roots, s) \<Longrightarrow>
   roots_for t ids (marked_at d refs now s) = Inr (roots, marked_at d refs now s)"
  by (auto simp: roots_for_def select_ids_mark split: if_splits)

lemma set_deleted_run:
  "set_deleted refs d s = Inr (map (\<lambda>t. (table_name t,
     length (filter (\<lambda>(k, r). fst k = t \<and> List.member refs k) (ent_rows s)))) (dict_fromkeys (map fst refs)),
     mark_rows d refs s)"
  by (simp add: set_deleted_def tx_bind_def tx_write_def tx_read_def mark_rows_def filter_map comp_def
      case_prod_unfold)

lemma mark_deleted_run:
  assumes "entity_table entity_type = Inr t" "roots_for t ids s = Inr (roots, s)"
  shows "mark_deleted render d entity_type ids s =
    (if roots = [] then Inr ([], s) else set_deleted (closure render s (dict_fromkeys roots)) d s)"
  using assms by (simp add: mark_deleted_def tx_bind_def tx_lift_def tx_read_def tx_return_def)

lemma unmark_mark:
  assumes "list_all (\<lambda>(k, r). List.member refs k \<longrightarrow> \<not> g_deleted r \<and> g_deleted_at r = None) (ent_rows s)"
  shows "mark_rows False refs (marked_at True refs now s) = s\<lparr>ent_clock := now\<rparr>"
proof -
  have "marked False m (marked True n r) = r" if "\<not> g_deleted r" "g_deleted_at r = None" for r m n
    using that by (cases r) (simp add: marked_def)
  then have "map (\<lambda>(k, r). (k, if List.member refs k then marked False now r else r))
      (map (\<lambda>(k, r). (k, if List.member refs k then marked True (ent_clock s) r else r)) (ent_rows s)) = ent_rows s"
    using assms by (auto simp: list_all_iff intro!: map_idI)
  then show ?thesis by (simp add: mark_rows_def marked_at_def del: map_map cong: if_cong)
qed

text \<open>
  C29: undoing a soft deletion gives every row back as it was, whenever it happens, provided the deletion
  took in no row that was marked already.
\<close>

theorem undelete_restores:
  assumes "entity_table entity_type = Inr t" "roots_for t ids s = Inr (roots, s)"
    and unmarked: "list_all (\<lambda>(k, r). List.member (closure render s (dict_fromkeys roots)) k \<longrightarrow>
      \<not> g_deleted r \<and> g_deleted_at r = None) (ent_rows s)"
  shows "\<exists>counts s'. soft_delete_entities render entity_type ids s = Inr (counts, s') \<and>
    (\<forall>now. undelete_entities render entity_type ids (s'\<lparr>ent_clock := now\<rparr>) = Inr (counts, s\<lparr>ent_clock := now\<rparr>))"
proof (cases "roots = []")
  case True
  then have "undelete_entities render entity_type ids (s\<lparr>ent_clock := now\<rparr>) = Inr ([], s\<lparr>ent_clock := now\<rparr>)" for now
    using mark_deleted_run [OF assms(1) roots_for_mark [OF assms(2), of False "[]" now]]
    by (simp add: undelete_entities_def marked_at_def mark_rows_def case_prod_unfold)
  then show ?thesis using mark_deleted_run [OF assms(1,2)] True by (simp add: soft_delete_entities_def)
next
  case False
  let ?C = "closure render s (dict_fromkeys roots)"
  have soft: "soft_delete_entities render entity_type ids s = set_deleted ?C True s"
    using mark_deleted_run [OF assms(1,2)] False by (simp add: soft_delete_entities_def)
  have "undelete_entities render entity_type ids (marked_at True ?C now s) =
      set_deleted ?C False (marked_at True ?C now s)" for now
    using mark_deleted_run [OF assms(1) roots_for_mark [OF assms(2)]] False
    by (simp add: undelete_entities_def closure_mark)
  moreover have "filter P (ent_rows (marked_at True ?C now s)) = map (\<lambda>(k, r).
      (k, if List.member ?C k then marked True (ent_clock s) r else r)) (filter P (ent_rows s))"
    if "\<And>k r r'. P (k, r) = P (k, r')" for P now
    using that by (auto simp: marked_at_def mark_rows_def filter_map comp_def intro!: arg_cong [where f = "map _"] filter_cong)
  ultimately show ?thesis
    using unmark_mark [OF unmarked] by (simp add: soft set_deleted_run marked_at_def)
qed

theorem undelete_restores_witness:
  "\<exists>counts s'. soft_delete_entities (\<lambda>_. []) ''documents'' [uuid_str 1] toy_entities = Inr (counts, s') \<and>
    undelete_entities (\<lambda>_. []) ''documents'' [uuid_str 1] (s'\<lparr>ent_clock := 7\<rparr>) =
      Inr (counts, toy_entities\<lparr>ent_clock := 7\<rparr>)"
proof -
  have "entity_table ''documents'' = Inr Documents" by code_simp
  from undelete_restores [OF this toy_roots]
  show ?thesis by (fastforce simp: toy_entities_def plain_entity_def)
qed

end
