(* ===== verification/Entity_Tree.thy ===== *)
theory Entity_Tree
  imports Entity_Properties
begin

text \<open>
  The owner tree is finite whatever the owners are: its depth and its branching stay within the
  bounds asked for, no entity is expanded below itself, and a full page is reported as truncated.
\<close>

text \<open>A tree within a depth and a page, below the entities of a path.\<close>

fun tree_within :: "nat \<Rightarrow> int \<Rightarrow> uuid list \<Rightarrow> owner_node \<Rightarrow> bool" where
  "tree_within depth page path (Owner_node k preview children truncated cycle) \<longleftrightarrow>
     int (length children) \<le> page \<and> (children \<noteq> [] \<longrightarrow> 0 < depth) \<and>
     (cycle \<longleftrightarrow> List.member path (snd k)) \<and> (cycle \<longrightarrow> children = []) \<and>
     (int (length children) = page \<longrightarrow> truncated \<or> cycle) \<and>
     list_all (tree_within (depth - 1) page (snd k # path)) children"

lemma owner_children_from_length:
  "int (length found) \<le> page \<Longrightarrow> int (length (owner_children_from ordered s d owner page ts found)) \<le> page"
proof (induction ts arbitrary: found)
  case (Cons t ts)
  show ?case
  proof (cases "page - int (length found) \<le> 0")
    case False
    then show ?thesis by (simp add: Let_def) (rule Cons.IH, simp)
  qed (use Cons.prems in \<open>simp add: Let_def\<close>)
qed simp

lemma owner_children_length: "0 \<le> page \<Longrightarrow> int (length (owner_children ordered s d owner page)) \<le> page"
  by (simp add: owner_children_def owner_children_from_length)

lemma map_result_set: "map_result f xs = Inr ys \<Longrightarrow> y \<in> set ys \<Longrightarrow> \<exists>x\<in>set xs. f x = Inr y"
  by (induction xs arbitrary: ys) auto

lemma owner_tree_node_within:
  "0 < page \<Longrightarrow> owner_tree_node limit ordered s d page n path k = Inr node \<Longrightarrow> tree_within n page path node"
proof (induction n arbitrary: path k node)
  case 0
  then show ?case by (auto simp: owner_node_at_def split: if_splits option.splits)
next
  case (Suc n)
  show ?case
  proof (cases "List.member path (snd k)")
    case True
    then show ?thesis using Suc.prems by (auto simp: owner_node_at_def)
  next
    case False
    let ?children = "owner_children ordered s d (snd k) page"
    from Suc.prems(2) False obtain preview nodes where
      node: "node = Owner_node k preview nodes (page \<le> int (length ?children)) False"
      and nodes: "map_result (owner_tree_node limit ordered s d page n (snd k # path)) ?children = Inr nodes"
      by (auto simp: owner_node_at_def Let_def split: option.splits)
    have "list_all (tree_within n page (snd k # path)) nodes"
      using map_result_set [OF nodes] Suc.IH [OF Suc.prems(1)] by (fastforce simp: list_all_iff)
    then show ?thesis
      using False owner_children_length [of page ordered s d "snd k"] map_result_length [OF nodes] Suc.prems(1)
      by (simp add: node)
  qed
qed

text \<open>
  C32: every owner tree is finite, even when entities own each other in a circle: it is no deeper than
  the depth asked for, no node has more children than the page, an entity that would reappear below
  itself is a leaf marked as a cycle (and only such an entity is), and a full page is marked truncated.
\<close>

theorem owner_tree_bounded:
  assumes "owner_tree limit ordered s entity_id entity_type max_depth page include_deleted = Inr node"
  shows "tree_within (nat max_depth) page [] node \<and> max_depth \<le> 20 \<and> page \<le> 500"
  using assms owner_tree_node_within [of page limit ordered s include_deleted "nat max_depth" "[]"]
  by (auto simp: owner_tree_def split: if_splits option.splits)

text \<open>Two files that own each other.\<close>

definition owner_circle :: edb where
  "owner_circle = \<lparr>ent_rows = [((Files, 1), plain_entity\<lparr>g_owner := Some 2\<rparr>), ((Files, 2), plain_entity\<lparr>g_owner := Some 1\<rparr>)],
     ent_texts = [], ent_links = [], ent_assignments = [], ent_registry = [(1, ''files''), (2, ''files'')],
     ent_clock = 0\<rparr>"

lemma owner_circle_children:
  "owner_children (\<lambda>_ rows. rows) owner_circle False 1 5 = [(Files, 2)]"
  "owner_children (\<lambda>_ rows. rows) owner_circle False 2 5 = [(Files, 1)]"
  by (simp_all add: owner_children_def owner_tree_table_order_def owned_rows_def owner_circle_def plain_entity_def)

theorem owner_tree_bounded_witness:
  "\<exists>node. owner_tree 10 (\<lambda>_ rows. rows) owner_circle (uuid_str 1) None 3 5 False = Inr node \<and>
     tree_within 3 5 [] node"
proof -
  have "registered_table owner_circle 1 = Inr Files"
    by (simp add: registered_table_def owner_circle_def table_of_name_def owner_tree_table_order_def)
  then have "\<not> isl (owner_tree 10 (\<lambda>_ rows. rows) owner_circle (uuid_str 1) None 3 5 False)"
    by (simp add: owner_tree_def numeral_3_eq_3 owner_node_at_def preview_row_def owner_circle_children)
      (simp add: owner_circle_def plain_entity_def)
  then obtain node where "owner_tree 10 (\<lambda>_ rows. rows) owner_circle (uuid_str 1) None 3 5 False = Inr node"
    by (metis isl_def old.sum.exhaust)
  with owner_tree_bounded [OF this] show ?thesis by simp
qed

end
