(* ===== verification/Query_Plan.thy ===== *)
theory Query_Plan
  imports Py_Json Complex_Main
begin

text \<open>
  The compiler of search queries (\<open>query/compiler.py\<close>): which retrieval a query asks for, its bounds and
  its predicates. The query model \<open>ChunkQuery\<close> and the chunk model are third-party code: \<open>query_fields\<close>
  and \<open>chunk_fields\<close> are their field names and \<open>validate\<close> is \<open>ChunkQuery.model_validate\<close> followed by
  \<open>model_dump\<close>. \<open>parse_int\<close> and \<open>parse_float\<close> are \<open>int\<close> and \<open>float\<close> of a string.
\<close>

datatype query_error =
    Query_contract | Query_field "string list" | Query_mode | Query_predicate string

datatype execution_mode = Structured | Full_text | Semantic | Hybrid

fun mode_value :: "execution_mode \<Rightarrow> string" where
  "mode_value Structured = ''structured''"
| "mode_value Full_text = ''full_text''"
| "mode_value Semantic = ''semantic''"
| "mode_value Hybrid = ''hybrid''"

datatype operator = Equals | Contains

record predicate =
  p_column :: string
  p_operator :: operator
  p_value :: json
  p_parameter :: string

datatype embedding = Flat "rat list" | Nested "rat list list"

record execution_plan =
  l_mode :: execution_mode
  l_predicates :: "predicate list"
  l_text :: "string option"
  l_fields :: "string list"
  l_embedding :: "embedding option"
  l_bm25_k1 :: json
  l_bm25_b :: json
  l_bm25_weight :: json
  l_semantic_weight :: json
  l_min_score :: json
  l_limit :: "int option"
  l_offset :: int
  l_order_by :: "string list"

section \<open>Numbers\<close>

text \<open>\<open>int(value)\<close> and \<open>float(value)\<close> of a JSON value; \<open>None\<close> where Python raises.\<close>

definition py_int :: "(string \<Rightarrow> int option) \<Rightarrow> json \<Rightarrow> int option" where
  "py_int parse_int v = (case v of
       J_int n \<Rightarrow> Some n | J_bool b \<Rightarrow> Some (if b then 1 else 0) | J_str t \<Rightarrow> parse_int t | _ \<Rightarrow> None)"

definition py_float :: "(string \<Rightarrow> rat option) \<Rightarrow> json \<Rightarrow> rat option" where
  "py_float parse_float v = (case v of
       J_int n \<Rightarrow> Some (of_int n) | J_bool b \<Rightarrow> Some (if b then 1 else 0) | J_str t \<Rightarrow> parse_float t | _ \<Rightarrow> None)"

definition is_bool :: "json \<Rightarrow> bool" where
  "is_bool v = (case v of J_bool b \<Rightarrow> True | _ \<Rightarrow> False)"

definition bounded_int :: "(string \<Rightarrow> int option) \<Rightarrow> json \<Rightarrow> int \<Rightarrow> int \<Rightarrow> (query_error, int) result" where
  "bounded_int parse_int v minimum maximum =
     (if is_bool v then Inl Query_contract
      else case py_int parse_int v of
        None \<Rightarrow> Inl Query_contract
      | Some n \<Rightarrow> if n < minimum \<or> maximum < n then Inl Query_contract else Inr n)"

text \<open>
  \<open>_limit\<close>: without a limit of its own the plan takes \<open>max_results\<close>, an integer or nothing by
  \<open>ChunkQuery\<close>, as it is.
\<close>

definition int_or_none :: "json \<Rightarrow> int option" where
  "int_or_none v = (case v of J_int n \<Rightarrow> Some n | _ \<Rightarrow> None)"

definition plan_limit ::
  "(string \<Rightarrow> int option) \<Rightarrow> json_dict \<Rightarrow> string list \<Rightarrow> (query_error, int option) result" where
  "plan_limit parse_int values provided =
     (let max_results = json_get values ''max_results'' in
      if \<not> List.member provided ''limit'' then Inr (int_or_none max_results)
      else bind_result (bounded_int parse_int (json_get values ''limit'') 1 1000) (\<lambda>limit.
        if List.member provided ''max_results'' \<and> max_results \<noteq> J_null \<and> py_int parse_int max_results \<noteq> Some limit
        then Inl Query_contract else Inr (Some limit)))"

definition plan_offset ::
  "(string \<Rightarrow> int option) \<Rightarrow> json_dict \<Rightarrow> string list \<Rightarrow> (query_error, int) result" where
  "plan_offset parse_int values provided =
     (if \<not> List.member provided ''offset'' then Inr 0
      else bounded_int parse_int (json_get values ''offset'') 0 100000)"

text \<open>\<open>_normalise_embedding\<close>; a value that \<open>float\<close> refuses raises.\<close>

definition float_or_raise :: "(string \<Rightarrow> rat option) \<Rightarrow> json \<Rightarrow> (query_error, rat) result" where
  "float_or_raise parse_float v = (case py_float parse_float v of None \<Rightarrow> Inl Query_mode | Some x \<Rightarrow> Inr x)"

fun row_items :: "json \<Rightarrow> (query_error, json list) result" where
  "row_items (J_list xs) = Inr xs"
| "row_items (J_str s) = Inr (map (\<lambda>c. J_str [c]) s)"
| "row_items (J_object d) = Inr (map (\<lambda>(k, v). J_str k) d)"
| "row_items _ = Inl Query_mode"

definition normalise_embedding ::
  "(string \<Rightarrow> rat option) \<Rightarrow> json \<Rightarrow> (query_error, embedding option) result" where
  "normalise_embedding parse_float v = (case v of
       J_null \<Rightarrow> Inr None
     | J_list (J_list row # rows) \<Rightarrow>
         bind_result (map_result (\<lambda>r. bind_result (row_items r) (map_result (float_or_raise parse_float)))
           (J_list row # rows)) (\<lambda>xss. Inr (Some (Nested xss)))
     | J_list xs \<Rightarrow> bind_result (map_result (float_or_raise parse_float) xs) (\<lambda>xs. Inr (Some (Flat xs)))
     | _ \<Rightarrow> Inl Query_mode)"

section \<open>Predicates\<close>

definition query_extension_fields :: "string list" where
  "query_extension_fields = [''limit'', ''offset'']"

definition control_fields :: "string list" where
  "control_fields =
     [''search_query'', ''search_fields'', ''bm25_k1'', ''bm25_b'', ''hybrid_search'', ''bm25_weight'',
      ''semantic_weight'', ''min_score'', ''max_results'', ''limit'', ''offset'', ''filter_expr'']"

definition filter_fields :: "string list \<Rightarrow> string list" where
  "filter_fields chunk_fields =
     filter (\<lambda>f. \<not> List.member (''embedding'' # control_fields) f) (dict_fromkeys chunk_fields)"

definition text_fields :: "string list" where
  "text_fields = [''body'', ''text'', ''summary'', ''title'']"

definition is_str :: "json \<Rightarrow> bool" where
  "is_str v = (case v of J_str s \<Rightarrow> True | _ \<Rightarrow> False)"

definition predicate_of :: "string \<Rightarrow> json \<Rightarrow> nat \<Rightarrow> (query_error, predicate) result" where
  "predicate_of field v n =
     (let made = (\<lambda>op. Inr \<lparr>p_column = field, p_operator = op, p_value = v, p_parameter = ''p'' @ nat_digits n\<rparr>) in
      if field = ''block_meta''
      then (case v of J_object d \<Rightarrow> made Contains | _ \<Rightarrow> Inl (Query_predicate field))
      else case v of
        J_object d \<Rightarrow> Inl (Query_predicate field)
      | J_list xs \<Rightarrow> if field = ''tags'' \<or> field = ''links''
          then (if list_all is_str xs then made Contains else Inl (Query_predicate field)) else made Equals
      | _ \<Rightarrow> if field = ''tags'' \<or> field = ''links'' then Inl (Query_predicate field) else made Equals)"

fun predicates_from ::
  "json_dict \<Rightarrow> string list \<Rightarrow> string list \<Rightarrow> nat \<Rightarrow> (query_error, predicate list) result" where
  "predicates_from values provided [] n = Inr []"
| "predicates_from values provided (field # ordered) n =
     (if \<not> List.member provided field \<or> json_get values field = J_null
      then predicates_from values provided ordered n
      else bind_result (predicate_of field (json_get values field) n) (\<lambda>p.
        bind_result (predicates_from values provided ordered (Suc n)) (\<lambda>ps. Inr (p # ps))))"

definition compile_predicates ::
  "string list \<Rightarrow> json_dict \<Rightarrow> string list \<Rightarrow> (query_error, predicate list) result" where
  "compile_predicates chunk_fields values provided =
     predicates_from values provided (sort (filter_fields chunk_fields)) 0"

section \<open>Compilation\<close>

definition plan_mode :: "bool \<Rightarrow> bool \<Rightarrow> execution_mode" where
  "plan_mode has_text has_embedding =
     (if has_text \<and> has_embedding then Hybrid else if has_text then Full_text
      else if has_embedding then Semantic else Structured)"

text \<open>The names in \<open>search_fields\<close>; \<open>None\<close> counts as no names.\<close>

definition name_items :: "json \<Rightarrow> (query_error, string list) result" where
  "name_items v =
     (if \<not> json_true v then Inr []
      else bind_result (row_items v) (map_result (\<lambda>x. case x of J_str s \<Rightarrow> Inr s | _ \<Rightarrow> Inl (Query_field []))))"

definition compile_query ::
  "string list \<Rightarrow> string list \<Rightarrow> (json_dict \<Rightarrow> json_dict option) \<Rightarrow> (string \<Rightarrow> int option) \<Rightarrow>
   (string \<Rightarrow> rat option) \<Rightarrow> json_dict \<Rightarrow> string list \<Rightarrow> (query_error, execution_plan) result" where
  "compile_query query_fields chunk_fields validate parse_int parse_float query provided =
     (let unknown = sort (filter (\<lambda>f. \<not> List.member (query_fields @ query_extension_fields) f)
            (dict_fromkeys (map fst query)))
      in if unknown \<noteq> [] then Inl (Query_field unknown)
      else if json_get query ''filter_expr'' \<noteq> J_null then Inl (Query_predicate ''filter_expr'')
      else case validate query of
        None \<Rightarrow> Inl Query_contract
      | Some values \<Rightarrow>
          bind_result (normalise_embedding parse_float (json_get values ''embedding'')) (\<lambda>embedding.
          let hybrid = json_true (json_get values ''hybrid_search'');
              wanted = (case json_get values ''search_query'' of
                J_str t \<Rightarrow> if py_strip t = [] then None else Some t | _ \<Rightarrow> None);
              has_text = (wanted \<noteq> None); has_embedding = (embedding \<noteq> None);
              mode = plan_mode has_text has_embedding;
              ranked = (mode = Full_text \<or> mode = Hybrid)
          in if hybrid \<and> \<not> (has_text \<and> has_embedding) then Inl Query_mode
          else bind_result (name_items (json_get values ''search_fields'')) (\<lambda>names.
            if \<not> list_all (List.member text_fields) names then Inl (Query_field [])
            else
              bind_result (compile_predicates chunk_fields values provided) (\<lambda>predicates.
              bind_result (plan_limit parse_int values provided) (\<lambda>limit.
              bind_result (plan_offset parse_int values provided) (\<lambda>offset.
              Inr \<lparr>l_mode = mode, l_predicates = predicates, l_text = wanted, l_fields = names,
                l_embedding = embedding,
                l_bm25_k1 = (if ranked then json_get values ''bm25_k1'' else J_null),
                l_bm25_b = (if ranked then json_get values ''bm25_b'' else J_null),
                l_bm25_weight = (if mode = Hybrid then json_get values ''bm25_weight'' else J_null),
                l_semantic_weight = (if mode = Hybrid then json_get values ''semantic_weight'' else J_null),
                l_min_score = (if mode \<noteq> Structured then json_get values ''min_score'' else J_null),
                l_limit = limit, l_offset = offset, l_order_by = []\<rparr>))))))"

section \<open>What a plan satisfies\<close>

lemma char_of_digit_inj: "i < 10 \<Longrightarrow> j < 10 \<Longrightarrow> (char_of (48 + i) = (char_of (48 + j) :: char)) \<longleftrightarrow> i = (j :: nat)"
proof
  assume "i < 10" "j < 10" "char_of (48 + i) = (char_of (48 + j) :: char)"
  then have "(of_char (char_of (48 + i) :: char) :: nat) = of_char (char_of (48 + j) :: char)" by simp
  with \<open>i < 10\<close> \<open>j < 10\<close> show "i = j" by (simp add: take_bit_eq_mod)
qed simp

lemma nat_digits_nonempty: "nat_digits n \<noteq> []"
  by (subst nat_digits.simps) simp

lemma nat_digits_inj: "nat_digits m = nat_digits n \<Longrightarrow> m = n"
proof (induction m arbitrary: n rule: nat_digits.induct)
  case (1 m)
  have one: "n < 10" if "m < 10"
  proof (rule ccontr)
    assume "\<not> n < 10"
    then have "nat_digits n = nat_digits (n div 10) @ [char_of (48 + n mod 10)]" by (subst nat_digits.simps) simp
    with "1.prems" that show False
      using nat_digits_nonempty [of "n div 10"] nat_digits.simps [of m] by simp
  qed
  have two: "m < 10" if "n < 10"
  proof (rule ccontr)
    assume "\<not> m < 10"
    then have "nat_digits m = nat_digits (m div 10) @ [char_of (48 + m mod 10)]" by (subst nat_digits.simps) simp
    with "1.prems" that show False
      using nat_digits_nonempty [of "m div 10"] nat_digits.simps [of n] by simp
  qed
  show ?case
  proof (cases "m < 10")
    case True
    with one "1.prems" show ?thesis
      using nat_digits.simps [of m] nat_digits.simps [of n] by (simp add: char_of_digit_inj)
  next
    case False
    then have n: "\<not> n < 10" using two by blast
    have "nat_digits (m div 10) @ [char_of (48 + m mod 10)] = nat_digits (n div 10) @ [char_of (48 + n mod 10)]"
      using "1.prems" False n nat_digits.simps [of m] nat_digits.simps [of n] by simp
    then have "m div 10 = n div 10" "m mod 10 = n mod 10"
      using "1.IH" [OF False] by (simp_all add: char_of_digit_inj)
    then show ?thesis by (metis div_mult_mod_eq)
  qed
qed

lemma predicate_of_parts:
  "predicate_of field v n = Inr p \<Longrightarrow> p_column p = field \<and> p_parameter p = ''p'' @ nat_digits n"
  by (auto simp: predicate_of_def Let_def split: json.splits if_splits)

lemma predicates_from_parameters:
  "predicates_from values provided ordered n = Inr ps \<Longrightarrow>
     map p_parameter ps = map (\<lambda>i. ''p'' @ nat_digits i) [n..<n + length ps] \<and>
     set (map p_column ps) \<subseteq> set ordered"
proof (induction "values" provided ordered n arbitrary: ps rule: predicates_from.induct)
  case (2 vals provided field ordered n)
  show ?case
  proof (cases "\<not> List.member provided field \<or> json_get vals field = J_null")
    case True
    with 2 show ?thesis by auto
  next
    case False
    with "2.prems" obtain p qs where p: "predicate_of field (json_get vals field) n = Inr p"
      and qs: "predicates_from vals provided ordered (Suc n) = Inr qs" and ps: "ps = p # qs"
      by auto
    have "[n..<n + length ps] = n # [Suc n..<Suc n + length qs]" by (simp add: ps upt_conv_Cons del: upt_Suc)
    with "2.IH"(2) [OF False qs] predicate_of_parts [OF p] show ?thesis
      by (auto simp: ps simp del: upt_Suc)
  qed
qed simp

lemma distinct_parameters:
  assumes "predicates_from values provided ordered n = Inr ps"
  shows "distinct (map p_parameter ps)"
  using predicates_from_parameters [OF assms] by (auto simp: distinct_map inj_on_def dest: nat_digits_inj)

end
