(* ===== verification/Query_Sql.thy ===== *)
theory Query_Sql
  imports Query_Plan
begin

text \<open>
  The statements of the executors (\<open>query/full_text.py\<close>, \<open>query/semantic.py\<close>, the structured search of
  \<open>query/runtime_boundary.py\<close> and the fragments of \<open>query/chunk_payload.py\<close>) as texts with bound
  parameters; a run of white space in the source's templates is one space here. The database runs them.
\<close>

section \<open>Shared fragments\<close>

definition quoted :: "string \<Rightarrow> string" where
  "quoted s = char_of (39::nat) # s @ [char_of (39::nat)]"

definition classifier_select_sql :: string where
  "classifier_select_sql =
     ''COALESCE(ct.descr, sc.chunk_type, 'DocBlock') AS chunk_type_descr, '' @
     ''cr.descr AS role_descr, cs.descr AS status_descr, bt.descr AS block_type_descr, '' @
     ''lang.descr AS language_descr, cat.descr AS category_descr''"

definition classifier_join_sql :: string where
  "classifier_join_sql =
     ''LEFT JOIN semantic_chunk_type_assignments AS scta ON scta.chunk_uuid = sc.id '' @
     ''LEFT JOIN chunk_types AS ct ON ct.id = COALESCE(scta.chunk_type_id, sc.chunk_type_id) '' @
     ''LEFT JOIN semantic_chunk_role_assignments AS scra ON scra.chunk_uuid = sc.id '' @
     ''LEFT JOIN chunk_roles AS cr ON cr.id = COALESCE(scra.role_id, sc.role_id) '' @
     ''LEFT JOIN semantic_chunk_status_assignments AS scsa ON scsa.chunk_uuid = sc.id '' @
     ''LEFT JOIN chunk_statuses AS cs ON cs.id = COALESCE(scsa.status_id, sc.status_id) '' @
     ''LEFT JOIN semantic_chunk_block_type_assignments AS scbta ON scbta.chunk_uuid = sc.id '' @
     ''LEFT JOIN block_types AS bt ON bt.id = COALESCE(scbta.block_type_id, sc.block_type_id) '' @
     ''LEFT JOIN semantic_chunk_language_assignments AS scla ON scla.chunk_uuid = sc.id '' @
     ''LEFT JOIN languages AS lang ON lang.id = COALESCE(scla.language_id, sc.language_id) '' @
     ''LEFT JOIN semantic_chunk_category_assignments AS scca ON scca.chunk_uuid = sc.id '' @
     ''LEFT JOIN categories AS cat ON cat.id = COALESCE(scca.category_id, sc.category_id)''"

definition chunk_text_join_sql :: string where
  "chunk_text_join_sql = ''JOIN semantic_chunk_texts AS sct ON sct.chunk_uuid = sc.id''"

definition chunk_text_column_sql :: string where
  "chunk_text_column_sql = ''sct.text''"

definition chunk_columns_sql :: string where
  "chunk_columns_sql =
     ''SELECT sc.id, sc.document_id, sc.paragraph_id, sc.chapter_id, sc.order_index, sct.text AS text, '' @
     ''sc.source_start, sc.source_end, sc.char_count, sc.chunk_type, sc.block_meta, '' @
     classifier_select_sql @ '', ''"

section \<open>Predicates\<close>

definition named_columns :: "(string \<times> string) list" where
  "named_columns =
     [(''uuid'', ''sc.id''), (''document_id'', ''sc.document_id''), (''paragraph_id'', ''sc.paragraph_id''),
      (''chapter_id'', ''sc.chapter_id''), (''ordinal'', ''sc.order_index''), (''order_index'', ''sc.order_index''),
      (''source_start'', ''sc.source_start''), (''source_end'', ''sc.source_end''),
      (''char_count'', ''sc.char_count''), (''chunk_type'', ''sc.chunk_type''), (''score'', ''sc.score''),
      (''search_weight'', ''sc.search_weight''), (''block_meta'', ''sc.block_meta''),
      (''project'', ''sc.block_meta ->> '' @ quoted ''project''), (''source'', ''sc.block_meta ->> '' @ quoted ''source''),
      (''source_id'', ''sc.document_id''), (''block_id'', ''sc.paragraph_id''),
      (''body'', chunk_text_column_sql), (''text'', chunk_text_column_sql),
      (''summary'', ''sc.block_meta ->> '' @ quoted ''summary''), (''title'', ''d.title''),
      (''type'', ''COALESCE(ct.descr, sc.chunk_type, 'DocBlock')''), (''role'', ''cr.descr''),
      (''status'', ''cs.descr''), (''block_type'', ''bt.descr''), (''language'', ''lang.descr''),
      (''category'', ''cat.descr'')]"

definition metadata_fields :: "string list" where
  "metadata_fields =
     [''block_id'', ''block_index'', ''block_meta'', ''block_type'', ''boundary_next'', ''boundary_prev'',
      ''category'', ''chunking_version'', ''cohesion'', ''coverage'', ''created_at'', ''embedding_model'', ''end'',
      ''feedback_accepted'', ''feedback_modifications'', ''feedback_rejected'', ''is_code_chunk'', ''is_public'',
      ''language'', ''link_parent'', ''link_related'', ''metrics'', ''role'', ''sha256'', ''source_lines_end'',
      ''source_lines_start'', ''source_path'', ''start'', ''status'', ''subtask_id'', ''tags_flat'', ''task_id'',
      ''type'', ''unit_id'', ''used_in_generation'', ''year'', ''quality_score'']"

definition runtime_metadata_fields :: "string list" where
  "runtime_metadata_fields =
     [''block_id'', ''block_index'', ''block_meta'', ''boundary_next'', ''boundary_prev'', ''chunking_version'',
      ''cohesion'', ''coverage'', ''created_at'', ''embedding_model'', ''end'', ''feedback_accepted'',
      ''feedback_modifications'', ''feedback_rejected'', ''is_code_chunk'', ''is_public'', ''link_parent'',
      ''link_related'', ''metrics'', ''sha256'', ''source_lines_end'', ''source_lines_start'', ''source_path'',
      ''start'', ''subtask_id'', ''tags_flat'', ''task_id'', ''unit_id'', ''used_in_generation'', ''year'',
      ''quality_score'']"

text \<open>\<open>_PREDICATE_COLUMNS.setdefault\<close> for every metadata field.\<close>

definition predicate_columns :: "string list \<Rightarrow> (string \<times> string) list" where
  "predicate_columns metadata = fold (\<lambda>f columns. if map_of columns f = None
     then columns @ [(f, ''sc.block_meta ->> '' @ quoted f)] else columns) metadata named_columns"

definition predicate_column :: "string list \<Rightarrow> string \<Rightarrow> string option" where
  "predicate_column metadata f = (case map_of (predicate_columns metadata) f of
       Some c \<Rightarrow> Some c
     | None \<Rightarrow> if List.member [''tags'', ''links'', ''block_meta''] f
         then Some (''sc.block_meta -> '' @ quoted f) else None)"

section \<open>Clauses\<close>

text \<open>
  \<open>json.dumps(value)\<close> with its default separators: characters outside the printable ASCII range are
  escaped.
\<close>

definition dumps_char :: "char \<Rightarrow> string" where
  "dumps_char c = (let n = (of_char c :: nat) in
     if n = 127 \<or> 128 \<le> n
     then [char_of (92::nat), CHR ''u'', CHR ''0'', CHR ''0'', hex_digit (n div 16), hex_digit (n mod 16)]
     else json_escape c)"

definition dumps_str :: "string \<Rightarrow> string" where
  "dumps_str s = (let q = char_of (34::nat) in q # concat (map dumps_char s) @ [q])"

fun json_dumps :: "json \<Rightarrow> string" where
  "json_dumps J_null = ''null''"
| "json_dumps (J_bool b) = (if b then ''true'' else ''false'')"
| "json_dumps (J_int n) = int_str n"
| "json_dumps (J_str s) = dumps_str s"
| "json_dumps (J_list xs) = ''['' @ joined '', '' (map json_dumps xs) @ '']''"
| "json_dumps (J_object d) =
     ''{'' @ joined '', '' (map (\<lambda>(k, v). dumps_str k @ '': '' @ json_dumps v) d) @ ''}''"

definition predicate_clause :: "string list \<Rightarrow> predicate \<Rightarrow> string option" where
  "predicate_clause metadata p = (case predicate_column metadata (p_column p) of
       None \<Rightarrow> None
     | Some c \<Rightarrow> Some (case p_operator p of
           Contains \<Rightarrow> c @ '' @> CAST(:'' @ p_parameter p @ '' AS jsonb)''
         | Equals \<Rightarrow> c @ '' = :'' @ p_parameter p))"

definition bound_value :: "predicate \<Rightarrow> json" where
  "bound_value p = (case p_operator p of Contains \<Rightarrow> J_str (json_dumps (p_value p)) | Equals \<Rightarrow> p_value p)"

text \<open>\<open>_predicate_sql\<close>: a predicate of an unknown column raises.\<close>

datatype execution_error =
    Unsupported_predicate string | Wrong_plan execution_mode | Empty_search_text | Unsupported_field string
  | Malformed_row | No_vector

fun predicate_sql ::
  "string list \<Rightarrow> predicate list \<Rightarrow> json_dict \<Rightarrow> (execution_error, string list \<times> json_dict) result" where
  "predicate_sql metadata [] params = Inr ([], params)"
| "predicate_sql metadata (p # ps) params = (case predicate_clause metadata p of
       None \<Rightarrow> Inl (Unsupported_predicate (p_column p))
     | Some c \<Rightarrow> bind_result (predicate_sql metadata ps (dict_set params (p_parameter p) (bound_value p)))
         (\<lambda>(clauses, params). Inr (c # clauses, params)))"

section \<open>Full text\<close>

definition field_expression :: "string \<Rightarrow> (execution_error, string) result" where
  "field_expression field =
     (if field = ''body'' \<or> field = ''text'' then Inr (''coalesce('' @ chunk_text_column_sql @ '', '' @ quoted [] @ '')'')
      else if field = ''summary'' then Inr (''coalesce(sc.block_meta ->> '' @ quoted field @ '', '' @ quoted [] @ '')'')
      else if field = ''title'' then Inr (''coalesce(d.title, '' @ quoted [] @ '')'')
      else Inl (Unsupported_field field))"

definition field_weight :: "string \<Rightarrow> string" where
  "field_weight field = (if field = ''title'' then ''A'' else if field = ''summary'' then ''B'' else ''C'')"

definition searched_fields :: "execution_plan \<Rightarrow> string list" where
  "searched_fields plan = (if l_fields plan = [] then text_fields else l_fields plan)"

definition simple_query :: string where
  "simple_query = ''plainto_tsquery('' @ quoted ''simple'' @ '', :query_text)''"

definition weighted_vector :: "string \<Rightarrow> string \<Rightarrow> string" where
  "weighted_vector field expression =
     ''setweight(to_tsvector('' @ quoted ''simple'' @ '', '' @ expression @ ''), '' @ quoted (field_weight field) @ '')''"

definition matches_field :: "string \<Rightarrow> string" where
  "matches_field expression =
     ''CASE WHEN to_tsvector('' @ quoted ''simple'' @ '', '' @ expression @ '') @@ '' @ simple_query @ '' THEN ''"

definition highlighted_field :: "string \<Rightarrow> string \<Rightarrow> string" where
  "highlighted_field field expression =
     quoted field @ '', '' @ matches_field expression @ ''ts_headline('' @ quoted ''simple'' @ '', '' @ expression @ '', '' @
     simple_query @ '', '' @ quoted ''MaxFragments=2,MaxWords=35'' @ '') ELSE NULL END''"

fun order_terms :: "(string \<times> string) list \<Rightarrow> string list \<Rightarrow> string list" where
  "order_terms allowed [] = [''sc.order_index ASC'', ''sc.id ASC'']"
| "order_terms allowed (f # fs) =
     (case map_of allowed f of None \<Rightarrow> order_terms allowed fs | Some c \<Rightarrow> c # order_terms allowed fs)"

definition shared_orders :: "(string \<times> string) list" where
  "shared_orders =
     [(''score'', ''sc.score DESC NULLS LAST''), (''ordinal'', ''sc.order_index ASC''),
      (''order_index'', ''sc.order_index ASC''), (''title'', ''d.title ASC''), (''uuid'', ''sc.id ASC'')]"

definition page_sql :: "execution_plan \<Rightarrow> string" where
  "page_sql plan = (if l_limit plan = None then [] else '' LIMIT :limit'') @
     (if l_offset plan = 0 then [] else '' OFFSET :offset'')"

definition page_params :: "execution_plan \<Rightarrow> json_dict \<Rightarrow> json_dict" where
  "page_params plan params =
     (let limited = (case l_limit plan of None \<Rightarrow> params | Some n \<Rightarrow> dict_set params ''limit'' (J_int n))
      in if l_offset plan = 0 then limited else dict_set limited ''offset'' (J_int (l_offset plan)))"

definition full_text_statement ::
  "execution_plan \<Rightarrow> (execution_error, string \<times> json_dict) result" where
  "full_text_statement plan =
     (if l_mode plan \<noteq> Full_text then Inl (Wrong_plan (l_mode plan))
      else case l_text plan of
        None \<Rightarrow> Inl Empty_search_text
      | Some wanted \<Rightarrow>
          if py_strip wanted = [] then Inl Empty_search_text
          else
            bind_result (map_result field_expression (searched_fields plan)) (\<lambda>expressions.
            bind_result (predicate_sql metadata_fields (l_predicates plan) [(''query_text'', J_str wanted)])
              (\<lambda>(predicates, params).
            let vector = joined '' || '' (map2 weighted_vector (searched_fields plan) expressions);
                matched = joined '', '' (map2 (\<lambda>f e. matches_field e @ quoted f @ '' END'') (searched_fields plan) expressions);
                highlights = joined '', '' (map2 highlighted_field (searched_fields plan) expressions);
                rank = ''ts_rank_cd('' @ vector @ '', '' @ simple_query @ '')''
            in Inr (chunk_columns_sql @
                 ''('' @ rank @ '' / (1.0 + '' @ rank @ '')) AS relevance, '' @
                 ''ARRAY_REMOVE(ARRAY['' @ matched @ ''], NULL) AS matched_fields, '' @
                 ''jsonb_strip_nulls(jsonb_build_object('' @ highlights @ '')) AS highlights '' @
                 ''FROM semantic_chunks AS sc '' @ chunk_text_join_sql @
                 '' JOIN documents AS d ON d.id = sc.document_id '' @ classifier_join_sql @ '' WHERE '' @
                 joined '' AND '' ([vector @ '' @@ '' @ simple_query, ''sc.deleted_at IS NULL''] @ predicates) @
                 '' ORDER BY relevance DESC, '' @
                 joined '', '' (order_terms ((''relevance'', ''relevance DESC'') # shared_orders) (l_order_by plan)) @
                 page_sql plan,
               page_params plan params))))"

section \<open>Semantic and structured\<close>

definition similarity_sql :: string where
  "similarity_sql = ''(1.0 - (sce.vector <=> CAST(:query_vector AS vector)))''"

definition semantic_statement ::
  "execution_plan \<Rightarrow> json \<Rightarrow> string \<Rightarrow> int \<Rightarrow> (execution_error, string \<times> json_dict) result" where
  "semantic_statement plan vector model dimension =
     (if l_mode plan \<noteq> Semantic then Inl (Wrong_plan (l_mode plan))
      else
        bind_result (predicate_sql metadata_fields (l_predicates plan)
          [(''query_vector'', vector), (''embedding_model'', J_str model), (''embedding_dimension'', J_int dimension)])
          (\<lambda>(predicates, params).
        let scored = (l_min_score plan \<noteq> J_null);
            params = (if scored then dict_set params ''min_score'' (l_min_score plan) else params);
            clauses = [''sc.deleted_at IS NULL'', ''sce.active IS TRUE'', ''sce.model = :embedding_model'',
              ''sce.dimension = :embedding_dimension'', ''sce.chunk_version_id = scc.version_id''] @ predicates @
              (if scored then [similarity_sql @ '' >= :min_score''] else [])
        in Inr (chunk_columns_sql @ similarity_sql @ '' AS semantic_score '' @
             ''FROM semantic_chunks AS sc '' @ chunk_text_join_sql @
             '' JOIN semantic_chunk_current AS scc ON scc.chunk_uuid = sc.id'' @
             '' JOIN semantic_chunk_embeddings AS sce ON sce.chunk_uuid = sc.id'' @
             '' JOIN documents AS d ON d.id = sc.document_id '' @ classifier_join_sql @ '' WHERE '' @
             joined '' AND '' clauses @ '' ORDER BY '' @
             joined '', '' (order_terms ((''semantic_score'', ''semantic_score DESC'') # shared_orders) (l_order_by plan)) @
             page_sql plan,
           page_params plan params)))"

definition structured_statement ::
  "execution_plan \<Rightarrow> (execution_error, string \<times> json_dict) result" where
  "structured_statement plan =
     bind_result (predicate_sql runtime_metadata_fields (l_predicates plan) []) (\<lambda>(predicates, params).
     Inr (chunk_columns_sql @ ''1.0 AS semantic_score FROM semantic_chunks AS sc '' @ chunk_text_join_sql @
          '' JOIN documents AS d ON d.id = sc.document_id '' @ classifier_join_sql @ '' WHERE '' @
          joined '' AND '' (''sc.deleted_at IS NULL'' # predicates) @
          '' ORDER BY d.created_at ASC, sc.order_index ASC, sc.id ASC'' @ page_sql plan,
        page_params plan params))"

end
