(* ===== verification/Query_Results.thy ===== *)
theory Query_Results
  imports Query_Sql
begin

text \<open>
  From the rows of the database to search results (\<open>query/chunk_payload.py\<close> and the row mappings of
  \<open>query/full_text.py\<close> and \<open>query/semantic.py\<close>), the executors, the embedding responses they read, and
  the dispatch of a plan to the owner of its mode (\<open>query/backend.py\<close>). A row is a dictionary of JSON
  values; \<open>number\<close> is \<open>float\<close> of a value (\<open>None\<close> when it raises or is not finite), \<open>make_chunk\<close> the
  validating constructor of the chunk model, \<open>run\<close> the execution of a statement by the database.
\<close>

datatype evidence = Score rat | Label string

record 'c search_result =
  x_id :: string
  x_chunk :: 'c
  x_bm25 :: "rat option"
  x_semantic :: "rat option"
  x_hybrid :: "rat option"
  x_rank :: int
  x_matched :: "string list"
  x_highlights :: json_dict
  x_evidence :: "(string \<times> evidence) list"

section \<open>Rows\<close>

definition row_value :: "json_dict \<Rightarrow> string \<Rightarrow> (execution_error, json) result" where
  "row_value row name = (case map_of row name of None \<Rightarrow> Inl Malformed_row | Some v \<Rightarrow> Inr v)"

definition row_classifiers :: "json_dict \<Rightarrow> (string \<times> json) list" where
  "row_classifiers row =
     [(''type'', json_or (json_or (json_get row ''chunk_type_descr'') (json_get row ''chunk_type'')) (J_str ''DocBlock'')),
      (''role'', json_get row ''role_descr''), (''status'', json_get row ''status_descr''),
      (''block_type'', json_get row ''block_type_descr''), (''language'', json_get row ''language_descr''),
      (''category'', json_get row ''category_descr'')]"

definition chunk_payload_from_row :: "json_dict \<Rightarrow> (execution_error, json_dict) result" where
  "chunk_payload_from_row row =
     bind_result (row_value row ''block_meta'') (\<lambda>block_meta.
     case block_meta of
       J_object meta \<Rightarrow>
         bind_result (row_value row ''id'') (\<lambda>i.
         bind_result (row_value row ''document_id'') (\<lambda>document.
         bind_result (row_value row ''paragraph_id'') (\<lambda>paragraph.
         bind_result (row_value row ''text'') (\<lambda>body.
         bind_result (row_value row ''order_index'') (\<lambda>ordinal.
         bind_result (row_value row ''source_start'') (\<lambda>start.
         bind_result (row_value row ''source_end'') (\<lambda>finish.
         let classifiers = row_classifiers row;
             metadata = fold (\<lambda>(k, v) m. if v = J_null then m else dict_set m k v) classifiers meta
         in Inr ([(''uuid'', J_str (json_str i)), (''source_id'', J_str (json_str document)),
              (''block_id'', J_str (json_str paragraph))] @ classifiers @
             [(''body'', body), (''text'', body), (''ordinal'', ordinal), (''start'', start), (''end'', finish),
              (''block_meta'', J_object metadata)]))))))))
     | _ \<Rightarrow> Inl Malformed_row)"

definition chunk_from_row :: "(json_dict \<Rightarrow> 'c option) \<Rightarrow> json_dict \<Rightarrow> (execution_error, 'c) result" where
  "chunk_from_row make_chunk row =
     bind_result (case json_get row ''chunk_payload'' of
         J_object payload \<Rightarrow> Inr payload | _ \<Rightarrow> chunk_payload_from_row row) (\<lambda>payload.
     case make_chunk payload of None \<Rightarrow> Inl Malformed_row | Some c \<Rightarrow> Inr c)"

definition clamp :: "rat \<Rightarrow> rat" where
  "clamp x = max 0 (min 1 x)"

definition row_score :: "(json \<Rightarrow> rat option) \<Rightarrow> json_dict \<Rightarrow> string \<Rightarrow> (execution_error, rat) result" where
  "row_score number row name = bind_result (row_value row name) (\<lambda>v.
     case number v of None \<Rightarrow> Inl Malformed_row | Some x \<Rightarrow> Inr (clamp x))"

definition listed_strings :: "json \<Rightarrow> (execution_error, string list) result" where
  "listed_strings v = (if \<not> json_true v then Inr []
     else case v of J_list xs \<Rightarrow> Inr (map json_str xs) | _ \<Rightarrow> Inl Malformed_row)"

definition object_items :: "json \<Rightarrow> (execution_error, json_dict) result" where
  "object_items v = (if \<not> json_true v then Inr []
     else case v of J_object d \<Rightarrow> Inr d | _ \<Rightarrow> Inl Malformed_row)"

definition full_text_result ::
  "(json \<Rightarrow> rat option) \<Rightarrow> (json_dict \<Rightarrow> 'c option) \<Rightarrow> json_dict \<Rightarrow> int \<Rightarrow> (execution_error, 'c search_result) result" where
  "full_text_result number make_chunk row rank =
     bind_result (row_score number row ''relevance'') (\<lambda>score.
     bind_result (bind_result (row_value row ''matched_fields'') listed_strings) (\<lambda>matched.
     bind_result (bind_result (row_value row ''highlights'') object_items) (\<lambda>highlights.
     bind_result (chunk_from_row make_chunk row) (\<lambda>chunk.
     bind_result (row_value row ''id'') (\<lambda>i.
     Inr \<lparr>x_id = json_str i, x_chunk = chunk, x_bm25 = Some score, x_semantic = None, x_hybrid = None,
       x_rank = rank, x_matched = matched, x_highlights = highlights,
       x_evidence = [(''relevance'', Score score)]\<rparr>)))))"

definition semantic_result ::
  "(json \<Rightarrow> rat option) \<Rightarrow> (json_dict \<Rightarrow> 'c option) \<Rightarrow> json_dict \<Rightarrow> int \<Rightarrow> (execution_error, 'c search_result) result" where
  "semantic_result number make_chunk row rank =
     bind_result (row_score number row ''semantic_score'') (\<lambda>score.
     bind_result (row_value row ''id'') (\<lambda>i.
     bind_result (chunk_from_row make_chunk row) (\<lambda>chunk.
     Inr \<lparr>x_id = json_str i, x_chunk = chunk, x_bm25 = None, x_semantic = Some score, x_hybrid = None,
       x_rank = rank, x_matched = [], x_highlights = [], x_evidence = [(''semantic_score'', Score score)]\<rparr>)))"

text \<open>The results of a page are ranked from 1.\<close>

definition ranked_results ::
  "(json_dict \<Rightarrow> int \<Rightarrow> (execution_error, 'c search_result) result) \<Rightarrow> json_dict list \<Rightarrow>
   (execution_error, 'c search_result list) result" where
  "ranked_results result_of rows =
     map_result (\<lambda>(i, row). result_of row (int i)) (zip [1..<Suc (length rows)] rows)"

section \<open>Executors\<close>

type_synonym runner = "string \<Rightarrow> json_dict \<Rightarrow> json_dict list"

definition execute_full_text ::
  "(json \<Rightarrow> rat option) \<Rightarrow> (json_dict \<Rightarrow> 'c option) \<Rightarrow> runner \<Rightarrow> execution_plan \<Rightarrow>
   (execution_error, 'c search_result list) result" where
  "execute_full_text number make_chunk run plan =
     bind_result (full_text_statement plan) (\<lambda>(sql, params).
     ranked_results (full_text_result number make_chunk) (run sql params))"

definition execute_structured ::
  "(json \<Rightarrow> rat option) \<Rightarrow> (json_dict \<Rightarrow> 'c option) \<Rightarrow> runner \<Rightarrow> execution_plan \<Rightarrow>
   (execution_error, 'c search_result list) result" where
  "execute_structured number make_chunk run plan =
     bind_result (structured_statement plan) (\<lambda>(sql, params).
     ranked_results (semantic_result number make_chunk) (run sql params))"

text \<open>
  The semantic search of the runtime without refinement: the vector of the plan (the first row of a
  nested one), ordered by score unless the plan orders otherwise. \<open>literal\<close> is \<open>_vector_literal\<close>, the
  fixed-point text of the numbers.
\<close>

definition single_vector :: "embedding option \<Rightarrow> (execution_error, rat list) result" where
  "single_vector e = (case e of
       Some (Flat (x # xs)) \<Rightarrow> Inr (x # xs)
     | Some (Nested (xs # xss)) \<Rightarrow> Inr xs
     | _ \<Rightarrow> Inl No_vector)"

definition execute_semantic_plain ::
  "(json \<Rightarrow> rat option) \<Rightarrow> (json_dict \<Rightarrow> 'c option) \<Rightarrow> (rat list \<Rightarrow> string) \<Rightarrow> runner \<Rightarrow> string \<Rightarrow> int \<Rightarrow>
   execution_plan \<Rightarrow> (execution_error, 'c search_result list) result" where
  "execute_semantic_plain number make_chunk literal run model dimension plan =
     bind_result (single_vector (l_embedding plan)) (\<lambda>vector.
     let plan = (if l_order_by plan = [] then plan\<lparr>l_order_by := [''semantic_score'']\<rparr> else plan) in
     bind_result (semantic_statement plan (J_str (literal vector)) model dimension) (\<lambda>(sql, params).
     ranked_results (semantic_result number make_chunk) (run sql params)))"

section \<open>Embedding responses\<close>

text \<open>
  \<open>_embedding_response_vector\<close> of the runtime and \<open>_query_vector\<close> of the semantic executor read a
  response of the embedding service; \<open>None\<close> stands for the errors they raise.
\<close>

definition get_default :: "json_dict \<Rightarrow> string \<Rightarrow> json \<Rightarrow> json" where
  "get_default d k v = (case map_of d k of None \<Rightarrow> v | Some w \<Rightarrow> w)"

fun all_numbers :: "(json \<Rightarrow> rat option) \<Rightarrow> json list \<Rightarrow> rat list option" where
  "all_numbers number [] = Some []"
| "all_numbers number (x # xs) = (case number x of None \<Rightarrow> None | Some y \<Rightarrow> map_option ((#) y) (all_numbers number xs))"

definition embedding_response_vector :: "(json \<Rightarrow> rat option) \<Rightarrow> json \<Rightarrow> nat \<Rightarrow> rat list option" where
  "embedding_response_vector number response dimension = (case response of
       J_object d \<Rightarrow> (case get_default d ''results'' (json_get d ''embeddings'') of
           J_list (item # items) \<Rightarrow>
             (case (case item of
                  J_object i \<Rightarrow> if json_true (json_get i ''error'') then J_null
                    else get_default i ''embedding'' (json_get i ''vector'')
                | raw \<Rightarrow> raw) of
                J_list raw \<Rightarrow> (case all_numbers number raw of
                    Some vector \<Rightarrow> if length vector = dimension then Some vector else None
                  | None \<Rightarrow> None)
              | _ \<Rightarrow> None)
         | _ \<Rightarrow> None)
     | _ \<Rightarrow> None)"

definition real_number :: "(json \<Rightarrow> rat option) \<Rightarrow> json \<Rightarrow> rat option" where
  "real_number number v = (if is_bool v \<or> is_str v then None else number v)"

definition query_vector :: "(json \<Rightarrow> rat option) \<Rightarrow> json_dict \<Rightarrow> rat list option" where
  "query_vector number response = (case get_default response ''results'' (json_get response ''embeddings'') of
       J_list [item] \<Rightarrow>
         (let inner = (case item of J_object i \<Rightarrow> i | _ \<Rightarrow> []);
              raw = (case item of J_object i \<Rightarrow> get_default i ''embedding'' (json_get i ''vector'') | v \<Rightarrow> v);
              declared = get_default response ''dimension'' (json_get inner ''dimension'')
          in case raw of
              J_list xs \<Rightarrow> (case all_numbers (real_number number) xs of
                  Some vector \<Rightarrow>
                    if vector \<noteq> [] \<and> declared = J_int (int (length vector)) then Some vector else None
                | None \<Rightarrow> None)
            | _ \<Rightarrow> None)
     | _ \<Rightarrow> None)"

section \<open>Semantic executor\<close>

record executor_settings =
  z_provider :: string
  z_model :: string
  z_model_version :: string
  z_dimension :: int

definition required_text :: "json \<Rightarrow> string option" where
  "required_text v = (case v of J_str s \<Rightarrow> if py_strip s = [] then None else Some s | _ \<Rightarrow> None)"

text \<open>\<open>embed_text\<close> is the call of the embedding client; \<open>None\<close> when it raises.\<close>

datatype semantic_error = Embedding_failed | Statement_failed execution_error

definition execute_semantic ::
  "(json \<Rightarrow> rat option) \<Rightarrow> (json_dict \<Rightarrow> 'c option) \<Rightarrow> (string \<Rightarrow> string \<Rightarrow> int \<Rightarrow> json option) \<Rightarrow> (rat list \<Rightarrow> json) \<Rightarrow>
   runner \<Rightarrow> executor_settings \<Rightarrow> execution_plan \<Rightarrow> string \<Rightarrow> (semantic_error, 'c search_result list) result" where
  "execute_semantic number make_chunk embed_text as_json run settings plan query_text =
     (if py_strip (z_provider settings) = [] \<or> py_strip (z_model settings) = [] \<or>
         py_strip (z_model_version settings) = [] \<or> z_dimension settings \<le> 0 then Inl Embedding_failed
      else if l_mode plan \<noteq> Semantic then Inl (Statement_failed (Wrong_plan (l_mode plan)))
      else if py_strip query_text = [] then Inl Embedding_failed
      else case embed_text query_text (z_model settings) (z_dimension settings) of
        Some (J_object response) \<Rightarrow>
          if required_text (json_get response ''provider'') \<noteq> Some (z_provider settings) \<or>
             required_text (json_get response ''model'') \<noteq> Some (z_model settings) \<or>
             required_text (json_get response ''model_version'') \<noteq> Some (z_model_version settings)
          then Inl Embedding_failed
          else (case query_vector number response of
            None \<Rightarrow> Inl Embedding_failed
          | Some vector \<Rightarrow>
              if int (length vector) \<noteq> z_dimension settings then Inl Embedding_failed
              else map_sum Statement_failed id
                (bind_result (semantic_statement plan (as_json vector) (z_model settings) (int (length vector)))
                  (\<lambda>(sql, params). ranked_results (semantic_result number make_chunk) (run sql params))))
      | _ \<Rightarrow> Inl Embedding_failed)"

end
