(* ===== verification/Query_Window.thy ===== *)
theory Query_Window
  imports Query_Results "HOL-Library.Product_Lexorder"
begin

text \<open>
  The hierarchy-aware semantic search (\<open>query/runtime_boundary.py\<close>): the candidates of every level
  above a threshold, each refined into the chunks and paragraphs below it, and the window of the best
  results. \<open>similarity\<close> of an embedding row is \<open>1 - (vector <=> query)\<close> as the vector extension of the
  database computes it for the query at hand; \<open>number\<close> is \<open>float\<close> of an option's value.
\<close>

section \<open>Candidates\<close>

datatype level = Chunk_level | Paragraph_level | Document_level | File_level

fun level_name :: "level \<Rightarrow> string" where
  "level_name Chunk_level = ''semantic_chunk''"
| "level_name Paragraph_level = ''paragraph''"
| "level_name Document_level = ''document''"
| "level_name File_level = ''file''"

record candidate =
  n_level :: level
  n_id :: uuid
  n_preview :: string
  n_score :: rat
  n_document :: "uuid option"
  n_file :: "uuid option"
  n_paragraph :: "uuid option"
  n_chunk :: "uuid option"
  n_path :: "(level \<times> uuid) list"

text \<open>The key is the level and the identifier; results drop it.\<close>

definition candidate_key :: "candidate \<Rightarrow> level \<times> uuid" where
  "candidate_key c = (n_level c, n_id c)"

text \<open>\<open>(-score, level, id)\<close>, the order of the window.\<close>

definition window_key :: "candidate \<Rightarrow> rat \<times> string \<times> string" where
  "window_key c = (- n_score c, level_name (n_level c), uuid_str (n_id c))"

section \<open>The window\<close>

text \<open>\<open>_merge_window\<close>\<close>

definition keep_better :: "candidate \<Rightarrow> ((level \<times> uuid) \<times> candidate) list \<Rightarrow> ((level \<times> uuid) \<times> candidate) list" where
  "keep_better c by_key = (case map_of by_key (candidate_key c) of
       None \<Rightarrow> dict_set by_key (candidate_key c) c
     | Some old \<Rightarrow> if n_score old < n_score c then dict_set by_key (candidate_key c) c else by_key)"

definition by_key :: "candidate list \<Rightarrow> ((level \<times> uuid) \<times> candidate) list" where
  "by_key cs = fold (\<lambda>c d. dict_set d (candidate_key c) c) cs []"

definition merge_window :: "candidate list \<Rightarrow> candidate list \<Rightarrow> nat \<Rightarrow> candidate list" where
  "merge_window window additions limit =
     take limit (sort_key window_key (map snd (fold keep_better additions (by_key window))))"

section \<open>The rows the search reads\<close>

text \<open>
  The columns of the tables that the candidate queries read. \<open>i_entity\<close> and \<open>i_kind\<close> say what an
  embedding row belongs to, \<open>i_version\<close> the version of the chunk it was made from.
\<close>

record embedding_entry =
  i_kind :: level
  i_entity :: uuid
  i_active :: bool
  i_model :: string
  i_dimension :: int
  i_version :: "uuid option"
  i_similarity :: rat

record chunk_entry =
  u_document :: uuid
  u_paragraph :: uuid
  u_removed :: bool

record paragraph_entry =
  ph_document :: uuid
  ph_text :: string
  ph_removed :: bool

record document_entry_row =
  dc_owner :: "uuid option"
  dc_title :: string
  dc_created :: int
  dc_removed :: bool

record file_entry =
  fl_owner :: "uuid option"
  fl_name :: "string option"
  fl_path :: "string option"
  fl_removed :: bool

record search_store =
  ss_embeddings :: "embedding_entry list"
  ss_chunks :: "(uuid \<times> chunk_entry) list"
  ss_texts :: "(uuid \<times> string) list"
  ss_current :: "(uuid \<times> uuid) list"
  ss_paragraphs :: "(uuid \<times> paragraph_entry) list"
  ss_documents :: "(uuid \<times> document_entry_row) list"
  ss_files :: "(uuid \<times> file_entry) list"

definition live_embeddings :: "search_store \<Rightarrow> string \<Rightarrow> int \<Rightarrow> level \<Rightarrow> embedding_entry list" where
  "live_embeddings s model dimension k = filter (\<lambda>e. i_kind e = k \<and> i_active e \<and> i_model e = model \<and>
     i_dimension e = dimension) (ss_embeddings s)"

definition preview_of :: "string \<Rightarrow> string" where
  "preview_of t = take 240 t"

text \<open>\<open>_parent_path\<close>\<close>

definition parent_path :: "uuid option \<Rightarrow> uuid option \<Rightarrow> uuid option \<Rightarrow> uuid option \<Rightarrow> (level \<times> uuid) list" where
  "parent_path f d p c =
     concat (map (\<lambda>(l, v). case v of None \<Rightarrow> [] | Some i \<Rightarrow> [(l, i)])
       [(File_level, f), (Document_level, d), (Paragraph_level, p), (Chunk_level, c)])"

text \<open>\<open>_candidate_from_row\<close>\<close>

definition candidate_row ::
  "level \<Rightarrow> uuid \<Rightarrow> uuid option \<Rightarrow> uuid option \<Rightarrow> uuid option \<Rightarrow> uuid option \<Rightarrow> string \<Rightarrow> rat \<Rightarrow> candidate" where
  "candidate_row l i document file paragraph chunk preview score =
     \<lparr>n_level = l, n_id = i, n_preview = preview_of preview, n_score = score, n_document = document,
      n_file = file, n_paragraph = paragraph, n_chunk = chunk, n_path = parent_path file document paragraph chunk\<rparr>"

definition chunk_candidates :: "search_store \<Rightarrow> string \<Rightarrow> int \<Rightarrow> candidate list" where
  "chunk_candidates s model dimension = List.map_filter (\<lambda>e.
     case (map_of (ss_chunks s) (i_entity e), map_of (ss_current s) (i_entity e), map_of (ss_texts s) (i_entity e)) of
       (Some c, Some v, Some t) \<Rightarrow> (case map_of (ss_documents s) (u_document c) of
           Some d \<Rightarrow> if i_version e = Some v \<and> \<not> u_removed c
             then Some (candidate_row Chunk_level (i_entity e) (Some (u_document c)) (dc_owner d)
               (Some (u_paragraph c)) (Some (i_entity e)) t (i_similarity e)) else None
         | None \<Rightarrow> None)
     | _ \<Rightarrow> None) (live_embeddings s model dimension Chunk_level)"

definition paragraph_candidates :: "search_store \<Rightarrow> string \<Rightarrow> int \<Rightarrow> candidate list" where
  "paragraph_candidates s model dimension = List.map_filter (\<lambda>e.
     case map_of (ss_paragraphs s) (i_entity e) of
       Some p \<Rightarrow> (case map_of (ss_documents s) (ph_document p) of
           Some d \<Rightarrow> if \<not> ph_removed p
             then Some (candidate_row Paragraph_level (i_entity e) (Some (ph_document p)) (dc_owner d)
               (Some (i_entity e)) None (ph_text p) (i_similarity e)) else None
         | None \<Rightarrow> None)
     | None \<Rightarrow> None) (live_embeddings s model dimension Paragraph_level)"

definition document_candidates :: "search_store \<Rightarrow> string \<Rightarrow> int \<Rightarrow> candidate list" where
  "document_candidates s model dimension = List.map_filter (\<lambda>e.
     case map_of (ss_documents s) (i_entity e) of
       Some d \<Rightarrow> if \<not> dc_removed d
         then Some (candidate_row Document_level (i_entity e) (Some (i_entity e)) (dc_owner d) None None
           (dc_title d) (i_similarity e)) else None
     | None \<Rightarrow> None) (live_embeddings s model dimension Document_level)"

text \<open>The first document a file owns, in the order of creation.\<close>

definition first_document :: "search_store \<Rightarrow> uuid \<Rightarrow> uuid option" where
  "first_document s f = (case sort_key (\<lambda>(i, d). (dc_created d, i))
       (filter (\<lambda>(i, d). dc_owner d = Some f \<and> \<not> dc_removed d) (ss_documents s)) of
     [] \<Rightarrow> None | (i, d) # _ \<Rightarrow> Some i)"

definition file_candidates :: "search_store \<Rightarrow> string \<Rightarrow> int \<Rightarrow> candidate list" where
  "file_candidates s model dimension = List.map_filter (\<lambda>e.
     case map_of (ss_files s) (i_entity e) of
       Some f \<Rightarrow> if \<not> fl_removed f
         then Some (candidate_row File_level (i_entity e) (first_document s (i_entity e)) (Some (i_entity e)) None None
           (case fl_name f of Some t \<Rightarrow> t | None \<Rightarrow> (case fl_path f of Some t \<Rightarrow> t | None \<Rightarrow> uuid_str (i_entity e)))
           (i_similarity e)) else None
     | None \<Rightarrow> None) (live_embeddings s model dimension File_level)"

text \<open>\<open>_hierarchical_primary_candidates\<close>: \<open>ORDER BY score DESC, level ASC, id ASC LIMIT\<close>.\<close>

definition primary_candidates :: "search_store \<Rightarrow> string \<Rightarrow> int \<Rightarrow> rat \<Rightarrow> nat \<Rightarrow> candidate list" where
  "primary_candidates s model dimension threshold limit =
     take limit (sort_key (\<lambda>c. (- n_score c, level_name (n_level c), n_id c))
       (filter (\<lambda>c. threshold \<le> n_score c)
         (chunk_candidates s model dimension @ paragraph_candidates s model dimension @
          document_candidates s model dimension @ file_candidates s model dimension)))"

text \<open>\<open>_hierarchical_children\<close>: the scope has at least one of the three identifiers.\<close>

definition in_scope :: "uuid option \<Rightarrow> uuid option \<Rightarrow> uuid option \<Rightarrow> candidate \<Rightarrow> bool" where
  "in_scope document file paragraph c \<longleftrightarrow>
     (document \<noteq> None \<longrightarrow> n_document c = document) \<and> (file \<noteq> None \<longrightarrow> n_file c = file) \<and>
     (paragraph \<noteq> None \<longrightarrow> n_paragraph c = paragraph)"

definition hierarchical_children ::
  "search_store \<Rightarrow> string \<Rightarrow> int \<Rightarrow> rat \<Rightarrow> nat \<Rightarrow> uuid option \<Rightarrow> uuid option \<Rightarrow> uuid option \<Rightarrow> candidate list" where
  "hierarchical_children s model dimension threshold limit document file paragraph =
     take limit (sort_key (\<lambda>c. (- n_score c, if n_level c = Chunk_level then 0 else 1 :: nat, n_id c))
       (filter (\<lambda>c. threshold \<le> n_score c \<and> in_scope document file paragraph c)
         (chunk_candidates s model dimension @ paragraph_candidates s model dimension)))"

text \<open>
  \<open>_closest_file_for_document\<close> and \<open>_closest_document_for_file\<close>: the most similar embedding row.
\<close>

definition closest :: "embedding_entry list \<Rightarrow> uuid option" where
  "closest es = (case sort_key (\<lambda>e. - i_similarity e) es of [] \<Rightarrow> None | e # _ \<Rightarrow> Some (i_entity e))"

definition closest_file :: "search_store \<Rightarrow> string \<Rightarrow> int \<Rightarrow> uuid \<Rightarrow> uuid option" where
  "closest_file s model dimension document = (case map_of (ss_documents s) document of
       None \<Rightarrow> None
     | Some d \<Rightarrow> if dc_removed d then None
         else closest (filter (\<lambda>e. case map_of (ss_files s) (i_entity e) of
             None \<Rightarrow> False
           | Some f \<Rightarrow> \<not> fl_removed f \<and> (dc_owner d = Some (i_entity e) \<or> fl_owner f = Some document))
           (live_embeddings s model dimension File_level)))"

definition closest_document :: "search_store \<Rightarrow> string \<Rightarrow> int \<Rightarrow> uuid \<Rightarrow> uuid option" where
  "closest_document s model dimension file_id = closest (filter (\<lambda>e. case map_of (ss_documents s) (i_entity e) of
       None \<Rightarrow> False
     | Some d \<Rightarrow> dc_owner d = Some file_id \<and> \<not> dc_removed d) (live_embeddings s model dimension Document_level))"

section \<open>Refinement\<close>

text \<open>
  The additions a primary candidate brings to the window, and the path reported for it: a chunk
  itself, and of any other level its children, or itself when there are none.
\<close>

definition or_itself :: "candidate list \<Rightarrow> candidate \<Rightarrow> candidate list" where
  "or_itself children c = (if children = [] then [c] else children)"

definition refine_candidate ::
  "search_store \<Rightarrow> string \<Rightarrow> int \<Rightarrow> rat \<Rightarrow> nat \<Rightarrow> candidate \<Rightarrow> candidate list \<times> (level \<times> uuid) list" where
  "refine_candidate s model dimension threshold limit c = (case n_level c of
       Chunk_level \<Rightarrow> ([c], [])
     | Paragraph_level \<Rightarrow>
         (or_itself (hierarchical_children s model dimension threshold limit None None (Some (n_id c))) c, [])
     | Document_level \<Rightarrow>
         (let f = closest_file s model dimension (n_id c) in
          (or_itself (hierarchical_children s model dimension threshold limit (Some (n_id c)) f None) c,
           (Document_level, n_id c) # (case f of None \<Rightarrow> [] | Some i \<Rightarrow> [(File_level, i)])))
     | File_level \<Rightarrow>
         (let d = closest_document s model dimension (n_id c) in
          (or_itself (hierarchical_children s model dimension threshold limit d (Some (n_id c)) None) c,
           (File_level, n_id c) # (case d of None \<Rightarrow> [] | Some i \<Rightarrow> [(Document_level, i)]))))"

record refinement =
  rf_enabled :: bool
  rf_threshold :: rat
  rf_candidate_limit :: nat
  rf_result_limit :: nat
  rf_diagnostics :: bool

record window_note =
  wn_candidate :: "uuid \<times> level \<times> rat"
  wn_window :: nat
  wn_evicted :: nat
  wn_path :: "(level \<times> uuid) list"

text \<open>
  The loop of \<open>_execute_hierarchical_semantic\<close>: window, diagnostics and the number of evicted results.
\<close>

definition evicted_keys :: "candidate list \<Rightarrow> candidate list \<Rightarrow> nat" where
  "evicted_keys before after =
     length (filter (\<lambda>k. \<not> List.member (map candidate_key after) k) (dict_fromkeys (map candidate_key before)))"

fun refine_all ::
  "(candidate \<Rightarrow> candidate list \<times> (level \<times> uuid) list) \<Rightarrow> nat \<Rightarrow> candidate list \<Rightarrow>
   candidate list \<times> window_note list \<times> nat \<Rightarrow> candidate list \<times> window_note list \<times> nat" where
  "refine_all refine limit [] state = state"
| "refine_all refine limit (c # cs) (window, notes, evicted) =
     (let (additions, path) = refine c;
          window' = merge_window window additions limit;
          n = evicted_keys window window'
      in refine_all refine limit cs
           (window', notes @ [\<lparr>wn_candidate = (n_id c, n_level c, n_score c), wn_window = length window',
              wn_evicted = n, wn_path = path\<rparr>], evicted + n))"

record semantic_answer =
  sa_results :: "candidate list"
  sa_primary_count :: nat
  sa_evicted :: nat
  sa_diagnostics :: "window_note list option"

definition execute_hierarchical ::
  "search_store \<Rightarrow> string \<Rightarrow> int \<Rightarrow> refinement \<Rightarrow> semantic_answer" where
  "execute_hierarchical s model dimension r =
     (let primary = primary_candidates s model dimension (rf_threshold r) (rf_candidate_limit r);
          (window, notes, evicted) = refine_all
            (refine_candidate s model dimension (rf_threshold r) (rf_result_limit r)) (rf_result_limit r) primary ([], [], 0)
      in \<lparr>sa_results = take (rf_result_limit r) window, sa_primary_count = length primary, sa_evicted = evicted,
          sa_diagnostics = (if rf_diagnostics r then Some notes else None)\<rparr>)"

section \<open>Options\<close>

text \<open>\<open>_semantic_refinement_options\<close>; \<open>None\<close> stands for the errors it raises.\<close>

definition bool_option :: "json \<Rightarrow> bool option" where
  "bool_option v = (case v of J_bool b \<Rightarrow> Some b | _ \<Rightarrow> None)"

definition int_option :: "(string \<Rightarrow> int option) \<Rightarrow> json \<Rightarrow> nat option" where
  "int_option parse_int v =
     (if is_bool v then None
      else case py_int parse_int v of
        None \<Rightarrow> None | Some n \<Rightarrow> if n < 1 \<or> 1000 < n then None else Some (nat n))"

definition unit_float :: "(json \<Rightarrow> rat option) \<Rightarrow> json \<Rightarrow> rat option" where
  "unit_float number v = (case number v of
     None \<Rightarrow> None | Some x \<Rightarrow> if x < 0 \<or> 1 < x then None else Some x)"

definition option_or :: "json_dict \<Rightarrow> string \<Rightarrow> (json \<Rightarrow> 'a option) \<Rightarrow> 'a \<Rightarrow> 'a option" where
  "option_or d k read base = (case map_of d k of None \<Rightarrow> Some base | Some v \<Rightarrow> read v)"

definition refinement_options ::
  "(string \<Rightarrow> int option) \<Rightarrow> (json \<Rightarrow> rat option) \<Rightarrow> json \<Rightarrow> refinement \<Rightarrow> refinement option" where
  "refinement_options parse_int number v base =
     (case (case v of J_null \<Rightarrow> Some [] | J_object d \<Rightarrow> Some d | _ \<Rightarrow> None) of
        None \<Rightarrow> None
      | Some d \<Rightarrow>
          (case (option_or d ''enabled'' bool_option (rf_enabled base),
                 option_or d ''threshold'' (unit_float number) (rf_threshold base),
                 option_or d ''candidate_limit'' (int_option parse_int) (rf_candidate_limit base),
                 option_or d ''result_limit'' (int_option parse_int) (rf_result_limit base),
                 option_or d ''diagnostics'' bool_option (rf_diagnostics base)) of
             (Some enabled, Some threshold, Some candidate_limit, Some result_limit, Some diagnostics) \<Rightarrow>
               Some \<lparr>rf_enabled = enabled, rf_threshold = threshold, rf_candidate_limit = candidate_limit,
                 rf_result_limit = result_limit, rf_diagnostics = diagnostics\<rparr>
           | _ \<Rightarrow> None))"

end
