(* ===== verification/Query_Fusion.thy ===== *)
theory Query_Fusion
  imports Query_Results "HOL-Library.Product_Lexorder"
begin

text \<open>
  The fusion of full-text and semantic candidates (\<open>query/hybrid.py\<close>). The arithmetic of the strategies
  is third-party code: \<open>reciprocal full_ranks semantic_ranks\<close> is \<open>HybridSearchHelper.reciprocal_rank\<close>
  with the weights of the configuration, \<open>combine bm25 semantic\<close> is
  \<open>HybridSearchHelper.calculate_hybrid_scores\<close>; they return one score per candidate.
\<close>

datatype strategy = Weighted_sum | Reciprocal_rank | Comb_sum | Comb_mnz | Other_strategy string

fun strategy_value :: "strategy \<Rightarrow> string" where
  "strategy_value Weighted_sum = ''weighted_sum''"
| "strategy_value Reciprocal_rank = ''reciprocal_rank''"
| "strategy_value Comb_sum = ''comb_sum''"
| "strategy_value Comb_mnz = ''comb_mnz''"
| "strategy_value (Other_strategy s) = s"

datatype fusion_error = Unsupported_strategy strategy | Unsupported_tie_breaker string | Negative_limit | Malformed_candidate

section \<open>Candidates\<close>

definition valid_candidate :: "bool \<Rightarrow> 'c search_result \<Rightarrow> bool" where
  "valid_candidate full_text c \<longleftrightarrow> x_id c \<noteq> [] \<and> 0 \<le> x_rank c \<and>
     (if full_text then x_bm25 c \<noteq> None else x_semantic c \<noteq> None)"

definition validate_candidates ::
  "bool \<Rightarrow> 'c search_result list \<Rightarrow> (fusion_error, 'c search_result list) result" where
  "validate_candidates full_text cs =
     (if list_all (valid_candidate full_text) cs then Inr cs else Inl Malformed_candidate)"

type_synonym 'c pair = "'c search_result option \<times> 'c search_result option"

text \<open>\<open>by_id\<close>: the last candidate of each source for every identifier, in order of appearance.\<close>

definition put_full_text :: "'c search_result \<Rightarrow> (string \<times> 'c pair) list \<Rightarrow> (string \<times> 'c pair) list" where
  "put_full_text c d = dict_set d (x_id c) (Some c, case map_of d (x_id c) of None \<Rightarrow> None | Some p \<Rightarrow> snd p)"

definition put_semantic :: "'c search_result \<Rightarrow> (string \<times> 'c pair) list \<Rightarrow> (string \<times> 'c pair) list" where
  "put_semantic c d = dict_set d (x_id c) (case map_of d (x_id c) of None \<Rightarrow> None | Some p \<Rightarrow> fst p, Some c)"

definition pairs_by_id ::
  "'c search_result list \<Rightarrow> 'c search_result list \<Rightarrow> (string \<times> 'c pair) list" where
  "pairs_by_id full_text semantic = fold put_semantic semantic (fold put_full_text full_text [])"

section \<open>Merging\<close>

definition present :: "'c pair \<Rightarrow> 'c search_result list" where
  "present p = (case fst p of None \<Rightarrow> [] | Some c \<Rightarrow> [c]) @ (case snd p of None \<Rightarrow> [] | Some c \<Rightarrow> [c])"

definition merge_candidate :: "'c pair \<Rightarrow> 'c search_result option" where
  "merge_candidate p = (case present p of
       [] \<Rightarrow> None
     | primary # others \<Rightarrow> Some
         \<lparr>x_id = x_id primary, x_chunk = x_chunk primary,
          x_bm25 = (case fst p of None \<Rightarrow> None | Some c \<Rightarrow> x_bm25 c),
          x_semantic = (case snd p of None \<Rightarrow> None | Some c \<Rightarrow> x_semantic c),
          x_hybrid = None,
          x_rank = foldl min (x_rank primary) (map x_rank others),
          x_matched = dict_fromkeys (concat (map x_matched (primary # others))),
          x_highlights = foldl dict_update [] (map x_highlights (primary # others)),
          x_evidence = foldl dict_update [] (map x_evidence (primary # others))\<rparr>)"

definition score_or_zero :: "rat option \<Rightarrow> rat" where
  "score_or_zero s = (case s of None \<Rightarrow> 0 | Some x \<Rightarrow> x)"

definition rank_or :: "int \<Rightarrow> 'c search_result option \<Rightarrow> int" where
  "rank_or missing c = (case c of None \<Rightarrow> missing | Some c \<Rightarrow> x_rank c)"

text \<open>
  The order of the fused results: the higher score first, equal scores by the identifier or the rank.
\<close>

datatype tie_break = Tie_id string | Tie_rank int

definition tie_of :: "string \<Rightarrow> 'c search_result \<Rightarrow> tie_break" where
  "tie_of tie_breaker c = (if tie_breaker = ''chunk_id'' then Tie_id (x_id c) else Tie_rank (x_rank c))"

instantiation tie_break :: linorder
begin

fun less_eq_tie_break :: "tie_break \<Rightarrow> tie_break \<Rightarrow> bool" where
  "less_eq_tie_break (Tie_id s) (Tie_id t) \<longleftrightarrow> s \<le> t"
| "less_eq_tie_break (Tie_id s) (Tie_rank n) \<longleftrightarrow> True"
| "less_eq_tie_break (Tie_rank m) (Tie_id t) \<longleftrightarrow> False"
| "less_eq_tie_break (Tie_rank m) (Tie_rank n) \<longleftrightarrow> m \<le> n"

definition less_tie_break :: "tie_break \<Rightarrow> tie_break \<Rightarrow> bool" where
  "less_tie_break a b \<longleftrightarrow> a \<le> b \<and> \<not> b \<le> a"

instance
proof
  fix a b c :: tie_break
  show "(a < b) = (a \<le> b \<and> \<not> b \<le> a)" by (simp add: less_tie_break_def)
  show "a \<le> a" by (cases a) auto
  show "a \<le> b \<Longrightarrow> b \<le> c \<Longrightarrow> a \<le> c" by (cases a; cases b; cases c) auto
  show "a \<le> b \<Longrightarrow> b \<le> a \<Longrightarrow> a = b" by (cases a; cases b) auto
  show "a \<le> b \<or> b \<le> a" by (cases a; cases b) auto
qed

end

definition fusion_key :: "string \<Rightarrow> 'c search_result \<Rightarrow> rat \<times> tie_break" where
  "fusion_key tie_breaker c = (- score_or_zero (x_hybrid c), tie_of tie_breaker c)"

text \<open>\<open>ranked.sort\<close> is stable and orders by the pair of keys, the first one first.\<close>

definition sort_ranked :: "string \<Rightarrow> 'c search_result list \<Rightarrow> 'c search_result list" where
  "sort_ranked tie_breaker cs = sort_key (fusion_key tie_breaker) cs"

section \<open>Fusion\<close>

definition supported_strategies :: "strategy list" where
  "supported_strategies = [Weighted_sum, Reciprocal_rank, Comb_sum, Comb_mnz]"

type_synonym rank_scorer = "int list \<Rightarrow> int list \<Rightarrow> rat list"
type_synonym score_combiner = "rat list \<Rightarrow> rat list \<Rightarrow> rat list"

definition fused :: "strategy \<Rightarrow> 'c search_result \<Rightarrow> rat \<Rightarrow> 'c search_result" where
  "fused strategy c score = c\<lparr>x_hybrid := Some (clamp score),
     x_evidence := dict_update (x_evidence c)
       [(''fusion_strategy'', Label (strategy_value strategy)), (''fusion_score'', Score score)]\<rparr>"

definition fuse_scores ::
  "rank_scorer \<Rightarrow> score_combiner \<Rightarrow> strategy \<Rightarrow> (string \<times> 'c pair) list \<Rightarrow> nat \<Rightarrow> nat \<Rightarrow>
   'c search_result list \<Rightarrow> rat list" where
  "fuse_scores reciprocal combine strategy by_id full_count semantic_count merged =
     (if strategy = Reciprocal_rank
      then reciprocal (map (\<lambda>(i, p). rank_or (int full_count + 1) (fst p)) by_id)
             (map (\<lambda>(i, p). rank_or (int semantic_count + 1) (snd p)) by_id)
      else combine (map (score_or_zero \<circ> x_bm25) merged) (map (score_or_zero \<circ> x_semantic) merged))"

definition number_results :: "'c search_result list \<Rightarrow> 'c search_result list" where
  "number_results cs = map2 (\<lambda>n c. c\<lparr>x_rank := int n\<rparr>) [1..<Suc (length cs)] cs"

definition fuse_search_results ::
  "rank_scorer \<Rightarrow> score_combiner \<Rightarrow> strategy \<Rightarrow> int option \<Rightarrow> string \<Rightarrow> 'c search_result list \<Rightarrow>
   'c search_result list \<Rightarrow> (fusion_error, 'c search_result list) result" where
  "fuse_search_results reciprocal combine strategy limit tie_breaker full_text semantic =
     (if \<not> List.member supported_strategies strategy then Inl (Unsupported_strategy strategy)
      else if \<not> List.member [''chunk_id'', ''rank''] tie_breaker then Inl (Unsupported_tie_breaker tie_breaker)
      else if (case limit of None \<Rightarrow> False | Some n \<Rightarrow> n < 0) then Inl Negative_limit
      else
        bind_result (validate_candidates True full_text) (\<lambda>full_text.
        bind_result (validate_candidates False semantic) (\<lambda>semantic.
        let by_id = pairs_by_id full_text semantic;
            merged = List.map_filter (\<lambda>(i, p). merge_candidate p) by_id;
            scores = fuse_scores reciprocal combine strategy by_id (length full_text) (length semantic) merged;
            ranked = sort_ranked tie_breaker (map2 (fused strategy) merged scores)
        in Inr (number_results (case limit of None \<Rightarrow> ranked | Some n \<Rightarrow> take (nat n) ranked)))))"

section \<open>What the fusion returns\<close>

lemma put_simps:
  "map_of (put_full_text c d) = (map_of d)(x_id c \<mapsto> (Some c, case map_of d (x_id c) of None \<Rightarrow> None | Some p \<Rightarrow> snd p))"
  "map_of (put_semantic c d) = (map_of d)(x_id c \<mapsto> (case map_of d (x_id c) of None \<Rightarrow> None | Some p \<Rightarrow> fst p, Some c))"
  "fst ` set (put_full_text c d) = insert (x_id c) (fst ` set d)"
  "fst ` set (put_semantic c d) = insert (x_id c) (fst ` set d)"
  "distinct (map fst d) \<Longrightarrow> distinct (map fst (put_full_text c d))"
  "distinct (map fst d) \<Longrightarrow> distinct (map fst (put_semantic c d))"
  by (simp_all add: put_full_text_def put_semantic_def distinct_dict_set)

text \<open>The last candidate of a list with an identifier.\<close>

definition last_with :: "string \<Rightarrow> 'c search_result list \<Rightarrow> 'c search_result option" where
  "last_with i cs = List.find (\<lambda>c. x_id c = i) (rev cs)"

lemma last_with_simps:
  "last_with i [] = None"
  "last_with i (cs @ [c]) = (if x_id c = i then Some c else last_with i cs)"
  by (simp_all add: last_with_def)

lemma last_with_id: "last_with i cs = Some c \<Longrightarrow> x_id c = i \<and> c \<in> set cs"
  using find_Some_in by (fastforce simp: last_with_def)

lemma last_with_None: "last_with i cs = None \<longleftrightarrow> i \<notin> x_id ` set cs"
  by (auto simp: last_with_def find_None_iff)

lemma pairs_by_id_spec:
  "map_of (pairs_by_id full_text semantic) i =
    (if i \<in> x_id ` set full_text \<union> x_id ` set semantic
     then Some (last_with i full_text, last_with i semantic) else None) \<and>
   distinct (map fst (pairs_by_id full_text semantic))"
proof (induction semantic rule: rev_induct)
  case Nil
  show ?case
    by (induction full_text rule: rev_induct) (auto simp: pairs_by_id_def put_simps last_with_simps last_with_None)
next
  case (snoc c semantic)
  then show ?case
    using last_with_None [of "x_id c" full_text]
    by (auto simp: pairs_by_id_def put_simps last_with_simps image_iff)
qed

lemma merge_candidate_id:
  assumes "i \<in> x_id ` set full_text \<union> x_id ` set semantic"
  shows "\<exists>c. merge_candidate (last_with i full_text, last_with i semantic) = Some c \<and> x_id c = i \<and>
    x_bm25 c = (case last_with i full_text of None \<Rightarrow> None | Some c \<Rightarrow> x_bm25 c) \<and>
    x_semantic c = (case last_with i semantic of None \<Rightarrow> None | Some c \<Rightarrow> x_semantic c)"
proof (cases "last_with i full_text")
  case None
  with assms have "last_with i semantic \<noteq> None" using last_with_None [of i] by blast
  then obtain c where c: "last_with i semantic = Some c" by blast
  then have "x_id c = i" using last_with_id by blast
  then show ?thesis by (simp add: merge_candidate_def present_def None c)
next
  case (Some c)
  then have i: "x_id c = i" using last_with_id by blast
  show ?thesis
  proof (cases "last_with i semantic")
    case None
    with i Some show ?thesis by (simp add: merge_candidate_def present_def)
  next
    case (Some d)
    with i \<open>last_with i full_text = Some c\<close> show ?thesis by (simp add: merge_candidate_def present_def)
  qed
qed

section \<open>The ranking\<close>

lemma number_results_alt: "number_results cs = map (\<lambda>i. (cs ! i)\<lparr>x_rank := int (Suc i)\<rparr>) [0..<length cs]"
  by (rule nth_equalityI) (simp_all add: number_results_def del: upt_Suc)

lemma map_via_nth: "map (\<lambda>i. f (xs ! i)) [0..<length xs] = map f xs"
  by (rule nth_equalityI) simp_all

lemma number_results_simps [simp]:
  "length (number_results cs) = length cs"
  "map x_rank (number_results cs) = map int [1..<Suc (length cs)]"
  "map x_id (number_results cs) = map x_id cs"
  "map x_hybrid (number_results cs) = map x_hybrid cs"
  "map x_bm25 (number_results cs) = map x_bm25 cs"
  "map x_semantic (number_results cs) = map x_semantic cs"
  by (simp_all add: number_results_alt comp_def map_via_nth map_Suc_upt [symmetric] del: upt_Suc)

lemma number_results_take: "number_results (take n cs) = take n (number_results cs)"
  by (rule nth_equalityI) (simp_all add: number_results_alt)

end
