(* ===== verification/Query_Boundary.thy ===== *)
theory Query_Boundary
  imports Query_Window Query_Fusion
begin

text \<open>
  The entry of the search: the runtime boundary, which embeds the query text when asked to, compiles
  the query and runs the search of its mode (\<open>RuntimeSearchBoundary\<close> of \<open>query/runtime_boundary.py\<close>), and
  the backend that dispatches a compiled plan to the owner of its mode (\<open>query/backend.py\<close>).
  \<open>embed_text\<close> is the embedding service, \<open>as_json\<close> a vector as the value of a query field.
\<close>

section \<open>The query with its embedding\<close>

text \<open>
  A \<open>ChunkQuery\<close> is the dictionary of its fields with the names of the fields that were set;
  \<open>model_copy(update=...)\<close> sets fields without validation.
\<close>

type_synonym chunk_query = "json_dict \<times> string list"

definition model_copy :: "json_dict \<Rightarrow> chunk_query \<Rightarrow> chunk_query" where
  "model_copy update q = (dict_update (fst q) update, snd q @ map fst update)"

datatype search_error =
    Database_unconfigured | Bad_refinement | Bad_embedding | Query_failed query_error
  | Execution_failed execution_error | Hybrid_unconfigured

definition weight_of :: "(json \<Rightarrow> rat option) \<Rightarrow> json \<Rightarrow> rat" where
  "weight_of number v = (case number v of None \<Rightarrow> 0 | Some x \<Rightarrow> x)"

definition wants_runtime_embedding :: "(json \<Rightarrow> rat option) \<Rightarrow> chunk_query \<Rightarrow> bool" where
  "wants_runtime_embedding number q \<longleftrightarrow>
     json_true (json_get (fst q) ''hybrid_search'') \<or>
     (List.member (snd q) ''semantic_weight'' \<and> json_get (fst q) ''semantic_weight'' \<noteq> J_null \<and>
      0 < weight_of number (json_get (fst q) ''semantic_weight''))"

definition query_with_runtime_embedding ::
  "(json \<Rightarrow> rat option) \<Rightarrow> (string \<Rightarrow> rat list option) \<Rightarrow> (rat list \<Rightarrow> json) \<Rightarrow> chunk_query \<Rightarrow>
   (search_error, chunk_query) result" where
  "query_with_runtime_embedding number embed_text as_json q =
     (let wanted = (case json_get (fst q) ''search_query'' of J_str t \<Rightarrow> py_strip t | _ \<Rightarrow> []) in
      if json_get (fst q) ''embedding'' \<noteq> J_null \<or> wanted = [] \<or> \<not> wants_runtime_embedding number q then Inr q
      else case embed_text wanted of
        None \<Rightarrow> Inl Bad_embedding
      | Some vector \<Rightarrow>
          if \<not> json_true (json_get (fst q) ''hybrid_search'') \<or>
             weight_of number (json_or (json_get (fst q) ''bm25_weight'') (J_int 0)) = 0
          then Inr (model_copy [(''search_query'', J_null), (''embedding'', as_json vector),
                     (''hybrid_search'', J_bool False)] q)
          else Inr (model_copy [(''embedding'', as_json vector)] q))"

section \<open>The search boundary\<close>

datatype 'c search_answer = Ranked "'c search_result list" | Refined semantic_answer

record 'c search_env =
  se_configured :: bool
  se_number :: "json \<Rightarrow> rat option"
  se_parse_int :: "string \<Rightarrow> int option"
  se_parse_float :: "string \<Rightarrow> rat option"
  se_query_fields :: "string list"
  se_chunk_fields :: "string list"
  se_validate :: "json_dict \<Rightarrow> json_dict option"
  se_make_chunk :: "json_dict \<Rightarrow> 'c option"
  se_embed :: "string \<Rightarrow> json option"
  se_as_json :: "rat list \<Rightarrow> json"
  se_literal :: "rat list \<Rightarrow> string"
  se_run :: runner
  se_store :: "rat list \<Rightarrow> search_store"
  se_model :: string
  se_dimension :: int
  se_refinement :: refinement

text \<open>
  \<open>se_embed\<close> is the call of the embedding service, \<open>se_store v\<close> the content of the tables with the similarities to the vector \<open>v\<close>, which the
  database computes.
\<close>

definition embed_query_text :: "'c search_env \<Rightarrow> string \<Rightarrow> rat list option" where
  "embed_query_text env t = (case se_embed env t of
     None \<Rightarrow> None | Some response \<Rightarrow> embedding_response_vector (se_number env) response (nat (se_dimension env)))"

definition execute_semantic_plan ::
  "'c search_env \<Rightarrow> refinement \<Rightarrow> execution_plan \<Rightarrow> (search_error, 'c search_answer) result" where
  "execute_semantic_plan env r plan =
     bind_result (map_sum Execution_failed id (single_vector (l_embedding plan))) (\<lambda>vector.
     if rf_enabled r
     then Inr (Refined (execute_hierarchical (se_store env vector) (se_model env) (se_dimension env) r))
     else bind_result (map_sum Execution_failed id
         (execute_semantic_plain (se_number env) (se_make_chunk env) (se_literal env) (se_run env) (se_model env)
           (se_dimension env) plan)) (\<lambda>results. Inr (Ranked results)))"

definition execute_plan ::
  "'c search_env \<Rightarrow> refinement \<Rightarrow> execution_plan \<Rightarrow> (search_error, 'c search_answer) result" where
  "execute_plan env r plan = (case l_mode plan of
       Full_text \<Rightarrow> bind_result (map_sum Execution_failed id
         (execute_full_text (se_number env) (se_make_chunk env) (se_run env) plan)) (\<lambda>results. Inr (Ranked results))
     | Semantic \<Rightarrow> execute_semantic_plan env r plan
     | Structured \<Rightarrow> bind_result (map_sum Execution_failed id
         (execute_structured (se_number env) (se_make_chunk env) (se_run env) plan)) (\<lambda>results. Inr (Ranked results))
     | Hybrid \<Rightarrow> Inl Hybrid_unconfigured)"

definition search ::
  "'c search_env \<Rightarrow> json \<Rightarrow> chunk_query \<Rightarrow> (search_error, 'c search_answer) result" where
  "search env semantic_refinement q =
     (if \<not> se_configured env then Inl Database_unconfigured
      else case refinement_options (se_parse_int env) (se_number env) semantic_refinement (se_refinement env) of
        None \<Rightarrow> Inl Bad_refinement
      | Some r \<Rightarrow>
          bind_result (query_with_runtime_embedding (se_number env) (embed_query_text env) (se_as_json env) q) (\<lambda>q.
          bind_result (map_sum Query_failed id (compile_query (se_query_fields env) (se_chunk_fields env)
            (se_validate env) (se_parse_int env) (se_parse_float env) (fst q) (snd q)))
            (execute_plan env r)))"

section \<open>The backend\<close>

text \<open>
  What an owner of a branch does: it returns a response of the adapter, results, a value that is
  neither, or it raises (a cancellation or a timeout, or any other exception).
\<close>

datatype 'c branch_end =
    Adapter_success "'c search_result list" | Adapter_error string | Results "'c search_result list"
  | Foreign_value | Interrupted | Raised string

datatype 'c query_response =
    Response "'c search_result list" "(string \<times> json) list"
  | Error_response string

datatype dispatch_error = Branch_contract string | Branch_interrupted

definition as_results :: "'c branch_end \<Rightarrow> (dispatch_error, 'c search_result list) result" where
  "as_results v = (case v of
       Adapter_success rs \<Rightarrow> Inr rs
     | Adapter_error message \<Rightarrow>
         Inl (Branch_contract (if message = [] then ''branch returned an error response'' else message))
     | Results rs \<Rightarrow> Inr rs
     | _ \<Rightarrow> Inl (Branch_contract ''branch must return SearchResult values''))"

record query_context =
  qc_limit :: json
  qc_offset :: json
  qc_cursor :: json
  qc_cancellation :: json
  qc_timeout :: json

definition response_metadata :: "execution_mode \<Rightarrow> query_context \<Rightarrow> json \<Rightarrow> nat \<Rightarrow> (string \<times> json) list" where
  "response_metadata mode context continuation count =
     [(''backend'', J_str ''postgresql''), (''mode'', J_str (mode_value mode)), (''limit'', qc_limit context),
      (''offset'', qc_offset context), (''cursor'', qc_cursor context), (''returned_count'', J_int (int count)),
      (''continuation'', continuation), (''cancelled'', qc_cancellation context), (''timeout'', qc_timeout context),
      (''compatibility'', J_str ''chunk-metadata-adapter'')]"

definition backend_execute ::
  "(execution_mode \<Rightarrow> execution_plan \<Rightarrow> query_context \<Rightarrow> 'c branch_end) \<Rightarrow> execution_plan \<Rightarrow> query_context \<Rightarrow> json \<Rightarrow>
   (dispatch_error, 'c query_response) result" where
  "backend_execute owner plan context continuation = (case owner (l_mode plan) plan context of
       Interrupted \<Rightarrow> Inl Branch_interrupted
     | Raised message \<Rightarrow> Inr (Error_response (mode_value (l_mode plan) @ '' dispatch_error: '' @ message))
     | v \<Rightarrow> bind_result (as_results v) (\<lambda>results.
         Inr (Response results (response_metadata (l_mode plan) context continuation (length results)))))"

end
