(* ===== verification/Query_Properties.thy ===== *)
theory Query_Properties
  imports Query_Boundary
begin

text \<open>
  Properties of the search: the ranking the fusion makes, the predicates every executor understands in
  the same way, and two ways in which the runtime does less than the plan says.
\<close>

section \<open>Fusion\<close>

lemma clamp_bounds: "0 \<le> clamp x \<and> clamp x \<le> 1"
  by (simp add: clamp_def)

lemma fused_simps [simp]:
  "x_id (fused strategy c x) = x_id c" "x_hybrid (fused strategy c x) = Some (clamp x)"
  "x_bm25 (fused strategy c x) = x_bm25 c" "x_semantic (fused strategy c x) = x_semantic c"
  by (simp_all add: fused_def)

text \<open>The ranking before it is cut and numbered.\<close>

definition fusion_ranking ::
  "rank_scorer \<Rightarrow> score_combiner \<Rightarrow> strategy \<Rightarrow> string \<Rightarrow> 'c search_result list \<Rightarrow> 'c search_result list \<Rightarrow>
   'c search_result list" where
  "fusion_ranking reciprocal combine strategy tie_breaker full_text semantic =
     (let by_id = pairs_by_id full_text semantic;
          merged = List.map_filter (\<lambda>(i, p). merge_candidate p) by_id
      in sort_ranked tie_breaker (map2 (fused strategy) merged
           (fuse_scores reciprocal combine strategy by_id (length full_text) (length semantic) merged)))"

lemma fuse_run:
  "fuse_search_results reciprocal combine strategy limit tie_breaker full_text semantic = Inr rs \<Longrightarrow>
   rs = number_results (case limit of None \<Rightarrow> fusion_ranking reciprocal combine strategy tie_breaker full_text semantic
     | Some n \<Rightarrow> take (nat n) (fusion_ranking reciprocal combine strategy tie_breaker full_text semantic))"
  by (auto simp: fuse_search_results_def validate_candidates_def fusion_ranking_def Let_def
      split: if_splits option.splits)

definition scorers_keep_length :: "rank_scorer \<Rightarrow> score_combiner \<Rightarrow> bool" where
  "scorers_keep_length reciprocal combine \<longleftrightarrow>
     (\<forall>xs ys. length xs = length ys \<longrightarrow> length (reciprocal xs ys) = length xs) \<and>
     (\<forall>xs ys. length xs = length ys \<longrightarrow> length (combine xs ys) = length xs)"

subsection \<open>What the fusion promises, over identifiers\<close>

text \<open>
  The candidates of both sources in the order in which their identifiers appear, what each source says
  of an identifier (its last candidate counts), and the score and the place this gives it.
\<close>

definition candidate_ids :: "'c search_result list \<Rightarrow> 'c search_result list \<Rightarrow> string list" where
  "candidate_ids full_text semantic = dict_fromkeys (map x_id (full_text @ semantic))"

definition source_score :: "('c search_result \<Rightarrow> rat option) \<Rightarrow> 'c search_result list \<Rightarrow> string \<Rightarrow> rat option" where
  "source_score score cs i = (case last_with i cs of None \<Rightarrow> None | Some c \<Rightarrow> score c)"

definition source_rank :: "'c search_result list \<Rightarrow> string \<Rightarrow> int" where
  "source_rank cs i = (case last_with i cs of None \<Rightarrow> int (length cs) + 1 | Some c \<Rightarrow> x_rank c)"

definition candidate_scores ::
  "rank_scorer \<Rightarrow> score_combiner \<Rightarrow> strategy \<Rightarrow> 'c search_result list \<Rightarrow> 'c search_result list \<Rightarrow> rat list" where
  "candidate_scores reciprocal combine strategy full_text semantic =
     (let ids = candidate_ids full_text semantic
      in if strategy = Reciprocal_rank
         then reciprocal (map (source_rank full_text) ids) (map (source_rank semantic) ids)
         else combine (map (score_or_zero \<circ> source_score x_bm25 full_text) ids)
           (map (score_or_zero \<circ> source_score x_semantic semantic) ids))"

definition candidate_score ::
  "rank_scorer \<Rightarrow> score_combiner \<Rightarrow> strategy \<Rightarrow> 'c search_result list \<Rightarrow> 'c search_result list \<Rightarrow> string \<Rightarrow> rat" where
  "candidate_score reciprocal combine strategy full_text semantic i =
     score_or_zero (map_of (zip (candidate_ids full_text semantic)
       (candidate_scores reciprocal combine strategy full_text semantic)) i)"

definition candidate_rank :: "'c search_result list \<Rightarrow> 'c search_result list \<Rightarrow> string \<Rightarrow> int" where
  "candidate_rank full_text semantic i =
     (case (last_with i full_text, last_with i semantic) of
        (Some c, Some d) \<Rightarrow> min (x_rank c) (x_rank d)
      | (Some c, None) \<Rightarrow> x_rank c
      | (None, Some d) \<Rightarrow> x_rank d
      | (None, None) \<Rightarrow> 0)"

definition candidate_place ::
  "rank_scorer \<Rightarrow> score_combiner \<Rightarrow> strategy \<Rightarrow> string \<Rightarrow> 'c search_result list \<Rightarrow> 'c search_result list \<Rightarrow>
   string \<Rightarrow> rat \<times> tie_break" where
  "candidate_place reciprocal combine strategy tie_breaker full_text semantic i =
     (- clamp (candidate_score reciprocal combine strategy full_text semantic i),
      if tie_breaker = ''chunk_id'' then Tie_id i else Tie_rank (candidate_rank full_text semantic i))"

subsection \<open>The fusion against this\<close>

lemma dedup_onto_keys:
  assumes "\<And>c d. map fst (put c d) = (if x_id c \<in> fst ` set d then map fst d else map fst d @ [x_id c])"
  shows "set seen = fst ` set d \<Longrightarrow> map fst (fold put cs d) = map fst d @ dedup_onto seen (map x_id cs)"
proof (induction cs arbitrary: seen d)
  case (Cons c cs)
  show ?case
  proof (cases "x_id c \<in> fst ` set d")
    case True
    then have "set seen = fst ` set (put c d)" using Cons.prems assms [of c d] by (metis list.set_map)
    from Cons.IH [OF this] True Cons.prems show ?thesis by (simp add: assms)
  next
    case False
    then have "map fst (put c d) = map fst d @ [x_id c]" by (simp add: assms)
    moreover from this have "fst ` set (put c d) = insert (x_id c) (fst ` set d)"
      by (metis list.set_map rotate1.simps(2) set_rotate1 list.simps(15))
    ultimately show ?thesis using Cons.IH [of "x_id c # seen" "put c d"] False Cons.prems by simp
  qed
qed simp

lemma dedup_onto_append: "dedup_onto seen (xs @ ys) = dedup_onto seen xs @ dedup_onto (xs @ seen) ys"
proof (induction xs arbitrary: seen)
  case (Cons x xs)
  have same: "set a = set b \<Longrightarrow> dedup_onto a ys = dedup_onto b ys" for a b :: "'a list"
  proof (induction ys arbitrary: a b)
    case (Cons y ys)
    have "set (y # a) = set (y # b)" using Cons.prems by simp
    from Cons.IH [OF this] Cons.IH [OF Cons.prems] Cons.prems show ?case by simp
  qed simp
  have "dedup_onto (xs @ x # seen) ys = dedup_onto (x # xs @ seen) ys"
    "x \<in> set seen \<Longrightarrow> dedup_onto (xs @ seen) ys = dedup_onto (x # xs @ seen) ys" by (rule same; auto)+
  with Cons show ?case by simp
qed simp

lemma pairs_by_id_keys: "map fst (pairs_by_id full_text semantic) = candidate_ids full_text semantic"
proof -
  let ?d = "fold put_full_text full_text []"
  have d: "map fst ?d = dedup_onto [] (map x_id full_text)"
    using dedup_onto_keys [of put_full_text "[]" "[]" full_text] by (simp add: put_full_text_def keys_dict_set)
  then have "fst ` set ?d = x_id ` set full_text" by (metis (no_types) list.set_map set_dict_fromkeys dict_fromkeys_def)
  then show ?thesis
    using dedup_onto_keys [of put_semantic "map x_id full_text" ?d semantic] d
    by (simp add: pairs_by_id_def candidate_ids_def dict_fromkeys_def dedup_onto_append put_semantic_def keys_dict_set)
qed

text \<open>The merged candidate of an identifier.\<close>

definition merged_of :: "'c search_result list \<Rightarrow> 'c search_result list \<Rightarrow> string \<Rightarrow> 'c search_result" where
  "merged_of full_text semantic i = the (merge_candidate (last_with i full_text, last_with i semantic))"

lemma set_candidate_ids [simp]: "set (candidate_ids full_text semantic) = x_id ` set full_text \<union> x_id ` set semantic"
  by (simp add: candidate_ids_def image_Un)

lemma merged_of_simps:
  assumes "i \<in> set (candidate_ids full_text semantic)"
  shows "merge_candidate (last_with i full_text, last_with i semantic) = Some (merged_of full_text semantic i)"
    and "x_id (merged_of full_text semantic i) = i"
    and "x_bm25 (merged_of full_text semantic i) = source_score x_bm25 full_text i"
    and "x_semantic (merged_of full_text semantic i) = source_score x_semantic semantic i"
    and "x_rank (merged_of full_text semantic i) = candidate_rank full_text semantic i"
proof -
  from merge_candidate_id [of i full_text semantic] assms obtain c
    where c: "merge_candidate (last_with i full_text, last_with i semantic) = Some c" "x_id c = i"
      "x_bm25 c = source_score x_bm25 full_text i" "x_semantic c = source_score x_semantic semantic i"
    by (auto simp: source_score_def)
  then have m: "merged_of full_text semantic i = c" by (simp add: merged_of_def)
  from c m show "merge_candidate (last_with i full_text, last_with i semantic) = Some (merged_of full_text semantic i)"
    "x_id (merged_of full_text semantic i) = i"
    "x_bm25 (merged_of full_text semantic i) = source_score x_bm25 full_text i"
    "x_semantic (merged_of full_text semantic i) = source_score x_semantic semantic i" by simp_all
  show "x_rank (merged_of full_text semantic i) = candidate_rank full_text semantic i"
    using c(1) by (auto simp: m merge_candidate_def present_def candidate_rank_def split: option.splits)
qed

lemma pairs_by_id_alt:
  "pairs_by_id full_text semantic = map (\<lambda>i. (i, last_with i full_text, last_with i semantic)) (candidate_ids full_text semantic)"
proof (rule nth_equalityI)
  let ?P = "pairs_by_id full_text semantic"
  note keys = pairs_by_id_keys [of full_text semantic, symmetric]
  show "length ?P = length (map (\<lambda>i. (i, last_with i full_text, last_with i semantic)) (candidate_ids full_text semantic))"
    by (simp add: keys)
  fix n assume n: "n < length ?P"
  obtain i p where ip: "?P ! n = (i, p)" by (cases "?P ! n")
  then have "(i, p) \<in> set ?P" using n by (metis nth_mem)
  then have "map_of ?P i = Some p" using pairs_by_id_spec by (metis map_of_is_SomeI)
  then have "p = (last_with i full_text, last_with i semantic)"
    using pairs_by_id_spec [of full_text semantic i] by (auto split: if_splits)
  with ip n show "?P ! n = map (\<lambda>i. (i, last_with i full_text, last_with i semantic)) (candidate_ids full_text semantic) ! n"
    by (simp add: keys)
qed

lemma merged_alt:
  "List.map_filter (\<lambda>(i, p). merge_candidate p) (pairs_by_id full_text semantic) =
   map (merged_of full_text semantic) (candidate_ids full_text semantic)"
proof -
  have "List.map_filter (\<lambda>(i, p). merge_candidate p) (map (\<lambda>i. (i, last_with i full_text, last_with i semantic)) ids) =
      map (merged_of full_text semantic) ids" if "set ids \<subseteq> set (candidate_ids full_text semantic)" for ids
    using that
  proof (induction ids)
    case (Cons i ids)
    then show ?case using merged_of_simps(1) [of i full_text semantic] by simp
  qed simp
  then show ?thesis by (simp only: pairs_by_id_alt subset_refl)
qed

lemma fuse_scores_alt:
  fixes full_text semantic :: "'c search_result list"
  defines "by_id \<equiv> pairs_by_id full_text semantic"
  shows "fuse_scores reciprocal combine strategy by_id (length full_text) (length semantic)
      (map (merged_of full_text semantic) (candidate_ids full_text semantic)) =
    candidate_scores reciprocal combine strategy full_text semantic"
proof -
  have "map (\<lambda>(i, p). rank_or (int (length full_text) + 1) (fst p)) by_id = map (source_rank full_text) (candidate_ids full_text semantic)"
    "map (\<lambda>(i, p). rank_or (int (length semantic) + 1) (snd p)) by_id = map (source_rank semantic) (candidate_ids full_text semantic)"
    by (simp_all add: by_id_def pairs_by_id_alt rank_or_def source_rank_def)
  moreover have "map (score_or_zero \<circ> x_bm25) (map (merged_of full_text semantic) (candidate_ids full_text semantic)) =
      map (score_or_zero \<circ> source_score x_bm25 full_text) (candidate_ids full_text semantic)"
    "map (score_or_zero \<circ> x_semantic) (map (merged_of full_text semantic) (candidate_ids full_text semantic)) =
      map (score_or_zero \<circ> source_score x_semantic semantic) (candidate_ids full_text semantic)"
    using merged_of_simps(3,4) [of _ full_text semantic] by (auto simp del: set_candidate_ids)
  ultimately show ?thesis by (simp only: fuse_scores_def candidate_scores_def Let_def)
qed

text \<open>The fused candidate of an identifier, and the ranking as a list of these.\<close>

definition fused_of ::
  "rank_scorer \<Rightarrow> score_combiner \<Rightarrow> strategy \<Rightarrow> 'c search_result list \<Rightarrow> 'c search_result list \<Rightarrow> string \<Rightarrow> 'c search_result" where
  "fused_of reciprocal combine strategy full_text semantic i =
     fused strategy (merged_of full_text semantic i) (candidate_score reciprocal combine strategy full_text semantic i)"

lemma map2_map_of_zip:
  assumes "distinct is" "length is = length xs"
  shows "map2 g (map f is) xs = map (\<lambda>i. g (f i) (score_or_zero (map_of (zip is xs) i))) is"
  using assms by (intro nth_equalityI) (simp_all add: map_of_zip_nth score_or_zero_def)

lemma sort_key_of_map: "sort_key k (map g xs) = map g (sort_key (k \<circ> g) xs)"
proof (induction xs)
  case (Cons x xs)
  have "insort_key k (g x) (map g ys) = map g (insort_key (k \<circ> g) x ys)" for ys by (induction ys) simp_all
  then have "insort_key k (g x) (map g (sort_key (k \<circ> g) xs)) = map g (insort_key (k \<circ> g) x (sort_key (k \<circ> g) xs))" .
  with Cons show ?case by (simp only: list.map sort_key_simps)
qed simp

lemma sort_key_cong: "(\<And>x. x \<in> set xs \<Longrightarrow> k x = k' x) \<Longrightarrow> sort_key k xs = sort_key k' xs"
proof (induction xs)
  case (Cons x xs)
  have "insort_key k x ys = insort_key k' x ys" if "set ys \<subseteq> set (x # xs)" for ys
    using that Cons.prems by (induction ys) simp_all
  from this [of "sort_key k xs"] have "insort_key k x (sort_key k xs) = insort_key k' x (sort_key k xs)" by auto
  with Cons show ?case by simp
qed simp

lemma fusion_ranking_alt:
  assumes "scorers_keep_length reciprocal combine"
  shows "fusion_ranking reciprocal combine strategy tie_breaker full_text semantic =
    map (fused_of reciprocal combine strategy full_text semantic)
      (sort_key (candidate_place reciprocal combine strategy tie_breaker full_text semantic) (candidate_ids full_text semantic))"
proof -
  let ?ids = "candidate_ids full_text semantic" and ?scores = "candidate_scores reciprocal combine strategy full_text semantic"
  let ?F = "fused_of reciprocal combine strategy full_text semantic"
  have len: "length ?ids = length ?scores"
    using assms by (simp add: scorers_keep_length_def candidate_scores_def Let_def)
  have "map2 (fused strategy) (map (merged_of full_text semantic) ?ids) ?scores = map ?F ?ids"
    using map2_map_of_zip [OF _ len, of "fused strategy" "merged_of full_text semantic"]
    by (simp add: fused_of_def candidate_score_def candidate_ids_def)
  then have "fusion_ranking reciprocal combine strategy tie_breaker full_text semantic =
      sort_key (fusion_key tie_breaker) (map ?F ?ids)"
    by (simp only: fusion_ranking_def Let_def merged_alt fuse_scores_alt sort_ranked_def)
  also have "\<dots> = map ?F (sort_key (fusion_key tie_breaker \<circ> ?F) ?ids)" by (rule sort_key_of_map)
  also have "sort_key (fusion_key tie_breaker \<circ> ?F) ?ids =
      sort_key (candidate_place reciprocal combine strategy tie_breaker full_text semantic) ?ids"
    using merged_of_simps(2,5) [of _ full_text semantic]
    by (intro sort_key_cong) (auto simp: fused_of_def fusion_key_def candidate_place_def tie_of_def fused_def score_or_zero_def)
  finally show ?thesis .
qed

lemma number_results_nth:
  "i < length cs \<Longrightarrow> number_results cs ! i = (cs ! i)\<lparr>x_rank := int (Suc i)\<rparr>"
  by (simp add: number_results_alt)

lemma number_results_all:
  assumes "\<And>r n. r \<in> set cs \<Longrightarrow> P (r\<lparr>x_rank := n\<rparr>)"
  shows "list_all P (number_results cs)"
  using assms by (simp add: number_results_alt list_all_iff)

text \<open>The kept part of a sorted list is sorted, and everything left out comes after it.\<close>

lemma take_sort_key_best:
  assumes "a \<in> set (take n (sort_key k xs))" "b \<in> set xs" "b \<notin> set (take n (sort_key k xs))"
  shows "k a \<le> k b"
proof -
  have "b \<in> set (drop n (sort_key k xs))"
    using assms(2,3) by (metis Un_iff append_take_drop_id set_append set_sort)
  moreover have "sorted (map k (take n (sort_key k xs) @ drop n (sort_key k xs)))" by simp
  ultimately show ?thesis using assms(1) by (simp only: map_append sorted_append set_map) blast
qed

text \<open>
  C33: a fusion answers with every candidate of either source once, ranked from 1, or, under a limit, with
  as many of the best of them: every answer has the fused score of its identifier, that is what the
  strategy computes from the scores or ranks of the last candidates of each source, cut off to between 0
  and 1; the answers stand by descending score, equal scores by the tie breaker (the identifier or the
  better of the ranks); and no candidate the limit leaves out has a place before an answered one.
\<close>

theorem fusion_ranks_candidates:
  assumes "scorers_keep_length reciprocal combine"
    and run: "fuse_search_results reciprocal combine strategy limit tie_breaker full_text semantic = Inr rs"
  shows "map x_rank rs = map int [1..<Suc (length rs)] \<and> distinct (map x_id rs) \<and>
    set (map x_id rs) \<subseteq> set (map x_id (full_text @ semantic)) \<and>
    length rs = (case limit of
        None \<Rightarrow> card (set (map x_id (full_text @ semantic)))
      | Some n \<Rightarrow> min (nat n) (card (set (map x_id (full_text @ semantic))))) \<and>
    list_all (\<lambda>r. x_hybrid r = Some (clamp (candidate_score reciprocal combine strategy full_text semantic (x_id r))) \<and>
      x_bm25 r = source_score x_bm25 full_text (x_id r) \<and>
      x_semantic r = source_score x_semantic semantic (x_id r)) rs \<and>
    sorted (map (candidate_place reciprocal combine strategy tie_breaker full_text semantic \<circ> x_id) rs) \<and>
    (\<forall>i j. i \<in> set (map x_id rs) \<and> j \<in> set (map x_id (full_text @ semantic)) \<and> j \<notin> set (map x_id rs) \<longrightarrow>
      candidate_place reciprocal combine strategy tie_breaker full_text semantic i \<le>
      candidate_place reciprocal combine strategy tie_breaker full_text semantic j)"
proof -
  let ?ids = "candidate_ids full_text semantic"
  let ?k = "candidate_place reciprocal combine strategy tie_breaker full_text semantic"
  let ?F = "fused_of reciprocal combine strategy full_text semantic"
  let ?all = "set (map x_id (full_text @ semantic))"
  define n where "n = (case limit of None \<Rightarrow> length ?ids | Some n \<Rightarrow> nat n)"
  define best where "best = take n (sort_key ?k ?ids)"
  have all: "?all = set ?ids" by (simp add: image_Un)
  have len: "length ?ids = card ?all" unfolding all by (rule distinct_card [symmetric]) (simp add: candidate_ids_def)
  have rs: "rs = number_results (map ?F best)"
    using fuse_run [OF run] by (cases limit) (simp_all add: fusion_ranking_alt [OF assms(1)] best_def n_def take_map)
  have sub: "set best \<subseteq> set ?ids" unfolding best_def by (metis set_sort set_take_subset)
  have id: "x_id (?F i) = i" if "i \<in> set best" for i
    using merged_of_simps(2) [of i full_text semantic] sub that by (auto simp: fused_of_def fused_def)
  then have ids: "map x_id rs = best" by (simp add: rs map_idI)
  have scores: "list_all (\<lambda>r. x_hybrid r = Some (clamp (candidate_score reciprocal combine strategy full_text semantic (x_id r))) \<and>
      x_bm25 r = source_score x_bm25 full_text (x_id r) \<and>
      x_semantic r = source_score x_semantic semantic (x_id r)) rs"
    unfolding rs
  proof (rule number_results_all)
    fix r m assume "r \<in> set (map ?F best)"
    then obtain i where i: "i \<in> set best" "r = ?F i" by auto
    then have "i \<in> set ?ids" using sub by blast
    from merged_of_simps(2-4) [OF this] i(2) show
      "x_hybrid (r\<lparr>x_rank := m\<rparr>) = Some (clamp (candidate_score reciprocal combine strategy full_text semantic (x_id (r\<lparr>x_rank := m\<rparr>)))) \<and>
       x_bm25 (r\<lparr>x_rank := m\<rparr>) = source_score x_bm25 full_text (x_id (r\<lparr>x_rank := m\<rparr>)) \<and>
       x_semantic (r\<lparr>x_rank := m\<rparr>) = source_score x_semantic semantic (x_id (r\<lparr>x_rank := m\<rparr>))"
      by (simp add: fused_of_def fused_def)
  qed
  have ranks: "map x_rank rs = map int [1..<Suc (length rs)]" unfolding rs by (simp del: upt_Suc)
  have dist: "distinct best" by (simp add: best_def candidate_ids_def)
  have len2: "length rs = (case limit of None \<Rightarrow> card ?all | Some n \<Rightarrow> min (nat n) (card ?all))"
    using len by (cases limit) (simp_all add: rs n_def best_def min.commute)
  have srt: "sorted (map (?k \<circ> x_id) rs)"
    by (simp add: ids map_map [symmetric] del: map_map) (simp add: best_def take_map [symmetric] sorted_wrt_take)
  have rest: "?k i \<le> ?k j" if "i \<in> set best" "j \<in> ?all" "j \<notin> set best" for i j
    using that unfolding best_def all by (rule take_sort_key_best)
  have sub2: "set best \<subseteq> ?all" using sub all by simp
  have best: "\<forall>i j. i \<in> set best \<and> j \<in> ?all \<and> j \<notin> set best \<longrightarrow> ?k i \<le> ?k j"
    using rest by blast
  show ?thesis
    unfolding ids by (rule conjI [OF ranks conjI [OF dist conjI [OF sub2 conjI [OF len2 conjI [OF scores conjI [OF srt best]]]]]])
qed

text \<open>
  Two candidates of one chunk and one of another, with a combination that adds the scores: the chunk that
  both sources found is the one the limit keeps.
\<close>

definition hit :: "string \<Rightarrow> rat option \<Rightarrow> rat option \<Rightarrow> int \<Rightarrow> unit search_result" where
  "hit i bm25 semantic rank = \<lparr>x_id = i, x_chunk = (), x_bm25 = bm25, x_semantic = semantic, x_hybrid = None,
     x_rank = rank, x_matched = [], x_highlights = [], x_evidence = []\<rparr>"

theorem fusion_ranks_candidates_witness:
  "\<exists>r. fuse_search_results (\<lambda>xs ys. map of_int xs) (\<lambda>xs ys. map2 (+) xs ys) Weighted_sum (Some 1) ''chunk_id''
     [hit ''b'' (Some (1/4)) None 1] [hit ''a'' None (Some (1/2)) 1, hit ''b'' None (Some (1/2)) 2] = Inr [r] \<and>
     x_id r = ''b'' \<and> x_hybrid r = Some (3/4)"
proof -
  let ?f = "[hit ''b'' (Some (1/4)) None 1]" and ?s = "[hit ''a'' None (Some (1/2)) 1, hit ''b'' None (Some (1/2)) 2]"
  let ?score = "candidate_score (\<lambda>xs ys. map of_int xs) (\<lambda>xs ys. map2 (+) xs ys) Weighted_sum ?f ?s"
  obtain rs where run: "fuse_search_results (\<lambda>xs ys. map of_int xs) (\<lambda>xs ys. map2 (+) xs ys) Weighted_sum (Some 1)
      ''chunk_id'' ?f ?s = Inr rs"
    by (simp add: fuse_search_results_def supported_strategies_def validate_candidates_def valid_candidate_def
        hit_def Let_def)
  have keep: "scorers_keep_length (\<lambda>xs ys. map of_int xs) (\<lambda>xs ys. map2 (+) xs ys)"
    by (simp add: scorers_keep_length_def)
  have scores: "?score ''b'' = 3/4" "?score ''a'' = 1/2"
    by (simp_all add: candidate_score_def candidate_scores_def candidate_ids_def dict_fromkeys_def hit_def
        source_score_def last_with_def score_or_zero_def)
  note all = fusion_ranks_candidates [OF keep run]
  note best = all [THEN conjunct2, THEN conjunct2, THEN conjunct2, THEN conjunct2, THEN conjunct2, THEN conjunct2, rule_format]
  have "length rs = 1" using all by (simp add: hit_def card_insert_if)
  then obtain r where r: "rs = [r]" by (auto simp: length_Suc_conv)
  have "set (map x_id rs) \<subseteq> set (map x_id (?f @ ?s))" using all by blast
  then have "x_id r = ''a'' \<or> x_id r = ''b''" by (auto simp: r hit_def)
  moreover have "x_id r \<noteq> ''a''"
  proof
    assume "x_id r = ''a''"
    then have "candidate_place (\<lambda>xs ys. map of_int xs) (\<lambda>xs ys. map2 (+) xs ys) Weighted_sum ''chunk_id'' ?f ?s ''a'' \<le>
        candidate_place (\<lambda>xs ys. map of_int xs) (\<lambda>xs ys. map2 (+) xs ys) Weighted_sum ''chunk_id'' ?f ?s ''b''"
      using best [of "''a''" "''b''"] by (simp add: r hit_def)
    then show False by (simp add: candidate_place_def scores clamp_def less_eq_prod_def)
  qed
  ultimately have id: "x_id r = ''b''" by blast
  moreover have "x_hybrid r = Some (3/4)" using all by (simp add: r id scores clamp_def)
  ultimately show ?thesis using run by (simp add: r)
qed

section \<open>Predicates\<close>

lemma map_of_predicate_columns:
  "map_of (predicate_columns metadata) f = (case map_of named_columns f of
     Some c \<Rightarrow> Some c
   | None \<Rightarrow> if f \<in> set metadata then Some (''sc.block_meta ->> '' @ quoted f) else None)"
proof -
  have "map_of (fold (\<lambda>f columns. if map_of columns f = None
        then columns @ [(f, ''sc.block_meta ->> '' @ quoted f)] else columns) metadata columns) f =
      (case map_of columns f of Some c \<Rightarrow> Some c
       | None \<Rightarrow> if f \<in> set metadata then Some (''sc.block_meta ->> '' @ quoted f) else None)" for columns
  proof (induction metadata arbitrary: columns)
    case (Cons g metadata)
    then show ?case by (auto simp: map_of_append map_add_def split: option.splits)
  qed (simp split: option.splits)
  then show ?thesis by (simp add: predicate_columns_def)
qed

text \<open>The executors keep tables of their own and understand every predicate alike.\<close>

lemma executors_agree: "predicate_column runtime_metadata_fields = predicate_column metadata_fields"
proof
  fix f
  have "f \<in> set metadata_fields \<longleftrightarrow> f \<in> set runtime_metadata_fields" if "map_of named_columns f = None"
    using that by (simp add: named_columns_def metadata_fields_def runtime_metadata_fields_def split: if_splits)
  then have "map_of (predicate_columns runtime_metadata_fields) f = map_of (predicate_columns metadata_fields) f"
    by (cases "map_of named_columns f") (simp_all add: map_of_predicate_columns)
  then show "predicate_column runtime_metadata_fields f = predicate_column metadata_fields f"
    by (simp only: predicate_column_def)
qed

section \<open>What the runtime leaves out\<close>

text \<open>
  The README offers hybrid retrieval through the public query; the runtime boundary compiles a query
  with a text and a vector to a hybrid plan and refuses it, whatever the tables hold.
\<close>

theorem hybrid_refused:
  assumes "l_mode plan = Hybrid"
  shows "execute_plan env r plan = Inl Hybrid_unconfigured"
  using assms by (simp add: execute_plan_def)

text \<open>
  A semantic plan that is run with refinement ignores its predicates, its page and its minimal score:
  any two plans with the same vector have the same answer.
\<close>

theorem refinement_ignores_filters:
  assumes "rf_enabled r" "l_mode plan = Semantic" "l_mode plan' = Semantic" "l_embedding plan = l_embedding plan'"
  shows "execute_plan env r plan = execute_plan env r plan'"
  using assms by (simp add: execute_plan_def execute_semantic_plan_def)

end
