(* ===== verification/Query_Window_Properties.thy ===== *)
theory Query_Window_Properties
  imports Query_Window
begin

text \<open>
  The window of a refined search truncates after every candidate; nothing is lost by it. The lemmas
  are about the set of the best elements of a finite set under an injective key, and how adding an
  element to the set or only to its best elements comes to the same.
\<close>

section \<open>The best elements of a set\<close>

definition tops :: "('a \<Rightarrow> 'b :: linorder) \<Rightarrow> nat \<Rightarrow> 'a set \<Rightarrow> 'a set \<Rightarrow> bool" where
  "tops f k S T \<longleftrightarrow> T \<subseteq> S \<and> card T = min k (card S) \<and> (\<forall>x\<in>T. \<forall>y\<in>S - T. f x < f y)"

lemma tops_take:
  assumes "distinct (map f xs)"
  shows "tops f k (set xs) (set (take k (sort_key f xs)))"
proof -
  let ?s = "sort_key f xs"
  have dist: "distinct (map f ?s)" using assms by (simp add: distinct_map)
  have sorted: "sorted (map f (take k ?s @ drop k ?s))" by simp
  have "f x < f y" if x: "x \<in> set (take k ?s)" and y: "y \<in> set xs - set (take k ?s)" for x y
  proof -
    have "y \<in> set (take k ?s @ drop k ?s)" using y by simp
    then have y': "y \<in> set (drop k ?s)" using y by (simp only: set_append) blast
    have "f x \<le> f y" using sorted x y' by (simp only: map_append sorted_append set_map) blast
    moreover have "f x \<noteq> f y"
      using dist x y' y by (metis DiffE distinct_map in_set_dropD in_set_takeD inj_onD)
    ultimately show ?thesis by simp
  qed
  moreover have "card (set (take k ?s)) = min k (card (set xs))"
    using dist assms by (simp add: distinct_card distinct_map min.commute)
  moreover have "set (take k ?s) \<subseteq> set xs" using set_take_subset [of k ?s] by simp
  ultimately show ?thesis by (simp add: tops_def)
qed

lemma tops_unique:
  assumes "finite S" "tops f k S T" "tops f k S U"
  shows "T = U"
proof -
  have fin: "finite T" "finite U" using assms by (auto simp: tops_def intro: finite_subset)
  have card: "card T = card U" using assms by (simp add: tops_def)
  have "T \<subseteq> U"
  proof
    fix x assume x: "x \<in> T"
    show "x \<in> U"
    proof (rule ccontr)
      assume n: "x \<notin> U"
      then have "T \<noteq> U" using x by blast
      then obtain y where y: "y \<in> U" "y \<notin> T" using card fin card_subset_eq by (metis subsetI)
      have "f x < f y" "f y < f x" using assms x n y by (auto simp: tops_def)
      then show False by simp
    qed
  qed
  then show ?thesis using card fin by (metis card_subset_eq)
qed

lemma tops_all: "finite S \<Longrightarrow> card S \<le> k \<Longrightarrow> tops f k S T \<Longrightarrow> T = S"
  by (metis card_subset_eq min.absorb2 tops_def)

lemma tops_full: "tops f k S T \<Longrightarrow> y \<in> S - T \<Longrightarrow> finite S \<Longrightarrow> card T = k"
  by (metis DiffE card_subset_eq min_def tops_def)

text \<open>Adding one element.\<close>

lemma tops_insert:
  assumes fin: "finite S" and T: "tops f k S T" and U: "tops f k (insert c T) U" and c: "c \<notin> S"
    and rest: "R \<subseteq> S - T"
  shows "tops f k (insert c (T \<union> R)) U"
proof -
  have finT: "finite T" and cT: "c \<notin> T" and RT: "R \<inter> T = {}" "finite R"
    using fin T c rest by (auto simp: tops_def intro: finite_subset)
  have "f x < f y" if x: "x \<in> U" and y: "y \<in> insert c (T \<union> R) - U" for x y
  proof (cases "y \<in> insert c T")
    case True
    with U x y show ?thesis by (auto simp: tops_def)
  next
    case False
    with y rest have y': "y \<in> S - T" by blast
    have k: "card T = k" using tops_full [OF T y' fin] .
    show ?thesis
    proof (cases "x = c")
      case False
      with x U have "x \<in> T" by (auto simp: tops_def)
      with T y' show ?thesis by (auto simp: tops_def)
    next
      case True
      have "card U = k" using U k finT cT by (simp add: tops_def)
      then have "\<not> insert c T \<subseteq> U"
        using k finT cT by (metis U card_insert_disjoint card_mono finite_insert n_not_Suc_n tops_def finite_subset le_antisym)
      then obtain t where t: "t \<in> T" "t \<notin> U" using True x by blast
      then have "f c < f t" using U True x by (auto simp: tops_def)
      also have "f t < f y" using T t y' by (auto simp: tops_def)
      finally show ?thesis using True by simp
    qed
  qed
  moreover have "card U = min k (card (insert c (T \<union> R)))"
  proof (cases "card T = k")
    case True
    have "card T \<le> card (T \<union> R)" using finT RT by (intro card_mono) auto
    then have "k \<le> card (insert c (T \<union> R))" using True finT RT by (metis card_insert_le finite_UnI le_trans)
    moreover have "card U = k" using U True finT cT by (simp add: tops_def)
    ultimately show ?thesis by simp
  next
    case False
    then have "R = {}" using rest tops_full [OF T _ fin] by blast
    then show ?thesis using U by (simp add: tops_def)
  qed
  ultimately show ?thesis using U by (auto simp: tops_def)
qed

lemma tops_exists:
  assumes "finite S" "inj_on f S" shows "\<exists>T. tops f k S T"
proof -
  obtain xs where "set xs = S" "distinct xs" using finite_distinct_list [OF assms(1)] by blast
  with tops_take [of f xs k] assms(2) show ?thesis by (auto simp: distinct_map)
qed

section \<open>The better candidate of a key\<close>

definition better :: "candidate \<Rightarrow> candidate set \<Rightarrow> candidate set" where
  "better c S = (if \<exists>x\<in>S. candidate_key x = candidate_key c \<and> n_score c \<le> n_score x then S
     else insert c {x \<in> S. candidate_key x \<noteq> candidate_key c})"

abbreviation one_per_key :: "candidate set \<Rightarrow> bool" where
  "one_per_key S \<equiv> finite S \<and> inj_on candidate_key S"

lemma level_name_inj [simp]: "level_name k = level_name l \<longleftrightarrow> k = l"
  by (cases k; cases l) simp_all

lemma window_key_key: "window_key x = window_key y \<Longrightarrow> candidate_key x = candidate_key y"
  by (auto simp: window_key_def candidate_key_def)

lemma window_key_inj: "inj_on candidate_key S \<Longrightarrow> inj_on window_key S"
  by (auto simp: inj_on_def dest: window_key_key)

lemma window_key_better:
  "candidate_key x = candidate_key y \<Longrightarrow> window_key x < window_key y \<longleftrightarrow> n_score y < n_score x"
  "candidate_key x = candidate_key y \<Longrightarrow> window_key x \<le> window_key y \<longleftrightarrow> n_score y \<le> n_score x"
  by (auto simp: window_key_def candidate_key_def less_prod_def' less_eq_prod_def)

lemma one_per_key_better: "one_per_key S \<Longrightarrow> one_per_key (better c S)"
  by (auto simp: better_def inj_on_def)

lemma tops_better:
  assumes S: "one_per_key S" and T: "tops window_key k S T" and U: "tops window_key k (better c T) U"
  shows "tops window_key k (better c S) U"
proof -
  let ?f = window_key
  have TS: "T \<subseteq> S" and fin: "finite S" "finite T" using S T by (auto simp: tops_def intro: finite_subset)
  have le: "card T \<le> k" using T by (simp add: tops_def)
  have inj: "x = y" if "x \<in> S" "y \<in> S" "candidate_key x = candidate_key y" for x y
    using S that by (auto simp: inj_on_def)
  show ?thesis
  proof (cases "\<exists>x\<in>S. candidate_key x = candidate_key c")
    case False
    then have "better c S = insert c S" "better c T = insert c T" "c \<notin> S"
      using TS by (auto simp: better_def)
    then show ?thesis using tops_insert [OF fin(1) T, of c U "S - T"] U TS by (simp add: Un_absorb1)
  next
    case True
    then obtain x where x: "x \<in> S" "candidate_key x = candidate_key c" by blast
    have only: "{y \<in> A. candidate_key y \<noteq> candidate_key c} = A - {x}" if "A \<subseteq> S" for A
      using that x inj by auto
    have S': "better c S = (if n_score c \<le> n_score x then S else insert c (S - {x}))"
      using x inj only [of S] by (auto simp: better_def)
    show ?thesis
    proof (cases "x \<in> T")
      case xT: True
      have T': "better c T = (if n_score c \<le> n_score x then T else insert c (T - {x}))"
        using x xT inj TS only [of T] by (auto simp: better_def)
      show ?thesis
      proof (cases "n_score c \<le> n_score x")
        case True
        then have "better c T = T" "better c S = S" using T' S' by simp_all
        moreover from this U have "tops ?f k T U" by (simp only:)
        then have "U = T" by (rule tops_all [OF fin(2) le])
        ultimately show ?thesis using T by (simp only:)
      next
        case False
        then have less: "?f c < ?f x" using window_key_better(1) [of c x] x by simp
        have cS: "c \<notin> S" using False x inj [of c x] by auto
        have cT: "card (insert c (T - {x})) = card T"
          using fin xT cS TS by (metis DiffD1 card.insert card_Suc_Diff1 finite_Diff subsetD)
        have "card (insert c (S - {x})) = card S"
          using fin x cS by (metis DiffD1 card.insert card_Suc_Diff1 finite_Diff)
        moreover have "U = insert c (T - {x})"
          using U T' False le cT fin by (intro tops_all [of _ k]) auto
        moreover have "?f y < ?f z" if "y \<in> insert c (T - {x})" "z \<in> S - T" for y z
          using that T xT less by (auto simp: tops_def intro: less_trans)
        ultimately show ?thesis using S' False T cT TS by (auto simp: tops_def)
      qed
    next
      case xT: False
      have "\<not> (\<exists>y\<in>T. candidate_key y = candidate_key c)" using x xT inj TS by (metis subsetD)
      then have T': "better c T = insert c T" by (auto simp: better_def)
      have full: "card T = k" using tops_full [OF T _ fin(1)] x xT by blast
      show ?thesis
      proof (cases "n_score c \<le> n_score x")
        case True
        then have le: "?f x \<le> ?f c" using window_key_better(2) [of x c] x by simp
        have "?f t < ?f c" if "t \<in> T" for t
        proof -
          have "?f t < ?f x" using T x xT that by (auto simp: tops_def)
          then show ?thesis using le by (rule less_le_trans)
        qed
        moreover have "c \<notin> T" using x xT inj TS by auto
        ultimately have "tops ?f k (insert c T) T" using full fin by (auto simp: tops_def)
        then have "U = T" using U T' tops_unique fin by (metis finite_insert)
        then show ?thesis using S' True T by simp
      next
        case False
        then have "c \<notin> S" using x inj [of c x] by auto
        moreover have "better c S = insert c (T \<union> (S - T - {x}))"
          using S' False xT TS by auto
        moreover have "tops ?f k (insert c T) U" using U T' by (simp only:)
        ultimately show ?thesis
          using tops_insert [OF fin(1) T, of c U "S - T - {x}"] by (metis Diff_subset)
      qed
    qed
  qed
qed

text \<open>Two sets with the same best elements, and a fold over both.\<close>

definition same_tops :: "nat \<Rightarrow> candidate set \<Rightarrow> candidate set \<Rightarrow> bool" where
  "same_tops k S T \<longleftrightarrow> one_per_key S \<and> one_per_key T \<and> (\<exists>V. tops window_key k S V \<and> tops window_key k T V)"

lemma same_tops_better: "same_tops k S T \<Longrightarrow> same_tops k (better c S) (better c T)"
proof -
  assume "same_tops k S T"
  then obtain V where V: "tops window_key k S V" "tops window_key k T V" and S: "one_per_key S" and T: "one_per_key T"
    by (auto simp: same_tops_def)
  have "V \<subseteq> S" using V(1) by (simp add: tops_def)
  with S have "one_per_key V" by (meson finite_subset inj_on_subset)
  from one_per_key_better [OF this] obtain U where "tops window_key k (better c V) U"
    using tops_exists window_key_inj by blast
  with tops_better [OF S V(1)] tops_better [OF T V(2)] show ?thesis
    unfolding same_tops_def using one_per_key_better S T by blast
qed

lemma same_tops_fold: "same_tops k S T \<Longrightarrow> same_tops k (fold better cs S) (fold better cs T)"
  by (induction cs arbitrary: S T) (simp_all add: same_tops_better)

section \<open>The dictionary of the best candidates\<close>

definition keyed :: "((level \<times> uuid) \<times> candidate) list \<Rightarrow> bool" where
  "keyed d \<longleftrightarrow> distinct (map fst d) \<and> (\<forall>(k, c)\<in>set d. k = candidate_key c)"

lemma keyed_values: "keyed d \<Longrightarrow> one_per_key (snd ` set d) \<and> distinct (map snd d)"
proof (intro conjI)
  assume d: "keyed d"
  then have "fst p = candidate_key (snd p)" if "p \<in> set d" for p using that by (auto simp: keyed_def)
  then have "map fst d = map candidate_key (map snd d)" by simp
  with d have "distinct (map candidate_key (map snd d))" unfolding keyed_def by (simp only:)
  then have "distinct (map snd d) \<and> inj_on candidate_key (set (map snd d))"
    by (simp only: distinct_map [of candidate_key])
  then show "inj_on candidate_key (snd ` set d)" "distinct (map snd d)" by simp_all
qed simp

lemma dict_set_values:
  "keyed d \<Longrightarrow> keyed (dict_set d (candidate_key c) c) \<and>
     snd ` set (dict_set d (candidate_key c) c) = insert c {x \<in> snd ` set d. candidate_key x \<noteq> candidate_key c}"
proof (induction d)
  case (Cons p d)
  obtain k x where p: "p = (k, x)" by (cases p)
  have d: "keyed d" and k: "k = candidate_key x" "k \<notin> fst ` set d"
    using Cons.prems by (auto simp: keyed_def p)
  show ?case
  proof (cases "k = candidate_key c")
    case True
    have "candidate_key y \<in> fst ` set d" if y: "y \<in> snd ` set d" for y
    proof -
      obtain j where j: "(j, y) \<in> set d" using y by auto
      then have "j = candidate_key y" using d by (auto simp: keyed_def)
      with j show ?thesis by force
    qed
    then have "\<forall>y\<in>snd ` set d. candidate_key y \<noteq> candidate_key c" using True k(2) by metis
    then show ?thesis using Cons.prems True k by (auto simp: keyed_def p)
  next
    case False
    then show ?thesis using Cons.IH [OF d] Cons.prems k by (auto simp: keyed_def p)
  qed
qed (simp add: keyed_def)

lemma keyed_lookup: "keyed d \<Longrightarrow> map_of d k = Some x \<longleftrightarrow> x \<in> snd ` set d \<and> candidate_key x = k"
  by (force simp: keyed_def)

lemma keep_better_values:
  assumes d: "keyed d"
  shows "keyed (keep_better c d) \<and> snd ` set (keep_better c d) = better c (snd ` set d)"
proof (cases "map_of d (candidate_key c)")
  case None
  then have none: "\<forall>x\<in>snd ` set d. candidate_key x \<noteq> candidate_key c"
    using keyed_lookup [OF d, of "candidate_key c"] by (metis not_None_eq)
  then have "better c (snd ` set d) = insert c {x \<in> snd ` set d. candidate_key x \<noteq> candidate_key c}"
    by (auto simp: better_def)
  then show ?thesis using dict_set_values [OF d, of c] by (simp add: keep_better_def None)
next
  case (Some x)
  then have x: "x \<in> snd ` set d" "candidate_key x = candidate_key c" using keyed_lookup [OF d] by auto
  have only: "y = x" if "y \<in> snd ` set d" "candidate_key y = candidate_key c" for y
    using keyed_values [OF d] x that by (metis inj_onD)
  have "better c (snd ` set d) = (if n_score x < n_score c
      then insert c {x \<in> snd ` set d. candidate_key x \<noteq> candidate_key c} else snd ` set d)"
  proof (cases "n_score x < n_score c")
    case True
    then have "\<not> (\<exists>y\<in>snd ` set d. candidate_key y = candidate_key c \<and> n_score c \<le> n_score y)"
      using only by fastforce
    then show ?thesis using True by (simp only: better_def if_False if_True)
  next
    case False
    then have "\<exists>y\<in>snd ` set d. candidate_key y = candidate_key c \<and> n_score c \<le> n_score y"
      using x by (meson not_less)
    then show ?thesis using False by (simp only: better_def if_False if_True)
  qed
  then show ?thesis using dict_set_values [OF d, of c] d by (simp add: keep_better_def Some)
qed

lemma fold_keep_better:
  "keyed d \<Longrightarrow> keyed (fold keep_better cs d) \<and> snd ` set (fold keep_better cs d) = fold better cs (snd ` set d)"
  by (induction cs arbitrary: d) (simp_all add: keep_better_values)

lemma by_key_values:
  assumes "distinct (map candidate_key cs)" shows "keyed (by_key cs) \<and> snd ` set (by_key cs) = set cs"
  using assms
proof (induction cs rule: rev_induct)
  case (snoc c cs)
  then have IH: "keyed (by_key cs)" "snd ` set (by_key cs) = set cs"
    by auto
  have new: "\<forall>x\<in>set cs. candidate_key x \<noteq> candidate_key c"
    using snoc.prems by (auto dest: sym [of _ "candidate_key c"])
  from new have "{x \<in> set cs. candidate_key x \<noteq> candidate_key c} = set cs" by auto
  then show ?case using dict_set_values [OF IH(1), of c] IH(2) by (simp add: by_key_def)
qed (simp add: by_key_def keyed_def)

section \<open>The loop\<close>

text \<open>The best candidate of every key.\<close>

definition best_per_key :: "candidate list \<Rightarrow> candidate list" where
  "best_per_key cs = map snd (fold keep_better cs [])"

definition best_window :: "nat \<Rightarrow> candidate list \<Rightarrow> candidate list" where
  "best_window limit cs = take limit (sort_key window_key (best_per_key cs))"

lemma keyed_Nil: "keyed []"
  by (simp add: keyed_def)

lemma top_self: "finite S \<Longrightarrow> tops f k S T \<Longrightarrow> tops f k T T"
  by (simp add: tops_def)

lemma distinct_window_keys: "keyed d \<Longrightarrow> distinct (map window_key (map snd d))"
  using keyed_values [of d] window_key_inj [of "snd ` set d"] by (simp only: distinct_map [of window_key] set_map simp_thms)

lemma sorted_take_unique:
  assumes "keyed d" "keyed e"
    and "set (take n (sort_key window_key (map snd d))) = set (take n (sort_key window_key (map snd e)))"
  shows "take n (sort_key window_key (map snd d)) = take n (sort_key window_key (map snd e))"
proof -
  have dist: "distinct (map window_key (take n (sort_key window_key (map snd d))))" if "keyed d" for d
    using distinct_window_keys [OF that] by (metis distinct_map distinct_sort distinct_take set_sort inj_on_subset set_take_subset)
  have sort: "sorted (map window_key (take n (sort_key window_key xs)))" for xs
    by (metis sorted_sort_key sorted_wrt_take take_map)
  from dist [OF assms(1)] dist [OF assms(2)] sort assms(3) show ?thesis
    by (intro map_sorted_distinct_set_unique [of window_key]) (auto simp: distinct_map)
qed

lemma merge_window_step:
  assumes "window = best_window limit seen"
  shows "merge_window window additions limit = best_window limit (seen @ additions)"
proof -
  let ?D = "fold keep_better seen []" and ?E = "fold keep_better additions (by_key window)"
  let ?F = "fold keep_better (seen @ additions) []"
  have D: "keyed ?D" "snd ` set ?D = fold better seen {}" using fold_keep_better [OF keyed_Nil, of seen] by auto
  have F: "keyed ?F" "snd ` set ?F = fold better additions (fold better seen {})"
    using fold_keep_better [OF keyed_Nil, of "seen @ additions"] by auto
  have top: "tops window_key limit (snd ` set d) (set (take limit (sort_key window_key (map snd d))))"
    if "keyed d" for d
    using tops_take [OF distinct_window_keys [OF that], of limit] by (simp only: set_map)
  have W: "set window \<subseteq> snd ` set ?D" "tops window_key limit (snd ` set ?D) (set window)"
    using top [OF D(1)] by (auto simp: assms best_window_def best_per_key_def tops_def)
  have dw: "distinct (map candidate_key window)"
    using keyed_values [OF D(1)] W(1)
    by (auto simp: distinct_map assms best_window_def best_per_key_def intro: inj_on_subset)
  then have E: "keyed ?E" "snd ` set ?E = fold better additions (set window)"
    using fold_keep_better [of "by_key window" additions] by_key_values by auto
  have "one_per_key (set window)" using W(1) keyed_values [OF D(1)] by (auto intro: inj_on_subset)
  then have "same_tops limit (snd ` set ?D) (set window)"
    unfolding same_tops_def using keyed_values [OF D(1)] W(2) top_self [OF _ W(2)] by blast
  from same_tops_fold [OF this, of additions]
  obtain V where V: "tops window_key limit (snd ` set ?F) V" "tops window_key limit (snd ` set ?E) V"
    using E F D by (metis same_tops_def)
  have eq: "set (take limit (sort_key window_key (map snd ?E))) = set (take limit (sort_key window_key (map snd ?F)))"
    using tops_unique [OF _ top [OF E(1)] V(2)] tops_unique [OF _ top [OF F(1)] V(1)] by simp
  have "take limit (sort_key window_key (map snd ?E)) = take limit (sort_key window_key (map snd ?F))"
    using eq by (rule sorted_take_unique [OF E(1) F(1)])
  then show ?thesis by (simp add: merge_window_def best_window_def best_per_key_def)
qed

lemma refine_all_window:
  "window = best_window limit seen \<Longrightarrow>
   fst (refine_all refine limit cs (window, ns, n)) = best_window limit (seen @ concat (map (fst \<circ> refine) cs))"
proof (induction cs arbitrary: window seen ns n)
  case (Cons c cs)
  obtain additions path where c: "refine c = (additions, path)" by (cases "refine c")
  show ?case
    using Cons.IH [OF merge_window_step [OF Cons.prems, of additions]] by (simp add: c Let_def)
qed simp

section \<open>The answer\<close>

definition all_additions :: "search_store \<Rightarrow> string \<Rightarrow> int \<Rightarrow> refinement \<Rightarrow> candidate list" where
  "all_additions s model dimension r = concat (map
     (fst \<circ> refine_candidate s model dimension (rf_threshold r) (rf_result_limit r))
     (primary_candidates s model dimension (rf_threshold r) (rf_candidate_limit r)))"

lemma results_best_window:
  "sa_results (execute_hierarchical s model dimension r) =
   best_window (rf_result_limit r) (all_additions s model dimension r)"
proof -
  have empty: "[] = best_window (rf_result_limit r) []" by (simp add: best_window_def best_per_key_def)
  show ?thesis
    using refine_all_window [OF empty, of "refine_candidate s model dimension (rf_threshold r) (rf_result_limit r)"
        "primary_candidates s model dimension (rf_threshold r) (rf_candidate_limit r)" "[]" 0]
    by (auto simp: execute_hierarchical_def Let_def all_additions_def best_window_def split: prod.splits)
qed

lemma fold_better_spec:
  "x \<in> fold better cs S \<Longrightarrow> x \<in> S \<union> set cs"
  "c \<in> S \<union> set cs \<Longrightarrow> \<exists>x\<in>fold better cs S. candidate_key x = candidate_key c \<and> n_score c \<le> n_score x"
proof (induction cs arbitrary: S c)
  case (Cons d cs)
  {
    case 1
    from Cons.IH(1) [OF 1 [simplified]] show ?case by (auto simp: better_def split: if_splits)
  next
    case 2
    have "\<exists>y\<in>better d S \<union> set cs. candidate_key y = candidate_key c \<and> n_score c \<le> n_score y"
    proof (cases "c \<in> set cs")
      case False
      with 2 consider "c = d" | "c \<in> S" by auto
      then show ?thesis
        by cases (auto simp: better_def intro: order_trans)
    qed auto
    then obtain y where y: "y \<in> better d S \<union> set cs" "candidate_key y = candidate_key c" "n_score c \<le> n_score y" by blast
    from Cons.IH(2) [OF y(1)] y(2,3) show ?case by (auto intro: order_trans)
  }
qed auto

lemma best_window_spec:
  fixes cs limit
  defines "ws \<equiv> best_window limit cs"
  shows "sorted (map window_key ws)" "distinct (map candidate_key ws)" "set ws \<subseteq> set cs"
    and "c \<in> set cs \<Longrightarrow> (\<exists>x\<in>set ws. candidate_key x = candidate_key c \<and> n_score c \<le> n_score x) \<or>
      length ws = limit \<and> (\<forall>x\<in>set ws. window_key x < window_key c)"
proof -
  let ?D = "fold keep_better cs []" and ?V = "fold better cs {}"
  have D: "keyed ?D" "snd ` set ?D = ?V" using fold_keep_better [OF keyed_Nil, of cs] by auto
  have ws: "ws = take limit (sort_key window_key (map snd ?D))" by (simp add: ws_def best_window_def best_per_key_def)
  have top: "tops window_key limit ?V (set ws)"
    using tops_take [OF distinct_window_keys [OF D(1)], of limit] by (simp only: ws D(2) set_map)
  have V: "one_per_key ?V" using keyed_values [OF D(1)] by (simp only: D(2))
  have sub: "set ws \<subseteq> ?V" using top by (simp add: tops_def)
  have dist: "distinct ws" using keyed_values [OF D(1)] by (simp add: ws)
  show "sorted (map window_key ws)" unfolding ws by (metis sorted_sort_key sorted_wrt_take take_map)
  show "distinct (map candidate_key ws)" 
    using dist inj_on_subset [OF V [THEN conjunct2] sub] by (simp add: distinct_map)
  show "set ws \<subseteq> set cs" using sub fold_better_spec(1) [of _ cs "{}"] by auto
  assume "c \<in> set cs"
  then obtain y where y: "y \<in> ?V" "candidate_key y = candidate_key c" "n_score c \<le> n_score y"
    using fold_better_spec(2) [of c "{}" cs] by auto
  show "(\<exists>x\<in>set ws. candidate_key x = candidate_key c \<and> n_score c \<le> n_score x) \<or>
      length ws = limit \<and> (\<forall>x\<in>set ws. window_key x < window_key c)"
  proof (cases "y \<in> set ws")
    case True
    with y show ?thesis by blast
  next
    case False
    with y V have "card (set ws) = limit" by (intro tops_full [OF top]) auto
    moreover have "window_key x < window_key c" if "x \<in> set ws" for x
    proof -
      have "window_key x < window_key y" using top that y(1) False by (auto simp: tops_def)
      also have "window_key y \<le> window_key c" using y window_key_better(2) [of y c] by simp
      finally show ?thesis .
    qed
    ultimately show ?thesis using dist by (simp add: distinct_card)
  qed
qed

text \<open>
  C34: truncating the window after every candidate loses nothing: the answer of a refined search holds
  the best candidates, best first and each key once, and a candidate that is not in it is either beaten
  by a candidate of the same key or comes after every result of a full page.
\<close>

theorem window_keeps_best:
  "sorted (map window_key (sa_results (execute_hierarchical s model dimension r))) \<and>
   distinct (map candidate_key (sa_results (execute_hierarchical s model dimension r))) \<and>
   set (sa_results (execute_hierarchical s model dimension r)) \<subseteq> set (all_additions s model dimension r) \<and>
   (\<forall>c. List.member (all_additions s model dimension r) c \<longrightarrow>
     (\<exists>x. List.member (sa_results (execute_hierarchical s model dimension r)) x \<and>
        candidate_key x = candidate_key c \<and> n_score c \<le> n_score x) \<or>
     length (sa_results (execute_hierarchical s model dimension r)) = rf_result_limit r \<and>
     list_all (\<lambda>x. window_key x < window_key c) (sa_results (execute_hierarchical s model dimension r)))"
  unfolding results_best_window
  using best_window_spec [where limit = "rf_result_limit r" and cs = "all_additions s model dimension r"]
  by (auto simp: list_all_iff)

definition window_example :: search_store where
  "window_example =
     \<lparr>ss_embeddings = [
        \<lparr>i_kind = Paragraph_level, i_entity = 7, i_active = True, i_model = ''m'', i_dimension = 384, i_version = None,
         i_similarity = 1 / 2\<rparr>,
        \<lparr>i_kind = Paragraph_level, i_entity = 8, i_active = True, i_model = ''m'', i_dimension = 384, i_version = None,
         i_similarity = 3 / 4\<rparr>],
      ss_chunks = [], ss_texts = [], ss_current = [],
      ss_paragraphs = [(7, \<lparr>ph_document = 1, ph_text = ''low'', ph_removed = False\<rparr>),
        (8, \<lparr>ph_document = 1, ph_text = ''high'', ph_removed = False\<rparr>)],
      ss_documents = [(1, \<lparr>dc_owner = None, dc_title = ''d'', dc_created = 0, dc_removed = False\<rparr>)],
      ss_files = []\<rparr>"

definition refinement_example :: refinement where
  "refinement_example = \<lparr>rf_enabled = True, rf_threshold = 1 / 4, rf_candidate_limit = 5, rf_result_limit = 1, rf_diagnostics = False\<rparr>"

definition low_hit :: candidate where
  "low_hit = candidate_row Paragraph_level 7 (Some 1) None (Some 7) None ''low'' (1 / 2)"

lemma low_hit_added: "List.member (all_additions window_example ''m'' 384 refinement_example) low_hit"
  by code_simp

theorem window_keeps_best_witness:
  "(\<exists>x. List.member (sa_results (execute_hierarchical window_example ''m'' 384 refinement_example)) x \<and>
      candidate_key x = candidate_key low_hit \<and> n_score low_hit \<le> n_score x) \<or>
   length (sa_results (execute_hierarchical window_example ''m'' 384 refinement_example)) = 1 \<and>
   list_all (\<lambda>x. window_key x < window_key low_hit)
     (sa_results (execute_hierarchical window_example ''m'' 384 refinement_example))"
  using window_keeps_best [of window_example "''m''" 384 refinement_example] low_hit_added
  by (simp add: refinement_example_def)

end
