(* ===== verification/Vectorization.thy ===== *)
theory Vectorization
  imports Query_Window
begin

text \<open>
  The vectorizer (\<open>runtime/vectorization.py\<close>): it selects documents, collects the texts of their
  paragraphs and chunks (and, below a configured size, of the documents and files themselves), sends
  them in batches to the embedding service, and writes one active vector per entity together with the
  lexical tokens of the chunks and the averaged vectors of documents and files.

  The embedding service is the parameter \<open>embed_texts\<close> (\<open>None\<close>: it raises), \<open>to_float\<close> is \<open>float(value)\<close>,
  \<open>parse_int\<close> the integer a string denotes and \<open>literal\<close> is \<open>_vector_literal\<close>. The level of an entity is its
  \<open>entity_type\<close>. The clock stands still during a call.
\<close>

section \<open>The tables\<close>

record vdocument =
  zd_owner :: "uuid option"
  zd_title :: "string option"
  zd_source_name :: "string option"
  zd_source_path :: "string option"
  zd_needs :: bool
  zd_removed :: bool
  zd_created :: int
  zd_updated :: "int option"

record vfile =
  zf_owner :: "uuid option"
  zf_name :: "string option"
  zf_path :: "string option"
  zf_needs :: bool
  zf_removed :: bool
  zf_updated :: "int option"

record vparagraph =
  zp_document :: uuid
  zp_text :: string
  zp_order :: int
  zp_removed :: bool

record vchunk =
  zc_document :: uuid
  zc_paragraph :: uuid
  zc_order :: int
  zc_removed :: bool

record vector_row =
  ze_kind :: level
  ze_entity :: uuid
  ze_chunk :: "uuid option"
  ze_version :: "uuid option"
  ze_vector :: string
  ze_model :: string
  ze_dimension :: int
  ze_provider :: string
  ze_model_version :: string
  ze_active :: bool
  ze_made_at :: int

record token_row =
  zt_chunk :: uuid
  zt_version :: "uuid option"
  zt_kind :: string
  zt_ordinal :: nat
  zt_value :: string

record vdb =
  vd_documents :: "(uuid \<times> vdocument) list"
  vd_files :: "(uuid \<times> vfile) list"
  vd_paragraphs :: "(uuid \<times> vparagraph) list"
  vd_chunks :: "(uuid \<times> vchunk) list"
  vd_texts :: "(uuid \<times> string) list"
  vd_current :: "(uuid \<times> uuid) list"
  vd_vectors :: "vector_row list"
  vd_tokens :: "token_row list"
  vd_clock :: int

section \<open>Values\<close>

record vector_input =
  zi_kind :: level
  zi_entity :: uuid
  zi_document :: uuid
  zi_body :: string
  zi_version :: "uuid option"

record vector_record =
  zr_kind :: level
  zr_entity :: uuid
  zr_document :: "uuid option"
  zr_vector :: "rat list"
  zr_tokens :: "string list option"
  zr_version :: "uuid option"

record embedding_config =
  eg_provider :: string
  eg_model :: string
  eg_model_version :: string
  eg_dimension :: int
  eg_batch_size :: int
  eg_direct_max :: int

datatype vector_issue =
    Batch_size_not_positive | Client_failed | Response_not_mapping | Model_differs | Dimension_differs
  | No_result_sequence | Count_differs | Item_failed nat | Vector_not_sequence nat
  | Vector_dimension_mismatch nat | Vector_not_finite nat | Tokens_not_sequence nat
  | Token_not_string nat nat | Nothing_to_average | Average_of_empty_vectors | Average_of_mixed_dimensions
  | Url_not_configured

datatype vector_error = Vectorization_error vector_issue | Bad_value | Database_failed

datatype float_read = Unconvertible | Non_finite | Finite rat

section \<open>Selecting the work\<close>

text \<open>\<open>_select_documents\<close>; the three ways to select are those of its \<open>if\<close>.\<close>

datatype selection = Named uuid | Every "uuid option" | Flagged

definition file_flagged :: "vdb \<Rightarrow> vdocument \<Rightarrow> bool" where
  "file_flagged s d = (case zd_owner d of None \<Rightarrow> False
     | Some f \<Rightarrow> (case map_of (vd_files s) f of None \<Rightarrow> False | Some r \<Rightarrow> zf_needs r))"

definition selects_document :: "vdb \<Rightarrow> selection \<Rightarrow> uuid \<times> vdocument \<Rightarrow> bool" where
  "selects_document s sel = (\<lambda>(i, d). \<not> zd_removed d \<and> (case sel of
       Named j \<Rightarrow> i = j
     | Every None \<Rightarrow> True
     | Every (Some after) \<Rightarrow> after < i
     | Flagged \<Rightarrow> zd_needs d \<or> file_flagged s d))"

definition updated_first :: "uuid \<times> vdocument \<Rightarrow> (bool \<times> int) \<times> int \<times> uuid" where
  "updated_first = (\<lambda>(i, d). (case zd_updated d of None \<Rightarrow> (False, 0) | Some t \<Rightarrow> (True, t), zd_created d, i))"

definition select_documents :: "vdb \<Rightarrow> selection \<Rightarrow> nat \<Rightarrow> uuid list" where
  "select_documents s sel limit = take limit (map fst (
     (case sel of Every _ \<Rightarrow> sort_key fst | _ \<Rightarrow> sort_key updated_first) (filter (selects_document s sel) (vd_documents s))))"

text \<open>\<open>btrim\<close> trims spaces.\<close>

definition btrim :: "string \<Rightarrow> string" where
  "btrim t = rev (dropWhile ((=) CHR 0x20) (rev (dropWhile ((=) CHR 0x20) t)))"

definition live_paragraphs :: "vdb \<Rightarrow> uuid \<Rightarrow> (uuid \<times> vparagraph) list" where
  "live_paragraphs s d = sort_key (\<lambda>(i, p). (zp_order p, i))
     (filter (\<lambda>(i, p). \<not> zp_removed p \<and> zp_document p = d) (vd_paragraphs s))"

definition paragraph_inputs :: "vdb \<Rightarrow> uuid list \<Rightarrow> vector_input list" where
  "paragraph_inputs s docs = map (\<lambda>(i, p).
       \<lparr>zi_kind = Paragraph_level, zi_entity = i, zi_document = zp_document p, zi_body = zp_text p, zi_version = None\<rparr>)
     (sort_key (\<lambda>(i, p). (zp_document p, zp_order p, i))
       (filter (\<lambda>(i, p). \<not> zp_removed p \<and> List.member docs (zp_document p) \<and> btrim (zp_text p) \<noteq> []) (vd_paragraphs s)))"

definition chunk_inputs :: "vdb \<Rightarrow> uuid list \<Rightarrow> vector_input list" where
  "chunk_inputs s docs = List.map_filter (\<lambda>(i, c). map_option (\<lambda>t.
       \<lparr>zi_kind = Chunk_level, zi_entity = i, zi_document = zc_document c, zi_body = t,
        zi_version = map_of (vd_current s) i\<rparr>) (map_of (vd_texts s) i))
     (sort_key (\<lambda>(i, c). (zc_document c, zc_order c, i))
       (filter (\<lambda>(i, c). \<not> zc_removed c \<and> List.member docs (zc_document c)) (vd_chunks s)))"

text \<open>
  The direct texts: \<open>string_agg\<close> with a blank line, for the groups whose texts are short enough. The
  database is free in the order of the groups; here it is that of the table.
\<close>

definition blank_line :: string where
  "blank_line = [CHR 0x0A, CHR 0x0A]"

definition direct_text :: "int \<Rightarrow> string list \<Rightarrow> string option" where
  "direct_text limit texts = (let t = joined blank_line texts in
     if texts \<noteq> [] \<and> sum_list (map (int \<circ> length) texts) \<le> limit \<and> btrim t \<noteq> [] then Some t else None)"

definition document_inputs :: "vdb \<Rightarrow> int \<Rightarrow> uuid list \<Rightarrow> vector_input list" where
  "document_inputs s limit docs = List.map_filter (\<lambda>(i, d).
       if \<not> zd_removed d \<and> List.member docs i
       then map_option (\<lambda>t. \<lparr>zi_kind = Document_level, zi_entity = i, zi_document = i, zi_body = t, zi_version = None\<rparr>)
         (direct_text limit (map (zp_text \<circ> snd) (live_paragraphs s i)))
       else None) (vd_documents s)"

definition file_documents :: "vdb \<Rightarrow> uuid list \<Rightarrow> uuid \<Rightarrow> uuid list" where
  "file_documents s docs f = map fst (sort_key (\<lambda>(i, d). (zd_created d, i))
     (filter (\<lambda>(i, d). \<not> zd_removed d \<and> List.member docs i \<and> zd_owner d = Some f) (vd_documents s)))"

definition file_inputs :: "vdb \<Rightarrow> int \<Rightarrow> uuid list \<Rightarrow> vector_input list" where
  "file_inputs s limit docs = List.map_filter (\<lambda>(f, r).
       if zf_removed r then None
       else let owned = filter (\<lambda>i. live_paragraphs s i \<noteq> []) (file_documents s docs f) in
         map_option (\<lambda>t. \<lparr>zi_kind = File_level, zi_entity = f, zi_document = Min (set owned), zi_body = t, zi_version = None\<rparr>)
           (direct_text limit (concat (map (\<lambda>i. map (zp_text \<circ> snd) (live_paragraphs s i)) owned)))) (vd_files s)"

definition select_vector_inputs :: "vdb \<Rightarrow> embedding_config \<Rightarrow> uuid list \<Rightarrow> vector_input list" where
  "select_vector_inputs s config docs =
     (if docs = [] then [] else
        paragraph_inputs s docs @ chunk_inputs s docs @
        (if 0 < eg_direct_max config
         then document_inputs s (eg_direct_max config) docs @ file_inputs s (eg_direct_max config) docs else []))"

section \<open>Reading the answers of the embedding service\<close>

definition result_items :: "json_dict \<Rightarrow> nat \<Rightarrow> (vector_error, json list) result" where
  "result_items response expected = (case get_default response ''results'' (json_get response ''embeddings'') of
       J_list xs \<Rightarrow> if length xs = expected then Inr xs else Inl (Vectorization_error Count_differs)
     | _ \<Rightarrow> Inl (Vectorization_error No_result_sequence))"

fun all_floats :: "(json \<Rightarrow> float_read) \<Rightarrow> json list \<Rightarrow> float_read list option" where
  "all_floats to_float [] = Some []"
| "all_floats to_float (x # xs) = (case to_float x of
       Unconvertible \<Rightarrow> None
     | y \<Rightarrow> map_option ((#) y) (all_floats to_float xs))"

fun finite_values :: "float_read list \<Rightarrow> rat list option" where
  "finite_values [] = Some []"
| "finite_values (Finite x # xs) = map_option ((#) x) (finite_values xs)"
| "finite_values (_ # xs) = None"

text \<open>\<open>_vector\<close>\<close>

definition read_vector :: "(json \<Rightarrow> float_read) \<Rightarrow> json \<Rightarrow> nat \<Rightarrow> int \<Rightarrow> (vector_error, rat list) result" where
  "read_vector to_float v i dimension = (case v of
       J_list xs \<Rightarrow> (case all_floats to_float xs of
           None \<Rightarrow> Inl Bad_value
         | Some ys \<Rightarrow> if int (length ys) \<noteq> dimension then Inl (Vectorization_error (Vector_dimension_mismatch i))
             else (case finite_values ys of
                 None \<Rightarrow> Inl (Vectorization_error (Vector_not_finite i)) | Some zs \<Rightarrow> Inr zs))
     | _ \<Rightarrow> Inl (Vectorization_error (Vector_not_sequence i)))"

definition item_vector :: "(json \<Rightarrow> float_read) \<Rightarrow> int \<Rightarrow> nat \<times> json \<Rightarrow> (vector_error, rat list) result" where
  "item_vector to_float dimension = (\<lambda>(i, item). case item of
       J_object d \<Rightarrow> if json_true (json_get d ''error'') then Inl (Vectorization_error (Item_failed i))
         else read_vector to_float (get_default d ''embedding'' (json_get d ''vector'')) i dimension
     | raw \<Rightarrow> read_vector to_float raw i dimension)"

definition declared_dimension ::
  "(string \<Rightarrow> int option) \<Rightarrow> json_dict \<Rightarrow> int \<Rightarrow> (vector_error, unit) result" where
  "declared_dimension parse_int response dimension = (case json_get response ''dimension'' of
       J_null \<Rightarrow> Inr ()
     | v \<Rightarrow> (case py_int parse_int v of
           None \<Rightarrow> Inl Bad_value
         | Some n \<Rightarrow> if n = dimension then Inr () else Inl (Vectorization_error Dimension_differs)))"

definition extract_vectors ::
  "(string \<Rightarrow> int option) \<Rightarrow> (json \<Rightarrow> float_read) \<Rightarrow> json \<Rightarrow> nat \<Rightarrow> embedding_config \<Rightarrow>
   (vector_error, rat list list) result" where
  "extract_vectors parse_int to_float response expected config = (case response of
       J_object d \<Rightarrow>
         if json_get d ''model'' \<noteq> J_null \<and> json_get d ''model'' \<noteq> J_str (eg_model config)
         then Inl (Vectorization_error Model_differs)
         else bind_result (declared_dimension parse_int d (eg_dimension config)) (\<lambda>_.
           bind_result (result_items d expected) (\<lambda>items.
           map_result (item_vector to_float (eg_dimension config)) (enumerate 0 items)))
     | _ \<Rightarrow> Inl (Vectorization_error Response_not_mapping))"

text \<open>\<open>_bm25_tokens\<close>\<close>

definition token_text :: "nat \<Rightarrow> nat \<times> json \<Rightarrow> (vector_error, string) result" where
  "token_text i = (\<lambda>(k, v). case v of
       J_str t \<Rightarrow> Inr (joined '' '' (py_split t))
     | _ \<Rightarrow> Inl (Vectorization_error (Token_not_string i k)))"

definition read_tokens :: "json \<Rightarrow> nat \<Rightarrow> (vector_error, string list) result" where
  "read_tokens v i = (case v of
       J_list xs \<Rightarrow> bind_result (map_result (token_text i) (enumerate 0 xs))
         (\<lambda>ts. Inr (take 256 (filter (\<lambda>t. t \<noteq> []) ts)))
     | _ \<Rightarrow> Inl (Vectorization_error (Tokens_not_sequence i)))"

definition item_tokens :: "nat \<times> json \<Rightarrow> (vector_error, string list option) result" where
  "item_tokens = (\<lambda>(i, item). case item of
       J_object d \<Rightarrow> (case map_of d ''bm25_tokens'' of
           None \<Rightarrow> Inr None
         | Some v \<Rightarrow> map_sum id Some (read_tokens v i))
     | _ \<Rightarrow> Inr None)"

definition extract_token_groups :: "json \<Rightarrow> nat \<Rightarrow> (vector_error, string list option list) result" where
  "extract_token_groups response expected = (case response of
       J_object d \<Rightarrow> bind_result (result_items d expected) (\<lambda>items. map_result item_tokens (enumerate 0 items))
     | _ \<Rightarrow> Inl (Vectorization_error Response_not_mapping))"

section \<open>Embedding the texts\<close>

text \<open>\<open>_embed_chunks\<close>: one call of the service per batch.\<close>

fun batches :: "nat \<Rightarrow> 'a list \<Rightarrow> 'a list list" where
  "batches n [] = []"
| "batches n (x # xs) = take n (x # xs) # batches n (drop (n - 1) xs)"

definition vector_record_of :: "vector_input \<Rightarrow> rat list \<Rightarrow> string list option \<Rightarrow> vector_record" where
  "vector_record_of i vector tokens =
     \<lparr>zr_kind = zi_kind i, zr_entity = zi_entity i, zr_document = Some (zi_document i), zr_vector = vector,
      zr_tokens = (if zi_kind i = Chunk_level then tokens else None), zr_version = zi_version i\<rparr>"

record embedder =
  em_embed :: "string list \<Rightarrow> json option"
  em_parse_int :: "string \<Rightarrow> int option"
  em_float :: "json \<Rightarrow> float_read"
  em_literal :: "rat list \<Rightarrow> string"
  em_config :: embedding_config

definition embed_batch :: "embedder \<Rightarrow> vector_input list \<Rightarrow> (vector_error, vector_record list) result" where
  "embed_batch em batch = (case em_embed em (map zi_body batch) of
       None \<Rightarrow> Inl (Vectorization_error Client_failed)
     | Some response \<Rightarrow>
         bind_result (extract_vectors (em_parse_int em) (em_float em) response (length batch) (em_config em)) (\<lambda>vectors.
         bind_result (extract_token_groups response (length batch)) (\<lambda>tokens.
         Inr (map (\<lambda>(i, v, t). vector_record_of i v t) (zip batch (zip vectors tokens))))))"

definition embed_chunks :: "embedder \<Rightarrow> vector_input list \<Rightarrow> (vector_error, vector_record list) result" where
  "embed_chunks em inputs =
     (if eg_batch_size (em_config em) \<le> 0 then Inl (Vectorization_error Batch_size_not_positive)
      else map_sum id concat (map_result (embed_batch em) (batches (nat (eg_batch_size (em_config em))) inputs)))"

section \<open>Averaged vectors\<close>

text \<open>\<open>_mean_vector\<close>\<close>

definition mean_vector :: "rat list list \<Rightarrow> (vector_error, rat list) result" where
  "mean_vector vs = (case vs of
       [] \<Rightarrow> Inl (Vectorization_error Nothing_to_average)
     | v # _ \<Rightarrow>
         if v = [] then Inl (Vectorization_error Average_of_empty_vectors)
         else if list_all (\<lambda>w. length w = length v) vs
           then Inr (map (\<lambda>x. x / of_nat (length vs)) (foldl (map2 (+)) (replicate (length v) 0) vs))
           else Inl (Vectorization_error Average_of_mixed_dimensions))"

definition setdefault_append :: "('k \<times> 'v list) list \<Rightarrow> 'k \<Rightarrow> 'v \<Rightarrow> ('k \<times> 'v list) list" where
  "setdefault_append d k v = dict_set d k ((case map_of d k of None \<Rightarrow> [] | Some vs \<Rightarrow> vs) @ [v])"

definition collect :: "level \<Rightarrow> uuid list \<Rightarrow> vector_record list \<Rightarrow> (uuid \<times> rat list list) list" where
  "collect kind direct records = fold (\<lambda>r d.
       case zr_document r of
         Some i \<Rightarrow> if zr_kind r = kind \<and> \<not> List.member direct i then setdefault_append d i (zr_vector r) else d
       | None \<Rightarrow> d) records []"

definition entities_of :: "level \<Rightarrow> vector_record list \<Rightarrow> uuid list" where
  "entities_of kind records = map zr_entity (filter (\<lambda>r. zr_kind r = kind) records)"

definition averaged :: "level \<Rightarrow> (uuid \<times> rat list list) list \<Rightarrow> (vector_error, vector_record list) result" where
  "averaged kind d = map_result (\<lambda>(i, vs). bind_result (mean_vector vs) (\<lambda>v.
     Inr \<lparr>zr_kind = kind, zr_entity = i, zr_document = None, zr_vector = v, zr_tokens = None, zr_version = None\<rparr>)) d"

definition document_vectors :: "vector_record list \<Rightarrow> (uuid \<times> rat list) list" where
  "document_vectors records = fold (\<lambda>r d. dict_set d (zr_entity r) (zr_vector r))
     (filter (\<lambda>r. zr_kind r = Document_level) records) []"

definition by_document :: "vector_record list \<Rightarrow> (uuid \<times> rat list list) list" where
  "by_document records = (let direct = entities_of Document_level records; d = collect Paragraph_level direct records
     in if d = [] then collect Chunk_level direct records else d)"

definition by_file :: "vdb \<Rightarrow> uuid list \<Rightarrow> uuid list \<Rightarrow> (uuid \<times> rat list) list \<Rightarrow> (uuid \<times> rat list list) list" where
  "by_file s docs direct vectors = fold (\<lambda>(i, r) d.
       case (zd_owner r, map_of vectors i) of
         (Some f, Some v) \<Rightarrow> if List.member docs i \<and> \<not> List.member direct f then setdefault_append d f v else d
       | _ \<Rightarrow> d) (vd_documents s) []"

text \<open>\<open>_aggregate_document_file_vectors\<close>\<close>

definition aggregate_vectors :: "vdb \<Rightarrow> uuid list \<Rightarrow> vector_record list \<Rightarrow> (vector_error, vector_record list) result" where
  "aggregate_vectors s docs records =
     bind_result (averaged Document_level (by_document records)) (\<lambda>ds.
     bind_result (averaged File_level
       (by_file s docs (entities_of File_level records) (document_vectors (ds @ records)))) (\<lambda>fs.
     Inr (ds @ fs)))"

section \<open>Writing the vectors\<close>

type_synonym 'a vector_tx = "(vdb, vector_error, 'a) tx"

definition same_target :: "embedding_config \<Rightarrow> vector_record \<Rightarrow> vector_row \<Rightarrow> bool" where
  "same_target config r e \<longleftrightarrow> ze_kind e = zr_kind r \<and> ze_entity e = zr_entity r \<and>
     ze_model e = eg_model config \<and> ze_dimension e = eg_dimension config"

definition deactivate :: "embedding_config \<Rightarrow> vector_record \<Rightarrow> vdb \<Rightarrow> vdb" where
  "deactivate config r s = s\<lparr>vd_vectors :=
     map (\<lambda>e. if same_target config r e then e\<lparr>ze_active := False\<rparr> else e) (vd_vectors s)\<rparr>"

definition new_vector_row :: "(rat list \<Rightarrow> string) \<Rightarrow> embedding_config \<Rightarrow> int \<Rightarrow> vector_record \<Rightarrow> vector_row" where
  "new_vector_row literal config now r =
     \<lparr>ze_kind = zr_kind r, ze_entity = zr_entity r,
      ze_chunk = (if zr_kind r = Chunk_level then Some (zr_entity r) else None),
      ze_version = (if zr_kind r = Chunk_level then zr_version r else None),
      ze_vector = literal (zr_vector r), ze_model = eg_model config, ze_dimension = eg_dimension config,
      ze_provider = eg_provider config, ze_model_version = eg_model_version config, ze_active = True, ze_made_at = now\<rparr>"

definition version_key :: "vector_row \<Rightarrow> level \<times> uuid \<times> string \<times> string \<times> string \<times> int" where
  "version_key e = (ze_kind e, ze_entity e, ze_model e, ze_provider e, ze_model_version e, ze_dimension e)"

text \<open>
  The checks of \<open>semantic_chunk_embeddings\<close>: the columns, the second unique constraint and the two
  partial unique indexes of the active rows.
\<close>

definition vector_row_ok :: "vector_record \<Rightarrow> vector_row \<Rightarrow> bool" where
  "vector_row_ok r e \<longleftrightarrow> 0 < ze_dimension e \<and> ze_dimension e < 2 ^ 31 \<and> length (zr_vector r) = 384 \<and>
     length (ze_model e) \<le> 256 \<and> length (ze_provider e) \<le> 128 \<and> length (ze_model_version e) \<le> 128"

definition clashes_with :: "vector_row \<Rightarrow> vector_row \<Rightarrow> bool" where
  "clashes_with e f \<longleftrightarrow>
     (ze_chunk e \<noteq> None \<and> ze_chunk f = ze_chunk e \<and> ze_model f = ze_model e \<and> ze_dimension f = ze_dimension e \<and>
       (ze_active f \<or> (ze_provider f = ze_provider e \<and> ze_model_version f = ze_model_version e))) \<or>
     (ze_active f \<and> ze_kind f = ze_kind e \<and> ze_entity f = ze_entity e \<and> ze_model f = ze_model e \<and>
       ze_dimension f = ze_dimension e)"

definition upsert_vector :: "(rat list \<Rightarrow> string) \<Rightarrow> embedding_config \<Rightarrow> vector_record \<Rightarrow> unit vector_tx" where
  "upsert_vector literal config r = (\<lambda>s.
     let e = new_vector_row literal config (vd_clock s) r;
         others = filter (\<lambda>f. version_key f \<noteq> version_key e) (vd_vectors s) in
     if \<not> vector_row_ok r e \<or> list_ex (clashes_with e) others then Inl Database_failed
     else if List.member (map version_key (vd_vectors s)) (version_key e)
     then Inr ((), s\<lparr>vd_vectors := map (\<lambda>f. if version_key f = version_key e
            then f\<lparr>ze_vector := ze_vector e, ze_version := ze_version e, ze_active := True, ze_made_at := ze_made_at e\<rparr>
            else f) (vd_vectors s)\<rparr>)
     else Inr ((), s\<lparr>vd_vectors := vd_vectors s @ [e]\<rparr>))"

definition bm25_kind :: string where
  "bm25_kind = ''bm25_tokens''"

definition write_tokens :: "vector_record \<Rightarrow> vdb \<Rightarrow> vdb" where
  "write_tokens r s = (case zr_tokens r of
       Some ts \<Rightarrow> if zr_kind r = Chunk_level
         then s\<lparr>vd_tokens := filter (\<lambda>t. \<not> (zt_chunk t = zr_entity r \<and> zt_kind t = bm25_kind)) (vd_tokens s) @
            map (\<lambda>(n, t). \<lparr>zt_chunk = zr_entity r, zt_version = zr_version r, zt_kind = bm25_kind, zt_ordinal = n,
              zt_value = t\<rparr>) (enumerate 0 ts)\<rparr>
         else s
     | None \<Rightarrow> s)"

definition persist_vector :: "(rat list \<Rightarrow> string) \<Rightarrow> embedding_config \<Rightarrow> vector_record \<Rightarrow> unit vector_tx" where
  "persist_vector literal config r =
     tx_bind (tx_write (deactivate config r)) (\<lambda>_.
     tx_bind (upsert_vector literal config r) (\<lambda>_.
     tx_write (write_tokens r)))"

definition clear_documents :: "uuid list \<Rightarrow> vdb \<Rightarrow> vdb" where
  "clear_documents docs s = s\<lparr>vd_documents := map (\<lambda>(i, d). (i, if List.member docs i
     then d\<lparr>zd_needs := False, zd_updated := Some (vd_clock s)\<rparr> else d)) (vd_documents s)\<rparr>"

definition clear_files :: "uuid list \<Rightarrow> vdb \<Rightarrow> vdb" where
  "clear_files docs s = (let owners = map (zd_owner \<circ> snd) (filter (\<lambda>(i, d). List.member docs i) (vd_documents s)) in
     s\<lparr>vd_files := map (\<lambda>(f, r). (f, if List.member owners (Some f)
       then r\<lparr>zf_needs := False, zf_updated := Some (vd_clock s)\<rparr> else r)) (vd_files s)\<rparr>)"

definition persist_vectors :: "embedder \<Rightarrow> uuid list \<Rightarrow> vector_record list \<Rightarrow> unit vector_tx" where
  "persist_vectors em docs records =
     tx_bind (tx_read (\<lambda>s. aggregate_vectors s docs records)) (\<lambda>extra.
     tx_bind (tx_lift extra) (\<lambda>extra.
     tx_bind (tx_map (persist_vector (em_literal em) (em_config em)) (records @ extra)) (\<lambda>_.
     tx_write (clear_files docs \<circ> clear_documents docs))))"

end
