(* ===== verification/Vectorization_Service.thy ===== *)
theory Vectorization_Service
  imports Vectorization
begin

text \<open>
  The service around the vectorizer: its event logs, the status it reports and the loop of
  \<open>RuntimeVectorizationService.rebuild\<close>. The loop is a step function iterated by a
  \<open>partial_function\<close>: \<open>None\<close> is a call that never returns.
\<close>

section \<open>Logs and status\<close>

record vectorizer_status =
  vs_current :: "json_dict option"
  vs_last :: "json_dict option"
  vs_persisted :: "json option"

record vectorizer =
  vz_db :: vdb
  vz_logs :: "(string \<times> json_dict) list"
  vz_status :: "vectorizer_status option"
  vz_unavailable :: bool

record service_env =
  sv_embedder :: embedder
  sv_now :: "int \<Rightarrow> string"
  sv_preview :: int

definition optional_str :: "string option \<Rightarrow> json" where
  "optional_str v = (case v of None \<Rightarrow> J_null | Some t \<Rightarrow> J_str t)"

text \<open>\<open>_document_details\<close> and \<open>_document_detail\<close>\<close>

definition first_true :: "json list \<Rightarrow> json" where
  "first_true vs = foldr json_or (butlast vs) (last vs)"

definition document_detail :: "vdb \<Rightarrow> uuid \<Rightarrow> vdocument \<Rightarrow> json_dict" where
  "document_detail s i d = (let f = (case zd_owner d of None \<Rightarrow> None | Some j \<Rightarrow> map_of (vd_files s) j);
       file_name = (case f of None \<Rightarrow> J_null | Some r \<Rightarrow> optional_str (zf_name r));
       file_path = (case f of None \<Rightarrow> J_null | Some r \<Rightarrow> optional_str (zf_path r)) in
     [(''document_id'', J_str (uuid_str i)), (''title'', optional_str (zd_title d)),
      (''source_name'', optional_str (zd_source_name d)), (''source_path'', optional_str (zd_source_path d)),
      (''file_name'', file_name), (''file_path'', file_path),
      (''file'', first_true [file_path, file_name, optional_str (zd_source_path d), optional_str (zd_source_name d),
         optional_str (zd_title d), J_str (uuid_str i)])])"

definition document_details :: "vdb \<Rightarrow> uuid list \<Rightarrow> json_dict list" where
  "document_details s docs = map (\<lambda>(i, d). document_detail s i d)
     (sort_key fst (filter (\<lambda>(i, d). List.member docs i) (vd_documents s)))"

text \<open>\<open>_append_vectorizer_log\<close>: the event with its time, at the end of the file.\<close>

definition append_log :: "service_env \<Rightarrow> string \<Rightarrow> json_dict \<Rightarrow> vectorizer \<Rightarrow> vectorizer" where
  "append_log env name payload v = v\<lparr>vz_logs := vz_logs v @
     [(name, dict_update [(''timestamp'', J_str (sv_now env (vd_clock (vz_db v))))] payload)]\<rparr>"

definition activity_log :: string where
  "activity_log = ''vectorizer_activity.jsonl''"

definition processed_log :: string where
  "processed_log = ''vectorizer_processed.jsonl''"

definition errors_log :: string where
  "errors_log = ''vectorizer_errors.jsonl''"

text \<open>\<open>_chunk_counts_by_document\<close> and \<open>_entity_counts\<close>\<close>

definition counted :: "('a \<Rightarrow> 'k) \<Rightarrow> 'a list \<Rightarrow> ('k \<times> nat) list" where
  "counted key xs = fold (\<lambda>x d. dict_set d (key x) ((case map_of d (key x) of None \<Rightarrow> 0 | Some n \<Rightarrow> n) + 1)) xs []"

definition chunk_counts :: "vector_input list \<Rightarrow> (string \<times> nat) list" where
  "chunk_counts inputs = counted (uuid_str \<circ> zi_document) inputs"

definition entity_counts :: "vector_input list \<Rightarrow> (string \<times> nat) list" where
  "entity_counts inputs = counted (level_name \<circ> zi_kind) inputs"

definition detail_file :: "json_dict \<Rightarrow> json" where
  "detail_file d = json_or (json_get d ''file'') (json_get d ''source_name'')"

definition document_event :: "embedding_config \<Rightarrow> string \<Rightarrow> vector_input list \<Rightarrow> json_dict \<Rightarrow> json_dict" where
  "document_event config event inputs d =
     [(''event'', J_str event), (''document_id'', json_get d ''document_id''), (''file'', detail_file d),
      (''title'', json_get d ''title''),
      (''chunk_count'', J_int (case map_of (chunk_counts inputs) (json_str (json_get d ''document_id'')) of
         None \<Rightarrow> 0 | Some n \<Rightarrow> int n)),
      (''provider'', J_str (eg_provider config)), (''model'', J_str (eg_model config)),
      (''model_version'', J_str (eg_model_version config)), (''dimension'', J_int (eg_dimension config))]"

definition log_documents :: "service_env \<Rightarrow> string \<Rightarrow> json_dict list \<Rightarrow> vector_input list \<Rightarrow> vectorizer \<Rightarrow> vectorizer" where
  "log_documents env event documents inputs v = fold (\<lambda>d. append_log env activity_log
     (document_event (em_config (sv_embedder env)) event inputs d)) documents v"

text \<open>\<open>_log_processed_chunks\<close>\<close>

definition processed_event :: "service_env \<Rightarrow> vector_input \<Rightarrow> json_dict" where
  "processed_event env i =
     [(''event'', J_str (if zi_kind i = Chunk_level then ''chunk_vectorized'' else level_name (zi_kind i) @ ''_vectorized'')),
      (''entity_type'', J_str (level_name (zi_kind i))), (''entity_id'', J_str (uuid_str (zi_entity i))),
      (''chunk_id'', if zi_kind i = Chunk_level then J_str (uuid_str (zi_entity i)) else J_null),
      (''document_id'', J_str (uuid_str (zi_document i))), (''preview'', J_str (chunk_preview (sv_preview env) (zi_body i)))]"

definition log_processed :: "service_env \<Rightarrow> vector_input list \<Rightarrow> vectorizer \<Rightarrow> vectorizer" where
  "log_processed env inputs v = fold (\<lambda>i. append_log env processed_log (processed_event env i)) inputs v"

text \<open>
  \<open>_log_embedding_unavailable\<close> and \<open>_log_embedding_recovered_if_needed\<close>: one event per outage; the
  text of the error is left out.
\<close>

definition log_unavailable :: "service_env \<Rightarrow> vectorizer \<Rightarrow> vectorizer" where
  "log_unavailable env v = (if vz_unavailable v then v else append_log env errors_log
     [(''event'', J_str ''embedding_unavailable''), (''provider'', J_str (eg_provider (em_config (sv_embedder env)))),
      (''model'', J_str (eg_model (em_config (sv_embedder env))))] (v\<lparr>vz_unavailable := True\<rparr>))"

definition log_recovered :: "service_env \<Rightarrow> vectorizer \<Rightarrow> vectorizer" where
  "log_recovered env v = (if \<not> vz_unavailable v then v else append_log env processed_log
     [(''event'', J_str ''embedding_recovered''), (''provider'', J_str (eg_provider (em_config (sv_embedder env)))),
      (''model'', J_str (eg_model (em_config (sv_embedder env))))] (v\<lparr>vz_unavailable := False\<rparr>))"

text \<open>\<open>InMemoryVectorizationStatus\<close>\<close>

definition optional_object :: "json_dict option \<Rightarrow> json" where
  "optional_object d = (case d of None \<Rightarrow> J_null | Some d \<Rightarrow> J_object d)"

definition snapshot_of :: "vectorizer_status \<Rightarrow> string \<Rightarrow> json_dict" where
  "snapshot_of st note = [(''state'', J_str (if vs_current st \<noteq> None \<and> vs_current st \<noteq> Some [] then ''running'' else ''idle'')),
     (''current_activity'', optional_object (vs_current st)), (''last_activity'', optional_object (vs_last st)),
     (''note'', J_str note)]"

definition persisted_note :: string where
  "persisted_note = ''process-local and persisted best-effort vectorizer snapshot''"

definition write_snapshot :: "vectorizer_status \<Rightarrow> vectorizer_status" where
  "write_snapshot st = st\<lparr>vs_persisted := Some (J_object (snapshot_of st persisted_note))\<rparr>"

definition activity_payload :: "string \<Rightarrow> string \<Rightarrow> json_dict list \<Rightarrow> nat \<Rightarrow> json_dict" where
  "activity_payload now action documents n =
     [(''action'', J_str action), (''documents'', J_list (map J_object documents)), (''chunk_count'', J_int (int n)),
      (''timestamp'', J_str now)]"

definition record_current :: "string \<Rightarrow> string \<Rightarrow> json_dict list \<Rightarrow> nat \<Rightarrow> vectorizer_status \<Rightarrow> vectorizer_status" where
  "record_current now action documents n st = write_snapshot (st\<lparr>vs_current := Some (activity_payload now action documents n @
     (case documents of
        [d] \<Rightarrow> [(''current_document_id'', json_get d ''document_id''), (''current_file'', detail_file d),
                (''current_title'', json_get d ''title'')]
      | _ \<Rightarrow> [(''current_document_ids'', J_list (map (\<lambda>d. json_get d ''document_id'') documents)),
              (''current_files'', J_list (map detail_file documents))]))\<rparr>)"

definition record_completed :: "string \<Rightarrow> string \<Rightarrow> json_dict list \<Rightarrow> nat \<Rightarrow> vectorizer_status \<Rightarrow> vectorizer_status" where
  "record_completed now action documents n st =
     write_snapshot (st\<lparr>vs_last := Some (activity_payload now action documents n), vs_current := None\<rparr>)"

definition with_status ::
  "(string \<Rightarrow> string \<Rightarrow> json_dict list \<Rightarrow> nat \<Rightarrow> vectorizer_status \<Rightarrow> vectorizer_status) \<Rightarrow>
   service_env \<Rightarrow> string \<Rightarrow> json_dict list \<Rightarrow> nat \<Rightarrow> vectorizer \<Rightarrow> vectorizer" where
  "with_status record_it env action documents n v =
     v\<lparr>vz_status := map_option (record_it (sv_now env (vd_clock (vz_db v))) action documents n) (vz_status v)\<rparr>"

section \<open>The loop of a rebuild\<close>

record rebuild_request =
  rq_document :: "string option"
  rq_all :: bool
  rq_limit :: "int option"
  rq_batch :: int
  rq_dry :: bool

record rebuild_progress =
  pg_documents :: "uuid list"
  pg_inputs :: "vector_input list"
  pg_after :: "uuid option"

datatype outcome_status = Rebuilt | Dry_run | Embedding_unavailable

record rebuild_result =
  rr_status :: outcome_status
  rr_dry :: bool
  rr_documents :: "uuid list"
  rr_entity_count :: nat
  rr_entity_counts :: "(string \<times> nat) list"
  rr_issue :: "vector_issue option"

definition result_of :: "outcome_status \<Rightarrow> bool \<Rightarrow> vector_issue option \<Rightarrow> rebuild_progress \<Rightarrow> rebuild_result" where
  "result_of status dry issue p =
     \<lparr>rr_status = status, rr_dry = dry, rr_documents = pg_documents p, rr_entity_count = length (pg_inputs p),
      rr_entity_counts = entity_counts (pg_inputs p), rr_issue = issue\<rparr>"

text \<open>
  The head of the loop: \<open>Inr None\<close> leaves it. The limit of a batch is positive whenever it is used.
\<close>

definition batch_limit :: "rebuild_request \<Rightarrow> nat \<Rightarrow> int option" where
  "batch_limit rq done = (case rq_limit rq of
       None \<Rightarrow> Some (rq_batch rq)
     | Some n \<Rightarrow> if n - int done \<le> 0 then None else Some (min (rq_batch rq) (n - int done)))"

definition next_documents :: "vdb \<Rightarrow> rebuild_request \<Rightarrow> rebuild_progress \<Rightarrow> (vector_error, (uuid list \<times> uuid option) option) result" where
  "next_documents s rq p = (case rq_document rq of
       Some t \<Rightarrow> if pg_documents p \<noteq> [] then Inr None
         else (case uuid_of_string t of
             None \<Rightarrow> Inl Bad_value
           | Some i \<Rightarrow> Inr (Some (select_documents s (Named i) 1, pg_after p)))
     | None \<Rightarrow> (case batch_limit rq (length (pg_documents p)) of
           None \<Rightarrow> Inr None
         | Some n \<Rightarrow>
             (let docs = select_documents s (if rq_all rq then Every (pg_after p) else Flagged) (nat n) in
              if docs = [] then Inr None
              else Inr (Some (docs, if rq_all rq then Some (last docs) else pg_after p)))))"

definition add_progress :: "rebuild_progress \<Rightarrow> uuid list \<Rightarrow> vector_input list \<Rightarrow> uuid option \<Rightarrow> rebuild_progress" where
  "add_progress p docs inputs after =
     \<lparr>pg_documents = pg_documents p @ docs, pg_inputs = pg_inputs p @ inputs, pg_after = after\<rparr>"

text \<open>One batch: it goes on with more progress, or ends with a result or an error.\<close>

definition run_batch ::
  "service_env \<Rightarrow> rebuild_request \<Rightarrow> uuid list \<Rightarrow> rebuild_progress \<Rightarrow> rebuild_progress \<Rightarrow> vector_input list \<Rightarrow> vectorizer \<Rightarrow>
   ((vector_error, rebuild_result) result, rebuild_progress) result \<times> vectorizer" where
  "run_batch env rq docs p p' inputs v =
     (let details = document_details (vz_db v) docs; n = length inputs;
          v1 = with_status record_current env ''embedding_documents'' details n
                 (log_documents env ''document_vectorization_started'' details inputs v)
      in case embed_chunks (sv_embedder env) inputs of
          Inl (Vectorization_error issue) \<Rightarrow>
            (Inl (Inr (result_of Embedding_unavailable False (Some issue) p)),
             with_status record_completed env ''embedding_unavailable'' details n (log_unavailable env v1))
        | Inl e \<Rightarrow> (Inl (Inl e), v1)
        | Inr records \<Rightarrow> (case transaction (persist_vectors (sv_embedder env) docs records) (vz_db v1) of
              (Inl e, s) \<Rightarrow> (Inl (Inl e), v1\<lparr>vz_db := s\<rparr>)
            | (Inr _, s) \<Rightarrow> (Inr p', with_status record_completed env ''embedded_documents'' details n
                 (log_processed env inputs (log_documents env ''document_vectorized'' details inputs
                   (log_recovered env (v1\<lparr>vz_db := s\<rparr>)))))))"

definition rebuild_step ::
  "service_env \<Rightarrow> rebuild_request \<Rightarrow> rebuild_progress \<times> vectorizer \<Rightarrow>
   ((vector_error, rebuild_result) result, rebuild_progress) result \<times> vectorizer" where
  "rebuild_step env rq = (\<lambda>(p, v). case next_documents (vz_db v) rq p of
       Inl e \<Rightarrow> (Inl (Inl e), v)
     | Inr None \<Rightarrow> (Inl (Inr (result_of (if rq_dry rq then Dry_run else Rebuilt) (rq_dry rq) None p)), v)
     | Inr (Some (docs, after)) \<Rightarrow>
         (let inputs = select_vector_inputs (vz_db v) (em_config (sv_embedder env)) docs;
              p' = add_progress p docs inputs after
          in if rq_dry rq then (Inr p', v) else run_batch env rq docs p p' inputs v))"

partial_function (option) rebuild_loop ::
  "service_env \<Rightarrow> rebuild_request \<Rightarrow> rebuild_progress \<times> vectorizer \<Rightarrow>
   ((vector_error, rebuild_result) result \<times> vectorizer) option" where
  [code]: "rebuild_loop env rq x = (case rebuild_step env rq x of
       (Inl r, v) \<Rightarrow> Some (r, v)
     | (Inr p, v) \<Rightarrow> rebuild_loop env rq (p, v))"

definition no_progress :: rebuild_progress where
  "no_progress = \<lparr>pg_documents = [], pg_inputs = [], pg_after = None\<rparr>"

definition rebuild ::
  "bool \<Rightarrow> service_env \<Rightarrow> rebuild_request \<Rightarrow> vectorizer \<Rightarrow> ((vector_error, rebuild_result) result \<times> vectorizer) option" where
  "rebuild has_url env rq v =
     (if \<not> has_url then Some (Inl (Vectorization_error Url_not_configured), v)
      else if rq_batch rq \<le> 0 then Some (Inl Bad_value, v)
      else rebuild_loop env rq (no_progress, v))"

end
