(* ===== verification/Vectorization_Effects.thy ===== *)
theory Vectorization_Effects
  imports Vectorization_Service
begin

text \<open>
  What a batch of the vectorizer does to the tables, and rules for the loop of a rebuild: when it
  returns, when it never does, and what holds of its result.
\<close>

section \<open>Rules for the loop\<close>

lemma rebuild_loop_induct:
  assumes ret: "rebuild_loop env rq x = Some y" and "I x"
    and stop: "\<And>x r v. I x \<Longrightarrow> rebuild_step env rq x = (Inl r, v) \<Longrightarrow> Q (r, v)"
    and step: "\<And>x p v. I x \<Longrightarrow> rebuild_step env rq x = (Inr p, v) \<Longrightarrow> I (p, v)"
  shows "Q y"
proof -
  have "env = env \<and> rq = rq \<longrightarrow> I x \<longrightarrow> Q y"
  proof (rule rebuild_loop.raw_induct [where P = "\<lambda>e q x y. e = env \<and> q = rq \<longrightarrow> I x \<longrightarrow> Q y" and
        xa = "((env, rq), x)", unfolded prod.case, OF _ ret])
    fix loop e q x y
    assume IH: "\<And>e q x y. loop e q x = Some y \<Longrightarrow> e = env \<and> q = rq \<longrightarrow> I x \<longrightarrow> Q y"
      and ret: "(case rebuild_step e q x of (Inl r, v) \<Rightarrow> Some (r, v) | (Inr p, v) \<Rightarrow> loop e q (p, v)) = Some y"
    show "e = env \<and> q = rq \<longrightarrow> I x \<longrightarrow> Q y"
    proof (intro impI, elim conjE)
      assume eq: "e = env" "q = rq" and x: "I x"
      obtain out v where one: "rebuild_step env rq x = (out, v)" by fastforce
      show "Q y"
      proof (cases out)
        case (Inl r)
        with ret one eq stop [OF x] show ?thesis by simp
      next
        case (Inr p)
        with ret one eq step [OF x] IH show ?thesis by simp
      qed
    qed
  qed
  with \<open>I x\<close> show ?thesis by simp
qed

lemma rebuild_loop_diverges:
  assumes "I x"
    and step: "\<And>x. I x \<Longrightarrow> \<exists>p v. rebuild_step env rq x = (Inr p, v) \<and> I (p, v)"
  shows "rebuild_loop env rq x = None"
proof (rule ccontr)
  assume "rebuild_loop env rq x \<noteq> None"
  then obtain y where ret: "rebuild_loop env rq x = Some y" by auto
  have False
  proof (rule rebuild_loop_induct [OF ret, where I = I and Q = "\<lambda>_. False"])
    fix x r v assume "I x" "rebuild_step env rq x = (Inl r, v)"
    then show False using step [of x] by simp
  next
    fix x p v assume "I x" "rebuild_step env rq x = (Inr p, v)"
    then show "I (p, v)" using step [of x] by simp
  qed (rule \<open>I x\<close>)
  then show False .
qed

lemma rebuild_loop_returns:
  assumes "I x"
    and step: "\<And>x p v. I x \<Longrightarrow> rebuild_step env rq x = (Inr p, v) \<Longrightarrow> I (p, v) \<and> m (p, v) < (m x :: nat)"
  shows "\<exists>y. rebuild_loop env rq x = Some y"
  using \<open>I x\<close>
proof (induction "m x" arbitrary: x rule: less_induct)
  case less
  show ?case
  proof (cases "rebuild_step env rq x")
    case (Pair o' v)
    show ?thesis
    proof (cases o')
      case (Inl r)
      then show ?thesis using Pair by (subst rebuild_loop.simps) simp
    next
      case (Inr p)
      with Pair step [OF less.prems] have "I (p, v)" "m (p, v) < m x" by auto
      from less.hyps [OF this(2,1)] obtain y where "rebuild_loop env rq (p, v) = Some y" by auto
      with Pair Inr show ?thesis by (subst rebuild_loop.simps) simp
    qed
  qed
qed

section \<open>One vector\<close>

definition target_key :: "vector_row \<Rightarrow> level \<times> uuid \<times> string \<times> int" where
  "target_key e = (ze_kind e, ze_entity e, ze_model e, ze_dimension e)"

definition record_key :: "embedding_config \<Rightarrow> vector_record \<Rightarrow> level \<times> uuid \<times> string \<times> int" where
  "record_key config r = (zr_kind r, zr_entity r, eg_model config, eg_dimension config)"

lemma same_target_key: "same_target config r e \<longleftrightarrow> target_key e = record_key config r"
  by (auto simp: same_target_def target_key_def record_key_def)

lemma target_key_active [simp]: "target_key (e\<lparr>ze_active := b\<rparr>) = target_key e"
  by (simp add: target_key_def)

lemma version_key_active [simp]: "version_key (e\<lparr>ze_active := b\<rparr>) = version_key e"
  by (simp add: version_key_def)

lemma version_key_target: "version_key e = version_key f \<Longrightarrow> target_key e = target_key f"
  by (simp add: version_key_def target_key_def)

lemma new_row_target [simp]: "target_key (new_vector_row literal config now r) = record_key config r"
  by (simp add: new_vector_row_def target_key_def record_key_def)

text \<open>Two states that differ in the vectors and the tokens only.\<close>

definition only_vectors :: "vdb \<Rightarrow> vdb \<Rightarrow> bool" where
  "only_vectors s s' \<longleftrightarrow> s' = s\<lparr>vd_vectors := vd_vectors s', vd_tokens := vd_tokens s'\<rparr>"

lemma only_vectors_trans: "only_vectors s t \<Longrightarrow> only_vectors t u \<Longrightarrow> only_vectors s u"
  by (cases s; cases t; cases u) (simp add: only_vectors_def)

lemma only_vectors_fields:
  assumes "only_vectors s s'"
  shows "vd_documents s' = vd_documents s" "vd_files s' = vd_files s" "vd_paragraphs s' = vd_paragraphs s"
    "vd_chunks s' = vd_chunks s" "vd_texts s' = vd_texts s" "vd_current s' = vd_current s" "vd_clock s' = vd_clock s"
  using assms by (cases s; cases s'; simp add: only_vectors_def)+

lemma persist_vector_tables:
  assumes "persist_vector literal config r s = Inr (x, s')"
  shows "only_vectors s s'"
proof -
  from assms obtain y s1 where up: "upsert_vector literal config r (deactivate config r s) = Inr (y, s1)"
    and s': "s' = write_tokens r s1"
    by (auto simp: persist_vector_def)
  have "only_vectors s (deactivate config r s)" by (cases s) (simp add: only_vectors_def deactivate_def)
  moreover have "only_vectors (deactivate config r s) s1"
    using up unfolding upsert_vector_def Let_def
    by (cases "deactivate config r s") (auto simp: only_vectors_def split: if_splits)
  moreover have "only_vectors s1 s'"
    by (cases s1) (simp add: s' write_tokens_def only_vectors_def split: option.split)
  ultimately show ?thesis by (blast intro: only_vectors_trans)
qed

lemma persist_all_tables:
  assumes "tx_map (persist_vector literal config) rs s = Inr (xs, s')"
  shows "only_vectors s s'"
  using assms
proof (induction rs arbitrary: s xs)
  case Nil
  then show ?case by (simp add: only_vectors_def)
next
  case (Cons r rs)
  then obtain x s1 zs where one: "persist_vector literal config r s = Inr (x, s1)"
    and rest: "tx_map (persist_vector literal config) rs s1 = Inr (zs, s')" by auto
  from persist_vector_tables [OF one] Cons.IH [OF rest] show ?case by (rule only_vectors_trans)
qed

text \<open>The rows after one vector: those of other targets as before, and exactly one active row of its own.\<close>

lemma persist_vector_rows:
  assumes "persist_vector literal config r s = Inr (x, s')"
  obtains e where "e \<in> set (vd_vectors s')" "ze_active e" "target_key e = record_key config r"
    "ze_vector e = literal (zr_vector r)" "ze_version e = (if zr_kind r = Chunk_level then zr_version r else None)"
    "ze_provider e = eg_provider config" "ze_model_version e = eg_model_version config"
    "\<And>f. f \<in> set (vd_vectors s') \<Longrightarrow> ze_active f \<Longrightarrow> target_key f = record_key config r \<Longrightarrow> version_key f = version_key e"
    "\<And>f. target_key f \<noteq> record_key config r \<Longrightarrow> f \<in> set (vd_vectors s') \<longleftrightarrow> f \<in> set (vd_vectors s)"
proof -
  define off where "off = vd_vectors (deactivate config r s)"
  define n where "n = new_vector_row literal config (vd_clock s) r"
  from assms obtain y s1 where up: "upsert_vector literal config r (deactivate config r s) = Inr (y, s1)"
    and s': "vd_vectors s' = vd_vectors s1"
    by (auto simp: persist_vector_def write_tokens_def split: option.splits)
  have clock: "vd_clock (deactivate config r s) = vd_clock s" by (simp add: deactivate_def)
  have n: "target_key n = record_key config r" "ze_active n" "ze_vector n = literal (zr_vector r)"
    "ze_version n = (if zr_kind r = Chunk_level then zr_version r else None)"
    "ze_provider n = eg_provider config" "ze_model_version n = eg_model_version config"
    unfolding n_def by simp_all (simp_all add: new_vector_row_def)
  have off_eq: "off = map (\<lambda>e. if target_key e = record_key config r then e\<lparr>ze_active := False\<rparr> else e) (vd_vectors s)"
    by (simp add: off_def deactivate_def same_target_key)
  have off_dead: "\<not> ze_active f" if "f \<in> set off" "target_key f = record_key config r" for f
    using that by (auto simp: off_eq split: if_splits)
  have off_other: "f \<in> set off \<longleftrightarrow> f \<in> set (vd_vectors s)" if "target_key f \<noteq> record_key config r" for f
    using that by (auto simp: off_eq image_iff split: if_splits)
  let ?up = "\<lambda>f. if version_key f = version_key n
            then f\<lparr>ze_vector := ze_vector n, ze_version := ze_version n, ze_active := True, ze_made_at := ze_made_at n\<rparr>
            else f"
  have upk: "version_key (?up f) = version_key f" "target_key (?up f) = target_key f" for f
    by (simp_all add: version_key_def target_key_def)
  have cases: "(\<exists>f. f \<in> set off \<and> version_key f = version_key n) \<and> vd_vectors s1 = map ?up off \<or> vd_vectors s1 = off @ [n]"
    using up unfolding upsert_vector_def Let_def clock n_def [symmetric] off_def [symmetric]
    by (auto split: if_splits simp: image_iff)
  from cases show ?thesis
  proof
    assume a: "(\<exists>f. f \<in> set off \<and> version_key f = version_key n) \<and> vd_vectors s1 = map ?up off"
    then obtain f where f: "f \<in> set off" "version_key f = version_key n" by auto
    have prov: "ze_provider f = ze_provider n" "ze_model_version f = ze_model_version n"
      using f(2) by (auto simp: version_key_def)
    have tk: "target_key (?up f) = record_key config r" using upk(2) version_key_target [OF f(2)] n(1) by metis
    show ?thesis
    proof (rule that [of "?up f"])
      show "?up f \<in> set (vd_vectors s')" using a f(1) by (simp add: s')
      show "target_key (?up f) = record_key config r" by (rule tk)
      fix g assume g: "g \<in> set (vd_vectors s')" "ze_active g" "target_key g = record_key config r"
      then obtain h where h: "h \<in> set off" "g = ?up h" using a by (auto simp: s')
      show "version_key g = version_key (?up f)"
      proof (cases "version_key h = version_key n")
        case True
        then show ?thesis unfolding h(2) upk(1) using f(2) by (rule trans [OF _ sym])
      next
        case False
        then have gh: "g = h" unfolding h(2) by (rule if_not_P)
        have "\<not> ze_active h" using h(1) g(3) unfolding gh by (rule off_dead)
        with g(2) have False unfolding gh by (rule notE [rotated])
        then show ?thesis ..
      qed
    next
      fix g assume g: "target_key g \<noteq> record_key config r"
      have "g \<in> set (map ?up off) \<longleftrightarrow> g \<in> set off"
      proof
        assume "g \<in> set (map ?up off)"
        then obtain h where h: "h \<in> set off" "g = ?up h" by auto
        have tk: "target_key g = target_key h" unfolding h(2) by (rule upk(2))
        have "version_key h \<noteq> version_key n"
          by (rule notI, drule version_key_target) (use g n(1) tk in argo)
        then have "g = h" unfolding h(2) by (rule if_not_P)
        with h(1) show "g \<in> set off" by (rule ssubst [rotated])
      next
        assume "g \<in> set off"
        moreover have "version_key g \<noteq> version_key n"
          by (rule notI, drule version_key_target) (use g n(1) in argo)
        ultimately show "g \<in> set (map ?up off)" by (auto simp: image_iff intro!: bexI [of _ g])
      qed
      then show "g \<in> set (vd_vectors s') \<longleftrightarrow> g \<in> set (vd_vectors s)" using a off_other [OF g] by (simp add: s')
    qed (use f(2) n prov in auto)
  next
    assume a: "vd_vectors s1 = off @ [n]"
    show ?thesis
      by (rule that [of n]) (use a n off_dead off_other in \<open>auto simp: s'\<close>)
  qed
qed


section \<open>At most one active vector per entity\<close>

definition vectors_ok :: "vdb \<Rightarrow> bool" where
  "vectors_ok s \<longleftrightarrow> distinct (map version_key (vd_vectors s)) \<and>
     (\<forall>e\<in>set (vd_vectors s). \<forall>f\<in>set (vd_vectors s).
        ze_active e \<and> ze_active f \<and> target_key e = target_key f \<longrightarrow> e = f)"

lemma persist_vector_version_keys:
  assumes "persist_vector literal config r s = Inr (x, s')" "distinct (map version_key (vd_vectors s))"
  shows "distinct (map version_key (vd_vectors s'))"
proof -
  from assms(1) obtain y s1 where up: "upsert_vector literal config r (deactivate config r s) = Inr (y, s1)"
    and s': "vd_vectors s' = vd_vectors s1"
    by (auto simp: persist_vector_def write_tokens_def split: option.splits)
  have keys: "map version_key (vd_vectors (deactivate config r s)) = map version_key (vd_vectors s)"
    by (simp add: deactivate_def)
  have upk: "version_key (f\<lparr>ze_vector := a, ze_version := b, ze_active := c, ze_made_at := d\<rparr>) = version_key f" for f a b c d
    by (simp add: version_key_def)
  have upmap: "map version_key (map (\<lambda>f. if P f
      then f\<lparr>ze_vector := a, ze_version := b, ze_active := c, ze_made_at := d\<rparr> else f) fs) = map version_key fs" for P a b c d fs
    by (simp add: upk)
  define off where "off = vd_vectors (deactivate config r s)"
  have "map version_key (vd_vectors s1) = map version_key off \<or>
    (\<exists>n. version_key n \<notin> set (map version_key off) \<and> vd_vectors s1 = off @ [n])"
    using up unfolding upsert_vector_def Let_def off_def [symmetric]
    by (auto split: if_splits simp: upk)
  moreover have "distinct (map version_key off)" using assms(2) keys by (simp add: off_def)
  ultimately show ?thesis by (auto simp: s')
qed

lemma persist_vector_ok:
  assumes run: "persist_vector literal config r s = Inr (x, s')" and ok: "vectors_ok s"
  shows "vectors_ok s'"
proof -
  have dist: "distinct (map version_key (vd_vectors s'))"
    using persist_vector_version_keys [OF run] ok by (simp add: vectors_ok_def)
  obtain e0 where e0: "\<And>f. f \<in> set (vd_vectors s') \<Longrightarrow> ze_active f \<Longrightarrow> target_key f = record_key config r \<Longrightarrow> version_key f = version_key e0"
    and other: "\<And>f. target_key f \<noteq> record_key config r \<Longrightarrow> f \<in> set (vd_vectors s') \<longleftrightarrow> f \<in> set (vd_vectors s)"
    by (rule persist_vector_rows [OF run]) blast
  have "e = f" if mem: "e \<in> set (vd_vectors s')" "f \<in> set (vd_vectors s')" and act: "ze_active e" "ze_active f"
    and eq: "target_key e = target_key f" for e f
  proof (cases "target_key e = record_key config r")
    case True
    with e0 mem act eq have "version_key e = version_key f" by simp
    with dist mem show ?thesis by (blast intro: distinct_map_eqD)
  next
    case False
    with mem eq have "e \<in> set (vd_vectors s)" "f \<in> set (vd_vectors s)" using other by simp_all
    with ok act eq show ?thesis by (simp add: vectors_ok_def)
  qed
  with dist show ?thesis by (simp add: vectors_ok_def)
qed

lemma persist_all_ok:
  "tx_map (persist_vector literal config) rs s = Inr (xs, s') \<Longrightarrow> vectors_ok s \<Longrightarrow> vectors_ok s'"
  by (rule tx_keepsD [OF tx_keeps_map]) (auto intro: tx_keepsI persist_vector_ok)

section \<open>Every record of a batch has its active vector\<close>

definition embedded_as :: "(rat list \<Rightarrow> string) \<Rightarrow> embedding_config \<Rightarrow> vector_record \<Rightarrow> vdb \<Rightarrow> bool" where
  "embedded_as literal config r s \<longleftrightarrow> (\<exists>e\<in>set (vd_vectors s). ze_active e \<and> target_key e = record_key config r \<and>
     ze_provider e = eg_provider config \<and> ze_model_version e = eg_model_version config \<and>
     ze_vector e = literal (zr_vector r) \<and> ze_version e = (if zr_kind r = Chunk_level then zr_version r else None))"

definition record_agrees :: "vector_record \<Rightarrow> vector_record \<Rightarrow> bool" where
  "record_agrees q r \<longleftrightarrow> ((zr_kind q, zr_entity q) = (zr_kind r, zr_entity r) \<longrightarrow>
     zr_vector q = zr_vector r \<and> zr_version q = zr_version r)"

lemma record_key_eq: "record_key config q = record_key config r \<longleftrightarrow> (zr_kind q, zr_entity q) = (zr_kind r, zr_entity r)"
  by (simp add: record_key_def)

lemma persist_vector_embeds:
  assumes "persist_vector literal config r s = Inr (x, s')"
  shows "embedded_as literal config r s'"
  by (rule persist_vector_rows [OF assms]) (auto simp: embedded_as_def)

lemma persist_vector_keeps_embedded:
  assumes run: "persist_vector literal config q s = Inr (x, s')" and emb: "embedded_as literal config r s"
    and agree: "record_agrees q r"
  shows "embedded_as literal config r s'"
proof (cases "record_key config q = record_key config r")
  case True
  then have "zr_kind q = zr_kind r" "zr_vector q = zr_vector r" "zr_version q = zr_version r"
    using agree by (auto simp: record_key_def record_agrees_def)
  with True persist_vector_embeds [OF run] show ?thesis by (simp add: embedded_as_def cong: if_cong split del: if_split)
next
  case False
  from emb obtain e where e: "e \<in> set (vd_vectors s)" "ze_active e" "target_key e = record_key config r"
    "ze_provider e = eg_provider config" "ze_model_version e = eg_model_version config"
    "ze_vector e = literal (zr_vector r)" "ze_version e = (if zr_kind r = Chunk_level then zr_version r else None)"
    by (auto simp: embedded_as_def)
  have other: "\<And>f. target_key f \<noteq> record_key config q \<Longrightarrow> f \<in> set (vd_vectors s') \<longleftrightarrow> f \<in> set (vd_vectors s)"
    by (rule persist_vector_rows [OF run]) blast
  have "e \<in> set (vd_vectors s')" using e(1,3) False other by simp
  with e show ?thesis by (auto simp: embedded_as_def)
qed

lemma persist_all_keeps_embedded:
  assumes "tx_map (persist_vector literal config) qs s = Inr (xs, s')" "embedded_as literal config r s"
    and "\<forall>q\<in>set qs. record_agrees q r"
  shows "embedded_as literal config r s'"
  using assms
proof (induction qs arbitrary: s xs)
  case (Cons q qs)
  then obtain x s1 zs where one: "persist_vector literal config q s = Inr (x, s1)"
    and rest: "tx_map (persist_vector literal config) qs s1 = Inr (zs, s')" by auto
  have "embedded_as literal config r s1"
    using persist_vector_keeps_embedded [OF one Cons.prems(2)] Cons.prems(3) by simp
  with Cons.IH [OF rest] Cons.prems(3) show ?case by simp
qed simp

lemma persist_all_embeds:
  assumes "tx_map (persist_vector literal config) rs s = Inr (xs, s')" "r \<in> set rs"
    and "\<forall>q\<in>set rs. record_agrees q r"
  shows "embedded_as literal config r s'"
  using assms
proof (induction rs arbitrary: s xs)
  case (Cons q rs)
  then obtain x s1 zs where one: "persist_vector literal config q s = Inr (x, s1)"
    and rest: "tx_map (persist_vector literal config) rs s1 = Inr (zs, s')" by auto
  show ?case
  proof (cases "r \<in> set rs")
    case True
    with Cons.IH [OF rest] Cons.prems(3) show ?thesis by simp
  next
    case False
    with Cons.prems(2) have "embedded_as literal config r s1" using persist_vector_embeds [OF one] by simp
    with persist_all_keeps_embedded [OF rest] Cons.prems(3) show ?thesis by simp
  qed
qed simp

section \<open>A whole batch\<close>

lemma persist_vectorsE:
  assumes "persist_vectors em docs records s = Inr (x, s')"
  obtains extra xs s1 where "aggregate_vectors s docs records = Inr extra"
    "tx_map (persist_vector (em_literal em) (em_config em)) (records @ extra) s = Inr (xs, s1)"
    "s' = clear_files docs (clear_documents docs s1)" "only_vectors s s1"
  using assms that by (auto simp: persist_vectors_def dest: persist_all_tables)

lemma clear_vectors [simp]:
  "vd_vectors (clear_documents docs s) = vd_vectors s" "vd_vectors (clear_files docs s) = vd_vectors s"
  "vd_current (clear_documents docs s) = vd_current s" "vd_current (clear_files docs s) = vd_current s"
  "vd_chunks (clear_documents docs s) = vd_chunks s" "vd_chunks (clear_files docs s) = vd_chunks s"
  "vd_texts (clear_documents docs s) = vd_texts s" "vd_texts (clear_files docs s) = vd_texts s"
  "vd_paragraphs (clear_documents docs s) = vd_paragraphs s" "vd_paragraphs (clear_files docs s) = vd_paragraphs s"
  "vd_documents (clear_files docs s) = vd_documents s" "vd_files (clear_documents docs s) = vd_files s"
  by (simp_all add: clear_documents_def clear_files_def Let_def)

lemma vectors_ok_cong: "vd_vectors s' = vd_vectors s \<Longrightarrow> vectors_ok s' = vectors_ok s"
  by (simp add: vectors_ok_def)

lemma persist_vectors_ok:
  assumes "persist_vectors em docs records s = Inr (x, s')" "vectors_ok s"
  shows "vectors_ok s'"
  using assms(1)
proof (cases rule: persist_vectorsE)
  case (1 extra xs s1)
  with persist_all_ok [OF 1(2) assms(2)] show ?thesis by (simp add: vectors_ok_def)
qed

end
