(* ===== verification/Vectorization_Loop.thy ===== *)
theory Vectorization_Loop
  imports Vectorization_Effects
begin

text \<open>
  The loop of a rebuild on the tables: what one step does, what stays true, and exactly when the loop
  ends.
\<close>

section \<open>One step\<close>

lemma logs_keep_tables [simp]:
  "vz_db (append_log env name payload v) = vz_db v"
  "vz_db (log_unavailable env v) = vz_db v"
  "vz_db (log_recovered env v) = vz_db v"
  "vz_db (with_status f env action details n v) = vz_db v"
  by (simp_all add: append_log_def log_unavailable_def log_recovered_def with_status_def)

lemma log_documents_db [simp]: "vz_db (log_documents env event ds inputs v) = vz_db v"
  unfolding log_documents_def by (induction ds arbitrary: v) simp_all

lemma log_processed_db [simp]: "vz_db (log_processed env inputs v) = vz_db v"
  unfolding log_processed_def by (induction inputs arbitrary: v) simp_all

lemma run_batch_Inr:
  assumes "run_batch env rq docs p p' inputs v = (Inr q, v')"
  obtains records x where "embed_chunks (sv_embedder env) inputs = Inr records"
    "persist_vectors (sv_embedder env) docs records (vz_db v) = Inr (x, vz_db v')" "q = p'"
proof -
  from assms obtain records where records: "embed_chunks (sv_embedder env) inputs = Inr records"
    by (auto simp: run_batch_def Let_def split: sum.splits vector_error.splits)
  from assms records that [OF records] show ?thesis
    by (cases "persist_vectors (sv_embedder env) docs records (vz_db v)")
      (auto simp: run_batch_def Let_def transaction_def)
qed

lemma run_batch_Inl:
  assumes "run_batch env rq docs p p' inputs v = (Inl r, v')"
  shows "vz_db v' = vz_db v"
proof (cases "embed_chunks (sv_embedder env) inputs")
  case (Inl e)
  with assms show ?thesis by (auto simp: run_batch_def Let_def split: vector_error.splits)
next
  case (Inr records)
  with assms show ?thesis
    by (cases "persist_vectors (sv_embedder env) docs records (vz_db v)")
      (auto simp: run_batch_def Let_def transaction_def)
qed

abbreviation inputs_of :: "service_env \<Rightarrow> vectorizer \<Rightarrow> uuid list \<Rightarrow> vector_input list" where
  "inputs_of env v docs \<equiv> select_vector_inputs (vz_db v) (em_config (sv_embedder env)) docs"

lemma rebuild_step_Inr:
  assumes "rebuild_step env rq (p, v) = (Inr q, v')"
  obtains docs after where "next_documents (vz_db v) rq p = Inr (Some (docs, after))"
    "q = add_progress p docs (inputs_of env v docs) after"
    "rq_dry rq \<Longrightarrow> v' = v"
    "\<not> rq_dry rq \<Longrightarrow> \<exists>records x. embed_chunks (sv_embedder env) (inputs_of env v docs) = Inr records \<and>
       persist_vectors (sv_embedder env) docs records (vz_db v) = Inr (x, vz_db v')"
proof -
  from assms obtain docs after where nd: "next_documents (vz_db v) rq p = Inr (Some (docs, after))"
    by (auto simp: rebuild_step_def split: sum.splits option.splits)
  show ?thesis
  proof (cases "rq_dry rq")
    case True
    with assms nd show ?thesis by (intro that [OF nd]) (auto simp: rebuild_step_def Let_def)
  next
    case False
    with assms nd have "run_batch env rq docs p (add_progress p docs (inputs_of env v docs) after)
        (inputs_of env v docs) v = (Inr q, v')"
      by (simp add: rebuild_step_def Let_def)
    from run_batch_Inr [OF this] False show ?thesis by (metis that [OF nd])
  qed
qed

lemma rebuild_step_Inl:
  assumes "rebuild_step env rq (p, v) = (Inl r, v')"
  shows "vz_db v' = vz_db v"
  using assms by (auto simp: rebuild_step_def Let_def split: sum.splits option.splits if_splits dest: run_batch_Inl)

text \<open>A result of success comes from the head of the loop.\<close>

lemma rebuild_step_done:
  assumes "rebuild_step env rq (p, v) = (Inl (Inr res), v')" "rr_status res = Rebuilt"
  shows "next_documents (vz_db v) rq p = Inr None" "v' = v" "rr_documents res = pg_documents p"
proof -
  have no_batch: False if "run_batch env rq docs p q inputs v = (Inl (Inr res), v')" for docs q inputs
  proof (cases "embed_chunks (sv_embedder env) inputs")
    case (Inl e)
    with that assms(2) show ?thesis by (auto simp: run_batch_def Let_def result_of_def split: vector_error.splits)
  next
    case (Inr records)
    with that show ?thesis
      by (cases "persist_vectors (sv_embedder env) docs records (vz_db v)")
        (auto simp: run_batch_def Let_def transaction_def)
  qed
  show "next_documents (vz_db v) rq p = Inr None" "v' = v" "rr_documents res = pg_documents p"
    using assms
    by (auto simp: rebuild_step_def Let_def result_of_def split: sum.splits option.splits if_splits dest!: no_batch)
qed

lemma rebuild_cases:
  assumes "rebuild has_url env rq v = Some (r, v')"
  obtains "v' = v" "\<And>res. r \<noteq> Inr res"
  | "has_url" "0 < rq_batch rq" "rebuild_loop env rq (no_progress, v) = Some (r, v')"
  using assms by (auto simp: rebuild_def split: if_splits)

text \<open>An invariant of the tables that every batch keeps holds at the end.\<close>

lemma rebuild_keeps:
  assumes ret: "rebuild has_url env rq v = Some (r, v')" and "I (vz_db v)"
    and batch: "\<And>docs records s x s'. persist_vectors (sv_embedder env) docs records s = Inr (x, s') \<Longrightarrow> I s \<Longrightarrow> I s'"
  shows "I (vz_db v')"
  using ret
proof (cases rule: rebuild_cases)
  case 1
  with assms(2) show ?thesis by simp
next
  case 2
  have "I (vz_db (snd (r, v')))"
  proof (rule rebuild_loop_induct [OF 2(3), where I = "\<lambda>x. I (vz_db (snd x))" and Q = "\<lambda>y. I (vz_db (snd y))"])
    show "I (vz_db (snd (no_progress, v)))" using assms(2) by simp
  next
    fix x r v1
    assume I: "I (vz_db (snd x))" and step: "rebuild_step env rq x = (Inl r, v1)"
    obtain p w where x: "x = (p, w)" by (cases x)
    from I rebuild_step_Inl [OF step [unfolded x]] show "I (vz_db (snd (r, v1)))" by (simp add: x)
  next
    fix x p v1
    assume I: "I (vz_db (snd x))" and step: "rebuild_step env rq x = (Inr p, v1)"
    obtain q w where x: "x = (q, w)" by (cases x)
    from step [unfolded x] show "I (vz_db (snd (p, v1)))"
    proof (cases rule: rebuild_step_Inr)
      case (1 docs after)
      show ?thesis
      proof (cases "rq_dry rq")
        case True
        with 1(3) I show ?thesis by (simp add: x)
      next
        case False
        with 1(4) obtain records y where "persist_vectors (sv_embedder env) docs records (vz_db w) = Inr (y, vz_db v1)"
          by blast
        from batch [OF this] I show ?thesis by (simp add: x)
      qed
    qed
  qed
  then show ?thesis by simp
qed

section \<open>What the flags of the documents become\<close>

text \<open>Whether a document is there and not deleted.\<close>

definition is_live :: "vdb \<Rightarrow> uuid \<Rightarrow> bool" where
  "is_live s i \<longleftrightarrow> list_ex (\<lambda>(j, d). j = i \<and> \<not> zd_removed d) (vd_documents s)"

lemma persist_vectors_documents:
  assumes "persist_vectors em docs records s = Inr (x, s')"
  shows "vd_documents s' = map (\<lambda>(i, d). (i, if List.member docs i
       then d\<lparr>zd_needs := False, zd_updated := Some (vd_clock s)\<rparr> else d)) (vd_documents s)"
    "vd_files s' = (let owners = map (zd_owner \<circ> snd) (filter (\<lambda>(i, d). List.member docs i) (vd_documents s)) in
       map (\<lambda>(f, r). (f, if List.member owners (Some f)
         then r\<lparr>zf_needs := False, zf_updated := Some (vd_clock s)\<rparr> else r)) (vd_files s))"
proof -
  have owners: "map (zd_owner \<circ> snd) (filter (\<lambda>(i, d). List.member docs i) (map (\<lambda>(i, d). (i, if List.member docs i
       then d\<lparr>zd_needs := False, zd_updated := t\<rparr> else d)) ds)) =
    map (zd_owner \<circ> snd) (filter (\<lambda>(i, d). List.member docs i) ds)" for ds t
    by (induction ds) auto
  from assms have *: "vd_documents s' = map (\<lambda>(i, d). (i, if List.member docs i
       then d\<lparr>zd_needs := False, zd_updated := Some (vd_clock s)\<rparr> else d)) (vd_documents s) \<and>
    vd_files s' = (let owners = map (zd_owner \<circ> snd) (filter (\<lambda>(i, d). List.member docs i) (vd_documents s)) in
       map (\<lambda>(f, r). (f, if List.member owners (Some f)
         then r\<lparr>zf_needs := False, zf_updated := Some (vd_clock s)\<rparr> else r)) (vd_files s))"
  proof (cases rule: persist_vectorsE)
    case (1 extra xs s1)
    note fields = only_vectors_fields [OF 1(4)]
    have ds: "vd_documents (clear_documents docs s1) = map (\<lambda>(i, d). (i, if List.member docs i
       then d\<lparr>zd_needs := False, zd_updated := Some (vd_clock s)\<rparr> else d)) (vd_documents s)"
      unfolding clear_documents_def fields by simp
    have rest: "vd_files (clear_documents docs s1) = vd_files s" "vd_clock (clear_documents docs s1) = vd_clock s"
      by (simp_all add: clear_documents_def fields)
    have "vd_documents s' = vd_documents (clear_documents docs s1)"
      by (simp add: 1(3))
    moreover have "vd_files s' = (let owners = map (zd_owner \<circ> snd)
         (filter (\<lambda>(i, d). List.member docs i) (vd_documents (clear_documents docs s1))) in
       map (\<lambda>(f, r). (f, if List.member owners (Some f)
         then r\<lparr>zf_needs := False, zf_updated := Some (vd_clock s)\<rparr> else r)) (vd_files s))"
      unfolding 1(3) clear_files_def [of docs "clear_documents docs s1"] Let_def rest by simp
    ultimately show ?thesis unfolding ds owners by (rule conjI)
  qed
  then show "vd_documents s' = map (\<lambda>(i, d). (i, if List.member docs i
       then d\<lparr>zd_needs := False, zd_updated := Some (vd_clock s)\<rparr> else d)) (vd_documents s)"
    "vd_files s' = (let owners = map (zd_owner \<circ> snd) (filter (\<lambda>(i, d). List.member docs i) (vd_documents s)) in
       map (\<lambda>(f, r). (f, if List.member owners (Some f)
         then r\<lparr>zf_needs := False, zf_updated := Some (vd_clock s)\<rparr> else r)) (vd_files s))"
    by simp_all
qed

text \<open>The documents of a batch are no longer flagged, and no other document becomes so.\<close>

lemma map_of_map_values: "map_of (map (\<lambda>(k, v). (k, f k v)) xs) k = map_option (f k) (map_of xs k)"
  by (induction xs) auto

lemma flagged_after:
  assumes "persist_vectors em docs records s = Inr (x, s')"
  shows "map (selects_document s' Flagged) (vd_documents s') =
    map (\<lambda>d. selects_document s Flagged d \<and> \<not> List.member docs (fst d) \<and>
      (zd_needs (snd d) \<or> \<not> (\<exists>(i, e)\<in>set (vd_documents s). List.member docs i \<and> zd_owner e = zd_owner (snd d)))) (vd_documents s)"
proof -
  note eqs = persist_vectors_documents [OF assms]
  have ff: "file_flagged s' (d\<lparr>zd_needs := a, zd_updated := b\<rparr>) = (file_flagged s d \<and>
      \<not> (\<exists>(i, e)\<in>set (vd_documents s). List.member docs i \<and> zd_owner e = zd_owner d))" for d a b
    unfolding file_flagged_def eqs Let_def map_of_map_values
    by (auto split: option.splits simp: image_iff) (metis)
  have fg: "file_flagged s' d = (file_flagged s d \<and>
      \<not> (\<exists>(i, e)\<in>set (vd_documents s). List.member docs i \<and> zd_owner e = zd_owner d))" for d
    using ff [where d = d and a = "zd_needs d" and b = "zd_updated d"] by simp
  show ?thesis
    unfolding eqs(1) map_map
    by (rule map_cong [OF refl]) (auto simp: selects_document_def ff fg split: if_splits)
qed


text \<open>How many documents a selection still matches.\<close>

definition matching :: "vdb \<Rightarrow> selection \<Rightarrow> nat" where
  "matching s sel = length (filter (selects_document s sel) (vd_documents s))"

lemma matching_bools: "matching s sel = length (filter id (map (selects_document s sel) (vd_documents s)))"
  by (simp add: matching_def comp_def filter_map)

lemma length_filter_less_strict:
  assumes "\<And>x. x \<in> set xs \<Longrightarrow> P x \<Longrightarrow> Q x" "x \<in> set xs" "Q x" "\<not> P x"
  shows "length (filter P xs) < length (filter Q xs)"
proof -
  have eq: "filter P xs = filter P (filter Q xs)"
    using assms(1) by (auto simp: filter_eq_iff intro: filter_cong)
  have "x \<in> set (filter Q xs)" "\<not> P x" using assms by auto
  then have "length (filter P (filter Q xs)) < length (filter Q xs)" by (rule length_filter_less)
  then show ?thesis by (simp only: eq)
qed

lemma select_documents_mem:
  "i \<in> set (select_documents s sel n) \<Longrightarrow> \<exists>d. (i, d) \<in> set (vd_documents s) \<and> selects_document s sel (i, d)"
  unfolding select_documents_def by (auto dest!: in_set_takeD split: selection.splits; blast)

lemma select_documents_empty:
  "0 < n \<Longrightarrow> select_documents s sel n = [] \<longleftrightarrow> matching s sel = 0"
proof -
  assume "0 < n"
  then have "select_documents s sel n = [] \<longleftrightarrow>
      (case sel of Every _ \<Rightarrow> sort_key fst | _ \<Rightarrow> sort_key updated_first) (filter (selects_document s sel) (vd_documents s)) = []"
    by (simp add: select_documents_def)
  also have "\<dots> \<longleftrightarrow> matching s sel = 0"
    by (cases sel) (simp_all add: matching_def flip: length_0_conv)
  finally show ?thesis .
qed

lemma flagged_decreases:
  assumes run: "persist_vectors em docs records s = Inr (x, s')"
    and docs: "docs = select_documents s Flagged n" "docs \<noteq> []"
  shows "matching s' Flagged < matching s Flagged"
proof -
  let ?P = "\<lambda>d. selects_document s Flagged d \<and> \<not> List.member docs (fst d) \<and>
      (zd_needs (snd d) \<or> \<not> (\<exists>(i, e)\<in>set (vd_documents s). List.member docs i \<and> zd_owner e = zd_owner (snd d)))"
  obtain i where i: "i \<in> set docs" using docs(2) by (cases docs) auto
  then obtain d where d: "(i, d) \<in> set (vd_documents s)" "selects_document s Flagged (i, d)"
    using select_documents_mem docs(1) by blast
  have "matching s' Flagged = length (filter ?P (vd_documents s))"
    unfolding matching_bools flagged_after [OF run] by (simp add: comp_def filter_map)
  also have "\<dots> < length (filter (selects_document s Flagged) (vd_documents s))"
    by (rule length_filter_less_strict [of _ _ _ "(i, d)"]) (use d i in auto)
  finally show ?thesis by (simp add: matching_def)
qed

text \<open>A rebuild of all documents goes through their identifiers in ascending order.\<close>

lemma selects_every_after:
  assumes "persist_vectors em docs records s = Inr (x, s')"
  shows "map (selects_document s' (Every a)) (vd_documents s') = map (selects_document s (Every a)) (vd_documents s)"
  unfolding persist_vectors_documents(1) [OF assms] map_map
  by (rule map_cong [OF refl]) (auto simp: selects_document_def split: option.splits if_splits)

lemma every_decreases:
  assumes docs: "docs = select_documents s (Every a) n" "docs \<noteq> []"
  shows "matching s (Every (Some (last docs))) < matching s (Every a)"
proof -
  have "last docs \<in> set docs" using docs(2) by simp
  then obtain d where d: "(last docs, d) \<in> set (vd_documents s)" "selects_document s (Every a) (last docs, d)"
    using select_documents_mem docs(1) by blast
  show ?thesis
    unfolding matching_def
    by (rule length_filter_less_strict [of _ _ _ "(last docs, d)"])
      (use d in \<open>auto simp: selects_document_def split: option.splits\<close>)
qed


section \<open>When a rebuild returns\<close>

lemma next_named:
  assumes "rq_document rq = Some t" "uuid_of_string t = Some i"
  shows "next_documents s rq p = (if pg_documents p \<noteq> [] then Inr None
     else Inr (Some (select_documents s (Named i) 1, pg_after p)))"
  using assms by (simp add: next_documents_def)

lemma batch_limit_pos: "0 < rq_batch rq \<Longrightarrow> batch_limit rq k = Some n \<Longrightarrow> 0 < n"
  by (auto simp: batch_limit_def split: option.splits if_splits)

lemma named_live: "select_documents s (Named i) 1 \<noteq> [] \<longleftrightarrow> is_live s i"
  by (auto simp: select_documents_empty matching_def is_live_def list_ex_iff filter_empty_conv selects_document_def)

lemma next_unnamed:
  assumes "rq_document rq = None" "next_documents s rq p = Inr (Some (docs, after))"
  obtains n where "batch_limit rq (length (pg_documents p)) = Some n" "docs \<noteq> []"
    "docs = select_documents s (if rq_all rq then Every (pg_after p) else Flagged) (nat n)"
    "after = (if rq_all rq then Some (last docs) else pg_after p)"
  using assms by (auto simp: next_documents_def Let_def split: option.splits if_splits)

lemma progress_simps [simp]:
  "pg_documents (add_progress p docs inputs after) = pg_documents p @ docs"
  "pg_after (add_progress p docs inputs after) = after"
  "pg_inputs (add_progress p docs inputs after) = pg_inputs p @ inputs"
  by (simp_all add: add_progress_def)

lemma returns_named:
  assumes "rq_document rq = Some t" "uuid_of_string t = Some i" "is_live (vz_db v) i"
  shows "\<exists>y. rebuild_loop env rq (no_progress, v) = Some y"
proof (rule rebuild_loop_returns [where I = "\<lambda>(p, v). pg_documents p \<noteq> [] \<or> is_live (vz_db v) i"
      and m = "\<lambda>(p, v). if pg_documents p = [] then 1 else 0"])
  show "case (no_progress, v) of (p, v) \<Rightarrow> pg_documents p \<noteq> [] \<or> is_live (vz_db v) i" using assms(3) by simp
next
  fix x q v'
  assume I: "case x of (p, v) \<Rightarrow> pg_documents p \<noteq> [] \<or> is_live (vz_db v) i" and step: "rebuild_step env rq x = (Inr q, v')"
  obtain p w where x: "x = (p, w)" by (cases x)
  from step [unfolded x] show "(case (q, v') of (p, v) \<Rightarrow> pg_documents p \<noteq> [] \<or> is_live (vz_db v) i) \<and>
     (case (q, v') of (p, v) \<Rightarrow> if pg_documents p = [] then 1 else 0) < (case x of (p, v) \<Rightarrow> if pg_documents p = [] then 1 else (0 :: nat))"
  proof (cases rule: rebuild_step_Inr)
    case (1 docs after)
    then have p: "pg_documents p = []" "docs = select_documents (vz_db w) (Named i) 1"
      by (auto simp: next_named [OF assms(1,2)] split: if_splits)
    with I have "docs \<noteq> []" using named_live by (simp add: x)
    with p 1(2) show ?thesis by (simp add: x)
  qed
qed

lemma returns_all:
  assumes "rq_document rq = None" "rq_all rq" "0 < rq_batch rq"
  shows "\<exists>y. rebuild_loop env rq (no_progress, v) = Some y"
proof (rule rebuild_loop_returns [where I = "\<lambda>_. True" and m = "\<lambda>(p, v). matching (vz_db v) (Every (pg_after p))"])
  fix x q v'
  assume step: "rebuild_step env rq x = (Inr q, v')"
  obtain p w where x: "x = (p, w)" by (cases x)
  from step [unfolded x] show "True \<and> (case (q, v') of (p, v) \<Rightarrow> matching (vz_db v) (Every (pg_after p)))
     < (case x of (p, v) \<Rightarrow> matching (vz_db v) (Every (pg_after p)))"
  proof (cases rule: rebuild_step_Inr)
    case (1 docs after)
    from 1(1) obtain n where n: "docs \<noteq> []" "docs = select_documents (vz_db w) (Every (pg_after p)) (nat n)"
      "after = Some (last docs)"
      by (rule next_unnamed [OF assms(1)]) (use assms(2) in auto)
    have less: "matching (vz_db w) (Every after) < matching (vz_db w) (Every (pg_after p))"
      unfolding n(3) using n(2,1) by (rule every_decreases)
    have "matching (vz_db v') (Every after) = matching (vz_db w) (Every after)"
    proof (cases "rq_dry rq")
      case True
      with 1(3) show ?thesis by simp
    next
      case False
      with 1(4) obtain records y where
        "persist_vectors (sv_embedder env) docs records (vz_db w) = Inr (y, vz_db v')" by blast
      from selects_every_after [OF this] show ?thesis unfolding matching_bools by simp
    qed
    with less 1(2) show ?thesis by (simp add: x)
  qed
qed simp

lemma returns_flagged:
  assumes "rq_document rq = None" "\<not> rq_all rq" "\<not> rq_dry rq"
  shows "\<exists>y. rebuild_loop env rq (no_progress, v) = Some y"
proof (rule rebuild_loop_returns [where I = "\<lambda>_. True" and m = "\<lambda>(p, v). matching (vz_db v) Flagged"])
  fix x q v'
  assume step: "rebuild_step env rq x = (Inr q, v')"
  obtain p w where x: "x = (p, w)" by (cases x)
  from step [unfolded x] show "True \<and> (case (q, v') of (p, v) \<Rightarrow> matching (vz_db v) Flagged)
     < (case x of (p, v) \<Rightarrow> matching (vz_db v) Flagged)"
  proof (cases rule: rebuild_step_Inr)
    case (1 docs after)
    from 1(1) obtain n where n: "docs \<noteq> []" "docs = select_documents (vz_db w) Flagged (nat n)"
      by (rule next_unnamed [OF assms(1)]) (use assms(2) in auto)
    from 1(4) assms(3) obtain records y where
      "persist_vectors (sv_embedder env) docs records (vz_db w) = Inr (y, vz_db v')" by blast
    from flagged_decreases [OF this n(2,1)] show ?thesis by (simp add: x)
  qed
qed simp

lemma returns_limited:
  assumes "rq_document rq = None" "rq_limit rq = Some k"
  shows "\<exists>y. rebuild_loop env rq (no_progress, v) = Some y"
proof (rule rebuild_loop_returns [where I = "\<lambda>_. True" and m = "\<lambda>(p, v). nat (k - int (length (pg_documents p)))"])
  fix x q v'
  assume step: "rebuild_step env rq x = (Inr q, v')"
  obtain p w where x: "x = (p, w)" by (cases x)
  from step [unfolded x] show "True \<and> (case (q, v') of (p, v) \<Rightarrow> nat (k - int (length (pg_documents p))))
     < (case x of (p, v) \<Rightarrow> nat (k - int (length (pg_documents p))))"
  proof (cases rule: rebuild_step_Inr)
    case (1 docs after)
    from 1(1) obtain n where n: "docs \<noteq> []" "batch_limit rq (length (pg_documents p)) = Some n"
      by (rule next_unnamed [OF assms(1)])
    then have "0 < length docs" "int (length (pg_documents p)) < k"
      using assms(2) by (auto simp: batch_limit_def split: if_splits)
    with 1(2) show ?thesis by (simp add: x)
  qed
qed simp

section \<open>When it never does\<close>

lemma clear_nothing [simp]: "clear_documents [] s = s" "clear_files [] s = s"
proof -
  have "map (\<lambda>(i, d). (i, if List.member [] i then f d else d)) ds = ds" for f :: "vdocument \<Rightarrow> vdocument" and ds
    by (induction ds) auto
  then show "clear_documents [] s = s" by (simp add: clear_documents_def split_def)
  have "map (\<lambda>(i, d). (i, if False then f d else d)) fs = fs" for f :: "vfile \<Rightarrow> vfile" and fs
    by (induction fs) auto
  then show "clear_files [] s = s" by (simp add: clear_files_def split_def)
qed

lemma persist_nothing: "persist_vectors em [] [] s = Inr ((), s)"
proof -
  have "fold (\<lambda>(i, r) d. case (zd_owner r, map_of vectors i) of
       (Some f, Some v) \<Rightarrow> if List.member [] i \<and> \<not> List.member direct f then setdefault_append d f v else d
     | _ \<Rightarrow> d) ds [] = []" for vectors direct and ds :: "(uuid \<times> vdocument) list"
    by (induction ds) (auto split: option.splits)
  then have "by_file s [] direct vectors = []" for direct vectors by (simp add: by_file_def)
  then show ?thesis
    by (simp add: persist_vectors_def aggregate_vectors_def by_document_def collect_def averaged_def entities_of_def
        document_vectors_def tx_defs)
qed

lemma diverges_named:
  assumes "rq_document rq = Some t" "uuid_of_string t = Some i" "\<not> is_live (vz_db v) i"
    and size: "0 < eg_batch_size (em_config (sv_embedder env))"
  shows "rebuild_loop env rq (no_progress, v) = None"
proof (rule rebuild_loop_diverges [where I = "\<lambda>(p, w). pg_documents p = [] \<and> vz_db w = vz_db v"])
  show "case (no_progress, v) of (p, w) \<Rightarrow> pg_documents p = [] \<and> vz_db w = vz_db v" by (simp add: no_progress_def)
next
  fix x :: "rebuild_progress \<times> vectorizer"
  assume I: "case x of (p, w) \<Rightarrow> pg_documents p = [] \<and> vz_db w = vz_db v"
  obtain p w where x: "x = (p, w)" by (cases x)
  from I have p: "pg_documents p = []" "vz_db w = vz_db v" by (simp_all add: x)
  have none: "select_documents (vz_db w) (Named i) 1 = []" using named_live assms(3) p by metis
  have nd: "next_documents (vz_db w) rq p = Inr (Some ([], pg_after p))"
    using p none by (simp add: next_named [OF assms(1,2)])
  have inputs: "inputs_of env w [] = []" by (simp add: select_vector_inputs_def)
  show "\<exists>q w'. rebuild_step env rq x = (Inr q, w') \<and> (case (q, w') of (p, w) \<Rightarrow> pg_documents p = [] \<and> vz_db w = vz_db v)"
    using p nd inputs size
    by (auto simp: x rebuild_step_def run_batch_def Let_def embed_chunks_def persist_nothing transaction_def)
qed

lemma diverges_dry:
  assumes "rq_document rq = None" "\<not> rq_all rq" "rq_limit rq = None" "rq_dry rq" "0 < rq_batch rq"
    and "0 < matching (vz_db v) Flagged"
  shows "rebuild_loop env rq (no_progress, v) = None"
proof (rule rebuild_loop_diverges [where I = "\<lambda>(p, w). w = v"])
  fix x :: "rebuild_progress \<times> vectorizer"
  assume I: "case x of (p, w) \<Rightarrow> w = v"
  then obtain p where x: "x = (p, v)" by (cases x) auto
  let ?docs = "select_documents (vz_db v) Flagged (nat (rq_batch rq))"
  have "?docs \<noteq> []" using assms(5,6) by (simp add: select_documents_empty)
  then have "next_documents (vz_db v) rq p = Inr (Some (?docs, pg_after p))"
    using assms(1-3) by (simp add: next_documents_def batch_limit_def Let_def)
  then show "\<exists>q w'. rebuild_step env rq x = (Inr q, w') \<and> (case (q, w') of (p, w) \<Rightarrow> w = v)"
    using assms(4) by (simp add: x rebuild_step_def Let_def)
qed simp

end
