(* ===== verification/Vectorization_Constraints.thy ===== *)
theory Vectorization_Constraints
  imports Vectorization_Loop
begin

text \<open>
  Why the batches of a rebuild never run into the unique indexes of the vectors: the rows of the same
  entity, model and dimension are deactivated before the new row is written, and the vectors have the
  length of the column.
\<close>

section \<open>One vector\<close>

text \<open>A row names a chunk exactly when it is the vector of a chunk.\<close>

definition chunk_column_ok :: "vector_row \<Rightarrow> bool" where
  "chunk_column_ok e \<longleftrightarrow> ze_chunk e = (if ze_kind e = Chunk_level then Some (ze_entity e) else None)"

definition vectors_sound :: "vdb \<Rightarrow> bool" where
  "vectors_sound s \<longleftrightarrow> vectors_ok s \<and> list_all chunk_column_ok (vd_vectors s)"

text \<open>A configuration whose values fit the columns, in the dimension of the column of the vectors.\<close>

definition storable_config :: "embedding_config \<Rightarrow> bool" where
  "storable_config config \<longleftrightarrow> eg_dimension config = 384 \<and> length (eg_model config) \<le> 256 \<and>
     length (eg_provider config) \<le> 128 \<and> length (eg_model_version config) \<le> 128"

lemma new_row_clashes_not:
  assumes "chunk_column_ok f" "target_key f = record_key config r \<Longrightarrow> \<not> ze_active f"
    and "version_key f \<noteq> version_key (new_vector_row literal config now r)"
  shows "\<not> clashes_with (new_vector_row literal config now r) f"
  using assms
  by (auto simp: clashes_with_def new_vector_row_def chunk_column_ok_def target_key_def record_key_def version_key_def
      split: if_splits)

lemma persist_vector_chunk_columns:
  assumes "persist_vector literal config r s = Inr (x, s')" "list_all chunk_column_ok (vd_vectors s)"
  shows "list_all chunk_column_ok (vd_vectors s')"
proof -
  have off: "list_all chunk_column_ok (vd_vectors (deactivate config r s))"
    using assms(2) by (auto simp: deactivate_def chunk_column_ok_def list_all_iff)
  have new: "chunk_column_ok (new_vector_row literal config now r)" for now
    by (simp add: new_vector_row_def chunk_column_ok_def)
  have up: "chunk_column_ok (f\<lparr>ze_vector := a, ze_version := b, ze_active := c, ze_made_at := d\<rparr>) = chunk_column_ok f" for f a b c d
    by (simp add: chunk_column_ok_def)
  from assms(1) obtain y s1 where "upsert_vector literal config r (deactivate config r s) = Inr (y, s1)"
    and "vd_vectors s' = vd_vectors s1"
    by (auto simp: persist_vector_def write_tokens_def split: option.splits)
  with off new up show ?thesis
    unfolding upsert_vector_def Let_def by (auto simp: list_all_iff split: if_splits)
qed

lemma persist_vector_sound:
  assumes sound: "vectors_sound s" and ok: "storable_config config" "length (zr_vector r) = 384"
  shows "\<exists>s'. persist_vector literal config r s = Inr ((), s') \<and> vectors_sound s'"
proof -
  let ?off = "deactivate config r s"
  let ?n = "new_vector_row literal config (vd_clock ?off) r"
  have "chunk_column_ok f \<and> (target_key f = record_key config r \<longrightarrow> \<not> ze_active f)" if "f \<in> set (vd_vectors ?off)" for f
    using that sound by (auto simp: deactivate_def vectors_sound_def list_all_iff chunk_column_ok_def same_target_key split: if_splits)
  then have "\<not> list_ex (clashes_with ?n) (filter (\<lambda>f. version_key f \<noteq> version_key ?n) (vd_vectors ?off))"
    using new_row_clashes_not by (auto simp: list_ex_iff)
  moreover have "vector_row_ok r ?n" using ok by (simp add: vector_row_ok_def new_vector_row_def storable_config_def)
  ultimately have "\<exists>s1. upsert_vector literal config r ?off = Inr ((), s1)"
    unfolding upsert_vector_def Let_def by simp
  then have "\<exists>s'. persist_vector literal config r s = Inr ((), s')"
    by (auto simp: persist_vector_def tx_bind_def tx_write_def)
  then obtain s' where run: "persist_vector literal config r s = Inr ((), s')" by blast
  with persist_vector_ok [OF run] persist_vector_chunk_columns [OF run] sound show ?thesis by (simp add: vectors_sound_def)
qed

lemma persist_all_sound:
  assumes "vectors_sound s" "storable_config config" "list_all (\<lambda>r. length (zr_vector r) = 384) rs"
  shows "\<exists>xs s'. tx_map (persist_vector literal config) rs s = Inr (xs, s') \<and> vectors_sound s'"
  using assms(1,3)
proof (induction rs arbitrary: s)
  case Nil
  then show ?case by (simp add: tx_return_def)
next
  case (Cons r rs)
  from Cons.prems have "length (zr_vector r) = 384" "list_all (\<lambda>r. length (zr_vector r) = 384) rs" by simp_all
  from persist_vector_sound [OF Cons.prems(1) assms(2) this(1)] obtain s1
    where one: "persist_vector literal config r s = Inr ((), s1)" and "vectors_sound s1" by blast
  with Cons.IH \<open>list_all (\<lambda>r. length (zr_vector r) = 384) rs\<close> obtain xs s'
    where "tx_map (persist_vector literal config) rs s1 = Inr (xs, s')" "vectors_sound s'" by blast
  with one show ?case by (auto simp: tx_bind_def tx_return_def)
qed

section \<open>The averaged vectors\<close>

definition uniform :: "nat \<Rightarrow> ('k \<times> rat list list) list \<Rightarrow> bool" where
  "uniform n d \<longleftrightarrow> list_all (\<lambda>(k, vs). list_all (\<lambda>v. length v = n) vs) d"

lemma set_dict_set: "set (dict_set d k v) \<subseteq> insert (k, v) (set d)"
  by (induction d k v rule: dict_set.induct) auto

lemma uniform_append:
  assumes "uniform n d" "length v = n"
  shows "uniform n (setdefault_append d k v)"
proof -
  let ?vs = "(case map_of d k of None \<Rightarrow> [] | Some vs \<Rightarrow> vs) @ [v]"
  have "list_all (\<lambda>v. length v = n) ?vs"
    using assms by (cases "map_of d k") (auto simp: uniform_def list_all_iff dest!: map_of_SomeD)
  then show ?thesis
    using set_dict_set [of d k ?vs] assms(1) unfolding setdefault_append_def uniform_def list_all_iff by blast
qed

lemma uniform_collect:
  assumes "list_all (\<lambda>r. length (zr_vector r) = n) records"
  shows "uniform n (collect kind direct records)"
proof -
  let ?step = "\<lambda>r d. case zr_document r of
         Some i \<Rightarrow> if zr_kind r = kind \<and> \<not> List.member direct i then setdefault_append d i (zr_vector r) else d
       | None \<Rightarrow> d"
  have "uniform n d \<Longrightarrow> list_all (\<lambda>r. length (zr_vector r) = n) rs \<Longrightarrow> uniform n (fold ?step rs d)" for d rs
    by (induction rs arbitrary: d) (auto simp: uniform_append split: option.split)
  from this [of "[]" records] assms show ?thesis by (simp add: collect_def uniform_def)
qed

lemma document_vectors_length:
  assumes "list_all (\<lambda>r. length (zr_vector r) = n) records" "map_of (document_vectors records) i = Some v"
  shows "length v = n"
proof -
  let ?step = "\<lambda>r d. dict_set d (zr_entity r) (zr_vector r)"
  have "(\<forall>(i, v)\<in>set d. length v = n) \<Longrightarrow> list_all (\<lambda>r. length (zr_vector r) = n) rs \<Longrightarrow>
      \<forall>(i, v)\<in>set (fold ?step rs d). length v = n" for d rs
  proof (induction rs arbitrary: d)
    case (Cons r rs)
    have "\<forall>(i, v)\<in>set (?step r d). length v = n"
      using Cons.prems set_dict_set [of d "zr_entity r" "zr_vector r"] by auto
    from Cons.IH [OF this] Cons.prems(2) show ?case by simp
  qed simp
  from this [of "[]" "filter (\<lambda>r. zr_kind r = Document_level) records"] assms show ?thesis
    by (auto simp: document_vectors_def list_all_iff dest!: map_of_SomeD)
qed

lemma uniform_by_file:
  assumes "\<And>i v. map_of vectors i = Some v \<Longrightarrow> length v = n"
  shows "uniform n (by_file s docs direct vectors)"
proof -
  let ?step = "\<lambda>(i, r :: vdocument) d. case (zd_owner r, map_of vectors i) of
       (Some f, Some v) \<Rightarrow> if List.member docs i \<and> \<not> List.member direct f then setdefault_append d f v else d
     | _ \<Rightarrow> d"
  have "uniform n d \<Longrightarrow> uniform n (fold ?step ds d)" for d ds
    by (induction ds arbitrary: d) (auto simp: uniform_append assms split: option.split)
  from this [of "[]"] show ?thesis by (simp add: by_file_def uniform_def)
qed

lemma mean_vector_cases:
  shows "mean_vector vs \<noteq> Inl Database_failed"
    and "mean_vector vs = Inr m \<Longrightarrow> list_all (\<lambda>v. length v = n) vs \<Longrightarrow> length m = n"
proof -
  show "mean_vector vs \<noteq> Inl Database_failed" by (simp add: mean_vector_def split: list.split)
  assume m: "mean_vector vs = Inr m" and n: "list_all (\<lambda>v. length v = n) vs"
  have "list_all (\<lambda>w. length w = n) us \<Longrightarrow> length acc = n \<Longrightarrow> length (foldl (map2 (+)) acc us) = n" for us and acc :: "rat list"
    by (induction us arbitrary: acc) auto
  from this [OF n, of "replicate n 0"] m n show "length m = n"
    by (auto simp: mean_vector_def split: list.splits if_splits)
qed

lemma map_result_Inl: "map_result f xs = Inl e \<Longrightarrow> \<exists>x\<in>set xs. f x = Inl e"
  by (induction xs) (auto simp: bind_result_eq_Inl)

lemma averaged_cases:
  shows "averaged kind d \<noteq> Inl Database_failed"
    and "averaged kind d = Inr rs \<Longrightarrow> uniform n d \<Longrightarrow> list_all (\<lambda>r. length (zr_vector r) = n) rs"
proof -
  show "averaged kind d \<noteq> Inl Database_failed"
    using mean_vector_cases(1) by (auto simp: averaged_def bind_result_eq_Inl dest!: map_result_Inl)
  show "averaged kind d = Inr rs \<Longrightarrow> uniform n d \<Longrightarrow> list_all (\<lambda>r. length (zr_vector r) = n) rs"
    unfolding averaged_def uniform_def
    by (induction d arbitrary: rs) (auto simp: mean_vector_cases(2))
qed

lemma aggregate_cases:
  assumes "list_all (\<lambda>r. length (zr_vector r) = n) records"
  shows "aggregate_vectors s docs records \<noteq> Inl Database_failed"
    and "aggregate_vectors s docs records = Inr extra \<Longrightarrow> list_all (\<lambda>r. length (zr_vector r) = n) extra"
proof -
  let ?docs = "averaged Document_level (by_document records)"
  have "uniform n (by_document records)" by (simp add: by_document_def Let_def uniform_collect assms)
  then have ds: "list_all (\<lambda>r. length (zr_vector r) = n) (ds @ records)" if "?docs = Inr ds" for ds
    using averaged_cases(2) [OF that] assms by simp
  show "aggregate_vectors s docs records \<noteq> Inl Database_failed"
    using averaged_cases(1) by (auto simp: aggregate_vectors_def bind_result_eq_Inl)
  assume "aggregate_vectors s docs records = Inr extra"
  then obtain ds fs where *: "?docs = Inr ds" "extra = ds @ fs"
    "averaged File_level (by_file s docs (entities_of File_level records) (document_vectors (ds @ records))) = Inr fs"
    by (auto simp: aggregate_vectors_def)
  have "list_all (\<lambda>r. length (zr_vector r) = n) fs"
    by (rule averaged_cases(2) [OF *(3) uniform_by_file]) (rule document_vectors_length [OF ds [OF *(1)]])
  with ds [OF *(1)] show "list_all (\<lambda>r. length (zr_vector r) = n) extra" by (simp add: *(2))
qed

lemma persist_vectors_sound:
  assumes "vectors_sound s" "storable_config (em_config em)" "list_all (\<lambda>r. length (zr_vector r) = 384) records"
  shows "persist_vectors em docs records s \<noteq> Inl Database_failed"
    and "persist_vectors em docs records s = Inr (x, s') \<Longrightarrow> vectors_sound s'"
proof -
  note agg = aggregate_cases [OF assms(3)]
  have all: "\<exists>xs s1. tx_map (persist_vector (em_literal em) (em_config em)) (records @ extra) s = Inr (xs, s1) \<and> vectors_sound s1"
    if "aggregate_vectors s docs records = Inr extra" for extra
    using persist_all_sound [OF assms(1,2)] agg(2) [OF that] assms(3) by simp
  show "persist_vectors em docs records s \<noteq> Inl Database_failed"
  proof (cases "aggregate_vectors s docs records")
    case (Inl e)
    with agg(1) show ?thesis by (auto simp: persist_vectors_def tx_defs)
  next
    case (Inr extra)
    from all [OF this] obtain xs s1
      where "tx_map (persist_vector (em_literal em) (em_config em)) (records @ extra) s = Inr (xs, s1)" by blast
    with Inr show ?thesis by (simp add: persist_vectors_def tx_bind_def tx_read_def tx_lift_def tx_write_def del: tx_map.simps)
  qed
  assume "persist_vectors em docs records s = Inr (x, s')"
  then obtain extra xs s1 where "aggregate_vectors s docs records = Inr extra"
    "tx_map (persist_vector (em_literal em) (em_config em)) (records @ extra) s = Inr (xs, s1)"
    "s' = clear_files docs (clear_documents docs s1)"
    by (rule persist_vectorsE) blast
  with all [OF this(1)] show "vectors_sound s'" by (simp add: vectors_sound_def vectors_ok_def)
qed

section \<open>The embedded vectors\<close>

lemma finite_values_length: "finite_values xs = Some ys \<Longrightarrow> length ys = length xs"
  by (induction xs arbitrary: ys rule: finite_values.induct) auto

lemma read_vector_cases:
  "read_vector to_float v i dimension \<noteq> Inl Database_failed"
  "read_vector to_float v i dimension = Inr xs \<Longrightarrow> int (length xs) = dimension"
  by (auto simp: read_vector_def dest!: finite_values_length split: json.splits option.splits if_splits)

lemma item_vector_cases:
  "item_vector to_float dimension p \<noteq> Inl Database_failed"
  "item_vector to_float dimension p = Inr xs \<Longrightarrow> int (length xs) = dimension"
  using read_vector_cases by (cases p; auto simp: item_vector_def split: json.splits if_splits)+

lemma map_sum_Inl_cases: "map_sum id f r = Inl e \<Longrightarrow> (r = Inl e \<Longrightarrow> P) \<Longrightarrow> P"
  by (cases r) auto

lemma token_cases: "item_tokens p \<noteq> Inl Database_failed"
proof
  assume "item_tokens p = Inl Database_failed"
  then obtain v i where "read_tokens v i = Inl Database_failed"
    by (cases p; cases "snd p"; auto simp: item_tokens_def split: option.splits elim!: map_sum_Inl_cases)
  then show False
    by (auto simp: read_tokens_def token_text_def bind_result_eq_Inl dest!: map_result_Inl split: json.splits sum.splits)
qed

lemma extract_vectors_cases:
  shows "extract_vectors parse_int to_float response n config \<noteq> Inl Database_failed"
    and "extract_vectors parse_int to_float response n config = Inr vs \<Longrightarrow>
      list_all (\<lambda>v. int (length v) = eg_dimension config) vs"
proof -
  have dim: "declared_dimension parse_int d m \<noteq> Inl Database_failed" for d m
    by (simp add: declared_dimension_def split: json.split option.split)
  have items: "result_items d m \<noteq> Inl Database_failed" for d m
    by (simp add: result_items_def split: json.split)
  have vecs: "map_result (item_vector to_float m) ps \<noteq> Inl Database_failed" for m ps
    using item_vector_cases(1) by (auto dest: map_result_Inl)
  show "extract_vectors parse_int to_float response n config \<noteq> Inl Database_failed"
    using dim items vecs by (cases response) (auto simp: extract_vectors_def bind_result_eq_Inl)
  have "map_result (item_vector to_float m) ps = Inr vs \<Longrightarrow> list_all (\<lambda>v. int (length v) = m) vs" for m ps
    by (induction ps arbitrary: vs) (auto dest: item_vector_cases(2))
  then show "extract_vectors parse_int to_float response n config = Inr vs \<Longrightarrow>
      list_all (\<lambda>v. int (length v) = eg_dimension config) vs"
    by (cases response) (auto simp: extract_vectors_def split: if_splits)
qed

lemma token_groups_cases: "extract_token_groups response n \<noteq> Inl Database_failed"
proof -
  have "result_items d m \<noteq> Inl Database_failed" for d m
    by (simp add: result_items_def split: json.split)
  moreover have "map_result item_tokens ps \<noteq> Inl Database_failed" for ps
    using token_cases by (auto dest: map_result_Inl)
  ultimately show ?thesis by (cases response) (auto simp: extract_token_groups_def bind_result_eq_Inl)
qed

lemma embed_batch_cases:
  shows "embed_batch em batch \<noteq> Inl Database_failed"
    and "embed_batch em batch = Inr records \<Longrightarrow> list_all (\<lambda>r. int (length (zr_vector r)) = eg_dimension (em_config em)) records"
proof -
  show "embed_batch em batch \<noteq> Inl Database_failed"
    using extract_vectors_cases(1) token_groups_cases by (auto simp: embed_batch_def bind_result_eq_Inl split: option.splits)
  assume "embed_batch em batch = Inr records"
  then obtain response vectors tokens
    where v: "extract_vectors (em_parse_int em) (em_float em) response (length batch) (em_config em) = Inr vectors"
      and r: "records = map (\<lambda>(i, v, t). vector_record_of i v t) (zip batch (zip vectors tokens))"
    by (auto simp: embed_batch_def split: option.splits)
  have "zr_vector x \<in> set vectors" if "x \<in> set records" for x
  proof -
    from that obtain i v t where "(i, v, t) \<in> set (zip batch (zip vectors tokens))" "x = vector_record_of i v t"
      by (auto simp: r)
    moreover from this(1) have "v \<in> set vectors" by (blast dest: set_zip_rightD set_zip_leftD)
    ultimately show ?thesis by (simp add: vector_record_of_def)
  qed
  with extract_vectors_cases(2) [OF v] show "list_all (\<lambda>r. int (length (zr_vector r)) = eg_dimension (em_config em)) records"
    by (simp add: list_all_iff)
qed

lemma embed_chunks_cases:
  shows "embed_chunks em inputs \<noteq> Inl Database_failed"
    and "embed_chunks em inputs = Inr records \<Longrightarrow> list_all (\<lambda>r. int (length (zr_vector r)) = eg_dimension (em_config em)) records"
proof -
  have "map_result (embed_batch em) bs \<noteq> Inl Database_failed" for bs
    using embed_batch_cases(1) by (auto dest: map_result_Inl)
  then show "embed_chunks em inputs \<noteq> Inl Database_failed"
    by (cases "map_result (embed_batch em) (batches (nat (eg_batch_size (em_config em))) inputs)") (auto simp: embed_chunks_def)
  have "map_result (embed_batch em) bs = Inr rss \<Longrightarrow>
      list_all (\<lambda>r. int (length (zr_vector r)) = eg_dimension (em_config em)) (concat rss)" for bs rss
    by (induction bs arbitrary: rss) (auto dest: embed_batch_cases(2))
  then show "embed_chunks em inputs = Inr records \<Longrightarrow> list_all (\<lambda>r. int (length (zr_vector r)) = eg_dimension (em_config em)) records"
    by (cases "map_result (embed_batch em) (batches (nat (eg_batch_size (em_config em))) inputs)") (auto simp: embed_chunks_def split: if_splits)
qed

section \<open>The whole rebuild\<close>

lemma run_batch_sound:
  assumes run: "run_batch env rq docs p p' inputs v = (out, v')"
    and sound: "vectors_sound (vz_db v)" "storable_config (em_config (sv_embedder env))"
  shows "out \<noteq> Inl (Inl Database_failed) \<and> vectors_sound (vz_db v')"
proof (cases "embed_chunks (sv_embedder env) inputs")
  case (Inl e)
  with embed_chunks_cases(1) have "e \<noteq> Database_failed" by blast
  with run Inl sound(1) show ?thesis by (cases e) (auto simp: run_batch_def Let_def)
next
  case (Inr records)
  have len: "list_all (\<lambda>r. length (zr_vector r) = 384) records"
    using embed_chunks_cases(2) [OF Inr] sound(2) by (auto simp: storable_config_def list_all_iff)
  note per = persist_vectors_sound [OF sound len, of docs]
  show ?thesis
    using run Inr per sound(1)
    by (cases "persist_vectors (sv_embedder env) docs records (vz_db v)") (auto simp: run_batch_def Let_def transaction_def)
qed

lemma rebuild_step_sound:
  assumes step: "rebuild_step env rq (p, v) = (out, v')"
    and sound: "vectors_sound (vz_db v)" "storable_config (em_config (sv_embedder env))"
  shows "out \<noteq> Inl (Inl Database_failed) \<and> vectors_sound (vz_db v')"
proof -
  have nd: "next_documents (vz_db v) rq p \<noteq> Inl Database_failed"
    by (auto simp: next_documents_def Let_def split: option.splits if_splits)
  show ?thesis
  proof (cases "next_documents (vz_db v) rq p")
    case (Inl e)
    with step nd sound(1) show ?thesis by (auto simp: rebuild_step_def)
  next
    case (Inr o')
    show ?thesis
    proof (cases o')
      case None
      with step Inr sound(1) show ?thesis by (auto simp: rebuild_step_def)
    next
      case (Some da)
      obtain docs after where da: "da = (docs, after)" by (cases da)
      let ?inputs = "select_vector_inputs (vz_db v) (em_config (sv_embedder env)) docs"
      show ?thesis
      proof (cases "rq_dry rq")
        case True
        with step Inr Some da sound(1) show ?thesis by (auto simp: rebuild_step_def Let_def)
      next
        case False
        with step Inr Some da have "run_batch env rq docs p (add_progress p docs ?inputs after) ?inputs v = (out, v')"
          by (simp add: rebuild_step_def Let_def)
        then show ?thesis using sound by (rule run_batch_sound)
      qed
    qed
  qed
qed

lemma rebuild_sound:
  assumes ret: "rebuild has_url env rq v = Some (r, v')"
    and sound: "vectors_sound (vz_db v)" "storable_config (em_config (sv_embedder env))"
  shows "r \<noteq> Inl Database_failed \<and> vectors_sound (vz_db v')"
proof (cases "has_url \<and> 0 < rq_batch rq")
  case False
  with ret sound(1) show ?thesis by (auto simp: rebuild_def split: if_splits)
next
  case True
  with ret have "rebuild_loop env rq (no_progress, v) = Some (r, v')" by (simp add: rebuild_def)
  then have "fst (r, v') \<noteq> Inl Database_failed \<and> vectors_sound (vz_db (snd (r, v')))"
  proof (rule rebuild_loop_induct [where I = "\<lambda>x. vectors_sound (vz_db (snd x))"])
    show "vectors_sound (vz_db (snd (no_progress, v)))" using sound(1) by simp
  next
    fix x r v1
    assume "vectors_sound (vz_db (snd x))" "rebuild_step env rq x = (Inl r, v1)"
    then show "fst (r, v1) \<noteq> Inl Database_failed \<and> vectors_sound (vz_db (snd (r, v1)))"
      using rebuild_step_sound [of env rq "fst x" "snd x" "Inl r" v1] sound(2) by simp
  next
    fix x p v1
    assume "vectors_sound (vz_db (snd x))" "rebuild_step env rq x = (Inr p, v1)"
    then show "vectors_sound (vz_db (snd (p, v1)))"
      using rebuild_step_sound [of env rq "fst x" "snd x" "Inr p" v1] sound(2) by simp
  qed
  then show ?thesis by simp
qed

end
