(* ===== verification/Vectorization_Examples.thy ===== *)
theory Vectorization_Examples
  imports Vectorization_Constraints
begin

text \<open>
  A small database on which the properties of the vectorizer are applied: one flagged document of a
  flagged file with one chunk, and a service that gives every text the same vector.
\<close>

definition empty_vdb :: vdb where
  "empty_vdb = \<lparr>vd_documents = [], vd_files = [], vd_paragraphs = [], vd_chunks = [], vd_texts = [], vd_current = [],
     vd_vectors = [], vd_tokens = [], vd_clock = 0\<rparr>"

definition sample_config :: embedding_config where
  "sample_config = \<lparr>eg_provider = ''p'', eg_model = ''m'', eg_model_version = ''1'', eg_dimension = 384, eg_batch_size = 16,
     eg_direct_max = 0\<rparr>"

text \<open>A service that gives every text the vector of 384 ones.\<close>

definition sample_env :: service_env where
  "sample_env = \<lparr>sv_embedder = \<lparr>em_embed = (\<lambda>texts. Some (J_object [(''results'',
        J_list (map (\<lambda>_. J_list (replicate 384 (J_int 1))) texts))])),
       em_parse_int = (\<lambda>_. None), em_float = (\<lambda>v. case v of J_int n \<Rightarrow> Finite (of_int n) | _ \<Rightarrow> Unconvertible),
       em_literal = (\<lambda>_. ''[]''), em_config = sample_config\<rparr>, sv_now = (\<lambda>_. ''now''), sv_preview = 220\<rparr>"

definition sample_service :: "vdb \<Rightarrow> vectorizer" where
  "sample_service s = \<lparr>vz_db = s, vz_logs = [], vz_status = None, vz_unavailable = False\<rparr>"

definition named_request :: "uuid \<Rightarrow> rebuild_request" where
  "named_request i = \<lparr>rq_document = Some (uuid_str i), rq_all = False, rq_limit = None, rq_batch = 5, rq_dry = False\<rparr>"

definition sample_db :: vdb where
  "sample_db = empty_vdb\<lparr>
     vd_documents := [(1, \<lparr>zd_owner = Some 9, zd_title = Some ''t'', zd_source_name = None, zd_source_path = None, zd_needs = True,
        zd_removed = False, zd_created = 0, zd_updated = None\<rparr>)],
     vd_files := [(9, \<lparr>zf_owner = None, zf_name = Some ''f'', zf_path = None, zf_needs = True, zf_removed = False, zf_updated = None\<rparr>)],
     vd_chunks := [(3, \<lparr>zc_document = 1, zc_paragraph = 2, zc_order = 0, zc_removed = False\<rparr>)],
     vd_texts := [(3, ''text'')], vd_current := [(3, 4)]\<rparr>"

definition unit_vector :: "rat list" where
  "unit_vector = replicate 384 1"

definition chunk_record :: vector_record where
  "chunk_record = \<lparr>zr_kind = Chunk_level, zr_entity = 3, zr_document = Some 1, zr_vector = unit_vector, zr_tokens = None, zr_version = Some 4\<rparr>"

text \<open>The same tables with vectors in them, such as one of the chunk by another provider.\<close>

definition sample_with :: "vector_row list \<Rightarrow> vdb" where
  "sample_with vs = sample_db\<lparr>vd_vectors := vs\<rparr>"

definition older_vector :: vector_row where
  "older_vector = \<lparr>ze_kind = Chunk_level, ze_entity = 3, ze_chunk = Some 3, ze_version = Some 4, ze_vector = ''[]'', ze_model = ''m'',
     ze_dimension = 384, ze_provider = ''q'', ze_model_version = ''1'', ze_active = True, ze_made_at = 0\<rparr>"

lemma sample_with_none: "sample_with [] = sample_db"
  by (simp add: sample_with_def sample_db_def empty_vdb_def)

lemma sample_with_fields [simp]:
  "vd_documents (sample_with vs) = vd_documents sample_db" "vd_files (sample_with vs) = vd_files sample_db"
  "vd_paragraphs (sample_with vs) = vd_paragraphs sample_db" "vd_chunks (sample_with vs) = vd_chunks sample_db"
  "vd_texts (sample_with vs) = vd_texts sample_db" "vd_current (sample_with vs) = vd_current sample_db"
  by (simp_all add: sample_with_def)

lemma sample_selected: "select_documents (sample_with vs) Flagged 5 = [1] \<and> select_documents (sample_with vs) (Named 1) 1 = [1]"
proof -
  have "select_documents sample_db Flagged 5 = [1] \<and> select_documents sample_db (Named 1) 1 = [1]" by code_simp
  moreover have "file_flagged (sample_with vs) = file_flagged sample_db"
    by (simp add: fun_eq_iff file_flagged_def split: option.split)
  ultimately show ?thesis by (simp add: select_documents_def selects_document_def)
qed

lemma sample_inputs: "select_vector_inputs (sample_with vs) sample_config [1] =
  [\<lparr>zi_kind = Chunk_level, zi_entity = 3, zi_document = 1, zi_body = ''text'', zi_version = Some 4\<rparr>]"
proof -
  have "select_vector_inputs sample_db sample_config [1] =
    [\<lparr>zi_kind = Chunk_level, zi_entity = 3, zi_document = 1, zi_body = ''text'', zi_version = Some 4\<rparr>]" by code_simp
  then show ?thesis
    by (simp add: select_vector_inputs_def paragraph_inputs_def chunk_inputs_def sample_config_def)
qed

lemma sample_embedded: "embed_chunks (sv_embedder sample_env) [\<lparr>zi_kind = Chunk_level, zi_entity = 3, zi_document = 1, zi_body = ''text'', zi_version = Some 4\<rparr>] = Inr [chunk_record]"
  by code_simp

lemma mean_unit_vector: "mean_vector [unit_vector] = Inr unit_vector"
  by code_simp



definition mean_record :: "level \<Rightarrow> uuid \<Rightarrow> vector_record" where
  "mean_record k i = \<lparr>zr_kind = k, zr_entity = i, zr_document = None, zr_vector = unit_vector, zr_tokens = None, zr_version = None\<rparr>"

lemma sample_aggregate: "aggregate_vectors (sample_with vs) [1] [chunk_record] = Inr [mean_record Document_level 1, mean_record File_level 9]"
  by (simp add: aggregate_vectors_def by_document_def collect_def entities_of_def chunk_record_def Let_def setdefault_append_def
      averaged_def mean_unit_vector document_vectors_def by_file_def sample_db_def empty_vdb_def mean_record_def)


lemma sample_storable: "storable_config (em_config (sv_embedder sample_env))"
  by (simp add: storable_config_def sample_env_def sample_config_def)

lemma sample_sound: "vectors_sound (sample_with [])"
  by (simp add: vectors_sound_def vectors_ok_def sample_with_def)

lemma older_sound: "vectors_sound (sample_with [older_vector])"
  by (simp add: vectors_sound_def vectors_ok_def sample_with_def chunk_column_ok_def older_vector_def)

lemma sample_persists:
  assumes "vectors_sound (sample_with vs)"
  shows "\<exists>s'. persist_vectors (sv_embedder sample_env) [1] [chunk_record] (sample_with vs) = Inr ((), s')"
proof -
  have "list_all (\<lambda>r. length (zr_vector r) = 384) ([chunk_record] @ [mean_record Document_level 1, mean_record File_level 9])"
    by (simp add: chunk_record_def mean_record_def unit_vector_def)
  from persist_all_sound [OF assms sample_storable this] obtain xs s'
    where "tx_map (persist_vector (em_literal (sv_embedder sample_env)) (em_config (sv_embedder sample_env)))
      ([chunk_record] @ [mean_record Document_level 1, mean_record File_level 9]) (sample_with vs) = Inr (xs, s')" by blast
  then have "persist_vectors (sv_embedder sample_env) [1] [chunk_record] (sample_with vs) =
      Inr ((), clear_files [1] (clear_documents [1] s'))"
    unfolding persist_vectors_def by (simp add: sample_aggregate del: tx_map.simps append.simps)
  then show ?thesis by blast
qed

definition flagged_request :: rebuild_request where
  "flagged_request = \<lparr>rq_document = None, rq_all = False, rq_limit = None, rq_batch = 5, rq_dry = False\<rparr>"

lemma sample_config_env: "em_config (sv_embedder sample_env) = sample_config"
  by (simp add: sample_env_def)

lemma sample_step:
  assumes "vectors_sound (sample_with vs)" "next_documents (sample_with vs) rq no_progress = Inr (Some ([1], None))" "\<not> rq_dry rq"
  shows "\<exists>v'. rebuild_step sample_env rq (no_progress, sample_service (sample_with vs)) =
    (Inr (add_progress no_progress [1] (select_vector_inputs (sample_with vs) sample_config [1]) None), v') \<and>
    (\<exists>x. persist_vectors (sv_embedder sample_env) [1] [chunk_record] (sample_with vs) = Inr (x, vz_db v'))"
proof -
  from sample_persists [OF assms(1)] obtain s' where s': "persist_vectors (sv_embedder sample_env) [1] [chunk_record] (sample_with vs) = Inr ((), s')" by blast
  have db: "vz_db (sample_service (sample_with vs)) = sample_with vs" by (simp add: sample_service_def)
  show ?thesis
    using assms(2,3) sample_embedded
    by (simp add: rebuild_step_def db Let_def run_batch_def sample_config_env sample_inputs transaction_def s')
qed

lemma sample_rebuilds:
  assumes sound: "vectors_sound (sample_with vs)" and rq: "rq = named_request 1 \<or> rq = flagged_request"
  shows "\<exists>res v'. rebuild True sample_env rq (sample_service (sample_with vs)) = Some (Inr res, v') \<and> rr_status res = Rebuilt \<and>
     rr_documents res = [1]"
proof -
  have nd: "next_documents (sample_with vs) rq no_progress = Inr (Some ([1], None))"
    using rq sample_selected [of vs] by (auto simp: next_documents_def named_request_def flagged_request_def no_progress_def batch_limit_def)
  have dry: "\<not> rq_dry rq" using rq by (auto simp: named_request_def flagged_request_def)
  let ?p = "add_progress no_progress [1] (select_vector_inputs (sample_with vs) sample_config [1]) None"
  from sample_step [OF sound nd dry] obtain v' x
    where one: "rebuild_step sample_env rq (no_progress, sample_service (sample_with vs)) = (Inr ?p, v')"
      and per: "persist_vectors (sv_embedder sample_env) [1] [chunk_record] (sample_with vs) = Inr (x, vz_db v')" by blast
  have "matching (vz_db v') Flagged = 0"
    using flagged_decreases [OF per, of 5] sample_selected [of vs] by (simp add: matching_def sample_db_def empty_vdb_def split: if_splits)
  then have "next_documents (vz_db v') rq ?p = Inr None"
    using rq by (auto simp: next_documents_def named_request_def flagged_request_def no_progress_def batch_limit_def
        select_documents_empty Let_def)
  then have two: "rebuild_step sample_env rq (?p, v') = (Inl (Inr (result_of Rebuilt False None ?p)), v')"
    using dry by (simp add: rebuild_step_def)
  have "0 < rq_batch rq" using rq by (auto simp: named_request_def flagged_request_def)
  then have "rebuild True sample_env rq (sample_service (sample_with vs)) = Some (Inr (result_of Rebuilt False None ?p), v')"
    by (simp add: rebuild_def rebuild_loop.simps one two)
  then show ?thesis by (simp add: result_of_def no_progress_def)
qed

lemmas sample_rebuilds_fresh = sample_rebuilds [OF sample_sound, unfolded sample_with_none]

end
