(* ===== verification/Vectorization_Properties.thy ===== *)
theory Vectorization_Properties
  imports Vectorization_Examples
begin

text \<open>
  The properties of the vectorizer: when a rebuild returns, that it keeps at most one active vector per
  entity and model, that what it reports as rebuilt is embedded and found by the search, and that its
  flags are cleared.
\<close>

section \<open>Returning\<close>

text \<open>
  C35: a rebuild with positive batch sizes returns, except in two cases in which it never does: it is
  asked for one document that does not exist or is deleted, or it is a dry run of the flagged documents
  without a limit while some document is flagged.
\<close>

theorem rebuild_hangs_iff:
  assumes "0 < rq_batch rq" "0 < eg_batch_size (em_config (sv_embedder env))"
  shows "rebuild True env rq v = None \<longleftrightarrow> (case rq_document rq of
      Some t \<Rightarrow> (\<exists>i. uuid_of_string t = Some i \<and> \<not> is_live (vz_db v) i)
    | None \<Rightarrow> \<not> rq_all rq \<and> rq_limit rq = None \<and> rq_dry rq \<and> list_ex (selects_document (vz_db v) Flagged) (vd_documents (vz_db v)))"
proof -
  have loop: "rebuild True env rq v = rebuild_loop env rq (no_progress, v)"
    using assms(1) by (simp add: rebuild_def)
  have some: "list_ex (selects_document (vz_db v) Flagged) (vd_documents (vz_db v)) \<longleftrightarrow> 0 < matching (vz_db v) Flagged"
    by (simp add: matching_def list_ex_iff filter_empty_conv)
  show ?thesis
  proof (cases "rq_document rq")
    case None
    show ?thesis
    proof (cases "rq_all rq \<or> rq_limit rq \<noteq> None \<or> \<not> rq_dry rq")
      case True
      then have "\<exists>y. rebuild_loop env rq (no_progress, v) = Some y"
        using None assms(1) returns_all returns_limited returns_flagged by blast
      with True None show ?thesis by (auto simp: loop)
    next
      case False
      then have mode: "\<not> rq_all rq" "rq_limit rq = None" "rq_dry rq" by simp_all
      show ?thesis
      proof (cases "0 < matching (vz_db v) Flagged")
        case True
        from diverges_dry [OF None mode assms(1) this] show ?thesis using None mode True by (simp add: loop some)
      next
        case empty: False
        then have "select_documents (vz_db v) Flagged (nat (rq_batch rq)) = []"
          using assms(1) by (simp add: select_documents_empty)
        then have "rebuild_step env rq (no_progress, v) = (Inl (Inr (result_of Dry_run True None no_progress)), v)"
          using None mode by (simp add: rebuild_step_def next_documents_def batch_limit_def Let_def)
        then show ?thesis using None empty by (subst loop, subst rebuild_loop.simps) (simp add: some)
      qed
    qed
  next
    case (Some t)
    show ?thesis
    proof (cases "uuid_of_string t")
      case None
      then have "rebuild_step env rq (no_progress, v) = (Inl (Inl Bad_value), v)"
        using Some by (simp add: rebuild_step_def next_documents_def no_progress_def)
      then show ?thesis using Some None by (subst loop, subst rebuild_loop.simps) simp
    next
      case i: (Some i)
      show ?thesis
      proof (cases "is_live (vz_db v) i")
        case True
        from returns_named [OF Some i this, of env] show ?thesis using Some i True by (auto simp: loop)
      next
        case False
        from diverges_named [OF Some i this assms(2)] show ?thesis using Some i False by (simp add: loop)
      qed
    qed
  qed
qed

theorem rebuild_hangs_iff_witness:
  "rebuild True sample_env (named_request 1) (sample_service empty_vdb) = None"
  using rebuild_hangs_iff [of "named_request 1" sample_env "sample_service empty_vdb"]
  by (simp add: named_request_def sample_env_def sample_config_def sample_service_def empty_vdb_def is_live_def)

section \<open>What is rebuilt is embedded\<close>

definition entity_embedded :: "embedding_config \<Rightarrow> level \<Rightarrow> uuid \<Rightarrow> uuid option \<Rightarrow> vdb \<Rightarrow> bool" where
  "entity_embedded config kind i version s \<longleftrightarrow> (\<exists>e\<in>set (vd_vectors s). ze_active e \<and> ze_kind e = kind \<and> ze_entity e = i \<and>
     ze_model e = eg_model config \<and> ze_dimension e = eg_dimension config \<and> ze_version e = version \<and>
     ze_provider e = eg_provider config \<and> ze_model_version e = eg_model_version config)"

text \<open>Records carry the current version of their chunk.\<close>

definition version_for :: "vdb \<Rightarrow> level \<Rightarrow> uuid \<Rightarrow> uuid option" where
  "version_for s kind i = (if kind = Chunk_level then map_of (vd_current s) i else None)"

definition current_record :: "vdb \<Rightarrow> vector_record \<Rightarrow> bool" where
  "current_record s r \<longleftrightarrow> (zr_kind r = Chunk_level \<longrightarrow> zr_version r = map_of (vd_current s) (zr_entity r))"

lemma embedded_as_entity:
  "embedded_as literal config r s \<Longrightarrow> current_record t r \<Longrightarrow>
   entity_embedded config (zr_kind r) (zr_entity r) (version_for t (zr_kind r) (zr_entity r)) s"
  by (auto simp: embedded_as_def entity_embedded_def target_key_def record_key_def current_record_def version_for_def)

lemma persist_vector_keeps_entity:
  assumes run: "persist_vector literal config r s = Inr (x, s')" and "current_record t r"
    and emb: "entity_embedded config kind i (version_for t kind i) s"
  shows "entity_embedded config kind i (version_for t kind i) s'"
proof (cases "record_key config r = (kind, i, eg_model config, eg_dimension config)")
  case True
  with embedded_as_entity [OF persist_vector_embeds [OF run] assms(2)] show ?thesis by (auto simp: record_key_def)
next
  case False
  from emb obtain e where e: "e \<in> set (vd_vectors s)" "ze_active e" "ze_version e = version_for t kind i"
    "ze_provider e = eg_provider config" "ze_model_version e = eg_model_version config"
    "target_key e = (kind, i, eg_model config, eg_dimension config)"
    by (auto simp: entity_embedded_def target_key_def)
  have "\<And>f. target_key f \<noteq> record_key config r \<Longrightarrow> f \<in> set (vd_vectors s') \<longleftrightarrow> f \<in> set (vd_vectors s)"
    by (rule persist_vector_rows [OF run]) blast
  with e False have "e \<in> set (vd_vectors s')" by simp
  with e show ?thesis by (auto simp: entity_embedded_def target_key_def)
qed

lemma persist_all_keeps_entity:
  assumes "tx_map (persist_vector literal config) rs s = Inr (xs, s')" "list_all (current_record t) rs"
    and "entity_embedded config kind i (version_for t kind i) s"
  shows "entity_embedded config kind i (version_for t kind i) s'"
  using assms
proof (induction rs arbitrary: s xs)
  case (Cons r rs)
  then obtain x s1 zs where one: "persist_vector literal config r s = Inr (x, s1)"
    and rest: "tx_map (persist_vector literal config) rs s1 = Inr (zs, s')" by auto
  from Cons.prems(2) have "current_record t r" by simp
  from persist_vector_keeps_entity [OF one this Cons.prems(3)] Cons.IH [OF rest] Cons.prems(2) show ?case by simp
qed simp

lemma persist_all_entity:
  assumes "tx_map (persist_vector literal config) rs s = Inr (xs, s')" "list_all (current_record t) rs" "r \<in> set rs"
  shows "entity_embedded config (zr_kind r) (zr_entity r) (version_for t (zr_kind r) (zr_entity r)) s'"
  using assms
proof (induction rs arbitrary: s xs)
  case (Cons q rs)
  then obtain x s1 zs where one: "persist_vector literal config q s = Inr (x, s1)"
    and rest: "tx_map (persist_vector literal config) rs s1 = Inr (zs, s')" by auto
  show ?case
  proof (cases "r \<in> set rs")
    case True
    with Cons.IH [OF rest] Cons.prems(2) show ?thesis by simp
  next
    case False
    with Cons.prems(2,3) have "r = q" "current_record t r" by auto
    with embedded_as_entity [OF persist_vector_embeds [OF one]] persist_all_keeps_entity [OF rest] Cons.prems(2)
    show ?thesis by simp
  qed
qed simp

text \<open>The records of a batch are those of its inputs.\<close>

lemma concat_batches: "0 < n \<Longrightarrow> concat (batches n xs) = xs"
proof (induction n xs rule: batches.induct)
  case (2 n x xs)
  then obtain m where n: "n = Suc m" by (cases n) auto
  with 2 show ?case by simp
qed simp

definition record_head :: "vector_record \<Rightarrow> level \<times> uuid \<times> uuid option \<times> uuid option" where
  "record_head r = (zr_kind r, zr_entity r, zr_document r, zr_version r)"

definition input_head :: "vector_input \<Rightarrow> level \<times> uuid \<times> uuid option \<times> uuid option" where
  "input_head i = (zi_kind i, zi_entity i, Some (zi_document i), zi_version i)"

lemma result_items_length: "result_items d n = Inr xs \<Longrightarrow> length xs = n"
  by (auto simp: result_items_def split: json.splits if_splits)

lemma embed_batch_heads:
  assumes "embed_batch em batch = Inr records"
  shows "map record_head records = map input_head batch"
proof -
  from assms obtain response vectors tokens
    where v: "extract_vectors (em_parse_int em) (em_float em) response (length batch) (em_config em) = Inr vectors"
      and t: "extract_token_groups response (length batch) = Inr tokens"
      and r: "records = map (\<lambda>(i, v, t). vector_record_of i v t) (zip batch (zip vectors tokens))"
    by (auto simp: embed_batch_def split: option.splits)
  have len: "length vectors = length batch" "length tokens = length batch"
    using v t unfolding extract_vectors_def extract_token_groups_def
    by (auto split: json.splits if_splits dest!: map_result_length result_items_length)
  have "map record_head records = map (\<lambda>(i, v, t). input_head i) (zip batch (zip vectors tokens))"
    by (simp add: r comp_def split_def record_head_def input_head_def vector_record_of_def)
  also have "\<dots> = map input_head (map fst (zip batch (zip vectors tokens)))" by (simp add: split_def)
  also have "\<dots> = map input_head batch" using len by (subst map_fst_zip) simp_all
  finally show ?thesis .
qed

lemma embed_chunks_heads:
  assumes "embed_chunks em inputs = Inr records"
  shows "map record_head records = map input_head inputs"
proof -
  let ?n = "nat (eg_batch_size (em_config em))"
  from assms obtain rss where rss: "map_result (embed_batch em) (batches ?n inputs) = Inr rss" "records = concat rss"
    and "0 < ?n"
    by (cases "map_result (embed_batch em) (batches ?n inputs)") (auto simp: embed_chunks_def split: if_splits)
  have "map_result (embed_batch em) bs = Inr rss \<Longrightarrow> map record_head (concat rss) = map input_head (concat bs)" for bs rss
    by (induction bs arbitrary: rss) (auto simp: embed_batch_heads)
  from this [OF rss(1)] show ?thesis by (simp only: rss(2) concat_batches [OF \<open>0 < ?n\<close>])
qed

lemma current_inputs:
  assumes "inp \<in> set (select_vector_inputs s config docs)" "zi_kind inp = Chunk_level"
  shows "zi_version inp = map_of (vd_current s) (zi_entity inp)"
  using assms
  by (auto simp: select_vector_inputs_def paragraph_inputs_def chunk_inputs_def document_inputs_def file_inputs_def
      Let_def map_filter_def split: if_splits option.splits)

lemma averaged_kind: "averaged kind d = Inr rs \<Longrightarrow> r \<in> set rs \<Longrightarrow> zr_kind r = kind"
  unfolding averaged_def by (induction d arbitrary: rs) auto

lemma aggregate_kinds:
  assumes "aggregate_vectors s docs records = Inr extra" "r \<in> set extra"
  shows "zr_kind r \<noteq> Chunk_level"
  using assms by (auto simp: aggregate_vectors_def dest!: averaged_kind)

lemma batch_embeds_inputs:
  assumes emb: "embed_chunks em (select_vector_inputs s (em_config em) docs) = Inr records"
    and run: "persist_vectors em docs records s = Inr (x, s')"
  shows "inp \<in> set (select_vector_inputs s (em_config em) docs) \<Longrightarrow>
      entity_embedded (em_config em) (zi_kind inp) (zi_entity inp) (version_for s (zi_kind inp) (zi_entity inp)) s'"
    and "entity_embedded (em_config em) kind i (version_for s kind i) s \<Longrightarrow>
      entity_embedded (em_config em) kind i (version_for s kind i) s'"
proof -
  note heads = embed_chunks_heads [OF emb]
  from run obtain extra xs s1 where extra: "aggregate_vectors s docs records = Inr extra"
    and loop: "tx_map (persist_vector (em_literal em) (em_config em)) (records @ extra) s = Inr (xs, s1)"
    and s': "s' = clear_files docs (clear_documents docs s1)"
    by (rule persist_vectorsE) blast
  have "current_record s r" if "r \<in> set records" for r
  proof -
    from that have "record_head r \<in> set (map record_head records)" by simp
    then obtain inp where inp: "inp \<in> set (select_vector_inputs s (em_config em) docs)" "record_head r = input_head inp"
      unfolding heads by auto
    with current_inputs [OF inp(1)] show ?thesis by (auto simp: current_record_def record_head_def input_head_def)
  qed
  moreover have "current_record s r" if "r \<in> set extra" for r
    using aggregate_kinds [OF extra that] by (simp add: current_record_def)
  ultimately have cur: "list_all (current_record s) (records @ extra)" by (auto simp: list_all_iff)
  have same: "entity_embedded config k i w s' = entity_embedded config k i w s1" for config k i w
    by (simp add: entity_embedded_def s')
  show "entity_embedded (em_config em) (zi_kind inp) (zi_entity inp) (version_for s (zi_kind inp) (zi_entity inp)) s'"
    if "inp \<in> set (select_vector_inputs s (em_config em) docs)"
  proof -
    from that have "input_head inp \<in> set (map record_head records)" unfolding heads by simp
    then obtain r where r: "r \<in> set records" "record_head r = input_head inp" by auto
    with persist_all_entity [OF loop cur, of r] show ?thesis by (simp add: same record_head_def input_head_def)
  qed
  show "entity_embedded (em_config em) kind i (version_for s kind i) s'"
    if "entity_embedded (em_config em) kind i (version_for s kind i) s"
    using persist_all_keeps_entity [OF loop cur that] by (simp add: same)
qed

text \<open>The tables the search reads, with the similarity of each stored vector to that of the query.\<close>

definition search_view :: "(string \<Rightarrow> rat) \<Rightarrow> vdb \<Rightarrow> search_store" where
  "search_view similarity s =
     \<lparr>ss_embeddings = map (\<lambda>e. \<lparr>i_kind = ze_kind e, i_entity = ze_entity e, i_active = ze_active e, i_model = ze_model e,
        i_dimension = ze_dimension e, i_version = ze_version e, i_similarity = similarity (ze_vector e)\<rparr>) (vd_vectors s),
      ss_chunks = map (\<lambda>(i, c). (i, \<lparr>u_document = zc_document c, u_paragraph = zc_paragraph c, u_removed = zc_removed c\<rparr>))
        (vd_chunks s),
      ss_texts = vd_texts s, ss_current = vd_current s,
      ss_paragraphs = map (\<lambda>(i, p). (i, \<lparr>ph_document = zp_document p, ph_text = zp_text p, ph_removed = zp_removed p\<rparr>))
        (vd_paragraphs s),
      ss_documents = map (\<lambda>(i, d). (i, \<lparr>dc_owner = zd_owner d, dc_title = (case zd_title d of None \<Rightarrow> [] | Some t \<Rightarrow> t),
        dc_created = zd_created d, dc_removed = zd_removed d\<rparr>)) (vd_documents s),
      ss_files = map (\<lambda>(i, f). (i, \<lparr>fl_owner = zf_owner f, fl_name = zf_name f, fl_path = zf_path f,
        fl_removed = zf_removed f\<rparr>)) (vd_files s)\<rparr>"

lemma embedded_chunk_found:
  assumes "entity_embedded config Chunk_level i (Some w) s" "map_of (vd_current s) i = Some w"
    and "map_of (vd_chunks s) i = Some c" "\<not> zc_removed c" "map_of (vd_texts s) i = Some t"
    and "map_of (vd_documents s) (zc_document c) = Some d"
  shows "List.member (map n_id (chunk_candidates (search_view similarity s) (eg_model config) (eg_dimension config))) i"
proof -
  from assms(1) obtain e where e: "e \<in> set (vd_vectors s)" "ze_active e" "ze_kind e = Chunk_level" "ze_entity e = i"
    "ze_model e = eg_model config" "ze_dimension e = eg_dimension config" "ze_version e = Some w"
    by (auto simp: entity_embedded_def)
  let ?e = "\<lparr>i_kind = Chunk_level, i_entity = i, i_active = True, i_model = eg_model config,
        i_dimension = eg_dimension config, i_version = Some w, i_similarity = similarity (ze_vector e)\<rparr>"
  have "?e \<in> set (live_embeddings (search_view similarity s) (eg_model config) (eg_dimension config) Chunk_level)"
    using e by (force simp: live_embeddings_def search_view_def)
  then show ?thesis
    using assms(2-6)
    by (force simp: chunk_candidates_def map_filter_def search_view_def candidate_row_def map_of_map_values
        intro!: image_eqI [where x = ?e])
qed

text \<open>What is to embed of a document: its paragraphs that are not blank and its chunks.\<close>

definition same_texts :: "vdb \<Rightarrow> vdb \<Rightarrow> bool" where
  "same_texts s s' \<longleftrightarrow> vd_paragraphs s' = vd_paragraphs s \<and> vd_chunks s' = vd_chunks s \<and> vd_texts s' = vd_texts s \<and>
     vd_current s' = vd_current s"

lemma batch_same_texts:
  assumes "persist_vectors em docs records s = Inr (x, s')"
  shows "same_texts s s'"
proof -
  from assms obtain s1 where "s' = clear_files docs (clear_documents docs s1)" "only_vectors s s1"
    by (rule persist_vectorsE) blast
  with only_vectors_fields [OF this(2)] show ?thesis by (simp add: same_texts_def)
qed

definition document_texts :: "vdb \<Rightarrow> uuid \<Rightarrow> (level \<times> uuid) set" where
  "document_texts s d =
     {(Paragraph_level, i) | i p. (i, p) \<in> set (vd_paragraphs s) \<and> zp_document p = d \<and> \<not> zp_removed p \<and> btrim (zp_text p) \<noteq> []} \<union>
     {(Chunk_level, i) | i c t. (i, c) \<in> set (vd_chunks s) \<and> zc_document c = d \<and> \<not> zc_removed c \<and> map_of (vd_texts s) i = Some t}"

lemma document_texts_selected:
  assumes "(kind, i) \<in> document_texts s d" "d \<in> set docs"
  shows "\<exists>inp\<in>set (select_vector_inputs s config docs). zi_kind inp = kind \<and> zi_entity inp = i"
proof -
  have "docs \<noteq> []" using assms(2) by auto
  moreover have "\<exists>inp\<in>set (paragraph_inputs s docs @ chunk_inputs s docs). zi_kind inp = kind \<and> zi_entity inp = i"
    using assms unfolding document_texts_def
    by (force simp: paragraph_inputs_def chunk_inputs_def map_filter_def)
  ultimately show ?thesis by (auto simp: select_vector_inputs_def)
qed

definition embedded_so_far :: "embedding_config \<Rightarrow> vdb \<Rightarrow> rebuild_progress \<times> vectorizer \<Rightarrow> bool" where
  "embedded_so_far config s = (\<lambda>(p, v). same_texts s (vz_db v) \<and>
     (\<forall>d\<in>set (pg_documents p). \<forall>(kind, i)\<in>document_texts s d.
        entity_embedded config kind i (version_for s kind i) (vz_db v)))"

lemma embedded_so_far_step:
  assumes inv: "embedded_so_far (em_config (sv_embedder env)) s (p, v)" and "\<not> rq_dry rq"
    and step: "rebuild_step env rq (p, v) = (Inr q, v')"
  shows "embedded_so_far (em_config (sv_embedder env)) s (q, v')"
  using step
proof (cases rule: rebuild_step_Inr)
  case (1 docs after)
  let ?config = "em_config (sv_embedder env)"
  from 1(4) assms(2) obtain records x
    where emb: "embed_chunks (sv_embedder env) (inputs_of env v docs) = Inr records"
      and run: "persist_vectors (sv_embedder env) docs records (vz_db v) = Inr (x, vz_db v')" by blast
  have same: "same_texts s (vz_db v)" using inv by (simp add: embedded_so_far_def)
  then have same': "same_texts s (vz_db v')" using batch_same_texts [OF run] by (simp add: same_texts_def)
  have ver: "version_for (vz_db v) k i = version_for s k i" for k i using same by (simp add: version_for_def same_texts_def)
  have texts: "document_texts (vz_db v) d = document_texts s d" for d using same by (simp add: document_texts_def same_texts_def)
  have "entity_embedded ?config kind i (version_for s kind i) (vz_db v')"
    if d: "d \<in> set (pg_documents q)" and t: "(kind, i) \<in> document_texts s d" for d kind i
  proof (cases "d \<in> set docs")
    case True
    from document_texts_selected [of kind i "vz_db v" d docs ?config] True t
    obtain inp where "inp \<in> set (inputs_of env v docs)" "zi_kind inp = kind" "zi_entity inp = i"
      by (auto simp: texts)
    with batch_embeds_inputs(1) [OF emb run] show ?thesis by (auto simp: ver)
  next
    case False
    with d 1(2) have "d \<in> set (pg_documents p)" by simp
    with inv t have "entity_embedded ?config kind i (version_for (vz_db v) kind i) (vz_db v)"
      by (auto simp: embedded_so_far_def ver)
    from batch_embeds_inputs(2) [OF emb run this] show ?thesis by (simp add: ver)
  qed
  with same' show ?thesis by (auto simp: embedded_so_far_def)
qed

lemma rebuilt_embedded:
  assumes run: "rebuild has_url env rq v = Some (Inr res, v')" and ok: "rr_status res = Rebuilt"
    and d: "d \<in> set (rr_documents res)" "(kind, i) \<in> document_texts (vz_db v) d"
  shows "entity_embedded (em_config (sv_embedder env)) kind i (version_for (vz_db v) kind i) (vz_db v')"
proof -
  let ?Q = "\<lambda>y :: (vector_error, rebuild_result) result \<times> vectorizer. \<forall>res v'. y = (Inr res, v') \<longrightarrow> rr_status res = Rebuilt \<longrightarrow>
     (\<exists>p. rr_documents res = pg_documents p \<and> embedded_so_far (em_config (sv_embedder env)) (vz_db v) (p, v'))"
  from run have loop: "rebuild_loop env rq (no_progress, v) = Some (Inr res, v')"
    by (cases rule: rebuild_cases) auto
  have "?Q (Inr res, v')"
  proof (rule rebuild_loop_induct [OF loop, where Q = ?Q and
        I = "\<lambda>x. rq_dry rq \<or> embedded_so_far (em_config (sv_embedder env)) (vz_db v) x"])
    show "rq_dry rq \<or> embedded_so_far (em_config (sv_embedder env)) (vz_db v) (no_progress, v)"
      by (simp add: embedded_so_far_def same_texts_def no_progress_def)
  next
    fix x r w
    assume I: "rq_dry rq \<or> embedded_so_far (em_config (sv_embedder env)) (vz_db v) x"
      and step: "rebuild_step env rq x = (Inl r, w)"
    obtain p u where x: "x = (p, u)" by (cases x)
    show "?Q (r, w)"
    proof (intro allI impI)
      fix res' w' assume r: "(r, w) = (Inr res', w')" "rr_status res' = Rebuilt"
      from step have step': "rebuild_step env rq (p, u) = (Inl (Inr res'), w')" using r(1) by (simp add: x)
      note fin = rebuild_step_done [OF step' r(2)]
      have "\<not> rq_dry rq" using step' r(2) fin(1) by (auto simp: rebuild_step_def result_of_def)
      with I fin show "\<exists>p. rr_documents res' = pg_documents p \<and> embedded_so_far (em_config (sv_embedder env)) (vz_db v) (p, w')"
        by (auto simp: x)
    qed
  next
    fix x q w
    assume I: "rq_dry rq \<or> embedded_so_far (em_config (sv_embedder env)) (vz_db v) x"
      and step: "rebuild_step env rq x = (Inr q, w)"
    obtain p u where x: "x = (p, u)" by (cases x)
    from I step show "rq_dry rq \<or> embedded_so_far (em_config (sv_embedder env)) (vz_db v) (q, w)"
      using embedded_so_far_step unfolding x by blast
  qed
  with ok obtain p where "rr_documents res = pg_documents p"
    "embedded_so_far (em_config (sv_embedder env)) (vz_db v) (p, v')" by blast
  with d show "entity_embedded (em_config (sv_embedder env)) kind i (version_for (vz_db v) kind i) (vz_db v')"
    by (auto simp: embedded_so_far_def)
qed

lemma rebuilt_same_texts:
  "rebuild has_url env rq v = Some (r, v') \<Longrightarrow> same_texts (vz_db v) (vz_db v')"
  by (rule rebuild_keeps [where I = "same_texts (vz_db v)"])
    (auto simp: same_texts_def dest: batch_same_texts)

text \<open>
  C36: when a rebuild reports success, every chunk of every document it reports has an active vector of
  its current version, every paragraph that is not blank has an active vector, and a search with the
  same model finds each of the chunks.
\<close>

theorem rebuilt_documents_searchable:
  assumes run: "rebuild has_url env rq v = Some (Inr res, v')" "rr_status res = Rebuilt"
    and d: "List.member (rr_documents res) d" "map_of (vd_documents (vz_db v')) d \<noteq> None"
    and config: "config = em_config (sv_embedder env)"
  shows "(\<forall>i p. map_of (vd_paragraphs (vz_db v')) i = Some p \<and> zp_document p = d \<and> \<not> zp_removed p \<and> btrim (zp_text p) \<noteq> [] \<longrightarrow>
      entity_embedded config Paragraph_level i None (vz_db v')) \<and>
    (\<forall>i c t. map_of (vd_chunks (vz_db v')) i = Some c \<and> zc_document c = d \<and> \<not> zc_removed c \<and>
        map_of (vd_texts (vz_db v')) i = Some t \<longrightarrow>
      entity_embedded config Chunk_level i (map_of (vd_current (vz_db v')) i) (vz_db v') \<and>
      (map_of (vd_current (vz_db v')) i \<noteq> None \<longrightarrow>
        (\<forall>similarity. List.member (map n_id (chunk_candidates (search_view similarity (vz_db v'))
          (eg_model config) (eg_dimension config))) i)))"
proof -
  have mem: "d \<in> set (rr_documents res)" using d(1) by simp
  have texts: "entity_embedded config kind i (version_for (vz_db v') kind i) (vz_db v')"
    if "(kind, i) \<in> document_texts (vz_db v') d" for kind i
  proof -
    have "same_texts (vz_db v) (vz_db v')" 
      using run(1) by (rule rebuilt_same_texts)
    then have "document_texts (vz_db v') d = document_texts (vz_db v) d"
      "version_for (vz_db v') kind i = version_for (vz_db v) kind i"
      by (simp_all add: same_texts_def document_texts_def version_for_def)
    with rebuilt_embedded(1) [OF run mem, of kind i] that config show ?thesis by simp
  qed
  have para: "entity_embedded config Paragraph_level i None (vz_db v')"
    if "map_of (vd_paragraphs (vz_db v')) i = Some p" "zp_document p = d" "\<not> zp_removed p" "btrim (zp_text p) \<noteq> []" for i p
    using texts [of Paragraph_level i] that map_of_SomeD [OF that(1)] by (auto simp: document_texts_def version_for_def)
  have chunk: "entity_embedded config Chunk_level i (map_of (vd_current (vz_db v')) i) (vz_db v')"
    if "map_of (vd_chunks (vz_db v')) i = Some c" "zc_document c = d" "\<not> zc_removed c"
      "map_of (vd_texts (vz_db v')) i = Some t" for i c t
    using texts [of Chunk_level i] that map_of_SomeD [OF that(1)] by (auto simp: document_texts_def version_for_def)
  have found: "List.member (map n_id (chunk_candidates (search_view similarity (vz_db v'))
          (eg_model config) (eg_dimension config))) i"
    if c: "map_of (vd_chunks (vz_db v')) i = Some c" "zc_document c = d" "\<not> zc_removed c"
      "map_of (vd_texts (vz_db v')) i = Some t" and cur: "map_of (vd_current (vz_db v')) i \<noteq> None" for i c t similarity
  proof -
    from cur obtain w where w: "map_of (vd_current (vz_db v')) i = Some w" by auto
    from d(2) c(2) obtain r where r: "map_of (vd_documents (vz_db v')) (zc_document c) = Some r" by auto
    from embedded_chunk_found [OF _ w c(1,3,4) r] chunk [OF c] w show ?thesis by simp
  qed
  from para chunk found show ?thesis by blast
qed

theorem rebuilt_documents_searchable_witness:
  "\<exists>res v'. rebuild True sample_env (named_request 1) (sample_service sample_db) = Some (Inr res, v') \<and>
     List.member (map n_id (chunk_candidates (search_view (\<lambda>_. 1) (vz_db v')) ''m'' 384)) 3"
proof -
  from sample_rebuilds_fresh [of "named_request 1"] obtain res v'
    where run: "rebuild True sample_env (named_request 1) (sample_service sample_db) = Some (Inr res, v')"
      and ok: "rr_status res = Rebuilt" and docs: "rr_documents res = [1]" by auto
  have tables: "same_texts sample_db (vz_db v')" using rebuilt_same_texts [OF run] by (simp add: sample_service_def)
  have "map fst (vd_documents (vz_db v')) = [1]"
    by (rule rebuild_keeps [OF run]) (auto simp: sample_service_def sample_db_def empty_vdb_def persist_vectors_documents)
  then have "map_of (vd_documents (vz_db v')) 1 \<noteq> None" by (cases "vd_documents (vz_db v')") auto
  from rebuilt_documents_searchable [OF run ok _ this refl] docs tables run show ?thesis
    by (auto simp: same_texts_def sample_db_def empty_vdb_def sample_config_env sample_config_def)
qed

section \<open>Older vectors are replaced\<close>

definition active_vectors :: "embedding_config \<Rightarrow> level \<Rightarrow> uuid \<Rightarrow> vdb \<Rightarrow> vector_row list" where
  "active_vectors config kind i s = filter (\<lambda>e. ze_active e \<and>
     target_key e = (kind, i, eg_model config, eg_dimension config)) (vd_vectors s)"

lemma embedded_once:
  assumes "entity_embedded config kind i version s" "vectors_ok s"
  obtains e where "active_vectors config kind i s = [e]" "ze_provider e = eg_provider config"
    "ze_model_version e = eg_model_version config" "ze_version e = version"
proof -
  from assms(1) obtain e where e: "e \<in> set (active_vectors config kind i s)" "ze_provider e = eg_provider config"
    "ze_model_version e = eg_model_version config" "ze_version e = version"
    by (auto simp: entity_embedded_def active_vectors_def target_key_def)
  have same: "f = e" if "f \<in> set (active_vectors config kind i s)" for f
  proof -
    from that e(1) have "f \<in> set (vd_vectors s)" "e \<in> set (vd_vectors s)" "ze_active f" "ze_active e" "target_key f = target_key e"
      by (simp_all add: active_vectors_def)
    with assms(2) show ?thesis unfolding vectors_ok_def by blast
  qed
  from assms(2) have "distinct (map version_key (vd_vectors s))" unfolding vectors_ok_def by (rule conjunct1)
  then have "distinct (active_vectors config kind i s)" by (simp add: active_vectors_def distinct_map)
  moreover have "set (active_vectors config kind i s) = {e}" using same e(1) by blast
  ultimately have "length (active_vectors config kind i s) = 1" using distinct_card by fastforce
  then obtain f where "active_vectors config kind i s = [f]" by (auto simp: length_Suc_conv)
  with same have "active_vectors config kind i s = [e]" by simp
  from this e(2-4) show ?thesis by (rule that)
qed

text \<open>
  C37: a rebuild never fails on the unique indexes and columns of the vectors, whatever vectors of other
  providers or versions of the model are active before, provided the configuration fits the columns and
  asks for their dimension, 384; and what a successful rebuild reports has exactly one active vector per
  paragraph that is not blank and per chunk for the model and its dimension: the one of the configured
  provider and model version and, for a chunk, of its current version. The older ones are deactivated.
\<close>

theorem rebuild_replaces_vectors:
  assumes run: "rebuild has_url env rq v = Some (r, v')"
    and sound: "vectors_sound (vz_db v)" "storable_config (em_config (sv_embedder env))"
  shows "r \<noteq> Inl Database_failed \<and> vectors_sound (vz_db v') \<and>
    (\<forall>res d kind i. r = Inr res \<and> rr_status res = Rebuilt \<and> d \<in> set (rr_documents res) \<and>
        (kind, i) \<in> document_texts (vz_db v) d \<longrightarrow>
      (\<exists>e. active_vectors (em_config (sv_embedder env)) kind i (vz_db v') = [e] \<and>
        ze_provider e = eg_provider (em_config (sv_embedder env)) \<and>
        ze_model_version e = eg_model_version (em_config (sv_embedder env)) \<and>
        ze_version e = version_for (vz_db v) kind i))"
proof (intro conjI allI impI)
  note keep = rebuild_sound [OF run sound]
  then show "r \<noteq> Inl Database_failed" "vectors_sound (vz_db v')" by simp_all
  fix res d kind i
  assume *: "r = Inr res \<and> rr_status res = Rebuilt \<and> d \<in> set (rr_documents res) \<and> (kind, i) \<in> document_texts (vz_db v) d"
  then have "entity_embedded (em_config (sv_embedder env)) kind i (version_for (vz_db v) kind i) (vz_db v')"
    using rebuilt_embedded run by blast
  then obtain e where "active_vectors (em_config (sv_embedder env)) kind i (vz_db v') = [e]"
    "ze_provider e = eg_provider (em_config (sv_embedder env))"
    "ze_model_version e = eg_model_version (em_config (sv_embedder env))" "ze_version e = version_for (vz_db v) kind i"
    using keep by (elim embedded_once) (simp_all add: vectors_sound_def)
  then show "\<exists>e. active_vectors (em_config (sv_embedder env)) kind i (vz_db v') = [e] \<and>
      ze_provider e = eg_provider (em_config (sv_embedder env)) \<and>
      ze_model_version e = eg_model_version (em_config (sv_embedder env)) \<and> ze_version e = version_for (vz_db v) kind i"
    by blast
qed

text \<open>The vector of the chunk by another provider gives way.\<close>

theorem rebuild_replaces_vectors_witness:
  "\<exists>res v' e. rebuild True sample_env (named_request 1) (sample_service (sample_with [older_vector])) = Some (Inr res, v') \<and>
     active_vectors sample_config Chunk_level 3 (vz_db v') = [e] \<and> ze_provider e = ''p'' \<and>
     active_vectors sample_config Chunk_level 3 (sample_with [older_vector]) = [older_vector] \<and> ze_provider older_vector = ''q''"
proof -
  let ?v = "sample_service (sample_with [older_vector])"
  have sound: "vectors_sound (vz_db ?v)" "storable_config (em_config (sv_embedder sample_env))"
    by (simp_all add: sample_service_def older_sound sample_storable)
  from sample_rebuilds [OF older_sound, of "named_request 1"] obtain res v'
    where run: "rebuild True sample_env (named_request 1) ?v = Some (Inr res, v')"
      and ok: "rr_status res = Rebuilt" and docs: "rr_documents res = [1]" by auto
  have "(Chunk_level, 3) \<in> document_texts (vz_db ?v) 1"
    by (simp add: sample_service_def document_texts_def sample_with_def sample_db_def)
  with rebuild_replaces_vectors [OF run sound] ok docs obtain e where "active_vectors sample_config Chunk_level 3 (vz_db v') = [e]"
    "ze_provider e = ''p''" by (auto simp: sample_config_env sample_config_def)
  with run show ?thesis
    by (auto simp: active_vectors_def target_key_def sample_with_def older_vector_def sample_config_def)
qed

end
