(* ===== verification/Vectorization_Files.thy ===== *)
theory Vectorization_Files
  imports Vectorization_Properties
begin

text \<open>
  The flags a rebuild clears, and the averaged vector of a file, which covers the documents of the last
  batch only.
\<close>

section \<open>Flags\<close>

definition flags_pending :: "vdb \<Rightarrow> rebuild_progress \<times> vectorizer \<Rightarrow> bool" where
  "flags_pending s = (\<lambda>(p, v). \<forall>(i, d)\<in>set (vd_documents s). zd_needs d \<and> \<not> zd_removed d \<longrightarrow>
     i \<in> set (pg_documents p) \<or> (\<exists>e. (i, e) \<in> set (vd_documents (vz_db v)) \<and> zd_needs e \<and> \<not> zd_removed e))"

lemma flags_pending_step:
  assumes inv: "flags_pending s (p, v)" and step: "rebuild_step env rq (p, v) = (Inr q, v')"
  shows "flags_pending s (q, v')"
  using step
proof (cases rule: rebuild_step_Inr)
  case (1 docs after)
  show ?thesis
  proof (cases "rq_dry rq")
    case True
    with 1(2,3) inv show ?thesis by (auto simp: flags_pending_def)
  next
    case False
    with 1(4) obtain records x where "persist_vectors (sv_embedder env) docs records (vz_db v) = Inr (x, vz_db v')" by blast
    note docs = persist_vectors_documents(1) [OF this]
    have keep: "(i, e) \<in> set (vd_documents (vz_db v'))" if "(i, e) \<in> set (vd_documents (vz_db v))" "i \<notin> set docs" for i e
      using that unfolding docs by (force simp: image_iff)
    show ?thesis using inv keep unfolding flags_pending_def by (fastforce simp: 1(2))
  qed
qed

text \<open>
  C38: a rebuild of the flagged documents without a limit that reports success leaves no document
  flagged, neither by itself nor by its file, and every document that was flagged by itself is among
  those it reports.
\<close>

theorem rebuild_clears_flags:
  assumes run: "rebuild has_url env rq v = Some (Inr res, v')" "rr_status res = Rebuilt"
    and mode: "rq_document rq = None" "\<not> rq_all rq" "rq_limit rq = None"
  shows "\<not> list_ex (selects_document (vz_db v') Flagged) (vd_documents (vz_db v')) \<and>
    list_all (\<lambda>(i, d). zd_needs d \<and> \<not> zd_removed d \<longrightarrow> List.member (rr_documents res) i) (vd_documents (vz_db v))"
proof -
  let ?Q = "\<lambda>y :: (vector_error, rebuild_result) result \<times> vectorizer. \<forall>res v'. y = (Inr res, v') \<longrightarrow> rr_status res = Rebuilt \<longrightarrow>
     \<not> list_ex (selects_document (vz_db v') Flagged) (vd_documents (vz_db v')) \<and>
     (\<exists>p. rr_documents res = pg_documents p \<and> flags_pending (vz_db v) (p, v'))"
  from run(1) have loop: "rebuild_loop env rq (no_progress, v) = Some (Inr res, v')" and batch: "0 < rq_batch rq"
    by (auto elim: rebuild_cases)
  have "?Q (Inr res, v')"
  proof (rule rebuild_loop_induct [OF loop, where Q = ?Q and I = "flags_pending (vz_db v)"])
    show "flags_pending (vz_db v) (no_progress, v)" by (auto simp: flags_pending_def)
  next
    fix x r w
    assume I: "flags_pending (vz_db v) x" and step: "rebuild_step env rq x = (Inl r, w)"
    obtain p u where x: "x = (p, u)" by (cases x)
    show "?Q (r, w)"
    proof (intro allI impI)
      fix res' w' assume r: "(r, w) = (Inr res', w')" "rr_status res' = Rebuilt"
      from step have step': "rebuild_step env rq (p, u) = (Inl (Inr res'), w')" using r(1) by (simp add: x)
      note fin = rebuild_step_done [OF step' r(2)]
      have "select_documents (vz_db u) Flagged (nat (rq_batch rq)) = []"
        using fin(1) mode by (simp add: next_documents_def batch_limit_def Let_def split: if_splits)
      then have "\<not> list_ex (selects_document (vz_db u) Flagged) (vd_documents (vz_db u))"
        using batch by (simp add: select_documents_empty matching_def list_ex_iff filter_empty_conv)
      then show "\<not> list_ex (selects_document (vz_db w') Flagged) (vd_documents (vz_db w')) \<and>
          (\<exists>p. rr_documents res' = pg_documents p \<and> flags_pending (vz_db v) (p, w'))"
        using I fin(2,3) by (auto simp: x)
    qed
  next
    fix x q w
    assume "flags_pending (vz_db v) x" "rebuild_step env rq x = (Inr q, w)"
    then show "flags_pending (vz_db v) (q, w)" by (cases x) (auto intro: flags_pending_step)
  qed
  with run(2) obtain p where p: "rr_documents res = pg_documents p" "flags_pending (vz_db v) (p, v')"
    and none: "\<not> list_ex (selects_document (vz_db v') Flagged) (vd_documents (vz_db v'))" by blast
  have "i \<in> set (rr_documents res)" if "(i, d) \<in> set (vd_documents (vz_db v))" "zd_needs d" "\<not> zd_removed d" for i d
  proof (rule ccontr)
    assume "i \<notin> set (rr_documents res)"
    with p that obtain e where "(i, e) \<in> set (vd_documents (vz_db v'))" "zd_needs e" "\<not> zd_removed e"
      by (fastforce simp: flags_pending_def)
    then have "selects_document (vz_db v') Flagged (i, e)" by (simp add: selects_document_def)
    with none \<open>(i, e) \<in> set (vd_documents (vz_db v'))\<close> show False by (auto simp: list_ex_iff)
  qed
  with none show ?thesis by (auto simp: list_all_iff)
qed

theorem rebuild_clears_flags_witness:
  "\<exists>res v'. rebuild True sample_env flagged_request (sample_service sample_db) = Some (Inr res, v') \<and>
     \<not> list_ex (selects_document (vz_db v') Flagged) (vd_documents (vz_db v'))"
proof -
  from sample_rebuilds_fresh [of flagged_request] obtain res v'
    where run: "rebuild True sample_env flagged_request (sample_service sample_db) = Some (Inr res, v')"
      and ok: "rr_status res = Rebuilt" by auto
  from rebuild_clears_flags [OF run ok] run show ?thesis by (auto simp: flagged_request_def)
qed

section \<open>The vector of a file\<close>

lemma collect_one_document:
  assumes "list_all (\<lambda>r. zr_document r = Some i) records"
  shows "collect kind [] records = (let vs = map zr_vector (filter (\<lambda>r. zr_kind r = kind) records) in
     if vs = [] then [] else [(i, vs)])"
proof -
  have "fold (\<lambda>r d. case zr_document r of
       Some i \<Rightarrow> if zr_kind r = kind \<and> \<not> List.member [] i then setdefault_append d i (zr_vector r) else d
     | None \<Rightarrow> d) rs (if ws = [] then [] else [(i, ws)]) =
     (let vs = ws @ map zr_vector (filter (\<lambda>r. zr_kind r = kind) rs) in if vs = [] then [] else [(i, vs)])"
    if "list_all (\<lambda>r. zr_document r = Some i) rs" for rs ws
    using that
  proof (induction rs arbitrary: ws)
    case (Cons r rs)
    have "setdefault_append (if ws = [] then [] else [(i, ws)]) i (zr_vector r) = [(i, ws @ [zr_vector r])]"
      by (simp add: setdefault_append_def)
    with Cons.IH [of "ws @ [zr_vector r]"] Cons.IH [of ws] Cons.prems show ?case
      by (cases "ws = []"; cases "zr_kind r = kind") simp_all
  qed simp
  from this [OF assms, of "[]"] show ?thesis by (simp add: collect_def Let_def)
qed

lemma by_file_one_document:
  assumes "distinct (map fst (vd_documents s))" "(i, d) \<in> set (vd_documents s)" "zd_owner d = Some f"
    and "map_of vectors i = Some m"
  shows "by_file s [i] [] vectors = [(f, [m])]"
proof -
  let ?step = "\<lambda>(j, r :: vdocument) a. case (zd_owner r, map_of vectors j) of
       (Some f, Some v) \<Rightarrow> if List.member [i] j \<and> \<not> List.member [] f then setdefault_append a f v else a
     | _ \<Rightarrow> a"
  have skip: "fold ?step ds a = a" if "i \<notin> fst ` set ds" for ds a
    using that by (induction ds arbitrary: a) (auto split: option.splits)
  from assms(2) obtain xs ys where split: "vd_documents s = xs @ (i, d) # ys" by (auto dest: split_list)
  with assms(1) have "i \<notin> fst ` set xs" "i \<notin> fst ` set ys" by auto
  with skip assms(3,4) show ?thesis by (simp add: by_file_def split setdefault_append_def)
qed

lemma mean_one: "v \<noteq> [] \<Longrightarrow> mean_vector [v] = Inr v"
proof -
  assume "v \<noteq> []"
  have "map2 (+) (replicate (length v) 0) v = v" by (induction v) simp_all
  then show ?thesis using \<open>v \<noteq> []\<close> by (simp add: mean_vector_def)
qed

lemma mean_length:
  assumes "mean_vector vs = Inr m"
  shows "m \<noteq> []"
proof -
  from assms obtain v ws where vs: "vs = v # ws" "v \<noteq> []" "list_all (\<lambda>w. length w = length v) vs"
    and m: "m = map (\<lambda>x. x / of_nat (length vs)) (foldl (map2 (+)) (replicate (length v) 0) vs)"
    by (auto simp: mean_vector_def split: list.splits if_splits)
  have "list_all (\<lambda>w. length w = n) us \<Longrightarrow> length acc = n \<Longrightarrow> length (foldl (map2 (+)) acc us) = n" for n us and acc :: "rat list"
    by (induction us arbitrary: acc) auto
  from this [OF vs(3)] have "length m = length v" by (simp add: m)
  with vs(2) show ?thesis by auto
qed

lemma aggregate_one_document:
  assumes docs: "distinct (map fst (vd_documents s))" "(i, d) \<in> set (vd_documents s)" "zd_owner d = Some f"
    and kinds: "list_all (\<lambda>r. zr_document r = Some i \<and> (zr_kind r = Paragraph_level \<or> zr_kind r = Chunk_level)) records"
    and some: "records \<noteq> []" and agg: "aggregate_vectors s [i] records = Inr extra"
  obtains m where "extra = map (\<lambda>(k, j). \<lparr>zr_kind = k, zr_entity = j, zr_document = None, zr_vector = m, zr_tokens = None,
     zr_version = None\<rparr>) [(Document_level, i), (File_level, f)]"
proof -
  have direct: "entities_of Document_level records = []" "entities_of File_level records = []"
    using kinds by (auto simp: entities_of_def filter_empty_conv list_all_iff)
  have doc: "list_all (\<lambda>r. zr_document r = Some i) records" using kinds by (simp add: list_all_iff)
  have "\<exists>vs. by_document records = [(i, vs)]"
  proof (cases "filter (\<lambda>r. zr_kind r = Paragraph_level) records = []")
    case True
    with kinds some have "filter (\<lambda>r. zr_kind r = Chunk_level) records \<noteq> []"
      by (cases records) (auto simp: filter_empty_conv)
    with True show ?thesis by (simp add: by_document_def direct collect_one_document [OF doc] Let_def)
  next
    case False
    then show ?thesis by (simp add: by_document_def direct collect_one_document [OF doc] Let_def)
  qed
  then obtain vs where vs: "by_document records = [(i, vs)]" by blast
  with agg obtain m where m: "mean_vector vs = Inr m" by (auto simp: aggregate_vectors_def averaged_def)
  have no_docs: "filter (\<lambda>r. zr_kind r = Document_level) records = []"
    using kinds by (auto simp: filter_empty_conv list_all_iff)
  have "map_of (document_vectors ([\<lparr>zr_kind = Document_level, zr_entity = i, zr_document = None, zr_vector = m, zr_tokens = None,
     zr_version = None\<rparr>] @ records)) i = Some m"
    by (simp add: document_vectors_def no_docs)
  from by_file_one_document [OF docs this] agg m mean_one [OF mean_length [OF m]] show ?thesis
    by (intro that [of m]) (simp add: aggregate_vectors_def averaged_def vs direct)
qed

lemma named_select_one:
  assumes "distinct (map fst (vd_documents s))" "(i, d) \<in> set (vd_documents s)" "\<not> zd_removed d"
  shows "select_documents s (Named i) 1 = [i]"
proof -
  from assms(2) obtain xs ys where split: "vd_documents s = xs @ (i, d) # ys" by (auto dest: split_list)
  with assms(1) have "i \<notin> fst ` set xs" "i \<notin> fst ` set ys" by auto
  then have "filter (selects_document s (Named i)) xs = []" "filter (selects_document s (Named i)) ys = []"
    by (force simp: filter_empty_conv selects_document_def)+
  with assms(3) have "filter (selects_document s (Named i)) (vd_documents s) = [(i, d)]"
    by (simp add: split selects_document_def)
  then show ?thesis by (simp add: select_documents_def)
qed

lemma records_of_one:
  assumes "embed_chunks em (select_vector_inputs s (em_config em) [i]) = Inr records" "eg_direct_max (em_config em) \<le> 0"
  shows "list_all (\<lambda>r. zr_document r = Some i \<and> (zr_kind r = Paragraph_level \<or> zr_kind r = Chunk_level)) records"
  unfolding list_all_iff
proof
  fix r assume "r \<in> set records"
  then have "record_head r \<in> set (map record_head records)" by simp
  then obtain inp where "inp \<in> set (select_vector_inputs s (em_config em) [i])" "record_head r = input_head inp"
    unfolding embed_chunks_heads [OF assms(1)] by auto
  with assms(2) show "zr_document r = Some i \<and> (zr_kind r = Paragraph_level \<or> zr_kind r = Chunk_level)"
    by (auto simp: select_vector_inputs_def paragraph_inputs_def chunk_inputs_def map_filter_def record_head_def
        input_head_def split: option.splits)
qed

text \<open>
  C39: the vector of a file is not the mean of the vectors of its documents but of those of the last
  batch: rebuilding one document of a file, with direct texts switched off, gives the file the vector of
  that document, whatever other documents the file has.
\<close>

theorem rebuild_one_takes_over_file:
  assumes run: "rebuild has_url env rq v = Some (Inr res, v')" "rr_status res = Rebuilt"
    and named: "rq_document rq = Some t" "uuid_of_string t = Some i"
    and docs: "distinct (map fst (vd_documents (vz_db v)))" "(i, d) \<in> set (vd_documents (vz_db v))" "zd_owner d = Some f"
    and live: "\<not> zd_removed d"
    and texts: "select_vector_inputs (vz_db v) (em_config (sv_embedder env)) [i] \<noteq> []"
    and direct: "eg_direct_max (em_config (sv_embedder env)) \<le> 0"
  shows "\<exists>e\<in>set (vd_vectors (vz_db v')). \<exists>e'\<in>set (vd_vectors (vz_db v')). ze_active e \<and> ze_active e' \<and>
    ze_kind e = Document_level \<and> ze_entity e = i \<and> ze_kind e' = File_level \<and> ze_entity e' = f \<and>
    ze_model e = eg_model (em_config (sv_embedder env)) \<and> ze_model e' = ze_model e \<and>
    ze_dimension e' = ze_dimension e \<and> ze_vector e' = ze_vector e"
proof -
  let ?em = "sv_embedder env"
  from run(1) have loop: "rebuild_loop env rq (no_progress, v) = Some (Inr res, v')"
    by (cases rule: rebuild_cases) auto
  have nd: "next_documents (vz_db v) rq no_progress = Inr (Some (select_documents (vz_db v) (Named i) 1, None))"
    by (simp add: next_named [OF named] no_progress_def)
  obtain out v1 where step: "rebuild_step env rq (no_progress, v) = (out, v1)" by fastforce
  obtain q where q: "out = Inr q"
  proof (cases out)
    case (Inl r)
    with loop step have "r = Inr res" by (subst (asm) rebuild_loop.simps) simp
    with Inl step rebuild_step_done(1) [of env rq no_progress v res v1] run(2) nd show ?thesis by simp
  qed blast
  from step [unfolded q] obtain records x where q_docs: "pg_documents q = select_documents (vz_db v) (Named i) 1"
    and batch: "\<not> rq_dry rq \<Longrightarrow> embed_chunks ?em (inputs_of env v (pg_documents q)) = Inr records \<and>
      persist_vectors ?em (pg_documents q) records (vz_db v) = Inr (x, vz_db v1)"
    by (rule rebuild_step_Inr) (use nd in \<open>auto simp: no_progress_def\<close>)
  have next_step: "rebuild_loop env rq (q, v1) = Some (Inr res, v')"
    using loop step q by (subst (asm) rebuild_loop.simps) simp
  have docs_q: "pg_documents q = [i]"
    using named_select_one [OF docs(1,2) live] by (simp add: q_docs)
  have fin: "\<not> rq_dry rq" "v' = v1"
  proof -
    have "rebuild_step env rq (q, v1) = (Inl (Inr (result_of (if rq_dry rq then Dry_run else Rebuilt) (rq_dry rq) None q)), v1)"
      by (simp add: rebuild_step_def next_named [OF named] docs_q)
    with next_step have "res = result_of (if rq_dry rq then Dry_run else Rebuilt) (rq_dry rq) None q" "v' = v1"
      by (subst (asm) rebuild_loop.simps, simp)+
    with run(2) show "\<not> rq_dry rq" "v' = v1" by (auto simp: result_of_def split: if_splits)
  qed
  from batch [OF fin(1)] have emb: "embed_chunks ?em (inputs_of env v [i]) = Inr records"
    and per: "persist_vectors ?em [i] records (vz_db v) = Inr (x, vz_db v')"
    by (simp_all add: docs_q fin(2))
  from per obtain extra xs s1 where agg: "aggregate_vectors (vz_db v) [i] records = Inr extra"
    and all: "tx_map (persist_vector (em_literal ?em) (em_config ?em)) (records @ extra) (vz_db v) = Inr (xs, s1)"
    and s': "vz_db v' = clear_files [i] (clear_documents [i] s1)"
    by (rule persist_vectorsE) blast
  note kinds = records_of_one [OF emb direct]
  from embed_chunks_heads [OF emb] texts have "records \<noteq> []" by auto
  from aggregate_one_document [OF docs kinds this agg] obtain m
    where extra: "extra = map (\<lambda>(k, j). \<lparr>zr_kind = k, zr_entity = j, zr_document = None, zr_vector = m, zr_tokens = None,
     zr_version = None\<rparr>) [(Document_level, i), (File_level, f)]" .
  have written: "embedded_as (em_literal ?em) (em_config ?em) r s1" if "r \<in> set extra" for r
  proof (rule persist_all_embeds [OF all])
    show "r \<in> set (records @ extra)" using that by simp
    show "\<forall>q\<in>set (records @ extra). record_agrees q r"
      using that kinds by (auto simp: extra record_agrees_def list_all_iff)
  qed
  show ?thesis
    using written [unfolded extra, of "\<lparr>zr_kind = Document_level, zr_entity = i, zr_document = None, zr_vector = m,
        zr_tokens = None, zr_version = None\<rparr>"]
      written [unfolded extra, of "\<lparr>zr_kind = File_level, zr_entity = f, zr_document = None, zr_vector = m,
        zr_tokens = None, zr_version = None\<rparr>"]
    by (simp add: s' embedded_as_def target_key_def record_key_def) metis
qed

theorem rebuild_one_takes_over_file_witness:
  "\<exists>res v'. rebuild True sample_env (named_request 1) (sample_service sample_db) = Some (Inr res, v') \<and>
     (\<exists>e\<in>set (vd_vectors (vz_db v')). ze_kind e = File_level \<and> ze_entity e = 9)"
proof -
  from sample_rebuilds_fresh [of "named_request 1"] obtain res v'
    where run: "rebuild True sample_env (named_request 1) (sample_service sample_db) = Some (Inr res, v')"
      and ok: "rr_status res = Rebuilt" by auto
  let ?d = "snd (hd (vd_documents sample_db))"
  have "(1, ?d) \<in> set (vd_documents (vz_db (sample_service sample_db)))" "zd_owner ?d = Some 9" "\<not> zd_removed ?d"
    "distinct (map fst (vd_documents (vz_db (sample_service sample_db))))"
    by (simp_all add: sample_service_def sample_db_def)
  note doc = this
  have texts: "select_vector_inputs (vz_db (sample_service sample_db)) (em_config (sv_embedder sample_env)) [1] \<noteq> []"
    by (simp add: sample_service_def sample_config_env sample_inputs [of "[]", unfolded sample_with_none])
  have direct: "eg_direct_max (em_config (sv_embedder sample_env)) \<le> 0" by (simp add: sample_config_env sample_config_def)
  have named: "rq_document (named_request 1) = Some (uuid_str 1)" by (simp add: named_request_def)
  from rebuild_one_takes_over_file [OF run ok named uuid_of_string_str doc(4,1-3) texts direct]
  have "\<exists>e\<in>set (vd_vectors (vz_db v')). ze_kind e = File_level \<and> ze_entity e = 9" by blast
  with run show ?thesis by blast
qed

end
