(* ===== verification/Vectorizer_Status.thy ===== *)
theory Vectorizer_Status
  imports Vectorization_Service
begin

text \<open>
  The status of the vectorizer (\<open>InMemoryVectorizationStatus.snapshot\<close> and its helpers): it is read from
  the last event of the activity log, which is searched backwards in blocks, from the tables and from
  the snapshot kept on disk.
\<close>

section \<open>The last event of a log\<close>

text \<open>\<open>bytes.strip()\<close>\<close>

definition byte_space :: "char \<Rightarrow> bool" where
  "byte_space c \<longleftrightarrow> (let n = (of_char c :: nat) in n = 32 \<or> (9 \<le> n \<and> n \<le> 13))"

definition byte_strip :: "string \<Rightarrow> string" where
  "byte_strip t = rev (dropWhile byte_space (rev (dropWhile byte_space t)))"

definition newline :: char where
  "newline = CHR 0x0A"

text \<open>\<open>buffer.rsplit(b"\n", 1)\<close> of a buffer that holds a line feed.\<close>

definition rsplit_line :: "string \<Rightarrow> string \<times> string" where
  "rsplit_line t = (rev (tl (dropWhile (\<lambda>c. c \<noteq> newline) (rev t))), rev (takeWhile (\<lambda>c. c \<noteq> newline) (rev t)))"

lemma rsplit_line_eq:
  assumes "newline \<in> set t"
  shows "t = fst (rsplit_line t) @ newline # snd (rsplit_line t)" "newline \<notin> set (snd (rsplit_line t))"
proof -
  let ?P = "\<lambda>c. c \<noteq> newline"
  have "dropWhile ?P (rev t) \<noteq> []" using assms by (auto simp: dropWhile_eq_Nil_conv)
  then have "dropWhile ?P (rev t) = newline # tl (dropWhile ?P (rev t))"
    using hd_dropWhile [of ?P "rev t"] by (cases "dropWhile ?P (rev t)") auto
  then have "rev t = takeWhile ?P (rev t) @ newline # tl (dropWhile ?P (rev t))"
    using takeWhile_dropWhile_id [of ?P "rev t"] by argo
  then have "rev (rev t) = rev (takeWhile ?P (rev t) @ newline # tl (dropWhile ?P (rev t)))" by simp
  then show "t = fst (rsplit_line t) @ newline # snd (rsplit_line t)" by (simp add: rsplit_line_def)
  show "newline \<notin> set (snd (rsplit_line t))" by (auto simp: rsplit_line_def dest: set_takeWhileD)
qed

lemma rsplit_line_shorter: "newline \<in> set t \<Longrightarrow> length (fst (rsplit_line t)) < length t"
  using arg_cong [OF rsplit_line_eq(1), of t length] by simp

definition event_of :: "json \<Rightarrow> json_dict option" where
  "event_of v = (case v of J_object d \<Rightarrow> Some d | _ \<Rightarrow> None)"

text \<open>
  The inner loop takes complete lines off the end of the buffer until one parses; \<open>parse\<close> decodes a line
  and reads it as JSON. \<open>Inl\<close> is the incomplete line that is left.
\<close>

function scan_lines :: "(string \<Rightarrow> json option) \<Rightarrow> string \<Rightarrow> string + json_dict option" where
  "scan_lines parse buffer =
     (if newline \<in> set buffer then
        (case parse (byte_strip (snd (rsplit_line buffer))) of
           Some v \<Rightarrow> if byte_strip (snd (rsplit_line buffer)) = [] then scan_lines parse (fst (rsplit_line buffer))
             else Inr (event_of v)
         | None \<Rightarrow> scan_lines parse (fst (rsplit_line buffer)))
      else Inl buffer)"
  by auto
termination
  by (relation "measure (\<lambda>(_, t). length t)") (simp_all add: rsplit_line_shorter)

declare scan_lines.simps [simp del]

text \<open>\<open>_last_vectorizer_activity_event\<close> reads the file from its end in blocks of 8192 bytes.\<close>

function read_back :: "(string \<Rightarrow> json option) \<Rightarrow> nat \<Rightarrow> string \<Rightarrow> nat \<Rightarrow> string \<Rightarrow> json_dict option" where
  "read_back parse block content position buffer =
     (if position = 0 \<or> block = 0 then
        (if byte_strip buffer = [] then None
         else (case parse (byte_strip buffer) of None \<Rightarrow> None | Some v \<Rightarrow> event_of v))
      else (case scan_lines parse (drop (position - min block position) (take position content) @ buffer) of
          Inr r \<Rightarrow> r
        | Inl rest \<Rightarrow> read_back parse block content (position - min block position) rest))"
  by auto
termination
  by (relation "measure (\<lambda>(_, _, _, position, _). position)") auto

declare read_back.simps [simp del]

definition last_activity_event :: "(string \<Rightarrow> json option) \<Rightarrow> string \<Rightarrow> json_dict option" where
  "last_activity_event parse content = read_back parse 8192 content (length content) []"

text \<open>What it stands for: the last line that is not blank and parses.\<close>

definition parsed_lines :: "(string \<Rightarrow> json option) \<Rightarrow> string \<Rightarrow> json list" where
  "parsed_lines parse content = List.map_filter (\<lambda>l. if byte_strip l = [] then None else parse (byte_strip l))
     (split_at newline content)"

definition last_parsed :: "(string \<Rightarrow> json option) \<Rightarrow> string \<Rightarrow> json_dict option" where
  "last_parsed parse content = (if parsed_lines parse content = [] then None else event_of (last (parsed_lines parse content)))"

lemma split_at_not_Nil [simp]: "split_at c t \<noteq> []"
  by (cases t) (auto split: list.split)

lemma split_at_snoc: "c \<notin> set u \<Longrightarrow> split_at c (t @ c # u) = split_at c t @ [u]"
proof (induction t)
  case Nil
  have "c \<notin> set u \<Longrightarrow> split_at c u = [u]" by (induction u) auto
  with Nil show ?case by simp
next
  case (Cons d t)
  then show ?case by (auto split: list.splits)
qed

lemma split_at_none: "c \<notin> set u \<Longrightarrow> split_at c u = [u]"
  by (induction u) auto

lemma parsed_lines_snoc:
  "newline \<notin> set u \<Longrightarrow> parsed_lines parse (t @ newline # u) = parsed_lines parse t @
     (if byte_strip u = [] then [] else (case parse (byte_strip u) of None \<Rightarrow> [] | Some v \<Rightarrow> [v]))"
  by (simp add: parsed_lines_def split_at_snoc map_filter_def split: option.split)

lemma scan_lines_sound:
  "(\<forall>r. scan_lines parse buffer = Inr r \<longrightarrow> last_parsed parse (front @ buffer) = r) \<and>
   (\<forall>rest. scan_lines parse buffer = Inl rest \<longrightarrow> newline \<notin> set rest \<and>
      last_parsed parse (front @ buffer) = last_parsed parse (front @ rest))"
proof (induction parse buffer rule: scan_lines.induct)
  case (1 parse buffer)
  show ?case
  proof (cases "newline \<in> set buffer")
    case False
    then show ?thesis by (simp add: scan_lines.simps)
  next
    case True
    let ?t = "fst (rsplit_line buffer)" and ?u = "snd (rsplit_line buffer)"
    note buffer = rsplit_line_eq [OF True]
    have lines: "parsed_lines parse (front @ buffer) = parsed_lines parse (front @ ?t) @
       (if byte_strip ?u = [] then [] else (case parse (byte_strip ?u) of None \<Rightarrow> [] | Some v \<Rightarrow> [v]))"
      by (subst buffer(1)) (simp add: parsed_lines_snoc [OF buffer(2), of parse "front @ ?t", simplified])
    show ?thesis
    proof (cases "byte_strip ?u = [] \<or> parse (byte_strip ?u) = None")
      case skip: True
      then have scan: "scan_lines parse buffer = scan_lines parse ?t"
        using True by (subst scan_lines.simps) (auto split: option.split)
      have "last_parsed parse (front @ buffer) = last_parsed parse (front @ ?t)"
        using skip lines by (auto simp: last_parsed_def)
      with scan 1 [OF True] skip show ?thesis by (cases "parse (byte_strip ?u)") auto
    next
      case False
      then obtain v where v: "parse (byte_strip ?u) = Some v" "byte_strip ?u \<noteq> []" by auto
      then have "scan_lines parse buffer = Inr (event_of v)"
        using True by (subst scan_lines.simps) simp
      with lines v show ?thesis by (simp add: last_parsed_def)
    qed
  qed
qed

lemma read_back_correct:
  assumes "0 < block" "position \<le> length content" "newline \<notin> set buffer"
  shows "read_back parse block content position buffer = last_parsed parse (take position content @ buffer)"
  using assms
proof (induction parse block content position buffer rule: read_back.induct)
  case (1 parse block content position buffer)
  show ?case
  proof (cases "position = 0")
    case True
    with 1(4) show ?thesis
      by (subst read_back.simps)
        (simp add: last_parsed_def parsed_lines_def split_at_none map_filter_def split: option.split)
  next
    case False
    let ?p = "position - min block position"
    let ?chunk = "drop ?p (take position content)"
    have join: "take ?p content @ ?chunk = take position content"
      by (metis append_take_drop_id diff_le_self min_absorb1 take_take)
    note sound = scan_lines_sound [of parse "?chunk @ buffer" "take ?p content"]
    show ?thesis
    proof (cases "scan_lines parse (?chunk @ buffer)")
      case (Inr r)
      with False 1(2) sound join show ?thesis
        by (subst read_back.simps) (simp add: append_assoc [symmetric] del: append_assoc)
    next
      case (Inl rest)
      then have "newline \<notin> set rest" using sound by blast
      with 1(1) [OF _ Inl] False 1(2,3)
      have "read_back parse block content ?p rest = last_parsed parse (take ?p content @ rest)" by simp
      also have "\<dots> = last_parsed parse (take position content @ buffer)"
        using sound Inl join by (metis append_assoc)
      finally show ?thesis using False 1(2) Inl by (subst read_back.simps) simp
    qed
  qed
qed

text \<open>
  C40: searching the activity log backwards in blocks finds the event of the last line that is not blank
  and parses, however the lines fall into the blocks.
\<close>

theorem last_event_is_last_line:
  "last_activity_event parse content = last_parsed parse content"
  using read_back_correct [of 8192 "length content" content "[]" parse] by (simp add: last_activity_event_def)

section \<open>The reported status\<close>

text \<open>\<open>_document_needs_active_vectors\<close>; \<open>None\<close> stands for a missing configuration or a failed query.\<close>

definition has_active :: "vdb \<Rightarrow> embedding_config \<Rightarrow> level \<Rightarrow> uuid \<Rightarrow> bool" where
  "has_active s config kind i \<longleftrightarrow> list_ex (\<lambda>e. ze_kind e = kind \<and> ze_entity e = i \<and> ze_active e \<and>
     ze_provider e = eg_provider config \<and> ze_model e = eg_model config \<and> ze_model_version e = eg_model_version config \<and>
     ze_dimension e = eg_dimension config) (vd_vectors s)"

definition needs_active_vectors :: "(vdb \<times> embedding_config) option \<Rightarrow> uuid \<Rightarrow> bool" where
  "needs_active_vectors access i = (case access of
       None \<Rightarrow> True
     | Some (s, config) \<Rightarrow>
         list_ex (\<lambda>(j, d). j = i \<and> \<not> zd_removed d \<and> \<not> has_active s config Document_level j) (vd_documents s) \<or>
         list_ex (\<lambda>(j, p). zp_document p = i \<and> \<not> zp_removed p \<and> \<not> has_active s config Paragraph_level j) (vd_paragraphs s) \<or>
         list_ex (\<lambda>(j, c). zc_document c = i \<and> \<not> zc_removed c \<and> \<not> has_active s config Chunk_level j) (vd_chunks s))"

text \<open>
  \<open>_current_activity_from_logs\<close>. An identifier that is no UUID makes the cast of the query fail, which
  counts as needing vectors.
\<close>

definition document_needs :: "(vdb \<times> embedding_config) option \<Rightarrow> string \<Rightarrow> bool" where
  "document_needs access t = (case uuid_of_string t of None \<Rightarrow> True | Some i \<Rightarrow> needs_active_vectors access i)"

definition current_activity :: "(vdb \<times> embedding_config) option \<Rightarrow> json_dict option \<Rightarrow> json_dict option" where
  "current_activity access event = (case event of
       None \<Rightarrow> None
     | Some e \<Rightarrow>
         if json_get e ''event'' \<noteq> J_str ''document_vectorization_started'' then None
         else if \<not> json_true (json_get e ''document_id'') then None
         else if \<not> document_needs access (json_str (json_get e ''document_id'')) then None
         else Some [(''action'', J_str ''embedding_documents''),
           (''current_document_id'', J_str (json_str (json_get e ''document_id''))), (''current_file'', json_get e ''file''),
           (''current_title'', json_get e ''title''), (''chunk_count'', json_get e ''chunk_count''),
           (''timestamp'', json_get e ''timestamp''), (''source'', J_str ''vectorizer_activity_log'')])"

definition read_snapshot :: "vectorizer_status \<Rightarrow> json_dict option" where
  "read_snapshot st = (case vs_persisted st of None \<Rightarrow> None | Some v \<Rightarrow> event_of v)"

definition snapshot :: "(vdb \<times> embedding_config) option \<Rightarrow> json_dict option \<Rightarrow> vectorizer_status \<Rightarrow> json_dict" where
  "snapshot access event st = (let persisted = read_snapshot st in case current_activity access event of
       Some current \<Rightarrow>
         [(''state'', J_str ''running''), (''current_activity'', J_object current),
          (''last_activity'', case persisted of
             Some p \<Rightarrow> if p \<noteq> [] then json_get p ''last_activity'' else optional_object (vs_last st)
           | None \<Rightarrow> optional_object (vs_last st)),
          (''note'', J_str ''log-backed best-effort vectorizer snapshot'')]
     | None \<Rightarrow> (case (vs_current st, persisted) of
           (None, Some p) \<Rightarrow> p
         | _ \<Rightarrow> snapshot_of st persisted_note))"

end
