(* ===== verification/Source_Normalizer.thy ===== *)
theory Source_Normalizer
  imports Py_Json Integrity
begin

text \<open>
  The normalization of a source before it is chunked (\<open>ingestion/source_normalizer.py\<close>): exactly one of a
  text and a transferred file, its bytes, the filter its metadata select, the text it denotes and the
  identities derived from it.

  Bytes are numbers below 256. \<open>decode\<close> is \<open>bytes.decode("utf-8")\<close> (\<open>None\<close>: it raises), \<open>sha\<close> the SHA-256
  digest of bytes, \<open>uuid5\<close> the name-based identifier in the URL name space, \<open>guess\<close> is
  \<open>mimetypes.guess_type\<close> and \<open>sessions\<close> the transfer store of the adapter with its files.
\<close>

section \<open>Values\<close>

type_synonym bytes = "nat list"

record diagnostic =
  dg_code :: string
  dg_message :: string
  dg_context :: json_dict

record source_metadata =
  sm_kind :: string
  sm_filename :: "string option"
  sm_media_type :: "string option"
  sm_length :: nat
  sm_sha :: string

record normalized_request =
  nr_document :: uuid
  nr_version :: string
  nr_text :: string
  nr_metadata :: source_metadata
  nr_filter :: string
  nr_profile :: string
  nr_preset :: string

record format_filter =
  ff_name :: string
  ff_media_types :: "string list"
  ff_extensions :: "string list"
  ff_apply :: "(bytes \<Rightarrow> source_metadata \<Rightarrow> string option) option"

text \<open>A value of a transfer mapping: JSON, or bytes; and the object with a \<open>read\<close> method.\<close>

datatype transfer_value = Json_value json | Bytes_value bytes

record transfer_object =
  to_payload :: transfer_value
  to_filename :: "transfer_value option"
  to_media_type :: "transfer_value option"

datatype transferred = Transfer_mapping "(string \<times> transfer_value) list" | Transfer_object transfer_object

text \<open>A session of the transfer store; attributes that are absent are \<open>None\<close>.\<close>

record transfer_session =
  ts_direction :: "string option"
  ts_status :: "string option"
  ts_path :: string
  ts_compression :: "string option"
  ts_filename :: "string option"

record transfer_store =
  st_session :: "string \<Rightarrow> transfer_session option"
  st_file :: "string \<Rightarrow> bytes option"
  st_gunzip :: "bytes \<Rightarrow> bytes option"

datatype document_ref = Ref_uuid uuid | Ref_text string | Ref_none

record normalizer =
  nz_decode :: "bytes \<Rightarrow> string option"
  nz_sha :: "bytes \<Rightarrow> string"
  nz_uuid5 :: "string \<Rightarrow> uuid"
  nz_guess :: "string \<Rightarrow> string option"
  nz_store :: transfer_store

definition reject :: "string \<Rightarrow> string \<Rightarrow> json_dict \<Rightarrow> (diagnostic, 'a) result" where
  "reject code message context = Inl \<lparr>dg_code = code, dg_message = message, dg_context = context\<rparr>"

section \<open>Reading a transferred file\<close>

definition truthy :: "transfer_value \<Rightarrow> bool" where
  "truthy v = (case v of Json_value j \<Rightarrow> json_true j | Bytes_value b \<Rightarrow> b \<noteq> [])"

text \<open>\<open>_optional_str\<close>\<close>

definition nonempty_str :: "transfer_value \<Rightarrow> string option" where
  "nonempty_str v = (case v of Json_value (J_str (c # t)) \<Rightarrow> Some (c # t) | _ \<Rightarrow> None)"

definition value_get :: "(string \<times> transfer_value) list \<Rightarrow> string \<Rightarrow> transfer_value" where
  "value_get d k = (case map_of d k of None \<Rightarrow> Json_value J_null | Some v \<Rightarrow> v)"

definition value_or :: "(string \<times> transfer_value) list \<Rightarrow> string \<Rightarrow> string \<Rightarrow> transfer_value" where
  "value_or d k l = (if truthy (value_get d k) then value_get d k else value_get d l)"

text \<open>\<open>bytes(payload)\<close>: a text is encoded, anything but bytes is refused.\<close>

definition payload_bytes :: "transfer_value \<Rightarrow> (diagnostic, bytes) result" where
  "payload_bytes v = (case v of
       Bytes_value b \<Rightarrow> Inr b
     | Json_value (J_str t) \<Rightarrow> Inr (utf8 t)
     | Json_value j \<Rightarrow> reject ''INVALID_TRANSFER_PAYLOAD'' ''transferred file payload must be bytes or text''
         [(''payload_type'', J_str (case j of J_null \<Rightarrow> ''NoneType'' | J_bool _ \<Rightarrow> ''bool'' | J_int _ \<Rightarrow> ''int''
            | J_list _ \<Rightarrow> ''list'' | _ \<Rightarrow> ''dict''))])"

text \<open>\<open>_read_adapter_transfer_reference\<close>; what a library raises is left out of the context.\<close>

definition transfer_failed :: "string \<Rightarrow> (diagnostic, 'a) result" where
  "transfer_failed i = reject ''TRANSFER_REFERENCE_FAILED'' ''adapter transfer reference could not be resolved''
     [(''transfer_id'', J_str i)]"

definition stored_payload :: "transfer_store \<Rightarrow> string \<Rightarrow> transfer_session \<Rightarrow> (diagnostic, bytes) result" where
  "stored_payload st i session = (case st_file st (ts_path session) of
       None \<Rightarrow> reject ''TRANSFER_PAYLOAD_UNAVAILABLE'' ''adapter transfer payload is not available on the server''
         [(''transfer_id'', J_str i)]
     | Some content \<Rightarrow>
         (let compression = (case ts_compression session of Some (c # t) \<Rightarrow> c # t | _ \<Rightarrow> ''identity'') in
          if compression = ''gzip'' then (case st_gunzip st content of None \<Rightarrow> transfer_failed i | Some b \<Rightarrow> Inr b)
          else if compression = ''identity'' then Inr content
          else reject ''UNSUPPORTED_TRANSFER_COMPRESSION'' ''adapter transfer compression is not supported''
            [(''transfer_id'', J_str i), (''compression'', J_str compression)]))"

definition read_reference ::
  "transfer_store \<Rightarrow> string \<Rightarrow> string option \<Rightarrow> string option \<Rightarrow>
   (diagnostic, bytes \<times> string option \<times> string option) result" where
  "read_reference st i filename media_type = (case st_session st i of
       None \<Rightarrow> transfer_failed i
     | Some session \<Rightarrow>
         if ts_direction session \<noteq> Some ''upload''
         then reject ''INVALID_TRANSFER_REFERENCE'' ''adapter transfer reference must point to an upload session''
           [(''transfer_id'', J_str i)]
         else if ts_status session \<noteq> Some ''uploaded''
         then reject ''INCOMPLETE_TRANSFER'' ''adapter transfer is not complete''
           [(''transfer_id'', J_str i), (''status'', case ts_status session of None \<Rightarrow> J_null | Some t \<Rightarrow> J_str t)]
         else bind_result (stored_payload st i session) (\<lambda>payload.
           Inr (payload, (case filename of Some t \<Rightarrow> Some t
             | None \<Rightarrow> (case ts_filename session of Some (c # t) \<Rightarrow> Some (c # t) | _ \<Rightarrow> None)), media_type)))"

text \<open>\<open>_read_transferred_file\<close>\<close>

definition read_transferred ::
  "transfer_store \<Rightarrow> transferred \<Rightarrow> (diagnostic, bytes \<times> string option \<times> string option) result" where
  "read_transferred st file_value = (case file_value of
       Transfer_mapping d \<Rightarrow>
         (let payload = (case map_of d ''content'' of Some v \<Rightarrow> v | None \<Rightarrow> value_get d ''data'');
              filename = nonempty_str (value_or d ''filename'' ''name'');
              media_type = nonempty_str (value_or d ''media_type'' ''content_type'')
          in case (payload, nonempty_str (value_get d ''transfer_id'')) of
              (Json_value J_null, Some i) \<Rightarrow> read_reference st i filename media_type
            | _ \<Rightarrow> bind_result (payload_bytes payload) (\<lambda>b. Inr (b, filename, media_type)))
     | Transfer_object t \<Rightarrow>
         bind_result (payload_bytes (to_payload t)) (\<lambda>b.
           Inr (b, (case to_filename t of None \<Rightarrow> None | Some v \<Rightarrow> nonempty_str v),
             (case to_media_type t of None \<Rightarrow> None | Some v \<Rightarrow> nonempty_str v))))"

section \<open>Choosing the filter\<close>

definition text_filter :: format_filter where
  "text_filter = \<lparr>ff_name = ''plain_text'', ff_media_types = [''text/plain''],
     ff_extensions = [''.txt'', ''.text'', ''.md'', ''.markdown''], ff_apply = None\<rparr>"

definition apply_filter ::
  "(bytes \<Rightarrow> string option) \<Rightarrow> format_filter \<Rightarrow> bytes \<Rightarrow> source_metadata \<Rightarrow> string option" where
  "apply_filter decode f payload metadata =
     (case ff_apply f of None \<Rightarrow> decode payload | Some g \<Rightarrow> g payload metadata)"

definition filters_for_media :: "(string \<times> format_filter) list \<Rightarrow> string option \<Rightarrow> format_filter list" where
  "filters_for_media filters media_type = (case media_type of
       Some (c # t) \<Rightarrow> filter (\<lambda>f. List.member (ff_media_types f) (py_lower (c # t))) (map snd filters)
     | _ \<Rightarrow> [])"

definition filters_for_extension :: "(string \<times> format_filter) list \<Rightarrow> string option \<Rightarrow> format_filter list" where
  "filters_for_extension filters filename = (case filename of
       None \<Rightarrow> []
     | Some name \<Rightarrow> if CHR ''.'' \<notin> set name then []
         else filter (\<lambda>f. List.member (ff_extensions f)
           (CHR ''.'' # py_lower (rev (takeWhile (\<lambda>c. c \<noteq> CHR ''.'') (rev name))))) (map snd filters))"

definition sorted_strings :: "string list \<Rightarrow> json" where
  "sorted_strings xs = J_list (map J_str (sort xs))"

definition select_filter ::
  "(string \<times> format_filter) list \<Rightarrow> string option \<Rightarrow> string option \<Rightarrow> string option \<Rightarrow> (diagnostic, format_filter) result" where
  "select_filter filters hint media_type filename =
     (let hinted = (case hint of Some (c # t) \<Rightarrow> map_of filters (c # t) | _ \<Rightarrow> None);
          candidates = (case hinted of None \<Rightarrow> [] | Some f \<Rightarrow> [f]) @ filters_for_media filters media_type @
            filters_for_extension filters filename;
          names = dict_fromkeys (map ff_name candidates)
      in if hint \<noteq> None \<and> hint \<noteq> Some [] \<and> hinted = None
         then reject ''UNSUPPORTED_FORMAT_HINT'' ''trusted format hint is not supported''
           [(''hint'', J_str (the hint)), (''supported'', sorted_strings (map fst filters))]
         else if candidates = []
         then reject ''UNSUPPORTED_SOURCE_FORMAT'' ''no supported format filter matched source metadata''
           [(''media_type'', case media_type of None \<Rightarrow> J_null | Some t \<Rightarrow> J_str t),
            (''filename'', case filename of None \<Rightarrow> J_null | Some t \<Rightarrow> J_str t)]
         else if 1 < length names
         then reject ''CONFLICTING_FORMAT_FILTERS'' ''source metadata selects conflicting format filters''
           [(''filters'', sorted_strings names)]
         else Inr (hd candidates))"

section \<open>Identities\<close>

definition name_space_key :: "string \<Rightarrow> string" where
  "name_space_key t = ''doc-store:document:'' @ t"

definition document_uuid :: "(string \<Rightarrow> uuid) \<Rightarrow> document_ref \<Rightarrow> source_metadata \<Rightarrow> uuid" where
  "document_uuid uuid5 ref metadata = (case ref of
       Ref_uuid i \<Rightarrow> i
     | Ref_text t \<Rightarrow> if py_strip t \<noteq> []
         then (case uuid_of_string t of Some i \<Rightarrow> i | None \<Rightarrow> uuid5 (name_space_key t))
         else uuid5 (name_space_key (case sm_filename metadata of Some (c # n) \<Rightarrow> c # n | _ \<Rightarrow> sm_sha metadata))
     | Ref_none \<Rightarrow> uuid5 (name_space_key (case sm_filename metadata of Some (c # n) \<Rightarrow> c # n | _ \<Rightarrow> sm_sha metadata)))"

definition source_version_id :: "(bytes \<Rightarrow> string) \<Rightarrow> uuid \<Rightarrow> string \<Rightarrow> string \<Rightarrow> string \<Rightarrow> string \<Rightarrow> string" where
  "source_version_id sha document source_hash profile filter_name preset =
     sha (utf8 (joined ''|'' [uuid_str document, source_hash, profile, filter_name, preset]))"

section \<open>Normalization\<close>

record normalize_call =
  nc_text :: "string option"
  nc_file :: "transferred option"
  nc_document :: document_ref
  nc_hint :: "string option"
  nc_media_type :: "string option"
  nc_filename :: "string option"
  nc_profile :: string
  nc_preset :: "string option"
  nc_filters :: "(string \<times> format_filter) list"
  nc_max :: int

definition first_str :: "string option \<Rightarrow> string option \<Rightarrow> string option" where
  "first_str a b = (case a of Some (c # t) \<Rightarrow> Some (c # t) | _ \<Rightarrow> b)"

definition metadata_of :: "normalizer \<Rightarrow> string \<Rightarrow> string option \<Rightarrow> string option \<Rightarrow> bytes \<Rightarrow> source_metadata" where
  "metadata_of nz kind filename media_type content =
     \<lparr>sm_kind = kind, sm_filename = filename, sm_media_type = media_type, sm_length = length content, sm_sha = nz_sha nz content\<rparr>"

definition guessed :: "normalizer \<Rightarrow> string option \<Rightarrow> string option" where
  "guessed nz filename = (case filename of Some (c # t) \<Rightarrow> nz_guess nz (c # t) | _ \<Rightarrow> None)"

definition source_of :: "normalizer \<Rightarrow> normalize_call \<Rightarrow> (diagnostic, bytes \<times> source_metadata) result" where
  "source_of nz c = (case nc_text c of
       Some t \<Rightarrow> Inr (utf8 t, metadata_of nz ''raw_text'' (nc_filename c)
         (Some (case nc_media_type c of Some (m # ms) \<Rightarrow> m # ms | _ \<Rightarrow> ''text/plain'')) (utf8 t))
     | None \<Rightarrow> (case nc_file c of
           None \<Rightarrow> reject ''MISSING_TRANSFER'' ''transferred file is missing'' []
         | Some f \<Rightarrow> bind_result (read_transferred (nz_store nz) f) (\<lambda>(content, name, media_type).
             let filename = first_str (nc_filename c) name in
             Inr (content, metadata_of nz ''transferred_file'' filename
               (first_str (nc_media_type c) (first_str media_type (guessed nz filename))) content))))"

definition default_chunk_preset :: string where
  "default_chunk_preset = ''technical_text''"

definition chosen_preset :: "normalize_call \<Rightarrow> string" where
  "chosen_preset c = (case nc_preset c of Some (p # ps) \<Rightarrow> p # ps | _ \<Rightarrow> default_chunk_preset)"

definition chosen_filters :: "normalize_call \<Rightarrow> (string \<times> format_filter) list" where
  "chosen_filters c = (if nc_filters c = [] then [(''plain_text'', text_filter)] else nc_filters c)"

definition normalize_source :: "normalizer \<Rightarrow> normalize_call \<Rightarrow> (diagnostic, normalized_request) result" where
  "normalize_source nz c =
     (if (nc_text c = None) = (nc_file c = None)
      then reject ''INVALID_SOURCE_COUNT'' ''provide exactly one of raw_text or transferred_file''
        [(''raw_text'', J_bool (nc_text c \<noteq> None)), (''transferred_file'', J_bool (nc_file c \<noteq> None))]
      else if nc_max c \<le> 0 then reject ''INVALID_LIMIT'' ''max_source_bytes must be positive'' []
      else bind_result (source_of nz c) (\<lambda>(content, metadata).
        if content = [] then reject ''EMPTY_SOURCE'' ''source content is empty'' []
        else if nc_max c < int (length content)
        then reject ''SOURCE_TOO_LARGE'' ''source content exceeds max_source_bytes''
          [(''byte_length'', J_int (int (length content))), (''max_source_bytes'', J_int (nc_max c))]
        else bind_result (select_filter (chosen_filters c) (nc_hint c) (sm_media_type metadata) (sm_filename metadata)) (\<lambda>f.
          case apply_filter (nz_decode nz) f content metadata of
            None \<Rightarrow> reject ''FILTER_FAILED'' ''format filter failed'' [(''filter'', J_str (ff_name f))]
          | Some t \<Rightarrow>
              if py_strip t = []
              then reject ''EMPTY_NORMALIZED_TEXT'' ''normalized text is empty'' [(''filter'', J_str (ff_name f))]
              else let document = document_uuid (nz_uuid5 nz) (nc_document c) metadata in
                Inr \<lparr>nr_document = document,
                  nr_version = source_version_id (nz_sha nz) document (sm_sha metadata) (nc_profile c) (ff_name f) (chosen_preset c),
                  nr_text = t, nr_metadata = metadata, nr_filter = ff_name f, nr_profile = nc_profile c,
                  nr_preset = chosen_preset c\<rparr>)))"

section \<open>Accepted sources\<close>

lemma select_filter_member:
  assumes "select_filter filters hint media_type filename = Inr f"
  shows "f \<in> set (map snd filters)"
proof -
  let ?hinted = "case hint of Some (c # t) \<Rightarrow> map_of filters (c # t) | _ \<Rightarrow> None"
  let ?candidates = "(case ?hinted of None \<Rightarrow> [] | Some f \<Rightarrow> [f]) @ filters_for_media filters media_type @
    filters_for_extension filters filename"
  from assms have "f = hd ?candidates" "?candidates \<noteq> []"
    by (auto simp: select_filter_def Let_def reject_def split: if_splits)
  then have "f \<in> set ?candidates" by (metis hd_in_set)
  moreover have "?hinted = Some g \<Longrightarrow> g \<in> set (map snd filters)" for g
    by (auto split: option.splits list.splits dest: map_of_SomeD intro: rev_image_eqI)
  ultimately show ?thesis
    by (auto simp: filters_for_media_def filters_for_extension_def split: option.splits list.splits if_splits)
qed

lemma default_filter:
  assumes "nc_filters c = []" "select_filter (chosen_filters c) hint media_type filename = Inr f"
  shows "f = text_filter"
  using select_filter_member [OF assms(2)] assms(1) by (simp add: chosen_filters_def)

text \<open>What an accepted source is: its bytes, its filter, the text they denote, and the identities.\<close>

lemma normalize_accepted:
  assumes "normalize_source nz c = Inr r"
  obtains content f where "source_of nz c = Inr (content, nr_metadata r)" "content \<noteq> []" "int (length content) \<le> nc_max c"
    "select_filter (chosen_filters c) (nc_hint c) (sm_media_type (nr_metadata r)) (sm_filename (nr_metadata r)) = Inr f"
    "apply_filter (nz_decode nz) f content (nr_metadata r) = Some (nr_text r)" "py_strip (nr_text r) \<noteq> []"
    "nr_document r = document_uuid (nz_uuid5 nz) (nc_document c) (nr_metadata r)"
    "nr_version r = source_version_id (nz_sha nz) (nr_document r) (sm_sha (nr_metadata r)) (nc_profile c) (ff_name f) (chosen_preset c)"
  using assms
  by (auto simp: normalize_source_def reject_def Let_def split: if_splits option.splits)

lemma source_described:
  assumes "source_of nz c = Inr (content, metadata)"
  shows "sm_sha metadata = nz_sha nz content \<and> sm_length metadata = length content"
  using assms by (auto simp: source_of_def metadata_of_def reject_def Let_def split: option.splits)

lemma text_bytes: "nc_text c = Some t \<Longrightarrow> source_of nz c = Inr (content, metadata) \<Longrightarrow> content = utf8 t"
  by (auto simp: source_of_def)

lemma raw_text_source:
  assumes "nc_text c = Some t" "normalize_source nz c = Inr r" "nc_filters c = []" "nz_decode nz (utf8 t) = Some t"
  shows "nr_text r = t \<and> sm_sha (nr_metadata r) = nz_sha nz (utf8 t)"
proof -
  from assms(2) obtain content f where c: "source_of nz c = Inr (content, nr_metadata r)"
    "select_filter (chosen_filters c) (nc_hint c) (sm_media_type (nr_metadata r)) (sm_filename (nr_metadata r)) = Inr f"
    "apply_filter (nz_decode nz) f content (nr_metadata r) = Some (nr_text r)"
    by (rule normalize_accepted) blast
  from default_filter [OF assms(3) c(2)] c(3) text_bytes [OF assms(1) c(1)] assms(4) source_described [OF c(1)]
  show ?thesis by (auto simp: apply_filter_def text_filter_def)
qed

definition denotes :: "document_ref \<Rightarrow> uuid \<Rightarrow> bool" where
  "denotes ref d \<longleftrightarrow> (case ref of Ref_uuid i \<Rightarrow> i = d
     | Ref_text t \<Rightarrow> py_strip t \<noteq> [] \<and> uuid_of_string t = Some d | Ref_none \<Rightarrow> False)"

lemma denoted_document: "denotes ref d \<Longrightarrow> document_uuid uuid5 ref metadata = d"
  by (auto simp: denotes_def document_uuid_def split: document_ref.splits)

text \<open>
  A text sent as it is and the same text sent as a file are the same source: the same text, digest and
  derived version, whatever the name and the media type of the file are.
\<close>

theorem text_and_file_same_source:
  assumes "normalize_source nz ct = Inr rt" "nc_text ct = Some t" "normalize_source nz cf = Inr rf" "nc_file cf = Some f"
    and "read_transferred (nz_store nz) f = Inr (utf8 t, name, media_type)" "nc_filters ct = []" "nc_filters cf = []"
    and "denotes (nc_document ct) d" "denotes (nc_document cf) d"
    and "nc_profile ct = nc_profile cf" "chosen_preset ct = chosen_preset cf"
  shows "nr_text rt = nr_text rf \<and> nr_document rt = nr_document rf \<and> nr_version rt = nr_version rf \<and>
    sm_sha (nr_metadata rt) = sm_sha (nr_metadata rf) \<and> sm_length (nr_metadata rt) = sm_length (nr_metadata rf)"
proof -
  from assms(3) assms(4) have "nc_text cf = None"
    by (auto simp: normalize_source_def reject_def split: if_splits)
  with assms(4,5) have bytes: "source_of nz cf = Inr (content, metadata) \<Longrightarrow> content = utf8 t" for content metadata
    by (auto simp: source_of_def Let_def)
  from assms(1) obtain ct' ft where t: "source_of nz ct = Inr (ct', nr_metadata rt)"
    "select_filter (chosen_filters ct) (nc_hint ct) (sm_media_type (nr_metadata rt)) (sm_filename (nr_metadata rt)) = Inr ft"
    "apply_filter (nz_decode nz) ft ct' (nr_metadata rt) = Some (nr_text rt)"
    "nr_document rt = document_uuid (nz_uuid5 nz) (nc_document ct) (nr_metadata rt)"
    "nr_version rt = source_version_id (nz_sha nz) (nr_document rt) (sm_sha (nr_metadata rt)) (nc_profile ct) (ff_name ft) (chosen_preset ct)"
    by (rule normalize_accepted) blast
  from assms(3) obtain cf' ff where f: "source_of nz cf = Inr (cf', nr_metadata rf)"
    "select_filter (chosen_filters cf) (nc_hint cf) (sm_media_type (nr_metadata rf)) (sm_filename (nr_metadata rf)) = Inr ff"
    "apply_filter (nz_decode nz) ff cf' (nr_metadata rf) = Some (nr_text rf)"
    "nr_document rf = document_uuid (nz_uuid5 nz) (nc_document cf) (nr_metadata rf)"
    "nr_version rf = source_version_id (nz_sha nz) (nr_document rf) (sm_sha (nr_metadata rf)) (nc_profile cf) (ff_name ff) (chosen_preset cf)"
    by (rule normalize_accepted) blast
  have "ct' = utf8 t" "cf' = utf8 t" using text_bytes [OF assms(2) t(1)] bytes [OF f(1)] by simp_all
  moreover have "ft = text_filter" "ff = text_filter"
    using default_filter [OF assms(6) t(2)] default_filter [OF assms(7) f(2)] by simp_all
  moreover have "nr_document rt = d" "nr_document rf = d" using t(4) f(4) assms(8,9) by (simp_all add: denoted_document)
  ultimately show ?thesis
    using t(3,5) f(3,5) source_described [OF t(1)] source_described [OF f(1)] assms(10,11)
    by (simp add: apply_filter_def text_filter_def)
qed

text \<open>An instance: the text \<open>ab\<close> and the file \<open>a.md\<close> with its bytes.\<close>

definition sample_normalizer :: normalizer where
  "sample_normalizer = \<lparr>nz_decode = (\<lambda>b. Some (map char_of b)), nz_sha = (\<lambda>b. nat_digits (length b)), nz_uuid5 = (\<lambda>_. 1),
     nz_guess = (\<lambda>_. None), nz_store = \<lparr>st_session = (\<lambda>_. None), st_file = (\<lambda>_. None), st_gunzip = Some\<rparr>\<rparr>"

definition sample_source :: "string option \<Rightarrow> transferred option \<Rightarrow> normalize_call" where
  "sample_source t f = \<lparr>nc_text = t, nc_file = f, nc_document = Ref_uuid 7, nc_hint = None, nc_media_type = None,
     nc_filename = None, nc_profile = ''default'', nc_preset = None, nc_filters = [], nc_max = 100\<rparr>"

definition sample_file :: transferred where
  "sample_file = Transfer_mapping [(''content'', Bytes_value [97, 98]), (''filename'', Json_value (J_str ''a.md''))]"

lemmas sample_defs = sample_normalizer_def sample_source_def sample_file_def normalize_source_def source_of_def
  metadata_of_def read_transferred_def payload_bytes_def nonempty_str_def value_or_def value_get_def truthy_def
  select_filter_def chosen_filters_def filters_for_media_def filters_for_extension_def text_filter_def apply_filter_def
  py_lower_def py_strip_def py_space_def utf8_def utf8_char_def guessed_def first_str_def dict_fromkeys_def

lemma sample_accepted:
  "\<exists>r. normalize_source sample_normalizer (sample_source (Some ''ab'') None) = Inr r"
  "\<exists>r. normalize_source sample_normalizer (sample_source None (Some sample_file)) = Inr r"
  by (simp_all add: sample_defs Let_def)

theorem text_and_file_same_source_witness:
  "\<exists>rt rf. normalize_source sample_normalizer (sample_source (Some ''ab'') None) = Inr rt \<and>
    normalize_source sample_normalizer (sample_source None (Some sample_file)) = Inr rf \<and> nr_text rt = nr_text rf"
proof -
  obtain rt where rt: "normalize_source sample_normalizer (sample_source (Some ''ab'') None) = Inr rt"
    using sample_accepted(1) by blast
  obtain rf where rf: "normalize_source sample_normalizer (sample_source None (Some sample_file)) = Inr rf"
    using sample_accepted(2) by blast
  have "nr_text rt = nr_text rf"
    by (rule text_and_file_same_source [OF rt _ rf, of "''ab''" sample_file "Some ''a.md''" None 7, THEN conjunct1])
      (simp_all add: sample_defs denotes_def chosen_preset_def Let_def)
  with rt rf show ?thesis by blast
qed

end
