(* ===== verification/Hierarchy_Enrichment.thy ===== *)
theory Hierarchy_Enrichment
  imports Publication
begin

text \<open>
  The canonical hierarchy of one source version (\<open>ingestion/hierarchy_enrichment.py\<close>, \<open>domain/semantic_chunk.py\<close>,
  \<open>domain/models.py\<close> and \<open>_canonical_aggregate\<close> of \<open>ingestion/runtime_boundary.py\<close>): chapters, paragraphs and
  chunks at checked ranges, with the source every one of them comes from.

  The class \<open>SemanticChunk\<close> is not part of the repository. A chunk is what its serialiser prints;
  \<open>factory\<close> is \<open>from_dict_with_autofill_and_validation\<close> followed by it, \<open>None\<close> where it raises.
  \<open>fresh n\<close> is the answer of the \<open>n\<close>-th call of \<open>uuid4()\<close>.
\<close>

section \<open>Hierarchy and traceability\<close>

type_synonym chunk_factory = "json_dict \<Rightarrow> json_dict option"

datatype enrichment_error =
    Enrichment_refused string | Chunk_refused string | Wrong_type string | Adapter_refused

type_synonym 'a draws = "(nat, enrichment_error, 'a) tx"

record chapter_node =
  cn_id :: uuid
  cn_document :: uuid

record paragraph_node =
  pn_id :: uuid
  pn_chapter :: uuid
  pn_text :: string

record chunk_spec =
  cs_body :: string
  cs_start :: int
  cs_end :: int
  cs_uuid :: "uuid option"
  cs_ordinal :: "int option"

record paragraph_input =
  pi_text :: string
  pi_start :: int
  pi_end :: int
  pi_indexes :: "int list"

record chapter_input =
  ci_paragraphs :: "paragraph_input list"
  ci_start :: int
  ci_end :: int

record provenance =
  pv_upload :: uuid
  pv_version :: stated_version
  pv_state :: "uuid option"
  pv_run :: "uuid option"

record version_trace =
  vt_upload :: uuid
  vt_version :: stated_version
  vt_document :: uuid
  vt_chapters :: "uuid list"
  vt_paragraphs :: "uuid list"
  vt_chunks :: "uuid list"
  vt_source :: "(uuid \<times> uuid \<times> stated_version) list"
  vt_state :: "uuid option"
  vt_run :: "uuid option"
  vt_provenance :: "(uuid \<times> provenance) list"

record aggregate =
  ag_document :: uuid
  ag_chapters :: "chapter_node list"
  ag_paragraphs :: "paragraph_node list"
  ag_chunks :: "json_dict list"
  ag_trace :: version_trace

definition draw_uuid4 :: "(nat \<Rightarrow> uuid) \<Rightarrow> uuid draws" where
  "draw_uuid4 fresh = (\<lambda>n. Inr (fresh n, Suc n))"

text \<open>An integer attribute; \<open>isinstance(True, int)\<close> holds.\<close>

definition json_int :: "json \<Rightarrow> int option" where
  "json_int v = (case v of J_int n \<Rightarrow> Some n | J_bool b \<Rightarrow> Some (if b then 1 else 0) | _ \<Rightarrow> None)"

section \<open>Chunks of one paragraph\<close>

text \<open>\<open>_uuid4\<close> and \<open>_validate_uuid4\<close>\<close>

definition require_uuid4 :: "string \<Rightarrow> uuid \<Rightarrow> (enrichment_error, string) result" where
  "require_uuid4 label u = (if uuid_version u = Some 4 then Inr (uuid_str u)
     else Inl (Chunk_refused (label @ '' must be a UUID version 4 value'')))"

definition validate_hierarchy ::
  "uuid \<Rightarrow> chapter_node \<Rightarrow> paragraph_node \<Rightarrow> (enrichment_error, unit) result" where
  "validate_hierarchy d c p =
     bind_result (require_uuid4 ''Document.id'' d) (\<lambda>_.
     bind_result (require_uuid4 ''Chapter.id'' (cn_id c)) (\<lambda>_.
     bind_result (require_uuid4 ''Paragraph.id'' (pn_id p)) (\<lambda>_.
       if cn_document c \<noteq> d then Inl (Chunk_refused ''Chapter must belong to the supplied Document'')
       else if pn_chapter p \<noteq> cn_id c then Inl (Chunk_refused ''Paragraph must belong to the supplied Chapter'')
       else Inr ())))"

definition chunk_payload :: "uuid \<Rightarrow> uuid \<Rightarrow> uuid \<Rightarrow> nat \<Rightarrow> chunk_spec \<Rightarrow> uuid \<Rightarrow> json_dict" where
  "chunk_payload d c p i spec u =
     [(''uuid'', J_str (uuid_str u)), (''source_id'', J_str (uuid_str d)), (''block_id'', J_str (uuid_str p)),
      (''body'', J_str (cs_body spec)), (''text'', J_str (cs_body spec)), (''type'', J_str ''DocBlock''),
      (''block_type'', J_str ''paragraph''), (''ordinal'', J_int (int i)), (''block_index'', J_int (int i)),
      (''start'', J_int (cs_start spec)), (''end'', J_int (cs_end spec)),
      (''block_meta'', J_object [(''chapter_id'', J_str (uuid_str c))])]"

fun build_chunks ::
  "(nat \<Rightarrow> uuid) \<Rightarrow> chunk_factory \<Rightarrow> uuid \<Rightarrow> uuid \<Rightarrow> uuid \<Rightarrow> nat \<Rightarrow> uuid list \<Rightarrow> int \<Rightarrow> chunk_spec list \<Rightarrow> json_dict list draws" where
  "build_chunks fresh factory d c p i seen previous [] = tx_return []"
| "build_chunks fresh factory d c p i seen previous (spec # specs) =
     (if cs_body spec = [] then tx_raise (Chunk_refused ''chunk body must be a non-empty string'')
      else if cs_start spec < 0 \<or> cs_end spec \<le> cs_start spec
      then tx_raise (Chunk_refused ''chunk range must satisfy 0 <= start < end'')
      else if cs_start spec < previous then tx_raise (Chunk_refused ''chunk ranges must be ordered and non-overlapping'')
      else if cs_ordinal spec \<noteq> None \<and> cs_ordinal spec \<noteq> Some (int i)
      then tx_raise (Chunk_refused ''chunk ordinals must match stable input order'')
      else tx_bind (case cs_uuid spec of Some u \<Rightarrow> tx_return u | None \<Rightarrow> draw_uuid4 fresh) (\<lambda>u.
        tx_bind (tx_lift (require_uuid4 ''SemanticChunk.uuid'' u)) (\<lambda>_.
          if List.member seen u then tx_raise (Chunk_refused ''each chunk must have a distinct UUID4'')
          else case factory (chunk_payload d c p i spec u) of
            None \<Rightarrow> tx_raise Adapter_refused
          | Some x \<Rightarrow> tx_bind (build_chunks fresh factory d c p (Suc i) (u # seen) (cs_end spec) specs) (\<lambda>xs.
              tx_return (x # xs)))))"

fun validate_chunks :: "uuid \<Rightarrow> uuid \<Rightarrow> uuid \<Rightarrow> nat \<Rightarrow> uuid list \<Rightarrow> int \<Rightarrow> json_dict list \<Rightarrow> (enrichment_error, unit) result" where
  "validate_chunks d c p i seen previous [] = Inr ()"
| "validate_chunks d c p i seen previous (x # xs) =
     (if json_get x ''source_id'' \<noteq> J_str (uuid_str d)
      then Inl (Chunk_refused ''SemanticChunk.source_id must equal Document.id'')
      else if json_get x ''block_id'' \<noteq> J_str (uuid_str p)
      then Inl (Chunk_refused ''SemanticChunk.block_id must equal Paragraph.id'')
      else if \<not> (case json_get x ''block_meta'' of J_object m \<Rightarrow> json_get m ''chapter_id'' = J_str (uuid_str c) | _ \<Rightarrow> False)
      then Inl (Chunk_refused ''SemanticChunk.block_meta.chapter_id must equal Chapter.id'')
      else case uuid_of_string (json_str (json_get x ''uuid'')) of
        None \<Rightarrow> Inl (Chunk_refused ''badly formed hexadecimal UUID string'')
      | Some u \<Rightarrow> bind_result (require_uuid4 ''SemanticChunk.uuid'' u) (\<lambda>_.
          if List.member seen u then Inl (Chunk_refused ''each chunk must have a distinct UUID4'')
          else if json_int (json_get x ''ordinal'') \<noteq> Some (int i) \<or> json_int (json_get x ''block_index'') \<noteq> Some (int i)
          then Inl (Chunk_refused ''chunk order metadata must match stable input order'')
          else case (json_int (json_get x ''start''), json_int (json_get x ''end'')) of
            (Some s, Some e) \<Rightarrow>
              if e \<le> s then Inl (Chunk_refused ''chunk range must satisfy start < end'')
              else if s < previous then Inl (Chunk_refused ''chunk ranges must be ordered and non-overlapping'')
              else validate_chunks d c p (Suc i) (u # seen) e xs
          | _ \<Rightarrow> Inl (Chunk_refused ''chunk range must satisfy start < end'')))"

definition validate_semantic_chunks ::
  "uuid \<Rightarrow> chapter_node \<Rightarrow> paragraph_node \<Rightarrow> json_dict list \<Rightarrow> (enrichment_error, json_dict list) result" where
  "validate_semantic_chunks d c p xs =
     bind_result (validate_hierarchy d c p) (\<lambda>_.
       if xs = [] then Inl (Chunk_refused ''a Paragraph must produce at least one chunk'')
       else bind_result (validate_chunks d (cn_id c) (pn_id p) 0 [] (- 1) xs) (\<lambda>_. Inr xs))"

definition build_semantic_chunks ::
  "(nat \<Rightarrow> uuid) \<Rightarrow> chunk_factory \<Rightarrow> uuid \<Rightarrow> chapter_node \<Rightarrow> paragraph_node \<Rightarrow> chunk_spec list \<Rightarrow> json_dict list draws" where
  "build_semantic_chunks fresh factory d c p specs =
     tx_bind (tx_lift (validate_hierarchy d c p)) (\<lambda>_.
       if specs = [] then tx_raise (Chunk_refused ''a Paragraph must produce at least one chunk'')
       else tx_bind (build_chunks fresh factory d (cn_id c) (pn_id p) 0 [] (- 1) specs) (\<lambda>xs.
         tx_lift (validate_semantic_chunks d c p xs)))"

section \<open>The hierarchy\<close>

definition validate_range :: "string \<Rightarrow> int \<Rightarrow> int \<Rightarrow> (enrichment_error, unit) result" where
  "validate_range label s e = (if s < 0 \<or> e \<le> s then Inl (Enrichment_refused (label @ '' range must satisfy 0 <= start < end'')) else Inr ())"

definition validate_source :: "uuid \<Rightarrow> stated_version \<Rightarrow> (enrichment_error, unit) result" where
  "validate_source upload version =
     (if uuid_version upload \<noteq> Some 4 then Inl (Enrichment_refused ''source_upload_id must be a UUID version 4 value'')
      else case version of
        Stated_bool b \<Rightarrow> Inl (Wrong_type ''source_version must be a non-empty string or positive integer'')
      | Stated_text t \<Rightarrow> if py_strip t = [] then Inl (Enrichment_refused ''source_version must be non-empty or positive'') else Inr ()
      | Stated_int n \<Rightarrow> if n \<le> 0 then Inl (Enrichment_refused ''source_version must be non-empty or positive'') else Inr ())"

definition validate_provenance :: "uuid option \<Rightarrow> uuid option \<Rightarrow> (enrichment_error, unit) result" where
  "validate_provenance state run =
     (if (state = None) \<noteq> (run = None)
      then Inl (Enrichment_refused ''source_state_assertion_id and processing_run_id must be given together'')
      else if state \<noteq> None \<and> uuid_version (the state) \<noteq> Some 4
      then Inl (Enrichment_refused ''source_state_assertion_id must be a UUID version 4 value'')
      else if run \<noteq> None \<and> uuid_version (the run) \<noteq> Some 4
      then Inl (Enrichment_refused ''processing_run_id must be a UUID version 4 value'') else Inr ())"

text \<open>The specifications of the chunks a paragraph owns, numbered in their order.\<close>

fun chunk_specs :: "json_dict list \<Rightarrow> paragraph_input \<Rightarrow> nat \<Rightarrow> int list \<Rightarrow> (enrichment_error, chunk_spec list) result" where
  "chunk_specs chunks p k [] = Inr []"
| "chunk_specs chunks p k (i # is) =
     (case (json_get (chunks ! nat i) ''body'', json_int (json_get (chunks ! nat i) ''start''),
            json_int (json_get (chunks ! nat i) ''end'')) of
        (J_str body, Some s, Some e) \<Rightarrow>
          if s < pi_start p \<or> pi_end p < e then Inl (Enrichment_refused ''chunk range must be within its paragraph'')
          else bind_result (chunk_specs chunks p (Suc k) is) (\<lambda>specs.
            Inr (\<lparr>cs_body = body, cs_start = s, cs_end = e, cs_uuid = None, cs_ordinal = Some (int k)\<rparr> # specs))
      | _ \<Rightarrow> Inl (Enrichment_refused ''chunk body and source range are required''))"

definition check_paragraph :: "json_dict list \<Rightarrow> chapter_input \<Rightarrow> int \<Rightarrow> paragraph_input \<Rightarrow> (enrichment_error, unit) result" where
  "check_paragraph chunks c previous p =
     bind_result (validate_range ''paragraph'' (pi_start p) (pi_end p)) (\<lambda>_.
       if pi_start p < ci_start c \<or> ci_end c < pi_end p
       then Inl (Enrichment_refused ''paragraph range must be within its chapter'')
       else if pi_start p < previous then Inl (Enrichment_refused ''paragraphs must be ordered and non-overlapping'')
       else if pi_text p = [] then Inl (Enrichment_refused ''paragraph text must be non-empty'')
       else if pi_indexes p = [] then Inl (Enrichment_refused ''paragraph chunk ownership must be explicit'')
       else if \<not> sorted_wrt (<) (pi_indexes p)
       then Inl (Enrichment_refused ''paragraph chunk indexes must be ordered and distinct'')
       else if list_ex (\<lambda>i. i < 0 \<or> int (length chunks) \<le> i) (pi_indexes p)
       then Inl (Enrichment_refused ''paragraph chunk index is out of range'') else Inr ())"

fun enrich_paragraphs ::
  "(nat \<Rightarrow> uuid) \<Rightarrow> chunk_factory \<Rightarrow> json_dict list \<Rightarrow> uuid \<Rightarrow> chapter_input \<Rightarrow> chapter_node \<Rightarrow> int \<Rightarrow> paragraph_input list
    \<Rightarrow> (paragraph_node \<times> json_dict list) list draws" where
  "enrich_paragraphs fresh factory chunks d c node previous [] = tx_return []"
| "enrich_paragraphs fresh factory chunks d c node previous (p # ps) =
     tx_bind (tx_lift (check_paragraph chunks c previous p)) (\<lambda>_.
     tx_bind (draw_uuid4 fresh) (\<lambda>u.
     tx_bind (tx_lift (chunk_specs chunks p 0 (pi_indexes p))) (\<lambda>specs.
     tx_bind (build_semantic_chunks fresh factory d node \<lparr>pn_id = u, pn_chapter = cn_id node, pn_text = pi_text p\<rparr> specs) (\<lambda>xs.
     tx_bind (enrich_paragraphs fresh factory chunks d c node (pi_end p) ps) (\<lambda>rest.
       tx_return ((\<lparr>pn_id = u, pn_chapter = cn_id node, pn_text = pi_text p\<rparr>, xs) # rest))))))"

fun enrich_chapters ::
  "(nat \<Rightarrow> uuid) \<Rightarrow> chunk_factory \<Rightarrow> json_dict list \<Rightarrow> uuid \<Rightarrow> int \<Rightarrow> chapter_input list
    \<Rightarrow> (chapter_node \<times> (paragraph_node \<times> json_dict list) list) list draws" where
  "enrich_chapters fresh factory chunks d previous [] = tx_return []"
| "enrich_chapters fresh factory chunks d previous (c # cs) =
     tx_bind (tx_lift (validate_range ''chapter'' (ci_start c) (ci_end c))) (\<lambda>_.
       if ci_start c < previous then tx_raise (Enrichment_refused ''chapters must be ordered and non-overlapping'')
       else if ci_paragraphs c = [] then tx_raise (Enrichment_refused ''each chapter must contain paragraphs'')
       else tx_bind (draw_uuid4 fresh) (\<lambda>u.
         let node = \<lparr>cn_id = u, cn_document = d\<rparr> in
         tx_bind (enrich_paragraphs fresh factory chunks d c node (- 1) (ci_paragraphs c)) (\<lambda>ps.
         tx_bind (enrich_chapters fresh factory chunks d (ci_end c) cs) (\<lambda>rest. tx_return ((node, ps) # rest)))))"

text \<open>The identifier of a produced chunk, which \<open>validate_semantic_chunks\<close> has parsed before.\<close>

definition stated_chunk_id :: "json_dict \<Rightarrow> uuid" where
  "stated_chunk_id x = (case uuid_of_string (json_str (json_get x ''uuid'')) of None \<Rightarrow> 0 | Some u \<Rightarrow> u)"

definition trace_of ::
  "uuid \<Rightarrow> stated_version \<Rightarrow> uuid option \<Rightarrow> uuid option \<Rightarrow> uuid \<Rightarrow> uuid list \<Rightarrow> uuid list \<Rightarrow> uuid list \<Rightarrow> version_trace" where
  "trace_of upload version state run d cs ps xs =
     (let ids = dict_fromkeys (d # cs @ ps @ xs) in
      \<lparr>vt_upload = upload, vt_version = version, vt_document = d, vt_chapters = cs, vt_paragraphs = ps, vt_chunks = xs,
       vt_source = map (\<lambda>i. (i, upload, version)) ids, vt_state = state, vt_run = run,
       vt_provenance = map (\<lambda>i. (i, \<lparr>pv_upload = upload, pv_version = version, pv_state = state, pv_run = run\<rparr>)) ids\<rparr>)"

definition enrich_hierarchy ::
  "(nat \<Rightarrow> uuid) \<Rightarrow> chunk_factory \<Rightarrow> uuid \<Rightarrow> stated_version \<Rightarrow> chapter_input list \<Rightarrow> json_dict list \<Rightarrow> uuid option \<Rightarrow> uuid option
    \<Rightarrow> aggregate draws" where
  "enrich_hierarchy fresh factory upload version chapters chunks state run =
     tx_bind (tx_lift (validate_source upload version)) (\<lambda>_.
     tx_bind (tx_lift (validate_provenance state run)) (\<lambda>_.
       if chunks = [] then tx_raise (Enrichment_refused ''semantic_chunks must not be empty'')
       else if chapters = [] then tx_raise (Enrichment_refused ''hierarchy must contain at least one chapter'')
       else tx_bind (draw_uuid4 fresh) (\<lambda>d.
         tx_bind (tx_lift (bind_result (require_uuid4 ''Document.id'' d) (\<lambda>_. Inr ()))) (\<lambda>_.
         tx_bind (enrich_chapters fresh factory chunks d (- 1) chapters) (\<lambda>built.
           if concat (map pi_indexes (concat (map ci_paragraphs chapters))) \<noteq> map int [0..<length chunks]
           then tx_raise (Enrichment_refused ''every chunk must have exactly one ordered paragraph owner'')
           else let paragraphs = concat (map snd built); produced = concat (map snd paragraphs) in
             tx_return \<lparr>ag_document = d, ag_chapters = map fst built, ag_paragraphs = map fst paragraphs, ag_chunks = produced,
               ag_trace = trace_of upload version state run d (map (cn_id \<circ> fst) built) (map (pn_id \<circ> fst) paragraphs)
                 (map stated_chunk_id produced)\<rparr>)))))"

section \<open>The aggregate of a request\<close>

datatype aggregate_error = No_sentences plan_error | Not_enriched enrichment_error

definition unit_payload :: "string \<Rightarrow> runtime_chunk \<Rightarrow> json_dict" where
  "unit_payload document_id c =
     [(''uuid'', J_str (uuid_str (c_uuid c))), (''source_id'', J_str document_id), (''type'', J_str ''DocBlock''),
      (''body'', J_str (c_text c)), (''text'', J_str (c_text c)), (''start'', J_int (c_start c)), (''end'', J_int (c_end c))]"

text \<open>The loop of \<open>_canonical_aggregate\<close>; \<open>n\<close> chunks are collected before.\<close>

fun owned_units ::
  "chunk_factory \<Rightarrow> string \<Rightarrow> runtime_chunk list \<Rightarrow> nat \<Rightarrow> runtime_chunk list
    \<Rightarrow> (aggregate_error, (paragraph_input \<times> json_dict list) list) result" where
  "owned_units factory document_id sentences n [] = Inr []"
| "owned_units factory document_id sentences n (p # ps) =
     bind_result (case sentence_chunks_for_paragraph p sentences of Inl e \<Rightarrow> Inl (No_sentences e) | Inr ss \<Rightarrow> Inr ss) (\<lambda>owned.
     bind_result (map_result (\<lambda>c. case factory (unit_payload document_id c) of
         None \<Rightarrow> Inl (Not_enriched Adapter_refused) | Some x \<Rightarrow> Inr x) owned) (\<lambda>xs.
     bind_result (owned_units factory document_id sentences (n + length owned) ps) (\<lambda>rest.
       Inr ((\<lparr>pi_text = c_text p, pi_start = c_start p, pi_end = c_end p,
         pi_indexes = map int [n..<n + length owned]\<rparr>, xs) # rest))))"

definition canonical_aggregate ::
  "(nat \<Rightarrow> uuid) \<Rightarrow> chunk_factory \<Rightarrow> request_context \<Rightarrow> runtime_chunk list \<Rightarrow> runtime_chunk list \<Rightarrow> nat
    \<Rightarrow> (aggregate_error, aggregate) result" where
  "canonical_aggregate fresh factory q paragraphs sentences n =
     bind_result (owned_units factory (uuid_str (q_document q)) sentences 0 paragraphs) (\<lambda>units.
       case enrich_hierarchy fresh factory (q_document q) (Stated_text (q_source_version q))
         [\<lparr>ci_paragraphs = map fst units, ci_start = c_start (hd paragraphs), ci_end = c_end (last paragraphs)\<rparr>]
         (concat (map snd units)) None None n of
         Inl e \<Rightarrow> Inl (Not_enriched e)
       | Inr (a, _) \<Rightarrow> Inr a)"

end
