(* ===== verification/Runtime_Status.thy ===== *)
theory Runtime_Status
  imports Publication
begin

text \<open>
  The status of ingestion operations: the process-local snapshots (\<open>InMemoryRuntimeStatus\<close> of
  \<open>ingestion/runtime_boundary.py\<close>) with their fallback on the stored documents, and the command that reads
  them (\<open>commands/processing_status_command.py\<close>).

  \<open>now\<close> is the printed time a call reads, \<open>rows\<close> what the database answers for \<open>documents\<close>, \<open>None\<close> when it
  raises.
\<close>

section \<open>Snapshots\<close>

record activity =
  av_operation :: string
  av_status :: json
  av_document :: json
  av_action :: json
  av_updated :: string

record runtime_status =
  rs_items :: "(string \<times> json_dict) list"
  rs_current :: "activity option"
  rs_last :: "activity option"
  rs_url :: "string option"

definition initial_status :: runtime_status where
  "initial_status = \<lparr>rs_items = [], rs_current = None, rs_last = None, rs_url = None\<rparr>"

definition configure_database :: "string option \<Rightarrow> runtime_status \<Rightarrow> runtime_status" where
  "configure_database url st = st\<lparr>rs_url := url\<rparr>"

definition activity_of :: "string \<Rightarrow> string \<Rightarrow> json_dict \<Rightarrow> activity" where
  "activity_of now op value =
     \<lparr>av_operation = op, av_status = json_get value ''status'', av_document = json_get value ''document_id'',
      av_action = (case json_get value ''worker'' of J_object worker \<Rightarrow> json_get worker ''action'' | _ \<Rightarrow> J_null),
      av_updated = now\<rparr>"

definition record_status :: "string \<Rightarrow> string \<Rightarrow> json_dict \<Rightarrow> runtime_status \<Rightarrow> runtime_status" where
  "record_status now op payload st =
     (let st = st\<lparr>rs_items := dict_set (rs_items st) op payload\<rparr>; snapshot = activity_of now op payload in
      if json_get payload ''status'' = J_str ''running'' then st\<lparr>rs_current := Some snapshot\<rparr>
      else let st = st\<lparr>rs_last := Some snapshot\<rparr> in
        case rs_current st of
          Some a \<Rightarrow> if av_operation a = op then st\<lparr>rs_current := None\<rparr> else st
        | None \<Rightarrow> st)"

definition status_snapshot :: "runtime_status \<Rightarrow> string \<times> activity option \<times> activity option" where
  "status_snapshot st = (if rs_current st \<noteq> None then ''running'' else ''idle'', rs_current st, rs_last st)"

section \<open>The stored documents\<close>

record status_row =
  dr_document :: uuid
  dr_version :: int
  dr_processing :: "string option"
  dr_meta :: json
  dr_created :: "instant option"
  dr_updated :: "instant option"

definition meta_field :: "(json \<Rightarrow> string) \<Rightarrow> json \<Rightarrow> string \<Rightarrow> string option" where
  "meta_field render meta key = (case meta of J_object d \<Rightarrow> json_field render d key | _ \<Rightarrow> None)"

text \<open>\<open>ORDER BY updated_at DESC NULLS LAST LIMIT 1\<close>; rows of the same time stay in the order of \<open>rows\<close>.\<close>

definition latest_row :: "status_row list \<Rightarrow> status_row option" where
  "latest_row rows = (case sort_key (\<lambda>r. case dr_updated r of None \<Rightarrow> (1::nat, 0) | Some t \<Rightarrow> (0, - t)) rows of
       [] \<Rightarrow> None | r # _ \<Rightarrow> Some r)"

definition matching_row ::
  "(json \<Rightarrow> string) \<Rightarrow> status_row list \<Rightarrow> string \<Rightarrow> string option \<Rightarrow> status_row option" where
  "matching_row render rows op document_id =
     latest_row (filter (\<lambda>r. meta_field render (dr_meta r) ''operation_id'' = Some op \<and>
       (case document_id of None \<Rightarrow> True | Some d \<Rightarrow> uuid_str (dr_document r) = d)) rows)"

definition status_timestamps :: "(instant \<Rightarrow> string) \<Rightarrow> status_row \<Rightarrow> json_dict" where
  "status_timestamps printed r =
     (case dr_created r of None \<Rightarrow> [] | Some t \<Rightarrow> [(''created_at'', J_str (printed t))]) @
     (case dr_updated r of None \<Rightarrow> [] | Some t \<Rightarrow> [(''updated_at'', J_str (printed t))])"

definition persisted_status :: "(instant \<Rightarrow> string) \<Rightarrow> status_row \<Rightarrow> json_dict" where
  "persisted_status printed r =
     (let status = (case dr_processing r of Some (c # t) \<Rightarrow> c # t | _ \<Rightarrow> ''draft'');
          document = J_str (uuid_str (dr_document r)); version = J_int (dr_version r);
          version_id = (case dr_meta r of J_object d \<Rightarrow> json_get d ''source_version_id'' | _ \<Rightarrow> J_null)
      in [(''status'', J_str status), (''progress'', if status = ''completed'' then J_int 100 else J_null),
          (''timestamps'', J_object (status_timestamps printed r)), (''document_id'', document),
          (''document_reference'', J_object [(''id'', document), (''source_version'', version)]),
          (''version_reference'', J_object ([(''document_id'', document), (''source_version'', version)] @
             (if json_true version_id then [(''source_version_id'', version_id)] else []))),
          (''failure'', J_null)])"

definition lookup_persisted_status ::
  "(json \<Rightarrow> string) \<Rightarrow> (instant \<Rightarrow> string) \<Rightarrow> status_row list option \<Rightarrow> runtime_status \<Rightarrow> string \<Rightarrow> string option
    \<Rightarrow> json_dict option" where
  "lookup_persisted_status render printed rows st op document_id = (case rs_url st of
       Some (_ # _) \<Rightarrow> (case rows of
           None \<Rightarrow> None
         | Some rs \<Rightarrow> map_option (persisted_status printed) (matching_row render rs op document_id))
     | _ \<Rightarrow> None)"

definition status_not_found :: json_dict where
  "status_not_found = [(''status'', J_str ''failed''), (''failure'', J_object
     [(''code'', J_str ''STATUS_NOT_FOUND''),
      (''message'', J_str ''operation status is not available in this server process'')])]"

definition get_status ::
  "(json \<Rightarrow> string) \<Rightarrow> (instant \<Rightarrow> string) \<Rightarrow> status_row list option \<Rightarrow> runtime_status \<Rightarrow> string \<Rightarrow> string option
    \<Rightarrow> json_dict" where
  "get_status render printed rows st op document_id =
     (let value = (case map_of (rs_items st) op of Some (e # es) \<Rightarrow> e # es
        | _ \<Rightarrow> (case lookup_persisted_status render printed rows st op document_id of
              Some (e # es) \<Rightarrow> e # es | _ \<Rightarrow> status_not_found))
      in case document_id of None \<Rightarrow> value | Some d \<Rightarrow> dict_set value ''document_id'' (J_str d))"

section \<open>The command\<close>

record command_result =
  cr_success :: bool
  cr_data :: json_dict
  cr_error :: "string option"

definition status_vocabulary :: "string list" where
  "status_vocabulary = [''pending'', ''running'', ''draft'', ''completed'', ''failed'', ''cancelled'']"

definition requested :: "string option \<Rightarrow> json_dict" where
  "requested document_id = (case document_id of None \<Rightarrow> [] | Some d \<Rightarrow> [(''requested_document_id'', J_str d)])"

definition status_failure :: "string \<Rightarrow> string \<Rightarrow> string \<Rightarrow> string option \<Rightarrow> string \<Rightarrow> command_result" where
  "status_failure op code message document_id error_type =
     \<lparr>cr_success = False,
      cr_data = [(''operation_id'', J_str op), (''status'', J_str ''failed''), (''progress'', J_null),
        (''timestamps'', J_object []), (''document_reference'', J_null), (''version_reference'', J_null),
        (''failure'', J_object ([(''code'', J_str code), (''message'', J_str message)] @
           (if error_type = [] then [] else [(''type'', J_str error_type)])))] @ requested document_id,
      cr_error = Some message\<rparr>"

text \<open>\<open>_project\<close>; the left value is the message of the \<open>ValueError\<close>.\<close>

definition project_status :: "json_dict \<Rightarrow> string \<Rightarrow> string option \<Rightarrow> (string, json_dict) result" where
  "project_status raw op document_id =
     (let status = json_get raw ''status''; returned = json_get raw ''document_id'' in
      if \<not> List.member (map J_str status_vocabulary) status then Inl (''unsupported status '' @ json_repr status)
      else if document_id \<noteq> None \<and> returned \<noteq> J_null \<and> Some (json_str returned) \<noteq> document_id
      then Inl ''status document_id does not match requested document_id''
      else Inr ([(''operation_id'', J_str op), (''status'', status), (''progress'', json_get raw ''progress''),
        (''timestamps'', if map_of raw ''timestamps'' = None then J_object [] else json_get raw ''timestamps''),
        (''document_reference'', json_get raw ''document_reference''),
        (''version_reference'', json_get raw ''version_reference''), (''failure'', json_get raw ''failure'')] @
        (if returned \<noteq> J_null then [(''document_id'', returned)] else []) @ requested document_id))"

definition blank :: "string option \<Rightarrow> bool" where
  "blank v = (case v of None \<Rightarrow> False | Some t \<Rightarrow> py_strip t = [])"

definition status_params :: "string \<Rightarrow> string option \<Rightarrow> (string, string option) result" where
  "status_params op document_id =
     (if blank (Some op) then Inl ''operation_id'' else if blank document_id then Inl ''document_id''
      else case document_id of
        None \<Rightarrow> Inr None
      | Some d \<Rightarrow> bind_result (parse_uuid4 (Id_text d) ''document_id'') (\<lambda>u. Inr (Some (uuid_str u))))"

definition lookup_code :: "string \<Rightarrow> string" where
  "lookup_code message =
     (if sublist ''does not match requested document_id'' message then ''INVALID_PARAMS''
      else if sublist ''unsupported status'' message then ''INVALID_STATUS'' else ''STATUS_LOOKUP_FAILED'')"

text \<open>The refused parameters carry the field they are about; the wording of the message is left out.\<close>

definition processing_status ::
  "(string \<Rightarrow> string option \<Rightarrow> json_dict) option \<Rightarrow> string \<Rightarrow> string option \<Rightarrow> command_result" where
  "processing_status entry op document_id = (case status_params op document_id of
       Inl field \<Rightarrow> status_failure op ''INVALID_PARAMS'' field document_id ''ValidationError''
     | Inr document \<Rightarrow> (case entry of
           None \<Rightarrow> status_failure op ''STATUS_LOOKUP_FAILED'' ''Ingestion runtime-status boundary is unavailable.'' None []
         | Some lookup \<Rightarrow> (case project_status (lookup op document) op document of
               Inl message \<Rightarrow> status_failure op (lookup_code message) message document ''ValueError''
             | Inr data \<Rightarrow> \<lparr>cr_success = True, cr_data = data, cr_error = None\<rparr>)))"

section \<open>What the command answers\<close>

lemma record_items: "map_of (rs_items (record_status now op payload st)) = (map_of (rs_items st))(op \<mapsto> payload)"
  by (auto simp: record_status_def Let_def fun_eq_iff split: option.splits)

lemma status_record_current:
  "rs_current (record_status now op payload st) =
     (if json_get payload ''status'' = J_str ''running'' then Some (activity_of now op payload)
      else case rs_current st of Some a \<Rightarrow> if av_operation a = op then None else Some a | None \<Rightarrow> None)"
  by (simp add: record_status_def Let_def split: option.splits)

end
