(* ===== verification/Ingestion_Boundary.thy ===== *)
theory Ingestion_Boundary
  imports Source_Normalizer Hierarchy_Enrichment Runtime_Status
begin

text \<open>
  The call of the ingestion (\<open>RuntimeIngestionBoundary\<close> of \<open>ingestion/runtime_boundary.py\<close>): it records the
  operation as running, normalizes the source, resolves the chunking strategy, chunks, enriches, publishes
  and records how the operation ended; a rechunk reads the text of the stored paragraphs instead.

  An exception that no handler of the call catches is the end \<open>Escapes\<close>. The wording of chunker errors and
  of what a library raises is left out of a failure.
\<close>

section \<open>The service\<close>

text \<open>
  \<open>ie_chunk\<close> and \<open>ie_batch\<close> are the two calls of the runtime chunker, \<open>ie_factory\<close> the chunk class of the
  adapter, \<open>ie_fresh n\<close> the \<open>n\<close>-th \<open>uuid4()\<close>, \<open>ie_now n\<close> the \<open>n\<close>-th \<open>_utc_now()\<close>, \<open>ie_reachable\<close> whether
  the database answers; the others are the arguments of the publication.
\<close>

record ingestion_env =
  ie_sha :: "string \<Rightarrow> string"
  ie_render :: "json \<Rightarrow> string"
  ie_int10 :: "string \<Rightarrow> int option"
  ie_actor :: string
  ie_normalizer :: normalizer
  ie_chunk :: "string \<Rightarrow> string \<Rightarrow> string \<Rightarrow> (chunker_error, runtime_chunk list) result"
  ie_batch :: "string list \<Rightarrow> string \<Rightarrow> string list \<Rightarrow> (chunker_error, runtime_chunk list list) result"
  ie_factory :: chunk_factory
  ie_fresh :: "nat \<Rightarrow> uuid"
  ie_now :: "nat \<Rightarrow> string"
  ie_preview :: int
  ie_url :: "string option"
  ie_reachable :: bool

record ingestion_state =
  ig_db :: pub_db
  ig_status :: runtime_status
  ig_ticks :: nat
  ig_draws :: nat
  ig_errors :: "json_dict list"
  ig_texts :: "json_dict list"
  ig_files :: "json_dict list"

record ingestion_call =
  ic_document :: string
  ic_version :: string
  ic_operation :: string
  ic_command :: string
  ic_text :: "string option"
  ic_file :: "transferred option"
  ic_strategy :: "string option"

datatype call_end = Answers json_dict | Escapes

definition configured_url :: "ingestion_env \<Rightarrow> bool" where
  "configured_url env = (case ie_url env of Some (_ # _) \<Rightarrow> True | _ \<Rightarrow> False)"

definition note_status :: "ingestion_env \<Rightarrow> string \<Rightarrow> json_dict \<Rightarrow> ingestion_state \<Rightarrow> ingestion_state" where
  "note_status env op payload s =
     s\<lparr>ig_status := record_status (ie_now env (ig_ticks s)) op payload (ig_status s), ig_ticks := Suc (ig_ticks s)\<rparr>"

definition running_payload :: "ingestion_call \<Rightarrow> int \<Rightarrow> string \<Rightarrow> string \<Rightarrow> json_dict" where
  "running_payload c progress action started =
     [(''status'', J_str ''running''), (''progress'', J_int progress), (''document_id'', J_str (ic_document c)),
      (''worker'', J_object [(''action'', J_str action), (''command'', J_str (ic_command c))]),
      (''timestamps'', J_object [(''started_at'', J_str started)])]"

section \<open>Failures\<close>

definition failed_payload :: "string \<Rightarrow> string \<Rightarrow> string \<Rightarrow> json_dict \<Rightarrow> json_dict" where
  "failed_payload document_id started completed failure =
     [(''status'', J_str ''failed''), (''progress'', J_null), (''document_id'', J_str document_id),
      (''timestamps'', J_object [(''started_at'', J_str started), (''completed_at'', J_str completed)]),
      (''document_reference'', J_null), (''version_reference'', J_null), (''failure'', J_object failure),
      (''worker'', J_object [(''action'', J_str ''failed'')])]"

definition record_failed ::
  "ingestion_env \<Rightarrow> ingestion_call \<Rightarrow> string \<Rightarrow> json_dict \<Rightarrow> ingestion_state \<Rightarrow> call_end \<times> ingestion_state" where
  "record_failed env c started failure s =
     (let completed = ie_now env (ig_ticks s);
          s = note_status env (ic_operation c) (failed_payload (ic_document c) started completed failure) (s\<lparr>ig_ticks := Suc (ig_ticks s)\<rparr>)
      in (Answers [(''status'', J_str ''rolled_back''), (''failure'', J_object failure)],
          s\<lparr>ig_errors := ig_errors s @ [[(''operation_id'', J_str (ic_operation c)),
            (''document_id'', J_str (ic_document c)), (''failure'', J_object failure)]]\<rparr>))"

definition failure_dict :: "string \<Rightarrow> string \<Rightarrow> json_dict" where
  "failure_dict code message = [(''code'', J_str code), (''message'', J_str message)]"

definition not_configured :: json_dict where
  "not_configured = failure_dict ''DATABASE_NOT_CONFIGURED'' ''DOC_STORE_DATABASE_URL is not configured''"

definition chunker_code :: "chunker_error \<Rightarrow> string" where
  "chunker_code e = (case e of
       Unsupported_strategy _ \<Rightarrow> ''CHUNKER_UNSUPPORTED_STRATEGY'' | Chunker_unavailable \<Rightarrow> ''CHUNKER_UNAVAILABLE''
     | Chunker_internal \<Rightarrow> ''CHUNKER_INTERNAL_ERROR'' | Batch_unavailable \<Rightarrow> ''CHUNKER_BATCH_UNAVAILABLE''
     | Batch_lengths _ _ \<Rightarrow> ''CHUNKER_CONTRACT_ERROR'' | Invalid_response \<Rightarrow> ''CHUNKER_INVALID_RESPONSE''
     | Empty_result \<Rightarrow> ''CHUNKER_EMPTY_RESULT'' | Contract_error _ \<Rightarrow> ''CHUNKER_CONTRACT_ERROR''
     | Bad_uuid \<Rightarrow> ''PERSISTENCE_FAILED'' | Empty_batch _ _ \<Rightarrow> ''CHUNKER_EMPTY_RESULT''
     | Sentence_outside _ _ _ _ \<Rightarrow> ''CHUNKER_CONTRACT_ERROR'' | Batch_count _ _ \<Rightarrow> ''CHUNKER_INVALID_RESPONSE'')"

definition refusal_message :: "span_diagnostic \<Rightarrow> string" where
  "refusal_message d = ''Ingestion is not successful: the normalized source and the scope reconstructed from it '' @
     (case sp_byte_offset d of
        Some n \<Rightarrow> ''first differ at byte offset '' @ nat_digits n
      | None \<Rightarrow> ''are a strict prefix of one another up to the length boundary '' @
          (case sp_length_boundary d of Some n \<Rightarrow> nat_digits n | None \<Rightarrow> ''None'')) @ ''.''"

definition refusal_failure :: "span_diagnostic \<Rightarrow> string \<Rightarrow> string \<Rightarrow> json_dict" where
  "refusal_failure d source_sha back_sha =
     (let text_or = (\<lambda>v. case v of None \<Rightarrow> J_null | Some t \<Rightarrow> J_str t);
          number_or = (\<lambda>v. case v of None \<Rightarrow> J_null | Some n \<Rightarrow> J_int (int n));
          id_or = (\<lambda>v. case v of None \<Rightarrow> J_null | Some u \<Rightarrow> J_str (uuid_str u))
      in [(''code'', J_str ''SOURCE_INTEGRITY_MISMATCH''), (''message'', J_str (refusal_message d)),
          (''context'', J_object
            [(''source_sha256'', J_str source_sha), (''reconstruction_sha256'', J_str back_sha),
             (''first_difference_offset'', number_or (sp_byte_offset d)), (''length_boundary'', number_or (sp_length_boundary d)),
             (''context_before'', text_or (sp_before d)), (''context_after'', text_or (sp_after d)),
             (''authorization_decision'', J_str (sp_authorization d)), (''redaction_policy'', J_str (sp_policy d)),
             (''redaction_applied'', J_bool (sp_redacted d)), (''span_id'', J_str (uuid_str (sp_id d))),
             (''document_id'', id_or (sp_document d)), (''chapter_id'', id_or (sp_chapter d)), (''chunk_id'', id_or (sp_chunk d))])])"

definition persistence_failed :: json_dict where
  "persistence_failed = [(''code'', J_str ''PERSISTENCE_FAILED'')]"

section \<open>References\<close>

definition uuid_list :: "uuid list \<Rightarrow> json" where
  "uuid_list is = J_list (map (\<lambda>i. J_str (uuid_str i)) is)"

text \<open>What \<open>publish_transaction\<close> returns for a committed version.\<close>

definition committed_references :: "persistence_plan \<Rightarrow> references \<Rightarrow> json_dict" where
  "committed_references plan z =
     [(''idempotent'', J_bool False), (''document_id'', J_str (uuid_str (z_document z))),
      (''source_version_id'', J_str (l_source_version_id plan)), (''source_version'', J_int (z_version z)),
      (''chapter_ids'', uuid_list (z_chapters z)), (''paragraph_ids'', uuid_list (z_paragraphs z)),
      (''chunk_ids'', uuid_list (z_chunks z)), (''chunking_strategy'', J_str (l_strategy plan)),
      (''chunker'', J_str ''svo''), (''primary_source_id'', J_str (uuid_str (z_source z))),
      (''processing_run_id'', J_str (uuid_str (z_run z))), (''processing_run_status'', J_str ''succeeded''),
      (''integrity_outcome'', J_str ''match''), (''source_state_assertion_id'', J_str (uuid_str (z_assertion z)))]"

definition reason_text :: "replay_reason \<Rightarrow> string" where
  "reason_text r = (case r of File_checksum_match \<Rightarrow> ''file_checksum_match''
     | Source_version_match \<Rightarrow> ''source_version_match'' | Revectorization_pending \<Rightarrow> ''revectorization_pending'')"

definition replay_references :: "uuid \<Rightarrow> replay \<Rightarrow> json_dict" where
  "replay_references d r =
     [(''idempotent'', J_bool (u_idempotent r)), (''idempotent_reason'', J_str (reason_text (u_reason r))),
      (''document_id'', J_str (uuid_str d)), (''source_version_id'', J_str (u_version_id r)),
      (''source_version'', J_int (u_version r)), (''chunk_ids'', uuid_list (u_chunks r)),
      (''chunking_strategy'', J_str (u_strategy r))]"

section \<open>Persisting a source\<close>

datatype persist_error = Persist_chunker chunker_error | Persist_failed json_dict

definition of_chunker :: "chunker_error \<Rightarrow> persist_error" where
  "of_chunker e = (if e = Bad_uuid then Persist_failed persistence_failed else Persist_chunker e)"

definition outcome_references ::
  "persistence_plan \<Rightarrow> replay publication_outcome \<Rightarrow> (persist_error, json_dict) result" where
  "outcome_references plan outcome = (case outcome of
       Committed z \<Rightarrow> Inr (committed_references plan z)
     | Idempotent_replay r \<Rightarrow> Inr (replay_references (l_document plan) r)
     | Rolled_back _ \<Rightarrow> Inl (Persist_failed persistence_failed)
     | Integrity_refused d a b \<Rightarrow> Inl (Persist_failed (refusal_failure d a b)))"

text \<open>\<open>publish_document\<close> with the repository bound to the plan and the chunks.\<close>

definition publish_source ::
  "ingestion_env \<Rightarrow> persistence_plan \<Rightarrow> runtime_chunk list \<Rightarrow> runtime_chunk list \<Rightarrow> pub_db
    \<Rightarrow> replay publication_outcome \<times> pub_db" where
  "publish_source env plan paragraphs sentences db =
     publish_document
       (if ie_reachable env then Some (replay_reference (ie_sha env) (ie_int10 env) (ie_render env) db (l_document plan)
          (Version_text (l_source_version_id plan)) (Some plan)) else None)
       (Some plan) (\<lambda>p. publish_version (ie_sha env) (ie_render env) (ie_actor env) p paragraphs sentences) db"

definition persist_source ::
  "ingestion_env \<Rightarrow> request_context \<Rightarrow> ingestion_state \<Rightarrow> (persist_error, json_dict) result \<times> ingestion_state" where
  "persist_source env q s =
     (let source_id = uuid_str (q_document q) in
      case ie_chunk env (q_text q) ''paragraph'' source_id of
        Inl e \<Rightarrow> (Inl (of_chunker e), s)
      | Inr paragraphs \<Rightarrow> (case sentence_chunks_from_batch (ie_batch env) paragraphs source_id of
            Inl e \<Rightarrow> (Inl (of_chunker e), s)
          | Inr sentences \<Rightarrow> (case canonical_aggregate (ie_fresh env) (ie_factory env) q paragraphs sentences (ig_draws s) of
                Inl e \<Rightarrow> (Inl (Persist_failed persistence_failed), s)
              | Inr a \<Rightarrow>
                  (let plan = map_plan (ie_sha env) q (vt_version (ag_trace a));
                       (outcome, db) = publish_source env plan paragraphs sentences (ig_db s)
                   in (outcome_references plan outcome,
                       s\<lparr>ig_db := db, ig_draws := ig_draws s + 2 + length (ag_paragraphs a) + length (ag_chunks a)\<rparr>)))))"

section \<open>The chunking strategy\<close>

definition chunking_strategies :: "string list" where
  "chunking_strategies = [''paragraph'', ''sentence'', ''semantic'']"

text \<open>A document that is not marked as removed; \<open>None\<close> where the database or \<open>UUID(document_id)\<close> raises.\<close>

definition visible_document :: "ingestion_env \<Rightarrow> pub_db \<Rightarrow> string \<Rightarrow> (uuid \<times> document_entry) option option" where
  "visible_document env db document_id =
     (if \<not> ie_reachable env then None
      else case uuid_of_string document_id of
        None \<Rightarrow> None
      | Some d \<Rightarrow> Some (case map_of (b_documents db) d of
            Some m \<Rightarrow> if m_removed_at m = None then Some (d, m) else None
          | None \<Rightarrow> None))"

definition stored_strategy :: "ingestion_env \<Rightarrow> pub_db \<Rightarrow> string \<Rightarrow> string option option" where
  "stored_strategy env db document_id =
     (if \<not> configured_url env then Some None
      else map_option (\<lambda>row. case row of
          None \<Rightarrow> None
        | Some (_, m) \<Rightarrow> (case json_field (ie_render env) (m_meta m) ''chunking_strategy'' of
              Some v \<Rightarrow> if List.member chunking_strategies v then Some v else None
            | None \<Rightarrow> None)) (visible_document env db document_id))"

text \<open>\<open>None\<close>: an exception, among them the \<open>ValueError\<close> of \<open>_validated_chunking_strategy\<close>.\<close>

definition resolve_strategy :: "ingestion_env \<Rightarrow> pub_db \<Rightarrow> ingestion_call \<Rightarrow> (json_dict, string) result option" where
  "resolve_strategy env db c = (case ic_strategy c of
       Some v \<Rightarrow> if List.member chunking_strategies v then Some (Inr v) else None
     | None \<Rightarrow>
         if ic_command c = ''document_create''
         then Some (Inl (failure_dict ''CHUNKING_STRATEGY_REQUIRED'' ''chunking_strategy is required when creating a document''))
         else map_option (\<lambda>stored. case stored of
             None \<Rightarrow> Inl (failure_dict ''CHUNKING_STRATEGY_REQUIRED'' ''document has no stored chunking_strategy'')
           | Some v \<Rightarrow> Inr v) (stored_strategy env db (ic_document c)))"

section \<open>The ends of a call\<close>

definition completed_payload ::
  "ingestion_call \<Rightarrow> string \<Rightarrow> string \<Rightarrow> string \<Rightarrow> json_dict \<Rightarrow> json_dict" where
  "completed_payload c status started completed references =
     [(''status'', J_str status), (''progress'', J_int 100), (''document_id'', J_str (ic_document c)),
      (''timestamps'', J_object [(''started_at'', J_str started), (''completed_at'', J_str completed)]),
      (''document_reference'', J_object [(''id'', J_str (ic_document c)), (''version'', json_get references ''source_version'')]),
      (''version_reference'', J_object references), (''failure'', J_null),
      (''worker'', J_object [(''action'', J_str ''completed''), (''command'', J_str (ic_command c))])]"

definition record_finished ::
  "ingestion_env \<Rightarrow> ingestion_call \<Rightarrow> string \<Rightarrow> string \<Rightarrow> string \<Rightarrow> json_dict \<Rightarrow> ingestion_state \<Rightarrow> call_end \<times> ingestion_state" where
  "record_finished env c started public_status status references s =
     (let completed = ie_now env (ig_ticks s) in
      (Answers ((''status'', J_str status) # references),
       note_status env (ic_operation c) (completed_payload c public_status started completed references)
         (s\<lparr>ig_ticks := Suc (ig_ticks s)\<rparr>)))"

definition persist_failure :: "persist_error \<Rightarrow> json_dict" where
  "persist_failure e = (case e of Persist_chunker x \<Rightarrow> [(''code'', J_str (chunker_code x))] | Persist_failed failure \<Rightarrow> failure)"

section \<open>Rechunking a stored document\<close>

definition stored_paragraphs :: "pub_db \<Rightarrow> uuid \<Rightarrow> string list" where
  "stored_paragraphs db d = map (y_text \<circ> snd) (sort_key (\<lambda>(i, y). (y_order y, i))
     (filter (\<lambda>(i, y). y_document y = d \<and> y_removed_at y = None) (b_paragraphs db)))"

definition paragraph_break :: string where
  "paragraph_break = [char_of (10::nat), char_of (10::nat)]"

text \<open>
  \<open>_load_existing_document_source\<close>; a publication writes the same digest to \<open>documents.source_hash\<close> and to
  \<open>body_sha256\<close>.
\<close>

definition load_source ::
  "ingestion_env \<Rightarrow> pub_db \<Rightarrow> string \<Rightarrow> (json_dict, string \<times> string \<times> string option \<times> string) result option" where
  "load_source env db document_id = (case visible_document env db document_id of
       None \<Rightarrow> None
     | Some None \<Rightarrow> Some (Inl (failure_dict ''DOCUMENT_NOT_FOUND'' ''document does not exist''))
     | Some (Some (d, m)) \<Rightarrow>
         let body = joined paragraph_break (filter (\<lambda>t. t \<noteq> []) (stored_paragraphs db d)) in
         if body = [] then Some (Inl (failure_dict ''DOCUMENT_TEXT_NOT_FOUND'' ''document has no stored text''))
         else Some (Inr (body,
           (let v = json_get (m_meta m) ''source_version_id'' in if json_true v then json_str v else ''stored''),
           m_name m, if m_body_sha m = [] then ie_sha env body else m_body_sha m)))"

definition rechunk_context ::
  "ingestion_call \<Rightarrow> uuid \<Rightarrow> string \<Rightarrow> string \<times> string \<times> string option \<times> string \<Rightarrow> request_context" where
  "rechunk_context c d strategy = (\<lambda>(body, version, filename, content_sha).
     let version = (if ic_version c \<noteq> ''stored'' then ic_version c else version) in
     \<lparr>q_document = d, q_source_version = version, q_normalized_version = version, q_operation = ic_operation c,
      q_command = ic_command c, q_text = body, q_filename = filename, q_content_sha = content_sha,
      q_strategy = strategy, q_media_type = None, q_byte_length = None\<rparr>)"

definition rechunk_existing ::
  "ingestion_env \<Rightarrow> ingestion_call \<Rightarrow> string \<Rightarrow> ingestion_state \<Rightarrow> call_end \<times> ingestion_state" where
  "rechunk_existing env c started s =
     (if \<not> configured_url env then record_failed env c started not_configured s
      else case resolve_strategy env (ig_db s) c of
        None \<Rightarrow> (Escapes, s)
      | Some (Inl failure) \<Rightarrow> record_failed env c started failure s
      | Some (Inr strategy) \<Rightarrow> (case load_source env (ig_db s) (ic_document c) of
            None \<Rightarrow> (Escapes, s)
          | Some (Inl failure) \<Rightarrow> record_failed env c started failure s
          | Some (Inr source) \<Rightarrow>
              (case persist_source env (rechunk_context c (the (uuid_of_string (ic_document c))) strategy source) s of
                 (Inl e, s') \<Rightarrow> record_failed env c started (persist_failure e) s'
               | (Inr references, s') \<Rightarrow> record_finished env c started ''completed'' ''committed'' references s')))"

section \<open>The call\<close>

definition default_call :: "string \<Rightarrow> string option \<Rightarrow> transferred option \<Rightarrow> normalize_call" where
  "default_call document_id raw_text file_value =
     \<lparr>nc_text = raw_text, nc_file = file_value, nc_document = Ref_text document_id, nc_hint = None, nc_media_type = None,
      nc_filename = None, nc_profile = ''default'', nc_preset = None, nc_filters = [], nc_max = 16777216\<rparr>"

definition diagnostic_failure :: "diagnostic \<Rightarrow> json_dict" where
  "diagnostic_failure d = [(''code'', J_str (dg_code d)), (''message'', J_str (dg_message d)), (''context'', J_object (dg_context d))]"

definition file_log_descriptor :: "transferred option \<Rightarrow> json_dict" where
  "file_log_descriptor f = (case f of
       Some (Transfer_mapping d) \<Rightarrow>
         concat (map (\<lambda>k. case map_of d k of Some (Json_value v) \<Rightarrow> [(k, v)] | _ \<Rightarrow> [])
           [''transfer_id'', ''filename'', ''name'', ''media_type'', ''content_type'', ''size_bytes'', ''checksum_value'']) @
         (if map_of d ''content'' \<noteq> None \<or> map_of d ''data'' \<noteq> None then [(''content_redacted'', J_bool True)] else [])
     | _ \<Rightarrow> [])"

definition log_processed_source ::
  "ingestion_env \<Rightarrow> ingestion_call \<Rightarrow> normalized_request \<Rightarrow> ingestion_state \<Rightarrow> ingestion_state" where
  "log_processed_source env c r s =
     (let common = [(''operation_id'', J_str (ic_operation c)), (''document_id'', J_str (ic_document c)),
            (''source_version_id'', J_str (ic_version c)), (''command'', J_str (ic_command c)),
            (''content_sha256'', J_str (sm_sha (nr_metadata r)))];
          s = s\<lparr>ig_texts := ig_texts s @ [common @ [(''char_count'', J_int (int (length (nr_text r)))),
            (''preview_chars'', J_int (ie_preview env)), (''preview'', J_str (chunk_preview (ie_preview env) (nr_text r)))]]\<rparr>
      in if (case sm_filename (nr_metadata r) of Some (_ # _) \<Rightarrow> True | _ \<Rightarrow> False) \<or> ic_file c \<noteq> None
         then s\<lparr>ig_files := ig_files s @ [common @ [(''filename'', case sm_filename (nr_metadata r) of None \<Rightarrow> J_null | Some f \<Rightarrow> J_str f),
           (''transferred_file'', J_object (file_log_descriptor (ic_file c)))]]\<rparr>
         else s)"

definition source_context ::
  "ingestion_call \<Rightarrow> uuid \<Rightarrow> string \<Rightarrow> normalized_request \<Rightarrow> request_context" where
  "source_context c d strategy r =
     \<lparr>q_document = d, q_source_version = ic_version c, q_normalized_version = nr_version r, q_operation = ic_operation c,
      q_command = ic_command c, q_text = nr_text r, q_filename = sm_filename (nr_metadata r),
      q_content_sha = sm_sha (nr_metadata r), q_strategy = strategy, q_media_type = sm_media_type (nr_metadata r),
      q_byte_length = Some (int (sm_length (nr_metadata r)))\<rparr>"

definition ingest_source ::
  "ingestion_env \<Rightarrow> ingestion_call \<Rightarrow> string \<Rightarrow> normalized_request \<Rightarrow> string \<Rightarrow> ingestion_state \<Rightarrow> call_end \<times> ingestion_state" where
  "ingest_source env c started r strategy s =
     (let s = log_processed_source env c r s in
      if \<not> configured_url env then record_failed env c started not_configured s
      else let s = note_status env (ic_operation c) (running_payload c 40 ''persisting_hierarchy_and_embeddings'' started) s in
        case uuid_of_string (ic_document c) of
          None \<Rightarrow> record_failed env c started persistence_failed s
        | Some d \<Rightarrow> (case persist_source env (source_context c d strategy r) s of
              (Inl e, s') \<Rightarrow> record_failed env c started (persist_failure e) s'
            | (Inr references, s') \<Rightarrow>
                if json_true (json_get references ''idempotent'')
                then record_finished env c started ''idempotent'' ''idempotent_replay'' references s'
                else record_finished env c started ''completed'' ''committed'' references s'))"

text \<open>\<open>__call__\<close> once the operation is recorded as running.\<close>

definition ingest_started ::
  "ingestion_env \<Rightarrow> ingestion_call \<Rightarrow> string \<Rightarrow> ingestion_state \<Rightarrow> call_end \<times> ingestion_state" where
  "ingest_started env c started s =
     (if ic_command c = ''document_chunk'' then rechunk_existing env c started s
      else case normalize_source (ie_normalizer env) (default_call (ic_document c) (ic_text c) (ic_file c)) of
        Inl d \<Rightarrow> record_failed env c started (diagnostic_failure d) s
      | Inr r \<Rightarrow> (case resolve_strategy env (ig_db s) c of
            None \<Rightarrow> (Escapes, s)
          | Some (Inl failure) \<Rightarrow> record_failed env c started failure s
          | Some (Inr strategy) \<Rightarrow> ingest_source env c started r strategy s))"

definition started_state :: "ingestion_env \<Rightarrow> ingestion_call \<Rightarrow> ingestion_state \<Rightarrow> ingestion_state" where
  "started_state env c s = note_status env (ic_operation c)
     (running_payload c 10 ''normalizing_source'' (ie_now env (ig_ticks s))) (s\<lparr>ig_ticks := Suc (ig_ticks s)\<rparr>)"

definition ingest :: "ingestion_env \<Rightarrow> ingestion_call \<Rightarrow> ingestion_state \<Rightarrow> call_end \<times> ingestion_state" where
  "ingest env c s = ingest_started env c (ie_now env (ig_ticks s)) (started_state env c s)"

end
