(* ===== verification/Ingestion_Properties.thy ===== *)
theory Ingestion_Properties
  imports Ingestion_Boundary Publication_Properties
begin

text \<open>
  What a call of the ingestion does: how its status ends, what an answer says about the stored text, and
  what the status command makes of it.
\<close>

section \<open>The aggregate states the version of the request\<close>

lemma enrich_trace:
  assumes "enrich_hierarchy fresh factory upload version chapters chunks state run n = Inr (a, m)"
  shows "vt_version (ag_trace a) = version \<and> vt_upload (ag_trace a) = upload"
proof -
  from assms obtain d cs ps xs where "ag_trace a = trace_of upload version state run d cs ps xs"
    by (auto simp: enrich_hierarchy_def Let_def split: if_splits)
  then show ?thesis by (simp add: trace_of_def Let_def)
qed

lemma aggregate_version:
  assumes "canonical_aggregate fresh factory q paragraphs sentences n = Inr a"
  shows "vt_version (ag_trace a) = Stated_text (q_source_version q)"
proof -
  let ?enrich = "\<lambda>units. enrich_hierarchy fresh factory (q_document q) (Stated_text (q_source_version q))
      [\<lparr>ci_paragraphs = map fst units, ci_start = c_start (hd paragraphs), ci_end = c_end (last paragraphs)\<rparr>]
      (concat (map snd units)) None None n"
  from assms obtain units where
    "(case ?enrich units of Inl e \<Rightarrow> Inl (Not_enriched e) | Inr (b, _) \<Rightarrow> Inr b) = (Inr a :: (aggregate_error, aggregate) result)"
    unfolding canonical_aggregate_def bind_result_eq_Inr by blast
  then obtain m where "?enrich units = Inr (a, m)"
    by (cases "?enrich units") (simp_all split: prod.split_asm)
  from enrich_trace [OF this] show ?thesis by simp
qed

section \<open>How persisting ends\<close>

definition incoming_plan :: "ingestion_env \<Rightarrow> request_context \<Rightarrow> persistence_plan" where
  "incoming_plan env q = map_plan (ie_sha env) q (Stated_text (q_source_version q))"

lemma incoming_plan_fields [simp]:
  "l_document (incoming_plan env q) = q_document q" "l_text (incoming_plan env q) = q_text q"
  "l_source_version_id (incoming_plan env q) = q_source_version q" "l_command (incoming_plan env q) = q_command q"
  "l_content_sha (incoming_plan env q) = q_content_sha q" "l_filename (incoming_plan env q) = q_filename q"
  by (simp_all add: incoming_plan_def map_plan_def Let_def)

lemma publish_ends:
  assumes "publish_source env plan paragraphs sentences db = (outcome, db')" "outcome_references plan outcome = Inr refs"
  obtains (published) z where "publish_version (ie_sha env) (ie_render env) (ie_actor env) plan paragraphs sentences db = (Published z, db')"
      "refs = committed_references plan z"
  | (replayed) r where "replay_reference (ie_sha env) (ie_int10 env) (ie_render env) db (l_document plan)
        (Version_text (l_source_version_id plan)) (Some plan) = Some r" "db' = db" "refs = replay_references (l_document plan) r"
proof (cases outcome)
  case (Committed z)
  with assms have "publish_version (ie_sha env) (ie_render env) (ie_actor env) plan paragraphs sentences db = (Published z, db')"
    unfolding publish_source_def publish_document_def
    by (auto split: if_split_asm option.split_asm prod.split_asm publish_result.split_asm)
  moreover from assms(2) Committed have "refs = committed_references plan z" by (simp add: outcome_references_def)
  ultimately show ?thesis by (rule published)
next
  case (Idempotent_replay r)
  with assms(1) have "replay_reference (ie_sha env) (ie_int10 env) (ie_render env) db (l_document plan)
      (Version_text (l_source_version_id plan)) (Some plan) = Some r \<and> db' = db"
    unfolding publish_source_def publish_document_def
    by (auto split: if_split_asm option.split_asm prod.split_asm publish_result.split_asm)
  moreover from assms(2) Idempotent_replay have "refs = replay_references (l_document plan) r" by (simp add: outcome_references_def)
  ultimately show ?thesis by (intro replayed) simp_all
qed (use assms(2) in \<open>simp_all add: outcome_references_def\<close>)

lemma persist_fields:
  assumes "persist_source env q s = (r, s')"
  shows "ig_status s' = ig_status s \<and> ig_ticks s' = ig_ticks s \<and> ig_texts s' = ig_texts s \<and> ig_files s' = ig_files s \<and> ig_errors s' = ig_errors s"
  using assms by (auto simp: persist_source_def Let_def split: sum.splits prod.splits)

lemma persist_ends:
  assumes "persist_source env q s = (Inr refs, s')"
  obtains (published) paragraphs sentences z where
      "publish_version (ie_sha env) (ie_render env) (ie_actor env) (incoming_plan env q) paragraphs sentences (ig_db s) = (Published z, ig_db s')"
      "refs = committed_references (incoming_plan env q) z"
  | (replayed) r where "replay_reference (ie_sha env) (ie_int10 env) (ie_render env) (ig_db s) (q_document q)
        (Version_text (q_source_version q)) (Some (incoming_plan env q)) = Some r" "ig_db s' = ig_db s"
      "refs = replay_references (q_document q) r"
proof -
  from assms obtain paragraphs sentences a outcome db where
    a: "canonical_aggregate (ie_fresh env) (ie_factory env) q paragraphs sentences (ig_draws s) = Inr a"
    and p: "publish_source env (map_plan (ie_sha env) q (vt_version (ag_trace a))) paragraphs sentences (ig_db s) = (outcome, db)"
    and o: "outcome_references (map_plan (ie_sha env) q (vt_version (ag_trace a))) outcome = Inr refs" "ig_db s' = db"
    by (auto simp: persist_source_def Let_def split: sum.splits prod.splits)
  from aggregate_version [OF a] have "map_plan (ie_sha env) q (vt_version (ag_trace a)) = incoming_plan env q"
    by (simp add: incoming_plan_def)
  with p o show ?thesis
    by (elim publish_ends) (auto intro: published replayed)
qed

section \<open>How the status ends\<close>

text \<open>The last payload of the operation, and that nothing says it is running.\<close>

definition settled_call :: "ingestion_call \<Rightarrow> ingestion_state \<Rightarrow> bool" where
  "settled_call c s \<longleftrightarrow> (\<exists>payload. map_of (rs_items (ig_status s)) (ic_operation c) = Some payload \<and>
     List.member [J_str ''completed'', J_str ''idempotent'', J_str ''failed''] (json_get payload ''status'')) \<and>
     (case rs_current (ig_status s) of Some a \<Rightarrow> av_operation a \<noteq> ic_operation c | None \<Rightarrow> True)"

definition stays_running :: "ingestion_call \<Rightarrow> ingestion_state \<Rightarrow> bool" where
  "stays_running c s \<longleftrightarrow> (\<exists>payload. map_of (rs_items (ig_status s)) (ic_operation c) = Some payload \<and>
     json_get payload ''status'' = J_str ''running'') \<and> map_option av_operation (rs_current (ig_status s)) = Some (ic_operation c)"

lemma json_get_head [simp]: "json_get ((k, v) # d) k' = (if k = k' then v else json_get d k')"
  by (simp add: json_get_def)

lemma settled_noted:
  assumes "json_get payload ''status'' \<in> {J_str ''completed'', J_str ''idempotent'', J_str ''failed''}"
  shows "settled_call c (note_status env (ic_operation c) payload s)"
  using assms by (auto simp: settled_call_def note_status_def record_items status_record_current split: option.splits)

lemma settled_failed: "settled_call c (snd (record_failed env c started failure s))"
proof -
  have "settled_call c (s\<lparr>ig_errors := e\<rparr>) = settled_call c s" for s e by (simp add: settled_call_def)
  then show ?thesis by (simp add: record_failed_def Let_def settled_noted failed_payload_def)
qed

lemma settled_completed:
  assumes "public_status = ''completed'' \<or> public_status = ''idempotent''"
  shows "settled_call c (snd (record_finished env c started public_status status references s))"
  using assms by (auto simp: record_finished_def Let_def completed_payload_def intro!: settled_noted)

lemma record_failed_answers: "\<exists>a. fst (record_failed env c started failure s) = Answers a"
  by (simp add: record_failed_def Let_def)

lemma record_finished_answers: "\<exists>a. fst (record_finished env c started p st refs s) = Answers a"
  by (simp add: record_finished_def Let_def)

text \<open>An end of a call: it answers and its operation is settled.\<close>

definition good_end :: "ingestion_call \<Rightarrow> call_end \<times> ingestion_state \<Rightarrow> bool" where
  "good_end c r \<longleftrightarrow> fst r \<noteq> Escapes \<and> settled_call c (snd r)"

lemma good_failed [simp]: "good_end c (record_failed env c started failure s)"
  using record_failed_answers [of env c started failure s] by (auto simp: good_end_def settled_failed)

lemma good_completed [simp]:
  "good_end c (record_finished env c started ''completed'' st refs s)"
  "good_end c (record_finished env c started ''idempotent'' st refs s)"
  by (simp_all add: good_end_def settled_completed) (simp_all add: record_finished_def Let_def)

lemma ingest_source_good: "good_end c (ingest_source env c started r strategy s)"
  by (simp add: ingest_source_def Let_def split: option.splits prod.splits sum.splits)

text \<open>When an exception leaves the call.\<close>

definition strategy_raises :: "ingestion_env \<Rightarrow> ingestion_call \<Rightarrow> bool" where
  "strategy_raises env c \<longleftrightarrow> (case ic_strategy c of
       Some v \<Rightarrow> \<not> List.member chunking_strategies v
     | None \<Rightarrow> ic_command c \<noteq> ''document_create'' \<and> configured_url env \<and>
         (\<not> ie_reachable env \<or> uuid_of_string (ic_document c) = None))"

lemma strategy_raises_iff: "resolve_strategy env db c = None \<longleftrightarrow> strategy_raises env c"
  by (auto simp: resolve_strategy_def strategy_raises_def stored_strategy_def visible_document_def split: option.splits)

definition call_raises :: "ingestion_env \<Rightarrow> ingestion_call \<Rightarrow> ingestion_state \<Rightarrow> bool" where
  "call_raises env c s \<longleftrightarrow>
     (if ic_command c = ''document_chunk''
      then configured_url env \<and> (strategy_raises env c \<or> \<not> ie_reachable env \<or> uuid_of_string (ic_document c) = None) \<and>
        \<not> (case resolve_strategy env (ig_db s) c of Some (Inl failure) \<Rightarrow> True | _ \<Rightarrow> False)
      else strategy_raises env c \<and>
        (\<exists>r. normalize_source (ie_normalizer env) (default_call (ic_document c) (ic_text c) (ic_file c)) = Inr r))"

lemma load_raises: "load_source env db d = None \<longleftrightarrow> \<not> ie_reachable env \<or> uuid_of_string d = None"
  by (auto simp: load_source_def visible_document_def Let_def split: option.splits)

lemma rechunk_ends:
  assumes "ic_command c = ''document_chunk''"
  shows "if call_raises env c s then rechunk_existing env c started s = (Escapes, s) else good_end c (rechunk_existing env c started s)"
  using assms strategy_raises_iff [of env "ig_db s" c] load_raises [of env "ig_db s" "ic_document c"]
  by (auto simp: rechunk_existing_def call_raises_def split: option.splits sum.splits prod.splits)


lemma ticked [simp]: "ig_db (note_status env op payload s) = ig_db s"
  by (simp add: note_status_def)

lemma running_noted:
  assumes "json_get payload ''status'' = J_str ''running''"
  shows "stays_running c (note_status env (ic_operation c) payload s)"
  using assms by (auto simp: stays_running_def note_status_def record_items status_record_current activity_of_def)

lemma rechunk_escape_state: "rechunk_existing env c started s = (Escapes, s') \<Longrightarrow> s' = s"
  by (auto simp: rechunk_existing_def record_failed_def record_finished_def Let_def split: if_splits option.splits sum.splits prod.splits)

lemma call_raises_status [simp]: "call_raises env c (s\<lparr>ig_ticks := n\<rparr>) = call_raises env c s"
  "call_raises env c (note_status env op payload s) = call_raises env c s"
  by (simp_all add: call_raises_def)

text \<open>
  A call of the ingestion lets an exception out exactly where the strategy or the stored document
  is looked up outside its handlers: for an unknown strategy, and, where a lookup is needed, for an
  identifier that is none or a database that does not answer. In every other case it answers, and the
  status of its operation ends as completed, idempotent or failed; where an exception leaves it, the
  operation is reported as running from then on.
\<close>

theorem ingest_settles:
  "(fst (ingest env c s) = Escapes \<longleftrightarrow> call_raises env c s) \<and>
   (if call_raises env c s then stays_running c (snd (ingest env c s)) else settled_call c (snd (ingest env c s)))"
proof -
  have run: "stays_running c (started_state env c s)" by (simp add: started_state_def running_noted running_payload_def)
  have r: "call_raises env c (started_state env c s) = call_raises env c s" by (simp add: started_state_def)
  have "if call_raises env c s' then ingest_started env c started s' = (Escapes, s') else good_end c (ingest_started env c started s')"
    for started s'
  proof (cases "ic_command c = ''document_chunk''")
    case True
    with rechunk_ends [OF True, of env s' started] show ?thesis by (simp add: ingest_started_def)
  next
    case False
    show ?thesis
    proof (cases "normalize_source (ie_normalizer env) (default_call (ic_document c) (ic_text c) (ic_file c))")
      case (Inl d)
      with False show ?thesis by (simp add: ingest_started_def call_raises_def)
    next
      case (Inr r)
      with False have "call_raises env c s' = strategy_raises env c" by (simp add: call_raises_def)
      with False Inr strategy_raises_iff [of env "ig_db s'" c] show ?thesis
        by (cases "resolve_strategy env (ig_db s') c") (auto simp: ingest_started_def ingest_source_good split: sum.split)
    qed
  qed
  from this [of "started_state env c s"] run r show ?thesis
    by (cases "call_raises env c s") (simp_all add: ingest_def good_end_def)
qed

section \<open>What a successful answer means\<close>

lemma completed_answer:
  assumes "record_finished env c started p st refs s = (Answers a, s')"
  shows "a = (''status'', J_str st) # refs" "ig_db s' = ig_db s"
    "\<exists>payload. map_of (rs_items (ig_status s')) (ic_operation c) = Some payload \<and> json_get payload ''status'' = J_str p"
  using assms by (auto simp: record_finished_def Let_def completed_payload_def note_status_def record_items)

lemma failed_answer: "record_failed env c started failure s = (Answers a, s') \<Longrightarrow> json_get a ''status'' = J_str ''rolled_back''"
  by (auto simp: record_failed_def Let_def)

lemma log_fields [simp]: "ig_db (log_processed_source env c r s) = ig_db s"
  by (simp add: log_processed_source_def Let_def)

text \<open>An answer that is no failure comes from a source that was persisted.\<close>

lemma ingest_answers:
  assumes "ingest env c s = (Answers a, s')" "json_get a ''status'' \<noteq> J_str ''rolled_back''" "ic_command c \<noteq> ''document_chunk''"
  obtains r d strategy refs s1 where
    "normalize_source (ie_normalizer env) (default_call (ic_document c) (ic_text c) (ic_file c)) = Inr r"
    "uuid_of_string (ic_document c) = Some d" "ig_db s1 = ig_db s"
    "ig_db s' = ig_db (snd (persist_source env (source_context c d strategy r) s1))"
    "fst (persist_source env (source_context c d strategy r) s1) = Inr refs"
    "a = (''status'', J_str (if json_true (json_get refs ''idempotent'') then ''idempotent_replay'' else ''committed'')) # refs"
    "\<exists>payload. map_of (rs_items (ig_status s')) (ic_operation c) = Some payload \<and>
       json_get payload ''status'' = J_str (if json_true (json_get refs ''idempotent'') then ''idempotent'' else ''completed'')"
proof -
  define started where "started = ie_now env (ig_ticks s)"
  define s1 where "s1 = started_state env c s"
  from assms(1) have ends: "ingest_started env c started s1 = (Answers a, s')" by (simp add: ingest_def s1_def started_def)
  then obtain r where r: "normalize_source (ie_normalizer env) (default_call (ic_document c) (ic_text c) (ic_file c)) = Inr r"
    using assms(2,3) by (auto simp: ingest_started_def split: sum.splits dest: failed_answer)
  with ends obtain strategy where st: "ingest_source env c started r strategy s1 = (Answers a, s')"
    using assms(2,3) by (auto simp: ingest_started_def split: option.splits sum.splits dest: failed_answer)
  define s2 where "s2 = note_status env (ic_operation c) (running_payload c 40 ''persisting_hierarchy_and_embeddings'' started)
    (log_processed_source env c r s1)"
  have db: "ig_db s2 = ig_db s" by (simp add: s2_def s1_def started_state_def)
  from st assms(2) obtain d where d: "uuid_of_string (ic_document c) = Some d"
    by (auto simp: ingest_source_def Let_def split: if_splits option.splits dest: failed_answer)
  with st assms(2) have eq: "(case persist_source env (source_context c d strategy r) s2 of
        (Inl e, s') \<Rightarrow> record_failed env c started (persist_failure e) s'
      | (Inr references, s') \<Rightarrow>
          if json_true (json_get references ''idempotent'')
          then record_finished env c started ''idempotent'' ''idempotent_replay'' references s'
          else record_finished env c started ''completed'' ''committed'' references s') = (Answers a, s')"
    by (auto simp: ingest_source_def Let_def s2_def split: if_splits dest: failed_answer)
  obtain x t where p: "persist_source env (source_context c d strategy r) s2 = (x, t)" by force
  with eq assms(2) obtain refs where x: "x = Inr refs" by (cases x) (auto dest: failed_answer)
  with eq p have end_eq: "(if json_true (json_get refs ''idempotent'')
      then record_finished env c started ''idempotent'' ''idempotent_replay'' refs t
      else record_finished env c started ''completed'' ''committed'' refs t) = (Answers a, s')" by simp
  show ?thesis
  proof (rule that [OF r d db])
    show "fst (persist_source env (source_context c d strategy r) s2) = Inr refs" using p x by simp
    show "ig_db s' = ig_db (snd (persist_source env (source_context c d strategy r) s2))"
      using p end_eq by (auto split: if_splits dest: completed_answer(2))
    show "a = (''status'', J_str (if json_true (json_get refs ''idempotent'') then ''idempotent_replay'' else ''committed'')) # refs"
      using end_eq by (auto split: if_splits dest: completed_answer(1))
    show "\<exists>payload. map_of (rs_items (ig_status s')) (ic_operation c) = Some payload \<and>
       json_get payload ''status'' = J_str (if json_true (json_get refs ''idempotent'') then ''idempotent'' else ''completed'')"
    proof (cases "json_true (json_get refs ''idempotent'')")
      case True
      with end_eq have "record_finished env c started ''idempotent'' ''idempotent_replay'' refs t = (Answers a, s')" by simp
      from completed_answer(3) [OF this] True show ?thesis by simp
    next
      case False
      with end_eq have "record_finished env c started ''completed'' ''committed'' refs t = (Answers a, s')" by simp
      from completed_answer(3) [OF this] False show ?thesis by simp
    qed
  qed
qed

lemma references_idempotent:
  "json_get (committed_references plan z) ''idempotent'' = J_bool False"
  "json_get (committed_references plan z) ''idempotent_reason'' = J_null"
  "json_get (replay_references d r) ''idempotent'' = J_bool (u_idempotent r)"
  "json_get (replay_references d r) ''idempotent_reason'' = J_str (reason_text (u_reason r))"
  by (simp_all add: committed_references_def replay_references_def) (simp_all add: json_get_def)

lemma committed_reads:
  assumes "fst (persist_source env q s) = Inr refs" "json_get refs ''idempotent_reason'' = J_null"
    and "q_text q \<noteq> []" "cdb_configured (b_store (ig_db s))"
    and "int (length (cdb_chunks (b_store (ig_db (snd (persist_source env q s)))))) \<le> limit"
  shows "\<exists>a. reconstruct_source_file (ie_sha env) (ie_render env) preview (ig_db (snd (persist_source env q s)))
      (document_selector (q_document q) limit) 0 = Inr a \<and> a_text a = q_text q \<and> \<not> a_truncated a"
proof -
  obtain s' where p: "persist_source env q s = (Inr refs, s')" using assms(1) by (cases "persist_source env q s") auto
  from p show ?thesis
  proof (cases rule: persist_ends)
    case (published paragraphs sentences z)
    from published_cases [OF published(1)] have z: "z_document z = q_document q" by force
    from assms(3) have ne: "l_text (incoming_plan env q) \<noteq> []" by simp
    note scope = published_scope [OF published(1) ne assms(4)]
    from assms(5) p have lim: "int (length (cdb_chunks (b_store (ig_db s')))) \<le> limit" by simp
    with scope(2) have "1 \<le> limit" by simp
    from reconstruct_document [OF scope(1) lim this scope(3) ne] p z show ?thesis by simp
  next
    case (replayed r)
    with assms(2) show ?thesis by (simp add: references_idempotent)
  qed
qed

text \<open>
  What a client sends is what a client reads: when a text is sent with \<open>document_create\<close> or
  \<open>document_update\<close> and the call answers that a version was committed (no earlier one was found), the
  reconstruction of the document at once returns exactly the sent text.
\<close>

theorem committed_text_reads_back:
  assumes "ingest env c s = (Answers a, s')" "json_get a ''status'' = J_str ''committed''"
    and "json_get a ''idempotent_reason'' = J_null" "ic_command c \<noteq> ''document_chunk''"
    and "ic_text c = Some t" "nz_decode (ie_normalizer env) (utf8 t) = Some t" "uuid_of_string (ic_document c) = Some d"
    and "cdb_configured (b_store (ig_db s))" "int (length (cdb_chunks (b_store (ig_db s')))) \<le> limit"
  shows "\<exists>r. reconstruct_source_file (ie_sha env) (ie_render env) preview (ig_db s') (document_selector d limit) 0 = Inr r \<and>
    a_text r = t \<and> \<not> a_truncated r"
proof -
  have "json_get a ''status'' \<noteq> J_str ''rolled_back''" using assms(2) by simp
  from ingest_answers [OF assms(1) this assms(4)] obtain r strategy refs s1 where
    r: "normalize_source (ie_normalizer env) (default_call (ic_document c) (ic_text c) (ic_file c)) = Inr r"
    and db: "ig_db s1 = ig_db s"
    and s': "ig_db s' = ig_db (snd (persist_source env (source_context c d strategy r) s1))"
    and refs: "fst (persist_source env (source_context c d strategy r) s1) = Inr refs"
    and a: "a = (''status'', J_str (if json_true (json_get refs ''idempotent'') then ''idempotent_replay'' else ''committed'')) # refs"
    using assms(7) by (metis option.inject)
  from raw_text_source [OF _ r, of t] assms(5,6) have t: "nr_text r = t" by (simp add: default_call_def)
  from r have "nr_text r \<noteq> []" by (elim normalize_accepted) (auto simp: py_strip_def)
  with committed_reads [OF refs, of limit preview] db s' a assms(3,8,9) t show ?thesis
    by (simp add: source_context_def)
qed

text \<open>
  An answer with the reason \<open>revectorization_pending\<close> says \<open>committed\<close> and the operation is reported as
  completed, but nothing was published: the tables are as they were, whatever text the call carried.
\<close>

theorem pending_update_publishes_nothing:
  assumes "ingest env c s = (Answers a, s')" "ic_command c \<noteq> ''document_chunk''"
    and "json_get a ''status'' \<noteq> J_str ''rolled_back''" "json_get a ''idempotent_reason'' = J_str ''revectorization_pending''"
  shows "json_get a ''status'' = J_str ''committed'' \<and> ig_db s' = ig_db s \<and>
    (\<exists>payload. map_of (rs_items (ig_status s')) (ic_operation c) = Some payload \<and> json_get payload ''status'' = J_str ''completed'')"
proof -
  from ingest_answers [OF assms(1,3,2)] obtain r d strategy refs s1 where
    db: "ig_db s1 = ig_db s"
    and s': "ig_db s' = ig_db (snd (persist_source env (source_context c d strategy r) s1))"
    and refs: "fst (persist_source env (source_context c d strategy r) s1) = Inr refs"
    and a: "a = (''status'', J_str (if json_true (json_get refs ''idempotent'') then ''idempotent_replay'' else ''committed'')) # refs"
    and st: "\<exists>payload. map_of (rs_items (ig_status s')) (ic_operation c) = Some payload \<and>
       json_get payload ''status'' = J_str (if json_true (json_get refs ''idempotent'') then ''idempotent'' else ''completed'')" .
  let ?q = "source_context c d strategy r"
  obtain t where p: "persist_source env ?q s1 = (Inr refs, t)" using refs by (cases "persist_source env ?q s1") auto
  from p have "\<not> json_true (json_get refs ''idempotent'') \<and> ig_db t = ig_db s1"
  proof (cases rule: persist_ends)
    case (published paragraphs sentences z)
    with assms(4) a show ?thesis by (simp add: references_idempotent)
  next
    case (replayed u)
    with assms(4) a have "u_reason u = Revectorization_pending"
      by (cases "u_reason u") (simp_all add: references_idempotent reason_text_def)
    with replayed(1) have "\<not> u_idempotent u"
      by (auto simp: replay_reference_def existing_references_def Let_def split: if_splits option.splits)
    with replayed show ?thesis by (simp add: references_idempotent)
  qed
  with a st s' db p show ?thesis by simp
qed

text \<open>
  The status command refuses the operation of every idempotent replay: the boundary records it as
  \<open>idempotent\<close>, which is not in the vocabulary of the command.
\<close>

theorem replayed_status_refused:
  assumes "ingest env c s = (Answers a, s')" "json_get a ''status'' = J_str ''idempotent_replay''" "py_strip (ic_operation c) \<noteq> []"
    and "ic_command c \<noteq> ''document_chunk''"
  shows "processing_status (Some (get_status render printed rows (ig_status s'))) (ic_operation c) None =
    status_failure (ic_operation c) ''INVALID_STATUS'' (''unsupported status '' @ repr_str ''idempotent'') None ''ValueError''"
proof -
  have "json_get a ''status'' \<noteq> J_str ''rolled_back''" using assms(2) by simp
  from ingest_answers [OF assms(1) this assms(4)] obtain refs where
    "a = (''status'', J_str (if json_true (json_get refs ''idempotent'') then ''idempotent_replay'' else ''committed'')) # refs"
    and st: "\<exists>payload. map_of (rs_items (ig_status s')) (ic_operation c) = Some payload \<and>
       json_get payload ''status'' = J_str (if json_true (json_get refs ''idempotent'') then ''idempotent'' else ''completed'')"
    by metis
  with assms(2) have "json_true (json_get refs ''idempotent'')" by (simp split: if_splits)
  with st obtain payload where payload: "map_of (rs_items (ig_status s')) (ic_operation c) = Some payload"
    "json_get payload ''status'' = J_str ''idempotent''" by auto
  then have "payload \<noteq> []" by (auto simp: json_get_def)
  with payload have "get_status render printed rows (ig_status s') (ic_operation c) None = payload"
    by (cases payload) (simp_all add: get_status_def)
  moreover have "lookup_code (''unsupported status '' @ repr_str ''idempotent'') = ''INVALID_STATUS''" by code_simp
  moreover have "status_params (ic_operation c) None = Inr None" using assms(3) by (simp add: status_params_def blank_def)
  ultimately show ?thesis using payload(2)
    by (simp add: processing_status_def project_status_def status_vocabulary_def)
qed

section \<open>Rechunking\<close>

lemma write_document_row:
  assumes "write_document plan s = Inr (x, s')"
  shows "\<exists>m. map_of (b_documents s') (l_document plan) = Some m \<and> m_content_sha m = l_content_sha plan \<and>
    m_body_sha m = l_body_sha plan"
  using assms
  by (auto simp: write_document_def Let_def document_of_plan_def same_view_def split: if_splits dest!: register_view)

lemma published_document:
  assumes "publish_version sha render actor plan paragraphs sentences s = (Published z, s')"
  shows "\<exists>m. map_of (b_documents s') (l_document plan) = Some m \<and> m_content_sha m = l_content_sha plan \<and>
    m_body_sha m = l_body_sha plan"
proof -
  from published_cases [OF assms] obtain sp chap source s2 g sh where
    w: "write_rows sha plan source chap sp s2 = Inr (g, sh)" and v: "same_view sh s'" .
  from w obtain s3 s4 s5 x y z' where d: "write_document plan s3 = Inr (x, s4)"
    and ch: "write_chapter plan chap s4 = Inr (y, s5)"
    and body: "write_paragraphs sha plan chap 0 \<lparr>g_paragraphs = [], g_spans = [], g_length = 0, g_previous = None\<rparr> sp s5 = Inr (z', sh)"
    unfolding write_rows_def Let_def tx_bind_iff by blast
  have "b_documents s' = b_documents s4"
    using v tx_keepsD [OF paragraphs_keep_documents body] write_chapter_frame(4) [OF ch] by (simp add: same_view_def)
  with write_document_row [OF d] show ?thesis by simp
qed

lemma rechunk_answers:
  assumes "ingest env c s = (Answers a, s')" "json_get a ''status'' \<noteq> J_str ''rolled_back''" "ic_command c = ''document_chunk''"
  obtains strategy source refs s1 where
    "ig_db s1 = ig_db s" "load_source env (ig_db s) (ic_document c) = Some (Inr source)"
    "ig_db s' = ig_db (snd (persist_source env (rechunk_context c (the (uuid_of_string (ic_document c))) strategy source) s1))"
    "fst (persist_source env (rechunk_context c (the (uuid_of_string (ic_document c))) strategy source) s1) = Inr refs"
proof -
  define s1 where "s1 = started_state env c s"
  have db: "ig_db s1 = ig_db s" by (simp add: s1_def started_state_def)
  from assms(1,3) have ends: "rechunk_existing env c (ie_now env (ig_ticks s)) s1 = (Answers a, s')"
    by (simp add: ingest_def ingest_started_def s1_def)
  then obtain strategy where st: "resolve_strategy env (ig_db s) c = Some (Inr strategy)"
    using assms(2) by (auto simp: rechunk_existing_def db split: if_splits option.splits sum.splits dest: failed_answer)
  with ends obtain source where so: "load_source env (ig_db s) (ic_document c) = Some (Inr source)"
    using assms(2) by (auto simp: rechunk_existing_def db split: if_splits option.splits sum.splits dest: failed_answer)
  let ?q = "rechunk_context c (the (uuid_of_string (ic_document c))) strategy source"
  obtain x t where p: "persist_source env ?q s1 = (x, t)" by force
  with ends st so have eq: "(case x of Inl e \<Rightarrow> record_failed env c (ie_now env (ig_ticks s)) (persist_failure e) t
      | Inr references \<Rightarrow> record_finished env c (ie_now env (ig_ticks s)) ''completed'' ''committed'' references t) = (Answers a, s')"
    using assms(2) by (auto simp: rechunk_existing_def db split: if_splits sum.splits dest: failed_answer)
  with assms(2) obtain refs where x: "x = Inr refs" by (cases x) (auto dest: failed_answer)
  with eq have "ig_db s' = ig_db t" by (auto dest: completed_answer(2))
  show ?thesis
  proof (rule that [OF db so])
    show "ig_db s' = ig_db (snd (persist_source env ?q s1))" using p \<open>ig_db s' = ig_db t\<close> by simp
    show "fst (persist_source env ?q s1) = Inr refs" using p x by simp
  qed
qed

text \<open>
  A rechunk that succeeds replaces the stored source by the texts of the stored paragraphs with an
  empty line between them: this is what the document reads as afterwards, while its content digest is
  still the digest of the text it replaces.
\<close>

theorem rechunk_replaces_source:
  assumes "ingest env c s = (Answers a, s')" "json_get a ''status'' = J_str ''committed''" "ic_command c = ''document_chunk''"
    and "uuid_of_string (ic_document c) = Some d" "map_of (b_documents (ig_db s)) d = Some m" "m_body_sha m \<noteq> []"
    and "cdb_configured (b_store (ig_db s))" "int (length (cdb_chunks (b_store (ig_db s')))) \<le> limit"
    and body: "body = joined paragraph_break (filter (\<lambda>t. t \<noteq> []) (stored_paragraphs (ig_db s) d))"
  shows "(\<exists>r. reconstruct_source_file (ie_sha env) (ie_render env) preview (ig_db s') (document_selector d limit) 0 = Inr r \<and>
      a_text r = body \<and> \<not> a_truncated r) \<and>
    (\<exists>m'. map_of (b_documents (ig_db s')) d = Some m' \<and> m_content_sha m' = m_body_sha m \<and> m_body_sha m' = ie_sha env body)"
proof -
  have "json_get a ''status'' \<noteq> J_str ''rolled_back''" using assms(2) by simp
  from rechunk_answers [OF assms(1) this assms(3), unfolded assms(4) option.sel] obtain strategy source refs s1 where
    db: "ig_db s1 = ig_db s" and so: "load_source env (ig_db s) (ic_document c) = Some (Inr source)"
    and s': "ig_db s' = ig_db (snd (persist_source env (rechunk_context c d strategy source) s1))"
    and refs: "fst (persist_source env (rechunk_context c d strategy source) s1) = Inr refs"
    .
  define q where "q = rechunk_context c d strategy source"
  from so assms(4-6) obtain version name where "source = (body, version, name, m_body_sha m)" "body \<noteq> []"
    by (auto simp: load_source_def visible_document_def Let_def body split: if_splits)
  then have q: "q_text q = body" "q_document q = d" "q_content_sha q = m_body_sha m" "q_command q = ''document_chunk''" "body \<noteq> []"
    using assms(3) by (simp_all add: q_def rechunk_context_def Let_def)
  obtain t where p: "persist_source env q s1 = (Inr refs, t)" using refs by (cases "persist_source env q s1") (auto simp: q_def)
  from p show ?thesis
  proof (cases rule: persist_ends)
    case (published paragraphs sentences z)
    have "json_get refs ''idempotent_reason'' = J_null" by (simp add: published(2) references_idempotent)
    with committed_reads [OF refs [folded q_def] this, of limit preview] published_document [OF published(1)] q p s' db assms(7,8)
    show ?thesis by (simp add: q_def incoming_plan_def map_plan_def Let_def)
  next
    case (replayed r)
    then show ?thesis by (simp add: replay_reference_def q)
  qed
qed

end
