(* ===== verification/Spec2Isabelle.thy ===== *)
theory Spec2Isabelle
  imports Temporal_Properties Chunk_Version_Properties Reconstruction_Properties Publication_Examples
    Entity_Value_Properties Entity_Tree Query_Properties Query_Window_Properties Vectorization_Files Vectorizer_Status
    Ingestion_Properties
begin

text \<open>
  A verification development of doc-store, a document store with a bitemporal history. Its server
  (\<open>src/src/doc_store_server\<close>) receives a source text, lets an external chunker divide it into paragraphs
  and sentences, publishes the hierarchy document / chapter / paragraph / chunk in a PostgreSQL database
  together with the metadata that gives the source back character by character, embeds the chunks with an
  external service, and answers searches. Entities are created, edited, deleted and restored by generic
  services, chunk texts are versioned, and assertions about an object carry an effective interval and
  transaction times.

  \<^bold>\<open>How the parts interact.\<close> The tables are the shared state. The chunker boundary and the publication write
  the hierarchy; the version service and the entity service edit it; the reconstruction reads it; the
  vectorizer turns it into vectors, which the search reads; the assertion service records the source states
  a publication appends. Every service runs its statements in one transaction, so the development writes an
  operation as a function in the transaction monad of \<open>Doc_Prelude\<close>: it raises, and \<open>transaction\<close> gives the
  tables back as they were, or it returns a value and new tables.

  \<^bold>\<open>Theories and sources\<close> (paths below \<open>src/src/doc_store_server\<close>).

    \<^item> \<open>Doc_Prelude\<close>, \<open>Py_Values\<close>, \<open>Py_Json\<close>, \<open>Py_Uuid\<close>, \<open>Py_Regex\<close>: results, transactions with their Hoare rules,
      dictionaries; the Python values, strings, JSON texts, UUIDs and regular expressions the code uses
      (\<open>commands/validation.py\<close>, \<open>runtime/previews.py\<close>, standard library).
    \<^item> \<open>Effective_Interval\<close>, \<open>Temporal_Assertions\<close>, \<open>Temporal_Service\<close>, with \<open>Temporal_Invariant\<close>, \<open>Temporal_Effects\<close>,
      \<open>Temporal_As_Of\<close>, \<open>Temporal_Properties\<close>: \<open>runtime/temporal_assertions.py\<close>. \<open>tdb\<close> holds the registry, the
      revisions and the typed payloads; \<open>Temporal_Service\<close> is the state machine of committed and rolled back
      calls, clock steps and changes by other services. \<open>Bitemporal_Resolution\<close>: the reading side in
      \<open>commands/retrieval_commands.py\<close>. The locale \<open>assertion_history\<close> is the contract between writer and reader.
    \<^item> \<open>Chunk_Versions\<close>, \<open>Chunk_Version_Service\<close>, \<open>Chunk_Version_Invariant\<close>, \<open>Chunk_Version_Properties\<close>:
      \<open>runtime/chunk_versions.py\<close> over \<open>cdb\<close>; \<open>Chunk_Entity_Update\<close>: the second writer of the same tables in
      \<open>runtime/entity_lifecycle.py\<close>.
    \<^item> \<open>Exact_Reconstruction\<close>, \<open>Text_Reconstruction\<close>, \<open>Document_Scope\<close>: \<open>runtime/exact_reconstruction.py\<close>,
      \<open>runtime/text_reconstruction.py\<close> and \<open>_reconstructed_scope_text\<close>. \<open>Svo_Chunking\<close>, \<open>Ingestion_Plan\<close>,
      \<open>Integrity\<close>: \<open>ingestion/svo_chunking.py\<close>, the sentence passes of \<open>ingestion/runtime_boundary.py\<close>, the verdict
      and \<open>ingestion/integrity_diagnostics.py\<close>, with \<open>Redaction\<close> on what a redacted text may show.
      \<open>Reconstruction_Properties\<close> holds the round trip.
    \<^item> \<open>Publication_Mapper\<close>, \<open>Publication_Store\<close>, \<open>Publication_Writes\<close>, \<open>Publication\<close>: \<open>ingestion/publication_mapper.py\<close>,
      \<open>ingestion/publication_repository.py\<close>, \<open>ingestion/publication.py\<close> and the statements of
      \<open>ingestion/runtime_boundary.py\<close> over \<open>pub_db\<close>, which extends the chunk tables with the hierarchy, the files,
      sources, runs and states. \<open>Publication_Effects\<close>, \<open>_Scope\<close>, \<open>_Match\<close>, \<open>_Keeps\<close>, \<open>_Reads\<close> are its lemmas,
      \<open>Publication_Properties\<close>, \<open>_Orders\<close>, \<open>_Edits\<close>, \<open>_Examples\<close> its properties and their instances.
    \<^item> \<open>Entity_Values\<close>, \<open>Entity_Graph\<close>, \<open>Entity_Service\<close>, with \<open>Entity_Effects\<close>, \<open>Entity_Tree\<close>, \<open>Entity_Properties\<close>,
      \<open>Entity_Value_Properties\<close>: \<open>runtime/entity_lifecycle.py\<close>.
    \<^item> \<open>Query_Plan\<close>, \<open>Query_Sql\<close>, \<open>Query_Results\<close>, \<open>Query_Boundary\<close>, \<open>Query_Window\<close>, \<open>Query_Fusion\<close>, with \<open>Query_Properties\<close>
      and \<open>Query_Window_Properties\<close>: the package \<open>query\<close>.
    \<^item> \<open>Vectorization\<close>, \<open>Vectorization_Service\<close>, \<open>Vectorizer_Status\<close>, with \<open>Vectorization_Effects\<close>, \<open>_Constraints\<close>, \<open>_Loop\<close>,
      \<open>_Properties\<close>, \<open>_Files\<close>, \<open>_Examples\<close>: \<open>runtime/vectorization.py\<close>, \<open>runtime/embedding_config.py\<close>.
    \<^item> \<open>Source_Normalizer\<close>, \<open>Hierarchy_Enrichment\<close>, \<open>Runtime_Status\<close>, \<open>Ingestion_Boundary\<close>, with \<open>Ingestion_Properties\<close>:
      \<open>ingestion/source_normalizer.py\<close>, \<open>ingestion/hierarchy_enrichment.py\<close> with \<open>domain\<close>, the status registry with
      \<open>commands/processing_status_command.py\<close>, and the whole call of \<open>RuntimeIngestionBoundary\<close>, which normalises the
      source, asks the chunker, publishes and records the status of the operation.

  \<^bold>\<open>Conventions.\<close> A string is a list of characters below 256; where the code counts UTF-8 bytes the model
  encodes. A time is an integer instant and \<open>now()\<close> the clock field of the tables, constant within a
  transaction. A row is a record in an association list under its primary key, in the order of insertion; a
  unique key, a check or a foreign key is a constraint that makes the statement raise, as the schema
  (\<open>db/schema.py\<close>, \<open>src/migrations\<close>) declares it. Fresh identifiers are drawn from a supply in the state, which a
  rollback does not give back. White space in the text of an SQL statement is normalised. Floating-point
  numbers are rationals; integers keep their column's width where the code can reach it (\<open>int4\<close>).

  \<^bold>\<open>Parameters.\<close> SHA-256, the rendering of a JSON column, \<open>datetime.fromisoformat\<close>, \<open>difflib\<close>, the chunker and its
  chunk classes, the media type guess, the embedding service, the vector distance, the query class of the adapter and its score
  helper are arguments of the definitions that use them. What the code relies on is a named hypothesis: the
  answers of the chunker are not trusted but checked by the code, a digest is only ever compared, a supply of
  identifiers is fresh.

  \<^bold>\<open>What the lemmas show.\<close> Assertions: uniqueness of the accepted assertion at a pair of times, stability of
  past reads, corrections partition an interval, deletion and restoration are inverse. Chunk versions: one
  current version, agreement of pointer, flag and projected text under every order of both writers.
  Reconstruction: stored pieces give the source back; a success of the publication is readable by the
  command. Entities: closure of deletions, exactness of hard deletion, undo of soft deletion, bounds of the
  owner tree. Ingestion: every call settles its operation except where an exception leaves it, and a
  committed text reads back. Search: the ranking of the fusion and the window of the refined search against their
  specifications. Vectorizer: when a rebuild returns and what it leaves behind.

  \<^bold>\<open>Loops.\<close> The walk over descendants has a measure (the tables are finite), backtracking in \<open>Py_Regex\<close> decreases the
  rest of the text, the owner tree is cut by its depth, and the blocks of the backwards log reader decrease the
  position. The loop of a rebuild need not end, so it is a \<open>partial_function\<close>, and the theorem on it
  says exactly when it does. The only fuel is the length of the text in \<open>scan_all\<close> of \<open>Py_Regex\<close>, of which
  every round takes a character.

  \<^bold>\<open>Divergences found\<close>, each proved where it can be: deleting the current version of a chunk leaves it without one;
  a document deleted once can never be published again; the chapter orders double with every
  publication, so the thirty-third of a document fails;
  a versioned edit of a published chunk breaks its reconstruction; hard deletion overlooks owners outside
  projects, files and documents; an update of a document erases columns it does not name; no file can be
  created through the entity service; a rebuild of an unknown document never ends; the vector of a file
  covers the documents of the last batch; an address that straddles a divergence is not redacted; a replayed
  operation has a status the status command refuses; a rechunk replaces the source under its old digest; an
  update whose vectors are pending is answered as committed though nothing is published.

  \<^bold>\<open>Not modelled.\<close> Opening engines, connection pools, asyncio and threads; the registration of commands with the
  adapter, its help texts and schemas; the entry points (\<open>main.py\<close>, \<open>config_cli.py\<close>), health metrics of the host
  and the service manager, which are process and file I/O; the migrations, whose result the tables above
  state; the client library, which sends requests over a third-party transport; the operational
  scripts.
\<close>

end
